(* ===== verification/GoPrelude.thy ===== *)
theory GoPrelude
  imports Main "HOL-Library.Word"
begin

text \<open>
  The vocabulary every component of the model shares.

  Go values and their types here: a \<open>byte\<close> is an 8-bit word, a Go string is a list of
  bytes written as characters (\<open>string\<close>), a fallible call returns a sum whose left side
  is the error, a \<open>time.Time\<close> is the number of nanoseconds since the zero time of the
  Go library (so the zero time, the one \<open>IsZero\<close> recognises, is 0) and a
  \<open>time.Duration\<close> is a number of nanoseconds. The functions of the Go standard library
  that the program calls on strings (\<open>strings.TrimSpace\<close>, \<open>strings.HasPrefix\<close>,
  \<open>strings.Index\<close>, decimal and hexadecimal conversions) are defined here as well.
\<close>

unbundle bit_operations_syntax

named_theorems codec_simps \<open>evaluation and length facts of the voice codec\<close>
named_theorems go_string_simps \<open>equations of the string functions on their usual arguments\<close>

type_synonym byte = "8 word"
type_synonym int16 = "16 word"
type_synonym time = int
type_synonym duration = int

abbreviation (input) zero_time :: time where "zero_time \<equiv> 0"

abbreviation (input) second :: duration where "second \<equiv> 1000000000"

section \<open>Fallible calls\<close>

text \<open>The sequence \<open>x, err := f(); if err != nil { return err }\<close>.\<close>

fun rbind :: "'e + 'a \<Rightarrow> ('a \<Rightarrow> 'e + 'b) \<Rightarrow> 'e + 'b" where
  "rbind (Inl e) f = Inl e"
| "rbind (Inr a) f = f a"

lemma rbind_cong [fundef_cong]:
  "x = y \<Longrightarrow> (\<And>a. y = Inr a \<Longrightarrow> f a = g a) \<Longrightarrow> rbind x f = rbind y g"
  by (cases y) auto

lemma rbind_Inr_iff: "rbind x f = Inr b \<longleftrightarrow> (\<exists>a. x = Inr a \<and> f a = Inr b)"
  by (cases x) auto

lemma rbind_Inl_iff: "rbind x f = Inl e \<longleftrightarrow> x = Inl e \<or> (\<exists>a. x = Inr a \<and> f a = Inl e)"
  by (cases x) auto

lemma rbind_split:
  "P (rbind x f) \<longleftrightarrow> (\<forall>e. x = Inl e \<longrightarrow> P (Inl e)) \<and> (\<forall>a. x = Inr a \<longrightarrow> P (f a))"
  by (cases x) auto

lemma rbind_map_sum:
  "rbind (map_sum f id x) (\<lambda>a. Inr (h a)) = map_sum f id (rbind x (\<lambda>a. Inr (h a)))"
  by (cases x) auto

lemma rbind_assoc: "rbind (rbind x f) g = rbind x (\<lambda>a. rbind (f a) g)"
  by (cases x) auto

text \<open>The same sequence for calls that also change a state.\<close>

definition ebind :: "('s \<Rightarrow> ('e + 'a) \<times> 's) \<Rightarrow> ('a \<Rightarrow> 's \<Rightarrow> ('e + 'b) \<times> 's) \<Rightarrow> 's \<Rightarrow> ('e + 'b) \<times> 's" where
  "ebind m f s = (case m s of (Inl e, s') \<Rightarrow> (Inl e, s') | (Inr a, s') \<Rightarrow> f a s')"

definition ok :: "'a \<Rightarrow> 's \<Rightarrow> ('e + 'a) \<times> 's" where
  "ok a s = (Inr a, s)"

definition fail :: "'e \<Rightarrow> 's \<Rightarrow> ('e + 'a) \<times> 's" where
  "fail e s = (Inl e, s)"

text \<open>A call that returns only an error, with the error wrapped by the caller.\<close>

definition checked :: "('x \<Rightarrow> 'e) \<Rightarrow> ('s \<Rightarrow> 'x option \<times> 's) \<Rightarrow> 's \<Rightarrow> ('e + unit) \<times> 's" where
  "checked wrap m s = (case m s of (None, s') \<Rightarrow> (Inr (), s') | (Some x, s') \<Rightarrow> (Inl (wrap x), s'))"

text \<open>A call that returns a value or an error, with the error wrapped by the caller.\<close>

definition wrapped :: "('x \<Rightarrow> 'e) \<Rightarrow> ('s \<Rightarrow> ('x + 'a) \<times> 's) \<Rightarrow> 's \<Rightarrow> ('e + 'a) \<times> 's" where
  "wrapped wrap m s = (case m s of (r, s') \<Rightarrow> (map_sum wrap id r, s'))"

section \<open>Integers\<close>

text \<open>
  A Go \<open>int\<close> has 64 bits: \<open>int64\<close> is the wrap-around of a result that may leave the
  range. Its division and remainder truncate towards zero.
\<close>

definition int64 :: "int \<Rightarrow> int" where
  "int64 x = (x + 2 ^ 63) mod 2 ^ 64 - 2 ^ 63"

definition tdiv :: "int \<Rightarrow> int \<Rightarrow> int" where
  "tdiv a b = sgn a * sgn b * (\<bar>a\<bar> div \<bar>b\<bar>)"

definition tmod :: "int \<Rightarrow> int \<Rightarrow> int" where
  "tmod a b = a - b * tdiv a b"

lemma int64_id [simp]: "- (2 ^ 63) \<le> x \<Longrightarrow> x < 2 ^ 63 \<Longrightarrow> int64 x = x"
  by (simp add: int64_def)

lemma tdiv_nonneg [simp]: "0 \<le> a \<Longrightarrow> 0 < b \<Longrightarrow> tdiv a b = a div b"
  by (cases "a = 0") (simp_all add: tdiv_def)

lemma tmod_nonneg [simp]: "0 \<le> a \<Longrightarrow> 0 < b \<Longrightarrow> tmod a b = a mod b"
  by (simp add: tmod_def minus_mult_div_eq_mod)

section \<open>Strings\<close>

definition starts_with :: "'a list \<Rightarrow> 'a list \<Rightarrow> bool" where
  "starts_with s p \<longleftrightarrow> take (length p) s = p"

lemma starts_with_append [simp]: "starts_with (p @ s) p"
  by (simp add: starts_with_def)

lemma starts_with_iff: "starts_with s p \<longleftrightarrow> (\<exists>t. s = p @ t)"
  unfolding starts_with_def by (metis append_eq_conv_conj append_take_drop_id)

lemma starts_with_Nil [simp]: "starts_with s []"
  by (simp add: starts_with_def)

lemma starts_with_Cons [simp]:
  "starts_with [] (c # p) = False"
  "starts_with (d # s) (c # p) \<longleftrightarrow> d = c \<and> starts_with s p"
  by (auto simp: starts_with_def)

lemma starts_with_length: "starts_with s p \<Longrightarrow> length p \<le> length s"
  by (auto simp: starts_with_iff)

lemma starts_with_take_prefix:
  "starts_with (a @ b) p \<Longrightarrow> length p \<le> length a \<Longrightarrow> starts_with a p"
  by (simp add: starts_with_def)

text \<open>
  \<open>strings.TrimSpace\<close> removes the Unicode white space of both ends. The bytes of a Go
  string are UTF-8, so white space is a byte sequence: the six ASCII characters and the
  two- and three-byte encodings of U+0085, U+00A0, U+1680, U+2000 to U+200A, U+2028,
  U+2029, U+202F, U+205F and U+3000.
\<close>

definition space_runes :: "string list" where
  "space_runes =
     [[CHR 0x09], [CHR 0x0A], [CHR 0x0B], [CHR 0x0C], [CHR 0x0D], [CHR 0x20],
      [CHR 0xC2, CHR 0x85], [CHR 0xC2, CHR 0xA0], [CHR 0xE1, CHR 0x9A, CHR 0x80],
      [CHR 0xE2, CHR 0x80, CHR 0x80], [CHR 0xE2, CHR 0x80, CHR 0x81],
      [CHR 0xE2, CHR 0x80, CHR 0x82], [CHR 0xE2, CHR 0x80, CHR 0x83],
      [CHR 0xE2, CHR 0x80, CHR 0x84], [CHR 0xE2, CHR 0x80, CHR 0x85],
      [CHR 0xE2, CHR 0x80, CHR 0x86], [CHR 0xE2, CHR 0x80, CHR 0x87],
      [CHR 0xE2, CHR 0x80, CHR 0x88], [CHR 0xE2, CHR 0x80, CHR 0x89],
      [CHR 0xE2, CHR 0x80, CHR 0x8A], [CHR 0xE2, CHR 0x80, CHR 0xA8],
      [CHR 0xE2, CHR 0x80, CHR 0xA9], [CHR 0xE2, CHR 0x80, CHR 0xAF],
      [CHR 0xE2, CHR 0x81, CHR 0x9F], [CHR 0xE3, CHR 0x80, CHR 0x80]]"

text \<open>Drop leading members of \<open>encs\<close> (each non-empty) as long as there is one.\<close>

fun trim_front :: "string list \<Rightarrow> nat \<Rightarrow> string \<Rightarrow> string" where
  "trim_front encs 0 s = s"
| "trim_front encs (Suc n) s =
     (case find (starts_with s) encs of
        None \<Rightarrow> s
      | Some p \<Rightarrow> trim_front encs n (drop (length p) s))"

definition trim_left :: "string \<Rightarrow> string" where
  "trim_left s = trim_front space_runes (length s) s"

definition trim_right :: "string \<Rightarrow> string" where
  "trim_right s = rev (trim_front (map rev space_runes) (length s) (rev s))"

definition trim_space :: "string \<Rightarrow> string" where
  "trim_space s = trim_right (trim_left s)"

lemma trim_front_drop: "\<exists>k. trim_front encs n s = drop k s"
proof (induction encs n s rule: trim_front.induct)
  case (1 encs s)
  have "s = drop 0 s" by simp
  then show ?case by (metis trim_front.simps(1))
next
  case (2 encs n s)
  show ?case
  proof (cases "find (starts_with s) encs")
    case None
    then have "trim_front encs (Suc n) s = drop 0 s" by simp
    then show ?thesis by blast
  next
    case (Some p)
    from "2.IH" [OF Some] obtain k where "trim_front encs n (drop (length p) s) = drop k (drop (length p) s)" by blast
    with Some have "trim_front encs (Suc n) s = drop (k + length p) s" by simp
    then show ?thesis by blast
  qed
qed

lemma trim_front_id:
  "find (starts_with s) encs = None \<Longrightarrow> trim_front encs n s = s"
  by (cases n) simp_all

lemma trim_front_stop:
  assumes "\<forall>p\<in>set encs. p \<noteq> []" and "length s \<le> n"
  shows "find (starts_with (trim_front encs n s)) encs = None"
  using assms
proof (induction encs n s rule: trim_front.induct)
  case (1 encs s)
  then have "\<forall>p\<in>set encs. \<not> starts_with [] p"
    by (metis neq_Nil_conv starts_with_Cons(1))
  with 1 show ?case by (simp add: find_None_iff)
next
  case (2 encs n s)
  show ?case
  proof (cases "find (starts_with s) encs")
    case None
    then show ?thesis by simp
  next
    case (Some p)
    then have p: "p \<in> set encs" and sp: "starts_with s p"
      by (auto simp: find_Some_iff)
    then have "length p > 0" using "2.prems"(1) by auto
    then have "length (drop (length p) s) \<le> n"
      using "2.prems"(2) unfolding length_drop by linarith
    with "2.IH" [OF Some] "2.prems"(1) Some show ?thesis by simp
  qed
qed

lemma space_runes_nonempty: "\<forall>p\<in>set space_runes. p \<noteq> []"
  by (simp add: space_runes_def)

lemma trim_left_stop: "find (starts_with (trim_left s)) space_runes = None"
  unfolding trim_left_def by (rule trim_front_stop [OF space_runes_nonempty]) simp

lemma trim_right_stop: "find (starts_with (rev (trim_right s))) (map rev space_runes) = None"
  unfolding trim_right_def rev_rev_ident
  by (rule trim_front_stop) (use space_runes_nonempty in auto)

lemma trim_right_take: "\<exists>m. trim_right s = take m s"
proof -
  obtain k where "trim_front (map rev space_runes) (length s) (rev s) = drop k (rev s)"
    using trim_front_drop by blast
  then have "trim_right s = take (length s - k) s"
    by (simp add: trim_right_def rev_drop)
  then show ?thesis by blast
qed

lemma starts_with_take: "starts_with (take m s) p \<Longrightarrow> starts_with s p"
  unfolding starts_with_iff by (metis append.assoc append_take_drop_id)

lemma trim_left_trim_space: "trim_left (trim_space s) = trim_space s"
proof -
  obtain m where m: "trim_space s = take m (trim_left s)"
    using trim_right_take by (metis trim_space_def)
  have "find (starts_with (trim_space s)) space_runes = None"
    using trim_left_stop [of s] unfolding m find_None_iff
    by (meson starts_with_take)
  then show ?thesis unfolding trim_left_def by (rule trim_front_id)
qed

lemma trim_right_trim_space: "trim_right (trim_space s) = trim_space s"
proof -
  have "trim_front (map rev space_runes) (length (trim_space s)) (rev (trim_space s))
      = rev (trim_space s)"
    using trim_right_stop [of "trim_left s"] unfolding trim_space_def by (rule trim_front_id)
  then show ?thesis by (simp add: trim_right_def)
qed

lemma trim_space_idem [simp]: "trim_space (trim_space s) = trim_space s"
  unfolding trim_space_def [of "trim_space s"]
  by (simp only: trim_left_trim_space trim_right_trim_space)

text \<open>Text that starts and ends with a printable ASCII character is left alone.\<close>

definition graphic :: "char \<Rightarrow> bool" where
  "graphic c \<longleftrightarrow> (0x21::nat) \<le> of_char c \<and> of_char c \<le> (0x7E::nat)"

lemma graphic_space_runes:
  "p \<in> set space_runes \<Longrightarrow> graphic c \<Longrightarrow> hd p \<noteq> c \<and> last p \<noteq> c"
  by (auto simp: space_runes_def graphic_def)

lemma trim_space_Nil [simp]: "trim_space [] = []"
  by (simp add: trim_space_def trim_left_def trim_right_def)

lemma trim_left_id: "s = [] \<or> graphic (hd s) \<Longrightarrow> trim_left s = s"
proof (cases s)
  case (Cons c t)
  assume "s = [] \<or> graphic (hd s)"
  with Cons have g: "graphic c" by simp
  have "\<not> starts_with s p" if p: "p \<in> set space_runes" for p
    using graphic_space_runes [OF p g] space_runes_nonempty p Cons by (cases p) auto
  then have "find (starts_with s) space_runes = None"
    by (simp add: find_None_iff)
  then show ?thesis unfolding trim_left_def by (rule trim_front_id)
qed (simp add: trim_left_def)

lemma trim_right_id: "s = [] \<or> graphic (last s) \<Longrightarrow> trim_right s = s"
proof (cases "rev s")
  case (Cons c t)
  assume "s = [] \<or> graphic (last s)"
  with Cons have g: "graphic c" by (metis hd_rev list.distinct(1) list.sel(1) rev.simps(1))
  have "\<not> starts_with (rev s) (rev p)" if p: "p \<in> set space_runes" for p
    using graphic_space_runes [OF p g] space_runes_nonempty p Cons
    by (cases p rule: rev_cases) auto
  then have "find (starts_with (rev s)) (map rev space_runes) = None"
    by (simp add: find_None_iff)
  then show ?thesis unfolding trim_right_def by (simp add: trim_front_id)
qed (simp add: trim_right_def)

lemma trim_space_id [go_string_simps]:
  "s \<noteq> [] \<Longrightarrow> graphic (hd s) \<Longrightarrow> graphic (last s) \<Longrightarrow> trim_space s = s"
  by (simp add: trim_space_def trim_left_id trim_right_id)

lemma trim_space_graphic [go_string_simps]: "list_all graphic s \<Longrightarrow> trim_space s = s"
  by (cases s) (auto simp: trim_space_id list_all_iff)

section \<open>Numbers as text\<close>

definition digit :: "nat \<Rightarrow> char" where
  "digit n = char_of (48 + n)"

definition digit_value :: "char \<Rightarrow> nat" where
  "digit_value c = of_char c - 48"

fun decimal :: "nat \<Rightarrow> string" where
  "decimal n = (if n < 10 then [digit n] else decimal (n div 10) @ [digit (n mod 10)])"

declare decimal.simps [simp del]

definition decimal_value :: "string \<Rightarrow> nat" where
  "decimal_value s = foldl (\<lambda>v c. 10 * v + digit_value c) 0 s"

definition is_digit :: "char \<Rightarrow> bool" where
  "is_digit c \<longleftrightarrow> (48::nat) \<le> of_char c \<and> of_char c \<le> (57::nat)"

definition zero_pad :: "nat \<Rightarrow> string \<Rightarrow> string" where
  "zero_pad w s = replicate (w - length s) (CHR ''0'') @ s"

lemma of_char_digit: "n < 10 \<Longrightarrow> of_char (digit n) = 48 + (n::nat)"
  by (simp add: digit_def)

lemma digit_value_digit [simp]: "n < 10 \<Longrightarrow> digit_value (digit n) = n"
  by (simp add: digit_value_def of_char_digit)

lemma is_digit_digit [simp]: "n < 10 \<Longrightarrow> is_digit (digit n)"
  by (simp add: is_digit_def of_char_digit)

lemma is_digit_graphic: "is_digit c \<Longrightarrow> graphic c"
  by (auto simp: is_digit_def graphic_def)

lemma decimal_digits: "list_all is_digit (decimal n)"
  by (induction n rule: decimal.induct) (subst decimal.simps, simp)

lemma decimal_value_snoc: "decimal_value (s @ [c]) = 10 * decimal_value s + digit_value c"
  by (simp add: decimal_value_def)

lemma decimal_round_trip [simp]: "decimal_value (decimal n) = n"
proof (induction n rule: decimal.induct)
  case (1 n)
  then show ?case
    by (subst decimal.simps) (auto simp: decimal_value_snoc, simp add: decimal_value_def)
qed

lemma decimal_value_zero: "decimal_value (CHR ''0'' # s) = decimal_value s"
  by (simp add: decimal_value_def digit_value_def)

lemma decimal_value_zero_pad [simp]: "decimal_value (zero_pad w s) = decimal_value s"
proof -
  have "decimal_value (replicate k (CHR ''0'') @ s) = decimal_value s" for k
    by (induction k) (simp_all add: decimal_value_zero)
  then show ?thesis by (simp add: zero_pad_def)
qed

lemma decimal_length: "n < 10 ^ k \<Longrightarrow> 0 < k \<Longrightarrow> length (decimal n) \<le> k"
proof (induction n arbitrary: k rule: decimal.induct)
  case (1 n)
  show ?case
  proof (cases "n < 10")
    case True
    with 1 show ?thesis by (subst decimal.simps) simp
  next
    case False
    with 1(2,3) obtain j where j: "k = Suc j" "0 < j" by (cases k; cases "k = 1") auto
    with 1(2) have "n div 10 < 10 ^ j" by (simp add: less_mult_imp_div_less mult.commute)
    with 1(1) False j show ?thesis by (subst decimal.simps) auto
  qed
qed

lemma zero_pad_length: "length s \<le> w \<Longrightarrow> length (zero_pad w s) = w"
  by (simp add: zero_pad_def)

lemma zero_pad_digits: "list_all is_digit s \<Longrightarrow> list_all is_digit (zero_pad w s)"
  by (auto simp: zero_pad_def list_all_iff is_digit_def)

text \<open>\<open>hex.EncodeToString\<close>.\<close>

definition hex_digit :: "nat \<Rightarrow> char" where
  "hex_digit n = (if n < 10 then char_of (48 + n) else char_of (87 + n))"

definition hex_encode :: "byte list \<Rightarrow> string" where
  "hex_encode bs = concat (map (\<lambda>b. [hex_digit (unat b div 16), hex_digit (unat b mod 16)]) bs)"

lemma hex_encode_simps [simp]:
  "hex_encode [] = []"
  "hex_encode (b # bs) = hex_digit (unat b div 16) # hex_digit (unat b mod 16) # hex_encode bs"
  by (simp_all add: hex_encode_def)

lemma of_char_hex_digit: "n < 16 \<Longrightarrow> of_char (hex_digit n) = (if n < 10 then 48 + n else 87 + (n::nat))"
  by (simp add: hex_digit_def)

lemma hex_digit_inject: "m < 16 \<Longrightarrow> n < 16 \<Longrightarrow> hex_digit m = hex_digit n \<Longrightarrow> m = n"
proof -
  assume m: "m < 16" and n: "n < 16" and "hex_digit m = hex_digit n"
  then have "of_char (hex_digit m) = (of_char (hex_digit n) :: nat)" by simp
  then show "m = n"
    unfolding of_char_hex_digit [OF m] of_char_hex_digit [OF n] using m n by (simp split: if_splits)
qed

lemma graphic_hex_digit: "n < 16 \<Longrightarrow> graphic (hex_digit n)"
  by (simp add: graphic_def of_char_hex_digit)

lemma unat_byte_bounds: "unat (b :: byte) div 16 < 16" "unat b mod 16 < 16"
proof -
  have "unat b < 2 ^ LENGTH(8)" by (rule unsigned_less)
  then show "unat b div 16 < 16" "unat b mod 16 < 16" by simp_all
qed

lemma hex_encode_graphic: "list_all graphic (hex_encode bs)"
  by (induction bs) (simp_all add: graphic_hex_digit unat_byte_bounds)

lemma hex_encode_length [simp]: "length (hex_encode bs) = 2 * length bs"
  by (induction bs) simp_all

lemma hex_encode_inject: "hex_encode as = hex_encode bs \<Longrightarrow> as = bs"
proof (induction as arbitrary: bs)
  case Nil
  then show ?case by (cases bs) simp_all
next
  case (Cons a as)
  then obtain b bs' where bs: "bs = b # bs'" by (cases bs) auto
  have "unat a div 16 = unat b div 16" "unat a mod 16 = unat b mod 16"
    using Cons.prems by (auto simp: bs intro!: hex_digit_inject unat_byte_bounds)
  then have "a = b" by (metis div_mult_mod_eq word_unat_eq_iff)
  with Cons bs show ?case by simp
qed

section \<open>Runes\<close>

text \<open>
  \<open>for i, r := range s\<close> visits the first byte of each UTF-8 sequence of \<open>s\<close>; a byte that starts none
  counts as a rune of its own. \<open>rune_len\<close> is the length of the rune at the start of a non-empty
  string, \<open>rune_starts\<close> the indices the loop visits.
\<close>

definition in_range :: "char \<Rightarrow> nat \<Rightarrow> nat \<Rightarrow> bool" where
  "in_range c lo hi \<longleftrightarrow> lo \<le> of_char c \<and> of_char c \<le> hi"

definition rune_tail :: "string \<Rightarrow> nat \<Rightarrow> nat \<Rightarrow> nat \<Rightarrow> bool" where
  "rune_tail t n lo hi \<longleftrightarrow> n \<le> length t \<and> in_range (hd t) lo hi \<and>
     list_all (\<lambda>c. in_range c 0x80 0xBF) (take (n - 1) (tl t))"

definition rune_len :: "string \<Rightarrow> nat" where
  "rune_len s =
     (case s of [] \<Rightarrow> 0 | c # t \<Rightarrow>
        if in_range c 0xC2 0xDF \<and> rune_tail t 1 0x80 0xBF then 2
        else if in_range c 0xE0 0xE0 \<and> rune_tail t 2 0xA0 0xBF then 3
        else if (in_range c 0xE1 0xEC \<or> in_range c 0xEE 0xEF) \<and> rune_tail t 2 0x80 0xBF then 3
        else if in_range c 0xED 0xED \<and> rune_tail t 2 0x80 0x9F then 3
        else if in_range c 0xF0 0xF0 \<and> rune_tail t 3 0x90 0xBF then 4
        else if in_range c 0xF1 0xF3 \<and> rune_tail t 3 0x80 0xBF then 4
        else if in_range c 0xF4 0xF4 \<and> rune_tail t 3 0x80 0x8F then 4
        else 1)"

lemma rune_len_pos [simp]: "0 < rune_len (c # t)"
  by (simp add: rune_len_def)

function rune_starts_from :: "nat \<Rightarrow> string \<Rightarrow> nat list" where
  "rune_starts_from i [] = []"
| "rune_starts_from i (c # t) = i # rune_starts_from (i + rune_len (c # t)) (drop (rune_len (c # t)) (c # t))"
  by pat_completeness auto
termination
  by (relation "measure (length o snd)") (use rune_len_pos in \<open>auto simp: less_imp_diff_less\<close>)

definition rune_starts :: "string \<Rightarrow> nat list" where
  "rune_starts s = rune_starts_from 0 s"

lemma rune_starts_less: "j \<in> set (rune_starts_from i s) \<Longrightarrow> i \<le> j \<and> j < i + length s"
proof (induction i s rule: rune_starts_from.induct)
  case (2 i c t)
  show ?case
  proof (cases "j = i")
    case False
    then have j: "j \<in> set (rune_starts_from (i + rune_len (c # t)) (drop (rune_len (c # t)) (c # t)))"
      using "2.prems" by simp
    then have "rune_len (c # t) < length (c # t)"
      by (metis drop_all empty_iff leI list.set(1) rune_starts_from.simps(1))
    with "2.IH" [OF j] show ?thesis by simp
  qed simp
qed simp

section \<open>Records with a final status\<close>

text \<open>
  A table of records some of which have reached a status they keep: every operation leaves
  such a record in place and in that status, unless it removes the record.
\<close>

locale absorbing =
  fixes find_record :: "'k \<Rightarrow> 's \<Rightarrow> 'r option"
    and apply_op :: "'op \<Rightarrow> 's \<Rightarrow> 's"
    and final_record :: "'r \<Rightarrow> bool"
    and removes :: "'op \<Rightarrow> 'k \<Rightarrow> bool"
    and table_ok :: "'s \<Rightarrow> bool"
  assumes ok_step: "table_ok s \<Longrightarrow> table_ok (apply_op op s)"
    and final_step: "table_ok s \<Longrightarrow> find_record k s = Some r \<Longrightarrow> final_record r \<Longrightarrow> \<not> removes op k \<Longrightarrow>
      \<exists>r'. find_record k (apply_op op s) = Some r' \<and> final_record r'"
begin

lemma final_run:
  "table_ok s \<Longrightarrow> find_record k s = Some r \<Longrightarrow> final_record r \<Longrightarrow>
   list_all (\<lambda>op. \<not> removes op k) ops \<Longrightarrow>
   \<exists>r'. find_record k (fold apply_op ops s) = Some r' \<and> final_record r'"
proof (induction ops arbitrary: s r)
  case (Cons op ops)
  then obtain r' where "find_record k (apply_op op s) = Some r'" "final_record r'"
    using final_step [of s k r op] by auto
  with Cons ok_step show ?case by simp
qed simp

lemma ok_run: "table_ok s \<Longrightarrow> table_ok (fold apply_op ops s)"
  by (induction ops arbitrary: s) (simp_all add: ok_step)

end

end
