(* ===== verification/AmrCodec.thy ===== *)
theory AmrCodec
  imports GoPrelude
begin

text \<open>
  AMR speech frames (\<open>pro/voicecodec/amr.go\<close>): the frame tables, the octet-aligned RTP
  payload and the storage format of single frames and of files. The interface a payload
  format offers its callers (encode, decode, and the law that relates them) is the locale
  \<open>payload_codec\<close>; the bandwidth-efficient format is in \<open>AmrBits\<close>.
\<close>

section \<open>Frames, codecs and errors\<close>

type_synonym AMRCodec = string

definition CodecAMR :: AMRCodec where "CodecAMR = ''AMR''"
definition CodecAMRWB :: AMRCodec where "CodecAMRWB = ''AMR-WB''"

lemma codec_names [simp]:
  "CodecAMR \<noteq> CodecAMRWB" "CodecAMRWB \<noteq> CodecAMR" "CodecAMR \<noteq> []" "CodecAMRWB \<noteq> []"
  by (simp_all add: CodecAMR_def CodecAMRWB_def)

record AMRFrame =
  FrameType :: int
  Quality :: bool
  Data :: "byte list"

lemma AMRFrame_eta [simp]:
  "\<lparr>FrameType = FrameType f, Quality = Quality f, Data = Data f\<rparr> = (f :: AMRFrame)"
  by (cases f) simp

datatype amrError =
    ErrAMRPayloadShort
  | ErrAMRPayloadTruncated
  | ErrAMRTOCTruncated
  | ErrAMRSpeechDataTruncated
  | ErrAMRFrameTypeUnsupported
  | ErrAMRFrameSizeMismatch
  | ErrAMRFramesRequired
  | ErrAMRStorageHeaderMissing

definition amrStorageHeader :: "byte list" where
  "amrStorageHeader = [0x23, 0x21, 0x41, 0x4D, 0x52, 0x0A]"

definition amrWBStorageHeader :: "byte list" where
  "amrWBStorageHeader = [0x23, 0x21, 0x41, 0x4D, 0x52, 0x2D, 0x57, 0x42, 0x0A]"

definition amrFrameBits :: "int list" where
  "amrFrameBits = [95, 103, 118, 134, 148, 159, 204, 244, 39]"

definition amrWBFrameBits :: "int list" where
  "amrWBFrameBits = [132, 177, 253, 285, 317, 365, 397, 461, 477, 40]"

definition amrFrameBytes :: "int list" where
  "amrFrameBytes = [12, 13, 15, 17, 19, 20, 26, 31, 5]"

definition amrWBFrameBytes :: "int list" where
  "amrWBFrameBytes = [17, 23, 32, 36, 40, 46, 50, 58, 60, 5]"

definition noModeRequest :: int where "noModeRequest = 15"

definition AMRFrameBytes :: "AMRCodec \<Rightarrow> int \<Rightarrow> int" where
  "AMRFrameBytes codec frameType =
     (if frameType = 15 \<or> codec = CodecAMRWB \<and> frameType = 14 then 0
      else if codec = CodecAMR then
        (if 0 \<le> frameType \<and> frameType < int (length amrFrameBytes)
         then amrFrameBytes ! nat frameType else -1)
      else if codec = CodecAMRWB then
        (if 0 \<le> frameType \<and> frameType < int (length amrWBFrameBytes)
         then amrWBFrameBytes ! nat frameType else -1)
      else -1)"

definition amrFrameBitCount :: "AMRCodec \<Rightarrow> int \<Rightarrow> int" where
  "amrFrameBitCount codec frameType =
     (if frameType = 15 \<or> codec = CodecAMRWB \<and> frameType = 14 then 0
      else if codec = CodecAMR then
        (if 0 \<le> frameType \<and> frameType < int (length amrFrameBits)
         then amrFrameBits ! nat frameType else -1)
      else if codec = CodecAMRWB then
        (if 0 \<le> frameType \<and> frameType < int (length amrWBFrameBits)
         then amrWBFrameBits ! nat frameType else -1)
      else -1)"

text \<open>Go's \<open>/\<close> truncates; the argument is never below -1, where both divisions agree on 0.\<close>

definition bytesForBits :: "int \<Rightarrow> int" where
  "bytesForBits bits = (bits + 7) div 8"

definition AMRSampleRate :: "AMRCodec \<Rightarrow> int" where
  "AMRSampleRate codec = (if codec = CodecAMRWB then 16000 else 8000)"

definition AMRSamplesPerFrame :: "AMRCodec \<Rightarrow> int" where
  "AMRSamplesPerFrame codec = (if codec = CodecAMRWB then 320 else 160)"

text \<open>A frame type fits the four bits of a table-of-contents entry whenever it has a size.\<close>

lemma AMRFrameBytes_range:
  "0 \<le> AMRFrameBytes codec ft \<Longrightarrow> 0 \<le> ft \<and> ft \<le> 15"
  by (auto simp: AMRFrameBytes_def amrFrameBytes_def amrWBFrameBytes_def split: if_splits)

lemma amrFrameBitCount_range:
  "0 \<le> amrFrameBitCount codec ft \<Longrightarrow> 0 \<le> ft \<and> ft \<le> 15"
  by (auto simp: amrFrameBitCount_def amrFrameBits_def amrWBFrameBits_def split: if_splits)

section \<open>The interface of a payload format\<close>

text \<open>
  \<open>marshal\<close> and \<open>unmarshal\<close> are the format's \<open>MarshalBinary\<close> and
  \<open>UnmarshalBinary\<close>, \<open>canon\<close> the frames as a receiver gets them (a format may drop
  information that is not speech).
\<close>

locale payload_codec =
  fixes marshal :: "AMRFrame list \<Rightarrow> amrError + byte list"
    and unmarshal :: "byte list \<Rightarrow> amrError + AMRFrame list"
    and canon :: "AMRFrame list \<Rightarrow> AMRFrame list"
  assumes unmarshal_marshal: "marshal fs = Inr bs \<Longrightarrow> unmarshal bs = Inr (canon fs)"
    and marshal_canon: "marshal fs = Inr bs \<Longrightarrow> marshal (canon fs) = Inr bs"
begin

lemma same_payload_same_frames:
  "marshal fs = Inr bs \<Longrightarrow> marshal gs = Inr bs \<Longrightarrow> canon fs = canon gs"
  using unmarshal_marshal [of fs bs] unmarshal_marshal [of gs bs] by simp

text \<open>A node that decodes a payload and sends it on sends the payload it received.\<close>

lemma relay_stable:
  "marshal fs = Inr bs \<Longrightarrow> unmarshal bs = Inr gs \<Longrightarrow> marshal gs = Inr bs"
  using unmarshal_marshal [of fs bs] marshal_canon [of fs bs] by simp

lemma canon_idem: "marshal fs = Inr bs \<Longrightarrow> canon (canon fs) = canon fs"
  using marshal_canon same_payload_same_frames by blast

end

section \<open>The octet-aligned payload\<close>

text \<open>The size check of every frame, in order; the value is the number of speech bytes.\<close>

fun octetSpeechBytes :: "AMRCodec \<Rightarrow> AMRFrame list \<Rightarrow> amrError + int" where
  "octetSpeechBytes codec [] = Inr 0"
| "octetSpeechBytes codec (frame # fs) =
     (let want = AMRFrameBytes codec (FrameType frame) in
      if want < 0 then Inl ErrAMRFrameTypeUnsupported
      else if int (length (Data frame)) \<noteq> want then Inl ErrAMRFrameSizeMismatch
      else rbind (octetSpeechBytes codec fs) (\<lambda>n. Inr (int (length (Data frame)) + n)))"

definition octetTOC :: "AMRFrame \<Rightarrow> bool \<Rightarrow> byte" where
  "octetTOC frame hasMore =
     (let toc = word_of_int (push_bit 3 (FrameType frame AND 0x0f));
          toc = (if hasMore then toc OR 0x80 else toc)
      in if Quality frame then toc OR 0x04 else toc)"

text \<open>One entry per frame; every entry but the last says that more follow.\<close>

fun octetTOCs :: "AMRFrame list \<Rightarrow> byte list" where
  "octetTOCs [] = []"
| "octetTOCs (frame # fs) = octetTOC frame (fs \<noteq> []) # octetTOCs fs"

definition octetMarshalBinary :: "AMRCodec \<Rightarrow> AMRFrame list \<Rightarrow> amrError + byte list" where
  "octetMarshalBinary codec frames =
     (if frames = [] then Inl ErrAMRFramesRequired
      else rbind (octetSpeechBytes codec frames) (\<lambda>_.
        Inr (word_of_int (push_bit 4 noModeRequest) # octetTOCs frames @ concat (map Data frames))))"

definition tocFrameType :: "byte \<Rightarrow> int" where
  "tocFrameType toc = uint (drop_bit 3 toc AND 0x0f)"

function octetReadTOC ::
  "AMRCodec \<Rightarrow> byte list \<Rightarrow> nat \<Rightarrow> AMRFrame list \<Rightarrow> amrError + AMRFrame list \<times> nat" where
  "octetReadTOC codec payload offset frames =
     (if offset \<ge> length payload then Inl ErrAMRTOCTruncated
      else
        let toc = payload ! offset;
            hasMore = (toc AND 0x80 \<noteq> 0);
            frameType = tocFrameType toc;
            quality = (toc AND 0x04 \<noteq> 0);
            size = AMRFrameBytes codec frameType
        in if size < 0 then Inl ErrAMRFrameTypeUnsupported
           else
             let frames' = frames @ [\<lparr>FrameType = frameType, Quality = quality,
                                       Data = replicate (nat size) 0\<rparr>]
             in if hasMore then octetReadTOC codec payload (Suc offset) frames'
                else Inr (frames', Suc offset))"
  by pat_completeness auto
termination
  by (relation "measure (\<lambda>(codec, payload, offset, frames). length payload - offset)") auto

declare octetReadTOC.simps [simp del]

fun octetReadData :: "byte list \<Rightarrow> nat \<Rightarrow> AMRFrame list \<Rightarrow> amrError + AMRFrame list" where
  "octetReadData payload offset [] = Inr []"
| "octetReadData payload offset (frame # fs) =
     (let upto = offset + length (Data frame) in
      if upto > length payload then Inl ErrAMRSpeechDataTruncated
      else rbind (octetReadData payload upto fs) (\<lambda>rest.
        Inr (frame\<lparr>Data := take (length (Data frame)) (drop offset payload)\<rparr> # rest)))"

definition octetUnmarshalBinary :: "AMRCodec \<Rightarrow> byte list \<Rightarrow> amrError + AMRFrame list" where
  "octetUnmarshalBinary codec payload =
     (if length payload < 2 then Inl ErrAMRPayloadShort
      else rbind (octetReadTOC codec payload 1 []) (\<lambda>(frames, offset).
        octetReadData payload offset frames))"

text \<open>The frames a payload can carry: the data has exactly the size of the frame type.\<close>

definition frame_ok :: "AMRCodec \<Rightarrow> AMRFrame \<Rightarrow> bool" where
  "frame_ok codec f \<longleftrightarrow> AMRFrameBytes codec (FrameType f) = int (length (Data f))"

lemma frame_ok_range: "frame_ok codec f \<Longrightarrow> 0 \<le> FrameType f \<and> FrameType f \<le> 15"
  using AMRFrameBytes_range [of codec "FrameType f"] by (simp add: frame_ok_def)

lemma octetSpeechBytes_ok:
  "octetSpeechBytes codec fs = Inr n \<Longrightarrow> \<forall>f\<in>set fs. frame_ok codec f"
  by (induction fs arbitrary: n)
     (auto simp: frame_ok_def Let_def rbind_Inr_iff split: if_splits)

lemma octetSpeechBytes_total:
  "\<forall>f\<in>set fs. frame_ok codec f \<Longrightarrow>
   octetSpeechBytes codec fs = Inr (int (length (concat (map Data fs))))"
  by (induction fs) (auto simp: frame_ok_def Let_def)

lemma int_in_0_15: "0 \<le> (ft::int) \<Longrightarrow> ft \<le> 15 \<Longrightarrow> ft \<in> set [0..15]"
  by simp

lemma toc_fields:
  assumes "0 \<le> FrameType f" and "FrameType f \<le> 15"
  shows "tocFrameType (octetTOC f b) = FrameType f"
    and "octetTOC f b AND 0x80 \<noteq> 0 \<longleftrightarrow> b"
    and "octetTOC f b AND 0x04 \<noteq> 0 \<longleftrightarrow> Quality f"
proof -
  have "FrameType f \<in> set [0..15]" using assms by simp
  then have ft: "FrameType f = 0 \<or> FrameType f = 1 \<or> FrameType f = 2 \<or> FrameType f = 3 \<or>
    FrameType f = 4 \<or> FrameType f = 5 \<or> FrameType f = 6 \<or> FrameType f = 7 \<or>
    FrameType f = 8 \<or> FrameType f = 9 \<or> FrameType f = 10 \<or> FrameType f = 11 \<or>
    FrameType f = 12 \<or> FrameType f = 13 \<or> FrameType f = 14 \<or> FrameType f = 15"
    by (simp add: upto.simps)
  show "tocFrameType (octetTOC f b) = FrameType f"
    using ft by (elim disjE) (simp_all add: tocFrameType_def octetTOC_def)
  show "octetTOC f b AND 0x80 \<noteq> 0 \<longleftrightarrow> b"
    using ft by (elim disjE) (simp_all add: octetTOC_def)
  show "octetTOC f b AND 0x04 \<noteq> 0 \<longleftrightarrow> Quality f"
    using ft by (elim disjE) (simp_all add: octetTOC_def)
qed

definition blank :: "AMRFrame \<Rightarrow> AMRFrame" where
  "blank f = f\<lparr>Data := replicate (length (Data f)) 0\<rparr>"

lemma octetTOCs_length [simp]: "length (octetTOCs fs) = length fs"
  by (induction fs) auto

lemma octetReadTOC_octetTOCs:
  assumes "\<forall>f\<in>set fs. frame_ok codec f" and "fs \<noteq> []"
  shows "octetReadTOC codec (pre @ octetTOCs fs @ rest) (length pre) acc =
         Inr (acc @ map blank fs, length pre + length fs)"
  using assms
proof (induction fs arbitrary: pre acc)
  case Nil
  then show ?case by simp
next
  case (Cons f fs)
  have ok: "frame_ok codec f" using Cons.prems by simp
  note fields = toc_fields [OF conjunct1 [OF frame_ok_range [OF ok]] conjunct2 [OF frame_ok_range [OF ok]]]
  have nth: "(pre @ octetTOCs (f # fs) @ rest) ! length pre = octetTOC f (fs \<noteq> [])"
    by (simp add: nth_append)
  have blank: "\<lparr>FrameType = FrameType f, Quality = Quality f,
      Data = replicate (nat (AMRFrameBytes codec (FrameType f))) 0\<rparr> = blank f"
    using ok by (simp add: blank_def frame_ok_def)
  have size: "\<not> AMRFrameBytes codec (FrameType f) < 0"
    using ok by (simp add: frame_ok_def)
  show ?case
  proof (cases "fs = []")
    case True
    then show ?thesis
      using nth blank size fields [of "fs \<noteq> []"]
      by (subst octetReadTOC.simps) (simp add: Let_def)
  next
    case False
    have IH: "octetReadTOC codec ((pre @ [octetTOC f True]) @ octetTOCs fs @ rest)
        (length (pre @ [octetTOC f True])) (acc @ [blank f]) =
        Inr ((acc @ [blank f]) @ map blank fs, length (pre @ [octetTOC f True]) + length fs)"
      using Cons.prems False by (intro Cons.IH) auto
    show ?thesis
      using nth blank size fields [of "fs \<noteq> []"] False IH
      by (subst octetReadTOC.simps) (simp add: Let_def)
  qed
qed

lemma octetReadData_concat:
  assumes "map (\<lambda>f. length (Data f)) gs = map (\<lambda>f. length (Data f)) fs"
  shows "octetReadData (pre @ concat (map Data fs) @ rest) (length pre) gs =
         Inr (map2 (\<lambda>g f. g\<lparr>Data := Data f\<rparr>) gs fs)"
  using assms
proof (induction gs arbitrary: pre fs)
  case Nil
  then show ?case by simp
next
  case (Cons g gs)
  then obtain f fs' where fs: "fs = f # fs'" and len: "length (Data g) = length (Data f)"
      and rest': "map (\<lambda>f. length (Data f)) gs = map (\<lambda>f. length (Data f)) fs'"
    by (cases fs) auto
  have "octetReadData ((pre @ Data f) @ concat (map Data fs') @ rest) (length (pre @ Data f)) gs =
        Inr (map2 (\<lambda>g f. g\<lparr>Data := Data f\<rparr>) gs fs')"
    by (rule Cons.IH [OF rest'])
  then show ?case by (simp add: fs len Let_def)
qed

lemma map2_blank: "map2 (\<lambda>g f. g\<lparr>Data := Data f\<rparr>) (map blank fs) fs = fs"
  by (induction fs) (auto simp: blank_def)

lemma octet_unmarshal_marshal:
  assumes "octetMarshalBinary codec fs = Inr bs"
  shows "octetUnmarshalBinary codec bs = Inr fs"
proof -
  from assms have ne: "fs \<noteq> []" and ok: "\<forall>f\<in>set fs. frame_ok codec f"
    and bs: "bs = word_of_int (push_bit 4 noModeRequest) # octetTOCs fs @ concat (map Data fs)"
    by (auto simp: octetMarshalBinary_def rbind_Inr_iff split: if_splits dest: octetSpeechBytes_ok)
  let ?cmr = "word_of_int (push_bit 4 noModeRequest) :: byte"
  have toc: "octetReadTOC codec bs 1 [] = Inr (map blank fs, 1 + length fs)"
    using octetReadTOC_octetTOCs [OF ok ne, of "[?cmr]" "concat (map Data fs)" "[]"] bs by simp
  have "octetReadData ((?cmr # octetTOCs fs) @ concat (map Data fs) @ [])
      (length (?cmr # octetTOCs fs)) (map blank fs) = Inr fs"
    by (subst octetReadData_concat) (auto simp: map2_blank blank_def)
  then have "octetReadData bs (1 + length fs) (map blank fs) = Inr fs"
    by (simp add: bs)
  with toc ne bs show ?thesis
    by (cases fs) (simp_all add: octetUnmarshalBinary_def)
qed

interpretation octet: payload_codec "octetMarshalBinary codec" "octetUnmarshalBinary codec" "\<lambda>fs. fs"
  for codec
  by unfold_locales (auto simp: octet_unmarshal_marshal)

lemma octet_marshal_length:
  "octetMarshalBinary codec fs = Inr bs \<Longrightarrow>
   length bs = 1 + length fs + length (concat (map Data fs))"
  by (auto simp: octetMarshalBinary_def rbind_Inr_iff split: if_splits)

lemma octet_marshal_total:
  "fs \<noteq> [] \<Longrightarrow> \<forall>f\<in>set fs. frame_ok codec f \<Longrightarrow> \<exists>bs. octetMarshalBinary codec fs = Inr bs"
  by (simp add: octetMarshalBinary_def octetSpeechBytes_total)

text \<open>What the decoder accepts has frames of the right size, however the payload looks.\<close>

lemma octetReadTOC_ok:
  "octetReadTOC codec payload offset acc = Inr (fs, k) \<Longrightarrow> \<forall>f\<in>set acc. frame_ok codec f \<Longrightarrow>
   (\<forall>f\<in>set fs. frame_ok codec f) \<and> fs \<noteq> [] \<and> offset < k \<and> k \<le> length payload \<and>
   length fs + offset = length acc + k"
proof (induction codec payload offset acc arbitrary: fs k rule: octetReadTOC.induct)
  case (1 codec payload offset acc)
  let ?toc = "payload ! offset"
  let ?ft = "tocFrameType ?toc"
  let ?f = "\<lparr>FrameType = ?ft, Quality = (?toc AND 0x04 \<noteq> 0),
     Data = replicate (nat (AMRFrameBytes codec ?ft)) 0\<rparr>"
  from "1.prems"(1) have lt: "offset < length payload" and sz: "\<not> AMRFrameBytes codec ?ft < 0"
    by (auto simp: octetReadTOC.simps [of codec payload offset acc] Let_def split: if_splits)
  have okf: "frame_ok codec ?f" using sz by (simp add: frame_ok_def)
  show ?case
  proof (cases "?toc AND 0x80 \<noteq> 0")
    case True
    have rec: "octetReadTOC codec payload (Suc offset) (acc @ [?f]) = Inr (fs, k)"
      using "1.prems"(1) lt sz True
      by (simp add: octetReadTOC.simps [of codec payload offset acc] Let_def)
    have "\<forall>f\<in>set (acc @ [?f]). frame_ok codec f" using "1.prems"(2) okf by auto
    from "1.IH" [OF _ refl refl refl refl refl _ refl _ rec this] lt sz True
    show ?thesis by auto
  next
    case False
    then show ?thesis
      using "1.prems" lt sz okf
      by (auto simp: octetReadTOC.simps [of codec payload offset acc] Let_def)
  qed
qed

lemma octetReadData_ok:
  "octetReadData payload offset gs = Inr fs \<Longrightarrow>
   list_all2 (\<lambda>g f. f = g\<lparr>Data := Data f\<rparr> \<and> length (Data f) = length (Data g)) gs fs \<and>
   (offset \<le> length payload \<longrightarrow> offset + length (concat (map Data fs)) \<le> length payload)"
proof (induction gs arbitrary: offset fs)
  case (Cons g gs)
  then show ?case
    by (auto simp: Let_def rbind_Inr_iff split: if_splits) fastforce+
qed simp

lemma octet_decoded:
  assumes "octetUnmarshalBinary codec payload = Inr fs"
  shows "fs \<noteq> []" "\<forall>f\<in>set fs. frame_ok codec f"
    "1 + length fs + length (concat (map Data fs)) \<le> length payload"
proof -
  obtain gs k where toc: "octetReadTOC codec payload 1 [] = Inr (gs, k)" and data: "octetReadData payload k gs = Inr fs"
    using assms by (auto simp: octetUnmarshalBinary_def rbind_Inr_iff split: if_splits)
  note t = octetReadTOC_ok [OF toc, simplified] and d = octetReadData_ok [OF data]
  show "fs \<noteq> []" using t d by auto
  have "list_all2 (\<lambda>g f. frame_ok codec g \<longrightarrow> frame_ok codec f) gs fs"
    by (rule list_all2_mono [OF conjunct1 [OF d]]) (metis AMRFrame.select_convs(1) AMRFrame.surjective AMRFrame.update_convs(3) frame_ok_def)
  then show "\<forall>f\<in>set fs. frame_ok codec f" using t
    by (metis in_set_conv_nth list_all2_conv_all_nth)
  show "1 + length fs + length (concat (map Data fs)) \<le> length payload"
    using t d list_all2_lengthD [OF conjunct1 [OF d]] by simp
qed

section \<open>Properties\<close>

text \<open>
  Frames whose data has the size of their frame type are encoded into an octet-aligned payload of
  one header byte, one table-of-contents byte per frame and the speech bytes, and decoding it
  gives the same frames back.
\<close>

theorem octet_round_trip:
  assumes "fs \<noteq> []" and "\<forall>f\<in>set fs. frame_ok codec f"
  shows "\<exists>bs. octetMarshalBinary codec fs = Inr bs \<and>
    length bs = 1 + length fs + length (concat (map Data fs)) \<and> octetUnmarshalBinary codec bs = Inr fs"
  using octet_marshal_total [OF assms] octet_marshal_length octet.unmarshal_marshal by blast

theorem octet_round_trip_witness:
  "\<exists>bs. octetMarshalBinary CodecAMR [\<lparr>FrameType = 8, Quality = True, Data = [1, 2, 3, 4, 5]\<rparr>] = Inr bs \<and>
     length bs = 7 \<and>
     octetUnmarshalBinary CodecAMR bs = Inr [\<lparr>FrameType = 8, Quality = True, Data = [1, 2, 3, 4, 5]\<rparr>]"
  using octet_round_trip [of "[\<lparr>FrameType = 8, Quality = True, Data = [1, 2, 3, 4, 5]\<rparr>]" CodecAMR]
  by (simp add: frame_ok_def AMRFrameBytes_def amrFrameBytes_def eval_nat_numeral)

text \<open>
  Whatever payload the octet-aligned decoder accepts, mode request and trailing bytes included,
  can be sent on: its frames are encoded again, into no more bytes, and decode to the same frames.
\<close>

theorem octet_relay:
  assumes "octetUnmarshalBinary codec payload = Inr fs"
  shows "\<exists>bs. octetMarshalBinary codec fs = Inr bs \<and> length bs \<le> length payload \<and>
    octetUnmarshalBinary codec bs = Inr fs"
  using octet_decoded [OF assms] octet_marshal_total [of fs codec] octet_marshal_length octet.unmarshal_marshal
  by metis

theorem octet_relay_witness:
  "\<exists>bs. octetMarshalBinary CodecAMR [\<lparr>FrameType = 8, Quality = True, Data = [1, 2, 3, 4, 5]\<rparr>] = Inr bs \<and>
     length bs \<le> 8 \<and>
     octetUnmarshalBinary CodecAMR bs = Inr [\<lparr>FrameType = 8, Quality = True, Data = [1, 2, 3, 4, 5]\<rparr>]"
proof -
  have "octetUnmarshalBinary CodecAMR [0x20, 0x44, 1, 2, 3, 4, 5, 99] =
      Inr [\<lparr>FrameType = 8, Quality = True, Data = [1, 2, 3, 4, 5]\<rparr>]"
    by code_simp
  from octet_relay [OF this] show ?thesis by (simp add: eval_nat_numeral)
qed

end
