(* ===== verification/AmrBits.thy ===== *)
theory AmrBits
  imports AmrCodec
begin

text \<open>
  The bandwidth-efficient RTP payload of \<open>pro/voicecodec/amr.go\<close>: bits, not bytes, are
  written one after the other, through \<open>bitWriter\<close> and \<open>bitReader\<close>. The lemmas relate
  both to the sequence of bits of a byte list and give the laws of \<open>payload_codec\<close>. A
  frame's last byte may have bits beyond the frame's bit count; they are not sent, so the
  receiver gets the frame with these bits cleared (\<open>clearFrame\<close>).
\<close>

section \<open>Writing bits\<close>

record bitWriter =
  wdata :: "byte list"
  wposition :: nat

definition writeBit :: "bitWriter \<Rightarrow> bool \<Rightarrow> bitWriter" where
  "writeBit w v =
     (let byteIndex = wposition w div 8;
          d = (if byteIndex = length (wdata w) then wdata w @ [0] else wdata w);
          d = (if v then d[byteIndex := d ! byteIndex OR push_bit (7 - wposition w mod 8) 1] else d)
      in \<lparr>wdata = d, wposition = Suc (wposition w)\<rparr>)"

fun writeBits :: "bitWriter \<Rightarrow> int \<Rightarrow> nat \<Rightarrow> bitWriter" where
  "writeBits w v 0 = w"
| "writeBits w v (Suc i) = writeBits (writeBit w (v AND push_bit i 1 \<noteq> 0)) v i"

definition writeBytes :: "bitWriter \<Rightarrow> byte list \<Rightarrow> int \<Rightarrow> bitWriter" where
  "writeBytes w d bits =
     fold (\<lambda>i w. writeBit w (d ! (i div 8) AND push_bit (7 - i mod 8) 1 \<noteq> 0)) [0..<nat bits] w"

section \<open>Reading bits\<close>

record bitReader =
  rdata :: "byte list"
  rposition :: nat

definition readBit :: "byte list \<Rightarrow> nat \<Rightarrow> int" where
  "readBit d position =
     (let byteIndex = position div 8; bitIndex = 7 - position mod 8
      in uint (drop_bit bitIndex (d ! byteIndex) AND 1))"

fun readLoop :: "byte list \<Rightarrow> nat \<Rightarrow> nat \<Rightarrow> int \<Rightarrow> int" where
  "readLoop d position 0 v = v"
| "readLoop d position (Suc n) v = readLoop d (Suc position) n (push_bit 1 v OR readBit d position)"

definition readBits :: "bitReader \<Rightarrow> int \<Rightarrow> amrError + int \<times> bitReader" where
  "readBits r count =
     (if count < 0 \<or> int (rposition r) + count > int (length (rdata r) * 8)
      then Inl ErrAMRPayloadTruncated
      else Inr (readLoop (rdata r) (rposition r) (nat count) 0,
                r\<lparr>rposition := rposition r + nat count\<rparr>))"

fun readBytesLoop :: "bitReader \<Rightarrow> nat \<Rightarrow> nat \<Rightarrow> byte list \<Rightarrow> amrError + byte list \<times> bitReader" where
  "readBytesLoop r i 0 out = Inr (out, r)"
| "readBytesLoop r i (Suc n) out =
     rbind (readBits r 1) (\<lambda>(b, r').
       readBytesLoop r' (Suc i) n
         (if b \<noteq> 0 then out[i div 8 := out ! (i div 8) OR push_bit (7 - i mod 8) 1] else out))"

definition readBytes :: "bitReader \<Rightarrow> int \<Rightarrow> amrError + byte list \<times> bitReader" where
  "readBytes r bits = readBytesLoop r 0 (nat bits) (replicate (nat (bytesForBits bits)) 0)"

section \<open>The bandwidth-efficient payload\<close>

fun beWriteTOCs :: "AMRCodec \<Rightarrow> bitWriter \<Rightarrow> AMRFrame list \<Rightarrow> amrError + bitWriter" where
  "beWriteTOCs codec w [] = Inr w"
| "beWriteTOCs codec w (frame # fs) =
     (let bits = amrFrameBitCount codec (FrameType frame) in
      if bits < 0 then Inl ErrAMRFrameTypeUnsupported
      else if int (length (Data frame)) \<noteq> bytesForBits bits then Inl ErrAMRFrameSizeMismatch
      else
        let w = (if fs \<noteq> [] then writeBits w 1 1 else writeBits w 0 1);
            w = writeBits w (FrameType frame AND 0x0f) 4;
            w = (if Quality frame then writeBits w 1 1 else writeBits w 0 1)
        in beWriteTOCs codec w fs)"

fun beWriteData :: "AMRCodec \<Rightarrow> bitWriter \<Rightarrow> AMRFrame list \<Rightarrow> bitWriter" where
  "beWriteData codec w [] = w"
| "beWriteData codec w (frame # fs) =
     beWriteData codec (writeBytes w (Data frame) (amrFrameBitCount codec (FrameType frame))) fs"

definition beMarshalBinary :: "AMRCodec \<Rightarrow> AMRFrame list \<Rightarrow> amrError + byte list" where
  "beMarshalBinary codec frames =
     (if frames = [] then Inl ErrAMRFramesRequired
      else rbind (beWriteTOCs codec (writeBits \<lparr>wdata = [], wposition = 0\<rparr> noModeRequest 4) frames)
        (\<lambda>w. Inr (wdata (beWriteData codec w frames))))"

lemma readBits_Inr:
  "readBits r n = Inr (v, r') \<longleftrightarrow>
     0 \<le> n \<and> int (rposition r) + n \<le> int (length (rdata r) * 8) \<and>
     v = readLoop (rdata r) (rposition r) (nat n) 0 \<and> r' = r\<lparr>rposition := rposition r + nat n\<rparr>"
  by (auto simp: readBits_def)

function beReadTOC ::
  "AMRCodec \<Rightarrow> bitReader \<Rightarrow> AMRFrame list \<Rightarrow> amrError + AMRFrame list \<times> bitReader" where
  "beReadTOC codec r frames =
     rbind (readBits r 1) (\<lambda>(f, r1).
     rbind (readBits r1 4) (\<lambda>(frameType, r2).
     rbind (readBits r2 1) (\<lambda>(quality, r3).
       let bits = amrFrameBitCount codec frameType in
       if bits < 0 then Inl ErrAMRFrameTypeUnsupported
       else
         let frames' = frames @ [\<lparr>FrameType = frameType, Quality = (quality \<noteq> 0),
                                   Data = replicate (nat (bytesForBits bits)) 0\<rparr>]
         in if f \<noteq> 0 then beReadTOC codec r3 frames' else Inr (frames', r3))))"
  by pat_completeness auto
termination
  by (relation "measure (\<lambda>(codec, r, frames). length (rdata r) * 8 - rposition r)")
     (auto simp: readBits_Inr)

declare beReadTOC.simps [simp del]

fun beReadData :: "AMRCodec \<Rightarrow> bitReader \<Rightarrow> AMRFrame list \<Rightarrow> amrError + AMRFrame list" where
  "beReadData codec r [] = Inr []"
| "beReadData codec r (frame # fs) =
     rbind (readBytes r (amrFrameBitCount codec (FrameType frame))) (\<lambda>(d, r').
     rbind (beReadData codec r' fs) (\<lambda>rest.
       Inr (frame\<lparr>Data := take (length (Data frame)) d @ drop (length d) (Data frame)\<rparr> # rest)))"

definition beUnmarshalBinary :: "AMRCodec \<Rightarrow> byte list \<Rightarrow> amrError + AMRFrame list" where
  "beUnmarshalBinary codec payload =
     rbind (readBits \<lparr>rdata = payload, rposition = 0\<rparr> 4) (\<lambda>(_, r).
     rbind (beReadTOC codec r []) (\<lambda>(frames, r'). beReadData codec r' frames))"

section \<open>The payload type of a session\<close>

record AMRPayload =
  PayloadCodec :: AMRCodec
  OctetAligned :: bool
  PayloadFrames :: "AMRFrame list"

definition payloadMarshalBinary :: "AMRPayload \<Rightarrow> amrError + byte list" where
  "payloadMarshalBinary p =
     (if OctetAligned p then octetMarshalBinary (PayloadCodec p) (PayloadFrames p)
      else beMarshalBinary (PayloadCodec p) (PayloadFrames p))"

definition payloadUnmarshalBinary :: "AMRPayload \<Rightarrow> byte list \<Rightarrow> amrError + AMRPayload" where
  "payloadUnmarshalBinary p payload =
     (if OctetAligned p
      then rbind (octetUnmarshalBinary (PayloadCodec p) payload) (\<lambda>fs. Inr (p\<lparr>PayloadFrames := fs\<rparr>))
      else rbind (beUnmarshalBinary (PayloadCodec p) payload) (\<lambda>fs. Inr (p\<lparr>PayloadFrames := fs\<rparr>)))"

section \<open>The bits of a byte list\<close>

definition bit_at :: "byte list \<Rightarrow> nat \<Rightarrow> bool" where
  "bit_at d i = bit (d ! (i div 8)) (7 - i mod 8)"

text \<open>The writer has written exactly the bits \<open>bs\<close>; what is beyond them is zero.\<close>

definition writer_holds :: "bitWriter \<Rightarrow> bool list \<Rightarrow> bool" where
  "writer_holds w bs \<longleftrightarrow>
     wposition w = length bs \<and> length (wdata w) = (length bs + 7) div 8 \<and>
     (\<forall>i < 8 * length (wdata w). bit_at (wdata w) i \<longleftrightarrow> i < length bs \<and> bs ! i)"

lemma writer_holds_empty: "writer_holds \<lparr>wdata = [], wposition = 0\<rparr> []"
  by (simp add: writer_holds_def)

lemma mod8_same_byte:
  assumes "i div 8 = (j::nat) div 8"
  shows "7 - i mod 8 = 7 - j mod 8 \<longleftrightarrow> i = j"
proof
  assume eq: "7 - i mod 8 = 7 - j mod 8"
  have "i mod 8 < 8" and "j mod 8 < 8" by simp_all
  with eq have "i mod 8 = j mod 8" by linarith
  with assms show "i = j" by (metis div_mult_mod_eq)
qed simp

lemma bit_at_or:
  assumes "i < 8 * length d" and "j < 8 * length d"
  shows "bit_at (d[i div 8 := d ! (i div 8) OR push_bit (7 - i mod 8) 1]) j \<longleftrightarrow>
         bit_at d j \<or> i = j"
proof (cases "i div 8 = j div 8")
  case True
  have "7 - j mod 8 < (8::nat)" by simp
  with True assms show ?thesis
    using mod8_same_byte [OF True]
    by (auto simp: bit_at_def bit_or_iff bit_exp_iff nth_list_update)
next
  case False
  with assms show ?thesis by (auto simp: bit_at_def nth_list_update)
qed

lemma writer_holds_writeBit:
  assumes "writer_holds w bs"
  shows "writer_holds (writeBit w v) (bs @ [v])"
proof -
  let ?n = "length bs"
  let ?d = "if ?n div 8 = length (wdata w) then wdata w @ [0] else wdata w"
  have pos: "wposition w = ?n" and len: "length (wdata w) = (?n + 7) div 8"
    and bits: "\<And>i. i < 8 * length (wdata w) \<Longrightarrow> bit_at (wdata w) i \<longleftrightarrow> i < ?n \<and> bs ! i"
    using assms by (auto simp: writer_holds_def)
  have len': "length ?d = (Suc ?n + 7) div 8" using len by auto
  have bits': "bit_at ?d i \<longleftrightarrow> i < ?n \<and> bs ! i" if "i < 8 * length ?d" for i
  proof (cases "i < 8 * length (wdata w)")
    case True
    then have "i div 8 < length (wdata w)" by simp
    then have "bit_at ?d i = bit_at (wdata w) i" by (simp add: bit_at_def nth_append)
    with bits True show ?thesis by simp
  next
    case False
    with that have e: "?n div 8 = length (wdata w)" and i: "i div 8 = length (wdata w)"
      by (auto split: if_splits)
    with len have "?n \<le> i" by auto
    with e i show ?thesis by (simp add: bit_at_def nth_append)
  qed
  have n: "?n < 8 * length ?d" using len' by simp
  show ?thesis
  proof (cases v)
    case False
    then show ?thesis
      using len' bits' by (auto simp: writer_holds_def writeBit_def pos Let_def nth_append)
  next
    case True
    have "bit_at (?d[?n div 8 := ?d ! (?n div 8) OR push_bit (7 - ?n mod 8) 1]) i \<longleftrightarrow>
        i < Suc ?n \<and> (bs @ [v]) ! i" if "i < 8 * length ?d" for i
      using bit_at_or [OF n that] bits' [OF that] True by (auto simp: nth_append)
    then show ?thesis
      using len' True unfolding writer_holds_def writeBit_def pos Let_def by simp
  qed
qed

definition int_bits :: "int \<Rightarrow> nat \<Rightarrow> bool list" where
  "int_bits v n = map (bit v) (rev [0..<n])"

lemma int_bits_simps [codec_simps]:
  "int_bits v 0 = []" "int_bits v (Suc n) = bit v n # int_bits v n"
  by (simp_all add: int_bits_def)

lemma int_bits_1 [codec_simps]: "int_bits v (Suc 0) = [odd v]" "int_bits v 1 = [odd v]"
  by (simp_all add: int_bits_def bit_0)

lemma writer_holds_writeBits:
  "writer_holds w bs \<Longrightarrow> writer_holds (writeBits w v n) (bs @ int_bits v n)"
proof (induction n arbitrary: w bs)
  case 0
  then show ?case by (simp add: int_bits_def)
next
  case (Suc n)
  have "writer_holds (writeBit w (v AND push_bit n 1 \<noteq> 0)) (bs @ [bit v n])"
    using writer_holds_writeBit [OF Suc.prems] by (simp only: bit_iff_and_push_bit_not_eq_0)
  from Suc.IH [OF this] show ?case by (simp add: int_bits_simps)
qed

lemma writer_holds_writeBytes_upto:
  "writer_holds w bs \<Longrightarrow>
   writer_holds (fold (\<lambda>i w. writeBit w (d ! (i div 8) AND push_bit (7 - i mod 8) 1 \<noteq> 0)) is w)
     (bs @ map (bit_at d) is)"
proof (induction "is" arbitrary: w bs)
  case Nil
  then show ?case by simp
next
  case (Cons i js)
  have "writer_holds (writeBit w (d ! (i div 8) AND push_bit (7 - i mod 8) 1 \<noteq> 0))
      (bs @ [bit_at d i])"
    using writer_holds_writeBit [OF Cons.prems]
    by (simp only: bit_at_def bit_iff_and_push_bit_not_eq_0)
  from Cons.IH [OF this] show ?case by simp
qed

definition speech_bits :: "AMRCodec \<Rightarrow> AMRFrame \<Rightarrow> bool list" where
  "speech_bits codec f = map (bit_at (Data f)) [0..<nat (amrFrameBitCount codec (FrameType f))]"

lemma writer_holds_writeBytes:
  "writer_holds w bs \<Longrightarrow>
   writer_holds (writeBytes w (Data f) (amrFrameBitCount codec (FrameType f)))
     (bs @ speech_bits codec f)"
  unfolding writeBytes_def speech_bits_def by (rule writer_holds_writeBytes_upto)

definition toc_bits :: "AMRFrame \<Rightarrow> bool \<Rightarrow> bool list" where
  "toc_bits f more' = more' # int_bits (FrameType f AND 0x0f) 4 @ [Quality f]"

fun tocs_bits :: "AMRFrame list \<Rightarrow> bool list" where
  "tocs_bits [] = []"
| "tocs_bits (f # fs) = toc_bits f (fs \<noteq> []) @ tocs_bits fs"

definition be_frame_ok :: "AMRCodec \<Rightarrow> AMRFrame \<Rightarrow> bool" where
  "be_frame_ok codec f \<longleftrightarrow> 0 \<le> amrFrameBitCount codec (FrameType f) \<and>
     int (length (Data f)) = bytesForBits (amrFrameBitCount codec (FrameType f))"

lemma writer_holds_flag:
  "writer_holds w bs \<Longrightarrow>
   writer_holds (if v then writeBits w 1 (Suc 0) else writeBits w 0 (Suc 0)) (bs @ [v])"
  using writer_holds_writeBits [of w bs 1 1] writer_holds_writeBits [of w bs 0 1]
  by (simp add: int_bits_1)

lemma beWriteTOCs_holds:
  "writer_holds w bs \<Longrightarrow> beWriteTOCs codec w fs = Inr w' \<Longrightarrow>
   writer_holds w' (bs @ tocs_bits fs) \<and> (\<forall>f\<in>set fs. be_frame_ok codec f)"
proof (induction fs arbitrary: w bs)
  case Nil
  then show ?case by simp
next
  case (Cons f fs)
  let ?w1 = "if fs \<noteq> [] then writeBits w 1 (Suc 0) else writeBits w 0 (Suc 0)"
  let ?w2 = "writeBits ?w1 (FrameType f AND 0x0f) 4"
  let ?w3 = "if Quality f then writeBits ?w2 1 (Suc 0) else writeBits ?w2 0 (Suc 0)"
  have ok: "be_frame_ok codec f" and rest: "beWriteTOCs codec ?w3 fs = Inr w'"
    using Cons.prems(2) by (auto simp: be_frame_ok_def Let_def simp del: writeBits.simps split: if_splits)
  have "writer_holds ?w1 (bs @ [fs \<noteq> []])"
    by (rule writer_holds_flag) (rule Cons.prems(1))
  then have "writer_holds ?w2 ((bs @ [fs \<noteq> []]) @ int_bits (FrameType f AND 0x0f) 4)"
    by (rule writer_holds_writeBits)
  then have "writer_holds ?w3 (((bs @ [fs \<noteq> []]) @ int_bits (FrameType f AND 0x0f) 4) @ [Quality f])"
    by (rule writer_holds_flag)
  from Cons.IH [OF this rest] ok show ?case by (simp add: toc_bits_def)
qed

lemma beWriteData_holds:
  "writer_holds w bs \<Longrightarrow>
   writer_holds (beWriteData codec w fs) (bs @ concat (map (speech_bits codec) fs))"
proof (induction fs arbitrary: w bs)
  case Nil
  then show ?case by simp
next
  case (Cons f fs)
  from Cons.IH [OF writer_holds_writeBytes [OF Cons.prems, of f codec]] show ?case by simp
qed

section \<open>Reading the bits back\<close>

text \<open>The reader is in front of the bits \<open>bs\<close>.\<close>

definition reader_at :: "bitReader \<Rightarrow> bool list \<Rightarrow> bool" where
  "reader_at r bs \<longleftrightarrow> rposition r + length bs \<le> 8 * length (rdata r) \<and>
     (\<forall>i < length bs. bit_at (rdata r) (rposition r + i) = bs ! i)"

lemma writer_reader:
  "writer_holds w bs \<Longrightarrow> reader_at \<lparr>rdata = wdata w, rposition = 0\<rparr> bs"
  by (auto simp: writer_holds_def reader_at_def)

lemma all_less_add: "(\<forall>i < m + n. P i) \<longleftrightarrow> (\<forall>i < m. P i) \<and> (\<forall>i < n. P (m + i))" for m :: nat
  by (metis add_diff_inverse_nat nat_add_left_cancel_less trans_less_add1)

lemma reader_at_append:
  "reader_at r (xs @ bs) \<longleftrightarrow>
   reader_at r xs \<and> reader_at (r\<lparr>rposition := rposition r + length xs\<rparr>) bs"
  by (auto simp: reader_at_def all_less_add nth_append add.assoc)

definition bits_val :: "bool list \<Rightarrow> int \<Rightarrow> int" where
  "bits_val xs v = foldl (\<lambda>v b. push_bit 1 v OR of_bool b) v xs"

lemma readBit_bit_at: "readBit d i = of_bool (bit_at d i)"
  by (simp add: readBit_def bit_at_def Let_def and_one_eq mod_2_eq_odd bit_iff_odd_drop_bit)

lemma readLoop_bits_val:
  "(\<forall>i < length xs. bit_at d (p + i) = xs ! i) \<Longrightarrow> readLoop d p (length xs) v = bits_val xs v"
proof (induction xs arbitrary: p v)
  case Nil
  then show ?case by (simp add: bits_val_def)
next
  case (Cons x xs)
  have "bit_at d p = x" using Cons.prems by force
  moreover have "\<forall>i < length xs. bit_at d (Suc p + i) = xs ! i" using Cons.prems by force
  ultimately show ?case using Cons.IH by (simp add: bits_val_def readBit_bit_at)
qed

lemma readBits_bits:
  "reader_at r xs \<Longrightarrow>
   readBits r (int (length xs)) = Inr (bits_val xs 0, r\<lparr>rposition := rposition r + length xs\<rparr>)"
  by (simp add: readBits_Inr reader_at_def readLoop_bits_val)

lemma readBits_flag:
  "reader_at r (b # bs) \<Longrightarrow>
   readBits r 1 = Inr (of_bool b, r\<lparr>rposition := Suc (rposition r)\<rparr>) \<and>
   reader_at (r\<lparr>rposition := Suc (rposition r)\<rparr>) bs"
  using readBits_bits [of r "[b]"] reader_at_append [of r "[b]" bs] by (simp add: bits_val_def)

lemma int_bits_4: "int_bits v 4 = [bit v 3, bit v 2, bit v 1, bit v 0]"
  by (simp add: int_bits_simps eval_nat_numeral)

lemma bits_val_int_bits:
  assumes "0 \<le> v" and "v \<le> 15"
  shows "bits_val (int_bits (v AND 0x0f) 4) 0 = v"
proof -
  have "v \<in> set [0..15]" using assms by simp
  then have "v = 0 \<or> v = 1 \<or> v = 2 \<or> v = 3 \<or> v = 4 \<or> v = 5 \<or> v = 6 \<or> v = 7 \<or>
    v = 8 \<or> v = 9 \<or> v = 10 \<or> v = 11 \<or> v = 12 \<or> v = 13 \<or> v = 14 \<or> v = 15"
    by (simp add: upto.simps)
  then show ?thesis
    by (elim disjE) (simp_all add: bits_val_def int_bits_4)
qed

lemma readBits_frame_type:
  assumes "reader_at r (int_bits (v AND 0x0f) 4 @ bs)" and "0 \<le> v" and "v \<le> 15"
  shows "readBits r 4 = Inr (v, r\<lparr>rposition := rposition r + 4\<rparr>) \<and>
         reader_at (r\<lparr>rposition := rposition r + 4\<rparr>) bs"
proof -
  have "length (int_bits (v AND 0x0f) 4) = 4" by (simp add: int_bits_def)
  with assms show ?thesis
    using readBits_bits [of r "int_bits (v AND 0x0f) 4"] bits_val_int_bits [of v]
    by (simp add: reader_at_append)
qed

lemma be_frame_ok_range: "be_frame_ok codec f \<Longrightarrow> 0 \<le> FrameType f \<and> FrameType f \<le> 15"
  using amrFrameBitCount_range [of codec "FrameType f"] by (simp add: be_frame_ok_def)

lemma be_frame_ok_length:
  "be_frame_ok codec f \<Longrightarrow>
   nat (bytesForBits (amrFrameBitCount codec (FrameType f))) = length (Data f)"
  by (metis be_frame_ok_def nat_int)

lemma be_frame_ok_bits:
  "be_frame_ok codec f \<Longrightarrow> nat (amrFrameBitCount codec (FrameType f)) \<le> 8 * length (Data f)"
  by (auto simp: be_frame_ok_def bytesForBits_def)

lemma be_frame_blank:
  assumes "be_frame_ok codec f"
  shows "\<lparr>FrameType = FrameType f, Quality = Quality f,
      Data = replicate (nat (bytesForBits (amrFrameBitCount codec (FrameType f)))) 0\<rparr> = blank f"
  using be_frame_ok_length [OF assms] by (cases f) (simp add: blank_def)

lemma beReadTOC_bits:
  assumes "\<forall>f\<in>set fs. be_frame_ok codec f" and "fs \<noteq> []" and "reader_at r (tocs_bits fs @ bs)"
  shows "\<exists>r'. beReadTOC codec r acc = Inr (acc @ map blank fs, r') \<and> reader_at r' bs"
  using assms
proof (induction fs arbitrary: r acc)
  case Nil
  then show ?case by simp
next
  case (Cons f fs)
  have ok: "be_frame_ok codec f" using Cons.prems by simp
  note ft = be_frame_ok_range [OF ok]
  let ?rest = "tocs_bits fs @ bs"
  have "reader_at r ((fs \<noteq> []) # int_bits (FrameType f AND 0x0f) 4 @ Quality f # ?rest)"
    using Cons.prems(3) by (simp add: toc_bits_def)
  from readBits_flag [OF this] obtain r1 where
    r1: "readBits r 1 = Inr (of_bool (fs \<noteq> []), r1)"
    and at1: "reader_at r1 (int_bits (FrameType f AND 0x0f) 4 @ Quality f # ?rest)" by blast
  from readBits_frame_type [OF at1] ft obtain r2 where
    r2: "readBits r1 4 = Inr (FrameType f, r2)" and at2: "reader_at r2 (Quality f # ?rest)" by blast
  from readBits_flag [OF at2] obtain r3 where
    r3: "readBits r2 1 = Inr (of_bool (Quality f), r3)" and at3: "reader_at r3 ?rest" by blast
  have pos: "\<not> amrFrameBitCount codec (FrameType f) < 0" using ok by (simp add: be_frame_ok_def)
  have step: "beReadTOC codec r acc = (if fs \<noteq> [] then beReadTOC codec r3 (acc @ [blank f])
      else Inr (acc @ [blank f], r3))"
    using r1 r2 r3 pos be_frame_blank [OF ok]
    by (subst beReadTOC.simps) (simp add: Let_def)
  show ?case
  proof (cases "fs = []")
    case True
    with step at3 show ?thesis by simp
  next
    case False
    with Cons.IH [OF _ False at3, of "acc @ [blank f]"] Cons.prems step show ?thesis by simp
  qed
qed

lemma readBytesLoop_bits:
  "reader_at r (xs @ bs) \<Longrightarrow> i + length xs \<le> 8 * length out \<Longrightarrow>
   \<exists>out' r'. readBytesLoop r i (length xs) out = Inr (out', r') \<and> reader_at r' bs \<and>
     length out' = length out \<and>
     (\<forall>j < 8 * length out. bit_at out' j \<longleftrightarrow>
        bit_at out j \<or> (i \<le> j \<and> j < i + length xs \<and> xs ! (j - i)))"
proof (induction xs arbitrary: r i out)
  case Nil
  then show ?case by auto
next
  case (Cons x xs)
  from readBits_flag [of r x "xs @ bs"] Cons.prems(1) obtain r1 where
    r1: "readBits r 1 = Inr (of_bool x, r1)" and at1: "reader_at r1 (xs @ bs)" by auto
  let ?out = "if x then out[i div 8 := out ! (i div 8) OR push_bit (7 - i mod 8) 1] else out"
  have i: "i < 8 * length out" using Cons.prems(2) by simp
  have o: "length ?out = length out"
    and b: "\<And>j. j < 8 * length out \<Longrightarrow> bit_at ?out j \<longleftrightarrow> bit_at out j \<or> (i = j \<and> x)"
    using bit_at_or [OF i] by auto
  have "Suc i + length xs \<le> 8 * length ?out" using Cons.prems(2) o by simp
  from Cons.IH [OF at1 this] obtain out' r' where
    rec: "readBytesLoop r1 (Suc i) (length xs) ?out = Inr (out', r')" and at': "reader_at r' bs"
    and len': "length out' = length ?out"
    and bits: "\<forall>j < 8 * length ?out. bit_at out' j \<longleftrightarrow>
        bit_at ?out j \<or> (Suc i \<le> j \<and> j < Suc i + length xs \<and> xs ! (j - Suc i))"
    by blast
  have "readBytesLoop r i (length (x # xs)) out = Inr (out', r')"
    using rec r1 by (auto split: if_splits)
  moreover have "bit_at out' j \<longleftrightarrow>
      bit_at out j \<or> (i \<le> j \<and> j < i + length (x # xs) \<and> (x # xs) ! (j - i))"
    if "j < 8 * length out" for j
    using bits that b [OF that] o by (cases "j = i") (auto simp: nth_Cons')
  ultimately show ?case using at' len' o by auto
qed

text \<open>The bytes of a frame with the bits beyond its bit count cleared.\<close>

definition clearTail :: "nat \<Rightarrow> byte list \<Rightarrow> byte list" where
  "clearTail n d =
     map (\<lambda>k. if 8 * k + 8 \<le> n then d ! k
              else if n \<le> 8 * k then 0
              else d ! k AND NOT (mask (8 * k + 8 - n))) [0..<length d]"

definition clearFrame :: "AMRCodec \<Rightarrow> AMRFrame \<Rightarrow> AMRFrame" where
  "clearFrame codec f = f\<lparr>Data := clearTail (nat (amrFrameBitCount codec (FrameType f))) (Data f)\<rparr>"

lemma clearTail_length [simp]: "length (clearTail n d) = length d"
  by (simp add: clearTail_def)

lemma bit_at_clearTail:
  assumes "i < 8 * length d"
  shows "bit_at (clearTail n d) i \<longleftrightarrow> i < n \<and> bit_at d i"
proof -
  let ?k = "i div 8"
  have k: "?k < length d" using assms by simp
  have m: "i = 8 * ?k + i mod 8" "i mod 8 < 8" by simp_all
  have "8 * ?k + 8 \<le> n \<Longrightarrow> i < n" "n \<le> 8 * ?k \<Longrightarrow> \<not> i < n"
    using m by linarith+
  moreover have "\<not> 7 - i mod 8 < 8 * ?k + 8 - n \<longleftrightarrow> i < n" if "\<not> 8 * ?k + 8 \<le> n"
    using m that by linarith
  ultimately show ?thesis
    using k by (auto simp: bit_at_def clearTail_def bit_and_iff bit_not_iff bit_mask_iff)
qed

lemma bytes_eqI:
  assumes "length a = length b" and "\<And>i. i < 8 * length a \<Longrightarrow> bit_at a i = bit_at b i"
  shows "a = b"
proof (rule nth_equalityI [OF assms(1)])
  fix k
  assume k: "k < length a"
  show "a ! k = b ! k"
  proof (rule bit_word_eqI)
    fix n
    assume n: "n < LENGTH(8)"
    then have "8 * k + (7 - n) < 8 * length a" using k by simp
    from assms(2) [OF this] n show "bit (a ! k) n = bit (b ! k) n"
      by (simp add: bit_at_def)
  qed
qed

lemma readBytes_speech:
  assumes ok: "be_frame_ok codec f" and at: "reader_at r (speech_bits codec f @ bs)"
  shows "\<exists>r'. readBytes r (amrFrameBitCount codec (FrameType f)) =
           Inr (Data (clearFrame codec f), r') \<and> reader_at r' bs"
proof -
  let ?n = "nat (amrFrameBitCount codec (FrameType f))"
  note len = be_frame_ok_length [OF ok] and n8 = be_frame_ok_bits [OF ok]
  let ?z = "replicate (length (Data f)) 0 :: byte list"
  have sl: "length (speech_bits codec f) = ?n" by (simp add: speech_bits_def)
  obtain out r' where rd: "readBytesLoop r 0 ?n ?z = Inr (out, r')" and at': "reader_at r' bs"
    and lo: "length out = length (Data f)"
    and bo: "\<forall>j < 8 * length (Data f). bit_at out j \<longleftrightarrow>
        bit_at ?z j \<or> (j < ?n \<and> speech_bits codec f ! j)"
    using readBytesLoop_bits [OF at, of 0 ?z] n8 by (auto simp: sl)
  have "out = clearTail ?n (Data f)"
  proof (rule bytes_eqI)
    fix i
    assume "i < 8 * length out"
    then have i: "i < 8 * length (Data f)" using lo by simp
    then have "\<not> bit_at ?z i" by (auto simp: bit_at_def)
    with bo i show "bit_at out i = bit_at (clearTail ?n (Data f)) i"
      by (auto simp: bit_at_clearTail speech_bits_def)
  qed (simp add: lo)
  with rd at' len show ?thesis by (auto simp: readBytes_def clearFrame_def)
qed

lemma beReadData_bits:
  "\<forall>f\<in>set fs. be_frame_ok codec f \<Longrightarrow> reader_at r (concat (map (speech_bits codec) fs)) \<Longrightarrow>
   beReadData codec r (map blank fs) = Inr (map (clearFrame codec) fs)"
proof (induction fs arbitrary: r)
  case Nil
  then show ?case by simp
next
  case (Cons f fs)
  from readBytes_speech [of codec f r "concat (map (speech_bits codec) fs)"] Cons.prems
  obtain r' where rd: "readBytes r (amrFrameBitCount codec (FrameType f)) =
      Inr (Data (clearFrame codec f), r')" and at': "reader_at r' (concat (map (speech_bits codec) fs))"
    by auto
  have eq: "blank f\<lparr>Data := Data (clearFrame codec f)\<rparr> = clearFrame codec f"
    "length (Data (clearFrame codec f)) = length (Data (blank f))"
    "FrameType (blank f) = FrameType f"
    by (simp_all add: blank_def clearFrame_def)
  show ?case using Cons.IH [OF _ at'] Cons.prems rd eq by simp
qed

lemma be_unmarshal_marshal:
  assumes "beMarshalBinary codec fs = Inr bs"
  shows "beUnmarshalBinary codec bs = Inr (map (clearFrame codec) fs)"
proof -
  let ?w0 = "writeBits \<lparr>wdata = [], wposition = 0\<rparr> noModeRequest 4"
  from assms obtain w where ne: "fs \<noteq> []" and w: "beWriteTOCs codec ?w0 fs = Inr w"
    and bs: "bs = wdata (beWriteData codec w fs)"
    by (auto simp: beMarshalBinary_def rbind_Inr_iff split: if_splits)
  have "writer_holds ?w0 (int_bits noModeRequest 4)"
    using writer_holds_writeBits [OF writer_holds_empty] by simp
  from beWriteTOCs_holds [OF this w]
  have w': "writer_holds w (int_bits noModeRequest 4 @ tocs_bits fs)"
    and ok: "\<forall>f\<in>set fs. be_frame_ok codec f" by auto
  let ?speech = "concat (map (speech_bits codec) fs)"
  have "reader_at \<lparr>rdata = bs, rposition = 0\<rparr>
      (int_bits (noModeRequest AND 0x0f) 4 @ tocs_bits fs @ ?speech)"
    using writer_reader [OF beWriteData_holds [OF w', of codec fs]]
    by (simp add: bs noModeRequest_def)
  from readBits_frame_type [OF this] obtain r where
    hdr: "readBits \<lparr>rdata = bs, rposition = 0\<rparr> 4 = Inr (noModeRequest, r)"
    and at: "reader_at r (tocs_bits fs @ ?speech)" by (auto simp: noModeRequest_def)
  from beReadTOC_bits [OF ok ne at, of "[]"] obtain r' where
    toc: "beReadTOC codec r [] = Inr (map blank fs, r')" and at': "reader_at r' ?speech" by auto
  from hdr toc beReadData_bits [OF ok at'] show ?thesis
    by (simp add: beUnmarshalBinary_def)
qed

text \<open>Clearing the bits that are not sent changes nothing on the wire.\<close>

lemma clearFrame_fields [simp]:
  "FrameType (clearFrame codec f) = FrameType f" "Quality (clearFrame codec f) = Quality f"
  "length (Data (clearFrame codec f)) = length (Data f)"
  by (simp_all add: clearFrame_def)

lemma be_frame_ok_clearFrame [simp]: "be_frame_ok codec (clearFrame codec f) = be_frame_ok codec f"
  by (simp add: be_frame_ok_def)

lemma beWriteTOCs_clearFrame:
  "beWriteTOCs codec w (map (clearFrame codec) fs) = beWriteTOCs codec w fs"
  by (induction fs arbitrary: w) (simp_all add: Let_def)

lemma writeBytes_clearFrame:
  assumes "be_frame_ok codec f"
  shows "writeBytes w (Data (clearFrame codec f)) (amrFrameBitCount codec (FrameType f)) =
         writeBytes w (Data f) (amrFrameBitCount codec (FrameType f))"
  unfolding writeBytes_def
proof (rule fold_cong [OF refl refl])
  fix i
  assume "i \<in> set [0..<nat (amrFrameBitCount codec (FrameType f))]"
  then have i: "i < nat (amrFrameBitCount codec (FrameType f))" by simp
  with be_frame_ok_bits [OF assms] have "bit_at (Data (clearFrame codec f)) i = bit_at (Data f) i"
    by (simp add: clearFrame_def bit_at_clearTail)
  then show "(\<lambda>w. writeBit w (Data (clearFrame codec f) ! (i div 8) AND push_bit (7 - i mod 8) 1 \<noteq> 0)) =
      (\<lambda>w. writeBit w (Data f ! (i div 8) AND push_bit (7 - i mod 8) 1 \<noteq> 0))"
    by (simp only: bit_at_def bit_iff_and_push_bit_not_eq_0)
qed

lemma beWriteData_clearFrame:
  "\<forall>f\<in>set fs. be_frame_ok codec f \<Longrightarrow>
   beWriteData codec w (map (clearFrame codec) fs) = beWriteData codec w fs"
  by (induction fs arbitrary: w) (simp_all add: writeBytes_clearFrame)

lemma beWriteTOCs_ok: "beWriteTOCs codec w fs = Inr w' \<Longrightarrow> \<forall>f\<in>set fs. be_frame_ok codec f"
  by (induction fs arbitrary: w) (auto simp: be_frame_ok_def Let_def simp del: writeBits.simps split: if_splits)

lemma be_marshal_clearFrame:
  "beMarshalBinary codec fs = Inr bs \<Longrightarrow> beMarshalBinary codec (map (clearFrame codec) fs) = Inr bs"
  by (auto simp: beMarshalBinary_def rbind_Inr_iff beWriteTOCs_clearFrame
      intro!: arg_cong [where f = wdata] beWriteData_clearFrame dest: beWriteTOCs_ok split: if_splits)

interpretation be: payload_codec "beMarshalBinary codec" "beUnmarshalBinary codec"
    "map (clearFrame codec)"
  for codec
  by unfold_locales (auto simp: be_unmarshal_marshal be_marshal_clearFrame)

definition payloadCanon :: "AMRPayload \<Rightarrow> AMRFrame list" where
  "payloadCanon p =
     (if OctetAligned p then PayloadFrames p else map (clearFrame (PayloadCodec p)) (PayloadFrames p))"

text \<open>The size of a bandwidth-efficient payload in bits, rounded up to bytes.\<close>

lemma be_marshal_length:
  assumes "beMarshalBinary codec fs = Inr bs"
  shows "length bs = (4 + 6 * length fs +
      (\<Sum>f\<leftarrow>fs. nat (amrFrameBitCount codec (FrameType f))) + 7) div 8"
proof -
  let ?w0 = "writeBits \<lparr>wdata = [], wposition = 0\<rparr> noModeRequest 4"
  from assms obtain w where w: "beWriteTOCs codec ?w0 fs = Inr w"
    and bs: "bs = wdata (beWriteData codec w fs)"
    by (auto simp: beMarshalBinary_def rbind_Inr_iff split: if_splits)
  have "writer_holds ?w0 (int_bits noModeRequest 4)"
    using writer_holds_writeBits [OF writer_holds_empty] by simp
  from beWriteTOCs_holds [OF this w] have
    "writer_holds w (int_bits noModeRequest 4 @ tocs_bits fs)" by simp
  from beWriteData_holds [OF this, of codec fs] have
    "length bs = (length ((int_bits noModeRequest 4 @ tocs_bits fs) @
       concat (map (speech_bits codec) fs)) + 7) div 8"
    by (simp add: writer_holds_def bs)
  moreover have "length (tocs_bits fs) = 6 * length fs" for fs :: "AMRFrame list"
    by (induction fs) (auto simp: toc_bits_def int_bits_def)
  moreover have "length (concat (map (speech_bits codec) fs)) =
      (\<Sum>f\<leftarrow>fs. nat (amrFrameBitCount codec (FrameType f)))"
    by (simp add: length_concat speech_bits_def comp_def)
  ultimately show ?thesis by (simp add: int_bits_def)
qed

section \<open>Properties\<close>

lemma beWriteTOCs_total:
  "\<forall>f\<in>set fs. be_frame_ok codec f \<Longrightarrow> \<exists>w'. beWriteTOCs codec w fs = Inr w'"
  by (induction fs arbitrary: w) (simp_all add: be_frame_ok_def Let_def del: writeBits.simps)

lemma be_marshal_total:
  "fs \<noteq> [] \<Longrightarrow> \<forall>f\<in>set fs. be_frame_ok codec f \<Longrightarrow> \<exists>bs. beMarshalBinary codec fs = Inr bs"
  using beWriteTOCs_total [of fs codec "writeBits \<lparr>wdata = [], wposition = 0\<rparr> noModeRequest 4"]
  by (auto simp: beMarshalBinary_def simp del: writeBits.simps)

text \<open>
  C15: Frames whose data has the size of their frame type are encoded into a bandwidth-efficient
  payload of the four header bits, six bits per frame and the speech bits, rounded up to bytes; decoding
  it gives the frames back, with the padding bits after the speech bits of each frame cleared.
\<close>

theorem be_round_trip:
  assumes "fs \<noteq> []" and "\<forall>f\<in>set fs. be_frame_ok codec f"
  shows "\<exists>bs. beMarshalBinary codec fs = Inr bs \<and> beUnmarshalBinary codec bs = Inr (map (clearFrame codec) fs) \<and>
    length bs = (4 + 6 * length fs + (\<Sum>f\<leftarrow>fs. nat (amrFrameBitCount codec (FrameType f))) + 7) div 8"
  using be_marshal_total [OF assms] be.unmarshal_marshal be_marshal_length by blast

theorem be_round_trip_witness:
  "\<exists>bs. beMarshalBinary CodecAMR [\<lparr>FrameType = 8, Quality = True, Data = [1, 2, 3, 4, 0xFF]\<rparr>] = Inr bs \<and>
     beUnmarshalBinary CodecAMR bs = Inr [\<lparr>FrameType = 8, Quality = True, Data = [1, 2, 3, 4, 0xFE]\<rparr>] \<and>
     length bs = 7"
proof -
  have bits: "amrFrameBitCount CodecAMR 8 = 39" by code_simp
  have tail: "clearTail 39 [1, 2, 3, 4, 0xFF] = [1, 2, 3, 4, 0xFE :: byte]" by code_simp
  have "clearFrame CodecAMR \<lparr>FrameType = 8, Quality = True, Data = [1, 2, 3, 4, 0xFF]\<rparr> =
      \<lparr>FrameType = 8, Quality = True, Data = [1, 2, 3, 4, 0xFE]\<rparr>"
    using tail by (simp add: clearFrame_def bits)
  then show ?thesis
    using be_round_trip [of "[\<lparr>FrameType = 8, Quality = True, Data = [1, 2, 3, 4, 0xFF]\<rparr>]" CodecAMR]
    by (simp add: be_frame_ok_def bits bytesForBits_def)
qed

text \<open>
  A node that decodes an encoded payload of a session, in either format, and encodes the
  frames again sends exactly the bytes it received.
\<close>

theorem payload_relay_stable:
  assumes "payloadMarshalBinary p = Inr bs" and "PayloadCodec q = PayloadCodec p" and "OctetAligned q = OctetAligned p"
  shows "\<exists>q'. payloadUnmarshalBinary q bs = Inr q' \<and> payloadMarshalBinary q' = Inr bs"
proof (cases "OctetAligned p")
  case True
  with assms show ?thesis
    using octet.unmarshal_marshal [of "PayloadCodec p" "PayloadFrames p" bs]
      octet.marshal_canon [of "PayloadCodec p" "PayloadFrames p" bs]
    by (simp add: payloadMarshalBinary_def payloadUnmarshalBinary_def)
next
  case False
  with assms show ?thesis
    using be.unmarshal_marshal [of "PayloadCodec p" "PayloadFrames p" bs]
      be.marshal_canon [of "PayloadCodec p" "PayloadFrames p" bs]
    by (simp add: payloadMarshalBinary_def payloadUnmarshalBinary_def)
qed

theorem payload_relay_stable_witness:
  "\<exists>bs q'. beMarshalBinary CodecAMR [\<lparr>FrameType = 8, Quality = True, Data = [1, 2, 3, 4, 0xFF]\<rparr>] = Inr bs \<and>
    payloadUnmarshalBinary \<lparr>PayloadCodec = CodecAMR, OctetAligned = False, PayloadFrames = []\<rparr> bs = Inr q' \<and>
    payloadMarshalBinary q' = Inr bs"
proof -
  let ?fs = "[\<lparr>FrameType = 8, Quality = True, Data = [1, 2, 3, 4, 0xFF]\<rparr>]"
  let ?p = "\<lparr>PayloadCodec = CodecAMR, OctetAligned = False, PayloadFrames = ?fs\<rparr>"
  have "amrFrameBitCount CodecAMR 8 = 39" by code_simp
  then obtain bs where bs: "beMarshalBinary CodecAMR ?fs = Inr bs"
    using be_marshal_total [of ?fs CodecAMR] by (auto simp: be_frame_ok_def bytesForBits_def)
  then have "payloadMarshalBinary ?p = Inr bs" by (simp add: payloadMarshalBinary_def)
  from payload_relay_stable [OF this, of "?p\<lparr>PayloadFrames := []\<rparr>"] bs show ?thesis by auto
qed

end
