(* ===== verification/AmrStorage.thy ===== *)
theory AmrStorage
  imports AmrCodec
begin

text \<open>
  The AMR storage format (\<open>AMRStorageFrame\<close> and \<open>AMRStorage\<close> of
  \<open>pro/voicecodec/amr.go\<close>): single frames, whole files from a byte slice, and the
  streaming variants over an \<open>io.Reader\<close> and an \<open>io.Writer\<close>.
\<close>

section \<open>Single frames\<close>

definition storageHeaderByte :: "AMRFrame \<Rightarrow> byte" where
  "storageHeaderByte f =
     (let h = word_of_int (push_bit 3 (FrameType f) AND 0x78)
      in if Quality f then h OR 0x04 else h)"

definition storageFrameMarshal :: "AMRCodec \<Rightarrow> AMRFrame \<Rightarrow> amrError + byte list" where
  "storageFrameMarshal codec f =
     (let want = AMRFrameBytes codec (FrameType f) in
      if codec \<noteq> [] \<and> want < 0 then Inl ErrAMRFrameTypeUnsupported
      else if codec \<noteq> [] \<and> int (length (Data f)) \<noteq> want then Inl ErrAMRFrameSizeMismatch
      else Inr (storageHeaderByte f # Data f))"

definition storageFrameUnmarshal :: "AMRCodec \<Rightarrow> byte list \<Rightarrow> amrError + AMRFrame" where
  "storageFrameUnmarshal codec data =
     (case data of
        [] \<Rightarrow> Inl ErrAMRSpeechDataTruncated
      | header # body \<Rightarrow>
          let frameType = tocFrameType header;
              quality = (header AND 0x04 \<noteq> 0);
              size = AMRFrameBytes codec frameType
          in if size < 0 then Inl ErrAMRFrameTypeUnsupported
             else if int (length data) < 1 + size then Inl ErrAMRSpeechDataTruncated
             else if int (length data) \<noteq> 1 + size then Inl ErrAMRFrameSizeMismatch
             else Inr \<lparr>FrameType = frameType, Quality = quality, Data = body\<rparr>)"

section \<open>Files held in memory\<close>

record AMRStorage =
  Codec :: AMRCodec
  Frames :: "AMRFrame list"
  IncludeHeader :: bool

definition hasPrefix :: "byte list \<Rightarrow> byte list \<Rightarrow> bool" where
  "hasPrefix data prefix \<longleftrightarrow>
     \<not> length data < length prefix \<and> list_all (\<lambda>i. data ! i = prefix ! i) [0..<length prefix]"

definition storageCodec :: "AMRCodec \<Rightarrow> byte list \<Rightarrow> amrError + AMRCodec \<times> nat" where
  "storageCodec codec data =
     (if hasPrefix data amrStorageHeader then Inr (CodecAMR, length amrStorageHeader)
      else if hasPrefix data amrWBStorageHeader then Inr (CodecAMRWB, length amrWBStorageHeader)
      else if codec = CodecAMR \<or> codec = CodecAMRWB then Inr (codec, 0)
      else Inl ErrAMRStorageHeaderMissing)"

text \<open>A file of no known codec can only be empty and without a header.\<close>

definition storageCodecRefused :: "AMRStorage \<Rightarrow> bool" where
  "storageCodecRefused s \<longleftrightarrow>
     \<not> (Codec s = CodecAMR \<or> Codec s = CodecAMRWB) \<and> (Frames s \<noteq> [] \<or> IncludeHeader s)"

fun storageMarshalFrames :: "AMRCodec \<Rightarrow> AMRFrame list \<Rightarrow> amrError + byte list" where
  "storageMarshalFrames codec [] = Inr []"
| "storageMarshalFrames codec (f # fs) =
     rbind (storageFrameMarshal codec f) (\<lambda>data.
     rbind (storageMarshalFrames codec fs) (\<lambda>rest. Inr (data @ rest)))"

definition storageFileHeader :: "AMRStorage \<Rightarrow> byte list" where
  "storageFileHeader s =
     (if \<not> IncludeHeader s then []
      else if Codec s = CodecAMRWB then amrWBStorageHeader else amrStorageHeader)"

definition storageMarshalBinary :: "AMRStorage \<Rightarrow> amrError + byte list" where
  "storageMarshalBinary s =
     (if storageCodecRefused s then Inl ErrAMRStorageHeaderMissing
      else rbind (storageMarshalFrames (Codec s) (Frames s)) (\<lambda>body.
        Inr (storageFileHeader s @ body)))"

function storageReadFrames ::
  "AMRCodec \<Rightarrow> byte list \<Rightarrow> nat \<Rightarrow> AMRFrame list \<Rightarrow> amrError + AMRFrame list" where
  "storageReadFrames codec data offset frames =
     (if \<not> offset < length data then Inr frames
      else
        let header = data ! offset;
            offset = Suc offset;
            frameType = tocFrameType header;
            quality = (header AND 0x04 \<noteq> 0);
            size = AMRFrameBytes codec frameType
        in if size < 0 then Inl ErrAMRFrameTypeUnsupported
           else if offset + nat size > length data then Inl ErrAMRSpeechDataTruncated
           else storageReadFrames codec data (offset + nat size)
             (frames @ [\<lparr>FrameType = frameType, Quality = quality,
                          Data = take (nat size) (drop offset data)\<rparr>]))"
  by pat_completeness auto
termination
  by (relation "measure (\<lambda>(codec, data, offset, frames). length data - offset)") auto

declare storageReadFrames.simps [simp del]

definition storageUnmarshalBinary :: "AMRStorage \<Rightarrow> byte list \<Rightarrow> amrError + AMRStorage" where
  "storageUnmarshalBinary s data =
     rbind (storageCodec (Codec s) data) (\<lambda>(codec, offset).
     rbind (storageReadFrames codec data offset []) (\<lambda>frames.
       Inr \<lparr>Codec = codec, Frames = frames, IncludeHeader = (offset > 0)\<rparr>))"

section \<open>Reading from a stream\<close>

text \<open>
  An \<open>io.Reader\<close> delivers some bytes and then ends, with \<open>io.EOF\<close> or with an error it
  keeps returning. The number of bytes read, which \<open>ReadFrom\<close> also returns, depends on
  how the reader cuts the bytes and is not modelled.
\<close>

datatype 'e streamEnd = StreamEOF | StreamError 'e

datatype 'e readError = AMRFailure amrError | ReadFailure 'e

definition hasBufferedPrefix :: "byte list \<Rightarrow> 'e streamEnd \<Rightarrow> byte list \<Rightarrow> bool" where
  "hasBufferedPrefix bytes fin prefix \<longleftrightarrow>
     (length prefix \<le> length bytes \<or> (case fin of StreamEOF \<Rightarrow> True | StreamError _ \<Rightarrow> False)) \<and>
     hasPrefix (take (length prefix) bytes) prefix"

definition readAMRStorageHeader ::
  "byte list \<Rightarrow> 'e streamEnd \<Rightarrow> AMRCodec \<Rightarrow> amrError + AMRCodec \<times> bool \<times> byte list" where
  "readAMRStorageHeader bytes fin fallback =
     (if hasBufferedPrefix bytes fin amrWBStorageHeader
      then Inr (CodecAMRWB, True, drop (length amrWBStorageHeader) bytes)
      else if hasBufferedPrefix bytes fin amrStorageHeader
      then Inr (CodecAMR, True, drop (length amrStorageHeader) bytes)
      else if fallback = CodecAMR \<or> fallback = CodecAMRWB then Inr (fallback, False, bytes)
      else Inl ErrAMRStorageHeaderMissing)"

function storageStreamFrames ::
  "AMRCodec \<Rightarrow> byte list \<Rightarrow> 'e streamEnd \<Rightarrow> AMRFrame list \<Rightarrow> 'e readError + AMRFrame list" where
  "storageStreamFrames codec [] fin frames =
     (case fin of StreamEOF \<Rightarrow> Inr frames | StreamError e \<Rightarrow> Inl (ReadFailure e))"
| "storageStreamFrames codec (header # body) fin frames =
     (let frameType = tocFrameType header;
          quality = (header AND 0x04 \<noteq> 0);
          size = AMRFrameBytes codec frameType
      in if size < 0 then Inl (AMRFailure ErrAMRFrameTypeUnsupported)
         else if length body < nat size then
           (case fin of StreamEOF \<Rightarrow> Inl (AMRFailure ErrAMRSpeechDataTruncated)
                      | StreamError e \<Rightarrow> Inl (ReadFailure e))
         else storageStreamFrames codec (drop (nat size) body) fin
           (frames @ [\<lparr>FrameType = frameType, Quality = quality, Data = take (nat size) body\<rparr>]))"
  by pat_completeness auto
termination
  by (relation "measure (\<lambda>(codec, bytes, fin, frames). length bytes)") auto

definition storageReadFrom ::
  "AMRStorage \<Rightarrow> byte list \<Rightarrow> 'e streamEnd \<Rightarrow> 'e readError + AMRStorage" where
  "storageReadFrom s bytes fin =
     (case readAMRStorageHeader bytes fin (Codec s) of
        Inl e \<Rightarrow> Inl (AMRFailure e)
      | Inr (codec, includeHeader, body) \<Rightarrow>
          rbind (storageStreamFrames codec body fin []) (\<lambda>frames.
            Inr \<lparr>Codec = codec, Frames = frames, IncludeHeader = includeHeader\<rparr>))"

section \<open>Writing to a stream\<close>

text \<open>
  An \<open>io.Writer\<close> is a function of its own state: it takes \<open>n\<close> of the bytes and may
  return an error. A writer that claims more bytes than it was given makes the slice
  expression \<open>data[n:]\<close> panic.
\<close>

type_synonym ('w, 'e) ioWriter = "'w \<Rightarrow> byte list \<Rightarrow> nat \<times> 'e option \<times> 'w"

datatype 'e writeError = WriteFailure 'e | ErrShortWrite | SlicePanic | AMRWriteFailure amrError

function writeFull ::
  "('w, 'e) ioWriter \<Rightarrow> 'w \<Rightarrow> byte list \<Rightarrow> nat \<times> 'e writeError option \<times> 'w" where
  "writeFull wr st data =
     (if data = [] then (0, None, st)
      else
        let (n, err, st') = wr st data
        in if n > length data then (n, Some SlicePanic, st')
           else case err of
             Some e \<Rightarrow> (n, Some (WriteFailure e), st')
           | None \<Rightarrow>
               if n = 0 then (0, Some ErrShortWrite, st')
               else let (k, res, st'') = writeFull wr st' (drop n data)
                    in (n + k, res, st''))"
  by pat_completeness auto
termination
  by (relation "measure (\<lambda>(wr, st, data). length data)") auto

declare writeFull.simps [simp del]

fun storageWriteFrames ::
  "('w, 'e) ioWriter \<Rightarrow> AMRCodec \<Rightarrow> 'w \<Rightarrow> AMRFrame list \<Rightarrow> nat \<times> 'e writeError option \<times> 'w" where
  "storageWriteFrames wr codec st [] = (0, None, st)"
| "storageWriteFrames wr codec st (f # fs) =
     (case storageFrameMarshal codec f of
        Inl e \<Rightarrow> (0, Some (AMRWriteFailure e), st)
      | Inr data \<Rightarrow>
          (case writeFull wr st data of
             (n, Some e, st') \<Rightarrow> (n, Some e, st')
           | (n, None, st') \<Rightarrow>
               (case storageWriteFrames wr codec st' fs of
                  (k, res, st'') \<Rightarrow> (n + k, res, st''))))"

definition storageWriteTo ::
  "('w, 'e) ioWriter \<Rightarrow> 'w \<Rightarrow> AMRStorage \<Rightarrow> nat \<times> 'e writeError option \<times> 'w" where
  "storageWriteTo wr st s =
     (if storageCodecRefused s then (0, Some (AMRWriteFailure ErrAMRStorageHeaderMissing), st)
      else
        case (if IncludeHeader s then writeFull wr st (storageFileHeader s) else (0, None, st)) of
          (n, Some e, st') \<Rightarrow> (n, Some e, st')
        | (n, None, st') \<Rightarrow>
            (case storageWriteFrames wr (Codec s) st' (Frames s) of
               (k, res, st'') \<Rightarrow> (n + k, res, st'')))"

section \<open>Round trips and the equivalence of the streaming variants\<close>

lemma storageHeader_fields:
  assumes "0 \<le> FrameType f" and "FrameType f \<le> 15"
  shows "tocFrameType (storageHeaderByte f) = FrameType f"
    and "storageHeaderByte f AND 0x04 \<noteq> 0 \<longleftrightarrow> Quality f"
    and "storageHeaderByte f \<noteq> 0x23"
proof -
  have "FrameType f \<in> set [0..15]" using assms by simp
  then have ft: "FrameType f = 0 \<or> FrameType f = 1 \<or> FrameType f = 2 \<or> FrameType f = 3 \<or>
    FrameType f = 4 \<or> FrameType f = 5 \<or> FrameType f = 6 \<or> FrameType f = 7 \<or>
    FrameType f = 8 \<or> FrameType f = 9 \<or> FrameType f = 10 \<or> FrameType f = 11 \<or>
    FrameType f = 12 \<or> FrameType f = 13 \<or> FrameType f = 14 \<or> FrameType f = 15"
    by (simp add: upto.simps)
  show "tocFrameType (storageHeaderByte f) = FrameType f"
    using ft by (elim disjE) (simp_all add: tocFrameType_def storageHeaderByte_def)
  show "storageHeaderByte f AND 0x04 \<noteq> 0 \<longleftrightarrow> Quality f"
    using ft by (elim disjE) (simp_all add: storageHeaderByte_def)
  show "storageHeaderByte f \<noteq> 0x23"
    using ft by (elim disjE) (simp_all add: storageHeaderByte_def)
qed

lemma storageFrameMarshal_Inr:
  "codec \<noteq> [] \<Longrightarrow>
   storageFrameMarshal codec f = Inr bs \<longleftrightarrow> frame_ok codec f \<and> bs = storageHeaderByte f # Data f"
  by (auto simp: storageFrameMarshal_def frame_ok_def Let_def)

lemma storageFrame_round_trip:
  assumes "codec \<noteq> []" and "storageFrameMarshal codec f = Inr bs"
  shows "storageFrameUnmarshal codec bs = Inr f"
proof -
  have ok: "frame_ok codec f" and bs: "bs = storageHeaderByte f # Data f"
    using assms by (simp_all add: storageFrameMarshal_Inr)
  note r = frame_ok_range [OF ok]
  show ?thesis
    using ok storageHeader_fields [of f] r
    by (simp add: bs storageFrameUnmarshal_def frame_ok_def Let_def)
qed

lemma hasPrefix_starts_with: "hasPrefix data p \<longleftrightarrow> starts_with data p"
proof
  assume h: "hasPrefix data p"
  then have len: "length p \<le> length data"
    and eq: "\<And>i. i < length p \<Longrightarrow> data ! i = p ! i"
    by (auto simp: hasPrefix_def list_all_iff)
  have "take (length p) data = p"
    using len eq by (intro nth_equalityI) auto
  then show "starts_with data p" by (simp add: starts_with_def)
next
  assume "starts_with data p"
  then obtain t where "data = p @ t" by (auto simp: starts_with_iff)
  then show "hasPrefix data p" by (simp add: hasPrefix_def list_all_iff nth_append)
qed

lemma hasBufferedPrefix_starts_with: "hasBufferedPrefix bytes fin p \<longleftrightarrow> starts_with bytes p"
  unfolding hasBufferedPrefix_def hasPrefix_starts_with
  using starts_with_length [of bytes p] starts_with_length [of "take (length p) bytes" p]
  by (auto simp: starts_with_def)

lemma headers_differ:
  "starts_with data amrStorageHeader \<Longrightarrow> \<not> starts_with data amrWBStorageHeader"
  by (auto simp: starts_with_iff amrStorageHeader_def amrWBStorageHeader_def)

lemma storageReadFrames_marshal:
  assumes "codec \<noteq> []" and "storageMarshalFrames codec fs = Inr body"
  shows "storageReadFrames codec (pre @ body) (length pre) acc = Inr (acc @ fs)"
  using assms
proof (induction fs arbitrary: pre body acc)
  case Nil
  then show ?case by (subst storageReadFrames.simps) simp
next
  case (Cons f fs)
  then obtain rest where ok: "frame_ok codec f"
    and body: "body = storageHeaderByte f # Data f @ rest"
    and rest: "storageMarshalFrames codec fs = Inr rest"
    by (auto simp: rbind_Inr_iff storageFrameMarshal_Inr)
  note r = frame_ok_range [OF ok]
  have IH: "storageReadFrames codec ((pre @ storageHeaderByte f # Data f) @ rest)
      (length (pre @ storageHeaderByte f # Data f)) (acc @ [f]) = Inr ((acc @ [f]) @ fs)"
    by (rule Cons.IH [OF Cons.prems(1) rest])
  have size: "AMRFrameBytes codec (FrameType f) = int (length (Data f))"
    using ok by (simp add: frame_ok_def)
  show ?case
    using IH size storageHeader_fields [of f] r
    by (subst storageReadFrames.simps) (simp add: body nth_append Let_def)
qed

lemma storageMarshalFrames_head:
  assumes "codec \<noteq> []" and "storageMarshalFrames codec fs = Inr (b # body)"
  shows "b \<noteq> 0x23"
proof (cases fs)
  case (Cons f gs)
  with assms have "frame_ok codec f" and "b = storageHeaderByte f"
    by (auto simp: rbind_Inr_iff storageFrameMarshal_Inr)
  then show ?thesis using storageHeader_fields(3) [of f] frame_ok_range [of codec f] by simp
qed (use assms in simp)

lemma storageMarshalFrames_no_header:
  assumes "codec \<noteq> []" and "storageMarshalFrames codec fs = Inr body"
  shows "\<not> starts_with body amrStorageHeader" and "\<not> starts_with body amrWBStorageHeader"
  using storageMarshalFrames_head [OF assms(1)] assms(2)
  by (cases body; auto simp: amrStorageHeader_def amrWBStorageHeader_def)+

lemma storage_round_trip:
  assumes "storageMarshalBinary s = Inr bs"
    and "Codec s = CodecAMR \<or> Codec s = CodecAMRWB"
    and "IncludeHeader s \<or> Codec r = Codec s"
  shows "storageUnmarshalBinary r bs = Inr s"
proof -
  from assms(1) obtain body where body: "storageMarshalFrames (Codec s) (Frames s) = Inr body"
    and bs: "bs = storageFileHeader s @ body"
    by (auto simp: storageMarshalBinary_def rbind_Inr_iff split: if_splits)
  have ne: "Codec s \<noteq> []" using assms(2) by auto
  have frames: "storageReadFrames (Codec s) bs (length (storageFileHeader s)) [] = Inr (Frames s)"
    using storageReadFrames_marshal [OF ne body, of "storageFileHeader s" "[]"] bs by simp
  have codec: "storageCodec (Codec r) bs = Inr (Codec s, length (storageFileHeader s))"
  proof (cases "IncludeHeader s")
    case True
    then show ?thesis
      using assms(2) headers_differ [of bs]
      by (auto simp: storageCodec_def hasPrefix_starts_with storageFileHeader_def bs)
  next
    case False
    then show ?thesis
      using assms(2,3) storageMarshalFrames_no_header [OF ne body]
      by (auto simp: storageCodec_def hasPrefix_starts_with storageFileHeader_def bs)
  qed
  have "length (storageFileHeader s) > 0 \<longleftrightarrow> IncludeHeader s"
    by (simp add: storageFileHeader_def amrStorageHeader_def amrWBStorageHeader_def)
  with codec frames show ?thesis
    by (simp add: storageUnmarshalBinary_def)
qed

lemma storageStreamFrames_eq:
  "storageStreamFrames codec (drop offset data) (StreamEOF :: 'e streamEnd) acc =
     map_sum AMRFailure id (storageReadFrames codec data offset acc)"
proof (induction codec data offset acc rule: storageReadFrames.induct)
  case (1 codec data offset acc)
  show ?case
  proof (cases "offset < length data")
    case True
    let ?size = "AMRFrameBytes codec (tocFrameType (data ! offset))"
    have d: "drop offset data = data ! offset # drop (Suc offset) data"
      using True by (simp add: Cons_nth_drop_Suc)
    have short: "length (drop (Suc offset) data) < nat ?size \<longleftrightarrow>
        Suc offset + nat ?size > length data"
      using True by auto
    show ?thesis
    proof (cases "?size < 0 \<or> Suc offset + nat ?size > length data")
      case True
      then show ?thesis
        using \<open>offset < length data\<close> short
        by (subst storageReadFrames.simps) (auto simp: d Let_def)
    next
      case False
      then have IH: "storageStreamFrames codec (drop (Suc offset + nat ?size) data) (StreamEOF :: 'e streamEnd)
          (acc @ [\<lparr>FrameType = tocFrameType (data ! offset), Quality = (data ! offset AND 0x04 \<noteq> 0),
             Data = take (nat ?size) (drop (Suc offset) data)\<rparr>]) =
          map_sum AMRFailure id (storageReadFrames codec data (Suc offset + nat ?size)
          (acc @ [\<lparr>FrameType = tocFrameType (data ! offset), Quality = (data ! offset AND 0x04 \<noteq> 0),
             Data = take (nat ?size) (drop (Suc offset) data)\<rparr>]))"
        using \<open>offset < length data\<close> by - (rule "1.IH" [OF _ refl refl refl refl refl], auto)
      with False show ?thesis
        using \<open>offset < length data\<close> short
        by (subst storageReadFrames.simps) (auto simp: d Let_def add.commute)
    qed
  next
    case False
    then show ?thesis by (subst storageReadFrames.simps) simp
  qed
qed

lemma storage_stream_eq:
  "storageReadFrom s bytes StreamEOF = map_sum AMRFailure id (storageUnmarshalBinary s bytes)"
proof -
  have frames: "storageStreamFrames c (drop k bytes) StreamEOF [] =
      map_sum AMRFailure id (storageReadFrames c bytes k [])" for c k
    by (rule storageStreamFrames_eq)
  have eq: "rbind (storageStreamFrames c (drop k bytes) StreamEOF []) (\<lambda>frames. Inr (h frames)) =
      map_sum AMRFailure id (rbind (storageReadFrames c bytes k []) (\<lambda>frames. Inr (h frames)))"
    for c k and h :: "AMRFrame list \<Rightarrow> AMRStorage"
    by (simp only: frames rbind_map_sum)
  have len: "0 < length amrStorageHeader" "0 < length amrWBStorageHeader"
    by (simp_all add: amrStorageHeader_def amrWBStorageHeader_def)
  note defs = storageReadFrom_def storageUnmarshalBinary_def readAMRStorageHeader_def
    storageCodec_def hasPrefix_starts_with hasBufferedPrefix_starts_with
  show ?thesis
  proof (cases "starts_with bytes amrStorageHeader")
    case True
    then show ?thesis using headers_differ [OF True] len by (simp add: defs eq)
  next
    case no_amr: False
    show ?thesis
    proof (cases "starts_with bytes amrWBStorageHeader")
      case True
      then show ?thesis using no_amr len by (simp add: defs eq)
    next
      case False
      then show ?thesis using no_amr by (simp add: defs eq [of _ 0, simplified])
    qed
  qed
qed

text \<open>
  The documented contract of \<open>io.Writer\<close>: it takes at most what it is given. \<open>out\<close> is
  what the writer has received so far.
\<close>

definition appending_writer :: "('w, 'e) ioWriter \<Rightarrow> ('w \<Rightarrow> byte list) \<Rightarrow> bool" where
  "appending_writer wr out \<longleftrightarrow>
     (\<forall>st data. case wr st data of (n, err, st') \<Rightarrow>
        n \<le> length data \<and> out st' = out st @ take n data)"


lemma appending_writerD:
  "appending_writer wr out \<Longrightarrow> wr st data = (n, err, st') \<Longrightarrow>
   n \<le> length data \<and> out st' = out st @ take n data"
  unfolding appending_writer_def by (drule spec [of _ st], drule spec [of _ data]) simp

lemma writeFull_out:
  assumes "appending_writer wr out" and "writeFull wr st data = (n, res, st')"
  shows "n \<le> length data \<and> out st' = out st @ take n data \<and>
     (res = None \<longrightarrow> n = length data) \<and> res \<noteq> Some SlicePanic"
  using assms
proof (induction wr st data arbitrary: n res st' rule: writeFull.induct)
  case (1 wr st data)
  show ?case
  proof (cases "data = []")
    case True
    with "1.prems" show ?thesis by (simp add: writeFull.simps [of wr st "[]"])
  next
    case False
    obtain m err st1 where w: "wr st data = (m, err, st1)" by (cases "wr st data")
    from "1.prems"(1) w have m: "m \<le> length data" "out st1 = out st @ take m data"
      by (auto dest: appending_writerD)
    show ?thesis
    proof (cases "err = None \<and> m \<noteq> 0")
      case True
      obtain k r st2 where rec: "writeFull wr st1 (drop m data) = (k, r, st2)"
        by (cases "writeFull wr st1 (drop m data)")
      have IH: "k \<le> length (drop m data) \<and> out st2 = out st1 @ take k (drop m data) \<and>
          (r = None \<longrightarrow> k = length (drop m data)) \<and> r \<noteq> Some SlicePanic"
        using "1.IH" [OF False w [symmetric] refl refl _ _ _ "1.prems"(1) rec] True m by simp
      have eqs: "n = m + k" "res = r" "st' = st2"
        using "1.prems"(2) False w True m rec
        by (simp_all add: writeFull.simps [of wr st data] Let_def)
      show ?thesis using IH m by (auto simp: eqs take_add)
    next
      case no: False
      show ?thesis
        using "1.prems"(2) False w no m
        by (cases err) (auto simp: writeFull.simps [of wr st data] Let_def)
    qed
  qed
qed

lemma storageWriteFrames_out:
  assumes w: "appending_writer wr out"
    and "storageWriteFrames wr codec st fs = (n, None, st')"
  shows "\<exists>body. storageMarshalFrames codec fs = Inr body \<and> out st' = out st @ body \<and> n = length body"
  using assms(2)
proof (induction fs arbitrary: st n st')
  case Nil
  then show ?case by simp
next
  case (Cons f fs)
  from Cons.prems obtain data where data: "storageFrameMarshal codec f = Inr data"
    by (auto split: sum.splits)
  obtain m r st1 where f: "writeFull wr st data = (m, r, st1)" by (cases "writeFull wr st data")
  obtain k r2 st2 where rest: "storageWriteFrames wr codec st1 fs = (k, r2, st2)"
    by (cases "storageWriteFrames wr codec st1 fs")
  from Cons.prems data f rest have r: "r = None" and eqs: "n = m + k" "r2 = None" "st' = st2"
    by (auto split: option.splits)
  from writeFull_out [OF w f] r have m: "m = length data" "out st1 = out st @ data" by auto
  from Cons.IH rest eqs obtain body where
    "storageMarshalFrames codec fs = Inr body" "out st2 = out st1 @ body" "k = length body" by blast
  with data m eqs show ?case by simp
qed

lemma storageWriteTo_out:
  assumes w: "appending_writer wr out" and ok: "storageWriteTo wr st s = (n, None, st')"
  shows "\<exists>bs. storageMarshalBinary s = Inr bs \<and> out st' = out st @ bs \<and> n = length bs"
proof -
  have nr: "\<not> storageCodecRefused s" using ok by (auto simp: storageWriteTo_def)
  obtain m r st1 where h: "(if IncludeHeader s then writeFull wr st (storageFileHeader s)
      else (0, None, st)) = (m, r, st1)"
    by (metis prod_cases3)
  obtain k r2 st2 where fr: "storageWriteFrames wr (Codec s) st1 (Frames s) = (k, r2, st2)"
    by (cases "storageWriteFrames wr (Codec s) st1 (Frames s)")
  from ok nr h fr have r: "r = None" and eqs: "n = m + k" "r2 = None" "st' = st2"
    by (auto simp: storageWriteTo_def split: option.splits)
  have "out st1 = out st @ storageFileHeader s \<and> m = length (storageFileHeader s)"
  proof (cases "IncludeHeader s")
    case True
    with h r show ?thesis using writeFull_out [OF w, of st "storageFileHeader s" m r st1] by simp
  next
    case False
    with h show ?thesis by (simp add: storageFileHeader_def)
  qed
  moreover obtain body where "storageMarshalFrames (Codec s) (Frames s) = Inr body"
      "out st2 = out st1 @ body" "k = length body"
    using storageWriteFrames_out [OF w] fr eqs by blast
  ultimately show ?thesis using nr eqs by (simp add: storageMarshalBinary_def)
qed

section \<open>Properties\<close>

text \<open>
  C16: A storage file that was written is read back as it was, with a header whatever codec the
  reader expects, without one when it expects the right codec; and reading the bytes from a stream gives the
  same as reading them from memory.
\<close>

theorem storage_file_round_trip:
  assumes "storageMarshalBinary s = Inr bs" and "Codec s = CodecAMR \<or> Codec s = CodecAMRWB"
    and "IncludeHeader s \<or> Codec r = Codec s"
  shows "storageUnmarshalBinary r bs = Inr s \<and> storageReadFrom r bs StreamEOF = Inr s"
  using storage_round_trip [OF assms] by (simp add: storage_stream_eq)

theorem storage_file_round_trip_witness:
  "\<exists>bs. storageMarshalBinary \<lparr>Codec = CodecAMRWB, Frames = [\<lparr>FrameType = 9, Quality = False, Data = [1, 2, 3, 4, 5]\<rparr>], IncludeHeader = True\<rparr> = Inr bs \<and>
     storageReadFrom \<lparr>Codec = [], Frames = [], IncludeHeader = False\<rparr> bs (StreamEOF :: string streamEnd) =
       Inr \<lparr>Codec = CodecAMRWB, Frames = [\<lparr>FrameType = 9, Quality = False, Data = [1, 2, 3, 4, 5]\<rparr>], IncludeHeader = True\<rparr>"
proof -
  let ?s = "\<lparr>Codec = CodecAMRWB,
      Frames = [\<lparr>FrameType = 9, Quality = False, Data = [1, 2, 3, 4, 5]\<rparr>], IncludeHeader = True\<rparr>"
  let ?bs = "[0x23, 0x21, 0x41, 0x4D, 0x52, 0x2D, 0x57, 0x42, 0x0A, 0x48, 1, 2, 3, 4, 5]"
  have m: "storageMarshalBinary ?s = Inr ?bs" by code_simp
  have "storageUnmarshalBinary \<lparr>Codec = [], Frames = [], IncludeHeader = False\<rparr> ?bs = Inr ?s \<and>
      storageReadFrom \<lparr>Codec = [], Frames = [], IncludeHeader = False\<rparr> ?bs (StreamEOF :: string streamEnd) = Inr ?s"
    by (rule storage_file_round_trip [OF m]) simp_all
  with m show ?thesis by simp
qed

text \<open>
  Streaming a storage file to a writer that appends what it is given, in whatever pieces, writes
  the bytes of \<open>MarshalBinary\<close> and counts them, when it reports no error.
\<close>

theorem storage_streamed_out:
  assumes "appending_writer wr out" and "storageWriteTo wr st s = (n, None, st')"
  shows "\<exists>bs. storageMarshalBinary s = Inr bs \<and> out st' = out st @ bs \<and> n = length bs"
  by (rule storageWriteTo_out [OF assms])

theorem storage_streamed_out_witness:
  "\<exists>bs. storageMarshalBinary \<lparr>Codec = CodecAMR, Frames = [], IncludeHeader = True\<rparr> = Inr bs \<and>
     [0x23, 0x21, 0x41, 0x4D, 0x52, 0x0A] = [] @ bs \<and> 6 = length bs"
proof -
  have "appending_writer (\<lambda>st data. (min (length data) 2, None :: string option, st @ take 2 data)) (\<lambda>st. st)"
    by (auto simp: appending_writer_def min_def)
  moreover have "storageWriteTo (\<lambda>st data. (min (length data) 2, None :: string option, st @ take 2 data)) []
      \<lparr>Codec = CodecAMR, Frames = [], IncludeHeader = True\<rparr> = (6, None, [0x23, 0x21, 0x41, 0x4D, 0x52, 0x0A])"
    by code_simp
  ultimately show ?thesis by (rule storage_streamed_out)
qed

end
