(* ===== verification/Pcm.thy ===== *)
theory Pcm
  imports GoPrelude
begin

text \<open>
  PCM audio of the voice codec: G.711 u-law (\<open>pro/voicecodec/pcmu.go\<close>) and linear
  resampling (\<open>pro/voicecodec/resample.go\<close>).
\<close>

section \<open>G.711 u-law\<close>

definition pcmuBias :: int where "pcmuBias = 0x84"

definition decodePCMSample :: "byte \<Rightarrow> int16" where
  "decodePCMSample encoded =
     (let v = NOT encoded;
          sign = v AND 0x80;
          exponent = drop_bit 4 v AND 0x07;
          mantissa = v AND 0x0f;
          sample = word_of_int (push_bit (unat exponent) (push_bit 3 (uint mantissa) + pcmuBias) - pcmuBias)
      in if sign \<noteq> 0 then - sample else sample)"

definition DecodePCMU :: "byte list \<Rightarrow> int16 list" where
  "DecodePCMU payload = map decodePCMSample payload"

fun encodeExponent :: "int \<Rightarrow> nat \<Rightarrow> int \<Rightarrow> nat" where
  "encodeExponent v 0 m = 0"
| "encodeExponent v (Suc e) m =
     (if v AND m = 0 then encodeExponent v e (drop_bit 1 m) else Suc e)"

definition encodePCMSample :: "int16 \<Rightarrow> byte" where
  "encodePCMSample sample =
     (let v = sint sample;
          sign = (if v < 0 then 0x80 else 0 :: int);
          v = (if v < 0 then - v else v);
          v = (if v > 32635 then 32635 else v);
          v = v + pcmuBias;
          exponent = encodeExponent v 7 0x4000;
          mantissa = drop_bit (exponent + 3) v AND 0x0f
      in word_of_int (NOT (sign OR push_bit 4 (int exponent) OR mantissa)))"

definition EncodePCMU :: "int16 list \<Rightarrow> byte list" where
  "EncodePCMU samples = map encodePCMSample samples"

text \<open>
  A code byte is the complement of a sign, three exponent bits \<open>e\<close> and four mantissa bits
  \<open>m\<close>; it stands for the magnitude \<open>(8 m + 132) 2\<^sup>e - 132\<close>.
\<close>

definition codeByte :: "bool \<Rightarrow> nat \<Rightarrow> int \<Rightarrow> byte" where
  "codeByte neg e m = word_of_int (NOT ((if neg then 0x80 else 0) OR push_bit 4 (int e) OR m))"

definition magnitude :: "nat \<Rightarrow> int \<Rightarrow> int" where
  "magnitude e m = (8 * m + 132) * 2 ^ e - 132"

lemma nat_le_7: "e \<le> 7 \<Longrightarrow> e = 0 \<or> e = 1 \<or> e = 2 \<or> e = 3 \<or> e = 4 \<or> e = 5 \<or> e = 6 \<or> e = (7::nat)"
  by arith

lemma int_0_15:
  "0 \<le> m \<Longrightarrow> m \<le> 15 \<Longrightarrow> m = 0 \<or> m = 1 \<or> m = 2 \<or> m = 3 \<or> m = 4 \<or> m = 5 \<or> m = 6 \<or> m = 7 \<or>
   m = 8 \<or> m = 9 \<or> m = 10 \<or> m = 11 \<or> m = 12 \<or> m = 13 \<or> m = 14 \<or> m = (15::int)"
  by arith

lemma exponent_bits:
  assumes "e \<le> 7"
  shows "push_bit 4 (word_of_nat e) AND 0x80 = (0 :: byte)"
    and "drop_bit 4 (push_bit 4 (word_of_nat e)) AND 0x07 = (word_of_nat e :: byte)"
    and "push_bit 4 (word_of_nat e) AND 0x0f = (0 :: byte)"
    and "unat (word_of_nat e :: byte) = e"
  using nat_le_7 [OF assms] by (elim disjE; simp)+

lemma mantissa_bits:
  assumes "0 \<le> m" and "m \<le> 15"
  shows "word_of_int m AND 0x80 = (0 :: byte)" and "drop_bit 4 (word_of_int m) = (0 :: byte)"
    and "word_of_int m AND 0x0f = (word_of_int m :: byte)" and "uint (word_of_int m :: byte) = m"
  using int_0_15 [OF assms] by (elim disjE; simp)+

lemma codeByte_word:
  "NOT (codeByte neg e m) =
     (if neg then 0x80 else 0) OR (push_bit 4 (word_of_nat e) OR word_of_int m)"
proof -
  have "NOT (codeByte neg e m) =
      word_of_int ((if neg then 0x80 else 0) OR push_bit 4 (int e) OR m)"
    unfolding codeByte_def by (metis bit.double_compl of_int_not_eq)
  also have "\<dots> = word_of_int (if neg then 0x80 else 0) OR
      (push_bit 4 (word_of_int (int e)) OR word_of_int m)"
    by (simp only: of_int_or_eq of_int_push_bit)
  finally show ?thesis by simp
qed

lemma codeByte_fields:
  assumes "e \<le> 7" and "0 \<le> m" and "m \<le> 15"
  shows "NOT (codeByte neg e m) AND 0x80 \<noteq> 0 \<longleftrightarrow> neg"
    and "unat (drop_bit 4 (NOT (codeByte neg e m)) AND 0x07) = e"
    and "uint (NOT (codeByte neg e m) AND 0x0f) = m"
proof -
  note e = exponent_bits [OF assms(1)] and m = mantissa_bits [OF assms(2,3)]
  show "NOT (codeByte neg e m) AND 0x80 \<noteq> 0 \<longleftrightarrow> neg"
    unfolding codeByte_word bit.conj_disj_distrib2 e(1) m(1) by simp
  show "unat (drop_bit 4 (NOT (codeByte neg e m)) AND 0x07) = e"
    unfolding codeByte_word drop_bit_or bit.conj_disj_distrib2 e(2) m(2) by (simp add: e(4))
  show "uint (NOT (codeByte neg e m) AND 0x0f) = m"
    unfolding codeByte_word bit.conj_disj_distrib2 e(3) m(3) by (simp add: m(4))
qed

lemma magnitude_bounds:
  assumes "e \<le> 7" and "0 \<le> m" and "m \<le> 15"
  shows "0 \<le> magnitude e m \<and> magnitude e m \<le> 32124"
proof -
  have "(1::int) \<le> 2 ^ e" and "(2::int) ^ e \<le> 2 ^ 7"
    using assms(1) power_increasing [of e 7 "2::int"] by simp_all
  moreover from this(1) have "132 * 1 \<le> (8 * m + 132) * 2 ^ e"
    by (rule mult_mono [rotated]) (use assms(2) in simp_all)
  moreover from calculation(2) have "(8 * m + 132) * 2 ^ e \<le> 252 * 2 ^ 7"
    by (rule mult_mono [rotated]) (use assms(3) in simp_all)
  ultimately show ?thesis by (simp add: magnitude_def)
qed

lemma sint_small16: "- 32768 \<le> x \<Longrightarrow> x < 32768 \<Longrightarrow> sint (word_of_int x :: int16) = x"
  by (simp add: sint_sbintrunc' signed_take_bit_int_eq_self)

lemma decode_codeByte:
  assumes "e \<le> 7" and "0 \<le> m" and "m \<le> 15"
  shows "sint (decodePCMSample (codeByte neg e m)) = (if neg then - magnitude e m else magnitude e m)"
proof -
  have "decodePCMSample (codeByte neg e m) =
      (if neg then - word_of_int (magnitude e m) else word_of_int (magnitude e m))"
    unfolding decodePCMSample_def Let_def codeByte_fields [OF assms]
    by (simp add: magnitude_def pcmuBias_def push_bit_eq_mult mult.commute)
  also have "\<dots> = word_of_int (if neg then - magnitude e m else magnitude e m)"
    by simp
  finally show ?thesis
    using magnitude_bounds [OF assms] by (auto intro!: sint_small16 simp del: of_int_minus)
qed

lemma bit_bracket: "(2::int) ^ k \<le> v \<Longrightarrow> v < 2 ^ Suc k \<Longrightarrow> bit v k"
proof -
  assume a: "(2::int) ^ k \<le> v" "v < 2 ^ Suc k"
  have "v div 2 ^ k = 1" by (rule div_pos_geq [THEN trans]) (use a in \<open>auto simp: div_pos_pos_trivial\<close>)
  then show ?thesis by (simp add: bit_iff_odd)
qed

lemma bit_above: "0 \<le> v \<Longrightarrow> v < (2::int) ^ k \<Longrightarrow> \<not> bit v k"
  by (simp add: bit_iff_odd div_pos_pos_trivial)

lemma encodeExponent_bracket:
  "e \<le> k \<Longrightarrow> 2 ^ (e + 7) \<le> v \<Longrightarrow> v < 2 ^ (e + 8) \<Longrightarrow> encodeExponent v k (2 ^ (k + 7)) = e"
proof (induction k)
  case 0
  then show ?case by simp
next
  case (Suc k)
  have test: "v AND 2 ^ (Suc k + 7) = 0 \<longleftrightarrow> \<not> bit v (Suc k + 7)"
    using bit_iff_and_push_bit_not_eq_0 [of v "Suc k + 7"] by (simp add: push_bit_eq_mult)
  have shift: "drop_bit 1 ((2::int) ^ (Suc k + 7)) = 2 ^ (k + 7)"
    by (simp add: drop_bit_eq_div power_add)
  show ?case
  proof (cases "e = Suc k")
    case True
    with Suc.prems bit_bracket [of "Suc k + 7" v] test show ?thesis by simp
  next
    case False
    have "(2::int) ^ (e + 8) \<le> 2 ^ (Suc k + 7)"
      using False Suc.prems by (intro power_increasing) auto
    moreover have "0 \<le> v" using Suc.prems(2) by (meson order_trans zero_le_numeral zero_le_power)
    ultimately have "\<not> bit v (Suc k + 7)"
      using order.strict_trans2 [OF Suc.prems(3)] by (intro bit_above)
    with Suc.IH False Suc.prems test shift show ?thesis by simp
  qed
qed

lemma exponent_exists:
  assumes "132 \<le> v" and "v < 32768"
  shows "\<exists>e\<le>7. 2 ^ (e + 7) \<le> v \<and> v < (2::int) ^ (e + 8)"
proof -
  consider "v < 256" | "256 \<le> v" "v < 512" | "512 \<le> v" "v < 1024" | "1024 \<le> v" "v < 2048" |
    "2048 \<le> v" "v < 4096" | "4096 \<le> v" "v < 8192" | "8192 \<le> v" "v < 16384" | "16384 \<le> v"
    by linarith
  then show ?thesis
  proof cases
    case 1 then show ?thesis using assms by (intro exI [of _ 0]) simp
  next
    case 2 then show ?thesis by (intro exI [of _ 1]) simp
  next
    case 3 then show ?thesis by (intro exI [of _ 2]) simp
  next
    case 4 then show ?thesis by (intro exI [of _ 3]) simp
  next
    case 5 then show ?thesis by (intro exI [of _ 4]) simp
  next
    case 6 then show ?thesis by (intro exI [of _ 5]) simp
  next
    case 7 then show ?thesis by (intro exI [of _ 6]) simp
  next
    case 8 then show ?thesis using assms by (intro exI [of _ 7]) simp
  qed
qed

lemma div_bracket:
  assumes "0 < d" and "a * d \<le> v" and "v < b * (d::int)"
  shows "a \<le> v div d" and "v div d < b"
proof -
  define q where "q = v div d"
  have q: "q * d + v mod d = v" by (simp add: q_def)
  have "0 \<le> v mod d" and "v mod d < d" using assms(1) by simp_all
  with q assms have "q * d < b * d" and "a * d < q * d + d" by linarith+
  then have "q < b" and "a * d < (q + 1) * d"
    using assms(1) by (simp_all add: distrib_right)
  then show "a \<le> v div d" and "v div d < b"
    using assms(1) by (simp_all add: q_def)
qed

lemma mod_16: "16 \<le> (q::int) \<Longrightarrow> q < 32 \<Longrightarrow> q mod 16 = q - 16"
  by presburger

text \<open>The magnitude the encoder works on.\<close>

definition clipped :: "int16 \<Rightarrow> int" where
  "clipped s = min \<bar>sint s\<bar> 32635"

lemma encode_codeByte:
  assumes "e \<le> 7" and "2 ^ (e + 7) \<le> clipped s + 132" and "clipped s + 132 < 2 ^ (e + 8)"
  shows "encodePCMSample s = codeByte (sint s < 0) e ((clipped s + 132) div 2 ^ (e + 3) - 16)"
    and "0 \<le> (clipped s + 132) div 2 ^ (e + 3) - 16 \<and> (clipped s + 132) div 2 ^ (e + 3) - 16 \<le> 15"
proof -
  let ?v = "clipped s + 132"
  let ?q = "?v div 2 ^ (e + 3)"
  have p: "(2::int) ^ (e + 7) = 16 * 2 ^ (e + 3)" "(2::int) ^ (e + 8) = 32 * 2 ^ (e + 3)"
    by (simp_all add: power_add)
  have q: "16 \<le> ?q" "?q < 32"
    using assms(2,3) div_bracket [of "2 ^ (e + 3)" 16 ?v 32] unfolding p by simp_all
  then show "0 \<le> ?q - 16 \<and> ?q - 16 \<le> 15" by simp
  have "drop_bit (e + 3) ?v AND 0x0f = ?q mod 16"
    using take_bit_eq_mask [of 4 ?q] by (simp add: drop_bit_eq_div take_bit_eq_mod mask_eq_exp_minus_1)
  also have "\<dots> = ?q - 16"
    using q by (rule mod_16)
  finally have m: "drop_bit (e + 3) ?v AND 0x0f = ?q - 16" .
  have x: "encodeExponent ?v 7 0x4000 = e"
    using encodeExponent_bracket [OF assms] by simp
  have c: "(if (if sint s < 0 then - sint s else sint s) > 32635 then 32635
      else (if sint s < 0 then - sint s else sint s)) = clipped s"
    by (auto simp: clipped_def)
  show "encodePCMSample s = codeByte (sint s < 0) e (?q - 16)"
    unfolding encodePCMSample_def Let_def c pcmuBias_def
    using x m by (simp add: codeByte_def)
qed

lemma byte_split:
  "(w :: byte) = (w AND 0x80) OR (push_bit 4 (drop_bit 4 w AND 0x07) OR (w AND 0x0f))"
proof (rule bit_word_eqI)
  fix n
  assume "n < LENGTH(8)"
  then have n: "n = 0 \<or> n = 1 \<or> n = 2 \<or> n = 3 \<or> n = 4 \<or> n = 5 \<or> n = 6 \<or> n = 7"
    by auto
  then show "bit w n \<longleftrightarrow> bit ((w AND 0x80) OR (push_bit 4 (drop_bit 4 w AND 0x07) OR (w AND 0x0f))) n"
    by (elim disjE) (simp_all add: bit_or_iff bit_and_iff bit_push_bit_iff bit_drop_bit_eq)
qed

lemma sign_bit: "(w :: byte) AND 0x80 = (if w AND 0x80 \<noteq> 0 then 0x80 else 0)"
proof -
  have "w AND 0x80 = (if bit w 7 then 0x80 else 0)"
  proof (rule bit_word_eqI)
    fix n
    assume "n < LENGTH(8)"
    then have n: "n = 0 \<or> n = 1 \<or> n = 2 \<or> n = 3 \<or> n = 4 \<or> n = 5 \<or> n = 6 \<or> n = 7"
      by auto
    then show "bit (w AND 0x80) n \<longleftrightarrow> bit (if bit w 7 then 0x80 else (0 :: byte)) n"
      by (elim disjE) (simp_all add: bit_and_iff)
  qed
  then show ?thesis by simp
qed

lemma byte_fields_bounds:
  "unat (drop_bit 4 (w :: byte) AND 0x07) \<le> 7" "0 \<le> uint (w AND 0x0f)" "uint ((w :: byte) AND 0x0f) \<le> 15"
proof -
  have "unat (drop_bit 4 (w :: byte) AND 0x07) \<le> unat (7::byte)" 
    by (simp only: word_le_nat_alt [symmetric] word_and_le1)
  then show "unat (drop_bit 4 (w :: byte) AND 0x07) \<le> 7" by simp
  have "uint (w AND 0x0f) \<le> uint (0x0f::byte)"
    by (simp only: word_le_def [symmetric] word_and_le1)
  then show "uint ((w :: byte) AND 0x0f) \<le> 15" by simp
qed simp

lemma byte_codeByte:
  "b = codeByte (NOT b AND 0x80 \<noteq> 0) (unat (drop_bit 4 (NOT b) AND 0x07)) (uint (NOT b AND 0x0f))"
proof -
  have "NOT (codeByte (NOT b AND 0x80 \<noteq> 0) (unat (drop_bit 4 (NOT b) AND 0x07)) (uint (NOT b AND 0x0f)))
      = NOT b"
    unfolding codeByte_word using byte_split [of "NOT b"] sign_bit [of "NOT b"] by simp
  then show ?thesis by (metis bit.double_compl)
qed

text \<open>Encoding what was decoded gives the code byte back, except the negative zero.\<close>

lemma encode_decode_codeByte:
  assumes "e \<le> 7" and "0 \<le> m" and "m \<le> 15"
  shows "encodePCMSample (decodePCMSample (codeByte neg e m)) =
    codeByte (neg \<and> magnitude e m \<noteq> 0) e m"
proof -
  let ?s = "decodePCMSample (codeByte neg e m)"
  have s: "sint ?s = (if neg then - magnitude e m else magnitude e m)"
    using assms by (rule decode_codeByte)
  have c: "clipped ?s + 132 = (8 * m + 132) * 2 ^ e"
    using magnitude_bounds [OF assms] by (auto simp: clipped_def s) (auto simp: magnitude_def)
  have "2 ^ (e + 7) \<le> clipped ?s + 132"
    using assms unfolding c by (simp add: power_add mult.commute)
  moreover have "clipped ?s + 132 < 2 ^ (e + 8)"
    using assms unfolding c by (simp add: power_add mult.commute)
  ultimately have "encodePCMSample ?s = codeByte (sint ?s < 0) e ((clipped ?s + 132) div 2 ^ (e + 3) - 16)"
    using assms(1) by (intro encode_codeByte(1))
  also have "(clipped ?s + 132) div 2 ^ (e + 3) = (8 * m + 132) div 8"
    unfolding c by (simp add: power_add mult.commute)
  also have "(8 * m + 132) div 8 - 16 = m"
    by simp
  also have "sint ?s < 0 \<longleftrightarrow> neg \<and> magnitude e m \<noteq> 0"
    using magnitude_bounds [OF assms] by (auto simp: s)
  finally show ?thesis .
qed

lemma magnitude_zero: "e \<le> 7 \<Longrightarrow> 0 \<le> m \<Longrightarrow> m \<le> 15 \<Longrightarrow> magnitude e m = 0 \<longleftrightarrow> e = 0 \<and> m = 0"
proof
  assume a: "e \<le> 7" "0 \<le> m" "m \<le> 15" "magnitude e m = 0"
  then have "(8 * m + 132) * 2 ^ e = 132" by (simp add: magnitude_def)
  then show "e = 0 \<and> m = 0" using a(2) nat_le_7 [OF a(1)] by (elim disjE) simp_all
qed (simp add: magnitude_def)

lemma byte_is_code: obtains neg e m where "b = codeByte neg e m" "e \<le> 7" "0 \<le> m" "m \<le> 15"
  using byte_codeByte [of b] byte_fields_bounds [of "NOT b"] by blast

lemma neg_zero: "encodePCMSample (decodePCMSample 0x7F) = 0xFF"
  by code_simp

lemma encode_decode_byte: "encodePCMSample (decodePCMSample b) = (if b = 0x7F then 0xFF else b)"
proof -
  obtain neg e m where b: "b = codeByte neg e m" and f: "e \<le> 7" "0 \<le> m" "m \<le> 15"
    by (rule byte_is_code)
  note eq = encode_decode_codeByte [OF f, of neg, folded b]
  show ?thesis
  proof (cases "neg \<and> magnitude e m = 0")
    case True
    then have "e = 0" "m = 0" using magnitude_zero [OF f] by auto
    with True eq b show ?thesis by (simp add: codeByte_def)
  next
    case False
    then have "codeByte (neg \<and> magnitude e m \<noteq> 0) e m = codeByte neg e m" by (cases neg) simp_all
    with eq b have same: "encodePCMSample (decodePCMSample b) = b" by simp
    have "b \<noteq> 0x7F" using same by (rule contrapos_pn) (use neg_zero in simp)
    with same show ?thesis by simp
  qed
qed

text \<open>
  The quantisation error: decoding the encoded sample misses the clipped sample by at most
  one part in 32 of the biased magnitude, and keeps the sign.
\<close>

lemma half_step: "0 \<le> r \<Longrightarrow> r < 2 * h \<Longrightarrow> 32 * h \<le> v \<Longrightarrow> 32 * \<bar>h - r\<bar> \<le> (v::int)"
  by (simp add: abs_if)

lemma quantisation:
  assumes "2 ^ (e + 7) \<le> v"
  shows "32 * \<bar>(8 * (v div 2 ^ (e + 3) - 16) + 132) * 2 ^ e - v\<bar> \<le> (v::int)"
proof -
  define d :: int where "d = 2 ^ (e + 3)"
  define h :: int where "h = 2 ^ (e + 2)"
  have "(8 * (v div d - 16) + 132) * 2 ^ e = d * (v div d) + h"
    by (simp add: d_def h_def power_add algebra_simps)
  then have "(8 * (v div d - 16) + 132) * 2 ^ e - v = h - v mod d"
    by (simp add: minus_mult_div_eq_mod [symmetric])
  moreover have "0 \<le> v mod d" "v mod d < d" by (simp_all add: d_def)
  moreover have "d = 2 * h" "32 * h \<le> v"
    using assms by (simp_all add: d_def h_def power_add)
  ultimately show ?thesis unfolding d_def [symmetric] by (simp only: half_step)
qed

lemma pcmu_error:
  "32 * \<bar>\<bar>sint (decodePCMSample (encodePCMSample s))\<bar> - clipped s\<bar> \<le> clipped s + 132"
  "0 < sint s \<Longrightarrow> 0 \<le> sint (decodePCMSample (encodePCMSample s))"
  "sint s < 0 \<Longrightarrow> sint (decodePCMSample (encodePCMSample s)) \<le> 0"
proof -
  have "0 \<le> clipped s" "clipped s \<le> 32635" by (auto simp: clipped_def)
  then obtain e where e: "e \<le> 7" "2 ^ (e + 7) \<le> clipped s + 132" "clipped s + 132 < 2 ^ (e + 8)"
    using exponent_exists [of "clipped s + 132"] by auto
  let ?m = "(clipped s + 132) div 2 ^ (e + 3) - 16"
  note enc = encode_codeByte [OF e]
  have m: "0 \<le> ?m" "?m \<le> 15" using enc(2) by auto
  note dec = decode_codeByte [OF e(1) m, of "sint s < 0"] and b = magnitude_bounds [OF e(1) m]
  show "32 * \<bar>\<bar>sint (decodePCMSample (encodePCMSample s))\<bar> - clipped s\<bar> \<le> clipped s + 132"
  proof -
    have "\<bar>if sint s < 0 then - magnitude e ?m else magnitude e ?m\<bar> - clipped s
        = (8 * ?m + 132) * 2 ^ e - (clipped s + 132)"
      using b by (simp add: magnitude_def)
    with quantisation [OF e(2)] show ?thesis unfolding enc(1) dec by presburger
  qed
  show "0 < sint s \<Longrightarrow> 0 \<le> sint (decodePCMSample (encodePCMSample s))"
    and "sint s < 0 \<Longrightarrow> sint (decodePCMSample (encodePCMSample s)) \<le> 0"
    using b unfolding enc(1) dec by simp_all
qed

section \<open>Linear resampling\<close>

datatype resampleError = ErrInvalidSampleRate | ResampleIndexPanic

definition resampleOne :: "int16 list \<Rightarrow> int \<Rightarrow> int \<Rightarrow> int \<Rightarrow> resampleError + int16" where
  "resampleOne input fromRate toRate i =
     (let sourceNumerator = int64 (i * fromRate);
          left = tdiv sourceNumerator toRate;
          left = (if left \<ge> int (length input) then int (length input) - 1 else left);
          right = min (left + 1) (int (length input) - 1);
          remainder = tmod sourceNumerator toRate;
          leftWeight = int64 (toRate - remainder);
          rightWeight = remainder
      in if left < 0 \<or> right < 0 then Inl ResampleIndexPanic
         else Inr (word_of_int (tdiv (int64 (int64 (sint (input ! nat left) * leftWeight) +
           int64 (sint (input ! nat right) * rightWeight))) toRate)))"

fun resampleLoop :: "int16 list \<Rightarrow> int \<Rightarrow> int \<Rightarrow> nat list \<Rightarrow> resampleError + int16 list" where
  "resampleLoop input fromRate toRate [] = Inr []"
| "resampleLoop input fromRate toRate (i # is) =
     rbind (resampleOne input fromRate toRate (int i)) (\<lambda>x.
     rbind (resampleLoop input fromRate toRate is) (\<lambda>xs. Inr (x # xs)))"

definition resampleLength :: "nat \<Rightarrow> int \<Rightarrow> int \<Rightarrow> int" where
  "resampleLength n fromRate toRate =
     max 1 (tdiv (int64 (int64 (int n * toRate) + tdiv fromRate 2)) fromRate)"

definition ResampleLinear :: "int16 list \<Rightarrow> int \<Rightarrow> int \<Rightarrow> resampleError + int16 list" where
  "ResampleLinear input fromRate toRate =
     (if fromRate \<le> 0 \<or> toRate \<le> 0 then Inl ErrInvalidSampleRate
      else if input = [] then Inr []
      else if fromRate = toRate then Inr input
      else resampleLoop input fromRate toRate [0..<nat (resampleLength (length input) fromRate toRate)])"

text \<open>A weighted mean, truncated towards zero, lies between its two arguments.\<close>

lemma tdiv_between:
  assumes "0 < d" and "lo * d \<le> y" and "y \<le> hi * d"
  shows "lo \<le> tdiv y d \<and> tdiv y d \<le> hi"
proof (cases "0 \<le> y")
  case True
  then show ?thesis
    using assms by (simp add: div_pos_geq zdiv_mono1 [of y "hi * d" d, simplified]
        zdiv_mono1 [of "lo * d" y d, simplified])
next
  case False
  then have "tdiv y d = - ((- y) div d)"
    using assms(1) by (simp add: tdiv_def)
  moreover have "(- y) div d \<le> - lo" "- hi \<le> (- y) div d"
    using zdiv_mono1 [of "- y" "(- lo) * d" d] zdiv_mono1 [of "(- hi) * d" "- y" d] assms
    by (simp_all del: mult_minus_left add: nonzero_mult_div_cancel_right)
  ultimately show ?thesis by simp
qed

lemma weighted_between:
  fixes a b d r :: int
  assumes "0 \<le> r" and "r \<le> d"
  shows "min a b * d \<le> a * (d - r) + b * r" and "a * (d - r) + b * r \<le> max a b * d"
proof -
  have "min a b * (d - r) \<le> a * (d - r)" "min a b * r \<le> b * r"
    "a * (d - r) \<le> max a b * (d - r)" "b * r \<le> max a b * r"
    using assms by (simp_all add: mult_right_mono)
  moreover have "min a b * (d - r) + min a b * r = min a b * d" "max a b * (d - r) + max a b * r = max a b * d"
    by (simp_all add: algebra_simps)
  ultimately show "min a b * d \<le> a * (d - r) + b * r" and "a * (d - r) + b * r \<le> max a b * d"
    by linarith+
qed

lemma sint16_bounds: "- 32768 \<le> sint (s :: int16) \<and> sint s \<le> 32767"
  using sint_ge [of s] sint_lt [of s] by simp

lemma sint16_between:
  "min (sint (a :: int16)) (sint (b :: int16)) \<le> v \<Longrightarrow> v \<le> max (sint a) (sint b) \<Longrightarrow>
   sint (word_of_int v :: int16) = v"
  using sint16_bounds [of a] sint16_bounds [of b]
  by (intro sint_small16) (simp_all add: min_le_iff_disj le_max_iff_disj, linarith+)

lemma int64_mult_small:
  assumes "\<bar>a\<bar> \<le> 32768" and "0 \<le> w" and "w \<le> 2 ^ 31"
  shows "int64 (a * w) = a * w" and "\<bar>a * w\<bar> \<le> 2 ^ 46"
proof -
  have "\<bar>a * w\<bar> \<le> 32768 * 2 ^ 31"
    unfolding abs_mult by (rule mult_mono) (use assms in simp_all)
  then show "\<bar>a * w\<bar> \<le> 2 ^ 46" by simp
  then show "int64 (a * w) = a * w" by (intro int64_id) simp_all
qed

definition resampleNeighbours :: "nat \<Rightarrow> int \<Rightarrow> int \<Rightarrow> nat \<Rightarrow> nat \<times> nat" where
  "resampleNeighbours n fromRate toRate i =
     (let l = min (nat (int i * fromRate div toRate)) (n - 1) in (l, min (l + 1) (n - 1)))"

lemma int64_sum_small: "\<bar>a\<bar> \<le> 2 ^ 46 \<Longrightarrow> \<bar>b\<bar> \<le> 2 ^ 46 \<Longrightarrow> int64 (a + b) = a + b"
  by (rule int64_id) simp_all

lemma clamp_left:
  "0 < n \<Longrightarrow> 0 \<le> q \<Longrightarrow> (if q \<ge> int n then int n - 1 else q) = int (min (nat q) (n - 1))"
  by (cases "q \<ge> int n") (simp_all add: min_def nat_le_iff of_nat_diff)

lemma clamp_right: "0 < n \<Longrightarrow> min (int l + 1) (int n - 1) = int (min (l + 1) (n - 1))"
  by linarith

lemma resampleOne_between:
  assumes "input \<noteq> []" and "0 < fromRate" and "0 < toRate" and "toRate \<le> 2 ^ 31"
    and "int i * fromRate < 2 ^ 63"
    and "resampleNeighbours (length input) fromRate toRate i = (l, r)"
  shows "\<exists>x. resampleOne input fromRate toRate (int i) = Inr x \<and>
    min (sint (input ! l)) (sint (input ! r)) \<le> sint x \<and>
    sint x \<le> max (sint (input ! l)) (sint (input ! r))"
proof -
  let ?n = "int i * fromRate" and ?a = "sint (input ! l)" and ?b = "sint (input ! r)"
  let ?rem = "?n mod toRate"
  let ?y = "?a * (toRate - ?rem) + ?b * ?rem"
  have n0: "0 \<le> ?n" using assms(2) by simp
  then have n: "int64 ?n = ?n" by (intro int64_id) (use assms(5) in simp_all)
  have rem: "0 \<le> ?rem" "?rem < toRate" using assms(3) by simp_all
  then have w: "int64 (toRate - ?rem) = toRate - ?rem"
    using assms(4) by (intro int64_id) simp_all
  have len: "0 < length input" using assms(1) by simp
  have left: "(if ?n div toRate \<ge> int (length input) then int (length input) - 1 else ?n div toRate) = int l"
    using clamp_left [OF len, of "?n div toRate"] pos_imp_zdiv_nonneg_iff [OF assms(3), of ?n]
      assms(6) n0 by (simp add: resampleNeighbours_def Let_def)
  have right: "min (int l + 1) (int (length input) - 1) = int r"
    using clamp_right [OF len, of l] assms(6) by (auto simp: resampleNeighbours_def Let_def)
  have ab: "\<bar>?a\<bar> \<le> 32768" "\<bar>?b\<bar> \<le> 32768"
    using sint16_bounds [of "input ! l"] sint16_bounds [of "input ! r"] by auto
  have pa: "int64 (?a * (toRate - ?rem)) = ?a * (toRate - ?rem)" "\<bar>?a * (toRate - ?rem)\<bar> \<le> 2 ^ 46"
    using int64_mult_small [OF ab(1), of "toRate - ?rem"] rem assms(4) by simp_all
  have pb: "int64 (?b * ?rem) = ?b * ?rem" "\<bar>?b * ?rem\<bar> \<le> 2 ^ 46"
    using int64_mult_small [OF ab(2), of ?rem] rem assms(4) by simp_all
  have y: "int64 ?y = ?y" by (rule int64_sum_small [OF pa(2) pb(2)])
  have one: "resampleOne input fromRate toRate (int i) = Inr (word_of_int (tdiv ?y toRate))"
    unfolding resampleOne_def Let_def n tdiv_nonneg [OF n0 assms(3)] tmod_nonneg [OF n0 assms(3)]
      left right w nat_int pa(1) pb(1) y
    by simp
  have "min ?a ?b \<le> tdiv ?y toRate \<and> tdiv ?y toRate \<le> max ?a ?b"
    by (rule tdiv_between [OF assms(3)]) (use weighted_between [of ?rem toRate ?a ?b] rem in simp_all)
  moreover from this have "sint (word_of_int (tdiv ?y toRate) :: int16) = tdiv ?y toRate"
    by (intro sint16_between [of "input ! l" "input ! r"]) simp_all
  ultimately show ?thesis unfolding one by simp
qed

lemma resampleLoop_Inr:
  "(\<And>i. i \<in> set is \<Longrightarrow> \<exists>x. resampleOne input f t (int i) = Inr x \<and> P i x) \<Longrightarrow>
   \<exists>xs. resampleLoop input f t is = Inr xs \<and> list_all2 P is xs"
proof (induction "is")
  case (Cons i "is")
  obtain x where x: "resampleOne input f t (int i) = Inr x" "P i x" using Cons.prems by auto
  obtain xs where "resampleLoop input f t is = Inr xs" "list_all2 P is xs" using Cons by auto
  with x show ?case by simp
qed simp

lemma resampleLength_bounds:
  assumes "0 < fromRate" and "fromRate \<le> 2 ^ 31" and "0 < toRate" and "toRate \<le> 2 ^ 31" and "n \<le> 2 ^ 30"
  shows "resampleLength n fromRate toRate = max 1 ((int n * toRate + fromRate div 2) div fromRate)"
    and "int (nat (resampleLength n fromRate toRate)) * fromRate \<le> 2 ^ 62"
proof -
  have p: "0 \<le> int n * toRate" "int n * toRate \<le> 2 ^ 30 * 2 ^ 31"
    using assms by (simp, intro mult_mono) auto
  then have i1: "int64 (int n * toRate) = int n * toRate" by (intro int64_id) simp_all
  have h: "0 \<le> fromRate div 2" "fromRate div 2 \<le> 2 ^ 31" using assms(1,2) by linarith+
  have i2: "int64 (int n * toRate + fromRate div 2) = int n * toRate + fromRate div 2"
    by (intro int64_id) (use p h in simp_all)
  show eq: "resampleLength n fromRate toRate = max 1 ((int n * toRate + fromRate div 2) div fromRate)"
    unfolding resampleLength_def using assms(1) i1 i2 p h by simp
  have "(int n * toRate + fromRate div 2) div fromRate * fromRate \<le> int n * toRate + fromRate div 2"
    using assms(1) by (metis add.commute add_le_same_cancel1 div_mult_mod_eq le_add_same_cancel1 order_less_imp_le pos_mod_sign)
  then show "int (nat (resampleLength n fromRate toRate)) * fromRate \<le> 2 ^ 62"
    unfolding eq using assms(2) p h by (auto simp: max_def)
qed

lemma resample_between:
  assumes "input \<noteq> []" and "length input \<le> 2 ^ 30" and "fromRate \<noteq> toRate"
    and "0 < fromRate" and "fromRate \<le> 2 ^ 31" and "0 < toRate" and "toRate \<le> 2 ^ 31"
  shows "\<exists>xs. ResampleLinear input fromRate toRate = Inr xs \<and>
    int (length xs) = max 1 ((int (length input) * toRate + fromRate div 2) div fromRate) \<and>
    (\<forall>i<length xs. case resampleNeighbours (length input) fromRate toRate i of (l, r) \<Rightarrow>
       l < length input \<and> r < length input \<and>
       min (sint (input ! l)) (sint (input ! r)) \<le> sint (xs ! i) \<and>
       sint (xs ! i) \<le> max (sint (input ! l)) (sint (input ! r)))"
proof -
  let ?n = "nat (resampleLength (length input) fromRate toRate)"
  define P where "P i x \<longleftrightarrow> (case resampleNeighbours (length input) fromRate toRate i of (l, r) \<Rightarrow>
       min (sint (input ! l)) (sint (input ! r)) \<le> sint x \<and>
       sint x \<le> max (sint (input ! l)) (sint (input ! r)))" for i and x :: int16
  note len = resampleLength_bounds [OF assms(4,5,6,7,2)]
  have "\<exists>x. resampleOne input fromRate toRate (int i) = Inr x \<and> P i x" if "i \<in> set [0..<?n]" for i
  proof -
    have "int i * fromRate \<le> int ?n * fromRate" using that assms(4) by (intro mult_right_mono) auto
    then have "int i * fromRate < 2 ^ 63" using len(2) by simp
    with assms show ?thesis
      unfolding P_def by (cases "resampleNeighbours (length input) fromRate toRate i")
        (simp add: resampleOne_between)
  qed
  from resampleLoop_Inr [of "[0..<?n]", OF this]
  obtain xs where xs: "resampleLoop input fromRate toRate [0..<?n] = Inr xs" "list_all2 P [0..<?n] xs"
    by blast
  have "length xs = ?n" using list_all2_lengthD [OF xs(2)] by simp
  moreover have "\<forall>i<length xs. P i (xs ! i)"
    using xs(2) by (simp add: list_all2_conv_all_nth)
  moreover have "fst (resampleNeighbours (length input) fromRate toRate i) < length input \<and>
      snd (resampleNeighbours (length input) fromRate toRate i) < length input" for i
    using assms(1) by (auto simp: resampleNeighbours_def Let_def min_def Suc_le_eq)
  moreover have "ResampleLinear input fromRate toRate = Inr xs"
    using xs(1) assms(1,3,4,6) by (simp add: ResampleLinear_def)
  ultimately show ?thesis
    using len(1) by (intro exI [of _ xs]) (simp add: P_def split_beta)
qed

section \<open>Properties\<close>

text \<open>
  Decoding a PCMU payload and encoding the samples again gives the payload back, except that
  the code of negative zero becomes the code of zero.
\<close>

theorem pcmu_transcode: "EncodePCMU (DecodePCMU payload) = map (\<lambda>b. if b = 0x7F then 0xFF else b) payload"
  by (simp add: EncodePCMU_def DecodePCMU_def encode_decode_byte)

text \<open>
  C40: A sample that goes through PCMU keeps its sign, and its magnitude, clipped at 32635, is off by
  at most a 32nd of the magnitude plus the bias.
\<close>

theorem pcmu_accuracy:
  "list_all2 (\<lambda>s d. 32 * \<bar>\<bar>sint d\<bar> - min \<bar>sint s\<bar> 32635\<bar> \<le> min \<bar>sint s\<bar> 32635 + 132 \<and> 0 \<le> sint s * sint d)
     samples (DecodePCMU (EncodePCMU samples))"
proof -
  have "0 \<le> sint s * sint (decodePCMSample (encodePCMSample s))" for s :: int16
    using pcmu_error(2,3) [of s] by (cases "sint s" "0::int" rule: linorder_cases) (simp_all add: mult_nonpos_nonpos)
  then show ?thesis
    using pcmu_error(1) by (simp add: list_all2_conv_all_nth EncodePCMU_def DecodePCMU_def clipped_def)
qed

text \<open>
  Resampling \<open>n\<close> samples gives the rounded \<open>n * to / from\<close> samples and at least one; each lies
  between the two input samples around its position; no intermediate value overflows for the stated sizes.
\<close>

theorem resample_range:
  assumes "input \<noteq> []" and "length input \<le> 2 ^ 30" and "fromRate \<noteq> toRate"
    and "0 < fromRate" and "fromRate \<le> 2 ^ 31" and "0 < toRate" and "toRate \<le> 2 ^ 31"
  shows "\<exists>xs. ResampleLinear input fromRate toRate = Inr xs \<and>
    int (length xs) = max 1 ((int (length input) * toRate + fromRate div 2) div fromRate) \<and>
    (\<forall>i<length xs. case resampleNeighbours (length input) fromRate toRate i of (l, r) \<Rightarrow>
       l < length input \<and> r < length input \<and>
       min (sint (input ! l)) (sint (input ! r)) \<le> sint (xs ! i) \<and>
       sint (xs ! i) \<le> max (sint (input ! l)) (sint (input ! r)))"
  by (rule resample_between [OF assms])

theorem resample_range_witness:
  "\<exists>xs. ResampleLinear [0, 100, 300] 8000 16000 = Inr xs \<and> length xs = 6 \<and>
     sint (xs ! 1) \<ge> 0 \<and> sint (xs ! 1) \<le> 100"
proof -
  have n: "resampleNeighbours 3 8000 16000 1 = (0, 1)" by code_simp
  let ?in = "[0, 100, 300 :: int16]"
  have "\<exists>xs. ResampleLinear ?in 8000 16000 = Inr xs \<and>
    int (length xs) = max 1 ((int (length ?in) * 16000 + 8000 div 2) div 8000) \<and>
    (\<forall>i<length xs. case resampleNeighbours (length ?in) 8000 16000 i of (l, r) \<Rightarrow>
       l < length ?in \<and> r < length ?in \<and>
       min (sint (?in ! l)) (sint (?in ! r)) \<le> sint (xs ! i) \<and> sint (xs ! i) \<le> max (sint (?in ! l)) (sint (?in ! r)))"
    by (rule resample_range) simp_all
  then obtain xs where xs: "ResampleLinear ?in 8000 16000 = Inr xs" "int (length xs) = 6"
    and at: "\<forall>i<length xs. case resampleNeighbours 3 8000 16000 i of (l, r) \<Rightarrow>
       l < 3 \<and> r < 3 \<and>
       min (sint (?in ! l)) (sint (?in ! r)) \<le> sint (xs ! i) \<and> sint (xs ! i) \<le> max (sint (?in ! l)) (sint (?in ! r))"
    by (auto simp del: nth_Cons_0 simp: numeral_3_eq_3 [symmetric])
  from at [rule_format, of 1] xs show ?thesis by (simp add: n [unfolded One_nat_def])
qed

end
