(* ===== verification/Atr.thy ===== *)
theory Atr
  imports GoPrelude
begin

text \<open>
  Detection of an eUICC from the answer to reset of a SIM card
  (\<open>internal/pkg/modem/atr.go\<close>): the scan of the interface bytes for the global TB byte
  of T = 15, the checksum and the list of known cards; and a reference description of an
  ATR as a list of interface groups, from which the bytes are serialised.
\<close>

section \<open>The program\<close>

definition knownATRs :: "byte list list" where
  "knownATRs =
     [[0x3B, 0x9F, 0x96, 0x80, 0x3F, 0xC7, 0x82, 0x80, 0x31, 0xE0, 0x73, 0xFE, 0x21, 0x15,
       0x57, 0x65, 0x73, 0x74, 0x6B, 0x2E, 0x6D, 0x65, 0x63],
      [0x3B, 0x9F, 0x96, 0x80, 0x1F, 0xC7, 0x80, 0x31, 0xE0, 0x73, 0xFE, 0x21, 0x15,
       0x57, 0x65, 0x73, 0x74, 0x6B, 0x2E, 0x6D, 0x65, 0xC1],
      [0x3B, 0xBF, 0x93, 0x00, 0x80, 0x1F, 0xC6, 0x80, 0x31, 0xE0, 0x73, 0xFE, 0x21, 0x13,
       0x57, 0x65, 0x73, 0x74, 0x6B, 0x2E, 0x6D, 0x65, 0xE3],
      [0x3B, 0x9F, 0x96, 0x80, 0x1F, 0xC7, 0x80, 0x31, 0xE0, 0x73, 0xFE, 0x21, 0x1B,
       0x57, 0xAA, 0x86, 0x60, 0xF0, 0x02, 0x00, 0x02, 0x5C],
      [0x3B, 0x9F, 0x96, 0x80, 0x1F, 0xC7, 0x80, 0x31, 0xE0, 0x73, 0xFE, 0x21, 0x1B,
       0x57, 0xAA, 0x86, 0x60, 0x16, 0x01, 0x00, 0x01, 0xBA]]"

definition knownATR :: "byte list \<Rightarrow> bool" where
  "knownATR atr \<longleftrightarrow> list_ex (\<lambda>known. known = atr) knownATRs"

text \<open>The variables of the scan loop.\<close>

record atrScan =
  scanY :: byte
  scanIndex :: nat
  scanProtocol :: byte
  scanGroup :: int
  scanTB :: byte
  scanFound :: bool
  scanNeedsChecksum :: bool

text \<open>
  One round of the loop reads the bytes TA, TB and TC the bits of \<open>y\<close> announce, and TD
  when there is one. \<open>None\<close> is the early return \<open>(0, false)\<close>; the flag of the result says
  whether the loop goes on.
\<close>

definition atrSkip :: "byte list \<Rightarrow> byte \<Rightarrow> atrScan \<Rightarrow> atrScan option" where
  "atrSkip atr bitmask s =
     (if scanY s AND bitmask \<noteq> 0
      then if scanIndex s \<ge> length atr then None else Some (s\<lparr>scanIndex := scanIndex s + 1\<rparr>)
      else Some s)"

definition atrReadTB :: "byte list \<Rightarrow> atrScan \<Rightarrow> atrScan option" where
  "atrReadTB atr s =
     (if scanY s AND 0x2 \<noteq> 0
      then if scanIndex s \<ge> length atr then None
        else let s' = (if scanProtocol s = 0x0F \<and> scanGroup s > 2
                       then s\<lparr>scanTB := atr ! scanIndex s, scanFound := True\<rparr> else s)
             in Some (s'\<lparr>scanIndex := scanIndex s + 1\<rparr>)
      else Some s)"

definition atrReadTD :: "byte list \<Rightarrow> atrScan \<Rightarrow> (atrScan \<times> bool) option" where
  "atrReadTD atr s =
     (if scanY s AND 0x8 = 0 then Some (s, False)
      else if scanIndex s \<ge> length atr then None
      else let td = atr ! scanIndex s; protocol = td AND 0x0F
           in Some (s\<lparr>scanIndex := scanIndex s + 1, scanY := drop_bit 4 td, scanProtocol := protocol,
                scanGroup := scanGroup s + 1,
                scanNeedsChecksum := (protocol \<noteq> 0 \<or> scanNeedsChecksum s)\<rparr>, True))"

definition atrRound :: "byte list \<Rightarrow> atrScan \<Rightarrow> (atrScan \<times> bool) option" where
  "atrRound atr s =
     Option.bind (atrSkip atr 0x1 s) (\<lambda>s.
     Option.bind (atrReadTB atr s) (\<lambda>s.
     Option.bind (atrSkip atr 0x4 s) (atrReadTD atr)))"

lemma atrSkip_index: "atrSkip atr m s = Some s' \<Longrightarrow> scanIndex s \<le> scanIndex s'"
  by (auto simp: atrSkip_def split: if_splits)

lemma atrReadTB_index: "atrReadTB atr s = Some s' \<Longrightarrow> scanIndex s \<le> scanIndex s'"
  by (auto simp: atrReadTB_def Let_def split: if_splits)

lemma atrReadTD_index:
  "atrReadTD atr s = Some (s', True) \<Longrightarrow> scanIndex s < scanIndex s' \<and> scanIndex s < length atr"
  by (auto simp: atrReadTD_def Let_def split: if_splits)

lemma atrRound_index:
  assumes "atrRound atr s = Some (s', True)"
  shows "length atr - scanIndex s' < length atr - scanIndex s"
  using assms unfolding atrRound_def bind_eq_Some_conv
  by (fastforce dest: atrSkip_index atrReadTB_index atrReadTD_index)

function atrLoop :: "byte list \<Rightarrow> atrScan \<Rightarrow> atrScan option" where
  "atrLoop atr s =
     (case atrRound atr s of
        None \<Rightarrow> None
      | Some (s', continue) \<Rightarrow> if continue then atrLoop atr s' else Some s')"
  by pat_completeness auto
termination
  by (relation "measure (\<lambda>(atr, s). length atr - scanIndex s)") (auto dest: atrRound_index)

declare atrLoop.simps [simp del]

definition xorBytes :: "byte list \<Rightarrow> byte" where
  "xorBytes bs = fold (\<lambda>b checksum. checksum XOR b) bs 0"

definition atrT15GlobalTB :: "byte list \<Rightarrow> byte \<times> bool" where
  "atrT15GlobalTB atr =
     (if length atr < 2 then (0, False)
      else if atr ! 0 \<noteq> 0x3B \<and> atr ! 0 \<noteq> 0x3F then (0, False)
      else let historicalLen = unat (atr ! 1 AND 0x0F) in
        case atrLoop atr \<lparr>scanY = drop_bit 4 (atr ! 1), scanIndex = 2, scanProtocol = 0,
            scanGroup = 1, scanTB = 0, scanFound = False, scanNeedsChecksum = False\<rparr> of
          None \<Rightarrow> (0, False)
        | Some s \<Rightarrow>
            let last_index = scanIndex s + historicalLen in
            if scanNeedsChecksum s then
              if last_index \<ge> length atr \<or> last_index + 1 \<noteq> length atr then (0, False)
              else if xorBytes (drop 1 atr) \<noteq> 0 then (0, False)
              else (scanTB s, scanFound s)
            else if last_index \<noteq> length atr then (0, False)
            else (scanTB s, scanFound s))"

definition atrSupportsEUICC :: "byte list \<Rightarrow> bool" where
  "atrSupportsEUICC atr =
     (let (tb, ok) = atrT15GlobalTB atr in
      if ok \<and> tb AND 0x82 = 0x82 then True else knownATR atr)"

section \<open>The checksum\<close>

lemma fold_xor: "fold (\<lambda>b c. c XOR b) bs a = a XOR xorBytes bs" for a :: byte
proof (induction bs arbitrary: a)
  case (Cons b bs)
  show ?case using Cons [of "a XOR b"] Cons [of b] by (simp add: xorBytes_def xor.assoc)
qed (simp add: xorBytes_def)

lemma xorBytes_Nil [simp]: "xorBytes [] = 0"
  by (simp add: xorBytes_def)

lemma xorBytes_Cons [simp]: "xorBytes (b # bs) = b XOR xorBytes bs"
  using fold_xor [of bs b] by (simp add: xorBytes_def)

lemma xorBytes_append [simp]: "xorBytes (as @ bs) = xorBytes as XOR xorBytes bs"
  by (induction as) (simp_all add: xor.assoc)

lemma xor_cancel: "(a :: byte) XOR (x XOR c) = a XOR (y XOR c) \<longleftrightarrow> x = y"
  by (auto simp: bit_eq_iff bit_xor_iff)

text \<open>Changing one byte changes the checksum.\<close>

lemma xorBytes_update:
  assumes "i < length bs" and "b \<noteq> bs ! i"
  shows "xorBytes (bs[i := b]) \<noteq> xorBytes bs"
proof -
  have "xorBytes bs = xorBytes (take i bs) XOR (bs ! i XOR xorBytes (drop (Suc i) bs))"
    using id_take_nth_drop [OF assms(1)] by (metis xorBytes_Cons xorBytes_append)
  moreover have "xorBytes (bs[i := b]) = xorBytes (take i bs) XOR (b XOR xorBytes (drop (Suc i) bs))"
    using assms(1) by (simp add: upd_conv_take_nth_drop)
  ultimately show ?thesis
    using assms(2) by (simp add: xor_cancel)
qed

text \<open>A TB byte is only found under a protocol other than 0, hence only behind a checksum.\<close>

definition scan_sound :: "atrScan \<Rightarrow> bool" where
  "scan_sound s \<longleftrightarrow> (scanProtocol s \<noteq> 0 \<longrightarrow> scanNeedsChecksum s) \<and> (scanFound s \<longrightarrow> scanNeedsChecksum s)"

lemma atrSkip_sound: "atrSkip atr m s = Some s' \<Longrightarrow> scan_sound s \<Longrightarrow> scan_sound s'"
  by (auto simp: atrSkip_def scan_sound_def split: if_splits)

lemma atrReadTB_sound: "atrReadTB atr s = Some s' \<Longrightarrow> scan_sound s \<Longrightarrow> scan_sound s'"
  by (auto simp: atrReadTB_def scan_sound_def Let_def split: if_splits)

lemma atrReadTD_sound: "atrReadTD atr s = Some (s', c) \<Longrightarrow> scan_sound s \<Longrightarrow> scan_sound s'"
  by (auto simp: atrReadTD_def scan_sound_def Let_def split: if_splits)

lemma atrRound_sound: "atrRound atr s = Some (s', c) \<Longrightarrow> scan_sound s \<Longrightarrow> scan_sound s'"
  unfolding atrRound_def bind_eq_Some_conv
  by (blast dest: atrSkip_sound atrReadTB_sound atrReadTD_sound)

lemma atrLoop_sound: "atrLoop atr s = Some s' \<Longrightarrow> scan_sound s \<Longrightarrow> scan_sound s'"
proof (induction atr s rule: atrLoop.induct)
  case (1 atr s)
  from "1.prems"(1) obtain s1 c where r: "atrRound atr s = Some (s1, c)"
    by (subst (asm) atrLoop.simps) (auto split: option.splits)
  with "1.prems" have "scan_sound s1" by (blast dest: atrRound_sound)
  with "1.IH" [OF r refl] "1.prems"(1) r show ?case
    by (subst (asm) (2) atrLoop.simps) (auto split: if_splits)
qed

lemma global_tb_checksum:
  assumes "snd (atrT15GlobalTB atr)"
  shows "xorBytes (drop 1 atr) = 0"
proof -
  let ?s0 = "\<lparr>scanY = drop_bit 4 (atr ! 1), scanIndex = 2, scanProtocol = 0,
            scanGroup = 1, scanTB = 0, scanFound = False, scanNeedsChecksum = False\<rparr>"
  obtain s where s: "atrLoop atr ?s0 = Some s"
    using assms by (auto simp: atrT15GlobalTB_def Let_def split: if_splits option.splits)
  have "scan_sound s" using atrLoop_sound [OF s] by (simp add: scan_sound_def)
  with assms s show ?thesis
    by (auto simp: atrT15GlobalTB_def Let_def scan_sound_def split: if_splits)
qed

lemma corrupted_atr_rejected:
  assumes "snd (atrT15GlobalTB atr)" and "0 < i" and "i < length atr" and "b \<noteq> atr ! i"
  shows "\<not> snd (atrT15GlobalTB (atr[i := b]))"
proof
  assume "snd (atrT15GlobalTB (atr[i := b]))"
  then have "xorBytes (drop 1 (atr[i := b])) = 0" by (rule global_tb_checksum)
  moreover have "drop 1 (atr[i := b]) = (drop 1 atr)[i - 1 := b]"
    using assms(2) by (simp add: drop_update_swap)
  moreover have "xorBytes ((drop 1 atr)[i - 1 := b]) \<noteq> xorBytes (drop 1 atr)"
    using assms(2,3,4) by (intro xorBytes_update) auto
  ultimately show False using global_tb_checksum [OF assms(1)] by simp
qed

section \<open>ATRs as interface groups\<close>

text \<open>
  The structure of an ATR: the first group of interface bytes (each of TA, TB and TC may be
  missing), then for each TD byte its protocol and the next group; then the historical bytes
  and, when a protocol other than 0 is announced, the checksum.
\<close>

datatype iface = Iface (ifTA: "byte option") (ifTB: "byte option") (ifTC: "byte option")

definition ifaceBytes :: "iface \<Rightarrow> byte list" where
  "ifaceBytes g = concat (map (\<lambda>x. case x of None \<Rightarrow> [] | Some b \<Rightarrow> [b]) [ifTA g, ifTB g, ifTC g])"

definition ifaceNibble :: "iface \<Rightarrow> bool \<Rightarrow> byte" where
  "ifaceNibble g td =
     (if ifTA g \<noteq> None then 1 else 0) OR (if ifTB g \<noteq> None then 2 else 0) OR
     (if ifTC g \<noteq> None then 4 else 0) OR (if td then 8 else 0)"

fun atrBody :: "iface \<Rightarrow> (byte \<times> iface) list \<Rightarrow> byte list" where
  "atrBody g [] = ifaceBytes g"
| "atrBody g ((t, h) # gs) =
     ifaceBytes g @ [push_bit 4 (ifaceNibble h (gs \<noteq> [])) OR t] @ atrBody h gs"

definition atrBytes :: "byte \<Rightarrow> iface \<Rightarrow> (byte \<times> iface) list \<Rightarrow> byte list \<Rightarrow> byte list" where
  "atrBytes ts g gs hist =
     (let bs = (push_bit 4 (ifaceNibble g (gs \<noteq> [])) OR word_of_nat (length hist)) # atrBody g gs @ hist
      in ts # bs @ (if list_ex (\<lambda>(t, h). t \<noteq> 0) gs then [xorBytes bs] else []))"

text \<open>The TB bytes that count: those of the groups after the second, under T = 15.\<close>

definition globalTBs :: "(byte \<times> iface) list \<Rightarrow> byte list" where
  "globalTBs gs = concat (map (\<lambda>(t, h). if t = 0x0F then (case ifTB h of None \<Rightarrow> [] | Some b \<Rightarrow> [b]) else []) gs)"

lemma ifaceNibble_bits:
  "ifaceNibble g td AND 0x1 \<noteq> 0 \<longleftrightarrow> ifTA g \<noteq> None" "ifaceNibble g td AND 0x2 \<noteq> 0 \<longleftrightarrow> ifTB g \<noteq> None"
  "ifaceNibble g td AND 0x4 \<noteq> 0 \<longleftrightarrow> ifTC g \<noteq> None" "ifaceNibble g td AND 0x8 = 0 \<longleftrightarrow> \<not> td"
  by (auto simp: ifaceNibble_def)

lemma nibble_join:
  assumes "unat (t :: byte) < 16"
  shows "drop_bit 4 (push_bit 4 (ifaceNibble g td) OR t) = ifaceNibble g td"
    and "(push_bit 4 (ifaceNibble g td) OR t) AND 0x0F = t"
proof -
  have "unat t \<in> {0, 1, 2, 3, 4, 5, 6, 7, 8, 9, 10, 11, 12, 13, 14, 15}"
    using assms by (simp only: insert_iff empty_iff) arith
  moreover have "word_of_nat (unat t) = t" by simp
  ultimately have t: "drop_bit 4 t = 0" "t AND 0x0F = t"
    by (elim insertE; fastforce)+
  have "drop_bit 4 (push_bit 4 (ifaceNibble g td)) = ifaceNibble g td"
    "push_bit 4 (ifaceNibble g td) AND 0x0F = 0"
    by (simp_all add: ifaceNibble_def)
  with t show "drop_bit 4 (push_bit 4 (ifaceNibble g td) OR t) = ifaceNibble g td"
    and "(push_bit 4 (ifaceNibble g td) OR t) AND 0x0F = t"
    by (simp_all add: drop_bit_or bit.conj_disj_distrib2)
qed

text \<open>Reading one group at its place.\<close>

definition groupTB :: "byte \<Rightarrow> int \<Rightarrow> iface \<Rightarrow> byte option" where
  "groupTB t n g = (if t = 0x0F \<and> n > 2 then ifTB g else None)"

definition afterGroup :: "iface \<Rightarrow> atrScan \<Rightarrow> atrScan" where
  "afterGroup g s = s\<lparr>scanIndex := scanIndex s + length (ifaceBytes g),
     scanTB := (case groupTB (scanProtocol s) (scanGroup s) g of None \<Rightarrow> scanTB s | Some b \<Rightarrow> b),
     scanFound := (scanFound s \<or> groupTB (scanProtocol s) (scanGroup s) g \<noteq> None)\<rparr>"

lemma scan_group:
  assumes "atr = pre @ ifaceBytes g @ post" and "scanIndex s = length pre"
    and "scanY s = ifaceNibble g td"
  shows "atrRound atr s = atrReadTD atr (afterGroup g s)"
proof -
  obtain a b c where g: "g = Iface a b c" by (cases g)
  show ?thesis
    using assms ifaceNibble_bits [of g td]
    by (cases s; cases a; cases b; cases c)
      (auto simp: g atrRound_def atrSkip_def atrReadTB_def afterGroup_def groupTB_def ifaceBytes_def
        nth_append Let_def)
qed

definition afterTD :: "byte \<Rightarrow> byte \<Rightarrow> atrScan \<Rightarrow> atrScan" where
  "afterTD t y s = s\<lparr>scanIndex := scanIndex s + 1, scanY := y, scanProtocol := t,
     scanGroup := scanGroup s + 1, scanNeedsChecksum := (t \<noteq> 0 \<or> scanNeedsChecksum s)\<rparr>"

fun afterGroups :: "iface \<Rightarrow> (byte \<times> iface) list \<Rightarrow> atrScan \<Rightarrow> atrScan" where
  "afterGroups g [] s = afterGroup g s"
| "afterGroups g ((t, h) # gs) s =
     afterGroups h gs (afterTD t (ifaceNibble h (gs \<noteq> [])) (afterGroup g s))"

lemma scan_groups:
  "atr = pre @ atrBody g gs @ post \<Longrightarrow> scanIndex s = length pre \<Longrightarrow>
   scanY s = ifaceNibble g (gs \<noteq> []) \<Longrightarrow> list_all (\<lambda>(t, h). unat t < 16) gs \<Longrightarrow>
   atrLoop atr s = Some (afterGroups g gs s)"
proof (induction g gs s arbitrary: pre rule: afterGroups.induct)
  case (1 g s)
  have y: "scanY (afterGroup g s) AND 0x8 = 0"
    using 1 ifaceNibble_bits(4) [of g False] by (simp add: afterGroup_def)
  have "atrRound atr s = Some (afterGroup g s, False)"
    using scan_group [of atr pre g post s False] 1 y by (simp add: atrReadTD_def)
  then show ?case by (subst atrLoop.simps) simp
next
  case (2 g t h gs s)
  let ?td = "push_bit 4 (ifaceNibble h (gs \<noteq> [])) OR t"
  have t: "unat t < 16" using "2.prems"(4) by simp
  have y: "scanY (afterGroup g s) AND 0x8 \<noteq> 0"
    using 2 ifaceNibble_bits(4) [of g True] by (simp add: afterGroup_def)
  have i: "scanIndex (afterGroup g s) = length (pre @ ifaceBytes g)"
    using 2 by (simp add: afterGroup_def)
  have atr: "atr = (pre @ ifaceBytes g) @ ?td # atrBody h gs @ post" using "2.prems"(1) by simp
  have "atr ! scanIndex (afterGroup g s) = ?td" unfolding i atr by (simp only: nth_append_length)
  then have "atrReadTD atr (afterGroup g s) =
      Some (afterTD t (ifaceNibble h (gs \<noteq> [])) (afterGroup g s), True)"
    using y i atr by (simp add: atrReadTD_def afterTD_def Let_def nibble_join [OF t] del: drop_bit_or)
  moreover have "atrRound atr s = atrReadTD atr (afterGroup g s)"
    using 2 by (intro scan_group) auto
  moreover have "atrLoop atr (afterTD t (ifaceNibble h (gs \<noteq> [])) (afterGroup g s)) =
      Some (afterGroups h gs (afterTD t (ifaceNibble h (gs \<noteq> [])) (afterGroup g s)))"
    by (rule "2.IH" [of "pre @ ifaceBytes g @ [?td]"])
      (use 2 i in \<open>simp_all add: afterTD_def\<close>)
  ultimately show ?case by (subst atrLoop.simps) simp
qed

lemma afterGroups_index:
  "scanIndex (afterGroups g gs s) = scanIndex s + length (atrBody g gs)"
  by (induction g gs s rule: afterGroups.induct) (simp_all add: afterGroup_def afterTD_def)

lemma afterGroups_checksum:
  "scanNeedsChecksum (afterGroups g gs s) \<longleftrightarrow> scanNeedsChecksum s \<or> list_ex (\<lambda>(t, h). t \<noteq> 0) gs"
  by (induction g gs s rule: afterGroups.induct) (auto simp: afterGroup_def afterTD_def)

definition lastTB :: "byte list \<Rightarrow> byte \<times> bool \<Rightarrow> byte \<times> bool" where
  "lastTB tbs p = (if tbs = [] then p else (last tbs, True))"

lemma afterGroups_TB:
  "1 \<le> scanGroup s \<Longrightarrow>
   (scanTB (afterGroups g gs s), scanFound (afterGroups g gs s)) =
     lastTB ((case groupTB (scanProtocol s) (scanGroup s) g of None \<Rightarrow> [] | Some b \<Rightarrow> [b]) @
       globalTBs (if scanGroup s = 1 then drop 1 gs else gs)) (scanTB s, scanFound s)"
proof (induction g gs s rule: afterGroups.induct)
  case (1 g s)
  then show ?case by (auto simp: afterGroup_def lastTB_def globalTBs_def split: option.splits)
next
  case (2 g t h gs s)
  let ?s = "afterTD t (ifaceNibble h (gs \<noteq> [])) (afterGroup g s)"
  have g: "scanGroup ?s = scanGroup s + 1" "scanProtocol ?s = t" "scanTB ?s = scanTB (afterGroup g s)"
      "scanFound ?s = scanFound (afterGroup g s)"
    by (simp_all add: afterTD_def afterGroup_def)
  have IH: "(scanTB (afterGroups h gs ?s), scanFound (afterGroups h gs ?s)) =
     lastTB ((case groupTB t (scanGroup s + 1) h of None \<Rightarrow> [] | Some b \<Rightarrow> [b]) @ globalTBs gs)
       (scanTB (afterGroup g s), scanFound (afterGroup g s))"
    using "2.IH" "2.prems" unfolding g by simp
  show ?case
    using IH "2.prems"
    by (auto simp: groupTB_def afterGroup_def lastTB_def globalTBs_def split: option.splits if_splits)
qed

lemma parse_atr_bytes:
  assumes "ts = 0x3B \<or> ts = 0x3F" and "list_all (\<lambda>(t, h). unat t < 16) gs" and "length hist < 16"
  shows "atrT15GlobalTB (atrBytes ts g gs hist) = lastTB (globalTBs (drop 1 gs)) (0, False)"
proof -
  define t0 where "t0 = push_bit 4 (ifaceNibble g (gs \<noteq> [])) OR (word_of_nat (length hist) :: byte)"
  define bs where "bs = t0 # atrBody g gs @ hist"
  define ck where "ck = (if list_ex (\<lambda>(t, h). t \<noteq> 0) gs then [xorBytes bs] else [])"
  define s0 where "s0 = \<lparr>scanY = drop_bit 4 t0, scanIndex = 2, scanProtocol = 0,
            scanGroup = 1, scanTB = 0, scanFound = False, scanNeedsChecksum = False\<rparr>"
  have atr: "atrBytes ts g gs hist = ts # bs @ ck"
    by (simp add: atrBytes_def Let_def bs_def ck_def t0_def)
  have h: "unat (word_of_nat (length hist) :: byte) = length hist"
    using assms(3) by (simp add: unat_of_nat)
  note n = nibble_join [of "word_of_nat (length hist)" g "gs \<noteq> []", unfolded h, OF assms(3), folded t0_def]
  have loop: "atrLoop (ts # bs @ ck) s0 = Some (afterGroups g gs s0)"
    by (rule scan_groups [of _ "[ts, t0]" g gs "hist @ ck"])
      (use assms(2) n in \<open>simp_all add: bs_def s0_def\<close>)
  have nc: "scanNeedsChecksum (afterGroups g gs s0) \<longleftrightarrow> list_ex (\<lambda>(t, h). t \<noteq> 0) gs"
    by (simp add: afterGroups_checksum s0_def)
  have ix: "scanIndex (afterGroups g gs s0) = 2 + length (atrBody g gs)"
    by (simp add: afterGroups_index s0_def)
  have tb: "(scanTB (afterGroups g gs s0), scanFound (afterGroups g gs s0)) =
      lastTB (globalTBs (drop 1 gs)) (0, False)"
    by (simp add: afterGroups_TB s0_def groupTB_def)
  have at1: "(ts # bs @ ck) ! 1 = t0" by (simp add: bs_def)
  have "atrT15GlobalTB (ts # bs @ ck) =
      (scanTB (afterGroups g gs s0), scanFound (afterGroups g gs s0))"
    unfolding atrT15GlobalTB_def at1 n(2) h s0_def [symmetric] loop Let_def
    using assms(1) by (simp add: nc ix) (auto simp: bs_def ck_def)
  with tb show ?thesis by (simp only: atr)
qed

section \<open>Properties\<close>

text \<open>
  C18: For every well-formed answer to reset, written from its interface groups and historical bytes,
  the scan finds the last TB byte for the card that stands in a group of protocol 15 after the second.
\<close>

theorem atr_scan_parses:
  assumes "ts = 0x3B \<or> ts = 0x3F" and "list_all (\<lambda>(t, h). unat t < 16) gs" and "length hist < 16"
  shows "atrT15GlobalTB (atrBytes ts g gs hist) = lastTB (globalTBs (drop 1 gs)) (0, False)"
  by (rule parse_atr_bytes [OF assms])

theorem atr_scan_parses_witness:
  "atrT15GlobalTB (atrBytes 0x3B (Iface None None None)
     [(0, Iface None None None), (15, Iface None (Some 0x82) None)] [0x41]) = (0x82, True)"
proof -
  have "lastTB (globalTBs (drop 1 [(0, Iface None None None), (15, Iface None (Some 0x82) None)])) (0, False) =
      (0x82, True)"
    by code_simp
  with atr_scan_parses [of "0x3B" "[(0, Iface None None None), (15, Iface None (Some 0x82) None)]" "[0x41]"
      "Iface None None None"]
  show ?thesis by simp
qed

text \<open>
  An answer to reset in which one byte after the first was corrupted is never taken for a card
  that announces an eUICC in its global interface bytes.
\<close>

theorem atr_corruption_rejected:
  assumes "snd (atrT15GlobalTB atr)" and "0 < i" and "i < length atr" and "b \<noteq> atr ! i"
  shows "\<not> snd (atrT15GlobalTB (atr[i := b])) \<and> atrSupportsEUICC (atr[i := b]) = knownATR (atr[i := b])"
  using corrupted_atr_rejected [OF assms]
  by (cases "atrT15GlobalTB (atr[i := b])") (simp add: atrSupportsEUICC_def)

theorem atr_corruption_rejected_witness:
  "snd (atrT15GlobalTB [0x3B, 0x80, 0x80, 0x2F, 0x82, 0xAD]) \<and>
     \<not> snd (atrT15GlobalTB ([0x3B, 0x80, 0x80, 0x2F, 0x82, 0xAD][4 := 0x83]))"
proof -
  have ok: "snd (atrT15GlobalTB [0x3B, 0x80, 0x80, 0x2F, 0x82, 0xAD])" by code_simp
  from atr_corruption_rejected [OF this, of 4 "0x83"] ok show ?thesis by simp
qed

end
