(* ===== verification/SimRefresh.thy ===== *)
theory SimRefresh
  imports GoPrelude
begin

text \<open>
  Bringing a SIM card back after its profile changed: the QMI helpers of
  \<open>internal/pkg/modem/qmi_uim.go\<close> and the recovery loop of
  \<open>internal/pkg/modem/sim_refresh.go\<close>.

  The modem, the QMI reader, ModemManager, the clock and the context are the record
  \<open>simEnv\<close> of functions on an abstract world. The world of a run also keeps the log of
  the recovery actions the program took, in order.
\<close>

section \<open>Data\<close>

datatype portType = ModemPortTypeQmi | ModemPortTypeMbim | ModemPortTypeOther

record Modem =
  EquipmentIdentifier :: string
  objectPath :: string
  PrimaryPortType :: portType
  PrimarySimSlot :: "32 word"
  SimIdentifier :: "string option"

record SIMTarget =
  TargetSlot :: "32 word"
  TargetICCID :: string

datatype appType = ApplicationTypeUSIM | ApplicationTypeOther nat
datatype appState = ApplicationStateReady | ApplicationStateOther nat
datatype personalization = PersonalizationStateReady | PersonalizationStateOther nat
datatype cardState = CardStatePresent | CardStateOther nat

record CardApplication =
  appTypeOf :: appType
  appStateOf :: appState
  appPersonalization :: personalization
  appAID :: "byte list"

record Card =
  cardStateOf :: cardState
  Applications :: "CardApplication list"

record SimSlot =
  slotICCID :: "byte list"
  slotATR :: "byte list"

record SlotStatus =
  ActiveSlot :: byte
  Slots :: "SimSlot list"

record qmiTargetSIMState =
  supported :: bool
  matchesTarget :: bool
  recoverable :: bool
  ready :: bool
  iccidMismatch :: bool
  stateICCID :: string
  stateSlot :: byte

datatype simError =
    errModemRequired
  | TargetRequired
  | errQMIRequiredForSIMPowerCycle
  | SlotRequired
  | SlotOutOfRange "32 word"
  | OpenReader string
  | ReadCardStatus string
  | ReadSlotStatus string
  | CardMissing byte
  | USIMMissing byte
  | EmptyAID
  | ActivateProvisioning string
  | PowerOff string
  | PowerOffWait string
  | PowerOffWaitAndOn string string
  | PowerOnFailed string
  | PowerCycleFailed simError
  | DecodeICCID byte string
  | RefreshState string
  | ReloadState string
  | ContextError string

datatype slotError = QMIErrorNotSupported | SlotErrorOther string
datatype findError = ErrNotFound | FindErrorOther string

section \<open>The outside world\<close>

datatype simAction = ActPowerOff byte | ActPowerOn byte | ActProvision byte | ActRefresh | ActReload

record 'w simEnv =
  openUIM :: "byte \<Rightarrow> 'w \<Rightarrow> string option \<times> 'w"
  closeUIM :: "'w \<Rightarrow> 'w"
  powerOffSIM :: "byte \<Rightarrow> 'w \<Rightarrow> string option \<times> 'w"
  powerOnSIM :: "byte \<Rightarrow> 'w \<Rightarrow> string option \<times> 'w"
  waitFixedDelay :: "'w \<Rightarrow> string option \<times> 'w"
  readSlotStatus :: "'w \<Rightarrow> (slotError + SlotStatus) \<times> 'w"
  readCardStatus :: "'w \<Rightarrow> (string + Card list) \<times> 'w"
  changeProvisioning :: "byte \<Rightarrow> byte list \<Rightarrow> 'w \<Rightarrow> string option \<times> 'w"
  decodeICCID :: "byte list \<Rightarrow> string + string"
  findModem :: "string \<Rightarrow> 'w \<Rightarrow> (findError + Modem) \<times> 'w"
  sleepContext :: "duration \<Rightarrow> 'w \<Rightarrow> string option \<times> 'w"
  waitTick :: "'w \<Rightarrow> string option \<times> 'w"
  now :: "'w \<Rightarrow> time \<times> 'w"
  refreshModemManager :: "Modem \<Rightarrow> 'w \<Rightarrow> string option \<times> 'w"
  reloadModemManager :: "Modem \<Rightarrow> 'w \<Rightarrow> string option \<times> 'w"
  contextErr :: "'w \<Rightarrow> string option"
  isRecoverable :: "string \<Rightarrow> bool"

record 'w world =
  outside :: 'w
  actions :: "simAction list"

definition lift :: "('w \<Rightarrow> 'a \<times> 'w) \<Rightarrow> 'w world \<Rightarrow> 'a \<times> 'w world" where
  "lift f w = (let (a, o') = f (outside w) in (a, w\<lparr>outside := o'\<rparr>))"

definition act :: "simAction \<Rightarrow> ('w \<Rightarrow> 'a \<times> 'w) \<Rightarrow> 'w world \<Rightarrow> 'a \<times> 'w world" where
  "act a f w = lift f (w\<lparr>actions := actions w @ [a]\<rparr>)"

section \<open>Slots, cards and targets\<close>

definition qmiMaxSIMSlot :: "32 word" where "qmiMaxSIMSlot = 5"

definition targetValid :: "SIMTarget \<Rightarrow> bool" where
  "targetValid t \<longleftrightarrow> TargetSlot t \<noteq> 0 \<or> trim_space (TargetICCID t) \<noteq> []"

definition qmiSIMSlot :: "Modem \<Rightarrow> simError + byte" where
  "qmiSIMSlot m =
     (if PrimarySimSlot m = 0 then Inr 1
      else if PrimarySimSlot m > qmiMaxSIMSlot then Inl (SlotOutOfRange (PrimarySimSlot m))
      else Inr (ucast (PrimarySimSlot m)))"

definition qmiTargetSlot :: "Modem \<Rightarrow> SIMTarget \<Rightarrow> simError + byte" where
  "qmiTargetSlot m target =
     (if TargetSlot target \<noteq> 0
      then if TargetSlot target > qmiMaxSIMSlot then Inl (SlotOutOfRange (TargetSlot target))
           else Inr (ucast (TargetSlot target))
      else qmiSIMSlot m)"

definition currentSIMTarget :: "Modem \<Rightarrow> SIMTarget \<Rightarrow> SIMTarget" where
  "currentSIMTarget current target =
     (if targetValid target then target
      else
        let target = target\<lparr>TargetSlot := PrimarySimSlot current\<rparr>;
            target = (case SimIdentifier current of
                        None \<Rightarrow> target
                      | Some i \<Rightarrow> target\<lparr>TargetICCID := trim_space i\<rparr>)
        in if targetValid target \<or> PrimaryPortType current \<noteq> ModemPortTypeQmi then target
           else (case qmiSIMSlot current of
                   Inl e \<Rightarrow> target
                 | Inr slot \<Rightarrow> target\<lparr>TargetSlot := ucast slot\<rparr>))"

definition modemMatchesSIMTarget :: "Modem \<Rightarrow> SIMTarget \<Rightarrow> bool" where
  "modemMatchesSIMTarget m target =
     (if TargetSlot target \<noteq> 0 \<and> PrimarySimSlot m \<noteq> TargetSlot target then False
      else if TargetICCID target \<noteq> []
      then (case SimIdentifier m of
              None \<Rightarrow> False
            | Some i \<Rightarrow> trim_space i = trim_space (TargetICCID target))
      else True)"

definition modemReenumerated :: "Modem \<Rightarrow> Modem \<Rightarrow> bool" where
  "modemReenumerated current nxt \<longleftrightarrow>
     objectPath current \<noteq> [] \<and> objectPath nxt \<noteq> [] \<and> objectPath current \<noteq> objectPath nxt"

definition qmiEUICCSlot :: "SlotStatus \<Rightarrow> 32 word \<Rightarrow> byte \<Rightarrow> SimSlot option" where
  "qmiEUICCSlot status primarySlot requestedSlot =
     (let slot = (if primarySlot = 0 \<and> ActiveSlot status \<noteq> 0 then ActiveSlot status else requestedSlot);
          index = int (unat slot) - 1
      in if index < 0 \<or> index \<ge> int (length (Slots status)) then None
         else Some (Slots status ! nat index))"

definition qmiCardForSlot :: "Card list \<Rightarrow> byte \<Rightarrow> Card option" where
  "qmiCardForSlot cards slot =
     (let index = int (unat slot) - 1
      in if index < 0 \<or> index \<ge> int (length cards) then None else Some (cards ! nat index))"

definition qmiUSIMApplication :: "Card \<Rightarrow> CardApplication option" where
  "qmiUSIMApplication c = find (\<lambda>app. appTypeOf app = ApplicationTypeUSIM) (Applications c)"

definition qmiUSIMReady :: "Card \<Rightarrow> CardApplication \<Rightarrow> bool" where
  "qmiUSIMReady c app \<longleftrightarrow>
     cardStateOf c = CardStatePresent \<and> appTypeOf app = ApplicationTypeUSIM \<and>
     appStateOf app = ApplicationStateReady \<and> appPersonalization app = PersonalizationStateReady"

definition qmiUSIMPresentForSlot :: "Card list \<Rightarrow> byte \<Rightarrow> bool" where
  "qmiUSIMPresentForSlot cards slot =
     (case qmiCardForSlot cards slot of
        None \<Rightarrow> False
      | Some c \<Rightarrow> if cardStateOf c \<noteq> CardStatePresent then False
                     else qmiUSIMApplication c \<noteq> None)"

definition qmiUSIMReadyForSlot :: "Card list \<Rightarrow> byte \<Rightarrow> bool" where
  "qmiUSIMReadyForSlot cards slot =
     (case qmiCardForSlot cards slot of
        None \<Rightarrow> False
      | Some c \<Rightarrow> (case qmiUSIMApplication c of
                         None \<Rightarrow> False
                       | Some app \<Rightarrow> qmiUSIMReady c app))"

definition qmiSlotMatchesTarget :: "SlotStatus \<Rightarrow> byte \<Rightarrow> string \<Rightarrow> SIMTarget \<Rightarrow> bool" where
  "qmiSlotMatchesTarget status slot iccid target =
     (if TargetSlot target \<noteq> 0 \<and> ActiveSlot status \<noteq> slot then False
      else if TargetICCID target \<noteq> [] \<and> iccid \<noteq> trim_space (TargetICCID target) then False
      else True)"

definition qmiICCIDForSlot :: "'w simEnv \<Rightarrow> SlotStatus \<Rightarrow> byte \<Rightarrow> simError + string" where
  "qmiICCIDForSlot env status slot =
     (if slot = 0 \<or> unat slot > length (Slots status) then Inr []
      else let raw = slotICCID (Slots status ! (unat slot - 1)) in
        if raw = [] then Inr [] else map_sum (DecodeICCID slot) id (decodeICCID env raw))"

section \<open>QMI actions\<close>

text \<open>Open the reader, run the body, close the reader whatever the body returned.\<close>

definition withUIMReader ::
  "'w simEnv \<Rightarrow> byte \<Rightarrow> ('w world \<Rightarrow> (simError + 'a) \<times> 'w world) \<Rightarrow> 'w world \<Rightarrow> (simError + 'a) \<times> 'w world" where
  "withUIMReader env slot body =
     ebind (checked OpenReader (lift (openUIM env slot))) (\<lambda>_ w.
       let (r, w') = body w in (r, w'\<lparr>outside := closeUIM env (outside w')\<rparr>))"

definition qmiActivateProvisioningIfSimMissing ::
  "'w simEnv \<Rightarrow> byte \<Rightarrow> 'w world \<Rightarrow> (simError + unit) \<times> 'w world" where
  "qmiActivateProvisioningIfSimMissing env slot =
     (if slot = 0 then fail SlotRequired
      else withUIMReader env slot
        (ebind (wrapped ReadCardStatus (lift (readCardStatus env))) (\<lambda>status.
           case qmiCardForSlot status slot of
             None \<Rightarrow> fail (CardMissing slot)
           | Some c \<Rightarrow>
               (case qmiUSIMApplication c of
                  None \<Rightarrow> fail (USIMMissing slot)
                | Some app \<Rightarrow>
                    if qmiUSIMReady c app then ok ()
                    else if appAID app = [] then fail EmptyAID
                    else checked ActivateProvisioning
                      (act (ActProvision slot) (changeProvisioning env slot (appAID app)))))))"

definition qmiPowerOnSIM :: "'w simEnv \<Rightarrow> byte \<Rightarrow> 'w world \<Rightarrow> string option \<times> 'w world" where
  "qmiPowerOnSIM env slot = act (ActPowerOn slot) (powerOnSIM env slot)"

definition qmiRepowerSimCard :: "'w simEnv \<Rightarrow> byte \<Rightarrow> 'w world \<Rightarrow> (simError + unit) \<times> 'w world" where
  "qmiRepowerSimCard env slot =
     (if slot = 0 then fail SlotRequired
      else withUIMReader env slot
        (ebind (checked PowerOff (act (ActPowerOff slot) (powerOffSIM env slot))) (\<lambda>_ w.
           case lift (waitFixedDelay env) w of
             (Some e, w') \<Rightarrow>
               (case qmiPowerOnSIM env slot w' of
                  (Some p, w'') \<Rightarrow> (Inl (PowerOffWaitAndOn e p), w'')
                | (None, w'') \<Rightarrow> (Inl (PowerOffWait e), w''))
           | (None, w') \<Rightarrow> checked PowerOnFailed (qmiPowerOnSIM env slot) w')))"

text \<open>What \<open>qmiSIMStateForTarget\<close> makes of the slot status, then of the card status.\<close>

definition qmiSlotState ::
  "'w simEnv \<Rightarrow> byte \<Rightarrow> SIMTarget \<Rightarrow> slotError + SlotStatus \<Rightarrow>
   simError + (qmiTargetSIMState \<times> SlotStatus option)" where
  "qmiSlotState env slot target slotStatus =
     (let state = \<lparr>supported = True, matchesTarget = False, recoverable = False, ready = False,
                   iccidMismatch = False, stateICCID = [], stateSlot = slot\<rparr>
      in case slotStatus of
           Inl (SlotErrorOther e) \<Rightarrow> Inl (ReadSlotStatus e)
         | Inl QMIErrorNotSupported \<Rightarrow> Inr (state, None)
         | Inr status \<Rightarrow>
             rbind (qmiICCIDForSlot env status slot) (\<lambda>iccid.
               let targetICCID = trim_space (TargetICCID target)
               in Inr (state\<lparr>stateICCID := iccid,
                    matchesTarget := qmiSlotMatchesTarget status slot iccid target,
                    iccidMismatch := (targetICCID \<noteq> [] \<and> iccid \<noteq> [] \<and> iccid \<noteq> targetICCID)\<rparr>,
                  Some status)))"

definition qmiCardState ::
  "byte \<Rightarrow> SIMTarget \<Rightarrow> qmiTargetSIMState \<Rightarrow> SlotStatus option \<Rightarrow> Card list \<Rightarrow> qmiTargetSIMState" where
  "qmiCardState slot target state status cards =
     (let state = state\<lparr>ready := qmiUSIMReadyForSlot cards slot, recoverable := matchesTarget state\<rparr>;
          contradicted = (case status of
                            None \<Rightarrow> False
                          | Some st \<Rightarrow> TargetSlot target = 0 \<and> ActiveSlot st \<noteq> 0 \<and> ActiveSlot st \<noteq> slot)
      in if \<not> recoverable state \<and> qmiUSIMPresentForSlot cards slot
         then state\<lparr>recoverable := \<not> contradicted\<rparr> else state)"

definition qmiSIMStateForTarget ::
  "'w simEnv \<Rightarrow> Modem \<Rightarrow> SIMTarget \<Rightarrow> 'w world \<Rightarrow> (simError + qmiTargetSIMState) \<times> 'w world" where
  "qmiSIMStateForTarget env m target =
     (if PrimaryPortType m \<noteq> ModemPortTypeQmi
      then ok \<lparr>supported = False, matchesTarget = False, recoverable = False, ready = False,
             iccidMismatch = False, stateICCID = [], stateSlot = 0\<rparr>
      else case qmiTargetSlot m target of
        Inl e \<Rightarrow> fail e
      | Inr slot \<Rightarrow>
          withUIMReader env slot (\<lambda>w.
            let (slotStatus, w) = lift (readSlotStatus env) w
            in case qmiSlotState env slot target slotStatus of
                 Inl e \<Rightarrow> (Inl e, w)
               | Inr (state, status) \<Rightarrow>
                   ebind (wrapped ReadCardStatus (lift (readCardStatus env)))
                     (\<lambda>cards. ok (qmiCardState slot target state status cards)) w))"

section \<open>The recovery loop\<close>

text \<open>The variables of \<open>ensureSIMVisible\<close> that live across rounds.\<close>

record ensureVars =
  vCurrent :: Modem
  refreshedModemManager :: bool
  reloadedModemManager :: bool
  activatedProvisioning :: bool
  powerCycledSIM :: bool
  reenumerated :: bool
  unchangedModemSince :: time

record simRefreshResult =
  resultModem :: Modem
  ReloadObserved :: bool

datatype ensureStep = Continue ensureVars | Return "simError + simRefreshResult"

definition ignoreRecoverable ::
  "'w simEnv \<Rightarrow> (string \<Rightarrow> simError) \<Rightarrow> string option \<Rightarrow> 'w world \<Rightarrow> (simError + unit) \<times> 'w world" where
  "ignoreRecoverable env wrap err w =
     (case err of
        None \<Rightarrow> (Inr (), w)
      | Some e \<Rightarrow>
          (case contextErr env (outside w) of
             Some c \<Rightarrow> (Inl (ContextError c), w)
           | None \<Rightarrow> if isRecoverable env e then (Inr (), w) else (Inl (wrap e), w)))"

definition refreshModemManagerSIMState :: "'w simEnv \<Rightarrow> Modem \<Rightarrow> 'w world \<Rightarrow> (simError + unit) \<times> 'w world" where
  "refreshModemManagerSIMState env m w =
     (let (err, w) = act ActRefresh (refreshModemManager env m) w in ignoreRecoverable env RefreshState err w)"

definition reloadModemManagerSIMState :: "'w simEnv \<Rightarrow> Modem \<Rightarrow> 'w world \<Rightarrow> (simError + unit) \<times> 'w world" where
  "reloadModemManagerSIMState env m w =
     (let (err, w) = act ActReload (reloadModemManager env m) w in ignoreRecoverable env ReloadState err w)"

text \<open>The two flags are passed by reference in the source; here they come back in the variables.\<close>

definition refreshModemManagerSIMStateInOrder ::
  "'w simEnv \<Rightarrow> ensureVars \<Rightarrow> 'w world \<Rightarrow> (simError + bool) \<times> ensureVars \<times> 'w world" where
  "refreshModemManagerSIMStateInOrder env v w =
     (if \<not> refreshedModemManager v then
        let v = v\<lparr>refreshedModemManager := True\<rparr>;
            (r, w) = refreshModemManagerSIMState env (vCurrent v) w
        in (rbind r (\<lambda>_. Inr True), v, w)
      else if \<not> reloadedModemManager v then
        let v = v\<lparr>reloadedModemManager := True\<rparr>;
            (r, w) = reloadModemManagerSIMState env (vCurrent v) w
        in (rbind r (\<lambda>_. Inr True), v, w)
      else (Inr False, v, w))"

record modemRead =
  readModem :: Modem
  SIMVisible :: bool
  readReload :: bool

definition readCurrentModem ::
  "'w simEnv \<Rightarrow> Modem \<Rightarrow> SIMTarget \<Rightarrow> 'w world \<Rightarrow> (modemRead \<times> findError option) \<times> 'w world" where
  "readCurrentModem env current target w =
     (case lift (findModem env (EquipmentIdentifier current)) w of
        (Inl e, w') \<Rightarrow> ((\<lparr>readModem = current, SIMVisible = False, readReload = False\<rparr>, Some e), w')
      | (Inr m, w') \<Rightarrow>
          ((\<lparr>readModem = m, SIMVisible = modemMatchesSIMTarget m target,
             readReload = modemReenumerated current m\<rparr>, None), w'))"

text \<open>
  One look at the modem, which a round takes twice: a modem that is gone counts as
  re-enumerated and restarts the loop after a poll interval, a visible SIM ends it.
  \<open>Inr\<close> means that the round goes on.
\<close>

definition simVisiblePollInterval :: duration where "simVisiblePollInterval = 1000000000"
definition simSettleDelay :: duration where "simSettleDelay = 100000000"
definition simReenumerationGracePeriod :: duration where "simReenumerationGracePeriod = 1000000000"

definition ensureLook ::
  "'w simEnv \<Rightarrow> SIMTarget \<Rightarrow> ensureVars \<Rightarrow> 'w world \<Rightarrow> (ensureStep + ensureVars) \<times> 'w world" where
  "ensureLook env target v w =
     (let ((rd, err), w) = readCurrentModem env (vCurrent v) target w;
          v = (if readReload rd then v\<lparr>reenumerated := True\<rparr> else v)
      in if err = Some ErrNotFound then
           let v = v\<lparr>reenumerated := True\<rparr>
           in (case lift (sleepContext env simVisiblePollInterval) w of
                 (Some e, w) \<Rightarrow> (Inl (Return (Inl (ContextError e))), w)
               | (None, w) \<Rightarrow> (Inl (Continue v), w))
         else if SIMVisible rd then
           (Inl (Return (Inr \<lparr>resultModem = readModem rd, ReloadObserved = reenumerated v\<rparr>)), w)
         else (Inr (v\<lparr>vCurrent := readModem rd\<rparr>), w))"

text \<open>A refresh in order: an error ends the loop, a refresh restarts it.\<close>

definition ensureRefresh ::
  "'w simEnv \<Rightarrow> ensureVars \<Rightarrow> 'w world \<Rightarrow> (ensureStep + ensureVars) \<times> 'w world" where
  "ensureRefresh env v w =
     (case refreshModemManagerSIMStateInOrder env v w of
        (Inl e, v, w) \<Rightarrow> (Inl (Return (Inl e)), w)
      | (Inr refreshed, v, w) \<Rightarrow> (if refreshed then Inl (Continue v) else Inr v, w))"

definition ensureRecover ::
  "'w simEnv \<Rightarrow> SIMTarget \<Rightarrow> ensureVars \<Rightarrow> 'w world \<Rightarrow> (ensureStep + ensureVars) \<times> 'w world" where
  "ensureRecover env target v w =
     (if reenumerated v \<or> powerCycledSIM v then
        case qmiSIMStateForTarget env (vCurrent v) target w of
          (Inl qmiErr, w) \<Rightarrow> ensureRefresh env v w
        | (Inr state, w) \<Rightarrow>
            if supported state \<and> recoverable state \<and> \<not> ready state \<and> \<not> iccidMismatch state \<and>
               \<not> activatedProvisioning v then
              let v = v\<lparr>activatedProvisioning := True\<rparr>;
                  (_, w) = qmiActivateProvisioningIfSimMissing env (stateSlot state) w
              in ensureRefresh env v w
            else if supported state \<and> recoverable state \<and> \<not> ready state \<and> \<not> iccidMismatch state then
              ensureRefresh env v w
            else if supported state \<and> recoverable state \<and> ready state then ensureRefresh env v w
            else if \<not> supported state then ensureRefresh env v w
            else (Inr v, w)
      else (Inr v, w))"

definition ensureTick :: "'w simEnv \<Rightarrow> ensureVars \<Rightarrow> 'w world \<Rightarrow> ensureStep \<times> 'w world" where
  "ensureTick env v w =
     (case lift (waitTick env) w of
        (Some e, w) \<Rightarrow> (Return (Inl (ContextError e)), w)
      | (None, w) \<Rightarrow> (Continue v, w))"

text \<open>The grace period starts with the first round that would power cycle the card.\<close>

definition ensureSince :: "'w simEnv \<Rightarrow> ensureVars \<Rightarrow> 'w world \<Rightarrow> ensureVars \<times> 'w world" where
  "ensureSince env v w =
     (if unchangedModemSince v = zero_time
      then let (t, w) = lift (now env) w in (v\<lparr>unchangedModemSince := t\<rparr>, w)
      else (v, w))"

definition ensurePowerCycle ::
  "'w simEnv \<Rightarrow> SIMTarget \<Rightarrow> bool \<Rightarrow> ensureVars \<Rightarrow> 'w world \<Rightarrow> ensureStep \<times> 'w world" where
  "ensurePowerCycle env target allowFallback v w =
     (if allowFallback \<and> \<not> reenumerated v \<and> \<not> powerCycledSIM v \<and>
         PrimaryPortType (vCurrent v) = ModemPortTypeQmi then
        let (v, w) = ensureSince env v w;
            (t, w) = lift (now env) w
        in if t - unchangedModemSince v < simReenumerationGracePeriod then ensureTick env v w
           else case qmiTargetSlot (vCurrent v) target of
             Inl e \<Rightarrow> (Return (Inl e), w)
           | Inr slot \<Rightarrow>
               let v = v\<lparr>powerCycledSIM := True\<rparr> in
               (case qmiRepowerSimCard env slot w of
                  (Inl e, w) \<Rightarrow> (Return (Inl (PowerCycleFailed e)), w)
                | (Inr _, w) \<Rightarrow> (Continue v, w))
      else ensureTick env v w)"

definition ensureRound ::
  "'w simEnv \<Rightarrow> SIMTarget \<Rightarrow> bool \<Rightarrow> ensureVars \<Rightarrow> 'w world \<Rightarrow> ensureStep \<times> 'w world" where
  "ensureRound env target allowFallback v w =
     (case ensureLook env target v w of
        (Inl st, w) \<Rightarrow> (st, w)
      | (Inr v, w) \<Rightarrow>
          (case lift (sleepContext env simSettleDelay) w of
             (Some e, w) \<Rightarrow> (Return (Inl (ContextError e)), w)
           | (None, w) \<Rightarrow>
               (case ensureLook env target v w of
                  (Inl st, w) \<Rightarrow> (st, w)
                | (Inr v, w) \<Rightarrow>
                    (case ensureRecover env target v w of
                       (Inl st, w) \<Rightarrow> (st, w)
                     | (Inr v, w) \<Rightarrow> ensurePowerCycle env target allowFallback v w))))"

partial_function (option) ensureLoop ::
  "'w simEnv \<Rightarrow> SIMTarget \<Rightarrow> bool \<Rightarrow> ensureVars \<Rightarrow> 'w world \<Rightarrow>
   ((simError + simRefreshResult) \<times> 'w world) option" where
  "ensureLoop env target allowFallback v w =
     (case ensureRound env target allowFallback v w of
        (Return r, w') \<Rightarrow> Some (r, w')
      | (Continue v', w') \<Rightarrow> ensureLoop env target allowFallback v' w')"

declare ensureLoop.simps [code]

definition ensureSIMVisible ::
  "'w simEnv \<Rightarrow> Modem option \<Rightarrow> SIMTarget \<Rightarrow> bool \<Rightarrow> bool \<Rightarrow> 'w world \<Rightarrow>
   ((simError + simRefreshResult) \<times> 'w world) option" where
  "ensureSIMVisible env current target allowFallback initialPowerCycled w =
     (case current of
        None \<Rightarrow> Some (Inl errModemRequired, w)
      | Some m \<Rightarrow>
          if \<not> targetValid target then Some (Inl TargetRequired, w)
          else ensureLoop env target allowFallback
            \<lparr>vCurrent = m, refreshedModemManager = False, reloadedModemManager = False,
             activatedProvisioning = False, powerCycledSIM = initialPowerCycled, reenumerated = False,
             unchangedModemSince = zero_time\<rparr> w)"

definition powerCycleSIM ::
  "'w simEnv \<Rightarrow> Modem option \<Rightarrow> SIMTarget \<Rightarrow> 'w world \<Rightarrow> ((simError + simRefreshResult) \<times> 'w world) option" where
  "powerCycleSIM env current target w =
     (case current of
        None \<Rightarrow> Some (Inl errModemRequired, w)
      | Some m \<Rightarrow>
          let target = currentSIMTarget m target in
          if \<not> targetValid target then Some (Inl TargetRequired, w)
          else if PrimaryPortType m \<noteq> ModemPortTypeQmi then Some (Inl errQMIRequiredForSIMPowerCycle, w)
          else case qmiTargetSlot m target of
            Inl e \<Rightarrow> Some (Inl e, w)
          | Inr slot \<Rightarrow>
              (case qmiRepowerSimCard env slot w of
                 (Inl e, w) \<Rightarrow> Some (Inl (PowerCycleFailed e), w)
               | (Inr _, w) \<Rightarrow> ensureSIMVisible env (Some m) target False True w))"

section \<open>What each call adds to the log\<close>

definition adds :: "('w world \<Rightarrow> 'r \<times> 'w world) \<Rightarrow> ('r \<Rightarrow> simAction list \<Rightarrow> bool) \<Rightarrow> bool" where
  "adds m A \<longleftrightarrow> (\<forall>w r w'. m w = (r, w') \<longrightarrow> (\<exists>new. actions w' = actions w @ new \<and> A r new))"

lemma addsI:
  "(\<And>w r w'. m w = (r, w') \<Longrightarrow> \<exists>new. actions w' = actions w @ new \<and> A r new) \<Longrightarrow> adds m A"
  by (simp add: adds_def)

lemma addsD: "adds m A \<Longrightarrow> m w = (r, w') \<Longrightarrow> \<exists>new. actions w' = actions w @ new \<and> A r new"
  by (simp add: adds_def)

lemma adds_mono: "adds m A \<Longrightarrow> (\<And>r new. A r new \<Longrightarrow> B r new) \<Longrightarrow> adds m B"
  unfolding adds_def by blast

lemma adds_lift: "adds (lift f) (\<lambda>_ new. new = [])"
  by (rule addsI) (auto simp: lift_def split: prod.splits)

lemma lift_actions: "lift f w = (r, w') \<Longrightarrow> actions w' = actions w"
  using addsD [OF adds_lift] by fastforce

lemma adds_act: "adds (act a f) (\<lambda>_ new. new = [a])"
  by (rule addsI) (auto simp: act_def lift_def split: prod.splits)

lemma act_actions: "act a f w = (r, w') \<Longrightarrow> actions w' = actions w @ [a]"
  using addsD [OF adds_act] by fastforce

lemma adds_ebind:
  assumes "adds m A" and "\<And>a. adds (f a) (B a)"
    and "\<And>e new. A (Inl e) new \<Longrightarrow> C (Inl e) new"
    and "\<And>a r new new'. A (Inr a) new \<Longrightarrow> B a r new' \<Longrightarrow> C r (new @ new')"
  shows "adds (ebind m f) C"
proof (rule addsI)
  fix w r w'
  assume run: "ebind m f w = (r, w')"
  show "\<exists>new. actions w' = actions w @ new \<and> C r new"
  proof (cases "m w")
    case (Pair x w1)
    obtain new where n: "actions w1 = actions w @ new" "A x new"
      using addsD [OF assms(1) Pair] by blast
    show ?thesis
    proof (cases x)
      case (Inl e)
      with run Pair n assms(3) show ?thesis by (auto simp: ebind_def)
    next
      case (Inr a)
      with run Pair have "f a w1 = (r, w')" by (simp add: ebind_def)
      from addsD [OF assms(2) this] n Inr assms(4) show ?thesis by fastforce
    qed
  qed
qed

lemma adds_checked:
  "adds m A \<Longrightarrow> adds (checked wrap m) (\<lambda>r new. \<exists>x. r = (case x of None \<Rightarrow> Inr () | Some e \<Rightarrow> Inl (wrap e)) \<and> A x new)"
  unfolding adds_def checked_def by (fastforce split: prod.splits option.splits)

lemma adds_wrapped: "adds m A \<Longrightarrow> adds (wrapped wrap m) (\<lambda>r new. \<exists>x. r = map_sum wrap id x \<and> A x new)"
  unfolding adds_def wrapped_def by (fastforce split: prod.splits)

lemma adds_ok: "adds (ok x) (\<lambda>r new. r = Inr x \<and> new = [])"
  by (simp add: adds_def ok_def)

lemma adds_fail: "adds (fail e) (\<lambda>r new. r = Inl e \<and> new = [])"
  by (simp add: adds_def fail_def)

lemma adds_withUIMReader:
  assumes "adds body A" and "\<And>e. A (Inl (OpenReader e)) []"
  shows "adds (withUIMReader env slot body) A"
  unfolding withUIMReader_def
proof (rule adds_ebind [OF adds_checked [OF adds_lift], where B = "\<lambda>_. A"])
  show "adds (\<lambda>w. let (r, w') = body w in (r, w'\<lparr>outside := closeUIM env (outside w')\<rparr>)) A"
    using assms(1) unfolding adds_def by (fastforce split: prod.splits)
qed (use assms(2) in \<open>auto split: option.splits\<close>)

text \<open>Activating provisioning asks for one session at most.\<close>

lemma adds_provisioning:
  "adds (qmiActivateProvisioningIfSimMissing env slot) (\<lambda>_ new. new = [] \<or> new = [ActProvision slot])"
proof (cases "slot = 0")
  case False
  have step: "adds (checked ActivateProvisioning (act (ActProvision slot) (changeProvisioning env slot aid)))
      (\<lambda>_ new. new = [] \<or> new = [ActProvision slot])" for aid
    by (rule adds_mono [OF adds_checked [OF adds_act]]) auto
  have f: "adds (fail e) (\<lambda>_ new. new = [] \<or> new = [ActProvision slot])" for e
    by (rule adds_mono [OF adds_fail]) simp
  have k: "adds (ok ()) (\<lambda>_ new. new = [] \<or> new = [ActProvision slot])"
    by (rule adds_mono [OF adds_ok]) simp
  show ?thesis
    unfolding qmiActivateProvisioningIfSimMissing_def if_not_P [OF False]
    by (intro adds_withUIMReader adds_ebind [OF adds_wrapped [OF adds_lift],
          where B = "\<lambda>_ _ new. new = [] \<or> new = [ActProvision slot]"])
      (auto split: option.splits intro: step f k)
qed (simp add: qmiActivateProvisioningIfSimMissing_def adds_def fail_def)

text \<open>
  A power cycle switches the card off once; unless switching it off failed, it also asks to
  switch it on again, also when the wait in between fails.
\<close>

lemma adds_powerOn:
  "adds (checked w (qmiPowerOnSIM env slot)) (\<lambda>_ new. new = [ActPowerOn slot])"
  unfolding qmiPowerOnSIM_def by (rule adds_mono [OF adds_checked [OF adds_act]]) auto

lemma adds_repower:
  "adds (qmiRepowerSimCard env slot)
     (\<lambda>r new. new = [] \<or> new = [ActPowerOff slot, ActPowerOn slot] \<or>
        new = [ActPowerOff slot] \<and> (\<exists>e. r = Inl (PowerOff e)))"
proof (cases "slot = 0")
  case False
  have wait: "adds (\<lambda>w. case lift (waitFixedDelay env) w of
             (Some e, w') \<Rightarrow>
               (case qmiPowerOnSIM env slot w' of
                  (Some p, w'') \<Rightarrow> (Inl (PowerOffWaitAndOn e p), w'')
                | (None, w'') \<Rightarrow> (Inl (PowerOffWait e), w''))
           | (None, w') \<Rightarrow> checked PowerOnFailed (qmiPowerOnSIM env slot) w')
        (\<lambda>_ new. new = [ActPowerOn slot])" (is "adds ?m _")
  proof (rule addsI)
    fix w r w'
    assume run: "?m w = (r, w')"
    obtain x w1 where l: "lift (waitFixedDelay env) w = (x, w1)" by fastforce
    obtain y w2 where p: "qmiPowerOnSIM env slot w1 = (y, w2)" by fastforce
    have "w' = w2"
      using run l p by (cases x; cases y) (auto simp: checked_def)
    with lift_actions [OF l] act_actions [OF p [unfolded qmiPowerOnSIM_def]]
    show "\<exists>new. actions w' = actions w @ new \<and> new = [ActPowerOn slot]" by simp
  qed
  show ?thesis
    unfolding qmiRepowerSimCard_def if_not_P [OF False]
    by (intro adds_withUIMReader adds_ebind [OF adds_checked [OF adds_act] wait])
      (auto split: option.splits)
qed (simp add: qmiRepowerSimCard_def adds_def fail_def)

lemma adds_simState: "adds (qmiSIMStateForTarget env m target) (\<lambda>_ new. new = [])"
proof -
  have body: "adds (\<lambda>w.
            let (slotStatus, w) = lift (readSlotStatus env) w
            in case qmiSlotState env slot target slotStatus of
                 Inl e \<Rightarrow> (Inl e, w)
               | Inr (state, status) \<Rightarrow>
                   ebind (wrapped ReadCardStatus (lift (readCardStatus env)))
                     (\<lambda>cards. ok (qmiCardState slot target state status cards)) w) (\<lambda>_ new. new = [])"
    (is "adds ?m _") for slot
  proof (rule addsI)
    fix w r w'
    assume run: "?m w = (r, w')"
    obtain x w1 where l: "lift (readSlotStatus env) w = (x, w1)" by fastforce
    obtain y w2 where c: "lift (readCardStatus env) w1 = (y, w2)" by fastforce
    have "w' = w1 \<or> w' = w2"
      using run l c by (auto simp: Let_def ebind_def wrapped_def ok_def split: sum.splits prod.splits)
    with lift_actions [OF l] lift_actions [OF c]
    show "\<exists>new. actions w' = actions w @ new \<and> new = []" by auto
  qed
  have f: "adds (fail e) (\<lambda>_ new. new = [])" and k: "adds (ok x) (\<lambda>_ new. new = [])"
    for e :: simError and x :: qmiTargetSIMState
    by (simp_all add: adds_def fail_def ok_def)
  show ?thesis
    unfolding qmiSIMStateForTarget_def
    by (auto split: sum.splits intro: f k adds_withUIMReader [OF body [unfolded Let_def]])
qed

section \<open>The invariant of the loop\<close>

definition mmActions :: "simAction list \<Rightarrow> simAction list" where
  "mmActions log = filter (\<lambda>a. a = ActRefresh \<or> a = ActReload) log"

definition provisions :: "simAction list \<Rightarrow> nat" where
  "provisions log = length (filter (\<lambda>a. case a of ActProvision _ \<Rightarrow> True | _ \<Rightarrow> False) log)"

definition powerOffs :: "simAction list \<Rightarrow> nat" where
  "powerOffs log = length (filter (\<lambda>a. case a of ActPowerOff _ \<Rightarrow> True | _ \<Rightarrow> False) log)"

lemmas log_counts = mmActions_def provisions_def powerOffs_def

text \<open>The flags of the variables tell which actions the log holds; \<open>n\<close> bounds the power cycles.\<close>

definition flagsMatch :: "nat \<Rightarrow> ensureVars \<Rightarrow> simAction list \<Rightarrow> bool" where
  "flagsMatch n v log \<longleftrightarrow>
     (reloadedModemManager v \<longrightarrow> refreshedModemManager v) \<and>
     mmActions log = (if refreshedModemManager v then [ActRefresh] else []) @
       (if reloadedModemManager v then [ActReload] else []) \<and>
     provisions log \<le> (if activatedProvisioning v then 1 else 0) \<and>
     powerOffs log \<le> (if powerCycledSIM v then n else 0)"

text \<open>What remains of it when the loop has returned.\<close>

definition logBounded :: "nat \<Rightarrow> simAction list \<Rightarrow> bool" where
  "logBounded n log \<longleftrightarrow>
     mmActions log \<in> {[], [ActRefresh], [ActRefresh, ActReload]} \<and> provisions log \<le> 1 \<and> powerOffs log \<le> n"

lemma flagsMatch_bounded: "flagsMatch n v log \<Longrightarrow> logBounded n log"
  by (auto simp: flagsMatch_def logBounded_def split: if_splits)

definition invAt :: "nat \<Rightarrow> simAction list \<Rightarrow> ensureVars \<Rightarrow> 'w world \<Rightarrow> bool" where
  "invAt n log0 v w \<longleftrightarrow> (\<exists>log. actions w = log0 @ log \<and> flagsMatch n v log)"

definition boundedAt :: "nat \<Rightarrow> simAction list \<Rightarrow> 'w world \<Rightarrow> bool" where
  "boundedAt n log0 w \<longleftrightarrow> (\<exists>log. actions w = log0 @ log \<and> logBounded n log)"

lemma invAt_bounded: "invAt n log0 v w \<Longrightarrow> boundedAt n log0 w"
  unfolding invAt_def boundedAt_def using flagsMatch_bounded by blast

text \<open>What a part of a round leaves behind.\<close>

fun stepInv :: "nat \<Rightarrow> simAction list \<Rightarrow> ensureStep \<Rightarrow> 'w world \<Rightarrow> bool" where
  "stepInv n log0 (Continue v) w = invAt n log0 v w"
| "stepInv n log0 (Return r) w = boundedAt n log0 w"

fun partInv :: "nat \<Rightarrow> simAction list \<Rightarrow> ensureStep + ensureVars \<Rightarrow> 'w world \<Rightarrow> bool" where
  "partInv n log0 (Inl st) w = stepInv n log0 st w"
| "partInv n log0 (Inr v) w = invAt n log0 v w"

lemma invAt_vars [simp]:
  "invAt n log0 (v\<lparr>vCurrent := m\<rparr>) w = invAt n log0 v w"
  "invAt n log0 (v\<lparr>reenumerated := b\<rparr>) w = invAt n log0 v w"
  "invAt n log0 (v\<lparr>unchangedModemSince := t\<rparr>) w = invAt n log0 v w"
  by (simp_all add: invAt_def flagsMatch_def)

lemma invAt_same: "invAt n log0 v w \<Longrightarrow> actions w' = actions w \<Longrightarrow> invAt n log0 v w'"
  by (simp add: invAt_def)

lemma bounded_same: "invAt n log0 v w \<Longrightarrow> actions w' = actions w \<Longrightarrow> boundedAt n log0 w'"
  by (blast intro: invAt_bounded invAt_same)

lemma invAt_add:
  "invAt n log0 v w \<Longrightarrow> actions w' = actions w @ new \<Longrightarrow>
   (\<And>log. flagsMatch n v log \<Longrightarrow> flagsMatch n v' (log @ new)) \<Longrightarrow> invAt n log0 v' w'"
  unfolding invAt_def by fastforce

lemma readCurrentModem_actions: "readCurrentModem env m target w = (r, w') \<Longrightarrow> actions w' = actions w"
  by (auto simp: readCurrentModem_def split: prod.splits sum.splits dest: lift_actions)

lemma ensureLook_inv:
  "invAt n log0 v w \<Longrightarrow> ensureLook env target v w = (p, w') \<Longrightarrow> partInv n log0 p w'"
  unfolding ensureLook_def Let_def
  by (auto split: prod.splits if_splits option.splits dest!: lift_actions readCurrentModem_actions
      intro: bounded_same invAt_same)

lemma ignoreRecoverable_world: "ignoreRecoverable env wrap err w = (r, w') \<Longrightarrow> w' = w"
  by (auto simp: ignoreRecoverable_def split: option.splits if_splits)

lemma adds_refresh: "adds (refreshModemManagerSIMState env m) (\<lambda>_ new. new = [ActRefresh])"
  by (rule addsI) (auto simp: refreshModemManagerSIMState_def split: prod.splits
      dest!: ignoreRecoverable_world act_actions)

lemma adds_reload: "adds (reloadModemManagerSIMState env m) (\<lambda>_ new. new = [ActReload])"
  by (rule addsI) (auto simp: reloadModemManagerSIMState_def split: prod.splits
      dest!: ignoreRecoverable_world act_actions)

lemma refreshInOrder_inv:
  assumes "invAt n log0 v w" and "refreshModemManagerSIMStateInOrder env v w = (r, v', w')"
  shows "invAt n log0 v' w'"
proof -
  consider "\<not> refreshedModemManager v" | "refreshedModemManager v" "\<not> reloadedModemManager v" |
    "refreshedModemManager v" "reloadedModemManager v" by blast
  then show ?thesis
  proof cases
    case 1
    with assms(2) obtain x where x: "refreshModemManagerSIMState env (vCurrent v) w = (x, w')"
      and v: "v' = v\<lparr>refreshedModemManager := True\<rparr>"
      by (auto simp: refreshModemManagerSIMStateInOrder_def Let_def split: prod.splits)
    have "actions w' = actions w @ [ActRefresh]" using addsD [OF adds_refresh x] by simp
    with assms(1) show ?thesis
      by (rule invAt_add) (use 1 in \<open>auto simp: v flagsMatch_def log_counts\<close>)
  next
    case 2
    with assms(2) obtain x where x: "reloadModemManagerSIMState env (vCurrent v) w = (x, w')"
      and v: "v' = v\<lparr>reloadedModemManager := True\<rparr>"
      by (auto simp: refreshModemManagerSIMStateInOrder_def Let_def split: prod.splits)
    have "actions w' = actions w @ [ActReload]" using addsD [OF adds_reload x] by simp
    with assms(1) show ?thesis
      by (rule invAt_add) (use 2 in \<open>auto simp: v flagsMatch_def log_counts\<close>)
  next
    case 3
    with assms show ?thesis by (simp add: refreshModemManagerSIMStateInOrder_def)
  qed
qed

lemma ensureRefresh_inv:
  assumes "invAt n log0 v w" and "ensureRefresh env v w = (p, w')"
  shows "partInv n log0 p w'"
proof -
  obtain r v1 w1 where i: "refreshModemManagerSIMStateInOrder env v w = (r, v1, w1)"
    by (metis prod_cases3)
  have "invAt n log0 v1 w1" by (rule refreshInOrder_inv [OF assms(1) i])
  with assms(2) i show ?thesis
    by (cases r) (auto simp: ensureRefresh_def intro: invAt_bounded)
qed

lemma provision_inv:
  assumes "invAt n log0 v w" and "\<not> activatedProvisioning v"
    and "qmiActivateProvisioningIfSimMissing env slot w = (r, w')"
  shows "invAt n log0 (v\<lparr>activatedProvisioning := True\<rparr>) w'"
proof -
  obtain new where new: "actions w' = actions w @ new" "new = [] \<or> new = [ActProvision slot]"
    using addsD [OF adds_provisioning assms(3)] by blast
  from assms(1) new(1) show ?thesis
    by (rule invAt_add) (use assms(2) new(2) in \<open>auto simp: flagsMatch_def log_counts\<close>)
qed

lemma ensureRecover_inv:
  assumes "invAt n log0 v w" and "ensureRecover env target v w = (p, w')"
  shows "partInv n log0 p w'"
proof (cases "reenumerated v \<or> powerCycledSIM v")
  case True
  obtain x w1 where q: "qmiSIMStateForTarget env (vCurrent v) target w = (x, w1)" by fastforce
  have inv: "invAt n log0 v w1"
    using addsD [OF adds_simState q] assms(1) by (auto intro: invAt_same)
  show ?thesis
  proof (cases x)
    case (Inl e)
    with assms(2) True q inv show ?thesis by (auto simp: ensureRecover_def intro: ensureRefresh_inv)
  next
    case (Inr state)
    with assms(2) True q inv show ?thesis
      by (auto simp: ensureRecover_def Let_def split: if_splits prod.splits
          intro: ensureRefresh_inv ensureRefresh_inv [OF provision_inv])
  qed
qed (use assms in \<open>auto simp: ensureRecover_def\<close>)

lemma ensureTick_inv:
  "invAt n log0 v w \<Longrightarrow> ensureTick env v w = (st, w') \<Longrightarrow> stepInv n log0 st w'"
  by (auto simp: ensureTick_def split: prod.splits option.splits dest!: lift_actions
      intro: bounded_same invAt_same)

lemma repower_inv:
  assumes "invAt n log0 v w" and "\<not> powerCycledSIM v" and "0 < n"
    and "qmiRepowerSimCard env slot w = (r, w')"
  shows "invAt n log0 (v\<lparr>powerCycledSIM := True\<rparr>) w'"
proof -
  obtain new where new: "actions w' = actions w @ new"
    "new \<in> {[], [ActPowerOff slot, ActPowerOn slot], [ActPowerOff slot]}"
    using addsD [OF adds_repower assms(4)] by blast
  from assms(1) new(1) show ?thesis
    by (rule invAt_add) (use assms(2,3) new(2) in \<open>auto simp: flagsMatch_def log_counts\<close>)
qed

lemma ensurePowerCycle_inv:
  assumes "invAt n log0 v w" and "allow \<Longrightarrow> \<not> powerCycledSIM v \<Longrightarrow> 0 < n"
    and "ensurePowerCycle env target allow v w = (st, w')"
  shows "stepInv n log0 st w'"
proof (cases "allow \<and> \<not> reenumerated v \<and> \<not> powerCycledSIM v \<and> PrimaryPortType (vCurrent v) = ModemPortTypeQmi")
  case True
  obtain v1 w1 where c: "ensureSince env v w = (v1, w1)" by fastforce
  have v1: "invAt n log0 v1 w1 \<and> powerCycledSIM v1 = powerCycledSIM v"
    using c assms(1) by (auto simp: ensureSince_def split: if_splits prod.splits
        dest!: lift_actions intro: invAt_same)
  obtain t w2 where t: "lift (now env) w1 = (t, w2)" by fastforce
  have inv: "invAt n log0 v1 w2" using v1 lift_actions [OF t] by (blast intro: invAt_same)
  note run = assms(3) [unfolded ensurePowerCycle_def if_P [OF True] c Let_def case_prod_conv t]
  show ?thesis
  proof (cases "t - unchangedModemSince v1 < simReenumerationGracePeriod")
    case True
    with run have "ensureTick env v1 w2 = (st, w')" by simp
    with inv show ?thesis by (rule ensureTick_inv)
  next
    case late: False
    show ?thesis
    proof (cases "qmiTargetSlot (vCurrent v1) target")
      case (Inl e)
      with run late inv show ?thesis by (auto simp: invAt_bounded)
    next
      case (Inr slot)
      obtain r w3 where cycle: "qmiRepowerSimCard env slot w2 = (r, w3)" by fastforce
      have "invAt n log0 (v1\<lparr>powerCycledSIM := True\<rparr>) w3"
        by (rule repower_inv [OF inv _ _ cycle]) (use v1 True assms(2) in simp_all)
      with run late Inr cycle show ?thesis
        by (cases r) (auto intro: invAt_bounded)
    qed
  qed
next
  case False
  with assms(3) have "ensureTick env v w = (st, w')" unfolding ensurePowerCycle_def by (simp only: if_False)
  with assms(1) show ?thesis by (rule ensureTick_inv)
qed

lemma round_pieces_inv:
  assumes "invAt n log0 v w" and "allow \<Longrightarrow> 0 < n" and "ensureRound env target allow v w = (st, w')"
  shows "stepInv n log0 st w'"
proof -
  obtain p1 w1 where l1: "ensureLook env target v w = (p1, w1)" by fastforce
  note i1 = ensureLook_inv [OF assms(1) l1]
  show ?thesis
  proof (cases p1)
    case (Inl s)
    with assms(3) l1 i1 show ?thesis by (simp add: ensureRound_def)
  next
    case r1: (Inr v1)
    obtain x w2 where sl: "lift (sleepContext env simSettleDelay) w1 = (x, w2)" by fastforce
    have i2: "invAt n log0 v1 w2" using i1 r1 lift_actions [OF sl] by (simp add: invAt_def)
    obtain p3 w3 where l3: "ensureLook env target v1 w2 = (p3, w3)" by fastforce
    note i3 = ensureLook_inv [OF i2 l3]
    show ?thesis
    proof (cases p3)
      case (Inl s)
      with assms(3) l1 r1 sl l3 i2 i3 show ?thesis
        by (auto simp: ensureRound_def split: option.splits intro: invAt_bounded)
    next
      case r3: (Inr v3)
      obtain p4 w4 where l4: "ensureRecover env target v3 w3 = (p4, w4)" by fastforce
      have i4: "partInv n log0 p4 w4" using ensureRecover_inv [OF _ l4] i3 r3 by simp
      show ?thesis
      proof (cases x)
        case (Some e)
        with assms(3) l1 r1 sl i2 show ?thesis by (auto simp: ensureRound_def intro: invAt_bounded)
      next
        case None
        have run: "(case p4 of Inl st \<Rightarrow> (st, w4) | Inr v \<Rightarrow> ensurePowerCycle env target allow v w4) = (st, w')"
          using assms(3) l1 r1 sl l3 r3 l4 None by (simp add: ensureRound_def)
        show ?thesis
        proof (cases p4)
          case (Inl s)
          with run i4 show ?thesis by auto
        next
          case (Inr v4)
          with run have "ensurePowerCycle env target allow v4 w4 = (st, w')" by simp
          moreover have "invAt n log0 v4 w4" using i4 Inr by simp
          ultimately show ?thesis using assms(2) by (blast intro: ensurePowerCycle_inv)
        qed
      qed
    qed
  qed
qed

lemma ensureLoop_bounded:
  "ensureLoop env target allow v w = Some rw \<Longrightarrow>
   (allow \<longrightarrow> 0 < n) \<longrightarrow> invAt n log0 v w \<longrightarrow> boundedAt n log0 (snd rw)"
proof (erule ensureLoop.raw_induct [where P = "\<lambda>env target allow v w rw.
    (allow \<longrightarrow> 0 < n) \<longrightarrow> invAt n log0 v w \<longrightarrow> boundedAt n log0 (snd rw)", rotated], intro impI)
  fix loop env target allow v and w :: "'a world" and rw
  assume IH: "\<And>env target allow v w rw. loop env target allow v w = Some rw \<Longrightarrow>
      (allow \<longrightarrow> 0 < n) \<longrightarrow> invAt n log0 v w \<longrightarrow> boundedAt n log0 (snd rw)"
    and run: "(case ensureRound env target allow v w of
        (Continue v', w') \<Rightarrow> loop env target allow v' w' | (Return r, w') \<Rightarrow> Some (r, w')) = Some rw"
    and n: "allow \<longrightarrow> 0 < n" and inv: "invAt n log0 v w"
  obtain st w1 where r: "ensureRound env target allow v w = (st, w1)" by fastforce
  note step = round_pieces_inv [OF inv _ r]
  show "boundedAt n log0 (snd rw)"
  proof (cases st)
    case (Return x)
    with run r step n show ?thesis by auto
  next
    case (Continue v1)
    with run r have "loop env target allow v1 w1 = Some rw" by simp
    with IH Continue step n show ?thesis by simp
  qed
qed

text \<open>The two entry points.\<close>

lemma ensureSIMVisible_bounded:
  assumes "ensureSIMVisible env current target allow init w = Some (r, w')"
  shows "boundedAt (if allow then 1 else 0) (actions w) w'"
proof -
  have trivial: "boundedAt n (actions w) w" for n
    by (simp add: boundedAt_def logBounded_def log_counts)
  have start: "invAt n (actions w) \<lparr>vCurrent = m, refreshedModemManager = False,
      reloadedModemManager = False, activatedProvisioning = False, powerCycledSIM = init,
      reenumerated = False, unchangedModemSince = zero_time\<rparr> w" for n m
    by (simp add: invAt_def flagsMatch_def log_counts)
  show ?thesis
    using assms trivial ensureLoop_bounded [where n = "if allow then 1 else 0", OF _] start
    by (fastforce simp: ensureSIMVisible_def split: option.splits if_splits)
qed

lemma powerCycleSIM_log:
  assumes "powerCycleSIM env current target w = Some (r, w')"
  shows "\<exists>log. actions w' = actions w @ log \<and> logBounded 1 log"
proof -
  have nil: "logBounded 1 []" by (simp add: logBounded_def log_counts)
  show ?thesis
  proof (cases "\<exists>m slot w1. current = Some m \<and> targetValid (currentSIMTarget m target) \<and>
      qmiRepowerSimCard env slot w = (Inr (), w1) \<and>
      ensureSIMVisible env (Some m) (currentSIMTarget m target) False True w1 = Some (r, w')")
    case True
    then obtain m slot w1 where on: "qmiRepowerSimCard env slot w = (Inr (), w1)"
      and loop: "ensureSIMVisible env (Some m) (currentSIMTarget m target) False True w1 = Some (r, w')"
      by blast
    obtain new where "actions w1 = actions w @ new" "new = [] \<or> new = [ActPowerOff slot, ActPowerOn slot]"
      using addsD [OF adds_repower on] by auto
    moreover obtain log where "actions w' = actions w1 @ log" "logBounded 0 log"
      using ensureSIMVisible_bounded [OF loop] by (auto simp: boundedAt_def)
    ultimately show ?thesis by (auto simp: logBounded_def log_counts)
  next
    case False
    with assms nil obtain x slot where "w' = w \<or> qmiRepowerSimCard env slot w = (x, w')"
      by (auto simp: powerCycleSIM_def Let_def split: option.splits if_splits sum.splits prod.splits)
    then show ?thesis
    proof
      assume "qmiRepowerSimCard env slot w = (x, w')"
      from addsD [OF adds_repower this] show ?thesis by (auto simp: logBounded_def log_counts)
    qed (use nil in simp)
  qed
qed

text \<open>A modem that is returned shows the SIM that was asked for.\<close>

definition returnsVisible :: "SIMTarget \<Rightarrow> ensureStep \<Rightarrow> bool" where
  "returnsVisible target st \<longleftrightarrow>
     (case st of Return (Inr res) \<Rightarrow> modemMatchesSIMTarget (resultModem res) target | _ \<Rightarrow> True)"

lemma returnsVisible_simps [simp]:
  "returnsVisible target (Continue v)" "returnsVisible target (Return (Inl e))"
  "returnsVisible target (Return (Inr res)) = modemMatchesSIMTarget (resultModem res) target"
  by (simp_all add: returnsVisible_def)

lemma ensureLook_visible:
  "ensureLook env target v w = (Inl st, w') \<Longrightarrow> returnsVisible target st"
  by (auto simp: ensureLook_def readCurrentModem_def Let_def split: prod.splits sum.splits if_splits option.splits)

lemma ensureRefresh_visible: "ensureRefresh env v w = (Inl st, w') \<Longrightarrow> returnsVisible target st"
  by (auto simp: ensureRefresh_def split: prod.splits sum.splits if_splits)

lemma ensureRecover_visible: "ensureRecover env target v w = (Inl st, w') \<Longrightarrow> returnsVisible target st"
  by (auto simp: ensureRecover_def Let_def split: prod.splits sum.splits if_splits
      dest: ensureRefresh_visible)

lemma ensureTick_visible: "ensureTick env v w = (st, w') \<Longrightarrow> returnsVisible target st"
  by (auto simp: ensureTick_def split: prod.splits option.splits)

lemma ensurePowerCycle_visible:
  "ensurePowerCycle env target allow v w = (st, w') \<Longrightarrow> returnsVisible target st"
  by (auto simp: ensurePowerCycle_def Let_def split: prod.splits sum.splits if_splits
      dest: ensureTick_visible)

lemma ensureRound_visible:
  "ensureRound env target allow v w = (st, w') \<Longrightarrow> returnsVisible target st"
  unfolding ensureRound_def
  by (auto split: prod.splits sum.splits option.splits
      dest: ensureLook_visible ensureRecover_visible ensurePowerCycle_visible)

lemma ensureLoop_visible:
  "ensureLoop env target allow v w = Some rw \<Longrightarrow> returnsVisible target (Return (fst rw))"
proof (erule ensureLoop.raw_induct [where P = "\<lambda>env target allow v w rw.
    returnsVisible target (Return (fst rw))", rotated])
  fix loop env target allow v and w :: "'a world" and rw
  assume IH: "\<And>env target allow v w rw. loop env target allow v w = Some rw \<Longrightarrow>
      returnsVisible target (Return (fst rw))"
    and run: "(case ensureRound env target allow v w of
        (Continue v', w') \<Rightarrow> loop env target allow v' w' | (Return r, w') \<Rightarrow> Some (r, w')) = Some rw"
  obtain st w1 where r: "ensureRound env target allow v w = (st, w1)" by fastforce
  with ensureRound_visible [OF r] run IH show "returnsVisible target (Return (fst rw))"
    by (cases st) auto
qed

section \<open>The loop ends with its context\<close>

text \<open>
  A context with a deadline: \<open>budget\<close> bounds the sleeps that can still succeed. No call
  gives time back, and a sleep that succeeds takes some.
\<close>

definition calm :: "('w \<Rightarrow> nat) \<Rightarrow> ('w world \<Rightarrow> 'r \<times> 'w world) \<Rightarrow> bool" where
  "calm b m \<longleftrightarrow> (\<forall>w. b (outside (snd (m w))) \<le> b (outside w))"

definition deadline :: "'w simEnv \<Rightarrow> ('w \<Rightarrow> nat) \<Rightarrow> bool" where
  "deadline env b \<longleftrightarrow>
     (\<forall>slot o'. b (snd (openUIM env slot o')) \<le> b o') \<and> (\<forall>o'. b (closeUIM env o') \<le> b o') \<and>
     (\<forall>slot o'. b (snd (powerOffSIM env slot o')) \<le> b o') \<and> (\<forall>slot o'. b (snd (powerOnSIM env slot o')) \<le> b o') \<and>
     (\<forall>o'. b (snd (waitFixedDelay env o')) \<le> b o') \<and> (\<forall>o'. b (snd (readSlotStatus env o')) \<le> b o') \<and>
     (\<forall>o'. b (snd (readCardStatus env o')) \<le> b o') \<and>
     (\<forall>slot aid o'. b (snd (changeProvisioning env slot aid o')) \<le> b o') \<and>
     (\<forall>i o'. b (snd (findModem env i o')) \<le> b o') \<and> (\<forall>o'. b (snd (waitTick env o')) \<le> b o') \<and>
     (\<forall>o'. b (snd (now env o')) \<le> b o') \<and> (\<forall>m o'. b (snd (refreshModemManager env m o')) \<le> b o') \<and>
     (\<forall>m o'. b (snd (reloadModemManager env m o')) \<le> b o') \<and>
     (\<forall>d o'. b (snd (sleepContext env d o')) \<le> b o') \<and>
     (\<forall>d o'. fst (sleepContext env d o') = None \<longrightarrow> b (snd (sleepContext env d o')) < b o')"

lemma calmD: "calm b m \<Longrightarrow> m w = (r, w') \<Longrightarrow> b (outside w') \<le> b (outside w)"
  unfolding calm_def by (metis snd_conv)

lemma calm_lift: "(\<And>o'. b (snd (f o')) \<le> b o') \<Longrightarrow> calm b (lift f)"
  by (simp add: calm_def lift_def split: prod.split) (metis snd_conv)

lemma calm_act: "(\<And>o'. b (snd (f o')) \<le> b o') \<Longrightarrow> calm b (act a f)"
  by (simp add: calm_def act_def lift_def split: prod.split) (metis snd_conv)

lemma calm_ebind: "calm b m \<Longrightarrow> (\<And>a. calm b (f a)) \<Longrightarrow> calm b (ebind m f)"
  unfolding calm_def ebind_def by (auto split: prod.splits sum.splits) (metis order_trans snd_conv)+

lemma calm_checked: "calm b m \<Longrightarrow> calm b (checked wrap m)"
  unfolding calm_def checked_def by (auto split: prod.splits option.splits) (metis snd_conv)+

lemma calm_wrapped: "calm b m \<Longrightarrow> calm b (wrapped wrap m)"
  unfolding calm_def wrapped_def by (auto split: prod.splits) (metis snd_conv)+

lemma calm_ok [simp]: "calm b (ok x)" "calm b (fail e)"
  by (simp_all add: calm_def ok_def fail_def)

lemma calm_withUIM:
  assumes dl: "deadline env b" and body: "calm b body"
  shows "calm b (withUIMReader env slot body)"
proof -
  have "calm b (\<lambda>w. let (r, w') = body w in (r, w'\<lparr>outside := closeUIM env (outside w')\<rparr>))"
    unfolding calm_def
  proof
    fix w
    obtain r w1 where r: "body w = (r, w1)" by fastforce
    have "b (closeUIM env (outside w1)) \<le> b (outside w1)" using dl by (simp add: deadline_def)
    with calmD [OF body r] r
    show "b (outside (snd (let (r, w') = body w in (r, w'\<lparr>outside := closeUIM env (outside w')\<rparr>)))) \<le> b (outside w)"
      by simp
  qed
  moreover have "calm b (checked OpenReader (lift (openUIM env slot)))"
    using dl by (intro calm_checked calm_lift) (simp add: deadline_def)
  ultimately show ?thesis unfolding withUIMReader_def by (intro calm_ebind)
qed

lemma calm_calls:
  assumes "deadline env b"
  shows "calm b (lift (readSlotStatus env))" "calm b (lift (readCardStatus env))"
    "calm b (lift (waitFixedDelay env))" "calm b (lift (findModem env i))" "calm b (lift (waitTick env))"
    "calm b (lift (now env))" "calm b (lift (sleepContext env d))"
    "calm b (act ActRefresh (refreshModemManager env m))" "calm b (act ActReload (reloadModemManager env m))"
    "calm b (act x (powerOffSIM env slot))" "calm b (qmiPowerOnSIM env slot)"
    "calm b (act x (changeProvisioning env slot aid))"
  using assms unfolding qmiPowerOnSIM_def by (auto simp: deadline_def intro!: calm_lift calm_act)

lemma calm_provisioning: "deadline env b \<Longrightarrow> calm b (qmiActivateProvisioningIfSimMissing env slot)"
  unfolding qmiActivateProvisioningIfSimMissing_def
  by (auto split: option.splits intro!: calm_withUIM calm_ebind calm_wrapped calm_checked calm_calls)

lemma calm_repower:
  assumes dl: "deadline env b"
  shows "calm b (qmiRepowerSimCard env slot)"
proof -
  have "calm b (\<lambda>w. case lift (waitFixedDelay env) w of
             (Some e, w') \<Rightarrow>
               (case qmiPowerOnSIM env slot w' of
                  (Some p, w'') \<Rightarrow> (Inl (PowerOffWaitAndOn e p), w'')
                | (None, w'') \<Rightarrow> (Inl (PowerOffWait e), w''))
           | (None, w') \<Rightarrow> checked PowerOnFailed (qmiPowerOnSIM env slot) w')" (is "calm b ?m")
    unfolding calm_def
  proof
    fix w
    obtain x w1 where l: "lift (waitFixedDelay env) w = (x, w1)" by fastforce
    obtain y w2 where p: "qmiPowerOnSIM env slot w1 = (y, w2)" by fastforce
    have "snd (?m w) = w2" using l p by (cases x; cases y) (auto simp: checked_def)
    then show "b (outside (snd (?m w))) \<le> b (outside w)"
      using calmD [OF calm_calls(3) [OF dl] l] calmD [OF calm_calls(11) [OF dl] p] by simp
  qed
  then show ?thesis
    unfolding qmiRepowerSimCard_def
    by (auto intro!: calm_withUIM [OF dl] calm_ebind calm_checked calm_calls [OF dl])
qed

lemma calm_simState:
  assumes dl: "deadline env b"
  shows "calm b (qmiSIMStateForTarget env m target)"
proof -
  have "calm b (\<lambda>w.
            let (slotStatus, w) = lift (readSlotStatus env) w
            in case qmiSlotState env slot target slotStatus of
                 Inl e \<Rightarrow> (Inl e, w)
               | Inr (state, status) \<Rightarrow>
                   ebind (wrapped ReadCardStatus (lift (readCardStatus env)))
                     (\<lambda>cards. ok (qmiCardState slot target state status cards)) w)" (is "calm b ?m") for slot
    unfolding calm_def
  proof
    fix w
    obtain x w1 where l: "lift (readSlotStatus env) w = (x, w1)" by fastforce
    obtain y w2 where c: "lift (readCardStatus env) w1 = (y, w2)" by fastforce
    have "snd (?m w) = w1 \<or> snd (?m w) = w2"
      using l c by (auto simp: ebind_def wrapped_def ok_def split: sum.splits)
    then show "b (outside (snd (?m w))) \<le> b (outside w)"
      using calmD [OF calm_calls(1) [OF dl] l] calmD [OF calm_calls(2) [OF dl] c] by auto
  qed
  then show ?thesis
    unfolding qmiSIMStateForTarget_def
    by (auto split: sum.splits intro!: calm_withUIM [OF dl])
qed

text \<open>Every part of a round is calm, and a round that goes on has slept.\<close>

lemma refreshInOrder_calm:
  "deadline env b \<Longrightarrow> refreshModemManagerSIMStateInOrder env v w = (r, v', w') \<Longrightarrow> b (outside w') \<le> b (outside w)"
  by (auto simp: refreshModemManagerSIMStateInOrder_def refreshModemManagerSIMState_def
      reloadModemManagerSIMState_def Let_def split: if_splits prod.splits
      dest: ignoreRecoverable_world calmD [OF calm_calls(8)] calmD [OF calm_calls(9)])

lemma ensureRefresh_calm:
  "deadline env b \<Longrightarrow> ensureRefresh env v w = (p, w') \<Longrightarrow> b (outside w') \<le> b (outside w)"
  by (auto simp: ensureRefresh_def split: prod.splits sum.splits dest!: refreshInOrder_calm)

lemma ensureRecover_calm:
  assumes dl: "deadline env b" and run: "ensureRecover env target v w = (p, w')"
  shows "b (outside w') \<le> b (outside w)"
proof (cases "reenumerated v \<or> powerCycledSIM v")
  case True
  obtain x w1 where s: "qmiSIMStateForTarget env (vCurrent v) target w = (x, w1)" by fastforce
  note cs = calmD [OF calm_simState [OF dl] s] and cr = ensureRefresh_calm [OF dl]
    and cp = calmD [OF calm_provisioning [OF dl]]
  from run True s show ?thesis
    by (cases x) (fastforce simp: ensureRecover_def Let_def split: prod.splits if_splits
        dest!: cr cp intro: order_trans [OF _ cs] order_trans)+
next
  case False
  with run show ?thesis by (simp add: ensureRecover_def)
qed

lemma ensureTick_calm: "deadline env b \<Longrightarrow> ensureTick env v w = (st, w') \<Longrightarrow> b (outside w') \<le> b (outside w)"
  by (auto simp: ensureTick_def split: prod.splits option.splits dest!: calmD [OF calm_calls(5)])

lemma ensureSince_calm: "deadline env b \<Longrightarrow> ensureSince env v w = (v', w') \<Longrightarrow> b (outside w') \<le> b (outside w)"
  by (auto simp: ensureSince_def Let_def split: prod.splits if_splits dest!: calmD [OF calm_calls(6)])

lemma ensurePowerCycle_calm:
  assumes dl: "deadline env b" and run: "ensurePowerCycle env target allow v w = (st, w')"
  shows "b (outside w') \<le> b (outside w)"
proof -
  obtain v1 w1 where s: "ensureSince env v w = (v1, w1)" by fastforce
  obtain t w2 where n: "lift (now env) w1 = (t, w2)" by fastforce
  note c = ensureSince_calm [OF dl s] calmD [OF calm_calls(6) [OF dl] n]
  have "w' = w2 \<or> (\<exists>v w3. w3 \<in> {w, w2} \<and> ensureTick env v w3 = (st, w')) \<or>
      (\<exists>slot x. qmiRepowerSimCard env slot w2 = (x, w'))"
    using run s n by (auto simp: ensurePowerCycle_def Let_def split: if_splits sum.splits prod.splits)
  then show ?thesis
    using c ensureTick_calm [OF dl] calmD [OF calm_repower [OF dl]] by (auto; fastforce intro: order_trans)
qed

lemma sleep_takes:
  "deadline env b \<Longrightarrow> lift (sleepContext env d) w = (None, w') \<Longrightarrow> b (outside w') < b (outside w)"
  by (auto simp: deadline_def lift_def split: prod.splits) (metis fst_conv snd_conv)

lemma ensureLook_progress:
  assumes dl: "deadline env b" and run: "ensureLook env target v w = (p, w')"
  shows "b (outside w') \<le> b (outside w)" and "p = Inl (Continue v') \<Longrightarrow> b (outside w') < b (outside w)"
proof -
  obtain rd err w1 where r: "readCurrentModem env (vCurrent v) target w = ((rd, err), w1)" by (metis surj_pair)
  obtain x w2 where f: "lift (findModem env (EquipmentIdentifier (vCurrent v))) w = (x, w2)" by fastforce
  have "w1 = w2" using r f by (cases x) (auto simp: readCurrentModem_def)
  then have c: "b (outside w1) \<le> b (outside w)" using calmD [OF calm_calls(4) [OF dl] f] by simp
  obtain y w3 where s: "lift (sleepContext env simVisiblePollInterval) w1 = (y, w3)" by fastforce
  have cs: "b (outside w3) \<le> b (outside w1)" "y = None \<Longrightarrow> b (outside w3) < b (outside w1)"
    using calmD [OF calm_calls(7) [OF dl] s] sleep_takes [OF dl] s by auto
  have out: "w' = w1 \<and> (\<forall>v'. p \<noteq> Inl (Continue v')) \<or> w' = w3 \<and> (y = None \<or> (\<forall>v'. p \<noteq> Inl (Continue v')))"
    using run r s by (auto simp: ensureLook_def Let_def split: if_splits option.splits)
  then show "b (outside w') \<le> b (outside w)" using c cs by auto
  show "b (outside w') < b (outside w)" if "p = Inl (Continue v')" using out that c cs by auto
qed

lemma ensureRound_progress:
  assumes dl: "deadline env b" and run: "ensureRound env target allow v w = (Continue v', w')"
  shows "b (outside w') < b (outside w)"
proof -
  obtain p1 w1 where l1: "ensureLook env target v w = (p1, w1)" by fastforce
  note c1 = ensureLook_progress [OF dl l1]
  show ?thesis
  proof (cases p1)
    case (Inl st)
    then show ?thesis using run l1 c1(2) [of v'] by (simp add: ensureRound_def)
  next
    case (Inr v1)
    obtain x w2 where s: "lift (sleepContext env simSettleDelay) w1 = (x, w2)" by fastforce
    have x: "x = None" using run l1 Inr s by (cases x) (auto simp: ensureRound_def)
    have c2: "b (outside w2) < b (outside w1)" using sleep_takes [OF dl] s x by simp
    obtain p3 w3 where l2: "ensureLook env target v1 w2 = (p3, w3)" by fastforce
    note c3 = ensureLook_progress(1) [OF dl l2]
    have "b (outside w') \<le> b (outside w3)"
      using run l1 Inr s x l2
      by (auto simp: ensureRound_def split: sum.splits prod.splits
          dest!: ensureRecover_calm [OF dl] ensurePowerCycle_calm [OF dl])
    then show ?thesis using c1(1) c2 c3 by simp
  qed
qed

lemma ensureLoop_ends:
  "deadline env b \<Longrightarrow> \<exists>rw. ensureLoop env target allow v w = Some rw"
proof (induction "b (outside w)" arbitrary: v w rule: less_induct)
  case less
  obtain st w' where r: "ensureRound env target allow v w = (st, w')" by fastforce
  show ?case
  proof (cases st)
    case (Continue v')
    with less.hyps [OF _ less.prems] ensureRound_progress [OF less.prems] r
    show ?thesis by (subst ensureLoop.simps) simp
  next
    case (Return x)
    with r show ?thesis by (subst ensureLoop.simps) simp
  qed
qed

lemma ensureSIMVisible_ends:
  "deadline env b \<Longrightarrow> \<exists>rw. ensureSIMVisible env current target allow init w = Some rw"
  using ensureLoop_ends [of env b] by (auto simp: ensureSIMVisible_def split: option.splits)

section \<open>Properties\<close>

text \<open>An outside world for the examples: a number of sleeps until the deadline, and a modem whose SIM never shows.\<close>

definition exampleModem :: Modem where
  "exampleModem = \<lparr>EquipmentIdentifier = ''m'', objectPath = ''/1'', PrimaryPortType = ModemPortTypeQmi,
     PrimarySimSlot = 1, SimIdentifier = None\<rparr>"

definition exampleEnv :: "nat simEnv" where
  "exampleEnv = \<lparr>openUIM = \<lambda>_ n. (None, n), closeUIM = \<lambda>n. n, powerOffSIM = \<lambda>_ n. (None, n),
     powerOnSIM = \<lambda>_ n. (None, n), waitFixedDelay = \<lambda>n. (None, n),
     readSlotStatus = \<lambda>n. (Inl QMIErrorNotSupported, n), readCardStatus = \<lambda>n. (Inr [], n),
     changeProvisioning = \<lambda>_ _ n. (None, n), decodeICCID = \<lambda>_. Inr [],
     findModem = \<lambda>_ n. (Inr exampleModem, n),
     sleepContext = \<lambda>_ n. (if n = 0 then (Some ''deadline'', 0) else (None, n - 1)),
     waitTick = \<lambda>n. (None, n), now = \<lambda>n. (20000000000 - 1000000000 * int n, n),
     refreshModemManager = \<lambda>_ n. (None, n), reloadModemManager = \<lambda>_ n. (None, n),
     contextErr = \<lambda>n. None, isRecoverable = \<lambda>_. True\<rparr>"

text \<open>
  A power cycle of the card that was switched off also asks to switch it on, also when the
  wait in between fails: it logs nothing, or off and on, or off alone because switching off failed.
\<close>

theorem repower_switches_on:
  "\<exists>new. actions (snd (qmiRepowerSimCard env slot w)) = actions w @ new \<and>
     (new = [] \<or> new = [ActPowerOff slot, ActPowerOn slot] \<or>
      new = [ActPowerOff slot] \<and> (\<exists>e. fst (qmiRepowerSimCard env slot w) = Inl (PowerOff e)))"
  using addsD [OF adds_repower, of env slot w] by (metis prod.collapse)

text \<open>
  Waiting for a SIM takes each recovery action at most once, and in order: it refreshes
  ModemManager before it reloads it, activates provisioning at most once and power cycles the card at
  most once, and only when the caller allows it.
\<close>

theorem ensureSIMVisible_escalation:
  assumes "ensureSIMVisible env current target allow init w = Some (r, w')"
  shows "\<exists>log. actions w' = actions w @ log \<and>
    filter (\<lambda>a. a = ActRefresh \<or> a = ActReload) log \<in> {[], [ActRefresh], [ActRefresh, ActReload]} \<and>
    length (filter (\<lambda>a. \<exists>s. a = ActProvision s) log) \<le> 1 \<and>
    length (filter (\<lambda>a. \<exists>s. a = ActPowerOff s) log) \<le> (if allow then 1 else 0)"
proof -
  have "(\<lambda>a. case a of ActProvision _ \<Rightarrow> True | _ \<Rightarrow> False) = (\<lambda>a. \<exists>s. a = ActProvision s)"
    "(\<lambda>a. case a of ActPowerOff _ \<Rightarrow> True | _ \<Rightarrow> False) = (\<lambda>a. \<exists>s. a = ActPowerOff s)"
    by (auto simp: fun_eq_iff split: simAction.splits)
  then show ?thesis
    using ensureSIMVisible_bounded [OF assms]
    by (simp add: boundedAt_def logBounded_def log_counts)
qed

theorem ensureSIMVisible_escalation_witness:
  "\<exists>r w'. ensureSIMVisible exampleEnv (Some exampleModem) \<lparr>TargetSlot = 1, TargetICCID = ''89''\<rparr> True False
       \<lparr>outside = 6, actions = []\<rparr> = Some (r, w') \<and>
     length (filter (\<lambda>a. \<exists>s. a = ActPowerOff s) (actions w')) \<le> 1"
proof -
  obtain r w' where run: "ensureSIMVisible exampleEnv (Some exampleModem) \<lparr>TargetSlot = 1, TargetICCID = ''89''\<rparr>
      True False \<lparr>outside = 6, actions = []\<rparr> = Some (r, w')"
    using ensureSIMVisible_ends [of exampleEnv id] by (fastforce simp: deadline_def exampleEnv_def)
  from ensureSIMVisible_escalation [OF this] run show ?thesis by auto
qed

text \<open>
  C11: Waiting for a SIM ends whenever its context ends: when only boundedly many sleeps succeed, it
  returns a modem or an error.
\<close>

theorem ensureSIMVisible_returns:
  assumes "deadline env b"
  shows "\<exists>r w'. ensureSIMVisible env current target allow init w = Some (r, w')"
  using ensureSIMVisible_ends [OF assms] by (metis surj_pair)

theorem ensureSIMVisible_returns_witness:
  "\<exists>r w'. ensureSIMVisible exampleEnv (Some exampleModem) \<lparr>TargetSlot = 1, TargetICCID = ''89''\<rparr> True False
     \<lparr>outside = 6, actions = []\<rparr> = Some (r, w')"
proof -
  have "deadline exampleEnv id" by (simp add: deadline_def exampleEnv_def)
  from ensureSIMVisible_returns [OF this] show ?thesis .
qed

text \<open>
  C12: A modem that waiting for a SIM returns is one that shows the SIM: it is in the slot of the
  target and its identifier is the target's, where the target gives them.
\<close>

theorem ensureSIMVisible_visible:
  assumes "ensureSIMVisible env current target allow init w = Some (Inr res, w')"
  shows "targetValid target \<and> (TargetSlot target = 0 \<or> PrimarySimSlot (resultModem res) = TargetSlot target) \<and>
    (TargetICCID target = [] \<or>
     map_option trim_space (SimIdentifier (resultModem res)) = Some (trim_space (TargetICCID target)))"
proof -
  have "targetValid target \<and> modemMatchesSIMTarget (resultModem res) target"
    using assms ensureLoop_visible [of env target allow]
    by (fastforce simp: ensureSIMVisible_def split: option.splits if_splits)
  then show ?thesis by (auto simp: modemMatchesSIMTarget_def split: if_splits option.splits)
qed

theorem ensureSIMVisible_visible_witness:
  "map_option trim_space (SimIdentifier (exampleModem\<lparr>SimIdentifier := Some '' 89''\<rparr>)) = Some (trim_space ''89'')"
proof -
  let ?m = "exampleModem\<lparr>SimIdentifier := Some '' 89''\<rparr>"
  have "ensureSIMVisible (exampleEnv\<lparr>findModem := \<lambda>_ n. (Inr ?m, n)\<rparr>) (Some exampleModem)
      \<lparr>TargetSlot = 1, TargetICCID = ''89''\<rparr> True False \<lparr>outside = (0 :: nat), actions = []\<rparr> =
    Some (Inr \<lparr>resultModem = ?m, ReloadObserved = False\<rparr>, \<lparr>outside = 0, actions = []\<rparr>)"
    by code_simp
  from ensureSIMVisible_visible [OF this] show ?thesis by simp
qed

end
