(* ===== verification/AuthStore.thy ===== *)
theory AuthStore
  imports GoPrelude
begin

text \<open>
  Login: one-time passwords and bearer tokens (\<open>internal/app/auth/store.go\<close>), the send and
  verify operations of \<open>internal/app/handler/auth/otp.go\<close> with the status codes of
  \<open>handler.go\<close>, and the request gate \<open>internal/app/middleware/auth.go\<close>.

  Every operation of the store holds its mutex while it reads and changes the state, so a
  run of the server is a sequence of these operations; the clock is read before the mutex is
  taken, so each operation carries the time it read and no order of these times is assumed
  unless a statement says so. Random numbers are arguments.
\<close>

section \<open>The store\<close>

record AuthStore =
  otps :: "string \<rightharpoonup> time"
  tokens :: "string \<rightharpoonup> time"
  otpTTL :: duration
  otpCooldown :: duration
  tokenTTL :: duration
  lastOTPIssuedAt :: time

definition NewStore :: AuthStore where
  "NewStore = \<lparr>otps = Map.empty, tokens = Map.empty, otpTTL = 10 * 60 * second,
     otpCooldown = 30 * second, tokenTTL = 7 * 24 * 3600 * second, lastOTPIssuedAt = zero_time\<rparr>"

datatype authError =
  RandomError | ErrOTPCooldown | errAuthProviderRequired | errAuthProviderUnavailable string |
  NotifierError string | SendError string | errOTPNotRequired | errInvalidOTP

text \<open>The random number, below one million, is the argument; \<open>None\<close> when the source fails.\<close>

definition generateOTP :: "nat option \<Rightarrow> authError + string" where
  "generateOTP rnd = (case rnd of None \<Rightarrow> Inl RandomError | Some n \<Rightarrow> Inr (zero_pad 6 (decimal n)))"

definition generateToken :: "byte list option \<Rightarrow> authError + string" where
  "generateToken rnd = (case rnd of None \<Rightarrow> Inl RandomError | Some bs \<Rightarrow> Inr (hex_encode bs))"

definition IssueOTP :: "nat option \<Rightarrow> time \<Rightarrow> AuthStore \<Rightarrow> (authError + string \<times> time) \<times> AuthStore" where
  "IssueOTP rnd now s =
     (case generateOTP rnd of
        Inl e \<Rightarrow> (Inl e, s)
      | Inr code \<Rightarrow>
          let expiresAt = now + otpTTL s in
          if lastOTPIssuedAt s \<noteq> zero_time \<and> now - lastOTPIssuedAt s < otpCooldown s
          then (Inl ErrOTPCooldown, s)
          else (Inr (code, expiresAt), s\<lparr>lastOTPIssuedAt := now, otps := [code \<mapsto> expiresAt]\<rparr>))"

definition VerifyOTP :: "string \<Rightarrow> time \<Rightarrow> AuthStore \<Rightarrow> bool \<times> AuthStore" where
  "VerifyOTP code now s =
     (let code = trim_space code in
      if code = [] then (False, s)
      else case otps s code of
        None \<Rightarrow> (False, s)
      | Some expiresAt \<Rightarrow> (now < expiresAt, s\<lparr>otps := (otps s)(code := None)\<rparr>))"

definition IssueToken :: "byte list option \<Rightarrow> time \<Rightarrow> AuthStore \<Rightarrow> (authError + string \<times> time) \<times> AuthStore" where
  "IssueToken rnd now s =
     (case generateToken rnd of
        Inl e \<Rightarrow> (Inl e, s)
      | Inr token \<Rightarrow>
          let expiresAt = now + tokenTTL s
          in (Inr (token, expiresAt), s\<lparr>tokens := (tokens s)(token \<mapsto> expiresAt)\<rparr>))"

definition ValidateToken :: "string \<Rightarrow> time \<Rightarrow> AuthStore \<Rightarrow> bool \<times> AuthStore" where
  "ValidateToken token now s =
     (let token = trim_space token in
      if token = [] then (False, s)
      else case tokens s token of
        None \<Rightarrow> (False, s)
      | Some expiresAt \<Rightarrow>
          if now > expiresAt then (False, s\<lparr>tokens := (tokens s)(token := None)\<rparr>)
          else (True, s))"

section \<open>Login operations\<close>

record channel =
  channelName :: string
  channelIsEnabled :: bool

record authSettings =
  OTPRequired :: bool
  AuthProviders :: "string list"
  Channels :: "channel list"

text \<open>
  The channels are a Go map, visited in an order the language leaves open: the list is that
  order. \<open>lower\<close> and \<open>eqFold\<close> stand for \<open>strings.ToLower\<close> and \<open>strings.EqualFold\<close>, which
  use the Unicode tables.
\<close>

definition channelEnabled :: "(string \<Rightarrow> string \<Rightarrow> bool) \<Rightarrow> channel list \<Rightarrow> string \<Rightarrow> bool" where
  "channelEnabled eqFold channels target =
     (case find (\<lambda>c. eqFold (trim_space (channelName c)) target) channels of
        None \<Rightarrow> False
      | Some c \<Rightarrow> channelIsEnabled c)"

fun checkProviders ::
  "(string \<Rightarrow> string) \<Rightarrow> (string \<Rightarrow> string \<Rightarrow> bool) \<Rightarrow> channel list \<Rightarrow> string list \<Rightarrow> authError + string list" where
  "checkProviders lower eqFold channels [] = Inr []"
| "checkProviders lower eqFold channels (p # ps) =
     (let name = lower (trim_space p) in
      if name = [] then Inl errAuthProviderRequired
      else if \<not> channelEnabled eqFold channels name then Inl (errAuthProviderUnavailable name)
      else rbind (checkProviders lower eqFold channels ps) (\<lambda>names. Inr (name # names)))"

definition enabledAuthProviders ::
  "(string \<Rightarrow> string) \<Rightarrow> (string \<Rightarrow> string \<Rightarrow> bool) \<Rightarrow> authSettings \<Rightarrow> authError + string list" where
  "enabledAuthProviders lower eqFold current =
     (if AuthProviders current = [] then Inl errAuthProviderRequired
      else checkProviders lower eqFold (Channels current) (AuthProviders current))"

text \<open>
  \<open>Send\<close>: the notifier either cannot be created or is a function that sends the code to the
  providers and may fail. The last result lists what was sent.
\<close>

definition otpSend ::
  "(string \<Rightarrow> string) \<Rightarrow> (string \<Rightarrow> string \<Rightarrow> bool) \<Rightarrow> (string + (string \<Rightarrow> string list \<Rightarrow> string option)) \<Rightarrow>
   authSettings \<Rightarrow> nat option \<Rightarrow> time \<Rightarrow> AuthStore \<Rightarrow>
   (authError + unit) \<times> AuthStore \<times> (string \<times> string list) list" where
  "otpSend lower eqFold notifier current rnd now s =
     (if \<not> OTPRequired current then (Inr (), s, [])
      else case enabledAuthProviders lower eqFold current of
        Inl e \<Rightarrow> (Inl e, s, [])
      | Inr providers \<Rightarrow>
          (case notifier of
             Inl e \<Rightarrow> (Inl (NotifierError e), s, [])
           | Inr send \<Rightarrow>
               (case IssueOTP rnd now s of
                  (Inl e, s) \<Rightarrow> (Inl e, s, [])
                | (Inr (code, _), s) \<Rightarrow>
                    (case send code providers of
                       Some e \<Rightarrow> (Inl (SendError e), s, [(code, providers)])
                     | None \<Rightarrow> (Inr (), s, [(code, providers)])))))"

definition otpVerify ::
  "bool \<Rightarrow> string \<Rightarrow> byte list option \<Rightarrow> time \<Rightarrow> time \<Rightarrow> AuthStore \<Rightarrow> (authError + string) \<times> AuthStore" where
  "otpVerify required code rnd now now' s =
     (if \<not> required then (Inl errOTPNotRequired, s)
      else case VerifyOTP code now s of
        (False, s) \<Rightarrow> (Inl errInvalidOTP, s)
      | (True, s) \<Rightarrow>
          (case IssueToken rnd now' s of
             (Inl e, s) \<Rightarrow> (Inl e, s)
           | (Inr (token, _), s) \<Rightarrow> (Inr token, s)))"

text \<open>The status codes and error codes of the two handlers.\<close>

definition sendStatus :: "authError + unit \<Rightarrow> nat \<times> string" where
  "sendStatus r =
     (case r of
        Inr _ \<Rightarrow> (201, [])
      | Inl ErrOTPCooldown \<Rightarrow> (429, ''otp_cooldown'')
      | Inl errAuthProviderRequired \<Rightarrow> (422, ''auth_provider_invalid'')
      | Inl (errAuthProviderUnavailable _) \<Rightarrow> (422, ''auth_provider_invalid'')
      | Inl _ \<Rightarrow> (500, ''send_otp_failed''))"

definition verifyStatus :: "authError + string \<Rightarrow> nat \<times> string" where
  "verifyStatus r =
     (case r of
        Inr _ \<Rightarrow> (200, [])
      | Inl errOTPNotRequired \<Rightarrow> (400, ''otp_not_required'')
      | Inl errInvalidOTP \<Rightarrow> (401, ''invalid_otp'')
      | Inl _ \<Rightarrow> (500, ''verify_otp_failed''))"

section \<open>The request gate\<close>

definition bearerPrefix :: string where "bearerPrefix = ''Bearer ''"

definition requestToken :: "string \<Rightarrow> string \<Rightarrow> string" where
  "requestToken header query =
     (let token = (if starts_with header bearerPrefix
                   then trim_space (drop (length bearerPrefix) header) else [])
      in if token = [] then trim_space query else token)"

text \<open>True when the request is passed on to the next handler, False for status 401.\<close>

definition authGate :: "bool \<Rightarrow> string \<Rightarrow> string \<Rightarrow> time \<Rightarrow> AuthStore \<Rightarrow> bool \<times> AuthStore" where
  "authGate required header query now s =
     (if \<not> required then (True, s)
      else let token = requestToken header query in
        if token = [] then (False, s) else ValidateToken token now s)"

section \<open>One-time codes\<close>

text \<open>
  What a server needs from a table of one-time codes: issuing leaves one live code, a code
  that is not live is refused without effect, a live code is no longer live once it was
  presented, and other operations do not touch the codes. \<open>key\<close> is what a presented code
  is reduced to.
\<close>

datatype ('i, 'c, 't, 'o) codeOp = Issue 'i | Redeem 'c 't | Other 'o

text \<open>Running a sequence of operations, with the codes it issues and how many it redeems.\<close>

fun codeStep :: "('i \<Rightarrow> 's \<Rightarrow> 'k option \<times> 's) \<Rightarrow> ('c \<Rightarrow> 't \<Rightarrow> 's \<Rightarrow> bool \<times> 's) \<Rightarrow> ('o \<Rightarrow> 's \<Rightarrow> 's) \<Rightarrow>
    ('i, 'c, 't, 'o) codeOp \<Rightarrow> 's \<Rightarrow> 's" where
  "codeStep issue redeem other (Issue i) s = snd (issue i s)"
| "codeStep issue redeem other (Redeem c t) s = snd (redeem c t s)"
| "codeStep issue redeem other (Other x) s = other x s"

fun codeIssued :: "('i \<Rightarrow> 's \<Rightarrow> 'k option \<times> 's) \<Rightarrow> ('i, 'c, 't, 'o) codeOp \<Rightarrow> 's \<Rightarrow> 'k option" where
  "codeIssued issue (Issue i) s = fst (issue i s)"
| "codeIssued issue _ s = None"

fun codeRedeemed :: "('c \<Rightarrow> 't \<Rightarrow> 's \<Rightarrow> bool \<times> 's) \<Rightarrow> ('i, 'c, 't, 'o) codeOp \<Rightarrow> 's \<Rightarrow> bool" where
  "codeRedeemed redeem (Redeem c t) s = fst (redeem c t s)"
| "codeRedeemed redeem _ s = False"

fun codeRun :: "('i \<Rightarrow> 's \<Rightarrow> 'k option \<times> 's) \<Rightarrow> ('c \<Rightarrow> 't \<Rightarrow> 's \<Rightarrow> bool \<times> 's) \<Rightarrow> ('o \<Rightarrow> 's \<Rightarrow> 's) \<Rightarrow>
    ('i, 'c, 't, 'o) codeOp list \<Rightarrow> 's \<Rightarrow> 's" where
  "codeRun issue redeem other [] s = s"
| "codeRun issue redeem other (op # ops) s = codeRun issue redeem other ops (codeStep issue redeem other op s)"

fun codesIssued :: "('i \<Rightarrow> 's \<Rightarrow> 'k option \<times> 's) \<Rightarrow> ('c \<Rightarrow> 't \<Rightarrow> 's \<Rightarrow> bool \<times> 's) \<Rightarrow> ('o \<Rightarrow> 's \<Rightarrow> 's) \<Rightarrow>
    ('i, 'c, 't, 'o) codeOp list \<Rightarrow> 's \<Rightarrow> 'k list" where
  "codesIssued issue redeem other [] s = []"
| "codesIssued issue redeem other (op # ops) s =
     (case codeIssued issue op s of None \<Rightarrow> [] | Some k \<Rightarrow> [k]) @
       codesIssued issue redeem other ops (codeStep issue redeem other op s)"

fun codesRedeemed :: "('i \<Rightarrow> 's \<Rightarrow> 'k option \<times> 's) \<Rightarrow> ('c \<Rightarrow> 't \<Rightarrow> 's \<Rightarrow> bool \<times> 's) \<Rightarrow> ('o \<Rightarrow> 's \<Rightarrow> 's) \<Rightarrow>
    ('i, 'c, 't, 'o) codeOp list \<Rightarrow> 's \<Rightarrow> nat" where
  "codesRedeemed issue redeem other [] s = 0"
| "codesRedeemed issue redeem other (op # ops) s =
     (if codeRedeemed redeem op s then 1 else 0) + codesRedeemed issue redeem other ops (codeStep issue redeem other op s)"

locale one_time_codes =
  fixes issue :: "'i \<Rightarrow> 's \<Rightarrow> 'k option \<times> 's"
    and redeem :: "'c \<Rightarrow> 't \<Rightarrow> 's \<Rightarrow> bool \<times> 's"
    and other :: "'o \<Rightarrow> 's \<Rightarrow> 's"
    and key :: "'c \<Rightarrow> 'k"
    and live :: "'s \<Rightarrow> 'k set"
  assumes issue_live: "issue i s = (Some k, s') \<Longrightarrow> live s' = {k}"
    and issue_refused: "issue i s = (None, s') \<Longrightarrow> live s' = live s"
    and redeem_dead: "key c \<notin> live s \<Longrightarrow> \<not> fst (redeem c t s)"
    and redeem_live: "live (snd (redeem c t s)) = live s - {key c}"
    and other_live: "live (other x s) = live s"
begin

abbreviation step :: "('i, 'c, 't, 'o) codeOp \<Rightarrow> 's \<Rightarrow> 's" where
  "step \<equiv> codeStep issue redeem other"

abbreviation issued :: "('i, 'c, 't, 'o) codeOp \<Rightarrow> 's \<Rightarrow> 'k option" where
  "issued \<equiv> codeIssued issue"

abbreviation redeemed :: "('i, 'c, 't, 'o) codeOp \<Rightarrow> 's \<Rightarrow> bool" where
  "redeemed \<equiv> codeRedeemed redeem"

abbreviation run :: "('i, 'c, 't, 'o) codeOp list \<Rightarrow> 's \<Rightarrow> 's" where
  "run \<equiv> codeRun issue redeem other"

abbreviation issuedIn :: "('i, 'c, 't, 'o) codeOp list \<Rightarrow> 's \<Rightarrow> 'k list" where
  "issuedIn \<equiv> codesIssued issue redeem other"

abbreviation redemptions :: "('i, 'c, 't, 'o) codeOp list \<Rightarrow> 's \<Rightarrow> nat" where
  "redemptions \<equiv> codesRedeemed issue redeem other"

lemma live_step: "live (step op s) \<subseteq> (case issued op s of None \<Rightarrow> live s | Some k \<Rightarrow> {k})"
proof (cases op)
  case (Issue i)
  obtain k s' where "issue i s = (k, s')" by fastforce
  with Issue show ?thesis
    using issue_live [of i s] issue_refused [of i s] by (cases k) auto
qed (auto simp: redeem_live other_live)

text \<open>A code that is not live stays so until it is issued again.\<close>

lemma dead_stays:
  "k \<notin> live s \<Longrightarrow> k \<notin> set (issuedIn ops s) \<Longrightarrow> k \<notin> live (run ops s)"
proof (induction ops arbitrary: s)
  case (Cons op ops)
  have "k \<notin> live (step op s)"
    using live_step [of op s] Cons.prems by (auto split: option.splits)
  with Cons show ?case by simp
qed simp

lemma single_use:
  assumes "key c \<notin> set (issuedIn ops (snd (redeem c t s)))"
  shows "\<not> fst (redeem c t' (run ops (snd (redeem c t s))))"
  by (rule redeem_dead, rule dead_stays) (use assms in \<open>simp_all add: redeem_live\<close>)

text \<open>Codes are redeemed at most as often as they are issued.\<close>

lemma redemptions_bound:
  "finite (live s) \<Longrightarrow> finite (live (run ops s)) \<and>
     redemptions ops s + card (live (run ops s)) \<le> length (issuedIn ops s) + card (live s)"
proof (induction ops arbitrary: s)
  case (Cons op ops)
  have fin: "finite (live (step op s))"
    using live_step [of op s] Cons.prems by (auto split: option.splits intro: finite_subset)
  have "(if redeemed op s then 1 else 0) + card (live (step op s)) \<le>
      length (case issued op s of None \<Rightarrow> [] | Some k \<Rightarrow> [k]) + card (live s)"
  proof (cases op)
    case (Issue i)
    obtain k s' where "issue i s = (k, s')" by fastforce
    with Issue show ?thesis
      using issue_live [of i s] issue_refused [of i s] by (cases k) auto
  next
    case (Redeem c t)
    show ?thesis
    proof (cases "fst (redeem c t s)")
      case True
      then have "key c \<in> live s" using redeem_dead by blast
      then have "Suc (card (live s - {key c})) = card (live s)"
        using Cons.prems by (rule card.remove [OF _ _, symmetric, rotated])
      with True Redeem show ?thesis by (simp add: redeem_live)
    next
      case False
      with Redeem Cons.prems show ?thesis by (simp add: redeem_live card_Diff1_le)
    qed
  qed (simp add: other_live)
  with Cons.IH [OF fin] show ?case by simp
qed simp

end

text \<open>The store keeps these promises.\<close>

datatype tokenOp = TokenIssue "byte list option" time | TokenValidate string time

fun tokenStep :: "tokenOp \<Rightarrow> AuthStore \<Rightarrow> AuthStore" where
  "tokenStep (TokenIssue rnd now) s = snd (IssueToken rnd now s)"
| "tokenStep (TokenValidate token now) s = snd (ValidateToken token now s)"

definition issueCode :: "nat option \<times> time \<Rightarrow> AuthStore \<Rightarrow> string option \<times> AuthStore" where
  "issueCode i s =
     (case IssueOTP (fst i) (snd i) s of
        (Inl e, s') \<Rightarrow> (None, s')
      | (Inr (code, _), s') \<Rightarrow> (Some code, s'))"

definition liveCodes :: "AuthStore \<Rightarrow> string set" where
  "liveCodes s = dom (otps s) - {[]}"

lemma zero_pad_at_least: "w \<le> length (zero_pad w s)"
  by (simp add: zero_pad_def)

lemma generateOTP_digits: "generateOTP rnd = Inr code \<Longrightarrow> list_all is_digit code \<and> 6 \<le> length code"
  by (auto simp: generateOTP_def zero_pad_digits decimal_digits zero_pad_at_least split: option.splits)

lemma digits_trim: "list_all is_digit s \<Longrightarrow> trim_space s = s"
  by (rule trim_space_graphic) (auto simp: list_all_iff is_digit_graphic)

lemma IssueOTP_Inr:
  "IssueOTP rnd now s = (Inr (code, e), s') \<longleftrightarrow>
     generateOTP rnd = Inr code \<and> \<not> (lastOTPIssuedAt s \<noteq> 0 \<and> now - lastOTPIssuedAt s < otpCooldown s) \<and>
     e = now + otpTTL s \<and> s' = s\<lparr>lastOTPIssuedAt := now, otps := [code \<mapsto> e]\<rparr>"
  by (auto simp: IssueOTP_def Let_def split: sum.splits)

lemma IssueOTP_Inl: "IssueOTP rnd now s = (Inl e, s') \<Longrightarrow> s' = s"
  by (auto simp: IssueOTP_def Let_def split: sum.splits if_splits)

interpretation store_codes: one_time_codes issueCode VerifyOTP tokenStep trim_space liveCodes
proof
  fix i :: "nat option \<times> time" and s s' :: AuthStore and k
  assume "issueCode i s = (Some k, s')"
  then obtain e where "IssueOTP (fst i) (snd i) s = (Inr (k, e), s')"
    by (auto simp: issueCode_def split: sum.splits prod.splits)
  then have "otps s' = [k \<mapsto> e]" "k \<noteq> []"
    by (auto simp: IssueOTP_Inr dest!: generateOTP_digits)
  then show "liveCodes s' = {k}" by (auto simp: liveCodes_def)
next
  fix i :: "nat option \<times> time" and s s' :: AuthStore
  assume "issueCode i s = (None, s')"
  then show "liveCodes s' = liveCodes s"
    by (auto simp: issueCode_def split: sum.splits prod.splits dest: IssueOTP_Inl)
next
  fix x s
  show "liveCodes (tokenStep x s) = liveCodes s"
    by (cases x) (auto simp: IssueToken_def ValidateToken_def Let_def liveCodes_def split: sum.splits option.splits)
qed (auto simp: VerifyOTP_def Let_def liveCodes_def split: option.splits)

lemma newStore_codes: "liveCodes NewStore = {}"
  by (simp add: liveCodes_def NewStore_def)

section \<open>The server\<close>

text \<open>
  Runs of the login server: sends, verifications and gated requests in any order, with any
  clock readings. The trace keeps the codes that were sent and the tokens that were returned.
\<close>

record authTrace =
  sentCodes :: "string list"
  grantedTokens :: "(string \<times> time) list"

definition grantOf :: "authError + string \<Rightarrow> time \<Rightarrow> (string \<times> time) list" where
  "grantOf r expires = (case r of Inl _ \<Rightarrow> [] | Inr token \<Rightarrow> [(token, expires)])"

inductive serverReach :: "AuthStore \<Rightarrow> authTrace \<Rightarrow> bool" where
  start: "serverReach NewStore \<lparr>sentCodes = [], grantedTokens = []\<rparr>"
| send: "serverReach s tr \<Longrightarrow> otpSend lower eqFold notifier current rnd now s = (r, s', sent) \<Longrightarrow>
    serverReach s' (tr\<lparr>sentCodes := sentCodes tr @ map fst sent\<rparr>)"
| verify: "serverReach s tr \<Longrightarrow> otpVerify required code rnd now now' s = (r, s') \<Longrightarrow>
    serverReach s' (tr\<lparr>grantedTokens := grantedTokens tr @ grantOf r (now' + tokenTTL s)\<rparr>)"
| request: "serverReach s tr \<Longrightarrow> authGate required header query now s = (r, s') \<Longrightarrow>
    serverReach s' tr"

definition authInv :: "AuthStore \<Rightarrow> authTrace \<Rightarrow> bool" where
  "authInv s tr \<longleftrightarrow>
     finite (dom (otps s)) \<and> dom (otps s) \<subseteq> set (sentCodes tr) \<and>
     length (grantedTokens tr) + card (dom (otps s)) \<le> length (sentCodes tr) \<and>
     (\<forall>token e. tokens s token = Some e \<longrightarrow> (token, e) \<in> set (grantedTokens tr)) \<and>
     otpTTL s = 600 * second \<and> otpCooldown s = 30 * second \<and> tokenTTL s = 604800 * second"

lemma otpSend_cases:
  assumes "otpSend lower eqFold notifier current rnd now s = (r, s', sent)"
  shows "(s' = s \<and> sent = []) \<or>
    (\<exists>code providers. IssueOTP rnd now s = (Inr (code, now + otpTTL s), s') \<and> sent = [(code, providers)] \<and>
       OTPRequired current \<and> enabledAuthProviders lower eqFold current = Inr providers)"
  using assms
  by (auto simp: otpSend_def IssueOTP_Inr split: if_splits sum.splits prod.splits option.splits dest: IssueOTP_Inl)

lemma VerifyOTP_cases:
  assumes "VerifyOTP code now s = (b, s')"
  shows "(\<not> b \<and> s' = s) \<or>
    (\<exists>e. otps s (trim_space code) = Some e \<and> b = (now < e) \<and> s' = s\<lparr>otps := (otps s)(trim_space code := None)\<rparr>)"
  using assms by (auto simp: VerifyOTP_def Let_def split: if_splits option.splits)

lemma authInv_send:
  assumes "authInv s tr" and "otpSend lower eqFold notifier current rnd now s = (r, s', sent)"
  shows "authInv s' (tr\<lparr>sentCodes := sentCodes tr @ map fst sent\<rparr>)"
  using otpSend_cases [OF assms(2)]
proof (elim disjE exE conjE)
  fix code providers
  assume i: "IssueOTP rnd now s = (Inr (code, now + otpTTL s), s')" and "sent = [(code, providers)]"
  then show ?thesis
    using assms(1) unfolding IssueOTP_Inr by (simp add: authInv_def)
qed (use assms(1) in simp)

lemma authInv_VerifyOTP:
  assumes "authInv s tr" and "VerifyOTP code now s = (b, s')"
  shows "authInv s' tr" and "b \<Longrightarrow> length (grantedTokens tr) + card (dom (otps s')) < length (sentCodes tr)"
proof -
  consider "\<not> b" "s' = s" | e where "otps s (trim_space code) = Some e"
      "s' = s\<lparr>otps := (otps s)(trim_space code := None)\<rparr>"
    using VerifyOTP_cases [OF assms(2)] by blast
  then have "authInv s' tr \<and> (b \<longrightarrow> length (grantedTokens tr) + card (dom (otps s')) < length (sentCodes tr))"
  proof cases
    case 2
    have dom: "dom (otps s') = dom (otps s) - {trim_space code}" using 2(2) by auto
    have "finite (dom (otps s))" using assms(1) by (simp add: authInv_def)
    then have "card (dom (otps s')) < card (dom (otps s))"
      unfolding dom using 2(1) by (intro card_Diff1_less) auto
    with assms(1) 2(2) dom show ?thesis by (auto simp: authInv_def)
  qed (use assms(1) in simp)
  then show "authInv s' tr" and "b \<Longrightarrow> length (grantedTokens tr) + card (dom (otps s')) < length (sentCodes tr)"
    by simp_all
qed

lemma authInv_verify:
  assumes "authInv s tr" and "otpVerify required code rnd now now' s = (r, s')"
  shows "authInv s' (tr\<lparr>grantedTokens := grantedTokens tr @ grantOf r (now' + tokenTTL s)\<rparr>)"
proof -
  obtain b s1 where v: "VerifyOTP code now s = (b, s1)" by fastforce
  have ttl: "tokenTTL s1 = tokenTTL s" using VerifyOTP_cases [OF v] by auto
  note i = authInv_VerifyOTP [OF assms(1) v]
  show ?thesis
  proof (cases "required \<and> b \<and> (\<exists>bs. rnd = Some bs)")
    case True
    then obtain bs where bs: "rnd = Some bs" by blast
    with True assms(2) v ttl have r: "r = Inr (hex_encode bs)"
      and s': "s' = s1\<lparr>tokens := (tokens s1)(hex_encode bs \<mapsto> now' + tokenTTL s)\<rparr>"
      by (auto simp: otpVerify_def IssueToken_def generateToken_def Let_def)
    show ?thesis using i True unfolding r s' by (auto simp: authInv_def grantOf_def)
  next
    case False
    with assms v i have "authInv s' tr" "\<exists>e. r = Inl e"
      by (auto simp: otpVerify_def IssueToken_def generateToken_def Let_def split: if_splits option.splits bool.splits)
    then show ?thesis by (auto simp: grantOf_def)
  qed
qed

lemma ValidateToken_cases:
  assumes "ValidateToken token now s = (b, s')"
  shows "if b then s' = s \<and> (\<exists>e. tokens s (trim_space token) = Some e \<and> now \<le> e)
    else s' = s \<or> s' = s\<lparr>tokens := (tokens s)(trim_space token := None)\<rparr>"
  using assms by (auto simp: ValidateToken_def Let_def split: if_splits option.splits)

lemma authInv_request:
  assumes "authInv s tr" and "authGate required header query now s = (r, s')"
  shows "authInv s' tr"
proof (cases "required \<and> requestToken header query \<noteq> []")
  case True
  then have "ValidateToken (requestToken header query) now s = (r, s')"
    using assms(2) by (simp add: authGate_def Let_def)
  from ValidateToken_cases [OF this] assms(1) show ?thesis
    by (auto simp: authInv_def split: if_splits)
qed (use assms in \<open>auto simp: authGate_def Let_def split: if_splits\<close>)

lemma authInv_reach: "serverReach s tr \<Longrightarrow> authInv s tr"
proof (induction rule: serverReach.induct)
  case start
  show ?case by (simp add: authInv_def NewStore_def)
next
  case (send s tr lower eqFold notifier current rnd now r s' sent)
  from send(3,2) show ?case by (rule authInv_send)
next
  case (verify s tr required code rnd now now' r s')
  from verify(3,2) show ?case by (rule authInv_verify)
next
  case (request s tr required header query now r s')
  from request(3,2) show ?case by (rule authInv_request)
qed

section \<open>Properties\<close>

text \<open>
  A one-time password works at most once: presented again, with any white space around it and after any
  operations of the store, it is refused unless it was issued again in between.
\<close>

theorem otp_single_use:
  assumes "trim_space code \<notin>
    set (codesIssued issueCode VerifyOTP tokenStep ops (snd (VerifyOTP code t s)))"
  shows "\<not> fst (VerifyOTP code t' (codeRun issueCode VerifyOTP tokenStep ops (snd (VerifyOTP code t s))))"
  by (rule store_codes.single_use [OF assms])

theorem otp_single_use_witness:
  "fst (VerifyOTP ''000007'' 2 (snd (IssueOTP (Some 7) 1 NewStore))) \<and>
   \<not> fst (VerifyOTP ''000007'' 3 (codeRun issueCode VerifyOTP tokenStep [Issue (Some 8, 31000000001)]
     (snd (VerifyOTP ''000007'' 2 (snd (IssueOTP (Some 7) 1 NewStore))))))"
proof -
  have first: "fst (VerifyOTP ''000007'' 2 (snd (IssueOTP (Some 7) 1 NewStore)))" by code_simp
  have "trim_space ''000007'' \<notin> set (codesIssued issueCode VerifyOTP tokenStep [Issue (Some 8, 31000000001)]
      (snd (VerifyOTP ''000007'' 2 (snd (IssueOTP (Some 7) 1 NewStore)))))" by code_simp
  from otp_single_use [OF this] first show ?thesis by blast
qed

text \<open>
  An issued one-time password has six digits, is the only one that can be verified from then on, expires
  after the configured time, and was not asked for within the cooldown of the last one.
\<close>

theorem otp_issue_contract:
  assumes "IssueOTP (Some n) now s = (Inr (code, e), s')" and "n < 1000000"
  shows "length code = 6 \<and> list_all is_digit code \<and> otps s' = [code \<mapsto> now + otpTTL s] \<and>
    e = now + otpTTL s \<and> lastOTPIssuedAt s' = now \<and>
    (lastOTPIssuedAt s = zero_time \<or> lastOTPIssuedAt s + otpCooldown s \<le> now)"
proof -
  have "code = zero_pad 6 (decimal n)" "list_all is_digit code"
    using assms(1) zero_pad_digits [OF decimal_digits] unfolding IssueOTP_Inr by (auto simp: generateOTP_def)
  moreover have "length (decimal n) \<le> 6"
    using decimal_length [of n 6] assms(2) by simp
  ultimately show ?thesis
    using assms(1) unfolding IssueOTP_Inr by (auto simp: zero_pad_length)
qed

theorem otp_issue_contract_witness:
  "\<exists>code e s'. IssueOTP (Some 42) 5 NewStore = (Inr (code, e), s') \<and> length code = 6 \<and> e = 600000000005"
proof -
  obtain code e s' where i: "IssueOTP (Some 42) 5 NewStore = (Inr (code, e), s')"
    by (simp add: IssueOTP_def generateOTP_def NewStore_def)
  from otp_issue_contract [OF i] i show ?thesis by (simp add: NewStore_def)
qed

text \<open>
  C13: In every run of the login server, with any clock readings, no more tokens are granted
  than codes were sent. While a code is required, a request that passes the gate presents a token that was granted and
  has not expired; while none is required, every request passes and the gate changes nothing.
\<close>

theorem server_grants:
  assumes "serverReach s tr"
  shows "length (grantedTokens tr) \<le> length (sentCodes tr) \<and>
    (if required
     then fst (authGate required header query now s) \<longrightarrow>
       (\<exists>e. (requestToken header query, e) \<in> set (grantedTokens tr) \<and> now \<le> e)
     else authGate required header query now s = (True, s))"
proof -
  have inv: "authInv s tr" by (rule authInv_reach [OF assms])
  obtain b s' where v: "ValidateToken (requestToken header query) now s = (b, s')" by fastforce
  have "trim_space (requestToken header query) = requestToken header query"
    by (simp add: requestToken_def Let_def)
  then have "b \<Longrightarrow> \<exists>e. (requestToken header query, e) \<in> set (grantedTokens tr) \<and> now \<le> e"
    using inv ValidateToken_cases [OF v] unfolding authInv_def by force
  then show ?thesis
    using inv v by (auto simp: authInv_def authGate_def Let_def)
qed

theorem server_grants_witness:
  "\<exists>s tr. serverReach s tr \<and> fst (authGate True ''Bearer 0a'' [] 9 s) \<and>
     (\<exists>e. (''0a'', e) \<in> set (grantedTokens tr) \<and> 9 \<le> e)"
proof -
  let ?set = "\<lparr>OTPRequired = True, AuthProviders = [''a''], Channels = [\<lparr>channelName = ''a'', channelIsEnabled = True\<rparr>]\<rparr>"
  let ?send = "otpSend id (=) (Inr (\<lambda>_ _. None)) ?set (Some 7) 1 NewStore"
  let ?s1 = "fst (snd ?send)"
  let ?verify = "otpVerify True ''000007'' (Some [10]) 2 3 ?s1"
  note r1 = serverReach.send [OF serverReach.start, of id "(=)" "Inr (\<lambda>_ _. None)" ?set "Some 7" 1 "fst ?send" ?s1 "snd (snd ?send)", simplified]
  obtain tr1 where "serverReach ?s1 tr1" using r1 by blast
  from serverReach.verify [OF this, of True "''000007''" "Some [10]" 2 3 "fst ?verify" "snd ?verify"]
  obtain tr2 where reach: "serverReach (snd ?verify) tr2" by auto
  have pass: "fst (authGate True ''Bearer 0a'' [] 9 (snd ?verify))" by code_simp
  have tok: "requestToken ''Bearer 0a'' [] = ''0a''" by code_simp
  from server_grants [OF reach, of True "''Bearer 0a''" "[]" 9] pass reach show ?thesis
    unfolding tok if_True by blast
qed

text \<open>
  Logging in works: a code that was sent, typed back before it expires, gives a token, and
  the header that carries the token passes the gate until the token expires.
\<close>

theorem login_round_trip:
  assumes "otpSend lower eqFold (Inr send) current (Some n) t0 s = (Inr (), s1, [(code, providers)])"
    and "t1 < t0 + otpTTL s" and "bs \<noteq> []" and "t3 \<le> t2 + tokenTTL s"
  shows "\<exists>s2. otpVerify True code (Some bs) t1 t2 s1 = (Inr (hex_encode bs), s2) \<and>
    authGate True (bearerPrefix @ hex_encode bs) query t3 s2 = (True, s2)"
proof -
  have i: "IssueOTP (Some n) t0 s = (Inr (code, t0 + otpTTL s), s1)"
    using otpSend_cases [OF assms(1)] by auto
  then have code: "trim_space code = code" "code \<noteq> []" "otps s1 = [code \<mapsto> t0 + otpTTL s]" "tokenTTL s1 = tokenTTL s"
    unfolding IssueOTP_Inr by (auto dest!: generateOTP_digits intro: digits_trim)
  have hex: "trim_space (hex_encode bs) = hex_encode bs" "hex_encode bs \<noteq> []"
    using trim_space_graphic [OF hex_encode_graphic] hex_encode_length [of bs] assms(3) by (auto simp del: hex_encode_length)
  have "VerifyOTP code t1 s1 = (True, s1\<lparr>otps := (otps s1)(code := None)\<rparr>)"
    using code assms(2) by (simp add: VerifyOTP_def)
  moreover have "requestToken (bearerPrefix @ hex_encode bs) query = hex_encode bs"
    using hex by (simp add: requestToken_def)
  ultimately show ?thesis
    using hex code assms(4)
    by (simp add: otpVerify_def IssueToken_def generateToken_def authGate_def ValidateToken_def Let_def)
qed

theorem login_round_trip_witness:
  "\<exists>s1 s2. otpVerify True ''000007'' (Some [10]) 2 3 s1 = (Inr ''0a'', s2) \<and>
     authGate True ''Bearer 0a'' [] 9 s2 = (True, s2)"
proof -
  let ?set = "\<lparr>OTPRequired = True, AuthProviders = [''a''], Channels = [\<lparr>channelName = ''a'', channelIsEnabled = True\<rparr>]\<rparr>"
  have d: "zero_pad 6 (decimal 7) = ''000007''" "hex_encode [10] = ''0a''" "bearerPrefix @ ''0a'' = ''Bearer 0a''"
    by code_simp+
  have t: "trim_space ''a'' = ''a''" by code_simp
  obtain s1 where "otpSend id (=) (Inr (\<lambda>_ _. None)) ?set (Some 7) 1 NewStore = (Inr (), s1, [(''000007'', [''a''])])"
    by (simp add: otpSend_def enabledAuthProviders_def channelEnabled_def IssueOTP_def generateOTP_def d t NewStore_def)
  from login_round_trip [OF this, of 2 "[10]" 9 3 "[]"] show ?thesis
    unfolding d by (auto simp: NewStore_def)
qed

end
