(* ===== verification/CallStore.thy ===== *)
theory CallStore
  imports GoPrelude "HOL-Library.List_Lexorder" "HOL-Library.Char_ord"
begin

text \<open>
  The call records of the database (\<open>internal/pkg/storage/calls.go\<close>, the search terms of
  \<open>search.go\<close> and the time text of \<open>messages.go\<close>).

  The table \<open>calls\<close> is the list of its rows; every SQL statement is one atomic step on it,
  with the conflict clause, the \<open>CASE\<close> and the \<open>WHERE\<close> of the statement. Each operation
  takes the failure of its statement as an argument (\<open>None\<close> when the database succeeds) and a
  failed statement changes nothing. Instants are kept as instants: the text of the columns
  matters only where rows are sorted by it.
\<close>

section \<open>Rows\<close>

record Call =
  ID :: string
  ProfileID :: string
  ModemID :: string
  Route :: string
  Direction :: string
  Number :: string
  State :: string
  Hold :: string
  Reason :: string
  StartedAt :: time
  AnsweredAt :: time
  EndedAt :: time
  UpdatedAt :: time

datatype storeError =
  CallIDRequired | ProfileIDRequired | ModemIDRequired | RouteRequired | DirectionRequired |
  StateRequired | ErrNotFound | DatabaseError string

definition normalizeCall :: "time \<Rightarrow> Call \<Rightarrow> Call" where
  "normalizeCall now c =
     (let c = c\<lparr>ID := trim_space (ID c), ProfileID := trim_space (ProfileID c),
                ModemID := trim_space (ModemID c), Route := trim_space (Route c),
                Direction := trim_space (Direction c), Number := trim_space (Number c),
                State := trim_space (State c), Hold := trim_space (Hold c),
                Reason := trim_space (Reason c)\<rparr>;
          c = (if Hold c = [] then c\<lparr>Hold := ''none''\<rparr> else c);
          c = (if StartedAt c = zero_time then c\<lparr>StartedAt := now\<rparr> else c)
      in if UpdatedAt c = zero_time then c\<lparr>UpdatedAt := StartedAt c\<rparr> else c)"

definition validateCall :: "Call \<Rightarrow> storeError option" where
  "validateCall c =
     (if ID c = [] then Some CallIDRequired
      else if ProfileID c = [] then Some ProfileIDRequired
      else if ModemID c = [] then Some ModemIDRequired
      else if Route c = [] then Some RouteRequired
      else if Direction c = [] then Some DirectionRequired
      else if State c = [] then Some StateRequired
      else None)"

section \<open>Statements\<close>

type_synonym callTable = "Call list"

fun lookupCall :: "string \<Rightarrow> callTable \<Rightarrow> Call option" where
  "lookupCall i [] = None"
| "lookupCall i (r # rs) = (if ID r = i then Some r else lookupCall i rs)"

text \<open>\<open>DO UPDATE SET\<close>: every column is the new one, but an answer time is kept when the new row has none.\<close>

definition mergeCall :: "Call \<Rightarrow> Call \<Rightarrow> Call" where
  "mergeCall old new =
     new\<lparr>AnsweredAt := (if AnsweredAt new = zero_time then AnsweredAt old else AnsweredAt new)\<rparr>"

definition terminalText :: "string \<Rightarrow> bool" where
  "terminalText st \<longleftrightarrow> st = ''ended'' \<or> st = ''failed''"

text \<open>\<open>INSERT ... ON CONFLICT(id) DO UPDATE ... WHERE\<close>; the result is the row returned, if any.\<close>

fun upsertCall :: "(Call \<Rightarrow> Call \<Rightarrow> bool) \<Rightarrow> Call \<Rightarrow> callTable \<Rightarrow> Call option \<times> callTable" where
  "upsertCall allowed c [] = (Some c, [c])"
| "upsertCall allowed c (r # rs) =
     (if ID r = ID c
      then if allowed r c then (Some (mergeCall r c), mergeCall r c # rs) else (None, r # rs)
      else let (x, rs') = upsertCall allowed c rs in (x, r # rs'))"

definition keepsTerminal :: "Call \<Rightarrow> Call \<Rightarrow> bool" where
  "keepsTerminal r c \<longleftrightarrow> \<not> (terminalText (State r) \<and> \<not> terminalText (State c))"

section \<open>Operations\<close>

definition SaveCall :: "string option \<Rightarrow> time \<Rightarrow> Call \<Rightarrow> callTable \<Rightarrow> (storeError + unit) \<times> callTable" where
  "SaveCall fault now c tab =
     (let c = normalizeCall now c in
      case validateCall c of
        Some e \<Rightarrow> (Inl e, tab)
      | None \<Rightarrow>
          (case fault of
             Some e \<Rightarrow> (Inl (DatabaseError e), tab)
           | None \<Rightarrow> (Inr (), snd (upsertCall (\<lambda>_ _. True) c tab))))"

definition GetCall :: "string option \<Rightarrow> string \<Rightarrow> callTable \<Rightarrow> storeError + Call" where
  "GetCall fault i tab =
     (let i = trim_space i in
      if i = [] then Inl ErrNotFound
      else case fault of
        Some e \<Rightarrow> Inl (DatabaseError e)
      | None \<Rightarrow> (case lookupCall i tab of None \<Rightarrow> Inl ErrNotFound | Some c \<Rightarrow> Inr c))"

text \<open>The second fault is that of the read that follows a refused update.\<close>

definition SaveCallPreservingTerminal ::
  "string option \<Rightarrow> string option \<Rightarrow> time \<Rightarrow> Call \<Rightarrow> callTable \<Rightarrow> (storeError + Call \<times> bool) \<times> callTable" where
  "SaveCallPreservingTerminal fault fault' now c tab =
     (let c = normalizeCall now c in
      case validateCall c of
        Some e \<Rightarrow> (Inl e, tab)
      | None \<Rightarrow>
          (case fault of
             Some e \<Rightarrow> (Inl (DatabaseError e), tab)
           | None \<Rightarrow>
               (case upsertCall keepsTerminal c tab of
                  (Some saved, tab') \<Rightarrow> (Inr (saved, True), tab')
                | (None, tab') \<Rightarrow>
                    (rbind (GetCall fault' (ID c) tab') (\<lambda>existing. Inr (existing, False)), tab'))))"

definition DeleteCall ::
  "string option \<Rightarrow> string \<Rightarrow> string \<Rightarrow> string \<Rightarrow> callTable \<Rightarrow> (storeError + unit) \<times> callTable" where
  "DeleteCall fault profileID modemID i tab =
     (let profileID = trim_space profileID; modemID = trim_space modemID; i = trim_space i in
      if profileID = [] \<or> modemID = [] \<or> i = [] then (Inl ErrNotFound, tab)
      else case fault of
        Some e \<Rightarrow> (Inl (DatabaseError e), tab)
      | None \<Rightarrow>
          let tab' = filter (\<lambda>r. \<not> (ID r = i \<and> ProfileID r = profileID \<and> ModemID r = modemID)) tab
          in if length tab' = length tab then (Inl ErrNotFound, tab) else (Inr (), tab'))"

section \<open>Listing\<close>

definition escapeLike :: "string \<Rightarrow> string" where
  "escapeLike value =
     concat (map (\<lambda>r. if r \<in> {CHR 0x5C, CHR 0x25, CHR 0x5F} then [CHR 0x5C, r] else [r]) value)"

definition likePattern :: "string \<Rightarrow> string" where
  "likePattern value = ''%'' @ escapeLike (trim_space value) @ ''%''"

definition digitSearchTerm :: "string \<Rightarrow> string" where
  "digitSearchTerm value = filter is_digit value"

text \<open>A search term and whether it applies to phone numbers only.\<close>

definition searchTerms :: "string \<Rightarrow> (string \<times> bool) list" where
  "searchTerms query =
     (let query = trim_space query in
      if query = [] then []
      else let digits = digitSearchTerm query
           in (query, False) # (if digits \<noteq> [] \<and> digits \<noteq> query then [(digits, True)] else []))"

text \<open>
  The text of an instant in UTC: \<open>prefix\<close> is the text up to the seconds, the fraction has
  its trailing zeros removed, as the layout \<open>time.RFC3339Nano\<close> has it.
\<close>

definition timeFraction :: "int \<Rightarrow> string" where
  "timeFraction t =
     (let ns = nat (t mod second) in
      if ns = 0 then [] else ''.'' @ rev (dropWhile (\<lambda>c. c = CHR ''0'') (rev (zero_pad 9 (decimal ns)))))"

definition timeText :: "(int \<Rightarrow> string) \<Rightarrow> time \<Rightarrow> string" where
  "timeText pre t = pre (t div second) @ timeFraction t @ ''Z''"

text \<open>
  The rows a listing returns: \<open>like\<close> is the \<open>LIKE\<close> operator of the database with escape
  character backslash. Rows with equal text come in an order SQL leaves open.
\<close>

definition ListCalls ::
  "(string \<Rightarrow> string \<Rightarrow> bool) \<Rightarrow> (int \<Rightarrow> string) \<Rightarrow> string \<Rightarrow> string \<Rightarrow> int \<Rightarrow> string \<Rightarrow> callTable \<Rightarrow> Call list" where
  "ListCalls like pre profileID modemID limit query tab =
     (let profileID = trim_space profileID; modemID = trim_space modemID in
      if profileID = [] \<or> modemID = [] then []
      else
        let limit = (if limit \<le> 0 \<or> limit > 100 then 50 else limit);
            terms = searchTerms query;
            rows = filter (\<lambda>c. ProfileID c = profileID \<and> ModemID c = modemID \<and>
                     (terms = [] \<or> list_ex (\<lambda>t. like (likePattern (fst t)) (Number c)) terms)) tab
        in take (nat limit) (rev (sort_key (\<lambda>c. timeText pre (UpdatedAt c)) rows)))"

section \<open>The table as a map\<close>

lemma lookup_upsert_same:
  "lookupCall (ID c) (snd (upsertCall P c tab)) =
     Some (case lookupCall (ID c) tab of None \<Rightarrow> c | Some r \<Rightarrow> if P r c then mergeCall r c else r)"
  by (induction tab) (auto simp: mergeCall_def split: prod.splits option.splits)

lemma lookup_upsert_other:
  "i \<noteq> ID c \<Longrightarrow> lookupCall i (snd (upsertCall P c tab)) = lookupCall i tab"
  by (induction tab) (auto simp: mergeCall_def split: prod.splits)

lemma lookup_ID: "lookupCall i tab = Some r \<Longrightarrow> ID r = i"
  by (induction tab) (auto split: if_splits)

lemma upsert_result:
  "fst (upsertCall P c tab) =
     (case lookupCall (ID c) tab of
        None \<Rightarrow> Some c | Some r \<Rightarrow> if P r c then Some (mergeCall r c) else None)"
  by (induction tab) (auto split: prod.splits)

lemma upsert_refused: "fst (upsertCall P c tab) = None \<Longrightarrow> snd (upsertCall P c tab) = tab"
  by (induction tab) (auto split: prod.splits if_splits)

lemma lookup_filter:
  "distinct (map ID tab) \<Longrightarrow> lookupCall i (filter P tab) =
     (case lookupCall i tab of None \<Rightarrow> None | Some r \<Rightarrow> if P r then Some r else None)"
proof (induction tab)
  case (Cons r tab)
  have "lookupCall (ID r) tab = None"
    using Cons.prems by (induction tab) auto
  with Cons show ?case by (auto split: option.splits dest: lookup_ID)
qed simp

section \<open>The table invariant\<close>

text \<open>Ids are unique, and every row is a normalised and valid call.\<close>

definition callOk :: "Call \<Rightarrow> bool" where
  "callOk c \<longleftrightarrow> validateCall c = None \<and> Hold c \<noteq> [] \<and>
     list_all (\<lambda>s. trim_space s = s)
       [ID c, ProfileID c, ModemID c, Route c, Direction c, Number c, State c, Hold c, Reason c]"

definition tableOk :: "callTable \<Rightarrow> bool" where
  "tableOk tab \<longleftrightarrow> distinct (map ID tab) \<and> list_all callOk tab"

lemma trim_none [simp]: "trim_space ''none'' = ''none''"
  by (rule trim_space_graphic) (simp add: graphic_def)

lemma normalizeCall_ok: "validateCall (normalizeCall now c) = None \<Longrightarrow> callOk (normalizeCall now c)"
  by (simp add: callOk_def normalizeCall_def Let_def)

lemma normalizeCall_fields [simp]:
  "ID (normalizeCall now c) = trim_space (ID c)" "State (normalizeCall now c) = trim_space (State c)"
  "AnsweredAt (normalizeCall now c) = AnsweredAt c" "ProfileID (normalizeCall now c) = trim_space (ProfileID c)"
  "ModemID (normalizeCall now c) = trim_space (ModemID c)"
  by (simp_all add: normalizeCall_def Let_def)

lemma upsert_ids: "set (map ID (snd (upsertCall P c tab))) = insert (ID c) (set (map ID tab))"
  by (induction tab) (auto simp: mergeCall_def split: prod.splits)

lemma upsert_distinct: "distinct (map ID tab) \<Longrightarrow> distinct (map ID (snd (upsertCall P c tab)))"
proof (induction tab)
  case (Cons r tab)
  then show ?case
    using upsert_ids [of P c tab] by (auto simp: mergeCall_def split: prod.splits)
qed simp

lemma mergeCall_ok: "callOk c \<Longrightarrow> callOk (mergeCall r c)"
  by (simp add: callOk_def mergeCall_def validateCall_def split: if_splits)

lemma upsert_ok: "tableOk tab \<Longrightarrow> callOk c \<Longrightarrow> tableOk (snd (upsertCall P c tab))"
proof -
  assume t: "tableOk tab" and c: "callOk c"
  have "list_all callOk tab \<Longrightarrow> list_all callOk (snd (upsertCall P c tab))"
    using c by (induction tab) (auto simp: mergeCall_ok split: prod.splits)
  with t show ?thesis by (simp add: tableOk_def upsert_distinct)
qed

lemma SaveCall_ok: "tableOk tab \<Longrightarrow> SaveCall fault now c tab = (r, tab') \<Longrightarrow> tableOk tab'"
  by (auto simp: SaveCall_def Let_def split: option.splits intro: upsert_ok normalizeCall_ok)

lemma SavePreserving_ok:
  assumes "tableOk tab" and "SaveCallPreservingTerminal fault fault' now c tab = (r, tab')"
  shows "tableOk tab'"
proof -
  have "tab' = tab \<or> validateCall (normalizeCall now c) = None \<and> tab' = snd (upsertCall keepsTerminal (normalizeCall now c) tab)"
    using assms(2) by (auto simp: SaveCallPreservingTerminal_def Let_def split: option.splits prod.splits)
  with assms(1) show ?thesis by (auto intro: upsert_ok normalizeCall_ok)
qed

lemma distinct_filter_ids: "distinct (map ID tab) \<Longrightarrow> distinct (map ID (filter P tab))"
  by (induction tab) auto

lemma DeleteCall_ok: "tableOk tab \<Longrightarrow> DeleteCall fault p m i tab = (r, tab') \<Longrightarrow> tableOk tab'"
  by (auto simp: DeleteCall_def Let_def tableOk_def distinct_filter_ids list_all_iff
      split: option.splits if_splits)

section \<open>What a save leaves behind\<close>

lemma savePreserving_stored:
  assumes "tableOk tab" and "SaveCallPreservingTerminal fault None now c tab = (Inr (saved, publish), tab')"
  shows "lookupCall (trim_space (ID c)) tab' = Some saved"
    and "\<not> publish \<Longrightarrow> tab' = tab \<and> terminalText (State saved)"
    and "publish \<Longrightarrow> State saved = trim_space (State c)"
proof -
  let ?c = "normalizeCall now c"
  have v: "validateCall ?c = None" and f: "fault = None"
    using assms(2) by (auto simp: SaveCallPreservingTerminal_def Let_def split: option.splits)
  have ne: "trim_space (ID c) \<noteq> []" using v by (auto simp: validateCall_def split: if_splits)
  obtain x tab1 where u: "upsertCall keepsTerminal ?c tab = (x, tab1)" by fastforce
  have same: "lookupCall (trim_space (ID c)) tab1 = Some (case lookupCall (trim_space (ID c)) tab of
      None \<Rightarrow> ?c | Some r \<Rightarrow> if keepsTerminal r ?c then mergeCall r ?c else r)"
    using lookup_upsert_same [of ?c keepsTerminal tab] u by simp
  have x: "x = (case lookupCall (trim_space (ID c)) tab of
        None \<Rightarrow> Some ?c | Some r \<Rightarrow> if keepsTerminal r ?c then Some (mergeCall r ?c) else None)"
    using upsert_result [of keepsTerminal ?c tab] u by simp
  show "lookupCall (trim_space (ID c)) tab' = Some saved"
    and "\<not> publish \<Longrightarrow> tab' = tab \<and> terminalText (State saved)"
    and "publish \<Longrightarrow> State saved = trim_space (State c)"
    using assms(2) v f u x same ne upsert_refused [of keepsTerminal ?c tab]
    by (auto simp: SaveCallPreservingTerminal_def Let_def GetCall_def keepsTerminal_def mergeCall_def
        split: option.splits if_splits)
qed

section \<open>Writers of the table\<close>

text \<open>
  Every write of the call service is one of these: a save that preserves terminal records, a
  plain save of a call that has ended, or the deletion of a record.
\<close>

datatype callWrite =
  WritePreserving "string option" time Call | WriteEnded "string option" time Call |
  WriteDelete "string option" string string string

fun callWriteStep :: "callWrite \<Rightarrow> callTable \<Rightarrow> callTable" where
  "callWriteStep (WritePreserving fault now c) tab = snd (SaveCallPreservingTerminal fault None now c tab)"
| "callWriteStep (WriteEnded fault now c) tab = snd (SaveCall fault now (c\<lparr>State := ''ended''\<rparr>) tab)"
| "callWriteStep (WriteDelete fault p m i) tab = snd (DeleteCall fault p m i tab)"

fun deletesCall :: "callWrite \<Rightarrow> string \<Rightarrow> bool" where
  "deletesCall (WriteDelete fault p m i) k \<longleftrightarrow> trim_space i = k"
| "deletesCall _ k \<longleftrightarrow> False"

lemma trim_ended [simp]: "trim_space ''ended'' = ''ended''"
  by (rule trim_space_graphic) (simp add: graphic_def)

lemma writePreserving_table:
  "callWriteStep (WritePreserving fault now c) tab = tab \<or>
   callWriteStep (WritePreserving fault now c) tab = snd (upsertCall keepsTerminal (normalizeCall now c) tab)"
  by (auto simp: SaveCallPreservingTerminal_def Let_def split: option.splits prod.splits)

lemma writeEnded_table:
  "callWriteStep (WriteEnded fault now c) tab = tab \<or>
   callWriteStep (WriteEnded fault now c) tab =
     snd (upsertCall (\<lambda>_ _. True) (normalizeCall now (c\<lparr>State := ''ended''\<rparr>)) tab)"
  by (auto simp: SaveCall_def Let_def split: option.splits)

lemma lookup_filter_keeps: "(\<And>r. ID r = i \<Longrightarrow> P r) \<Longrightarrow> lookupCall i (filter P tab) = lookupCall i tab"
  by (induction tab) auto

lemma lookup_delete_other:
  "i \<noteq> trim_space k \<Longrightarrow> lookupCall i (snd (DeleteCall fault p m k tab)) = lookupCall i tab"
  unfolding DeleteCall_def Let_def
  by (simp split: option.split) (blast intro: lookup_filter_keeps)

text \<open>A write changes a record only by replacing it with the merge of a permitted call.\<close>

lemma callWrite_lookup:
  assumes "lookupCall k tab = Some r" and "\<not> deletesCall op k"
  shows "lookupCall k (callWriteStep op tab) = Some r \<or>
    (\<exists>c. keepsTerminal r c \<and> lookupCall k (callWriteStep op tab) = Some (mergeCall r c))"
proof -
  have up: "lookupCall k (snd (upsertCall P c tab)) = Some r \<or>
      (P r c \<and> lookupCall k (snd (upsertCall P c tab)) = Some (mergeCall r c))" for P c
    using assms(1) lookup_upsert_same [of c P tab] lookup_upsert_other [of k c P tab]
    by (cases "k = ID c") auto
  show ?thesis
  proof (cases op)
    case (WritePreserving fault now c)
    with assms(1) up [of keepsTerminal "normalizeCall now c"] writePreserving_table [of fault now c tab]
    show ?thesis by auto
  next
    case (WriteEnded fault now c)
    let ?c = "normalizeCall now (c\<lparr>State := ''ended''\<rparr>)"
    have "keepsTerminal r ?c" by (simp add: keepsTerminal_def terminalText_def)
    with WriteEnded assms(1) up [of "\<lambda>_ _. True" ?c] writeEnded_table [of fault now c tab]
    show ?thesis by auto
  next
    case (WriteDelete fault p m i)
    with assms show ?thesis using lookup_delete_other [of k i] by auto
  qed
qed

lemma callWrite_ok: "tableOk tab \<Longrightarrow> tableOk (callWriteStep op tab)"
proof (cases op)
  case (WritePreserving fault now c)
  assume "tableOk tab"
  then show ?thesis
    by (rule SavePreserving_ok) (use WritePreserving in \<open>simp add: prod_eq_iff\<close>)
next
  case (WriteEnded fault now c)
  assume "tableOk tab"
  then show ?thesis
    by (rule SaveCall_ok) (use WriteEnded in \<open>simp add: prod_eq_iff\<close>)
next
  case (WriteDelete fault p m i)
  assume "tableOk tab"
  then show ?thesis
    by (rule DeleteCall_ok) (use WriteDelete in \<open>simp add: prod_eq_iff\<close>)
qed

interpretation terminal_calls:
  absorbing lookupCall callWriteStep "\<lambda>r. terminalText (State r)" deletesCall tableOk
  by unfold_locales
    (rule callWrite_ok, assumption,
     use callWrite_lookup in \<open>fastforce simp: mergeCall_def keepsTerminal_def\<close>)

interpretation answered_calls:
  absorbing lookupCall callWriteStep "\<lambda>r. AnsweredAt r \<noteq> zero_time" deletesCall tableOk
  by unfold_locales
    (rule callWrite_ok, assumption, use callWrite_lookup in \<open>fastforce simp: mergeCall_def\<close>)

section \<open>Text order against time order\<close>

lemma timeText_tick:
  assumes "t mod second = 0"
  shows "timeText pre (t + 1) < timeText pre t"
proof -
  obtain k where k: "t = k * second" using assms by auto
  have m: "(t + 1) mod second = 1" and d: "(t + 1) div second = t div second"
    unfolding k by (simp_all add: mod_add_eq [symmetric] div_add1_eq)
  have "decimal 1 = ''1''" by code_simp
  then have f: "timeFraction (t + 1) = ''.000000001''"
    unfolding timeFraction_def m by (simp add: zero_pad_def numeral_eq_Suc)
  have z: "timeFraction t = []" using assms by (simp add: timeFraction_def)
  have "''.000000001'' @ ''Z'' < (''Z'' :: string)" by (simp add: less_char_def)
  then show ?thesis unfolding timeText_def d f z by (simp add: lexord_append_leftI list_less_def)
qed

section \<open>Properties\<close>

text \<open>
  C17: Whatever calls are saved, ended or deleted, with whatever database failures, the table keeps one
  row per call id, and every row is a normalised and complete call.
\<close>

theorem call_table_wellformed:
  "distinct (map ID (fold callWriteStep ops [])) \<and> list_all callOk (fold callWriteStep ops [])"
  using terminal_calls.ok_run [of "[]" ops] by (simp add: tableOk_def)

text \<open>
  Saving a call that may not reopen a finished one returns the row that is stored: either the row was
  written and has the given state, or nothing changed and the stored call is finished.
\<close>

theorem saved_call_is_stored:
  assumes "tableOk tab" and "SaveCallPreservingTerminal None None now c tab = (Inr (saved, publish), tab')"
  shows "lookupCall (trim_space (ID c)) tab' = Some saved \<and>
    (if publish then State saved = trim_space (State c)
     else tab' = tab \<and> (State saved = ''ended'' \<or> State saved = ''failed''))"
  using savePreserving_stored [OF assms] by (auto simp: terminalText_def)

theorem saved_call_is_stored_witness:
  "\<exists>saved tab'. SaveCallPreservingTerminal None None 9 \<lparr>ID = '' c1 '', ProfileID = ''p'', ModemID = ''m'', Route = ''r'',
      Direction = ''d'', Number = [], State = ''active'', Hold = [], Reason = [], StartedAt = 1, AnsweredAt = 0,
      EndedAt = 0, UpdatedAt = 0\<rparr> [] = (Inr (saved, True), tab') \<and> lookupCall ''c1'' tab' = Some saved"
proof -
  let ?c = "\<lparr>ID = '' c1 '', ProfileID = ''p'', ModemID = ''m'', Route = ''r'',
      Direction = ''d'', Number = [], State = ''active'', Hold = [], Reason = [], StartedAt = 1, AnsweredAt = 0,
      EndedAt = 0, UpdatedAt = 0\<rparr>"
  let ?d = "?c\<lparr>ID := ''c1'', Hold := ''none'', UpdatedAt := 1\<rparr>"
  have run: "SaveCallPreservingTerminal None None 9 ?c [] = (Inr (?d, True), [?d])" by code_simp
  have "tableOk []" by (simp add: tableOk_def)
  from saved_call_is_stored [OF this run] run show ?thesis
    by (simp add: trim_space_id graphic_def)
qed

text \<open>
  The list of calls is not in the order of the updates: a call updated a nanosecond after another, which was updated on
  the full second, is listed after it, although the list has the latest update first, because the text of a full second sorts
  after the text of every later instant of that second.
\<close>

theorem list_calls_misordered:
  assumes "t mod second = 0" and "UpdatedAt c = t" and "UpdatedAt d = t + 1"
    and "ProfileID c = ''p''" and "ModemID c = ''m''" and "ProfileID d = ''p''" and "ModemID d = ''m''"
  shows "ListCalls like pre ''p'' ''m'' 50 [] [c, d] = [c, d] \<and> ListCalls like pre ''p'' ''m'' 50 [] [d, c] = [c, d]"
proof -
  have "trim_space ''p'' = ''p''" "trim_space ''m'' = ''m''" by (simp_all add: trim_space_graphic graphic_def)
  then show ?thesis
    using timeText_tick [OF assms(1), of pre] assms(2-)
    by (simp add: ListCalls_def searchTerms_def)
qed

theorem list_calls_misordered_witness:
  "map UpdatedAt (ListCalls (\<lambda>_ _. True) (\<lambda>_. []) ''p'' ''m'' 50 []
     (map (\<lambda>t. \<lparr>ID = ''c'', ProfileID = ''p'', ModemID = ''m'', Route = [], Direction = [], Number = [], State = [],
        Hold = [], Reason = [], StartedAt = 1, AnsweredAt = 0, EndedAt = 0, UpdatedAt = t\<rparr>) [second, second + 1])) =
   [second, second + 1]"
proof -
  let ?c = "\<lambda>t. \<lparr>ID = ''c'', ProfileID = ''p'', ModemID = ''m'', Route = [], Direction = [], Number = [], State = [],
        Hold = [], Reason = [], StartedAt = 1, AnsweredAt = 0, EndedAt = 0, UpdatedAt = t\<rparr>"
  from list_calls_misordered [of second "?c second" "?c (second + 1)" "\<lambda>_ _. True" "\<lambda>_. []"]
  show ?thesis by simp
qed

end
