(* ===== verification/VoiceSession.thy ===== *)
theory VoiceSession
  imports GoPrelude "HOL-Library.AList"
begin

text \<open>
  Voice calls over Wi-Fi Calling: the state of a call and its transitions
  (\<open>pro/wificalling/voice.go\<close>), the sessions of the coordinator
  (\<open>connect.go\<close>, \<open>wifi_calling.go\<close>) and the USSD session of a modem (\<open>ussd.go\<close>).

  The coordinator's mutex makes each operation below atomic. Clients, call objects and USSD
  sessions of the IMS library are pointers, here numbers; the values the library returns
  (state, hold state, errors) are arguments, and the library's constants are the record
  \<open>imsVoice\<close>. The Go map of a session's calls is an association list, in the order in which
  the map is visited. \<open>published\<close> lists the voice events handed to the subscribers.
\<close>

section \<open>Calls\<close>

record imsVoice =
  CallStateEnded :: string
  CallStateFailed :: string
  CallStateActive :: string
  CallStateConfirmed :: string
  CallHoldNone :: string
  CallDirectionOutgoing :: string

record VoiceCall =
  vcID :: string
  vcModemID :: string
  vcProfileID :: string
  vcDirection :: string
  vcNumber :: string
  vcState :: string
  vcHold :: string
  vcReason :: string
  vcStartedAt :: time
  vcAnsweredAt :: time
  vcEndedAt :: time
  vcUpdatedAt :: time

definition noVoiceCall :: VoiceCall where
  "noVoiceCall = \<lparr>vcID = [], vcModemID = [], vcProfileID = [], vcDirection = [], vcNumber = [],
     vcState = [], vcHold = [], vcReason = [], vcStartedAt = 0, vcAnsweredAt = 0, vcEndedAt = 0,
     vcUpdatedAt = 0\<rparr>"

record voiceCallTransition =
  trState :: string
  trHold :: string
  trReason :: string
  trReasonSet :: bool
  trAnswered :: bool
  trEnded :: bool
  trAt :: time

definition isTerminalVoiceCallState :: "imsVoice \<Rightarrow> string \<Rightarrow> bool" where
  "isTerminalVoiceCallState ims st \<longleftrightarrow> st = CallStateEnded ims \<or> st = CallStateFailed ims"

definition isAnsweredVoiceCallState :: "imsVoice \<Rightarrow> string \<Rightarrow> bool" where
  "isAnsweredVoiceCallState ims st \<longleftrightarrow> st = CallStateActive ims \<or> st = CallStateConfirmed ims"

definition advanceVoiceCall ::
  "imsVoice \<Rightarrow> time \<Rightarrow> VoiceCall \<Rightarrow> voiceCallTransition \<Rightarrow> VoiceCall \<times> bool" where
  "advanceVoiceCall ims now info tr =
     (if vcID info = [] then (info, False)
      else if isTerminalVoiceCallState ims (vcState info) then (info, False)
      else
        let nxt = info;
            nxt = (if trState tr \<noteq> [] then nxt\<lparr>vcState := trState tr\<rparr> else nxt);
            nxt = (if trHold tr \<noteq> [] then nxt\<lparr>vcHold := trHold tr\<rparr> else nxt);
            nxt = (if trReasonSet tr then nxt\<lparr>vcReason := trReason tr\<rparr> else nxt);
            nxt = nxt\<lparr>vcUpdatedAt := (if trAt tr = zero_time then now else trAt tr)\<rparr>;
            nxt = (if (trAnswered tr \<or> isAnsweredVoiceCallState ims (vcState nxt)) \<and> vcAnsweredAt nxt = zero_time
                   then nxt\<lparr>vcAnsweredAt := vcUpdatedAt nxt\<rparr> else nxt);
            nxt = (if trEnded tr \<or> isTerminalVoiceCallState ims (vcState nxt)
                   then nxt\<lparr>vcEndedAt := vcUpdatedAt nxt\<rparr> else nxt)
        in (nxt, nxt \<noteq> info))"

definition failVoiceCall :: "imsVoice \<Rightarrow> time \<Rightarrow> VoiceCall \<Rightarrow> string \<Rightarrow> time \<Rightarrow> VoiceCall \<times> bool" where
  "failVoiceCall ims now info reason at =
     advanceVoiceCall ims now info
       \<lparr>trState = CallStateFailed ims, trHold = [], trReason = reason, trReasonSet = True,
        trAnswered = False, trEnded = False, trAt = at\<rparr>"

text \<open>\<open>hold\<close> is the hold state of the call object, \<open>None\<close> when there is none.\<close>

definition voiceHoldState :: "imsVoice \<Rightarrow> string option \<Rightarrow> string" where
  "voiceHoldState ims hold =
     (case hold of
        None \<Rightarrow> CallHoldNone ims
      | Some h \<Rightarrow> if trim_space h = [] then CallHoldNone ims else trim_space h)"

section \<open>Sessions\<close>

datatype sessionPhase = PhaseConnecting | PhaseConnected | PhaseWebsheetRequired | PhaseDisconnected

record voiceCallState =
  vsCall :: "nat option"
  vsInfo :: VoiceCall
  vsUpdatedAt :: time

record pendingVoiceDial =
  pdProfileID :: string
  pdNumber :: string
  pdStartedAt :: time

record sessionState =
  sessionId :: nat
  phase :: sessionPhase
  sessionClient :: "nat option"
  sessionUssd :: "nat option"
  sessionCalls :: "(string \<times> voiceCallState) list"
  pendingDial :: "pendingVoiceDial option"
  modemPath :: string
  sessionProfile :: string
  connected :: bool
  connectedAt :: time
  sessionWebsheet :: "string option"
  reconnectSignal :: bool

record coordinator =
  sessions :: "string \<rightharpoonup> sessionState"
  nextSessionID :: nat
  published :: "VoiceCall list"

definition sameSession :: "sessionState option \<Rightarrow> nat \<Rightarrow> bool" where
  "sameSession session i \<longleftrightarrow> (case session of None \<Rightarrow> False | Some s \<Rightarrow> i = 0 \<or> sessionId s = i)"

definition publishVoiceEvent :: "VoiceCall \<Rightarrow> coordinator \<Rightarrow> coordinator" where
  "publishVoiceEvent call c = c\<lparr>published := published c @ [call]\<rparr>"

definition putSession :: "string \<Rightarrow> sessionState \<Rightarrow> coordinator \<Rightarrow> coordinator" where
  "putSession modemID s c = c\<lparr>sessions := (sessions c)(modemID \<mapsto> s)\<rparr>"

text \<open>\<open>start\<close>, without the goroutine it spawns.\<close>

definition startSession :: "string \<Rightarrow> string \<Rightarrow> string \<Rightarrow> coordinator \<Rightarrow> coordinator" where
  "startSession modemID path profileID c =
     (if trim_space modemID = [] then c
      else case sessions c modemID of
        Some s \<Rightarrow> c
      | None \<Rightarrow>
          let i = nextSessionID c + 1
          in putSession modemID
               \<lparr>sessionId = i, phase = PhaseConnecting, sessionClient = None, sessionUssd = None,
                sessionCalls = [], pendingDial = None, modemPath = path, sessionProfile = profileID,
                connected = False, connectedAt = zero_time, sessionWebsheet = None,
                reconnectSignal = False\<rparr> (c\<lparr>nextSessionID := i\<rparr>))"

definition markConnected :: "time \<Rightarrow> string \<Rightarrow> nat \<Rightarrow> nat \<Rightarrow> coordinator \<Rightarrow> coordinator" where
  "markConnected now modemID i client c =
     (case sessions c modemID of
        None \<Rightarrow> c
      | Some s \<Rightarrow>
          if sessionId s = i
          then putSession modemID (s\<lparr>sessionClient := Some client, connected := True, connectedAt := now,
                 phase := PhaseConnected, sessionWebsheet := None\<rparr>) c
          else c)"

definition markConnecting :: "string \<Rightarrow> nat \<Rightarrow> coordinator \<Rightarrow> coordinator" where
  "markConnecting modemID i c =
     (case sessions c modemID of
        None \<Rightarrow> c
      | Some s \<Rightarrow>
          if sessionId s = i
          then putSession modemID (s\<lparr>sessionClient := None, connected := False, connectedAt := zero_time,
                 phase := PhaseConnecting\<rparr>) c
          else c)"

text \<open>\<open>disconnectedCallEvents\<close>: fail the calls that are still open; the events are those calls.\<close>

definition callOpen :: "imsVoice \<Rightarrow> voiceCallState \<Rightarrow> bool" where
  "callOpen ims st \<longleftrightarrow> vcID (vsInfo st) \<noteq> [] \<and> \<not> isTerminalVoiceCallState ims (vcState (vsInfo st))"

definition disconnectCall :: "imsVoice \<Rightarrow> time \<Rightarrow> voiceCallState \<Rightarrow> voiceCallState" where
  "disconnectCall ims now st =
     (if callOpen ims st
      then st\<lparr>vsInfo := fst (failVoiceCall ims now (vsInfo st) ''wifi calling disconnected'' now), vsUpdatedAt := now\<rparr>
      else st)"

definition disconnectedCallEvents :: "imsVoice \<Rightarrow> time \<Rightarrow> sessionState \<Rightarrow> VoiceCall list \<times> sessionState" where
  "disconnectedCallEvents ims now s =
     (map (\<lambda>(i, st). vsInfo (disconnectCall ims now st)) (filter (\<lambda>(i, st). callOpen ims st) (sessionCalls s)),
      s\<lparr>sessionCalls := map (\<lambda>(i, st). (i, disconnectCall ims now st)) (sessionCalls s)\<rparr>)"

definition disconnectSession :: "imsVoice \<Rightarrow> time \<Rightarrow> string \<Rightarrow> sessionState \<Rightarrow> coordinator \<Rightarrow> coordinator" where
  "disconnectSession ims now modemID s c =
     (let s = s\<lparr>sessionClient := None, connected := False, connectedAt := zero_time, phase := PhaseDisconnected\<rparr>;
          (events, s) = disconnectedCallEvents ims now s
      in fold publishVoiceEvent events (putSession modemID s c))"

definition markDisconnected ::
  "imsVoice \<Rightarrow> time \<Rightarrow> string \<Rightarrow> nat \<Rightarrow> nat option \<Rightarrow> coordinator \<Rightarrow> coordinator" where
  "markDisconnected ims now modemID i client c =
     (case sessions c modemID of
        None \<Rightarrow> c
      | Some s \<Rightarrow>
          if sessionId s \<noteq> i \<or> sessionClient s \<noteq> client then c
          else disconnectSession ims now modemID s c)"

text \<open>The reconnect channel holds one signal; a second one is dropped.\<close>

definition requestReconnect :: "imsVoice \<Rightarrow> time \<Rightarrow> string \<Rightarrow> nat \<Rightarrow> coordinator \<Rightarrow> coordinator" where
  "requestReconnect ims now modemID client c =
     (case sessions c modemID of
        None \<Rightarrow> c
      | Some s \<Rightarrow>
          if sessionClient s \<noteq> Some client then c
          else disconnectSession ims now modemID (s\<lparr>reconnectSignal := True\<rparr>) c)"

definition detachSession :: "imsVoice \<Rightarrow> time \<Rightarrow> string \<Rightarrow> coordinator \<Rightarrow> sessionState option \<times> coordinator" where
  "detachSession ims now modemID c =
     (case sessions c modemID of
        None \<Rightarrow> (None, c)
      | Some s \<Rightarrow>
          let (events, s) = disconnectedCallEvents ims now s
          in (Some s, fold publishVoiceEvent events (c\<lparr>sessions := (sessions c)(modemID := None)\<rparr>)))"

definition detachSessionByID ::
  "imsVoice \<Rightarrow> time \<Rightarrow> string \<Rightarrow> nat \<Rightarrow> coordinator \<Rightarrow> sessionState option \<times> coordinator" where
  "detachSessionByID ims now modemID i c =
     (case sessions c modemID of
        None \<Rightarrow> (None, c)
      | Some s \<Rightarrow> if sessionId s \<noteq> i then (None, c) else detachSession ims now modemID c)"

definition restartSession ::
  "imsVoice \<Rightarrow> time \<Rightarrow> string \<Rightarrow> string \<Rightarrow> string \<Rightarrow> coordinator \<Rightarrow> coordinator" where
  "restartSession ims now modemID path profileID c =
     (if trim_space modemID = [] then c
      else startSession modemID path profileID (snd (detachSession ims now modemID c)))"

text \<open>\<open>stopByPath\<close> and \<open>stopAll\<close>: \<open>ids\<close> lists the modems with a session, in the order of the map.\<close>

definition stopByPath :: "imsVoice \<Rightarrow> time \<Rightarrow> string \<Rightarrow> string list \<Rightarrow> coordinator \<Rightarrow> coordinator" where
  "stopByPath ims now path ids c =
     (if path = [] then c
      else fold (\<lambda>i c. snd (detachSession ims now i c))
        (filter (\<lambda>i. case sessions c i of None \<Rightarrow> False | Some s \<Rightarrow> modemPath s = path) ids) c)"

definition stopAll :: "imsVoice \<Rightarrow> time \<Rightarrow> string list \<Rightarrow> coordinator \<Rightarrow> coordinator" where
  "stopAll ims now ids c = fold (\<lambda>i c. snd (detachSession ims now i c)) ids c"

datatype wfcError = wfcErrNotConnected | wfcErrUnavailable | wfcProfile string |
  wfcUSSDNotStarted | wfcUSSDAction | wfcOther string

definition connectedClient :: "string \<Rightarrow> string \<Rightarrow> coordinator \<Rightarrow> wfcError + nat" where
  "connectedClient modemID profileID c =
     (case sessions c modemID of
        None \<Rightarrow> Inl wfcErrNotConnected
      | Some s \<Rightarrow>
          (case sessionClient s of
             None \<Rightarrow> Inl wfcErrNotConnected
           | Some client \<Rightarrow>
               if \<not> connected s \<or> sessionProfile s \<noteq> profileID then Inl wfcErrNotConnected else Inr client))"

section \<open>Status\<close>

datatype wfcState = StateIdle | StateConnecting | StateConnected | StateWebsheetRequired | StateDisconnected

record wfcStatus =
  statusEnabled :: bool
  statusPreferred :: bool
  statusConnected :: bool
  statusState :: wfcState
  DurationSeconds :: int
  statusWebsheet :: "string option"

definition statusFromSession :: "bool \<Rightarrow> bool \<Rightarrow> sessionState option \<Rightarrow> string \<Rightarrow> time \<Rightarrow> wfcStatus" where
  "statusFromSession enabled preferred session profileID now =
     (let status = \<lparr>statusEnabled = enabled, statusPreferred = preferred, statusConnected = False,
                    statusState = StateIdle, DurationSeconds = 0, statusWebsheet = None\<rparr>;
          none = (if enabled then status\<lparr>statusState := StateDisconnected\<rparr> else status)
      in case session of
           None \<Rightarrow> none
         | Some s \<Rightarrow>
             if sessionProfile s \<noteq> profileID then none
             else (case phase s of
                     PhaseConnected \<Rightarrow>
                       if sessionClient s \<noteq> None
                       then status\<lparr>statusConnected := True, statusState := StateConnected,
                              DurationSeconds := (if connectedAt s \<noteq> zero_time
                                then max 0 (tdiv (now - connectedAt s) second) else 0)\<rparr>
                       else status\<lparr>statusState := StateDisconnected\<rparr>
                   | PhaseWebsheetRequired \<Rightarrow>
                       status\<lparr>statusState := StateWebsheetRequired, statusWebsheet := sessionWebsheet s\<rparr>
                   | PhaseDisconnected \<Rightarrow> status\<lparr>statusState := StateDisconnected\<rparr>
                   | PhaseConnecting \<Rightarrow> status\<lparr>statusState := StateConnecting\<rparr>))"

section \<open>Stored calls\<close>

definition voiceCallInfo :: "string \<Rightarrow> string \<Rightarrow> coordinator \<Rightarrow> VoiceCall" where
  "voiceCallInfo modemID callID c =
     (case sessions c modemID of
        None \<Rightarrow> noVoiceCall
      | Some s \<Rightarrow> (case map_of (sessionCalls s) callID of None \<Rightarrow> noVoiceCall | Some st \<Rightarrow> vsInfo st))"

text \<open>\<open>updateVoiceCallWithPointerLocked\<close>; \<open>call\<close> is the call object, if one is passed.\<close>

definition updateCallLocked :: "string \<Rightarrow> nat option \<Rightarrow> VoiceCall \<Rightarrow> sessionState \<Rightarrow> sessionState" where
  "updateCallLocked callID call info s =
     (let st = (case map_of (sessionCalls s) callID of
                  None \<Rightarrow> \<lparr>vsCall = None, vsInfo = noVoiceCall, vsUpdatedAt = zero_time\<rparr>
                | Some st \<Rightarrow> st);
          st = (if call \<noteq> None then st\<lparr>vsCall := call\<rparr> else st);
          st = st\<lparr>vsInfo := info, vsUpdatedAt := vcUpdatedAt info\<rparr>
      in s\<lparr>sessionCalls := AList.update callID st (sessionCalls s)\<rparr>)"

definition updateVoiceCallForSession ::
  "string \<Rightarrow> nat \<Rightarrow> string \<Rightarrow> nat option \<Rightarrow> VoiceCall \<Rightarrow> coordinator \<Rightarrow> bool \<times> coordinator" where
  "updateVoiceCallForSession modemID i callID call info c =
     (if \<not> sameSession (sessions c modemID) i then (False, c)
      else (True, putSession modemID (updateCallLocked callID call info (the (sessions c modemID))) c))"

text \<open>What a call object of the library says of itself.\<close>

record imsCall =
  imsPtr :: nat
  imsID :: string
  imsDirection :: string
  imsState :: string
  imsHold :: string

definition storeVoiceCallForSession ::
  "imsVoice \<Rightarrow> time \<Rightarrow> string \<Rightarrow> nat \<Rightarrow> string \<Rightarrow> imsCall \<Rightarrow> string \<Rightarrow> string \<Rightarrow> coordinator \<Rightarrow>
   (VoiceCall \<times> bool) \<times> coordinator" where
  "storeVoiceCallForSession ims now modemID i profileID call number reason c =
     (let info = \<lparr>vcID = imsID call, vcModemID = modemID, vcProfileID = profileID,
                  vcDirection = imsDirection call, vcNumber = number, vcState = imsState call,
                  vcHold = voiceHoldState ims (Some (imsHold call)), vcReason = reason, vcStartedAt = now,
                  vcAnsweredAt = zero_time, vcEndedAt = zero_time, vcUpdatedAt = now\<rparr>
      in if \<not> sameSession (sessions c modemID) i then ((noVoiceCall, False), c)
         else
           let existing = voiceCallInfo modemID (imsID call) c;
               info = (if vcID existing \<noteq> []
                       then info\<lparr>vcStartedAt := (if vcStartedAt existing = zero_time then now else vcStartedAt existing),
                              vcAnsweredAt := (if vcAnsweredAt existing \<noteq> zero_time then vcAnsweredAt existing
                                else vcAnsweredAt info),
                              vcHold := (if trim_space (vcHold existing) \<noteq> [] then vcHold existing
                                else vcHold info)\<rparr>
                       else info)
           in ((info, True),
               putSession modemID (updateCallLocked (imsID call) (Some (imsPtr call)) info
                 (the (sessions c modemID))) c))"

text \<open>The client of a session, the call object and the stored call, for an action on a call.\<close>

definition lookupVoiceCall ::
  "string \<Rightarrow> string \<Rightarrow> string \<Rightarrow> coordinator \<Rightarrow> wfcError + (nat option \<times> nat \<times> VoiceCall)" where
  "lookupVoiceCall modemID profileID callID c =
     (case sessions c modemID of
        None \<Rightarrow> Inl wfcErrNotConnected
      | Some s \<Rightarrow>
          if sessionProfile s \<noteq> profileID then Inl wfcErrNotConnected
          else (case map_of (sessionCalls s) (trim_space callID) of
                  None \<Rightarrow> Inl wfcErrUnavailable
                | Some st \<Rightarrow>
                    (case vsCall st of
                       None \<Rightarrow> Inl wfcErrUnavailable
                     | Some call \<Rightarrow> Inr (sessionClient s, call, vsInfo st))))"

section \<open>Errors of the library\<close>

datatype vowifiError = vowifiNotConnected | vowifiResponse string string | vowifiOther string

definition handleClientDisconnected ::
  "imsVoice \<Rightarrow> time \<Rightarrow> string \<Rightarrow> nat option \<Rightarrow> vowifiError \<Rightarrow> coordinator \<Rightarrow> coordinator" where
  "handleClientDisconnected ims now modemID client err c =
     (if err \<noteq> vowifiNotConnected then c
      else case client of None \<Rightarrow> c | Some cl \<Rightarrow> requestReconnect ims now modemID cl c)"

definition normalizeVoiceError :: "vowifiError \<Rightarrow> wfcError" where
  "normalizeVoiceError err =
     (case err of
        vowifiNotConnected \<Rightarrow> wfcErrNotConnected
      | vowifiResponse warning text \<Rightarrow>
          if trim_space warning \<noteq> [] then wfcOther (trim_space warning)
          else if trim_space text \<noteq> [] then wfcOther (trim_space text)
          else wfcOther text
      | vowifiOther text \<Rightarrow> wfcOther text)"

section \<open>Actions on a call\<close>

text \<open>
  Answer, reject, hang up, hold and resume follow one scheme: look the call up, ask the
  library (while other operations run, which is what \<open>during\<close> stands for), advance the call as
  it was looked up, store and publish it. The result of the library is its error, if any, and
  the state and hold state of the call object afterwards.
\<close>

record imsResult =
  resError :: "vowifiError option"
  resState :: string
  resHold :: string

datatype callActionKind = Answering | Rejecting | HangingUp | Holding | Resuming

definition actionTransition :: "callActionKind \<Rightarrow> voiceCallTransition \<Rightarrow> voiceCallTransition" where
  "actionTransition kind tr =
     (case kind of
        Answering \<Rightarrow> tr\<lparr>trAnswered := True\<rparr>
      | Rejecting \<Rightarrow> tr\<lparr>trReason := ''Busy Here'', trReasonSet := True, trEnded := True\<rparr>
      | HangingUp \<Rightarrow> tr\<lparr>trEnded := True\<rparr>
      | Holding \<Rightarrow> tr
      | Resuming \<Rightarrow> tr)"

text \<open>What happens once the library has answered, with the client and the call as they were looked up.\<close>

definition finishCallAction ::
  "imsVoice \<Rightarrow> time \<Rightarrow> string \<Rightarrow> string \<Rightarrow> nat option \<Rightarrow> VoiceCall \<Rightarrow> imsResult \<Rightarrow> callActionKind \<Rightarrow> coordinator \<Rightarrow>
   (wfcError + VoiceCall) \<times> coordinator" where
  "finishCallAction ims now modemID callID client info res kind c =
     (case resError res of
        Some err \<Rightarrow>
          (Inl (normalizeVoiceError err), handleClientDisconnected ims now modemID client err c)
      | None \<Rightarrow>
          let (info, _) = advanceVoiceCall ims now info
                (actionTransition kind \<lparr>trState = resState res, trHold = voiceHoldState ims (Some (resHold res)),
                   trReason = [], trReasonSet = False, trAnswered = False, trEnded = False,
                   trAt = now\<rparr>);
              (_, c) = updateVoiceCallForSession modemID 0 callID None info c
          in (Inr info, publishVoiceEvent info c))"

definition callAction ::
  "imsVoice \<Rightarrow> time \<Rightarrow> string \<Rightarrow> (string + string) \<Rightarrow> string \<Rightarrow> (coordinator \<Rightarrow> coordinator) \<Rightarrow> imsResult \<Rightarrow>
   callActionKind \<Rightarrow> coordinator \<Rightarrow> (wfcError + VoiceCall) \<times> coordinator" where
  "callAction ims now modemID profile callID during res kind c =
     (case profile of
        Inl e \<Rightarrow> (Inl (wfcProfile e), c)
      | Inr profileID \<Rightarrow>
          (case lookupVoiceCall modemID profileID callID c of
             Inl e \<Rightarrow> (Inl e, c)
           | Inr (client, call, info) \<Rightarrow> finishCallAction ims now modemID callID client info res kind (during c)))"

definition AnswerCall where
  "AnswerCall ims now modemID profile callID during res = callAction ims now modemID profile callID during res Answering"

definition RejectCall where
  "RejectCall ims now modemID profile callID during res = callAction ims now modemID profile callID during res Rejecting"

definition HangupCall where
  "HangupCall ims now modemID profile callID during res = callAction ims now modemID profile callID during res HangingUp"

definition HoldCall where
  "HoldCall ims now modemID profile callID during res = callAction ims now modemID profile callID during res Holding"

definition ResumeCall where
  "ResumeCall ims now modemID profile callID during res = callAction ims now modemID profile callID during res Resuming"

definition SendCallDTMF ::
  "imsVoice \<Rightarrow> time \<Rightarrow> string \<Rightarrow> (string + string) \<Rightarrow> string \<Rightarrow> vowifiError option \<Rightarrow> coordinator \<Rightarrow>
   wfcError option \<times> coordinator" where
  "SendCallDTMF ims now modemID profile callID res c =
     (case profile of
        Inl e \<Rightarrow> (Some (wfcProfile e), c)
      | Inr profileID \<Rightarrow>
          (case lookupVoiceCall modemID profileID callID c of
             Inl e \<Rightarrow> (Some e, c)
           | Inr (client, call, info) \<Rightarrow>
               (case res of
                  Some err \<Rightarrow>
                    (Some (normalizeVoiceError err), handleClientDisconnected ims now modemID client err c)
                | None \<Rightarrow> (None, c))))"

section \<open>Dialling\<close>

definition setPendingVoiceDial ::
  "time \<Rightarrow> string \<Rightarrow> string \<Rightarrow> string \<Rightarrow> coordinator \<Rightarrow> pendingVoiceDial \<times> coordinator" where
  "setPendingVoiceDial now modemID profileID number c =
     (let pending = \<lparr>pdProfileID = profileID, pdNumber = trim_space number, pdStartedAt = now\<rparr>
      in (pending,
          case sessions c modemID of
            None \<Rightarrow> c
          | Some s \<Rightarrow> putSession modemID (s\<lparr>pendingDial := Some pending\<rparr>) c))"

definition clearPendingVoiceDial :: "string \<Rightarrow> pendingVoiceDial \<Rightarrow> coordinator \<Rightarrow> coordinator" where
  "clearPendingVoiceDial modemID pending c =
     (case sessions c modemID of
        None \<Rightarrow> c
      | Some s \<Rightarrow>
          if pendingDial s = Some pending then putSession modemID (s\<lparr>pendingDial := None\<rparr>) c else c)"

definition samePendingVoiceDial :: "imsVoice \<Rightarrow> VoiceCall \<Rightarrow> pendingVoiceDial \<Rightarrow> bool" where
  "samePendingVoiceDial ims call pending \<longleftrightarrow>
     vcID call \<noteq> [] \<and> vcProfileID call = pdProfileID pending \<and>
     vcDirection call = CallDirectionOutgoing ims \<and> vcNumber call = pdNumber pending \<and>
     vcStartedAt call = pdStartedAt pending"

definition finishFailedPendingVoiceDial ::
  "imsVoice \<Rightarrow> time \<Rightarrow> string \<Rightarrow> pendingVoiceDial \<Rightarrow> string \<Rightarrow> coordinator \<Rightarrow> VoiceCall option \<times> coordinator" where
  "finishFailedPendingVoiceDial ims now modemID pending reason c =
     (case sessions c modemID of
        None \<Rightarrow> (None, c)
      | Some s \<Rightarrow>
          let s' = (if pendingDial s = Some pending then s\<lparr>pendingDial := None\<rparr> else s) in
          (case find (\<lambda>(i, st). samePendingVoiceDial ims (vsInfo st) pending) (sessionCalls s) of
             None \<Rightarrow> (None, putSession modemID s' c)
           | Some (i, st) \<Rightarrow>
               let info = fst (failVoiceCall ims now (vsInfo st) reason now);
                   info = (if trim_space (vcReason info) = [] then info\<lparr>vcReason := reason\<rparr> else info);
                   st = st\<lparr>vsInfo := info, vsUpdatedAt := vcUpdatedAt info\<rparr>
               in (Some info,
                   putSession modemID (s'\<lparr>sessionCalls := AList.update i st (sessionCalls s)\<rparr>) c)))"

text \<open>\<open>hash\<close> is the hexadecimal text of the first 12 bytes of the SHA-256 digest of its argument.\<close>

definition failedVoiceCallID ::
  "(string \<Rightarrow> string) \<Rightarrow> (time \<Rightarrow> string) \<Rightarrow> string \<Rightarrow> string \<Rightarrow> string \<Rightarrow> time \<Rightarrow> string" where
  "failedVoiceCallID hash timeText modemID profileID number at =
     ''failed:'' @ hash (modemID @ [CHR 0x00] @ profileID @ [CHR 0x00] @ number @ [CHR 0x00] @ timeText at)"

definition failedOutgoingVoiceCallAt ::
  "imsVoice \<Rightarrow> (string \<Rightarrow> string) \<Rightarrow> (time \<Rightarrow> string) \<Rightarrow> string \<Rightarrow> string \<Rightarrow> string \<Rightarrow> string \<Rightarrow> time \<Rightarrow> VoiceCall" where
  "failedOutgoingVoiceCallAt ims hash timeText modemID profileID to reason at =
     (let number = trim_space to in
      \<lparr>vcID = failedVoiceCallID hash timeText modemID profileID number at, vcModemID = modemID,
       vcProfileID = profileID, vcDirection = CallDirectionOutgoing ims, vcNumber = number,
       vcState = CallStateFailed ims, vcHold = [], vcReason = reason, vcStartedAt = at,
       vcAnsweredAt = zero_time, vcEndedAt = at, vcUpdatedAt = at\<rparr>)"

definition errText :: "wfcError \<Rightarrow> string" where
  "errText e = (case e of wfcOther t \<Rightarrow> t | wfcProfile t \<Rightarrow> t | wfcErrNotConnected \<Rightarrow> ''wifi calling is not connected''
     | wfcErrUnavailable \<Rightarrow> ''wifi calling is unavailable'' | wfcUSSDNotStarted \<Rightarrow> []
     | wfcUSSDAction \<Rightarrow> ''action must be initialize or reply'')"

definition initialDialedVoiceCallState :: "imsVoice \<Rightarrow> time \<Rightarrow> VoiceCall \<Rightarrow> string \<Rightarrow> VoiceCall" where
  "initialDialedVoiceCallState ims now info st =
     fst (advanceVoiceCall ims now info
       \<lparr>trState = st, trHold = [], trReason = [], trReasonSet = False, trAnswered = False,
        trEnded = False, trAt = vcUpdatedAt info\<rparr>)"

text \<open>
  \<open>DialCall\<close>: the library's answer is an error or a call object; \<open>during\<close> is what happens to the
  coordinator while it dials. The call returned with an error is the failed call, if any.
\<close>

definition dialFinish ::
  "imsVoice \<Rightarrow> (string \<Rightarrow> string) \<Rightarrow> (time \<Rightarrow> string) \<Rightarrow> time \<Rightarrow> string \<Rightarrow> string \<Rightarrow> string \<Rightarrow> nat \<Rightarrow>
   pendingVoiceDial \<Rightarrow> vowifiError + imsCall \<Rightarrow> coordinator \<Rightarrow>
   ((VoiceCall \<times> wfcError) + VoiceCall) \<times> coordinator" where
  "dialFinish ims hash timeText now modemID profileID to client pending res c =
     (case res of
        Inl err \<Rightarrow>
          let c = handleClientDisconnected ims now modemID (Some client) err c;
              e = normalizeVoiceError err
          in if e = wfcErrNotConnected then (Inl (noVoiceCall, e), c)
             else (case finishFailedPendingVoiceDial ims now modemID pending (errText e) c of
                     (Some info, c) \<Rightarrow> (Inl (info, e), c)
                   | (None, c) \<Rightarrow>
                       (Inl (failedOutgoingVoiceCallAt ims hash timeText modemID profileID to (errText e) now, e), c))
      | Inr call \<Rightarrow>
          let ((info, _), c) = storeVoiceCallForSession ims now modemID 0 profileID call (trim_space to) [] c;
              info = info\<lparr>vcHold := voiceHoldState ims (Some (imsHold call))\<rparr>;
              info = initialDialedVoiceCallState ims now info (imsState call);
              c = (if vcAnsweredAt info \<noteq> zero_time
                   then snd (updateVoiceCallForSession modemID 0 (vcID info) None info c) else c)
          in (Inr info, publishVoiceEvent info c))"

definition DialCall ::
  "imsVoice \<Rightarrow> (string \<Rightarrow> string) \<Rightarrow> (time \<Rightarrow> string) \<Rightarrow> time \<Rightarrow> time \<Rightarrow> string \<Rightarrow> (string + string) \<Rightarrow> string \<Rightarrow>
   (coordinator \<Rightarrow> coordinator) \<Rightarrow> vowifiError + imsCall \<Rightarrow> coordinator \<Rightarrow>
   ((VoiceCall \<times> wfcError) + VoiceCall) \<times> coordinator" where
  "DialCall ims hash timeText now now' modemID profile to during res c =
     (case profile of
        Inl e \<Rightarrow> (Inl (noVoiceCall, wfcProfile e), c)
      | Inr profileID \<Rightarrow>
          (case connectedClient modemID profileID c of
             Inl e \<Rightarrow> (Inl (noVoiceCall, e), c)
           | Inr client \<Rightarrow>
               let (pending, c) = setPendingVoiceDial now modemID profileID to c;
                   (r, c) = dialFinish ims hash timeText now' modemID profileID to client pending res (during c)
               in (r, clearPendingVoiceDial modemID pending c)))"

section \<open>Events from the network\<close>

record callEvent =
  evCallID :: string
  evCall :: "imsCall option"
  evState :: string
  evHold :: string
  evCause :: string
  evAt :: time

text \<open>The call an event is about: a known call, or the call a pending dial is waiting for.\<close>

definition eventTarget :: "imsVoice \<Rightarrow> string \<Rightarrow> callEvent \<Rightarrow> sessionState \<Rightarrow> voiceCallState option" where
  "eventTarget ims modemID ev s =
     (case map_of (sessionCalls s) (evCallID ev) of
        Some st \<Rightarrow> Some st
      | None \<Rightarrow>
          (case pendingDial s of
             None \<Rightarrow> None
           | Some p \<Rightarrow>
               Some \<lparr>vsCall = None,
                 vsInfo = noVoiceCall\<lparr>vcID := evCallID ev, vcModemID := modemID,
                   vcProfileID := pdProfileID p, vcDirection := CallDirectionOutgoing ims,
                   vcNumber := pdNumber p, vcHold := CallHoldNone ims,
                   vcStartedAt := pdStartedAt p\<rparr>,
                 vsUpdatedAt = pdStartedAt p\<rparr>))"

definition applyCallEvent :: "imsVoice \<Rightarrow> time \<Rightarrow> callEvent \<Rightarrow> voiceCallState \<Rightarrow> voiceCallState \<times> bool" where
  "applyCallEvent ims now ev st =
     (let st = (case evCall ev of None \<Rightarrow> st | Some call \<Rightarrow> st\<lparr>vsCall := Some (imsPtr call)\<rparr>);
          hold = trim_space (evHold ev);
          hold = (if hold = [] then (case evCall ev of None \<Rightarrow> hold
                    | Some call \<Rightarrow> voiceHoldState ims (Some (imsHold call))) else hold);
          hold = (if hold = [] \<and> vcHold (vsInfo st) = [] then CallHoldNone ims else hold);
          (info, changed) = advanceVoiceCall ims now (vsInfo st)
            \<lparr>trState = evState ev, trHold = hold, trReason = evCause ev, trReasonSet = True,
             trAnswered = False, trEnded = False, trAt = evAt ev\<rparr>
      in (if changed then st\<lparr>vsInfo := info, vsUpdatedAt := vcUpdatedAt info\<rparr> else st, changed))"

definition forwardCallEvent ::
  "imsVoice \<Rightarrow> time \<Rightarrow> string \<Rightarrow> nat \<Rightarrow> callEvent \<Rightarrow> coordinator \<Rightarrow> coordinator" where
  "forwardCallEvent ims now modemID i ev c =
     (case sessions c modemID of
        None \<Rightarrow> c
      | Some s \<Rightarrow>
          if \<not> sameSession (Some s) i then c
          else (case eventTarget ims modemID ev s of
                  None \<Rightarrow> c
                | Some st \<Rightarrow>
                    let (st, changed) = applyCallEvent ims now ev st;
                        c = putSession modemID (s\<lparr>sessionCalls := AList.update (evCallID ev) st (sessionCalls s)\<rparr>) c
                    in if changed then publishVoiceEvent (vsInfo st) c else c))"

definition forwardIncomingCall ::
  "imsVoice \<Rightarrow> time \<Rightarrow> string \<Rightarrow> string \<Rightarrow> nat \<Rightarrow> imsCall option \<Rightarrow> string \<Rightarrow> time \<Rightarrow> coordinator \<Rightarrow> coordinator" where
  "forwardIncomingCall ims now modemID profileID i incoming number receivedAt c =
     (case incoming of
        None \<Rightarrow> c
      | Some call \<Rightarrow>
          let ((info, stored), c) = storeVoiceCallForSession ims now modemID i profileID call number [] c in
          if \<not> stored then c
          else
            let info = info\<lparr>vcHold := voiceHoldState ims (Some (imsHold call))\<rparr>;
                (info, c) =
                  (if receivedAt \<noteq> zero_time
                   then let info = info\<lparr>vcStartedAt := receivedAt, vcUpdatedAt := receivedAt\<rparr>
                        in (info, snd (updateVoiceCallForSession modemID i (vcID info) None info c))
                   else (info, c))
            in publishVoiceEvent info c)"

section \<open>USSD\<close>

definition setUSSDSession :: "string \<Rightarrow> nat \<Rightarrow> bool \<Rightarrow> coordinator \<Rightarrow> coordinator" where
  "setUSSDSession modemID ussd closed c =
     (case sessions c modemID of
        None \<Rightarrow> c
      | Some s \<Rightarrow> putSession modemID (s\<lparr>sessionUssd := (if closed then None else Some ussd)\<rparr>) c)"

definition ussdSession :: "string \<Rightarrow> coordinator \<Rightarrow> wfcError + (nat option \<times> nat)" where
  "ussdSession modemID c =
     (case sessions c modemID of
        None \<Rightarrow> Inl wfcUSSDNotStarted
      | Some s \<Rightarrow> (case sessionUssd s of None \<Rightarrow> Inl wfcUSSDNotStarted | Some u \<Rightarrow> Inr (sessionClient s, u)))"

text \<open>The library's results: the new session or an error, then the answer (text, closed) or an error.\<close>

definition ExecuteUSSD ::
  "imsVoice \<Rightarrow> time \<Rightarrow> string \<Rightarrow> (string + string) \<Rightarrow> string \<Rightarrow> (vowifiError + nat) \<Rightarrow>
   (vowifiError + string \<times> bool) \<Rightarrow> coordinator \<Rightarrow> (wfcError + string) \<times> coordinator" where
  "ExecuteUSSD ims now modemID profile action started answer c =
     (let failed = (\<lambda>client err c.
        (Inl (case err of vowifiNotConnected \<Rightarrow> wfcErrNotConnected | vowifiResponse w t \<Rightarrow> wfcOther t | vowifiOther t \<Rightarrow> wfcOther t),
         handleClientDisconnected ims now modemID client err c))
      in case profile of
        Inl e \<Rightarrow> (Inl (wfcProfile e), c)
      | Inr profileID \<Rightarrow>
          (case connectedClient modemID profileID c of
             Inl e \<Rightarrow> (Inl e, c)
           | Inr client \<Rightarrow>
               if action = ''initialize'' then
                 (case started of
                    Inl err \<Rightarrow> failed (Some client) err c
                  | Inr u \<Rightarrow>
                      (case answer of
                         Inl err \<Rightarrow> failed (Some client) err c
                       | Inr (text, closed) \<Rightarrow> (Inr text, setUSSDSession modemID u closed c)))
               else if action = ''reply'' then
                 (case ussdSession modemID c of
                    Inl e \<Rightarrow> (Inl e, c)
                  | Inr (client, u) \<Rightarrow>
                      (case answer of
                         Inl err \<Rightarrow> failed client err c
                       | Inr (text, closed) \<Rightarrow> (Inr text, setUSSDSession modemID u closed c)))
               else (Inl wfcUSSDAction, c)))"

section \<open>Websheets of a session\<close>

definition setWebsheet :: "string \<Rightarrow> nat \<Rightarrow> string option \<Rightarrow> coordinator \<Rightarrow> bool \<times> coordinator" where
  "setWebsheet modemID i sheet c =
     (case sessions c modemID of
        None \<Rightarrow> (False, c)
      | Some s \<Rightarrow>
          if sessionId s = i
          then (True, putSession modemID (s\<lparr>sessionWebsheet := sheet, phase := PhaseWebsheetRequired\<rparr>) c)
          else (False, c))"

text \<open>The second result lists the websheets deleted from the broker.\<close>

definition attachWebsheet :: "string \<Rightarrow> nat \<Rightarrow> string option \<Rightarrow> coordinator \<Rightarrow> coordinator \<times> string list" where
  "attachWebsheet modemID i sheet c =
     (case setWebsheet modemID i sheet c of
        (True, c') \<Rightarrow> (c', [])
      | (False, c') \<Rightarrow> (c', case sheet of None \<Rightarrow> [] | Some w \<Rightarrow> [w]))"

definition clearWebsheet :: "string \<Rightarrow> nat \<Rightarrow> string \<Rightarrow> coordinator \<Rightarrow> coordinator \<times> string list" where
  "clearWebsheet modemID i sheet c =
     (case sessions c modemID of
        None \<Rightarrow> (c, [sheet])
      | Some s \<Rightarrow>
          if sessionId s = i \<and> sessionWebsheet s = Some sheet
          then (putSession modemID (s\<lparr>sessionWebsheet := None, phase := PhaseConnecting\<rparr>) c, [sheet])
          else (c, [sheet]))"

section \<open>Transitions of a call\<close>

lemma advance_terminal:
  "isTerminalVoiceCallState ims (vcState info) \<Longrightarrow> advanceVoiceCall ims now info tr = (info, False)"
  by (simp add: advanceVoiceCall_def)

text \<open>The transition of an open call, field by field.\<close>

definition advancedCall :: "imsVoice \<Rightarrow> time \<Rightarrow> voiceCallTransition \<Rightarrow> VoiceCall \<Rightarrow> VoiceCall" where
  "advancedCall ims at tr info =
     (let st = (if trState tr \<noteq> [] then trState tr else vcState info) in
      info\<lparr>vcState := st,
        vcHold := (if trHold tr \<noteq> [] then trHold tr else vcHold info),
        vcReason := (if trReasonSet tr then trReason tr else vcReason info),
        vcUpdatedAt := at,
        vcAnsweredAt := (if (trAnswered tr \<or> isAnsweredVoiceCallState ims st) \<and> vcAnsweredAt info = 0
          then at else vcAnsweredAt info),
        vcEndedAt := (if trEnded tr \<or> isTerminalVoiceCallState ims st then at else vcEndedAt info)\<rparr>)"

lemma update_if:
  "(if b then r\<lparr>vcState := x\<rparr> else r) = r\<lparr>vcState := (if b then x else vcState r)\<rparr>"
  "(if b then r\<lparr>vcHold := x\<rparr> else r) = r\<lparr>vcHold := (if b then x else vcHold r)\<rparr>"
  "(if b then r\<lparr>vcReason := x\<rparr> else r) = r\<lparr>vcReason := (if b then x else vcReason r)\<rparr>"
  "(if b then r\<lparr>vcAnsweredAt := t\<rparr> else r) = r\<lparr>vcAnsweredAt := (if b then t else vcAnsweredAt r)\<rparr>"
  "(if b then r\<lparr>vcEndedAt := t\<rparr> else r) = r\<lparr>vcEndedAt := (if b then t else vcEndedAt r)\<rparr>"
  by simp_all

lemma advance_open:
  "vcID info \<noteq> [] \<Longrightarrow> \<not> isTerminalVoiceCallState ims (vcState info) \<Longrightarrow>
   advanceVoiceCall ims now info tr =
     (let nxt = advancedCall ims (if trAt tr = 0 then now else trAt tr) tr info in (nxt, nxt \<noteq> info))"
  unfolding advanceVoiceCall_def advancedCall_def update_if by (simp add: Let_def split del: if_split cong: if_cong)

lemma advance_cases:
  assumes "advanceVoiceCall ims now info tr = (nxt, ch)"
  shows "(nxt = info \<and> \<not> ch \<and> (vcID info = [] \<or> isTerminalVoiceCallState ims (vcState info))) \<or>
    (nxt = advancedCall ims (if trAt tr = 0 then now else trAt tr) tr info \<and> (ch \<longleftrightarrow> nxt \<noteq> info) \<and>
     vcID info \<noteq> [] \<and> \<not> isTerminalVoiceCallState ims (vcState info))"
proof (cases "vcID info = [] \<or> isTerminalVoiceCallState ims (vcState info)")
  case True
  then have "advanceVoiceCall ims now info tr = (info, False)"
    by (cases "vcID info = []") (simp_all add: advanceVoiceCall_def)
  with assms True show ?thesis by auto
next
  case False
  with assms advance_open [of info ims now tr] show ?thesis by (auto simp: Let_def)
qed

lemma advance_identity:
  assumes "advanceVoiceCall ims now info tr = (nxt, ch)"
  shows "vcID nxt = vcID info" "vcModemID nxt = vcModemID info" "vcProfileID nxt = vcProfileID info"
    "vcDirection nxt = vcDirection info" "vcNumber nxt = vcNumber info" "vcStartedAt nxt = vcStartedAt info"
    "vcAnsweredAt info \<noteq> 0 \<Longrightarrow> vcAnsweredAt nxt = vcAnsweredAt info" "ch \<longleftrightarrow> nxt \<noteq> info"
  using advance_cases [OF assms] by (auto simp: advancedCall_def Let_def)

lemma failVoiceCall_open:
  assumes "vcID info \<noteq> []" and "\<not> isTerminalVoiceCallState ims (vcState info)"
    and "CallStateFailed ims \<noteq> []" and "at \<noteq> 0"
  shows "vcState (fst (failVoiceCall ims now info reason at)) = CallStateFailed ims"
    and "vcReason (fst (failVoiceCall ims now info reason at)) = reason"
    and "vcEndedAt (fst (failVoiceCall ims now info reason at)) = at"
    and "vcID (fst (failVoiceCall ims now info reason at)) = vcID info"
  using assms unfolding failVoiceCall_def
  by (simp_all add: advance_open advancedCall_def Let_def isTerminalVoiceCallState_def)

section \<open>A call that has ended stays ended\<close>

definition callIn :: "string \<times> string \<Rightarrow> coordinator \<Rightarrow> voiceCallState option" where
  "callIn k c = (case sessions c (fst k) of None \<Rightarrow> None | Some s \<Rightarrow> map_of (sessionCalls s) (snd k))"

text \<open>The ended status of a record: a terminal state and the time it ended.\<close>

definition endedInfo :: "imsVoice \<Rightarrow> string \<Rightarrow> time \<Rightarrow> VoiceCall \<Rightarrow> bool" where
  "endedInfo ims st t info \<longleftrightarrow> isTerminalVoiceCallState ims st \<and> vcState info = st \<and> vcEndedAt info = t"

definition endedAs :: "imsVoice \<Rightarrow> string \<Rightarrow> time \<Rightarrow> voiceCallState \<Rightarrow> bool" where
  "endedAs ims st t r \<longleftrightarrow> endedInfo ims st t (vsInfo r)"

text \<open>
  The operations that hold the mutex once, and the end of a dial and the report of an incoming call, which store, update and
  publish one call. Restarting a session and stopping several are sequences of these, and so are a dial, whose beginning is
  \<open>OpPending\<close> and whose deferred end is \<open>OpClearPending\<close>, an exchange of USSD and the sending of tones.
\<close>

datatype sessionOp =
    OpStart string string string
  | OpConnected time string nat nat
  | OpConnecting string nat
  | OpDisconnected time string nat "nat option"
  | OpReconnect time string nat
  | OpDetach time string
  | OpDetachByID time string nat
  | OpPending time string string string
  | OpClearPending string pendingVoiceDial
  | OpFailPending time string pendingVoiceDial string
  | OpDialled "string \<Rightarrow> string" "time \<Rightarrow> string" time string string string nat pendingVoiceDial "vowifiError + imsCall"
  | OpIncoming time string string nat "imsCall option" string time
  | OpEvent time string nat callEvent
  | OpUssd string nat bool
  | OpAttachWebsheet string nat "string option"
  | OpClearWebsheet string nat string

fun sessionStep :: "imsVoice \<Rightarrow> sessionOp \<Rightarrow> coordinator \<Rightarrow> coordinator" where
  "sessionStep ims (OpStart m path profile) c = startSession m path profile c"
| "sessionStep ims (OpConnected now m i client) c = markConnected now m i client c"
| "sessionStep ims (OpConnecting m i) c = markConnecting m i c"
| "sessionStep ims (OpDisconnected now m i client) c = markDisconnected ims now m i client c"
| "sessionStep ims (OpReconnect now m client) c = requestReconnect ims now m client c"
| "sessionStep ims (OpDetach now m) c = snd (detachSession ims now m c)"
| "sessionStep ims (OpDetachByID now m i) c = snd (detachSessionByID ims now m i c)"
| "sessionStep ims (OpPending now m profile number) c = snd (setPendingVoiceDial now m profile number c)"
| "sessionStep ims (OpClearPending m p) c = clearPendingVoiceDial m p c"
| "sessionStep ims (OpFailPending now m p reason) c = snd (finishFailedPendingVoiceDial ims now m p reason c)"
| "sessionStep ims (OpDialled hash text' now m profile to client p res) c =
     snd (dialFinish ims hash text' now m profile to client p res c)"
| "sessionStep ims (OpIncoming now m profile i call number at) c = forwardIncomingCall ims now m profile i call number at c"
| "sessionStep ims (OpEvent now m i ev) c = forwardCallEvent ims now m i ev c"
| "sessionStep ims (OpUssd m u closed) c = setUSSDSession m u closed c"
| "sessionStep ims (OpAttachWebsheet m i sheet) c = fst (attachWebsheet m i sheet c)"
| "sessionStep ims (OpClearWebsheet m i sheet) c = fst (clearWebsheet m i sheet c)"

text \<open>
  An action on a call is two steps with anything in between: \<open>BeginAction\<close> looks the call up, and \<open>FinishAction\<close> goes on once the
  library has answered. What was looked up is kept under the number of the action.
\<close>

record lookedCall =
  lcModem :: string
  lcCall :: string
  lcClient :: "nat option"
  lcInfo :: VoiceCall

record voiceRun =
  runCoordinator :: coordinator
  runLookups :: "nat \<rightharpoonup> lookedCall"

datatype voiceOp = SessionOp sessionOp | BeginAction nat string string string | FinishAction nat callActionKind time imsResult

fun voiceStep :: "imsVoice \<Rightarrow> voiceOp \<Rightarrow> voiceRun \<Rightarrow> voiceRun" where
  "voiceStep ims (SessionOp op) r = r\<lparr>runCoordinator := sessionStep ims op (runCoordinator r)\<rparr>"
| "voiceStep ims (BeginAction a m profile callID) r =
     (case lookupVoiceCall m profile callID (runCoordinator r) of
        Inl _ \<Rightarrow> r
      | Inr (client, call, info) \<Rightarrow>
          r\<lparr>runLookups := (runLookups r)(a \<mapsto> \<lparr>lcModem = m, lcCall = callID, lcClient = client, lcInfo = info\<rparr>)\<rparr>)"
| "voiceStep ims (FinishAction a kind now res) r =
     (case runLookups r a of
        None \<Rightarrow> r
      | Some l \<Rightarrow>
          \<lparr>runCoordinator = snd (finishCallAction ims now (lcModem l) (lcCall l) (lcClient l) (lcInfo l) res kind (runCoordinator r)),
           runLookups = (runLookups r)(a := None)\<rparr>)"

lemma session_ops_run:
  "fold (voiceStep ims) (map SessionOp ops) r = r\<lparr>runCoordinator := fold (sessionStep ims) ops (runCoordinator r)\<rparr>"
  by (induction ops arbitrary: r) simp_all

text \<open>The two steps are the action of the code with the operations between them.\<close>

lemma action_in_two_steps:
  "runCoordinator (fold (voiceStep ims) (BeginAction a m profileID callID # map SessionOp ops @ [FinishAction a kind now res])
     \<lparr>runCoordinator = c, runLookups = Map.empty\<rparr>) =
   (if isl (lookupVoiceCall m profileID callID c) then fold (sessionStep ims) ops c
    else snd (callAction ims now m (Inr profileID) callID (fold (sessionStep ims) ops) res kind c))"
  by (auto simp: session_ops_run callAction_def split: sum.split)

text \<open>The operations that take a call out of the table, or put in the same call anew.\<close>

fun replacesCall :: "voiceOp \<Rightarrow> string \<times> string \<Rightarrow> bool" where
  "replacesCall (SessionOp (OpDetach now m)) k \<longleftrightarrow> m = fst k"
| "replacesCall (SessionOp (OpDetachByID now m i)) k \<longleftrightarrow> m = fst k"
| "replacesCall (SessionOp (OpDialled hash text' now m profile to client p res)) k \<longleftrightarrow>
     m = fst k \<and> (case res of Inl _ \<Rightarrow> False | Inr call \<Rightarrow> imsID call = snd k)"
| "replacesCall (SessionOp (OpIncoming now m profile i incoming number at)) k \<longleftrightarrow>
     m = fst k \<and> (case incoming of None \<Rightarrow> False | Some call \<Rightarrow> imsID call = snd k)"
| "replacesCall _ k \<longleftrightarrow> False"

lemma callIn_put:
  "callIn k (putSession m s c) = (if fst k = m then map_of (sessionCalls s) (snd k) else callIn k c)"
  by (simp add: callIn_def putSession_def)

lemma publish_sessions [simp]: "sessions (publishVoiceEvent e c) = sessions c"
  by (simp add: publishVoiceEvent_def)

lemma fold_publish [simp]:
  "sessions (fold publishVoiceEvent es c) = sessions c"
  "published (fold publishVoiceEvent es c) = published c @ es"
  "nextSessionID (fold publishVoiceEvent es c) = nextSessionID c"
  by (induction es arbitrary: c) (simp_all add: publishVoiceEvent_def)

lemma callIn_sessions: "sessions c = sessions c' \<Longrightarrow> callIn k c = callIn k c'"
  by (simp add: callIn_def)

text \<open>Putting back a session with the same calls changes no call.\<close>

lemma callIn_put_same:
  "sessions c m = Some s \<Longrightarrow> sessionCalls s' = sessionCalls s \<Longrightarrow> callIn k (putSession m s' c) = callIn k c"
  by (cases k) (simp add: callIn_put, simp add: callIn_def)

lemma map_of_map_value: "map_of (map (\<lambda>(i, st). (i, f st)) xs) k = map_option f (map_of xs k)"
  by (induction xs) auto

lemma disconnectCall_ended: "endedAs ims st t r \<Longrightarrow> disconnectCall ims now r = r"
  by (simp add: endedAs_def endedInfo_def disconnectCall_def callOpen_def)

lemma disconnected_calls:
  "disconnectedCallEvents ims now s = (es, s') \<Longrightarrow>
   map_of (sessionCalls s') k = map_option (disconnectCall ims now) (map_of (sessionCalls s) k)"
  by (auto simp: disconnectedCallEvents_def map_of_map_value)

lemma callIn_disconnectSession:
  assumes "callIn k c = Some r" and "endedAs ims st t r" and "sessions c m = Some s"
    and "sessionCalls s' = sessionCalls s"
  shows "callIn k (disconnectSession ims now m s' c) = Some r"
proof -
  define s1 where "s1 = s'\<lparr>sessionClient := None, connected := False, connectedAt := zero_time,
    phase := PhaseDisconnected\<rparr>"
  obtain es s2 where d: "disconnectedCallEvents ims now s1 = (es, s2)" by fastforce
  have "sessionCalls s1 = sessionCalls s" using assms(4) by (simp add: s1_def)
  then have m: "map_of (sessionCalls s2) i = map_option (disconnectCall ims now) (map_of (sessionCalls s) i)" for i
    using disconnected_calls [OF d] by simp
  have "callIn k (disconnectSession ims now m s' c) = callIn k (putSession m s2 c)"
    using d by (auto simp: disconnectSession_def Let_def s1_def intro: callIn_sessions)
  also have "\<dots> = Some r"
    using assms(1,2,3) m by (auto simp: callIn_def putSession_def disconnectCall_ended)
  finally show ?thesis .
qed

lemma applyCallEvent_terminal:
  "isTerminalVoiceCallState ims (vcState (vsInfo st)) \<Longrightarrow>
   applyCallEvent ims now ev st =
     ((case evCall ev of None \<Rightarrow> st | Some call \<Rightarrow> st\<lparr>vsCall := Some (imsPtr call)\<rparr>), False)"
  by (simp add: applyCallEvent_def Let_def advance_terminal split: option.split)

text \<open>The sessions after an event.\<close>

lemma forwardCallEvent_sessions:
  "(\<forall>m. sessions (forwardCallEvent ims now modemID i ev c) m = sessions c m) \<or>
   (\<exists>s st. sessions c modemID = Some s \<and> sameSession (Some s) i \<and> eventTarget ims modemID ev s = Some st \<and>
      sessions (forwardCallEvent ims now modemID i ev c) = (sessions c)(modemID \<mapsto>
        s\<lparr>sessionCalls := AList.update (evCallID ev) (fst (applyCallEvent ims now ev st)) (sessionCalls s)\<rparr>))"
  by (auto simp: forwardCallEvent_def putSession_def Let_def split: option.splits prod.splits)

lemma callIn_event:
  assumes "callIn k c = Some r" and "endedAs ims st t r"
  shows "\<exists>r'. callIn k (forwardCallEvent ims now m i ev c) = Some r' \<and> endedAs ims st t r'"
  using forwardCallEvent_sessions [of ims now m i ev c]
proof (elim disjE exE conjE)
  assume "\<forall>n. sessions (forwardCallEvent ims now m i ev c) n = sessions c n"
  then have "callIn k (forwardCallEvent ims now m i ev c) = callIn k c" by (simp add: callIn_def)
  with assms show ?thesis by simp
next
  fix s v
  assume s: "sessions c m = Some s" and v: "eventTarget ims m ev s = Some v"
    and new: "sessions (forwardCallEvent ims now m i ev c) = (sessions c)(m \<mapsto>
        s\<lparr>sessionCalls := AList.update (evCallID ev) (fst (applyCallEvent ims now ev v)) (sessionCalls s)\<rparr>)"
  show ?thesis
  proof (cases "m = fst k \<and> evCallID ev = snd k")
    case False
    with assms s show ?thesis by (auto simp: callIn_def new update_conv')
  next
    case True
    have "v = r" using assms(1) True s v by (simp add: callIn_def eventTarget_def)
    moreover have "endedAs ims st t (fst (applyCallEvent ims now ev r))"
      using assms(2) by (auto simp: endedAs_def endedInfo_def applyCallEvent_terminal split: option.split)
    ultimately show ?thesis using True new by (simp add: callIn_def update_conv')
  qed
qed

definition sessionsOk :: "coordinator \<Rightarrow> bool" where
  "sessionsOk c \<longleftrightarrow> (\<forall>m s. sessions c m = Some s \<longrightarrow> distinct (map fst (sessionCalls s)))"

lemma sessionsOkD: "sessionsOk c \<Longrightarrow> sessions c m = Some s \<Longrightarrow> distinct (map fst (sessionCalls s))"
  by (simp add: sessionsOk_def)

lemma sessionsOk_put: "sessionsOk c \<Longrightarrow> distinct (map fst (sessionCalls s)) \<Longrightarrow> sessionsOk (putSession m s c)"
  by (simp add: sessionsOk_def putSession_def)

lemma disconnected_keys:
  "disconnectedCallEvents ims now s = (es, s') \<Longrightarrow> map fst (sessionCalls s') = map fst (sessionCalls s)"
  by (auto simp: disconnectedCallEvents_def)

lemma sessionsOk_disconnect:
  assumes "sessionsOk c" and "distinct (map fst (sessionCalls s))"
  shows "sessionsOk (disconnectSession ims now m s c)"
proof -
  obtain es s2 where d: "disconnectedCallEvents ims now (s\<lparr>sessionClient := None, connected := False,
      connectedAt := zero_time, phase := PhaseDisconnected\<rparr>) = (es, s2)" by fastforce
  have "distinct (map fst (sessionCalls s2))" using disconnected_keys [OF d] assms(2) by simp
  with assms(1) d show ?thesis
    by (simp add: disconnectSession_def Let_def sessionsOk_def putSession_def)
qed

lemma callIn_failPending:
  assumes "callIn k c = Some r" and "endedAs ims st t r" and "sessionsOk c"
  shows "\<exists>r'. callIn k (snd (finishFailedPendingVoiceDial ims now m p reason c)) = Some r' \<and> endedAs ims st t r'"
proof (cases "sessions c m")
  case None
  with assms show ?thesis by (simp add: finishFailedPendingVoiceDial_def)
next
  case (Some s)
  let ?f = "find (\<lambda>(i, st). samePendingVoiceDial ims (vsInfo st) p) (sessionCalls s)"
  show ?thesis
  proof (cases ?f)
    case None
    with Some assms show ?thesis
      by (auto simp: finishFailedPendingVoiceDial_def Let_def callIn_def putSession_def)
  next
    case found: (Some x)
    obtain i v where x: "x = (i, v)" by (cases x)
    show ?thesis
    proof (cases "m = fst k \<and> i = snd k")
      case False
      with Some found x assms show ?thesis
        by (auto simp: finishFailedPendingVoiceDial_def Let_def callIn_def putSession_def update_conv')
    next
      case True
      have "distinct (map fst (sessionCalls s))" using Some assms(3) by (simp add: sessionsOk_def)
      moreover have "(i, v) \<in> set (sessionCalls s)"
        using found x unfolding find_Some_iff by (metis nth_mem)
      ultimately have v: "v = r"
        using assms(1) True Some by (simp add: callIn_def)
      show ?thesis
        using Some found x True assms(2) unfolding v
        by (auto simp: finishFailedPendingVoiceDial_def failVoiceCall_def advance_terminal Let_def
            callIn_put update_conv' endedAs_def endedInfo_def)
    qed
  qed
qed

text \<open>Storing, updating and publishing calls only changes the calls of one session, all under one key.\<close>

definition onlyCalls :: "string \<Rightarrow> sessionState \<Rightarrow> sessionState \<Rightarrow> bool" where
  "onlyCalls i s s' \<longleftrightarrow> s' = s\<lparr>sessionCalls := sessionCalls s'\<rparr> \<and>
     (distinct (map fst (sessionCalls s)) \<longrightarrow> distinct (map fst (sessionCalls s'))) \<and>
     (\<forall>j. j \<noteq> i \<longrightarrow> map_of (sessionCalls s') j = map_of (sessionCalls s) j)"

definition callsAt :: "string \<Rightarrow> string \<Rightarrow> coordinator \<Rightarrow> coordinator \<Rightarrow> bool" where
  "callsAt m i c c' \<longleftrightarrow> nextSessionID c' = nextSessionID c \<and> (\<forall>n. n \<noteq> m \<longrightarrow> sessions c' n = sessions c n) \<and>
     (case sessions c m of None \<Rightarrow> sessions c' m = None | Some s \<Rightarrow> \<exists>s'. sessions c' m = Some s' \<and> onlyCalls i s s')"

lemma onlyCalls_refl: "onlyCalls i s s"
  by (simp add: onlyCalls_def)

lemma onlyCalls_trans: "onlyCalls i s s1 \<Longrightarrow> onlyCalls i s1 s2 \<Longrightarrow> onlyCalls i s s2"
  unfolding onlyCalls_def by (metis (no_types, lifting) sessionState.fold_congs(5) sessionState.update_convs(5) sessionState.surjective)

lemma onlyCalls_update: "onlyCalls i s (s\<lparr>sessionCalls := AList.update i v (sessionCalls s)\<rparr>)"
  by (simp add: onlyCalls_def update_conv' distinct_update)

lemma callsAt_refl: "callsAt m i c c"
  by (simp add: callsAt_def onlyCalls_refl split: option.split)

lemma callsAt_publish: "callsAt m i c c' \<Longrightarrow> callsAt m i c (publishVoiceEvent e c')"
  by (cases "sessions c m") (simp_all add: callsAt_def publishVoiceEvent_def)

lemma callsAt_trans: "callsAt m i c c1 \<Longrightarrow> callsAt m i c1 c2 \<Longrightarrow> callsAt m i c c2"
  by (auto simp: callsAt_def split: option.splits intro: onlyCalls_trans)

lemma callsAt_put: "sessions c m = Some s \<Longrightarrow> callsAt m i c (putSession m (s\<lparr>sessionCalls := AList.update i v (sessionCalls s)\<rparr>) c)"
  by (simp add: callsAt_def putSession_def onlyCalls_update)

lemma callsAt_update: "callsAt m i c (snd (updateVoiceCallForSession m j i call info c))"
  by (auto simp: updateVoiceCallForSession_def updateCallLocked_def sameSession_def Let_def callsAt_refl
      intro!: callsAt_put split: option.splits)

lemma callsAt_store:
  assumes "storeVoiceCallForSession ims now m j profile call number reason c = ((info, stored), c')"
  shows "callsAt m (imsID call) c c'" and "stored \<Longrightarrow> vcID info = imsID call" and "\<not> stored \<Longrightarrow> info = noVoiceCall"
  using assms
  by (auto simp: storeVoiceCallForSession_def updateCallLocked_def sameSession_def Let_def callsAt_refl
      intro!: callsAt_put split: option.splits if_splits)

lemma callsAt_incoming:
  "callsAt m (case call of None \<Rightarrow> i | Some call \<Rightarrow> imsID call) c (forwardIncomingCall ims now m profile j call number at c)"
proof (cases call)
  case (Some x)
  obtain info stored c' where st: "storeVoiceCallForSession ims now m j profile x number [] c = ((info, stored), c')"
    by (metis prod_cases3 prod.collapse)
  note c = callsAt_store [OF st]
  have "callsAt m (imsID x) c (snd (updateVoiceCallForSession m j (imsID x) None info' c'))" for info'
    using callsAt_trans [OF c(1) callsAt_update] .
  with c Some st show ?thesis
    by (auto simp: forwardIncomingCall_def Let_def split_beta callsAt_publish)
qed (simp add: forwardIncomingCall_def callsAt_refl)

lemma callsAt_dialled:
  "callsAt m (imsID call) c (snd (dialFinish ims hash text' now m profile to client p (Inr call) c))"
proof -
  obtain info stored c' where st: "storeVoiceCallForSession ims now m 0 profile call (trim_space to) [] c = ((info, stored), c')"
    by (metis prod_cases3 prod.collapse)
  note c = callsAt_store [OF st]
  let ?info = "initialDialedVoiceCallState ims now (info\<lparr>vcHold := voiceHoldState ims (Some (imsHold call))\<rparr>) (imsState call)"
  have "stored \<Longrightarrow> vcID ?info = imsID call"
    using c(2) advance_identity(1) [OF surjective_pairing] by (simp add: initialDialedVoiceCallState_def)
  moreover have "\<not> stored \<Longrightarrow> vcAnsweredAt ?info = 0"
    using c(3) by (simp add: initialDialedVoiceCallState_def advanceVoiceCall_def noVoiceCall_def)
  moreover have "callsAt m (imsID call) c (snd (updateVoiceCallForSession m 0 (imsID call) None ?info c'))"
    using callsAt_trans [OF c(1) callsAt_update] .
  ultimately show ?thesis
    using c(1) st by (cases stored) (auto simp: dialFinish_def Let_def callsAt_publish)
qed

lemma sessionsOk_callsAt: "callsAt m i c c' \<Longrightarrow> sessionsOk c \<Longrightarrow> sessionsOk c'"
  unfolding sessionsOk_def
proof (intro allI impI)
  fix n t
  assume at: "callsAt m i c c'" and ok: "\<forall>m s. sessions c m = Some s \<longrightarrow> distinct (map fst (sessionCalls s))"
    and t: "sessions c' n = Some t"
  show "distinct (map fst (sessionCalls t))"
  proof (cases "n = m")
    case True
    with at t obtain s where "sessions c m = Some s" "onlyCalls i s t" by (auto simp: callsAt_def split: option.splits)
    with ok show ?thesis by (simp add: onlyCalls_def)
  next
    case False
    with at t ok show ?thesis by (simp add: callsAt_def)
  qed
qed

lemma callIn_callsAt:
  assumes "callsAt m i c c'" and "k \<noteq> (m, i)"
  shows "callIn k c' = callIn k c"
proof (cases "fst k = m")
  case True
  with assms(2) have "snd k \<noteq> i" by (cases k) simp
  with True assms(1) show ?thesis by (auto simp: callsAt_def onlyCalls_def callIn_def split: option.splits)
next
  case False
  with assms(1) show ?thesis by (simp add: callsAt_def callIn_def)
qed

lemma sessionsOk_reconnect: "sessionsOk c \<Longrightarrow> sessionsOk (requestReconnect ims now m client c)"
  by (simp add: requestReconnect_def sessionsOk_disconnect sessionsOkD split: option.splits)

lemma sessionsOk_lost: "sessionsOk c \<Longrightarrow> sessionsOk (handleClientDisconnected ims now m client err c)"
  by (simp add: handleClientDisconnected_def sessionsOk_reconnect split: option.split)

lemma sessionsOk_failPending: "sessionsOk c \<Longrightarrow> sessionsOk (snd (finishFailedPendingVoiceDial ims now m p reason c))"
  by (auto simp: finishFailedPendingVoiceDial_def Let_def sessionsOk_def putSession_def distinct_update
      split: option.splits)

lemma sessionsOk_detach: "sessionsOk c \<Longrightarrow> sessionsOk (snd (detachSession ims now m c))"
  by (auto simp: detachSession_def sessionsOk_def split: option.splits prod.splits)

text \<open>A dial that failed leaves the state of a lost connection, perhaps with the failed call.\<close>

lemma dialFinish_failed:
  "snd (dialFinish ims hash text' now m profile to client p (Inl err) c) \<in>
     (let c' = handleClientDisconnected ims now m (Some client) err c
      in {c', snd (finishFailedPendingVoiceDial ims now m p (errText (normalizeVoiceError err)) c')})"
  by (auto simp: dialFinish_def Let_def split: prod.split option.split)

lemma sessionsOk_step: "sessionsOk c \<Longrightarrow> sessionsOk (sessionStep ims op c)"
proof (cases op)
  case (OpFailPending now m p reason)
  assume "sessionsOk c"
  with OpFailPending show ?thesis by (simp add: sessionsOk_failPending)
next
  case (OpDialled hash text' now m profile to client p res)
  assume ok: "sessionsOk c"
  show ?thesis
  proof (cases res)
    case (Inl err)
    with OpDialled ok dialFinish_failed [of ims hash text' now m profile to client p err c] sessionsOk_lost [OF ok] show ?thesis
      by (auto simp: Let_def sessionsOk_failPending)
  next
    case (Inr call)
    with OpDialled sessionsOk_callsAt [OF callsAt_dialled ok] show ?thesis by simp
  qed
next
  case (OpIncoming now m profile i call number at)
  assume "sessionsOk c"
  with OpIncoming sessionsOk_callsAt [OF callsAt_incoming] show ?thesis by simp
next
  case (OpEvent now m i ev)
  assume "sessionsOk c"
  with OpEvent forwardCallEvent_sessions [of ims now m i ev c] show ?thesis
    by (auto simp: sessionsOk_def distinct_update split: if_splits)
next
  case (OpDetach now m)
  assume "sessionsOk c"
  with OpDetach show ?thesis by (simp add: sessionsOk_detach)
next
  case (OpDetachByID now m i)
  assume "sessionsOk c"
  with OpDetachByID show ?thesis by (simp add: detachSessionByID_def sessionsOk_detach split: option.split)
next
  case (OpDisconnected now m i client)
  assume "sessionsOk c"
  with OpDisconnected show ?thesis
    by (auto simp: markDisconnected_def split: option.splits intro: sessionsOk_disconnect sessionsOkD)
next
  case (OpReconnect now m client)
  assume "sessionsOk c"
  with OpReconnect show ?thesis by (simp add: sessionsOk_reconnect)
next
  case (OpStart m path profile)
  assume "sessionsOk c"
  with OpStart show ?thesis
    by (auto simp: startSession_def Let_def putSession_def sessionsOk_def split: option.splits)
qed (auto simp: markConnected_def markConnecting_def setPendingVoiceDial_def Let_def
    clearPendingVoiceDial_def setUSSDSession_def attachWebsheet_def setWebsheet_def clearWebsheet_def sessionsOk_def putSession_def
    split: option.splits)

lemma callIn_lost:
  "callIn k c = Some r \<Longrightarrow> endedAs ims st t r \<Longrightarrow> callIn k (handleClientDisconnected ims now m client err c) = Some r"
  by (auto simp: handleClientDisconnected_def requestReconnect_def callIn_disconnectSession split: option.splits)

lemma callIn_detach: "m \<noteq> fst k \<Longrightarrow> callIn k (snd (detachSession ims now m c)) = callIn k c"
  by (auto simp: detachSession_def callIn_def split: option.splits prod.splits)

lemma callIn_step:
  assumes "sessionsOk c" and "callIn k c = Some r" and "endedAs ims st t r" and "\<not> replacesCall (SessionOp op) k"
  shows "\<exists>r'. callIn k (sessionStep ims op c) = Some r' \<and> endedAs ims st t r'"
proof (cases op)
  case (OpEvent now m i ev)
  with callIn_event assms show ?thesis by simp
next
  case (OpFailPending now m p reason)
  with callIn_failPending assms show ?thesis by simp
next
  case (OpDialled hash text' now m profile to client p res)
  show ?thesis
  proof (cases res)
    case (Inl err)
    let ?c = "handleClientDisconnected ims now m (Some client) err c"
    have c: "callIn k ?c = Some r" by (rule callIn_lost [OF assms(2,3)])
    note f = callIn_failPending [OF c assms(3) sessionsOk_lost [OF assms(1)]]
    from dialFinish_failed [of ims hash text' now m profile to client p err c]
    consider "sessionStep ims op c = ?c"
      | "sessionStep ims op c = snd (finishFailedPendingVoiceDial ims now m p (errText (normalizeVoiceError err)) ?c)"
      using OpDialled Inl by (auto simp: Let_def)
    then show ?thesis by cases (use c assms(3) f in simp_all)
  next
    case (Inr call)
    then have "k \<noteq> (m, imsID call)" using assms(4) OpDialled by (cases k) auto
    from callIn_callsAt [OF callsAt_dialled this] OpDialled Inr assms(2,3) show ?thesis by simp
  qed
next
  case (OpIncoming now m profile i call number at)
  show ?thesis
  proof (cases call)
    case (Some x)
    then have "k \<noteq> (m, imsID x)" using assms(4) OpIncoming by (cases k) auto
    with Some have "k \<noteq> (m, case call of None \<Rightarrow> [] | Some call \<Rightarrow> imsID call)" by simp
    from callIn_callsAt [OF callsAt_incoming this] OpIncoming assms(2,3) show ?thesis by simp
  qed (use OpIncoming assms(2,3) in \<open>simp add: forwardIncomingCall_def\<close>)
next
  case (OpDetach now m)
  with assms show ?thesis by (simp add: callIn_detach)
next
  case (OpDetachByID now m i)
  with assms show ?thesis by (simp add: detachSessionByID_def callIn_detach split: option.split)
next
  case (OpDisconnected now m i client)
  with assms show ?thesis
    by (auto simp: markDisconnected_def callIn_disconnectSession split: option.splits)
next
  case (OpReconnect now m client)
  with assms show ?thesis
    by (auto simp: requestReconnect_def callIn_disconnectSession split: option.splits)
next
  case (OpStart m path profile)
  with assms show ?thesis
    by (auto simp: startSession_def Let_def putSession_def callIn_def split: option.splits)
qed (use assms in \<open>auto simp: markConnected_def markConnecting_def setPendingVoiceDial_def Let_def
    clearPendingVoiceDial_def setUSSDSession_def attachWebsheet_def setWebsheet_def clearWebsheet_def callIn_put_same
    split: option.splits\<close>)

text \<open>
  A finished call with what the actions in flight know of it: they have looked it up when it had finished. An action writes under
  the identifier it was given and looks up the one without blanks around it.
\<close>

definition looksAt :: "string \<times> string \<Rightarrow> voiceRun \<Rightarrow> lookedCall set" where
  "looksAt k r = {l \<in> ran (runLookups r). (lcModem l, lcCall l) = k}"

definition runCallIn :: "string \<times> string \<Rightarrow> voiceRun \<Rightarrow> (voiceCallState \<times> lookedCall set) option" where
  "runCallIn k r = map_option (\<lambda>v. (v, looksAt k r)) (callIn k (runCoordinator r))"

definition endedRun :: "imsVoice \<Rightarrow> string \<Rightarrow> time \<Rightarrow> voiceCallState \<times> lookedCall set \<Rightarrow> bool" where
  "endedRun ims st t v \<longleftrightarrow> endedAs ims st t (fst v) \<and> (\<forall>l \<in> snd v. endedInfo ims st t (lcInfo l))"

lemma finishAction_callsAt:
  "resError res = None \<Longrightarrow> callsAt m i c (snd (finishCallAction ims now m i client info res kind c))"
  using callsAt_update [of m i c 0 None] by (auto simp: finishCallAction_def Let_def split_beta intro!: callsAt_publish)

lemma sessionsOk_finishAction: "sessionsOk c \<Longrightarrow> sessionsOk (snd (finishCallAction ims now m i client info res kind c))"
proof (cases "resError res")
  case None
  assume "sessionsOk c"
  then show ?thesis by (rule sessionsOk_callsAt [OF finishAction_callsAt [OF None]])
qed (simp add: finishCallAction_def sessionsOk_lost)

lemma sessionsOk_voiceStep: "sessionsOk (runCoordinator r) \<Longrightarrow> sessionsOk (runCoordinator (voiceStep ims op r))"
  by (cases op) (auto simp: sessionsOk_step sessionsOk_finishAction split: sum.split option.split)

lemma callIn_finishAction:
  assumes "callIn k c = Some v" and "endedAs ims st t v" and "(m, i) = k \<Longrightarrow> endedInfo ims st t info"
  shows "\<exists>v'. callIn k (snd (finishCallAction ims now m i client info res kind c)) = Some v' \<and> endedAs ims st t v'"
proof (cases "resError res")
  case (Some err)
  with callIn_lost [OF assms(1,2)] assms(2) show ?thesis by (simp add: finishCallAction_def)
next
  case None
  show ?thesis
  proof (cases "(m, i) = k")
    case False
    then have "callIn k (snd (finishCallAction ims now m i client info res kind c)) = callIn k c"
      by (intro callIn_callsAt [OF finishAction_callsAt [OF None]]) simp
    with assms(1,2) show ?thesis by simp
  next
    case True
    obtain s where s: "sessions c m = Some s" using assms(1) True by (auto simp: callIn_def split: option.splits)
    have "advanceVoiceCall ims now info tr = (info, False)" for tr
      using assms(3) True by (simp add: advance_terminal endedInfo_def)
    with None s True assms(3) show ?thesis
      by (auto simp: finishCallAction_def updateVoiceCallForSession_def updateCallLocked_def sameSession_def Let_def
          callIn_def putSession_def update_conv' endedAs_def publishVoiceEvent_def)
  qed
qed

lemma lookup_info:
  "lookupVoiceCall m profile i c = Inr (client, call, info) \<Longrightarrow> callIn (m, trim_space i) c = Some v \<Longrightarrow> info = vsInfo v"
  by (auto simp: lookupVoiceCall_def callIn_def split: option.splits if_splits)

lemma runCallIn_step:
  assumes "sessionsOk (runCoordinator r)" and "runCallIn k r = Some v" and "endedRun ims st t v"
    and "\<not> (replacesCall op k \<or> trim_space (snd k) \<noteq> snd k)"
  shows "\<exists>v'. runCallIn k (voiceStep ims op r) = Some v' \<and> endedRun ims st t v'"
proof -
  obtain w where w: "callIn k (runCoordinator r) = Some w" "v = (w, looksAt k r)" "endedAs ims st t w"
    and looks: "\<forall>l \<in> looksAt k r. endedInfo ims st t (lcInfo l)"
    using assms(2,3) by (auto simp: runCallIn_def endedRun_def)
  have "\<exists>w'. callIn k (runCoordinator (voiceStep ims op r)) = Some w' \<and> endedAs ims st t w'"
  proof (cases op)
    case (SessionOp x)
    with callIn_step [OF assms(1) w(1,3), of x] assms(4) show ?thesis by simp
  next
    case (BeginAction a m profile i)
    with w show ?thesis by (simp split: sum.split)
  next
    case (FinishAction a kind now res)
    show ?thesis
    proof (cases "runLookups r a")
      case None
      with FinishAction w show ?thesis by simp
    next
      case (Some l)
      have "(lcModem l, lcCall l) = k \<Longrightarrow> endedInfo ims st t (lcInfo l)"
        using looks Some by (auto simp: looksAt_def ran_def)
      from callIn_finishAction [OF w(1,3) this] FinishAction Some show ?thesis by simp
    qed
  qed
  moreover have "endedInfo ims st t (lcInfo l)" if l: "l \<in> looksAt k (voiceStep ims op r)" for l
  proof (cases op)
    case (SessionOp x)
    with l looks show ?thesis by (simp add: looksAt_def)
  next
    case (BeginAction a m profile i)
    show ?thesis
    proof (cases "lookupVoiceCall m profile i (runCoordinator r)")
      case (Inl e)
      with BeginAction l looks show ?thesis by simp
    next
      case (Inr x)
      obtain client call info where x: "x = (client, call, info)" by (cases x)
      let ?l = "\<lparr>lcModem = m, lcCall = i, lcClient = client, lcInfo = info\<rparr>"
      have "l = ?l \<or> l \<in> looksAt k r"
        using l BeginAction Inr x by (auto simp: looksAt_def ran_def split: if_splits)
      moreover have "endedInfo ims st t info" if "k = (m, i)"
        using lookup_info [OF Inr [unfolded x], of w] w(1,3) assms(4) that by (simp add: endedAs_def)
      ultimately show ?thesis using looks l by (auto simp: looksAt_def)
    qed
  next
    case (FinishAction a kind now res)
    have "l \<in> looksAt k r"
      using l FinishAction by (auto simp: looksAt_def ran_def split: option.splits if_splits)
    with looks show ?thesis by blast
  qed
  ultimately show ?thesis by (auto simp: runCallIn_def endedRun_def)
qed

interpretation ended_calls:
  absorbing runCallIn "voiceStep ims" "endedRun ims st t" "\<lambda>op k. replacesCall op k \<or> trim_space (snd k) \<noteq> snd k" "\<lambda>r. sessionsOk (runCoordinator r)"
  for ims st t
  by unfold_locales (rule sessionsOk_voiceStep, assumption, rule runCallIn_step)

section \<open>Losing the connection\<close>

lemma disconnectCall_closed:
  assumes "CallStateFailed ims \<noteq> []" and "now \<noteq> 0" and "vcID (vsInfo st) \<noteq> []"
  shows "isTerminalVoiceCallState ims (vcState (vsInfo (disconnectCall ims now st)))"
  using assms failVoiceCall_open(1) [of "vsInfo st" ims now now]
  by (auto simp: disconnectCall_def callOpen_def isTerminalVoiceCallState_def)

lemma disconnectSession_published:
  "published (disconnectSession ims now m s c) = published c @
     map (\<lambda>(i, st). vsInfo (disconnectCall ims now st)) (filter (\<lambda>(i, st). callOpen ims st) (sessionCalls s))"
  by (simp add: disconnectSession_def disconnectedCallEvents_def Let_def putSession_def)

lemma disconnectSession_calls:
  "map_of (sessionCalls s) k = Some st \<Longrightarrow>
   callIn (m, k) (disconnectSession ims now m s c) = Some (disconnectCall ims now st)"
  by (simp add: disconnectSession_def disconnectedCallEvents_def Let_def putSession_def callIn_def
      map_of_map_value)

section \<open>The connection invariant\<close>

text \<open>
  A session is marked connected exactly in the connected phase, and then has a client and no
  websheet; session numbers are positive, in use once, and not above the counter.
\<close>

definition sessionConsistent :: "sessionState \<Rightarrow> bool" where
  "sessionConsistent s \<longleftrightarrow>
     (connected s \<longleftrightarrow> phase s = PhaseConnected) \<and>
     (connected s \<longrightarrow> sessionClient s \<noteq> None \<and> sessionWebsheet s = None)"

definition connInv :: "coordinator \<Rightarrow> bool" where
  "connInv c \<longleftrightarrow>
     (\<forall>m s. sessions c m = Some s \<longrightarrow> sessionConsistent s \<and> 0 < sessionId s \<and> sessionId s \<le> nextSessionID c) \<and>
     (\<forall>m n s t. sessions c m = Some s \<longrightarrow> sessions c n = Some t \<longrightarrow> sessionId s = sessionId t \<longrightarrow> m = n)"

lemma connInv_put:
  "connInv c \<Longrightarrow> sessions c m = Some s \<Longrightarrow> sessionConsistent s' \<Longrightarrow> sessionId s' = sessionId s \<Longrightarrow>
   connInv (putSession m s' c)"
  unfolding connInv_def putSession_def by (auto split: if_splits)

lemma connInv_consistent: "connInv c \<Longrightarrow> sessions c m = Some s \<Longrightarrow> sessionConsistent s"
  by (simp add: connInv_def)

lemma connInv_same:
  "connInv c \<Longrightarrow> sessions c' = sessions c \<Longrightarrow> nextSessionID c' = nextSessionID c \<Longrightarrow> connInv c'"
  by (simp add: connInv_def)

lemma connInv_disconnect:
  assumes "connInv c" and "sessions c m = Some s" and "sessionId s' = sessionId s"
  shows "connInv (disconnectSession ims now m s' c)"
proof -
  define s1 where "s1 = s'\<lparr>sessionClient := None, connected := False, connectedAt := zero_time,
    phase := PhaseDisconnected\<rparr>"
  obtain es s2 where d: "disconnectedCallEvents ims now s1 = (es, s2)" by fastforce
  have "sessionConsistent s2" "sessionId s2 = sessionId s"
    using d assms(3) by (auto simp: disconnectedCallEvents_def s1_def sessionConsistent_def)
  then have "connInv (putSession m s2 c)" using assms(1,2) by (intro connInv_put)
  moreover have "disconnectSession ims now m s' c = fold publishVoiceEvent es (putSession m s2 c)"
    using d by (simp add: disconnectSession_def s1_def Let_def)
  ultimately show ?thesis by (auto intro: connInv_same)
qed

lemma connInv_start: "connInv c \<Longrightarrow> connInv (startSession m path profile c)"
proof (cases "trim_space m = [] \<or> sessions c m \<noteq> None")
  case True
  assume "connInv c"
  with True show ?thesis by (auto simp: startSession_def)
next
  case False
  assume inv: "connInv c"
  have "sessionId s \<le> nextSessionID c" if "sessions c n = Some s" for n s
    using inv that by (simp add: connInv_def)
  with inv False show ?thesis
    unfolding startSession_def putSession_def connInv_def Let_def
    by (fastforce simp: sessionConsistent_def split: if_splits)
qed

lemma connInv_detach: "connInv c \<Longrightarrow> connInv (snd (detachSession ims now m c))"
  unfolding connInv_def detachSession_def by (auto split: option.splits prod.splits if_splits)

lemma connInv_event: "connInv c \<Longrightarrow> connInv (forwardCallEvent ims now m i ev c)"
proof -
  assume inv: "connInv c"
  have n: "nextSessionID (forwardCallEvent ims now m i ev c) = nextSessionID c"
    by (auto simp: forwardCallEvent_def putSession_def publishVoiceEvent_def Let_def
        split: option.splits prod.splits)
  from forwardCallEvent_sessions [of ims now m i ev c] show ?thesis
  proof (elim disjE exE conjE)
    assume "\<forall>n. sessions (forwardCallEvent ims now m i ev c) n = sessions c n"
    with inv n show ?thesis by (intro connInv_same [OF inv] ext) simp_all
  next
    fix s st
    assume s: "sessions c m = Some s"
      and new: "sessions (forwardCallEvent ims now m i ev c) = (sessions c)(m \<mapsto>
        s\<lparr>sessionCalls := AList.update (evCallID ev) (fst (applyCallEvent ims now ev st)) (sessionCalls s)\<rparr>)"
    have "connInv (putSession m (s\<lparr>sessionCalls := AList.update (evCallID ev)
        (fst (applyCallEvent ims now ev st)) (sessionCalls s)\<rparr>) c)"
      by (rule connInv_put [OF inv s]) (use connInv_consistent [OF inv s] in \<open>simp_all add: sessionConsistent_def\<close>)
    then show ?thesis by (rule connInv_same) (simp_all add: new n putSession_def)
  qed
qed

lemma onlyCalls_consistent:
  assumes "onlyCalls i s s'"
  shows "sessionConsistent s' = sessionConsistent s" and "sessionId s' = sessionId s"
proof -
  obtain calls where "s' = s\<lparr>sessionCalls := calls\<rparr>" using assms by (auto simp: onlyCalls_def)
  then show "sessionConsistent s' = sessionConsistent s" and "sessionId s' = sessionId s"
    by (simp_all add: sessionConsistent_def)
qed

lemma connInv_callsAt:
  assumes "connInv c" and "callsAt m i c c'"
  shows "connInv c'"
proof (cases "sessions c m")
  case None
  have "sessions c' n = sessions c n" for n using assms(2) None by (cases "n = m") (simp_all add: callsAt_def)
  then have "sessions c' = sessions c" by (rule ext)
  with assms show ?thesis by (intro connInv_same [OF assms(1)]) (simp_all add: callsAt_def)
next
  case (Some s)
  with assms(2) obtain s' where s': "sessions c' m = Some s'" "onlyCalls i s s'" by (auto simp: callsAt_def)
  then have same: "sessionConsistent s' = sessionConsistent s" "sessionId s' = sessionId s"
    by (simp_all add: onlyCalls_consistent)
  then have "connInv (putSession m s' c)" using connInv_put [OF assms(1) Some] connInv_consistent [OF assms(1) Some] by simp
  moreover have "sessions c' n = sessions (putSession m s' c) n" for n
    using assms(2) s'(1) by (cases "n = m") (simp_all add: callsAt_def putSession_def)
  then have "sessions c' = sessions (putSession m s' c)" by (rule ext)
  moreover have "nextSessionID c' = nextSessionID (putSession m s' c)" using assms(2) by (simp add: callsAt_def putSession_def)
  ultimately show ?thesis by (rule connInv_same)
qed

lemma connInv_reconnect: "connInv c \<Longrightarrow> connInv (requestReconnect ims now m client c)"
  by (auto simp: requestReconnect_def connInv_disconnect split: option.split)

lemma connInv_lost: "connInv c \<Longrightarrow> connInv (handleClientDisconnected ims now m client err c)"
  by (simp add: handleClientDisconnected_def connInv_reconnect split: option.split)

lemma connInv_failPending: "connInv c \<Longrightarrow> connInv (snd (finishFailedPendingVoiceDial ims now m p reason c))"
  by (auto simp: finishFailedPendingVoiceDial_def Let_def sessionConsistent_def
      split: option.split dest: connInv_consistent intro!: connInv_put)

lemma connInv_finishAction: "connInv c \<Longrightarrow> connInv (snd (finishCallAction ims now m i client info res kind c))"
proof (cases "resError res")
  case None
  assume "connInv c"
  then show ?thesis by (rule connInv_callsAt [OF _ finishAction_callsAt [OF None]])
qed (simp add: finishCallAction_def connInv_lost)

text \<open>
  The goroutine of a session attaches a websheet while it connects (\<open>connectOnce\<close>), so that its session is not connected: only
  the same goroutine marks it connected, later.
\<close>

definition attachesIdle :: "voiceOp \<Rightarrow> coordinator \<Rightarrow> bool" where
  "attachesIdle op c \<longleftrightarrow>
     (case op of
        SessionOp (OpAttachWebsheet m i sheet) \<Rightarrow>
          (case sessions c m of None \<Rightarrow> True | Some s \<Rightarrow> sessionId s = i \<longrightarrow> \<not> connected s)
      | _ \<Rightarrow> True)"

fun attachesInOrder :: "imsVoice \<Rightarrow> voiceOp list \<Rightarrow> voiceRun \<Rightarrow> bool" where
  "attachesInOrder ims [] r = True"
| "attachesInOrder ims (op # ops) r \<longleftrightarrow> attachesIdle op (runCoordinator r) \<and> attachesInOrder ims ops (voiceStep ims op r)"

lemma connInv_attachWebsheet: "connInv c \<Longrightarrow> attachesIdle (SessionOp (OpAttachWebsheet m i sheet)) c \<Longrightarrow> connInv (fst (attachWebsheet m i sheet c))"
  by (auto simp: attachesIdle_def attachWebsheet_def setWebsheet_def sessionConsistent_def
      split: option.splits prod.split bool.split intro!: connInv_put)

lemma connInv_clearWebsheet: "connInv c \<Longrightarrow> connInv (fst (clearWebsheet m i sheet c))"
  by (auto simp: clearWebsheet_def sessionConsistent_def
      split: option.split dest: connInv_consistent intro!: connInv_put)

lemma connInv_step:
  assumes "connInv c" and "attachesIdle (SessionOp op) c"
  shows "connInv (sessionStep ims op c)"
proof (cases op)
  case (OpStart m path profile)
  with assms show ?thesis by (simp add: connInv_start)
next
  case (OpDetach now m)
  with assms show ?thesis by (simp add: connInv_detach)
next
  case (OpDetachByID now m i)
  with assms show ?thesis by (simp add: detachSessionByID_def connInv_detach split: option.split)
next
  case (OpEvent now m i ev)
  with assms show ?thesis by (simp add: connInv_event)
next
  case (OpDisconnected now m i client)
  with assms show ?thesis by (auto simp: markDisconnected_def connInv_disconnect split: option.split)
next
  case (OpReconnect now m client)
  with assms show ?thesis by (simp add: connInv_reconnect)
next
  case (OpFailPending now m p reason)
  with assms show ?thesis by (simp add: connInv_failPending)
next
  case (OpDialled hash text' now m profile to client p res)
  show ?thesis
  proof (cases res)
    case (Inl err)
    with OpDialled assms dialFinish_failed [of ims hash text' now m profile to client p err c] connInv_lost [OF assms(1)] show ?thesis
      by (auto simp: Let_def connInv_failPending)
  next
    case (Inr call)
    with OpDialled connInv_callsAt [OF assms(1) callsAt_dialled] show ?thesis by simp
  qed
next
  case (OpIncoming now m profile i call number at)
  with connInv_callsAt [OF assms(1) callsAt_incoming] show ?thesis by simp
next
  case (OpAttachWebsheet m i sheet)
  with assms show ?thesis by (simp add: connInv_attachWebsheet)
next
  case (OpClearWebsheet m i sheet)
  with assms show ?thesis by (simp add: connInv_clearWebsheet)
qed (use assms(1) in \<open>auto simp: markConnected_def markConnecting_def setPendingVoiceDial_def Let_def
    clearPendingVoiceDial_def setUSSDSession_def sessionConsistent_def
    split: option.split dest: connInv_consistent intro!: connInv_put\<close>)

lemma connInv_voiceStep: "connInv (runCoordinator r) \<Longrightarrow> attachesIdle op (runCoordinator r) \<Longrightarrow> connInv (runCoordinator (voiceStep ims op r))"
  by (cases op) (auto simp: connInv_step connInv_finishAction split: sum.split option.split)

lemma connInv_run: "connInv (runCoordinator r) \<Longrightarrow> attachesInOrder ims ops r \<Longrightarrow> connInv (runCoordinator (fold (voiceStep ims) ops r))"
  by (induction ops arbitrary: r) (simp_all add: connInv_voiceStep)

lemma status_connected:
  assumes "connInv c"
  shows "statusConnected (statusFromSession enabled preferred (sessions c m) profile now) \<longleftrightarrow>
    (\<exists>client. connectedClient m profile c = Inr client)"
proof (cases "sessions c m")
  case None
  then show ?thesis by (simp add: statusFromSession_def Let_def connectedClient_def)
next
  case (Some s)
  have "sessionConsistent s" using assms Some by (rule connInv_consistent)
  with Some show ?thesis
    by (cases "phase s")
      (auto simp: statusFromSession_def connectedClient_def sessionConsistent_def Let_def split: option.split)
qed

section \<open>Properties\<close>

text \<open>The constants of the library and a call, for the examples.\<close>

definition exampleIms :: imsVoice where
  "exampleIms = \<lparr>CallStateEnded = ''ended'', CallStateFailed = ''failed'', CallStateActive = ''active'',
     CallStateConfirmed = ''confirmed'', CallHoldNone = ''none'', CallDirectionOutgoing = ''outgoing''\<rparr>"

definition exampleCall :: VoiceCall where
  "exampleCall = noVoiceCall\<lparr>vcID := ''c'', vcModemID := ''m'', vcProfileID := ''p'', vcState := ''active'', vcStartedAt := 1\<rparr>"

definition exampleSession :: "VoiceCall \<Rightarrow> sessionState" where
  "exampleSession info = \<lparr>sessionId = 1, phase = PhaseConnected, sessionClient = Some 7, sessionUssd = None,
     sessionCalls = [(''c'', \<lparr>vsCall = Some 3, vsInfo = info, vsUpdatedAt = 1\<rparr>)], pendingDial = None, modemPath = ''/1'',
     sessionProfile = ''p'', connected = True, connectedAt = 1, sessionWebsheet = None, reconnectSignal = False\<rparr>"

definition exampleCoordinator :: "VoiceCall \<Rightarrow> coordinator" where
  "exampleCoordinator info = \<lparr>sessions = [''m'' \<mapsto> exampleSession info], nextSessionID = 1, published = []\<rparr>"

text \<open>
  A transition of a call never changes which call it is, leaves a finished call alone, keeps the time a
  call was answered once it has one, stamps a call that becomes finished with the time of the transition, and reports
  a change exactly when there is one.
\<close>

theorem voice_call_transition:
  assumes "advanceVoiceCall ims now info tr = (nxt, changed)"
  shows "(changed \<longleftrightarrow> nxt \<noteq> info) \<and>
    vcID nxt = vcID info \<and> vcModemID nxt = vcModemID info \<and> vcProfileID nxt = vcProfileID info \<and>
    vcNumber nxt = vcNumber info \<and> vcStartedAt nxt = vcStartedAt info \<and>
    (isTerminalVoiceCallState ims (vcState info) \<longrightarrow> nxt = info) \<and>
    (vcAnsweredAt info \<noteq> zero_time \<longrightarrow> vcAnsweredAt nxt = vcAnsweredAt info) \<and>
    (nxt \<noteq> info \<and> isTerminalVoiceCallState ims (vcState nxt) \<longrightarrow>
      vcEndedAt nxt = (if trAt tr = zero_time then now else trAt tr))"
proof -
  let ?at = "if trAt tr = 0 then now else trAt tr"
  have stamp: "isTerminalVoiceCallState ims (vcState (advancedCall ims at tr info)) \<Longrightarrow>
      vcEndedAt (advancedCall ims at tr info) = at" for at
    by (simp add: advancedCall_def Let_def)
  have final: "isTerminalVoiceCallState ims (vcState info) \<Longrightarrow> nxt = info"
    using assms advance_terminal [of ims info now tr] by simp
  have "nxt \<noteq> info \<Longrightarrow> nxt = advancedCall ims ?at tr info"
    using advance_cases [OF assms] by blast
  then have "nxt \<noteq> info \<and> isTerminalVoiceCallState ims (vcState nxt) \<longrightarrow> vcEndedAt nxt = ?at"
    using stamp [of ?at] by auto
  with advance_identity [OF assms] final show ?thesis by blast
qed

theorem voice_call_transition_witness:
  "\<exists>nxt. advanceVoiceCall exampleIms 5 exampleCall \<lparr>trState = ''ended'', trHold = [], trReason = [], trReasonSet = False,
      trAnswered = False, trEnded = False, trAt = 9\<rparr> = (nxt, True) \<and> vcEndedAt nxt = 9"
proof -
  let ?tr = "\<lparr>trState = ''ended'', trHold = [], trReason = [], trReasonSet = False, trAnswered = False,
      trEnded = False, trAt = 9\<rparr>"
  obtain nxt ch where run: "advanceVoiceCall exampleIms 5 exampleCall ?tr = (nxt, ch)" by fastforce
  then have "ch" "vcState nxt = ''ended''"
    by (auto simp: advanceVoiceCall_def exampleIms_def exampleCall_def noVoiceCall_def isTerminalVoiceCallState_def
        isAnsweredVoiceCallState_def)
  with voice_call_transition [OF run] run show ?thesis
    by (simp add: isTerminalVoiceCallState_def exampleIms_def)
qed

text \<open>
  C1: In any state of the sessions (in which, as they are maps, no call is listed twice), a call of a session that has finished keeps its final state and the time it ended under every sequence of session operations:
  connecting, losing the connection, websheets, events of the library, dials that succeed or fail, incoming calls, USSD, and answering,
  rejecting, hanging up, holding and resuming calls, where anything may happen between the look-up and the end of such an action. This
  holds as long as the session of the call is not detached, no action that read the call before it finished is still to end, and
  the library does not report the same call once more as dialled or incoming; the end of a dial and the report of an incoming call count as
  one step each, and the identifier of the call has no spaces around it.
\<close>

theorem finished_voice_call_stays:
  assumes "sessionsOk (runCoordinator r)" and "callIn k (runCoordinator r) = Some v" and "isTerminalVoiceCallState ims (vcState (vsInfo v))"
    and "trim_space (snd k) = snd k" and "\<And>l. l \<in> ran (runLookups r) \<Longrightarrow> (lcModem l, lcCall l) = k \<Longrightarrow>
      vcState (lcInfo l) = vcState (vsInfo v) \<and> vcEndedAt (lcInfo l) = vcEndedAt (vsInfo v)"
    and "list_all (\<lambda>op. \<not> replacesCall op k) ops"
  shows "\<exists>v'. callIn k (runCoordinator (fold (voiceStep ims) ops r)) = Some v' \<and>
    vcState (vsInfo v') = vcState (vsInfo v) \<and> vcEndedAt (vsInfo v') = vcEndedAt (vsInfo v)"
proof -
  have "endedInfo ims (vcState (vsInfo v)) (vcEndedAt (vsInfo v)) (lcInfo l)" if "l \<in> looksAt k r" for l
    using that assms(3,5) by (auto simp: looksAt_def endedInfo_def)
  then have "endedRun ims (vcState (vsInfo v)) (vcEndedAt (vsInfo v)) (v, looksAt k r)"
    using assms(3) by (simp add: endedRun_def endedAs_def endedInfo_def)
  moreover have "runCallIn k r = Some (v, looksAt k r)" using assms(2) by (simp add: runCallIn_def)
  ultimately have "\<exists>x. runCallIn k (fold (voiceStep ims) ops r) = Some x \<and> endedRun ims (vcState (vsInfo v)) (vcEndedAt (vsInfo v)) x"
    using assms(4,6) by (intro ended_calls.final_run [OF assms(1)]) simp_all
  then show ?thesis by (auto simp: runCallIn_def endedRun_def endedAs_def endedInfo_def)
qed

definition exampleRun :: "VoiceCall \<Rightarrow> voiceRun" where
  "exampleRun info = \<lparr>runCoordinator = exampleCoordinator info, runLookups = Map.empty\<rparr>"

theorem finished_voice_call_stays_witness:
  "\<exists>v. callIn (''m'', ''c'') (runCoordinator (fold (voiceStep exampleIms)
      [BeginAction 0 ''m'' ''p'' ''c'', SessionOp (OpDisconnected 9 ''m'' 1 (Some 7)), SessionOp (OpConnected 10 ''m'' 1 8),
       FinishAction 0 Holding 11 \<lparr>resError = None, resState = ''active'', resHold = ''local''\<rparr>]
      (exampleRun (exampleCall\<lparr>vcState := ''ended'', vcEndedAt := 4\<rparr>)))) = Some v \<and>
     vcState (vsInfo v) = ''ended'' \<and> vcEndedAt (vsInfo v) = 4"
proof -
  let ?r = "exampleRun (exampleCall\<lparr>vcState := ''ended'', vcEndedAt := 4\<rparr>)"
  let ?v = "\<lparr>vsCall = Some 3, vsInfo = exampleCall\<lparr>vcState := ''ended'', vcEndedAt := 4\<rparr>, vsUpdatedAt = 1\<rparr>"
  have "sessionsOk (runCoordinator ?r)" by (simp add: exampleRun_def sessionsOk_def exampleCoordinator_def exampleSession_def)
  moreover have "callIn (''m'', ''c'') (runCoordinator ?r) = Some ?v"
    by (simp add: callIn_def exampleRun_def exampleCoordinator_def exampleSession_def)
  moreover have "isTerminalVoiceCallState exampleIms (vcState (vsInfo ?v))"
    by (simp add: isTerminalVoiceCallState_def exampleIms_def)
  moreover have "trim_space (snd (''m'', ''c'')) = snd (''m'', ''c'')" by (simp add: trim_space_graphic graphic_def)
  ultimately have "\<exists>v'. callIn (''m'', ''c'') (runCoordinator (fold (voiceStep exampleIms)
      [BeginAction 0 ''m'' ''p'' ''c'', SessionOp (OpDisconnected 9 ''m'' 1 (Some 7)), SessionOp (OpConnected 10 ''m'' 1 8),
       FinishAction 0 Holding 11 \<lparr>resError = None, resState = ''active'', resHold = ''local''\<rparr>] ?r)) = Some v' \<and>
     vcState (vsInfo v') = vcState (vsInfo ?v) \<and> vcEndedAt (vsInfo v') = vcEndedAt (vsInfo ?v)"
    by (rule finished_voice_call_stays) (simp_all add: exampleRun_def)
  then show ?thesis by simp
qed

text \<open>
  When the client of a session is lost, every call of the session that was still open is failed, published exactly once,
  in the order of the map, and no call of the session is open afterwards.
\<close>

theorem disconnect_fails_open_calls:
  assumes "sessions c m = Some s" and "sessionClient s = client" and "now \<noteq> zero_time" and "CallStateFailed ims \<noteq> []"
  shows "published (markDisconnected ims now m (sessionId s) client c) = published c @
      map (\<lambda>(i, st). vsInfo (disconnectCall ims now st)) (filter (\<lambda>(i, st). callOpen ims st) (sessionCalls s)) \<and>
    (\<forall>k st. map_of (sessionCalls s) k = Some st \<longrightarrow>
      (\<exists>st'. callIn (m, k) (markDisconnected ims now m (sessionId s) client c) = Some st' \<and> \<not> callOpen ims st'))"
proof -
  have mark: "markDisconnected ims now m (sessionId s) client c = disconnectSession ims now m s c"
    using assms(1,2) by (simp add: markDisconnected_def)
  have "\<not> callOpen ims (disconnectCall ims now st)" for st
  proof (cases "callOpen ims st")
    case True
    then show ?thesis using disconnectCall_closed [OF assms(4,3), of st] by (simp add: callOpen_def)
  next
    case False
    then show ?thesis by (simp add: disconnectCall_def)
  qed
  then show ?thesis
    unfolding mark disconnectSession_published using disconnectSession_calls by blast
qed

theorem disconnect_fails_open_calls_witness:
  "map vcState (published (markDisconnected exampleIms 9 ''m'' 1 (Some 7) (exampleCoordinator exampleCall))) = [''failed'']"
proof -
  have s: "sessions (exampleCoordinator exampleCall) ''m'' = Some (exampleSession exampleCall)"
    by (simp add: exampleCoordinator_def)
  have "sessionId (exampleSession exampleCall) = 1" "sessionClient (exampleSession exampleCall) = Some 7"
    by (simp_all add: exampleSession_def)
  then have "published (markDisconnected exampleIms 9 ''m'' 1 (Some 7) (exampleCoordinator exampleCall)) =
      map (\<lambda>(i, st). vsInfo (disconnectCall exampleIms 9 st))
        (filter (\<lambda>(i, st). callOpen exampleIms st) (sessionCalls (exampleSession exampleCall)))"
    using disconnect_fails_open_calls [OF s, of "Some 7" 9 exampleIms]
    by (simp add: exampleIms_def exampleCoordinator_def)
  moreover have "map (\<lambda>(i, st). vcState (vsInfo (disconnectCall exampleIms 9 st)))
      (filter (\<lambda>(i, st). callOpen exampleIms st) (sessionCalls (exampleSession exampleCall))) = [''failed'']"
    by code_simp
  ultimately show ?thesis by (simp add: comp_def case_prod_unfold)
qed

text \<open>
  C14: After every sequence of session operations from the empty coordinator, in which websheets are attached only to sessions that are
  not connected, as the goroutine of a session does, the status of a modem says connected exactly when a call for that profile would find
  a connected client, session numbers are unique, and a session that is connected waits for no websheet.
\<close>

theorem status_agrees_with_client:
  assumes "attachesInOrder ims ops \<lparr>runCoordinator = \<lparr>sessions = Map.empty, nextSessionID = 0, published = []\<rparr>, runLookups = Map.empty\<rparr>"
  shows "let c = runCoordinator (fold (voiceStep ims) ops
      \<lparr>runCoordinator = \<lparr>sessions = Map.empty, nextSessionID = 0, published = []\<rparr>, runLookups = Map.empty\<rparr>) in
    (statusConnected (statusFromSession enabled preferred (sessions c m) profile now) \<longleftrightarrow>
      (\<exists>client. connectedClient m profile c = Inr client)) \<and> connInv c"
proof -
  have "connInv \<lparr>sessions = Map.empty, nextSessionID = 0, published = []\<rparr>" by (simp add: connInv_def)
  with connInv_run [OF _ assms] show ?thesis by (simp add: Let_def status_connected)
qed

definition exampleWebsheetOps :: "voiceOp list" where
  "exampleWebsheetOps = map SessionOp
     [OpStart ''m'' ''/1'' ''p'', OpAttachWebsheet ''m'' 1 (Some ''w''), OpConnected 5 ''m'' 1 7]"

theorem status_agrees_with_client_witness:
  "(let c = runCoordinator (fold (voiceStep exampleIms) exampleWebsheetOps
      \<lparr>runCoordinator = \<lparr>sessions = Map.empty, nextSessionID = 0, published = []\<rparr>, runLookups = Map.empty\<rparr>) in
    statusConnected (statusFromSession True False (sessions c ''m'') ''p'' 6) \<and> map_option sessionWebsheet (sessions c ''m'') = Some None)"
proof -
  let ?r = "\<lparr>runCoordinator = \<lparr>sessions = Map.empty, nextSessionID = 0, published = []\<rparr>, runLookups = Map.empty\<rparr>"
  let ?c = "runCoordinator (fold (voiceStep exampleIms) exampleWebsheetOps ?r)"
  have m: "trim_space ''m'' = ''m''" by (simp add: trim_space_graphic graphic_def)
  have "attachesInOrder exampleIms exampleWebsheetOps ?r"
    by (simp add: exampleWebsheetOps_def attachesIdle_def startSession_def putSession_def m)
  from status_agrees_with_client [OF this, of True False "''m''" "''p''" 6]
  have "statusConnected (statusFromSession True False (sessions ?c ''m'') ''p'' 6) \<longleftrightarrow>
      (\<exists>client. connectedClient ''m'' ''p'' ?c = Inr client)" and inv: "connInv ?c"
    by (simp_all add: Let_def)
  moreover obtain s where s: "sessions ?c ''m'' = Some s" "connected s" "sessionClient s = Some 7" "sessionProfile s = ''p''"
    by (simp add: exampleWebsheetOps_def startSession_def putSession_def m attachWebsheet_def setWebsheet_def markConnected_def)
  moreover from connInv_consistent [OF inv s(1)] s(2) have "sessionWebsheet s = None" by (simp add: sessionConsistent_def)
  ultimately show ?thesis by (simp add: Let_def connectedClient_def)
qed

text \<open>
  An action on a call is not atomic: holding a call that ends while the library is asked writes back the call as it was before,
  so that the call is active again in its session and is published as active after it was published as ended.
\<close>

theorem hold_reopens_ended_call:
  "(let ended = forwardCallEvent exampleIms 5 ''m'' 1
      \<lparr>evCallID = ''c'', evCall = None, evState = ''ended'', evHold = [], evCause = [], evAt = 5\<rparr>;
     (r, c) = HoldCall exampleIms 6 ''m'' (Inr ''p'') ''c'' ended \<lparr>resError = None, resState = ''active'', resHold = ''local''\<rparr>
       (exampleCoordinator exampleCall)
   in map vcState (published c) = [''ended'', ''active''] \<and>
      map_option (\<lambda>st. vcState (vsInfo st)) (callIn (''m'', ''c'') c) = Some ''active'')"
  by code_simp

text \<open>
  A call that ends while \<open>Dial\<close> is still to return is stored once more when it does, from what the call object says: it is finished, but
  the time it ended and the cause are gone, and it is published again without them.
\<close>

theorem dial_forgets_end:
  "(let ended = forwardCallEvent exampleIms 5 ''m'' 1
      \<lparr>evCallID = ''d'', evCall = None, evState = ''ended'', evHold = [], evCause = ''busy'', evAt = 5\<rparr>;
     (r, c) = DialCall exampleIms id (\<lambda>_. []) 4 6 ''m'' (Inr ''p'') ''1'' ended
       (Inr \<lparr>imsPtr = 9, imsID = ''d'', imsDirection = ''outgoing'', imsState = ''ended'', imsHold = []\<rparr>) (exampleCoordinator exampleCall)
   in map (\<lambda>v. (vcState v, vcEndedAt v, vcReason v)) (published c) = [(''ended'', 5, ''busy''), (''ended'', 0, [])] \<and>
      map_option (\<lambda>st. (vcState (vsInfo st), vcEndedAt (vsInfo st))) (callIn (''m'', ''d'') c) = Some (''ended'', 0))"
  by code_simp

end
