(* ===== verification/CallControl.thy ===== *)
theory CallControl
  imports CallStore VoiceSession
begin

text \<open>
  The call service (\<open>pro/call\<close>): dialling, answering, holding, hanging up, tones, media and
  deletion (\<open>call_actions.go\<close>, \<open>call_media.go\<close>, \<open>calls.go\<close>), the choice of a route
  (\<open>call_routes.go\<close>), the records (\<open>call_records.go\<close>), normalisation (\<open>call_normalize.go\<close>)
  and the forwarding of voice events (\<open>call_voice_events.go\<close>).

  The interface \<open>wifiCallingVoice\<close> of the source is a record of functions on an abstract
  outside world, which also holds the clock and decides which database statements fail. The
  state of the service is that world, the table of calls and the events published so far.
\<close>

section \<open>Interface and state\<close>

datatype voiceErr = VErrNotConnected | VErrUnavailable | VErrUnsupportedDTMF | VErrUnsupportedCodec | VErrOther string

datatype callErr =
  ErrNumberRequired | ErrInvalidNumber | ErrUSSDDialString | ErrInvalidRoute | ErrNoRouteAvailable |
  ErrWiFiCallingNotConnected | ErrModemCallingUnavailable | ErrCallNotFound | ErrInvalidCallState |
  ErrCallRecordActive | ErrMediaUnavailable | ErrUnsupportedCodec | ErrUnsupportedDTMF |
  ErrInvalidCallHold | ErrCallUpdateConflict | ErrDTMFDigitsRequired | ErrInvalidDTMFDigit |
  ErrInvalidDTMFCallState | ErrCallOnHold |
  StorageErr storeError | ProfileErr string | StatusErr string | ActionErr string string |
  DialErr voiceErr | DialSaveErr voiceErr callErr

record 'v wifiCallingVoice =
  clock :: "'v \<Rightarrow> time \<times> 'v"
  dbFault :: "'v \<Rightarrow> string option \<times> 'v"
  voiceStatus :: "string \<Rightarrow> 'v \<Rightarrow> (string + bool) \<times> 'v"
  voiceDial :: "string \<Rightarrow> string \<Rightarrow> 'v \<Rightarrow> ((VoiceCall \<times> voiceErr) + VoiceCall) \<times> 'v"
  voiceAnswer :: "string \<Rightarrow> string \<Rightarrow> 'v \<Rightarrow> (voiceErr + VoiceCall) \<times> 'v"
  voiceReject :: "string \<Rightarrow> string \<Rightarrow> 'v \<Rightarrow> (voiceErr + VoiceCall) \<times> 'v"
  voiceHangup :: "string \<Rightarrow> string \<Rightarrow> 'v \<Rightarrow> (voiceErr + VoiceCall) \<times> 'v"
  voiceHold :: "string \<Rightarrow> string \<Rightarrow> 'v \<Rightarrow> (voiceErr + VoiceCall) \<times> 'v"
  voiceResume :: "string \<Rightarrow> string \<Rightarrow> 'v \<Rightarrow> (voiceErr + VoiceCall) \<times> 'v"
  voiceDTMF :: "string \<Rightarrow> string \<Rightarrow> string \<Rightarrow> 'v \<Rightarrow> voiceErr option \<times> 'v"
  voiceOpenMedia :: "string \<Rightarrow> string \<Rightarrow> 'v \<Rightarrow> (voiceErr + nat) \<times> 'v"

record 'v callService =
  voiceWorld :: 'v
  callTableOf :: callTable
  callEvents :: "Call list"
  hangupCleanups :: "(string \<times> string) list"

text \<open>The modem of a request: its IMEI, and its profile id or the error of reading it.\<close>

record callModem =
  cmID :: string
  cmProfile :: "string + string"

definition outside :: "('v \<Rightarrow> 'a \<times> 'v) \<Rightarrow> 'v callService \<Rightarrow> 'a \<times> 'v callService" where
  "outside f s = (let (a, v) = f (voiceWorld s) in (a, s\<lparr>voiceWorld := v\<rparr>))"

section \<open>Normalisation\<close>

definition isTerminalCallState :: "string \<Rightarrow> bool" where
  "isTerminalCallState st \<longleftrightarrow> st = ''ended'' \<or> st = ''failed''"

definition normalizeHold :: "string \<Rightarrow> string" where
  "normalizeHold hold =
     (let hold = trim_space hold
      in if hold = ''local'' \<or> hold = ''remote'' \<or> hold = ''local_remote'' then hold else ''none'')"

definition normalizeRoute :: "string \<Rightarrow> string" where
  "normalizeRoute route = (let route = trim_space route in if route = [] then ''auto'' else route)"

definition validRoute :: "string \<Rightarrow> bool" where
  "validRoute route \<longleftrightarrow> List.member [''auto'', ''wifi_calling'', ''modem''] route"

definition callFromWiFiCalling :: "time \<Rightarrow> VoiceCall \<Rightarrow> Call" where
  "callFromWiFiCalling now c =
     (let updatedAt = (if vcUpdatedAt c = zero_time then now else vcUpdatedAt c);
          startedAt = (if vcStartedAt c = zero_time then updatedAt else vcStartedAt c)
      in \<lparr>ID = vcID c, ProfileID = vcProfileID c, ModemID = vcModemID c, Route = ''wifi_calling'',
          Direction = vcDirection c, Number = vcNumber c, State = trim_space (vcState c),
          Hold = normalizeHold (vcHold c), Reason = vcReason c, StartedAt = startedAt,
          AnsweredAt = vcAnsweredAt c, EndedAt = vcEndedAt c, UpdatedAt = updatedAt\<rparr>)"

definition isUSSDDialString :: "string \<Rightarrow> bool" where
  "isUSSDDialString number \<longleftrightarrow> starts_with number ''*'' \<or> starts_with number ''#''"

text \<open>The loop keeps the number built so far; \<open>None\<close> is the early return.\<close>

fun compactLoop :: "string \<Rightarrow> string \<Rightarrow> string option" where
  "compactLoop b [] = Some b"
| "compactLoop b (r # rs) =
     (if is_digit r then compactLoop (b @ [r]) rs
      else if r = CHR ''+'' \<and> b = [] then compactLoop (b @ [r]) rs
      else if r \<in> {CHR '' '', CHR ''-'', CHR ''.'', CHR ''('', CHR '')''} then compactLoop b rs
      else None)"

definition compactDialString :: "string \<Rightarrow> string option" where
  "compactDialString value =
     (case compactLoop [] value of
        None \<Rightarrow> None
      | Some number \<Rightarrow> if number = ''+'' then None else Some number)"

definition normalizeDialString :: "string \<Rightarrow> callErr + string" where
  "normalizeDialString number =
     (case compactDialString number of
        None \<Rightarrow> Inl ErrInvalidNumber
      | Some normalized \<Rightarrow> if normalized = [] then Inl ErrNumberRequired else Inr normalized)"

definition validDTMFDigit :: "char \<Rightarrow> bool" where
  "validDTMFDigit d \<longleftrightarrow>
     is_digit d \<or> d = CHR ''*'' \<or> d = CHR ''#'' \<or>
     d \<in> {CHR ''A'', CHR ''B'', CHR ''C'', CHR ''D''} \<or> d \<in> {CHR ''a'', CHR ''b'', CHR ''c'', CHR ''d''}"

definition validDTMFDigits :: "string \<Rightarrow> bool" where
  "validDTMFDigits digits \<longleftrightarrow> list_all validDTMFDigit digits"

definition dtmfCallState :: "string \<Rightarrow> bool" where
  "dtmfCallState st \<longleftrightarrow> st = ''early_media'' \<or> st = ''active'' \<or> st = ''confirmed''"

definition mapWiFiCallingActionError :: "string \<Rightarrow> voiceErr \<Rightarrow> callErr" where
  "mapWiFiCallingActionError action err =
     (case err of
        VErrNotConnected \<Rightarrow> ErrWiFiCallingNotConnected
      | VErrUnavailable \<Rightarrow> ErrCallNotFound
      | VErrUnsupportedDTMF \<Rightarrow> ErrUnsupportedDTMF
      | VErrUnsupportedCodec \<Rightarrow> ActionErr action ''wifi calling voice codec is not supported''
      | VErrOther t \<Rightarrow> ActionErr action t)"

definition mapWiFiCallingMediaError :: "voiceErr \<Rightarrow> callErr" where
  "mapWiFiCallingMediaError err =
     (case err of
        VErrUnsupportedCodec \<Rightarrow> ErrUnsupportedCodec
      | VErrUnavailable \<Rightarrow> ErrMediaUnavailable
      | VErrNotConnected \<Rightarrow> ErrWiFiCallingNotConnected
      | VErrUnsupportedDTMF \<Rightarrow> ActionErr ''open media'' ''wifi calling dtmf is not supported''
      | VErrOther t \<Rightarrow> ActionErr ''open media'' t)"

section \<open>Records\<close>

definition publish :: "Call \<Rightarrow> 'v callService \<Rightarrow> 'v callService" where
  "publish c s = s\<lparr>callEvents := callEvents s @ [c]\<rparr>"

definition onTable :: "(callTable \<Rightarrow> 'a \<times> callTable) \<Rightarrow> 'v callService \<Rightarrow> 'a \<times> 'v callService" where
  "onTable f s = (let (a, tab) = f (callTableOf s) in (a, s\<lparr>callTableOf := tab\<rparr>))"

text \<open>Look a call up for an action of a modem: it must exist and belong to modem and profile.\<close>

definition callForAction ::
  "'v wifiCallingVoice \<Rightarrow> callModem \<Rightarrow> string \<Rightarrow> 'v callService \<Rightarrow> (callErr + Call) \<times> 'v callService" where
  "callForAction wv modem callID s =
     (let (fault, s) = outside (dbFault wv) s in
      case GetCall fault callID (callTableOf s) of
        Inl ErrNotFound \<Rightarrow> (Inl ErrCallNotFound, s)
      | Inl e \<Rightarrow> (Inl (StorageErr e), s)
      | Inr call \<Rightarrow>
          (case cmProfile modem of
             Inl e \<Rightarrow> (Inl (ProfileErr e), s)
           | Inr profileID \<Rightarrow>
               if ProfileID call \<noteq> profileID \<or> ModemID call \<noteq> cmID modem then (Inl ErrCallNotFound, s)
               else (Inr call, s)))"

definition saveAndPublish ::
  "'v wifiCallingVoice \<Rightarrow> Call \<Rightarrow> 'v callService \<Rightarrow> (callErr + Call) \<times> 'v callService" where
  "saveAndPublish wv call s =
     (let (now, s) = outside (clock wv) s;
          (fault, s) = outside (dbFault wv) s;
          (fault', s) = outside (dbFault wv) s;
          (r, s) = onTable (SaveCallPreservingTerminal fault fault' now call) s
      in case r of
           Inl e \<Rightarrow> (Inl (StorageErr e), s)
         | Inr (saved, pub) \<Rightarrow> (Inr saved, if pub then publish saved s else s))"

definition deleteCall :: "'v wifiCallingVoice \<Rightarrow> Call \<Rightarrow> 'v callService \<Rightarrow> (callErr + unit) \<times> 'v callService" where
  "deleteCall wv call s =
     (if \<not> isTerminalCallState (State call) then (Inl ErrCallRecordActive, s)
      else
        let (fault, s) = outside (dbFault wv) s;
            (r, s) = onTable (DeleteCall fault (ProfileID call) (ModemID call) (ID call)) s
        in case r of
             Inl ErrNotFound \<Rightarrow> (Inl ErrCallNotFound, s)
           | Inl e \<Rightarrow> (Inl (StorageErr e), s)
           | Inr _ \<Rightarrow> (Inr (), s))"

section \<open>Routes\<close>

definition selectRoute ::
  "'v wifiCallingVoice \<Rightarrow> callModem \<Rightarrow> string \<Rightarrow> 'v callService \<Rightarrow> (callErr + string) \<times> 'v callService" where
  "selectRoute wv modem requested s =
     (if requested = ''modem'' then (Inr ''modem'', s)
      else
        let (status, s) = outside (voiceStatus wv (cmID modem)) s in
        case status of
          Inl e \<Rightarrow> (Inl (StatusErr e), s)
        | Inr isConnected \<Rightarrow>
            if requested = ''wifi_calling''
            then (if \<not> isConnected then Inl ErrWiFiCallingNotConnected else Inr ''wifi_calling'', s)
            else (if isConnected then Inr ''wifi_calling'' else Inl ErrNoRouteAvailable, s))"

section \<open>Actions\<close>

text \<open>Store the call the voice service returned.\<close>

definition saveVoiceCall ::
  "'v wifiCallingVoice \<Rightarrow> VoiceCall \<Rightarrow> 'v callService \<Rightarrow> (callErr + Call) \<times> 'v callService" where
  "saveVoiceCall wv call s =
     (let (now, s) = outside (clock wv) s in saveAndPublish wv (callFromWiFiCalling now call) s)"

definition Dial ::
  "'v wifiCallingVoice \<Rightarrow> callModem \<Rightarrow> string \<Rightarrow> string \<Rightarrow> 'v callService \<Rightarrow> (callErr + Call) \<times> 'v callService" where
  "Dial wv modem number route s =
     (let number = trim_space number in
      if number = [] then (Inl ErrNumberRequired, s)
      else let route = normalizeRoute route in
      if \<not> validRoute route then (Inl ErrInvalidRoute, s)
      else if isUSSDDialString number then (Inl ErrUSSDDialString, s)
      else case normalizeDialString number of
        Inl e \<Rightarrow> (Inl e, s)
      | Inr number \<Rightarrow>
          ebind (selectRoute wv modem route) (\<lambda>selected s.
            if selected = ''wifi_calling'' then
              (case outside (voiceDial wv (cmID modem) number) s of
                 (Inl (call, err), s) \<Rightarrow>
                   if err = VErrNotConnected then (Inl ErrWiFiCallingNotConnected, s)
                   else if vcID call \<noteq> [] then
                     (case saveVoiceCall wv call s of
                        (Inl e, s) \<Rightarrow> (Inl (DialSaveErr err e), s)
                      | (Inr _, s) \<Rightarrow> (Inl (DialErr err), s))
                   else (Inl (DialErr err), s)
               | (Inr call, s) \<Rightarrow> saveVoiceCall wv call s)
            else if selected = ''modem'' then (Inl ErrModemCallingUnavailable, s)
            else (Inl ErrNoRouteAvailable, s)) s)"

text \<open>Answer, reject and hold: act on the call, then store what the voice service returned.\<close>

definition voiceAction ::
  "'v wifiCallingVoice \<Rightarrow> string \<Rightarrow> (string \<Rightarrow> 'v \<Rightarrow> (voiceErr + VoiceCall) \<times> 'v) \<Rightarrow> Call \<Rightarrow>
   'v callService \<Rightarrow> (callErr + Call) \<times> 'v callService" where
  "voiceAction wv action f call s =
     (if Route call = ''wifi_calling'' then
        (case outside (f (ID call)) s of
           (Inl err, s) \<Rightarrow> (Inl (mapWiFiCallingActionError action err), s)
         | (Inr updated, s) \<Rightarrow> saveVoiceCall wv updated s)
      else if Route call = ''modem'' then (Inl ErrModemCallingUnavailable, s)
      else (Inl ErrInvalidRoute, s))"

definition Answer ::
  "'v wifiCallingVoice \<Rightarrow> callModem \<Rightarrow> string \<Rightarrow> 'v callService \<Rightarrow> (callErr + Call) \<times> 'v callService" where
  "Answer wv modem callID =
     ebind (callForAction wv modem callID) (voiceAction wv ''answer'' (voiceAnswer wv (cmID modem)))"

definition Reject ::
  "'v wifiCallingVoice \<Rightarrow> callModem \<Rightarrow> string \<Rightarrow> 'v callService \<Rightarrow> (callErr + Call) \<times> 'v callService" where
  "Reject wv modem callID =
     ebind (callForAction wv modem callID) (voiceAction wv ''reject'' (voiceReject wv (cmID modem)))"

definition SetHold ::
  "'v wifiCallingVoice \<Rightarrow> callModem \<Rightarrow> string \<Rightarrow> string \<Rightarrow> 'v callService \<Rightarrow> (callErr + Call) \<times> 'v callService" where
  "SetHold wv modem callID hold s =
     (let hold = trim_space hold in
      if hold \<noteq> ''local'' \<and> hold \<noteq> ''none'' then (Inl ErrInvalidCallHold, s)
      else ebind (callForAction wv modem callID)
        (voiceAction wv ''update hold''
          (if hold = ''local'' then voiceHold wv (cmID modem) else voiceResume wv (cmID modem))) s)"

definition endWiFiCallingCall ::
  "'v wifiCallingVoice \<Rightarrow> Call \<Rightarrow> 'v callService \<Rightarrow> (callErr + Call) \<times> 'v callService" where
  "endWiFiCallingCall wv call s =
     (if isTerminalCallState (State call) then (Inr call, s)
      else
        let (now, s) = outside (clock wv) s
        in saveAndPublish wv (call\<lparr>State := ''ended'', EndedAt := now, UpdatedAt := now\<rparr>) s)"

text \<open>The hangup of the voice call runs in the background: it is queued, and its result is only logged.\<close>

definition Hangup ::
  "'v wifiCallingVoice \<Rightarrow> callModem \<Rightarrow> string \<Rightarrow> 'v callService \<Rightarrow> (callErr + Call) \<times> 'v callService" where
  "Hangup wv modem callID =
     ebind (callForAction wv modem callID) (\<lambda>call s.
       if Route call = ''wifi_calling'' then
         ebind (endWiFiCallingCall wv call) (\<lambda>ended s.
           (Inr ended, s\<lparr>hangupCleanups := hangupCleanups s @ [(cmID modem, ID call)]\<rparr>)) s
       else if Route call = ''modem'' then (Inl ErrModemCallingUnavailable, s)
       else (Inl ErrInvalidRoute, s))"

definition cleanupWiFiCallingHangup :: "'v wifiCallingVoice \<Rightarrow> 'v callService \<Rightarrow> 'v callService" where
  "cleanupWiFiCallingHangup wv s =
     (case hangupCleanups s of
        [] \<Rightarrow> s
      | (m, i) # rest \<Rightarrow> (snd (outside (voiceHangup wv m i) s))\<lparr>hangupCleanups := rest\<rparr>)"

definition Update ::
  "'v wifiCallingVoice \<Rightarrow> callModem \<Rightarrow> string \<Rightarrow> string \<Rightarrow> string \<Rightarrow> string \<Rightarrow> 'v callService \<Rightarrow>
   (callErr + Call) \<times> 'v callService" where
  "Update wv modem callID st reason hold s =
     (let st = trim_space st; reason = trim_space reason; hold = trim_space hold in
      if st \<noteq> [] \<and> hold \<noteq> [] then (Inl ErrCallUpdateConflict, s)
      else if hold \<noteq> [] then SetHold wv modem callID hold s
      else if st = ''active'' then Answer wv modem callID s
      else if st = ''ended'' then
        if reason = ''busy'' then Reject wv modem callID s else Hangup wv modem callID s
      else (Inl ErrInvalidCallState, s))"

definition SendDTMF ::
  "'v wifiCallingVoice \<Rightarrow> callModem \<Rightarrow> string \<Rightarrow> string \<Rightarrow> 'v callService \<Rightarrow> (callErr + unit) \<times> 'v callService" where
  "SendDTMF wv modem callID digits s =
     (let digits = trim_space digits in
      if digits = [] then (Inl ErrDTMFDigitsRequired, s)
      else if \<not> validDTMFDigits digits then (Inl ErrInvalidDTMFDigit, s)
      else ebind (callForAction wv modem callID) (\<lambda>call s.
        if \<not> dtmfCallState (State call) then (Inl ErrInvalidDTMFCallState, s)
        else if Hold call = ''local'' \<or> Hold call = ''local_remote'' then (Inl ErrCallOnHold, s)
        else if Route call = ''wifi_calling'' then
          (case outside (voiceDTMF wv (cmID modem) (ID call) digits) s of
             (Some err, s) \<Rightarrow> (Inl (mapWiFiCallingActionError ''send DTMF'' err), s)
           | (None, s) \<Rightarrow> (Inr (), s))
        else if Route call = ''modem'' then (Inl ErrModemCallingUnavailable, s)
        else (Inl ErrInvalidRoute, s)) s)"

definition DeleteRecord ::
  "'v wifiCallingVoice \<Rightarrow> callModem \<Rightarrow> string \<Rightarrow> 'v callService \<Rightarrow> (callErr + unit) \<times> 'v callService" where
  "DeleteRecord wv modem callID = ebind (callForAction wv modem callID) (deleteCall wv)"

section \<open>Media and voice events\<close>

definition endUnavailable :: "'v wifiCallingVoice \<Rightarrow> Call \<Rightarrow> 'v callService \<Rightarrow> 'v callService" where
  "endUnavailable wv call s =
     (if isTerminalCallState (State call) then s
      else
        let (now, s) = outside (clock wv) s;
            call = call\<lparr>State := ''ended'', Reason := ''call media is not available'', EndedAt := now, UpdatedAt := now\<rparr>;
            (fault, s) = outside (dbFault wv) s;
            (r, s) = onTable (SaveCall fault now call) s
        in case r of Inl e \<Rightarrow> s | Inr _ \<Rightarrow> publish call s)"

definition OpenMedia ::
  "'v wifiCallingVoice \<Rightarrow> callModem \<Rightarrow> string \<Rightarrow> 'v callService \<Rightarrow> (callErr + nat) \<times> 'v callService" where
  "OpenMedia wv modem callID =
     ebind (callForAction wv modem callID) (\<lambda>call s.
       if Route call = ''wifi_calling'' then
         (case outside (voiceOpenMedia wv (cmID modem) (ID call)) s of
            (Inl err, s) \<Rightarrow>
              (Inl (mapWiFiCallingMediaError err),
               if err = VErrUnavailable then endUnavailable wv call s else s)
          | (Inr session, s) \<Rightarrow> (Inr session, s))
       else if Route call = ''modem'' then (Inl ErrModemCallingUnavailable, s)
       else (Inl ErrInvalidRoute, s))"

text \<open>The subscriber of the voice events: an event that cannot be stored is still published.\<close>

definition voiceEventReceived :: "'v wifiCallingVoice \<Rightarrow> VoiceCall \<Rightarrow> 'v callService \<Rightarrow> 'v callService" where
  "voiceEventReceived wv event s =
     (if vcID event = [] then s
      else
        let (now, s) = outside (clock wv) s;
            call = callFromWiFiCalling now event
        in case saveAndPublish wv call s of
             (Inl e, s) \<Rightarrow> publish call s
           | (Inr _, s) \<Rightarrow> s)"

text \<open>A compacted number is an optional plus sign and digits, and compacting it again changes nothing.\<close>

definition dialable :: "string \<Rightarrow> bool" where
  "dialable n \<longleftrightarrow> (case n of [] \<Rightarrow> True | c # cs \<Rightarrow> (c = CHR ''+'' \<or> is_digit c) \<and> list_all is_digit cs)"

lemma dialable_snoc: "dialable b \<Longrightarrow> is_digit r \<Longrightarrow> dialable (b @ [r])"
  by (cases b) (auto simp: dialable_def)

lemma compactLoop_dialable: "compactLoop b v = Some n \<Longrightarrow> dialable b \<Longrightarrow> dialable n"
proof (induction b v rule: compactLoop.induct)
  case (2 b r rs)
  then show ?case
    by (auto simp: dialable_snoc split: if_splits) (simp_all add: dialable_def)
qed simp

lemma compactLoop_digits: "list_all is_digit v \<Longrightarrow> compactLoop b v = Some (b @ v)"
  by (induction v arbitrary: b) auto

lemma compact_dialable: "compactDialString v = Some n \<Longrightarrow> dialable n \<and> n \<noteq> ''+''"
  by (auto simp: compactDialString_def dialable_def split: option.splits if_splits
      dest!: compactLoop_dialable)

lemma compact_idem: "dialable n \<Longrightarrow> n \<noteq> ''+'' \<Longrightarrow> compactDialString n = Some n"
proof -
  assume d: "dialable n" and n: "n \<noteq> ''+''"
  have "compactLoop [] n = Some n"
    using d by (cases n) (auto simp: dialable_def compactLoop_digits)
  with n show ?thesis by (simp add: compactDialString_def)
qed

section \<open>What the operations write\<close>

definition noDelete :: "callWrite \<Rightarrow> bool" where
  "noDelete op \<longleftrightarrow> (case op of WriteDelete _ _ _ _ \<Rightarrow> False | _ \<Rightarrow> True)"

definition tableWrites :: "'v callService \<Rightarrow> 'v callService \<Rightarrow> bool" where
  "tableWrites s s' \<longleftrightarrow>
     (\<exists>ws. callTableOf s' = fold callWriteStep ws (callTableOf s) \<and> list_all noDelete ws)"

lemma tableWrites_same [intro]: "callTableOf s' = callTableOf s \<Longrightarrow> tableWrites s s'"
  unfolding tableWrites_def by (intro exI [of _ "[]"]) simp

lemma tableWrites_trans: "tableWrites s s' \<Longrightarrow> tableWrites s' s'' \<Longrightarrow> tableWrites s s''"
  unfolding tableWrites_def by (metis fold_append comp_apply list_all_append)

lemma tableWrites_from: "callTableOf s1 = callTableOf s \<Longrightarrow> tableWrites s1 s' \<Longrightarrow> tableWrites s s'"
  by (simp add: tableWrites_def)

lemma tableWrites_to: "tableWrites s s1 \<Longrightarrow> callTableOf s' = callTableOf s1 \<Longrightarrow> tableWrites s s'"
  by (simp add: tableWrites_def)

lemma outside_table [simp]: "callTableOf (snd (outside f s)) = callTableOf s"
  by (simp add: outside_def split: prod.split)

lemma outside_state: "outside f s = (a, s') \<Longrightarrow> callTableOf s' = callTableOf s \<and> callEvents s' = callEvents s"
  by (auto simp: outside_def split: prod.splits)

lemma publish_table [simp]: "callTableOf (publish c s) = callTableOf s"
  by (simp add: publish_def)

lemma onTable_state: "onTable f s = (a, s') \<Longrightarrow> f (callTableOf s) = (a, callTableOf s') \<and> callEvents s' = callEvents s"
  by (auto simp: onTable_def split: prod.splits)

lemma savePreserving_write:
  "SaveCallPreservingTerminal fault fault' now c tab = (r, tab') \<Longrightarrow>
   tab' = callWriteStep (WritePreserving fault now c) tab"
  by (auto simp: SaveCallPreservingTerminal_def Let_def split: option.splits prod.splits)

lemma callForAction_table: "callForAction wv m i s = (r, s') \<Longrightarrow> callTableOf s' = callTableOf s"
  by (auto simp: callForAction_def Let_def split: prod.splits sum.splits storeError.splits if_splits
      dest: outside_state)

text \<open>Saving publishes exactly when the row was written, and publishes the row as it is stored.\<close>

lemma saveAndPublish_cases:
  assumes "saveAndPublish wv call s = (r, s')"
  obtains fault fault' now q where
    "SaveCallPreservingTerminal fault fault' now call (callTableOf s) = (q, callTableOf s')"
    "r = (case q of Inl e \<Rightarrow> Inl (StorageErr e) | Inr (saved, pub) \<Rightarrow> Inr saved)"
    "callEvents s' = callEvents s @ (case q of Inr (saved, True) \<Rightarrow> [saved] | _ \<Rightarrow> [])"
proof -
  obtain now s1 where s1: "outside (clock wv) s = (now, s1)" by fastforce
  obtain fault s2 where s2: "outside (dbFault wv) s1 = (fault, s2)" by fastforce
  obtain fault' s3 where s3: "outside (dbFault wv) s2 = (fault', s3)" by fastforce
  obtain q s4 where s4: "onTable (SaveCallPreservingTerminal fault fault' now call) s3 = (q, s4)" by fastforce
  have t: "callTableOf s3 = callTableOf s" "callEvents s3 = callEvents s"
    using outside_state [OF s1] outside_state [OF s2] outside_state [OF s3] by auto
  have run: "(case q of Inl e \<Rightarrow> (Inl (StorageErr e), s4)
      | Inr (saved, pub) \<Rightarrow> (Inr saved, if pub then publish saved s4 else s4)) = (r, s')"
    using assms by (simp add: saveAndPublish_def s1 s2 s3 s4 Let_def)
  have q: "SaveCallPreservingTerminal fault fault' now call (callTableOf s) = (q, callTableOf s')"
    using onTable_state [OF s4] t run by (auto split: sum.splits prod.splits if_splits)
  have r: "r = (case q of Inl e \<Rightarrow> Inl (StorageErr e) | Inr (saved, pub) \<Rightarrow> Inr saved)"
    using run by (auto split: sum.splits prod.splits)
  have e: "callEvents s' = callEvents s @ (case q of Inr (saved, True) \<Rightarrow> [saved] | _ \<Rightarrow> [])"
    using onTable_state [OF s4] t run by (auto simp: publish_def split: sum.splits prod.splits bool.splits)
  show thesis using that q r e by blast
qed

lemma saveAndPublish_writes: "saveAndPublish wv call s = (r, s') \<Longrightarrow> tableWrites s s'"
proof -
  assume "saveAndPublish wv call s = (r, s')"
  then obtain fault fault' now q where
    "SaveCallPreservingTerminal fault fault' now call (callTableOf s) = (q, callTableOf s')"
    by (rule saveAndPublish_cases)
  then have "callTableOf s' = callWriteStep (WritePreserving fault now call) (callTableOf s)"
    by (rule savePreserving_write)
  then show ?thesis
    unfolding tableWrites_def by (intro exI [of _ "[WritePreserving fault now call]"]) (simp add: noDelete_def)
qed

lemma saveVoiceCall_writes: "saveVoiceCall wv call s = (r, s') \<Longrightarrow> tableWrites s s'"
  by (auto simp: saveVoiceCall_def split: prod.splits dest!: outside_state saveAndPublish_writes
      intro: tableWrites_from)

lemma voiceAction_writes: "voiceAction wv action f call s = (r, s') \<Longrightarrow> tableWrites s s'"
  by (auto simp: voiceAction_def split: prod.splits sum.splits if_splits
      dest!: outside_state saveVoiceCall_writes intro: tableWrites_from)

lemma onCall_writes:
  assumes "ebind (callForAction wv modem callID) f s = (r, s')"
    and "\<And>call s1 r. f call s1 = (r, s') \<Longrightarrow> tableWrites s1 s'"
  shows "tableWrites s s'"
proof -
  obtain x s1 where c: "callForAction wv modem callID s = (x, s1)" by fastforce
  have t: "callTableOf s1 = callTableOf s" using c by (rule callForAction_table)
  show ?thesis
    using assms c t by (cases x) (auto simp: ebind_def intro: tableWrites_from)
qed

lemma Answer_writes: "Answer wv m i s = (r, s') \<Longrightarrow> tableWrites s s'"
  unfolding Answer_def by (erule onCall_writes) (rule voiceAction_writes)

lemma Reject_writes: "Reject wv m i s = (r, s') \<Longrightarrow> tableWrites s s'"
  unfolding Reject_def by (erule onCall_writes) (rule voiceAction_writes)

lemma SetHold_writes: "SetHold wv m i h s = (r, s') \<Longrightarrow> tableWrites s s'"
  unfolding SetHold_def Let_def
  by (auto split: if_splits elim: onCall_writes [OF _ voiceAction_writes])

lemma endWiFiCallingCall_writes: "endWiFiCallingCall wv call s = (r, s') \<Longrightarrow> tableWrites s s'"
  by (auto simp: endWiFiCallingCall_def split: if_splits prod.splits
      dest!: outside_state saveAndPublish_writes intro: tableWrites_from)

lemma Hangup_writes: "Hangup wv m i s = (r, s') \<Longrightarrow> tableWrites s s'"
  unfolding Hangup_def
proof (erule onCall_writes)
  fix call s1 r
  assume "(if Route call = ''wifi_calling'' then
         ebind (endWiFiCallingCall wv call) (\<lambda>ended s.
           (Inr ended, s\<lparr>hangupCleanups := hangupCleanups s @ [(cmID m, ID call)]\<rparr>)) s1
       else if Route call = ''modem'' then (Inl ErrModemCallingUnavailable, s1)
       else (Inl ErrInvalidRoute, s1)) = (r, s')"
  then show "tableWrites s1 s'"
    by (auto simp: ebind_def split: if_splits prod.splits sum.splits
        dest!: endWiFiCallingCall_writes intro: tableWrites_to)
qed

lemma cleanup_writes: "tableWrites s (cleanupWiFiCallingHangup wv s)"
  by (auto simp: cleanupWiFiCallingHangup_def split: list.split)

lemma Update_writes: "Update wv m i st re h s = (r, s') \<Longrightarrow> tableWrites s s'"
  unfolding Update_def Let_def
  by (auto split: if_splits dest: Answer_writes Reject_writes Hangup_writes SetHold_writes)

lemma SendDTMF_writes: "SendDTMF wv m i d s = (r, s') \<Longrightarrow> tableWrites s s'"
  unfolding SendDTMF_def Let_def
  by (auto split: if_splits prod.splits option.splits dest!: outside_state
      intro!: tableWrites_same elim!: onCall_writes)

lemma endUnavailable_writes: "tableWrites s (endUnavailable wv call s)"
proof (cases "isTerminalCallState (State call)")
  case False
  obtain now s1 where s1: "outside (clock wv) s = (now, s1)" by fastforce
  obtain fault s2 where s2: "outside (dbFault wv) s1 = (fault, s2)" by fastforce
  define c where "c = call\<lparr>State := ''ended'', Reason := ''call media is not available'', EndedAt := now, UpdatedAt := now\<rparr>"
  obtain q s3 where s3: "onTable (SaveCall fault now c) s2 = (q, s3)" by fastforce
  have "callTableOf s3 = callWriteStep (WriteEnded fault now c) (callTableOf s)"
    using onTable_state [OF s3] outside_state [OF s1] outside_state [OF s2]
    by (cases call) (simp add: c_def)
  then have "tableWrites s s3"
    unfolding tableWrites_def by (intro exI [of _ "[WriteEnded fault now c]"]) (simp add: noDelete_def)
  moreover have "callTableOf (endUnavailable wv call s) = callTableOf s3"
    using False by (simp add: endUnavailable_def s1 s2 s3 c_def [symmetric] Let_def split: sum.split)
  ultimately show ?thesis by (rule tableWrites_to)
qed (auto simp: endUnavailable_def)

lemma OpenMedia_writes: "OpenMedia wv m i s = (r, s') \<Longrightarrow> tableWrites s s'"
  unfolding OpenMedia_def
  by (erule onCall_writes)
    (auto split: if_splits prod.splits sum.splits dest!: outside_state
      intro: endUnavailable_writes tableWrites_from)

lemma voiceEvent_writes: "tableWrites s (voiceEventReceived wv ev s)"
  by (auto simp: voiceEventReceived_def Let_def split: prod.split sum.split
      dest!: outside_state saveAndPublish_writes intro: tableWrites_from tableWrites_to)

lemma selectRoute_table: "selectRoute wv m route s = (r, s') \<Longrightarrow> callTableOf s' = callTableOf s"
  by (auto simp: selectRoute_def Let_def split: prod.splits sum.splits if_splits dest: outside_state)

lemma Dial_writes: "Dial wv m n route s = (r, s') \<Longrightarrow> tableWrites s s'"
proof -
  assume run: "Dial wv m n route s = (r, s')"
  show ?thesis
  proof (cases "trim_space n = [] \<or> \<not> validRoute (normalizeRoute route) \<or> isUSSDDialString (trim_space n) \<or>
      (\<exists>e. normalizeDialString (trim_space n) = Inl e)")
    case True
    with run show ?thesis by (auto simp: Dial_def Let_def split: if_splits)
  next
    case False
    then obtain num where num: "normalizeDialString (trim_space n) = Inr num"
      by (cases "normalizeDialString (trim_space n)") auto
    obtain x s1 where sel: "selectRoute wv m (normalizeRoute route) s = (x, s1)" by fastforce
    have t: "callTableOf s1 = callTableOf s" using sel by (rule selectRoute_table)
    obtain y s2 where dial: "outside (voiceDial wv (cmID m) num) s1 = (y, s2)" by fastforce
    have t2: "callTableOf s2 = callTableOf s" using outside_state [OF dial] t by simp
    have "tableWrites s2 s' \<or> callTableOf s' = callTableOf s"
      using run False num sel dial t t2
      by (auto simp: Dial_def Let_def ebind_def split: if_splits sum.splits prod.splits
          dest!: saveVoiceCall_writes)
    then show ?thesis using t2 by (auto intro: tableWrites_from)
  qed
qed

section \<open>Runs of the service\<close>

datatype callOp =
    OpDial callModem string string
  | OpUpdate callModem string string string string
  | OpSetHold callModem string string
  | OpHangup callModem string
  | OpDTMF callModem string string
  | OpMedia callModem string
  | OpDelete callModem string
  | OpVoiceEvent VoiceCall
  | OpCleanup

fun callOpStep :: "'v wifiCallingVoice \<Rightarrow> callOp \<Rightarrow> 'v callService \<Rightarrow> 'v callService" where
  "callOpStep wv (OpDial m n route) s = snd (Dial wv m n route s)"
| "callOpStep wv (OpUpdate m i st reason hold) s = snd (Update wv m i st reason hold s)"
| "callOpStep wv (OpSetHold m i hold) s = snd (SetHold wv m i hold s)"
| "callOpStep wv (OpHangup m i) s = snd (Hangup wv m i s)"
| "callOpStep wv (OpDTMF m i digits) s = snd (SendDTMF wv m i digits s)"
| "callOpStep wv (OpMedia m i) s = snd (OpenMedia wv m i s)"
| "callOpStep wv (OpDelete m i) s = snd (DeleteRecord wv m i s)"
| "callOpStep wv (OpVoiceEvent ev) s = voiceEventReceived wv ev s"
| "callOpStep wv OpCleanup s = cleanupWiFiCallingHangup wv s"

fun opDeletes :: "callOp \<Rightarrow> string \<Rightarrow> bool" where
  "opDeletes (OpDelete m i) k \<longleftrightarrow> trim_space i = k"
| "opDeletes _ k \<longleftrightarrow> False"

definition serviceCall :: "string \<Rightarrow> 'v callService \<Rightarrow> Call option" where
  "serviceCall k s = lookupCall k (callTableOf s)"

definition serviceOk :: "'v callService \<Rightarrow> bool" where
  "serviceOk s \<longleftrightarrow> tableOk (callTableOf s)"

lemma callForAction_Inr:
  assumes "callForAction wv m i s = (Inr call, s')"
  shows "lookupCall (trim_space i) (callTableOf s) = Some call" "ID call = trim_space i"
    "cmProfile m = Inr (ProfileID call)" "ModemID call = cmID m"
proof -
  have "lookupCall (trim_space i) (callTableOf s) = Some call \<and> cmProfile m = Inr (ProfileID call) \<and>
      ModemID call = cmID m"
    using assms by (auto simp: callForAction_def GetCall_def Let_def
        split: prod.splits sum.splits storeError.splits if_splits option.splits dest: outside_state)
  then show "lookupCall (trim_space i) (callTableOf s) = Some call" "ID call = trim_space i"
    "cmProfile m = Inr (ProfileID call)" "ModemID call = cmID m"
    by (auto dest: lookup_ID)
qed

text \<open>A deletion removes nothing but the record it was asked to delete.\<close>

lemma DeleteRecord_table:
  assumes "DeleteRecord wv m i s = (r, s')"
  shows "callTableOf s' = callTableOf s \<or>
    (\<exists>call. lookupCall (trim_space i) (callTableOf s) = Some call \<and> isTerminalCallState (State call) \<and>
       callTableOf s' = callWriteStep (WriteDelete None (ProfileID call) (ModemID call) (ID call)) (callTableOf s))"
proof -
  obtain x s1 where c: "callForAction wv m i s = (x, s1)" by fastforce
  have t: "callTableOf s1 = callTableOf s" using c by (rule callForAction_table)
  show ?thesis
  proof (cases x)
    case (Inl e)
    with assms c t show ?thesis by (simp add: DeleteRecord_def ebind_def)
  next
    case (Inr call)
    with assms c have run: "deleteCall wv call s1 = (r, s')" by (simp add: DeleteRecord_def ebind_def)
    note found = callForAction_Inr [OF c [unfolded Inr]]
    show ?thesis
    proof (cases "isTerminalCallState (State call)")
      case False
      with run t show ?thesis by (simp add: deleteCall_def)
    next
      case True
      obtain fault s2 where s2: "outside (dbFault wv) s1 = (fault, s2)" by fastforce
      obtain q s3 where s3: "onTable (DeleteCall fault (ProfileID call) (ModemID call) (ID call)) s2 = (q, s3)"
        by fastforce
      have "s' = s3"
        using run True s2 s3 by (auto simp: deleteCall_def Let_def split: sum.splits storeError.splits)
      moreover have "DeleteCall fault (ProfileID call) (ModemID call) (ID call) (callTableOf s) = (q, callTableOf s3)"
        using onTable_state [OF s3] outside_state [OF s2] t by simp
      ultimately have "callTableOf s' = callTableOf s \<or>
          callTableOf s' = callWriteStep (WriteDelete None (ProfileID call) (ModemID call) (ID call)) (callTableOf s)"
        by (cases fault) (auto simp: DeleteCall_def Let_def split: if_splits)
      with True found show ?thesis by blast
    qed
  qed
qed

lemma callOp_writes: "(\<And>m i. op \<noteq> OpDelete m i) \<Longrightarrow> tableWrites s (callOpStep wv op s)"
  by (cases op)
    (auto intro: Dial_writes Update_writes SetHold_writes Hangup_writes SendDTMF_writes OpenMedia_writes
      voiceEvent_writes cleanup_writes simp: prod_eq_iff)

lemma noDelete_deletes: "list_all noDelete ws \<Longrightarrow> list_all (\<lambda>w. \<not> deletesCall w k) ws"
  by (induction ws) (auto simp: noDelete_def split: callWrite.splits)

lemma serviceOk_step: "serviceOk s \<Longrightarrow> serviceOk (callOpStep wv op s)"
proof (cases "\<exists>m i. op = OpDelete m i")
  case True
  then obtain m i where op: "op = OpDelete m i" by blast
  obtain r s' where d: "DeleteRecord wv m i s = (r, s')" by fastforce
  assume "serviceOk s"
  then show ?thesis
    using DeleteRecord_table [OF d] d op by (auto simp: serviceOk_def simp del: callWriteStep.simps intro: callWrite_ok)
next
  case False
  assume "serviceOk s"
  then show ?thesis
    using callOp_writes [of op s wv] False unfolding tableWrites_def serviceOk_def
    by (auto intro: terminal_calls.ok_run)
qed

lemma service_final_step:
  assumes final: "\<And>tab k r ops. tableOk tab \<Longrightarrow> lookupCall k tab = Some r \<Longrightarrow> P r \<Longrightarrow>
      list_all (\<lambda>op. \<not> deletesCall op k) ops \<Longrightarrow>
      \<exists>r'. lookupCall k (fold callWriteStep ops tab) = Some r' \<and> P r'"
    and ok: "serviceOk s" and found: "serviceCall k s = Some r" and "P r" and op: "\<not> opDeletes op k"
  shows "\<exists>r'. serviceCall k (callOpStep wv op s) = Some r' \<and> P r'"
proof -
  have "\<exists>ws. callTableOf (callOpStep wv op s) = fold callWriteStep ws (callTableOf s) \<and>
      list_all (\<lambda>w. \<not> deletesCall w k) ws"
  proof (cases "\<exists>m i. op = OpDelete m i")
    case True
    then obtain m i where o: "op = OpDelete m i" by blast
    obtain r s' where d: "DeleteRecord wv m i s = (r, s')" by fastforce
    have k: "trim_space i \<noteq> k" using op o by simp
    from DeleteRecord_table [OF d] show ?thesis
    proof (elim disjE exE conjE)
      assume "callTableOf s' = callTableOf s"
      with d o show ?thesis by (intro exI [of _ "[]"]) simp
    next
      fix call
      assume l: "lookupCall (trim_space i) (callTableOf s) = Some call"
        and t: "callTableOf s' = callWriteStep (WriteDelete None (ProfileID call) (ModemID call) (ID call)) (callTableOf s)"
      have "ID call = trim_space i" using l by (rule lookup_ID)
      with k d o t show ?thesis
        by (intro exI [of _ "[WriteDelete None (ProfileID call) (ModemID call) (ID call)]"]) simp
    qed
  next
    case False
    with callOp_writes [of op s wv] show ?thesis
      unfolding tableWrites_def by (blast dest: noDelete_deletes)
  qed
  then obtain ws where ws: "callTableOf (callOpStep wv op s) = fold callWriteStep ws (callTableOf s)"
    "list_all (\<lambda>w. \<not> deletesCall w k) ws" by blast
  from final [OF ok [unfolded serviceOk_def] found [unfolded serviceCall_def] \<open>P r\<close> ws(2)]
  show ?thesis by (simp add: serviceCall_def ws(1))
qed

interpretation service_terminal:
  absorbing serviceCall "callOpStep wv" "\<lambda>r. terminalText (State r)" opDeletes serviceOk for wv
  by unfold_locales (rule serviceOk_step, assumption, rule service_final_step [OF terminal_calls.final_run])

interpretation service_answered:
  absorbing serviceCall "callOpStep wv" "\<lambda>r. AnsweredAt r \<noteq> zero_time" opDeletes serviceOk for wv
  by unfold_locales (rule serviceOk_step, assumption, rule service_final_step [OF answered_calls.final_run])

section \<open>Properties\<close>

text \<open>A voice service without failures and a modem, for the examples.\<close>

definition exampleVoice :: "unit wifiCallingVoice" where
  "exampleVoice = \<lparr>clock = \<lambda>v. (100, v), dbFault = \<lambda>v. (None, v), voiceStatus = \<lambda>_ v. (Inr True, v),
     voiceDial = \<lambda>m n v. (Inr (noVoiceCall\<lparr>vcID := ''c'', vcModemID := m, vcProfileID := ''p'', vcDirection := ''outgoing'',
        vcNumber := n, vcState := ''active''\<rparr>), v),
     voiceAnswer = \<lambda>_ _ v. (Inl VErrUnavailable, v), voiceReject = \<lambda>_ _ v. (Inl VErrUnavailable, v),
     voiceHangup = \<lambda>_ _ v. (Inl VErrUnavailable, v), voiceHold = \<lambda>_ _ v. (Inl VErrUnavailable, v),
     voiceResume = \<lambda>_ _ v. (Inl VErrUnavailable, v), voiceDTMF = \<lambda>_ _ _ v. (None, v),
     voiceOpenMedia = \<lambda>_ _ v. (Inl VErrUnavailable, v)\<rparr>"

definition exampleRow :: "string \<Rightarrow> Call" where
  "exampleRow st = \<lparr>ID = ''c'', ProfileID = ''p'', ModemID = ''m'', Route = ''wifi_calling'', Direction = ''outgoing'',
     Number = ''1'', State = st, Hold = ''none'', Reason = [], StartedAt = 1, AnsweredAt = 2, EndedAt = 0, UpdatedAt = 3\<rparr>"

definition exampleService :: "string \<Rightarrow> unit callService" where
  "exampleService st = \<lparr>voiceWorld = (), callTableOf = [exampleRow st], callEvents = [], hangupCleanups = []\<rparr>"

lemma exampleService_ok: "trim_space st = st \<Longrightarrow> st \<noteq> [] \<Longrightarrow> tableOk (callTableOf (exampleService st))"
  by (simp add: exampleService_def exampleRow_def tableOk_def callOk_def validateCall_def trim_space_graphic graphic_def)

text \<open>
  C2: A finished call stays finished: no sequence of dials, updates, hangups, media requests, voice events (also stale ones) and database
  failures makes the record of an ended or failed call anything else, and it is there until it is deleted.
\<close>

theorem finished_call_stays_finished:
  assumes "tableOk (callTableOf s)" and "lookupCall k (callTableOf s) = Some r"
    and "State r = ''ended'' \<or> State r = ''failed''" and "list_all (\<lambda>op. \<not> opDeletes op k) ops"
  shows "\<exists>r'. lookupCall k (callTableOf (fold (callOpStep wv) ops s)) = Some r' \<and>
    (State r' = ''ended'' \<or> State r' = ''failed'')"
  using service_terminal.final_run [of s k r ops wv] assms
  by (simp add: serviceOk_def serviceCall_def terminalText_def)

theorem finished_call_stays_finished_witness:
  "\<exists>r'. lookupCall ''c'' (callTableOf (fold (callOpStep exampleVoice)
      [OpDial \<lparr>cmID = ''m'', cmProfile = Inr ''p''\<rparr> ''123'' ''auto'',
       OpVoiceEvent (noVoiceCall\<lparr>vcID := ''c'', vcState := ''active''\<rparr>)] (exampleService ''ended''))) = Some r' \<and>
     (State r' = ''ended'' \<or> State r' = ''failed'')"
proof -
  have "tableOk (callTableOf (exampleService ''ended''))"
    by (rule exampleService_ok) (simp_all add: trim_space_graphic graphic_def)
  then show ?thesis
    by (rule finished_call_stays_finished [where r = "exampleRow ''ended''"]) (simp_all add: exampleService_def exampleRow_def)
qed

text \<open>
  The answer time of a call is not lost: once a record has one, it has one after every sequence of service operations that
  does not delete it.
\<close>

theorem answered_call_stays_answered:
  assumes "tableOk (callTableOf s)" and "lookupCall k (callTableOf s) = Some r"
    and "AnsweredAt r \<noteq> zero_time" and "list_all (\<lambda>op. \<not> opDeletes op k) ops"
  shows "\<exists>r'. lookupCall k (callTableOf (fold (callOpStep wv) ops s)) = Some r' \<and> AnsweredAt r' \<noteq> zero_time"
  using service_answered.final_run [of s k r ops wv] assms by (simp add: serviceOk_def serviceCall_def)

theorem answered_call_stays_answered_witness:
  "\<exists>r'. lookupCall ''c'' (callTableOf (fold (callOpStep exampleVoice)
      [OpHangup \<lparr>cmID = ''m'', cmProfile = Inr ''p''\<rparr> ''c''] (exampleService ''active''))) = Some r' \<and>
     AnsweredAt r' \<noteq> zero_time"
proof -
  have "tableOk (callTableOf (exampleService ''active''))"
    by (rule exampleService_ok) (simp_all add: trim_space_graphic graphic_def)
  then show ?thesis
    by (rule answered_call_stays_answered [where r = "exampleRow ''active''"]) (simp_all add: exampleService_def exampleRow_def)
qed

text \<open>
  Only a finished call can be deleted, and only by its own modem and profile: a deletion leaves every other record as it is, and
  one that succeeds has removed a finished call of that modem and profile.
\<close>

theorem delete_only_finished:
  assumes "DeleteRecord wv m i s = (r, s')"
  shows "(\<forall>k. k \<noteq> trim_space i \<longrightarrow> lookupCall k (callTableOf s') = lookupCall k (callTableOf s)) \<and>
    (callTableOf s' = callTableOf s \<or>
     (\<exists>call. lookupCall (trim_space i) (callTableOf s) = Some call \<and>
        (State call = ''ended'' \<or> State call = ''failed'')))"
  using DeleteRecord_table [OF assms]
proof (elim disjE exE conjE)
  fix call
  assume l: "lookupCall (trim_space i) (callTableOf s) = Some call" and t: "isTerminalCallState (State call)"
    and d: "callTableOf s' = callWriteStep (WriteDelete None (ProfileID call) (ModemID call) (ID call)) (callTableOf s)"
  have "ID call = trim_space i" using l by (rule lookup_ID)
  with d have "\<forall>k. k \<noteq> trim_space i \<longrightarrow> lookupCall k (callTableOf s') = lookupCall k (callTableOf s)"
    by (simp add: lookup_delete_other)
  with l t show ?thesis by (auto simp: isTerminalCallState_def)
qed simp

theorem delete_only_finished_witness:
  "callTableOf (snd (DeleteRecord exampleVoice \<lparr>cmID = ''m'', cmProfile = Inr ''p''\<rparr> ''c'' (exampleService ''active''))) =
   callTableOf (exampleService ''active'')"
proof -
  obtain r s' where run: "DeleteRecord exampleVoice \<lparr>cmID = ''m'', cmProfile = Inr ''p''\<rparr> ''c''
      (exampleService ''active'') = (r, s')" by fastforce
  from delete_only_finished [OF this] run show ?thesis
    by (auto simp: exampleService_def exampleRow_def split: if_splits)
qed

text \<open>
  Tones are sent only for a call of the given modem and profile that is connected and not on hold, and
  only digits, star, hash and A to D; sending tones changes no record.
\<close>

theorem dtmf_guarded:
  assumes "SendDTMF wv m i digits s = (Inr (), s')"
  shows "\<exists>call. lookupCall (trim_space i) (callTableOf s) = Some call \<and>
    cmProfile m = Inr (ProfileID call) \<and> ModemID call = cmID m \<and> Route call = ''wifi_calling'' \<and>
    State call \<in> {''early_media'', ''active'', ''confirmed''} \<and> Hold call \<notin> {''local'', ''local_remote''} \<and>
    trim_space digits \<noteq> [] \<and> list_all validDTMFDigit (trim_space digits) \<and> callTableOf s' = callTableOf s"
proof -
  have digits: "trim_space digits \<noteq> []" "validDTMFDigits (trim_space digits)"
    using assms by (auto simp: SendDTMF_def Let_def split: if_splits)
  obtain x s1 where c: "callForAction wv m i s = (x, s1)" by fastforce
  then obtain call where x: "x = Inr call" using assms digits by (cases x) (auto simp: SendDTMF_def ebind_def)
  note found = callForAction_Inr [OF c [unfolded x]]
  obtain y s2 where d: "outside (voiceDTMF wv (cmID m) (ID call) (trim_space digits)) s1 = (y, s2)" by fastforce
  have "State call \<in> {''early_media'', ''active'', ''confirmed''} \<and> Hold call \<notin> {''local'', ''local_remote''} \<and>
      Route call = ''wifi_calling'' \<and> s' = s2"
    using assms digits c x d
    by (auto simp: SendDTMF_def ebind_def dtmfCallState_def split: if_splits option.splits)
  then show ?thesis
    using found digits outside_state [OF d] callForAction_table [OF c] by (auto simp: validDTMFDigits_def)
qed

theorem dtmf_guarded_witness:
  "\<exists>s'. SendDTMF exampleVoice \<lparr>cmID = ''m'', cmProfile = Inr ''p''\<rparr> ''c'' ''12#'' (exampleService ''active'') = (Inr (), s') \<and>
     callTableOf s' = [exampleRow ''active'']"
proof -
  have run: "SendDTMF exampleVoice \<lparr>cmID = ''m'', cmProfile = Inr ''p''\<rparr> ''c'' ''12#'' (exampleService ''active'') =
      (Inr (), exampleService ''active'')" by code_simp
  from dtmf_guarded [OF this] run show ?thesis by (simp add: exampleService_def)
qed

text \<open>
  A dial string that is accepted is an optional plus sign followed by at least one digit, and
  normalising it again gives the same number.
\<close>

theorem dial_string_normal:
  assumes "normalizeDialString number = Inr n"
  shows "n \<noteq> [] \<and> n \<noteq> ''+'' \<and> (hd n = CHR ''+'' \<or> is_digit (hd n)) \<and> list_all is_digit (tl n) \<and>
    normalizeDialString n = Inr n"
proof -
  have n: "compactDialString number = Some n" "n \<noteq> []"
    using assms by (auto simp: normalizeDialString_def split: option.splits if_splits)
  note d = compact_dialable [OF n(1)]
  then have "compactDialString n = Some n" by (simp add: compact_idem)
  with d n(2) show ?thesis
    by (auto simp: normalizeDialString_def dialable_def split: list.splits)
qed

theorem dial_string_normal_witness:
  "normalizeDialString ''+44 (0) 20-7946.0018'' = Inr ''+4402079460018'' \<and>
   normalizeDialString ''+4402079460018'' = Inr ''+4402079460018''"
proof -
  have run: "normalizeDialString ''+44 (0) 20-7946.0018'' = Inr ''+4402079460018''" by code_simp
  from dial_string_normal [OF this] run show ?thesis by simp
qed

end
