(* ===== verification/DefaultRoutes.thy ===== *)
theory DefaultRoutes
  imports GoPrelude "HOL-Library.AList" "HOL-Library.List_Lexorder" "HOL-Library.Char_ord"
begin

text \<open>
  Taking over the default routes of the host and giving them back
  (\<open>internal/pkg/internet/default_route.go\<close>), with the metric of secondary routes
  (\<open>bearer_config.go\<close>) and the saved route state (\<open>connection_state.go\<close>).

  The kernel is the record \<open>routeOps\<close> of functions on an abstract world that the code calls
  through \<open>defaultRouteOps\<close>; the world also decides which statements of the database fail. An
  address is its bytes, \<open>None\<close> the invalid address. The saved route states are the list of their interfaces and
  entries. A joined error is the list of its parts,
  empty for nil.
\<close>

section \<open>Routes\<close>

record DefaultRoute =
  Interface :: string
  Family :: int
  Protocol :: int
  Scope :: int
  Gateway :: "byte list option"
  Source :: "byte list option"
  Metric :: int

record defaultRouteChange =
  Original :: DefaultRoute
  Replacement :: DefaultRoute

record savedRouteState =
  SavedModem :: string
  Preferred :: "DefaultRoute list"
  Changes :: "defaultRouteChange list"

definition defaultRouteMetric :: int where "defaultRouteMetric = 10"
definition secondaryRouteMetric :: int where "secondaryRouteMetric = 9000"

text \<open>\<open>unix.RTPROT_STATIC\<close> is 4.\<close>

definition routeProtocol :: "DefaultRoute \<Rightarrow> int" where
  "routeProtocol r = (if Protocol r \<noteq> 0 then Protocol r else 4)"

definition sameDefaultRoute :: "DefaultRoute \<Rightarrow> DefaultRoute \<Rightarrow> bool" where
  "sameDefaultRoute a b \<longleftrightarrow>
     Interface a = Interface b \<and> Family a = Family b \<and> routeProtocol a = routeProtocol b \<and>
     Scope a = Scope b \<and> Gateway a = Gateway b \<and> Source a = Source b \<and> Metric a = Metric b"

definition defaultRouteExists :: "DefaultRoute \<Rightarrow> DefaultRoute list \<Rightarrow> bool" where
  "defaultRouteExists route routes \<longleftrightarrow> list_ex (sameDefaultRoute route) routes"

definition routeMetric :: "bool \<Rightarrow> int" where
  "routeMetric isDefault = (if isDefault then defaultRouteMetric else secondaryRouteMetric)"

definition routeMetricExists :: "DefaultRoute \<Rightarrow> int \<Rightarrow> DefaultRoute list \<Rightarrow> bool" where
  "routeMetricExists route metric routes \<longleftrightarrow>
     list_ex (\<lambda>existing. Family existing = Family route \<and> Metric existing = metric) routes"

text \<open>The search for a free metric: each round leaves fewer metrics in use above the current one.\<close>

function freeMetric :: "(int \<Rightarrow> bool) \<Rightarrow> int list \<Rightarrow> int \<Rightarrow> int" where
  "freeMetric used metrics metric =
     (if used metric \<and> metric \<in> set metrics then freeMetric used metrics (metric + 1) else metric)"
  by pat_completeness auto
termination
proof (relation "measure (\<lambda>(used, metrics, metric). length (filter (\<lambda>m. metric \<le> m) metrics))")
  fix used :: "int \<Rightarrow> bool" and metrics and metric :: int
  assume "used metric \<and> metric \<in> set metrics"
  then have m: "metric \<in> set metrics" by simp
  have "length (filter (\<lambda>m. metric + 1 \<le> m) metrics) < length (filter (\<lambda>m. metric \<le> m) metrics)"
    using m
  proof (induction metrics)
    case (Cons a metrics)
    have "length (filter (\<lambda>m. metric + 1 \<le> m) metrics) \<le> length (filter (\<lambda>m. metric \<le> m) metrics)"
      by (induction metrics) auto
    with Cons show ?case by auto
  qed simp
  then show "((used, metrics, metric + 1), used, metrics, metric)
      \<in> measure (\<lambda>(used, metrics, metric). length (filter (\<lambda>m. metric \<le> m) metrics))"
    by simp
qed simp

declare freeMetric.simps [simp del]

text \<open>
  \<open>for routeMetricExists(route, metric, used) { metric++ }\<close>: a metric in use is among the
  metrics of the routes, so the second test of \<open>freeMetric\<close> adds nothing to the first.
\<close>

definition fallbackMetric :: "DefaultRoute \<Rightarrow> DefaultRoute list \<Rightarrow> int" where
  "fallbackMetric route used =
     freeMetric (\<lambda>m. routeMetricExists route m used) (map Metric used) (defaultRouteMetric + Metric route + 1)"

definition routeMetricInUse :: "DefaultRoute list \<Rightarrow> DefaultRoute list \<Rightarrow> int \<Rightarrow> bool" where
  "routeMetricInUse routes current metric \<longleftrightarrow>
     list_ex (\<lambda>route. list_ex (\<lambda>existing. Family existing = Family route \<and> Metric existing = metric) current) routes"

definition secondaryRouteMetricFor :: "DefaultRoute list \<Rightarrow> DefaultRoute list \<Rightarrow> int" where
  "secondaryRouteMetricFor routes current =
     freeMetric (routeMetricInUse routes current) (map Metric current) secondaryRouteMetric"

fun preferredLoop :: "int \<Rightarrow> int option \<Rightarrow> DefaultRoute list \<Rightarrow> int option" where
  "preferredLoop family found [] = found"
| "preferredLoop family found (r # rs) =
     (if Family r \<noteq> family then preferredLoop family found rs
      else case found of
        None \<Rightarrow> preferredLoop family (Some (Metric r)) rs
      | Some m \<Rightarrow> preferredLoop family (if Metric r < m then Some (Metric r) else Some m) rs)"

definition preferredMetric :: "int \<Rightarrow> DefaultRoute list \<Rightarrow> int option" where
  "preferredMetric family routes = preferredLoop family None routes"

fun changesLoop ::
  "DefaultRoute list \<Rightarrow> DefaultRoute list \<Rightarrow> DefaultRoute list \<Rightarrow> defaultRouteChange list" where
  "changesLoop preferred used [] = []"
| "changesLoop preferred used (route # rs) =
     (if defaultRouteExists route preferred then changesLoop preferred used rs
      else case preferredMetric (Family route) preferred of
        None \<Rightarrow> changesLoop preferred used rs
      | Some metric \<Rightarrow>
          if Metric route > metric then changesLoop preferred used rs
          else
            let replacement = route\<lparr>Metric := fallbackMetric route used\<rparr>
            in \<lparr>Original = route, Replacement = replacement\<rparr> #
                 changesLoop preferred (used @ [replacement]) rs)"

definition defaultRouteChanges :: "DefaultRoute list \<Rightarrow> DefaultRoute list \<Rightarrow> defaultRouteChange list" where
  "defaultRouteChanges current preferred = changesLoop preferred current current"

definition existingDefaultRoutes :: "DefaultRoute list \<Rightarrow> DefaultRoute list \<Rightarrow> DefaultRoute list" where
  "existingDefaultRoutes routes current = filter (\<lambda>r. defaultRouteExists r current) routes"

definition routeStatePreferredPresent :: "DefaultRoute list \<Rightarrow> DefaultRoute list \<Rightarrow> bool" where
  "routeStatePreferredPresent preferred current \<longleftrightarrow> list_ex (\<lambda>r. defaultRouteExists r current) preferred"

section \<open>The kernel and the saved state\<close>

datatype addError = ErrDefaultRouteExists | AddErrorOther string

datatype routeError =
  ListError string | DeleteError string | AddError addError | StoreError string |
  InterfaceNameEmpty | RouteStateExists string

record 'k routeOps =
  listRoutes :: "'k \<Rightarrow> (string + DefaultRoute list) \<times> 'k"
  addRoute :: "DefaultRoute \<Rightarrow> 'k \<Rightarrow> addError option \<times> 'k"
  deleteRoute :: "DefaultRoute \<Rightarrow> 'k \<Rightarrow> string option \<times> 'k"
  storeFault :: "'k \<Rightarrow> string option \<times> 'k"

record 'k routeWorld =
  kernel :: 'k
  savedRoutes :: "(string \<times> savedRouteState) list"

definition onKernel :: "('k \<Rightarrow> 'a \<times> 'k) \<Rightarrow> 'k routeWorld \<Rightarrow> 'a \<times> 'k routeWorld" where
  "onKernel f w = (let (a, k) = f (kernel w) in (a, w\<lparr>kernel := k\<rparr>))"

definition onSaved ::
  "'k routeOps \<Rightarrow> ((string \<times> savedRouteState) list \<Rightarrow> (string \<times> savedRouteState) list) \<Rightarrow> 'k routeWorld \<Rightarrow>
   routeError list \<times> 'k routeWorld" where
  "onSaved ops f w =
     (case onKernel (storeFault ops) w of
        (Some e, w) \<Rightarrow> ([StoreError e], w)
      | (None, w) \<Rightarrow> ([], w\<lparr>savedRoutes := f (savedRoutes w)\<rparr>))"

definition putRouteStateForModem ::
  "'k routeOps \<Rightarrow> string \<Rightarrow> string \<Rightarrow> DefaultRoute list \<Rightarrow> defaultRouteChange list \<Rightarrow> 'k routeWorld \<Rightarrow>
   routeError list \<times> 'k routeWorld" where
  "putRouteStateForModem ops modemID ifname preferred changes w =
     (let ifname = trim_space ifname in
      if ifname = [] then ([InterfaceNameEmpty], w)
      else onSaved ops (AList.update ifname \<lparr>SavedModem = modemID, Preferred = preferred, Changes = changes\<rparr>) w)"

definition saveRouteStateForModem ::
  "'k routeOps \<Rightarrow> string \<Rightarrow> string \<Rightarrow> DefaultRoute list \<Rightarrow> defaultRouteChange list \<Rightarrow> 'k routeWorld \<Rightarrow>
   routeError list \<times> 'k routeWorld" where
  "saveRouteStateForModem ops modemID ifname preferred changes w =
     (let ifname = trim_space ifname in
      if ifname = [] then ([InterfaceNameEmpty], w)
      else case onKernel (storeFault ops) w of
        (Some e, w) \<Rightarrow> ([StoreError e], w)
      | (None, w) \<Rightarrow>
          if map_of (savedRoutes w) ifname \<noteq> None then ([RouteStateExists ifname], w)
          else putRouteStateForModem ops modemID ifname preferred changes w)"

definition deleteRouteState :: "'k routeOps \<Rightarrow> string \<Rightarrow> 'k routeWorld \<Rightarrow> routeError list \<times> 'k routeWorld" where
  "deleteRouteState ops ifname w = onSaved ops (AList.delete (trim_space ifname)) w"

section \<open>Restoring\<close>

definition deleteErr :: "'k routeOps \<Rightarrow> DefaultRoute \<Rightarrow> 'k routeWorld \<Rightarrow> routeError list \<times> 'k routeWorld" where
  "deleteErr ops route w =
     (case onKernel (deleteRoute ops route) w of
        (Some e, w) \<Rightarrow> ([DeleteError e], w)
      | (None, w) \<Rightarrow> ([], w))"

definition restoreOriginalDefaultRouteWithOps ::
  "'k routeOps \<Rightarrow> DefaultRoute \<Rightarrow> 'k routeWorld \<Rightarrow> routeError list \<times> 'k routeWorld" where
  "restoreOriginalDefaultRouteWithOps ops route w =
     (case onKernel (addRoute ops route) w of
        (None, w) \<Rightarrow> ([], w)
      | (Some e, w) \<Rightarrow>
          if e = ErrDefaultRouteExists then
            (case onKernel (listRoutes ops) w of
               (Inl l, w) \<Rightarrow> ([AddError e, ListError l], w)
             | (Inr current, w) \<Rightarrow> (if defaultRouteExists route current then [] else [AddError e], w))
          else ([AddError e], w))"

text \<open>The loop visits the changes from the last to the first; the list is already reversed.\<close>

fun restoreLoop :: "'k routeOps \<Rightarrow> defaultRouteChange list \<Rightarrow> 'k routeWorld \<Rightarrow> routeError list \<times> 'k routeWorld" where
  "restoreLoop ops [] w = ([], w)"
| "restoreLoop ops (c # cs) w =
     (case restoreOriginalDefaultRouteWithOps ops (Original c) w of
        (e # es, w) \<Rightarrow> (let (rest, w) = restoreLoop ops cs w in (e # es @ rest, w))
      | ([], w) \<Rightarrow>
          (let (del, w) = deleteErr ops (Replacement c) w;
               (rest, w) = restoreLoop ops cs w
           in (del @ rest, w)))"

definition restoreDefaultRoutesWithOps ::
  "'k routeOps \<Rightarrow> defaultRouteChange list \<Rightarrow> 'k routeWorld \<Rightarrow> routeError list \<times> 'k routeWorld" where
  "restoreDefaultRoutesWithOps ops changes w = restoreLoop ops (rev changes) w"

fun deleteLoop :: "'k routeOps \<Rightarrow> DefaultRoute list \<Rightarrow> 'k routeWorld \<Rightarrow> routeError list \<times> 'k routeWorld" where
  "deleteLoop ops [] w = ([], w)"
| "deleteLoop ops (r # rs) w =
     (let (del, w) = deleteErr ops r w; (rest, w) = deleteLoop ops rs w in (del @ rest, w))"

definition deleteDefaultRoutesWithOps ::
  "'k routeOps \<Rightarrow> DefaultRoute list \<Rightarrow> 'k routeWorld \<Rightarrow> routeError list \<times> 'k routeWorld" where
  "deleteDefaultRoutesWithOps ops routes w = deleteLoop ops (rev routes) w"

definition cleanupSavedDefaultRouteStateWithStore ::
  "'k routeOps \<Rightarrow> string \<Rightarrow> defaultRouteChange list \<Rightarrow> 'k routeWorld \<Rightarrow> routeError list \<times> 'k routeWorld" where
  "cleanupSavedDefaultRouteStateWithStore ops ifname applied w =
     (if applied \<noteq> [] then ([], w) else deleteRouteState ops ifname w)"

definition cleanupDefaultRouteChangesWithStore ::
  "'k routeOps \<Rightarrow> string \<Rightarrow> defaultRouteChange list \<Rightarrow> 'k routeWorld \<Rightarrow> routeError list \<times> 'k routeWorld" where
  "cleanupDefaultRouteChangesWithStore ops ifname changes w =
     (if changes = [] then ([], w)
      else case restoreDefaultRoutesWithOps ops changes w of
        (e # es, w) \<Rightarrow> (e # es, w)
      | ([], w) \<Rightarrow> deleteRouteState ops ifname w)"

section \<open>Taking over\<close>

text \<open>The loop over the planned changes; \<open>applied\<close> are those already done.\<close>

fun takeoverLoop ::
  "'k routeOps \<Rightarrow> string \<Rightarrow> defaultRouteChange list \<Rightarrow> defaultRouteChange list \<Rightarrow> 'k routeWorld \<Rightarrow>
   (routeError list \<times> defaultRouteChange list) \<times> 'k routeWorld" where
  "takeoverLoop ops ifname applied [] w = (([], applied), w)"
| "takeoverLoop ops ifname applied (c # cs) w =
     (case deleteErr ops (Original c) w of
        (e # es, w) \<Rightarrow>
          (let (cl, w) = cleanupSavedDefaultRouteStateWithStore ops ifname applied w
           in ((e # es @ cl, applied), w))
      | ([], w) \<Rightarrow>
          (case onKernel (addRoute ops (Replacement c)) w of
             (Some e, w) \<Rightarrow>
               (let (restore, w) = restoreOriginalDefaultRouteWithOps ops (Original c) w in
                if restore = [] then
                  let (cl, w) = cleanupSavedDefaultRouteStateWithStore ops ifname applied w
                  in ((AddError e # cl, applied), w)
                else ((AddError e # restore, applied @ [c]), w))
           | (None, w) \<Rightarrow> takeoverLoop ops ifname (applied @ [c]) cs w))"

definition takeoverDefaultRoutesWithStore ::
  "'k routeOps \<Rightarrow> string \<Rightarrow> string \<Rightarrow> DefaultRoute list \<Rightarrow> 'k routeWorld \<Rightarrow>
   (routeError list \<times> defaultRouteChange list) \<times> 'k routeWorld" where
  "takeoverDefaultRoutesWithStore ops modemID ifname preferred w =
     (case onKernel (listRoutes ops) w of
        (Inl e, w) \<Rightarrow> (([ListError e], []), w)
      | (Inr current, w) \<Rightarrow>
          let changes = defaultRouteChanges current preferred in
          (case (if changes \<noteq> [] then saveRouteStateForModem ops modemID ifname preferred changes w
                 else ([], w)) of
             (e # es, w) \<Rightarrow> ((e # es, []), w)
           | ([], w) \<Rightarrow> takeoverLoop ops ifname [] changes w))"

section \<open>Stale state\<close>

definition routeStateTargetMatches :: "string \<Rightarrow> string set \<Rightarrow> string \<Rightarrow> savedRouteState \<Rightarrow> bool" where
  "routeStateTargetMatches modemID targets ifname entry =
     (if modemID \<noteq> [] \<and> trim_space (SavedModem entry) \<noteq> []
      then trim_space (SavedModem entry) = modemID
      else ifname \<in> targets)"

definition interfaceSet :: "string list \<Rightarrow> string set" where
  "interfaceSet names = set (filter (\<lambda>n. n \<noteq> []) (map trim_space names))"

definition restoreStaleDefaultRouteStateWithStore ::
  "'k routeOps \<Rightarrow> string \<Rightarrow> savedRouteState \<Rightarrow> DefaultRoute list \<Rightarrow> 'k routeWorld \<Rightarrow>
   routeError list \<times> 'k routeWorld" where
  "restoreStaleDefaultRouteStateWithStore ops ifname entry current w =
     (case deleteDefaultRoutesWithOps ops (existingDefaultRoutes (Preferred entry) current) w of
        (e # es, w) \<Rightarrow> (e # es, w)
      | ([], w) \<Rightarrow>
          (case restoreDefaultRoutesWithOps ops (Changes entry) w of
             (e # es, w) \<Rightarrow> (e # es, w)
           | ([], w) \<Rightarrow> deleteRouteState ops ifname w))"

text \<open>The entries are visited in the order of the interface names; the list is already sorted.\<close>

fun restoreStaleLoop ::
  "'k routeOps \<Rightarrow> string \<Rightarrow> string set \<Rightarrow> bool \<Rightarrow> DefaultRoute list \<Rightarrow> (string \<times> savedRouteState) list \<Rightarrow>
   'k routeWorld \<Rightarrow> routeError list \<times> 'k routeWorld" where
  "restoreStaleLoop ops modemID targets scoped current [] w = ([], w)"
| "restoreStaleLoop ops modemID targets scoped current ((ifname, entry) # rest) w =
     (if scoped \<and> \<not> routeStateTargetMatches modemID targets ifname entry
      then restoreStaleLoop ops modemID targets scoped current rest w
      else if \<not> scoped \<and> routeStatePreferredPresent (Preferred entry) current
      then restoreStaleLoop ops modemID targets scoped current rest w
      else
        let (err, w) = restoreStaleDefaultRouteStateWithStore ops ifname entry current w;
            (errs, w) = restoreStaleLoop ops modemID targets scoped current rest w
        in (err @ errs, w))"

definition restoreStaleDefaultRouteStatesWithStore ::
  "'k routeOps \<Rightarrow> string \<Rightarrow> string list \<Rightarrow> 'k routeWorld \<Rightarrow> routeError list \<times> 'k routeWorld" where
  "restoreStaleDefaultRouteStatesWithStore ops modemID ifnames w =
     (case onKernel (storeFault ops) w of
        (Some e, w) \<Rightarrow> ([StoreError e], w)
      | (None, w) \<Rightarrow>
          if savedRoutes w = [] then ([], w)
          else (case onKernel (listRoutes ops) w of
                  (Inl e, w) \<Rightarrow> ([ListError e], w)
                | (Inr current, w) \<Rightarrow>
                    let modemID = trim_space modemID; targets = interfaceSet ifnames
                    in restoreStaleLoop ops modemID targets (modemID \<noteq> [] \<or> targets \<noteq> {}) current
                         (sort_key fst (savedRoutes w)) w))"

section \<open>Free metrics\<close>

lemma freeMetric_free: "(\<And>m. used m \<Longrightarrow> m \<in> set metrics) \<Longrightarrow> \<not> used (freeMetric used metrics metric)"
proof (induction used metrics metric rule: freeMetric.induct)
  case (1 used metrics metric)
  then show ?case by (auto simp: freeMetric.simps [of used metrics metric])
qed

lemma freeMetric_ge: "metric \<le> freeMetric used metrics metric"
proof (induction used metrics metric rule: freeMetric.induct)
  case (1 used metrics metric)
  then show ?case
    by (cases "used metric \<and> metric \<in> set metrics") (auto simp: freeMetric.simps [of used metrics metric])
qed

lemma freeMetric_least:
  "(\<And>m. used m \<Longrightarrow> m \<in> set metrics) \<Longrightarrow> metric \<le> m \<Longrightarrow> m < freeMetric used metrics metric \<Longrightarrow> used m"
proof (induction used metrics metric rule: freeMetric.induct)
  case (1 used metrics metric)
  show ?case
  proof (cases "used metric \<and> metric \<in> set metrics")
    case True
    then have "m < freeMetric used metrics (metric + 1)"
      using "1.prems"(3) by (simp add: freeMetric.simps [of used metrics metric])
    with 1 True show ?thesis by (cases "m = metric") auto
  next
    case False
    with 1 show ?thesis by (simp add: freeMetric.simps [of used metrics metric])
  qed
qed

lemma fallbackMetric_free: "\<not> routeMetricExists route (fallbackMetric route used) used"
  unfolding fallbackMetric_def
  by (rule freeMetric_free) (auto simp: routeMetricExists_def list_ex_iff)

lemma fallbackMetric_above: "10 + Metric route < fallbackMetric route used"
proof -
  have "defaultRouteMetric + Metric route + 1 \<le> fallbackMetric route used"
    unfolding fallbackMetric_def by (rule freeMetric_ge)
  then show ?thesis by (simp add: defaultRouteMetric_def)
qed

section \<open>The plan\<close>

definition canon :: "DefaultRoute \<Rightarrow> DefaultRoute" where
  "canon r = r\<lparr>Protocol := routeProtocol r\<rparr>"

lemma sameDefaultRoute_canon: "sameDefaultRoute a b \<longleftrightarrow> canon a = canon b"
  by (cases a; cases b) (auto simp: sameDefaultRoute_def canon_def)

lemma canon_fields [simp]:
  "Interface (canon r) = Interface r" "Family (canon r) = Family r" "Metric (canon r) = Metric r"
  "Gateway (canon r) = Gateway r" "Source (canon r) = Source r" "Scope (canon r) = Scope r"
  by (simp_all add: canon_def)

abbreviation origs :: "defaultRouteChange list \<Rightarrow> DefaultRoute list" where
  "origs cs \<equiv> map (\<lambda>c. canon (Original c)) cs"

abbreviation repls :: "defaultRouteChange list \<Rightarrow> DefaultRoute list" where
  "repls cs \<equiv> map (\<lambda>c. canon (Replacement c)) cs"

text \<open>A plan over the routes \<open>V\<close>: it moves distinct routes of \<open>V\<close> to routes that are not in \<open>V\<close>.\<close>

definition planOk :: "DefaultRoute set \<Rightarrow> defaultRouteChange list \<Rightarrow> bool" where
  "planOk V cs \<longleftrightarrow> distinct (origs cs) \<and> set (origs cs) \<subseteq> V \<and> set (repls cs) \<inter> V = {}"

definition swapped :: "DefaultRoute set \<Rightarrow> defaultRouteChange list \<Rightarrow> DefaultRoute set" where
  "swapped V cs = (V - set (origs cs)) \<union> set (repls cs)"

lemma changesLoop_props:
  assumes "set (map canon current) \<subseteq> set (map canon used)" and "c \<in> set (changesLoop preferred used current)"
  shows "Original c \<in> set current" "Replacement c = (Original c)\<lparr>Metric := Metric (Replacement c)\<rparr>"
    "\<not> defaultRouteExists (Original c) preferred"
    "\<exists>m. preferredMetric (Family (Original c)) preferred = Some m \<and> Metric (Original c) \<le> m"
    "10 + Metric (Original c) < Metric (Replacement c)"
    "\<forall>r\<in>set used. Family r = Family (Replacement c) \<longrightarrow> Metric r \<noteq> Metric (Replacement c)"
proof -
  have "Original c \<in> set current \<and> Replacement c = (Original c)\<lparr>Metric := Metric (Replacement c)\<rparr> \<and>
      \<not> defaultRouteExists (Original c) preferred \<and>
      (\<exists>m. preferredMetric (Family (Original c)) preferred = Some m \<and> Metric (Original c) \<le> m) \<and>
      10 + Metric (Original c) < Metric (Replacement c) \<and>
      (\<forall>r\<in>set used. Family r = Family (Replacement c) \<longrightarrow> Metric r \<noteq> Metric (Replacement c))"
    using assms(2)
  proof (induction preferred used current rule: changesLoop.induct)
    case (2 preferred used route rs)
    have free: "\<forall>r\<in>set used. Family r = Family route \<longrightarrow> Metric r \<noteq> fallbackMetric route used"
      using fallbackMetric_free [of route used] by (auto simp: routeMetricExists_def list_ex_iff)
    from 2 show ?case
      using fallbackMetric_above [of route used] free
      by (auto simp: Let_def split: if_splits option.splits)
  qed simp
  then show "Original c \<in> set current" "Replacement c = (Original c)\<lparr>Metric := Metric (Replacement c)\<rparr>"
    "\<not> defaultRouteExists (Original c) preferred"
    "\<exists>m. preferredMetric (Family (Original c)) preferred = Some m \<and> Metric (Original c) \<le> m"
    "10 + Metric (Original c) < Metric (Replacement c)"
    "\<forall>r\<in>set used. Family r = Family (Replacement c) \<longrightarrow> Metric r \<noteq> Metric (Replacement c)"
    by blast+
qed

lemma changesLoop_Original: "c \<in> set (changesLoop preferred used rs) \<Longrightarrow> Original c \<in> set rs"
  by (induction rs arbitrary: used) (auto simp: Let_def split: if_splits option.splits)

lemma changesLoop_distinct:
  "distinct (map canon current) \<Longrightarrow> distinct (origs (changesLoop preferred used current))"
proof (induction current arbitrary: used)
  case (Cons route rs)
  have "canon route \<notin> set (origs (changesLoop preferred u rs))" for u
    using changesLoop_Original [of _ preferred u rs] Cons.prems by (force simp: image_iff)
  with Cons show ?case by (auto simp: Let_def split: option.splits)
qed simp

lemma plan_ok:
  assumes "distinct (map canon current)"
  shows "planOk (canon ` set current) (defaultRouteChanges current preferred)"
  unfolding planOk_def
proof (intro conjI)
  show "distinct (origs (defaultRouteChanges current preferred))"
    unfolding defaultRouteChanges_def by (rule changesLoop_distinct [OF assms])
  show "set (origs (defaultRouteChanges current preferred)) \<subseteq> canon ` set current"
    using changesLoop_props(1) [of current current _ preferred] by (auto simp: defaultRouteChanges_def)
  show "set (repls (defaultRouteChanges current preferred)) \<inter> canon ` set current = {}"
  proof (rule ccontr)
    assume "set (repls (defaultRouteChanges current preferred)) \<inter> canon ` set current \<noteq> {}"
    then obtain c r where c: "c \<in> set (defaultRouteChanges current preferred)" and r: "r \<in> set current"
      and eq: "canon (Replacement c) = canon r" by auto
    have "Family r = Family (Replacement c)" "Metric r = Metric (Replacement c)"
      using eq by (metis canon_fields(2,3))+
    then show False
      using changesLoop_props(6) [of current current c preferred] c r by (auto simp: defaultRouteChanges_def)
  qed
qed

section \<open>A kernel that does what it says\<close>

text \<open>
  \<open>view\<close> gives the default routes the kernel holds: an accepted request adds or removes
  its route, a refused one changes nothing, a listing returns what there is.
\<close>

definition faithful :: "'k routeOps \<Rightarrow> ('k \<Rightarrow> DefaultRoute set) \<Rightarrow> bool" where
  "faithful ops view \<longleftrightarrow>
     (\<forall>r k. view (snd (addRoute ops r k)) =
        (if fst (addRoute ops r k) = None then insert (canon r) (view k) else view k)) \<and>
     (\<forall>r k. view (snd (deleteRoute ops r k)) =
        (if fst (deleteRoute ops r k) = None then view k - {canon r} else view k)) \<and>
     (\<forall>k. view (snd (listRoutes ops k)) = view k) \<and>
     (\<forall>k rs. fst (listRoutes ops k) = Inr rs \<longrightarrow> canon ` set rs = view k \<and> distinct (map canon rs)) \<and>
     (\<forall>k. view (snd (storeFault ops k)) = view k)"

lemma onKernel_iff: "onKernel f w = (a, w') \<longleftrightarrow> fst (f (kernel w)) = a \<and> w' = w\<lparr>kernel := snd (f (kernel w))\<rparr>"
  by (cases "f (kernel w)") (auto simp: onKernel_def)

lemma faithful_add:
  "faithful ops view \<Longrightarrow> onKernel (addRoute ops r) w = (x, w') \<Longrightarrow>
   view (kernel w') = (if x = None then insert (canon r) (view (kernel w)) else view (kernel w)) \<and>
   savedRoutes w' = savedRoutes w"
  by (auto simp: faithful_def onKernel_iff)

lemma faithful_delete:
  "faithful ops view \<Longrightarrow> deleteErr ops r w = (es, w') \<Longrightarrow>
   view (kernel w') = (if es = [] then view (kernel w) - {canon r} else view (kernel w)) \<and>
   savedRoutes w' = savedRoutes w"
  by (auto simp: deleteErr_def faithful_def onKernel_iff split: prod.splits option.splits)

lemma faithful_list:
  "faithful ops view \<Longrightarrow> onKernel (listRoutes ops) w = (x, w') \<Longrightarrow>
   view (kernel w') = view (kernel w) \<and> savedRoutes w' = savedRoutes w \<and>
   (\<forall>rs. x = Inr rs \<longrightarrow> canon ` set rs = view (kernel w) \<and> distinct (map canon rs))"
  by (auto simp: faithful_def onKernel_iff)

lemma faithful_fault:
  "faithful ops view \<Longrightarrow> onKernel (storeFault ops) w = (x, w') \<Longrightarrow>
   view (kernel w') = view (kernel w) \<and> savedRoutes w' = savedRoutes w"
  by (auto simp: faithful_def onKernel_iff)

lemma faithful_saved:
  "faithful ops view \<Longrightarrow> onSaved ops f w = (es, w') \<Longrightarrow>
   view (kernel w') = view (kernel w) \<and> savedRoutes w' = (if es = [] then f (savedRoutes w) else savedRoutes w)"
  by (auto simp: onSaved_def split: prod.splits option.splits dest: faithful_fault)

lemma faithful_restoreOriginal:
  assumes "faithful ops view" and "restoreOriginalDefaultRouteWithOps ops r w = (es, w')"
  shows "view (kernel w') = (if es = [] then insert (canon r) (view (kernel w)) else view (kernel w)) \<and>
    savedRoutes w' = savedRoutes w"
proof -
  obtain x w1 where a: "onKernel (addRoute ops r) w = (x, w1)" by fastforce
  note fa = faithful_add [OF assms(1) a]
  show ?thesis
  proof (cases "x = Some ErrDefaultRouteExists")
    case False
    with a fa assms(2) show ?thesis
      by (auto simp: restoreOriginalDefaultRouteWithOps_def split: option.splits)
  next
    case True
    obtain y w2 where l: "onKernel (listRoutes ops) w1 = (y, w2)" by fastforce
    note fl = faithful_list [OF assms(1) l]
    show ?thesis
    proof (cases y)
      case (Inl e)
      with True a fa l fl assms(2) show ?thesis
        by (auto simp: restoreOriginalDefaultRouteWithOps_def)
    next
      case (Inr rs)
      have "defaultRouteExists r rs \<longleftrightarrow> canon r \<in> canon ` set rs"
        by (auto simp: defaultRouteExists_def list_ex_iff sameDefaultRoute_canon)
      with True a fa l fl assms(2) Inr show ?thesis
        by (auto simp: restoreOriginalDefaultRouteWithOps_def split: if_splits)
    qed
  qed
qed

text \<open>Restoring without an error puts the originals back and takes the replacements out.\<close>

lemma restoreLoop_view:
  assumes "faithful ops view"
  shows "restoreLoop ops cs w = ([], w') \<Longrightarrow> set (origs cs) \<inter> set (repls cs) = {} \<Longrightarrow>
    view (kernel w') = (view (kernel w) \<union> set (origs cs)) - set (repls cs) \<and> savedRoutes w' = savedRoutes w"
proof (induction cs arbitrary: w)
  case (Cons c cs)
  obtain e w1 where r: "restoreOriginalDefaultRouteWithOps ops (Original c) w = (e, w1)" by fastforce
  have e: "e = []" using Cons.prems(1) r by (cases e) (auto split: prod.splits)
  obtain d w2 where d: "deleteErr ops (Replacement c) w1 = (d, w2)" by fastforce
  have run: "d = []" "restoreLoop ops cs w2 = ([], w')"
    using Cons.prems(1) r d e by (auto split: prod.splits)
  note fr = faithful_restoreOriginal [OF assms r] and fd = faithful_delete [OF assms d]
  have "view (kernel w') = (view (kernel w2) \<union> set (origs cs)) - set (repls cs) \<and> savedRoutes w' = savedRoutes w2"
    using Cons.IH [OF run(2)] Cons.prems(2) by auto
  then show ?case using fr fd e run(1) Cons.prems(2) by auto
qed simp

text \<open>From every table between the one of before and the one of the complete takeover, it gives the one of before.\<close>

lemma restore_between:
  assumes f: "faithful ops view" and p: "planOk V changes"
    and S: "V - set (origs changes) \<subseteq> view (kernel w)" "view (kernel w) \<subseteq> V \<union> set (repls changes)"
    and r: "restoreDefaultRoutesWithOps ops changes w = ([], w')"
  shows "view (kernel w') = V" "savedRoutes w' = savedRoutes w"
proof -
  have "set (origs (rev changes)) \<inter> set (repls (rev changes)) = {}"
    using p by (auto simp: planOk_def)
  note v = restoreLoop_view [OF f r [unfolded restoreDefaultRoutesWithOps_def] this]
  then show "savedRoutes w' = savedRoutes w" by simp
  have "set (origs changes) \<subseteq> V" "set (repls changes) \<inter> V = {}" using p by (auto simp: planOk_def)
  then show "view (kernel w') = V" using v S by auto
qed

lemma swapped_snoc:
  assumes "planOk V (applied @ c # cs)"
  shows "swapped V (applied @ [c]) = insert (canon (Replacement c)) (swapped V applied - {canon (Original c)})"
    and "canon (Original c) \<in> swapped V applied"
  using assms by (auto simp: planOk_def swapped_def)

lemma swapped_Nil [simp]: "swapped V [] = V"
  by (simp add: swapped_def)

lemma takeoverLoop_done:
  assumes "faithful ops view"
  shows "takeoverLoop ops ifname applied cs w = (([], done_changes), w') \<Longrightarrow> planOk V (applied @ cs) \<Longrightarrow>
    view (kernel w) = swapped V applied \<Longrightarrow>
    done_changes = applied @ cs \<and> view (kernel w') = swapped V done_changes \<and> savedRoutes w' = savedRoutes w"
proof (induction cs arbitrary: applied w)
  case (Cons c cs)
  obtain d w1 where d: "deleteErr ops (Original c) w = (d, w1)" by fastforce
  have d0: "d = []" using Cons.prems(1) d by (cases d) (auto split: prod.splits)
  obtain x w2 where a: "onKernel (addRoute ops (Replacement c)) w1 = (x, w2)" by fastforce
  have x: "x = None" using Cons.prems(1) d d0 a by (cases x) (auto split: prod.splits if_splits)
  have "takeoverLoop ops ifname (applied @ [c]) cs w2 = (([], done_changes), w')"
    using Cons.prems(1) d d0 a x by simp
  moreover have "view (kernel w2) = swapped V (applied @ [c])"
    using faithful_delete [OF assms d] faithful_add [OF assms a] d0 x Cons.prems(3)
      swapped_snoc(1) [OF Cons.prems(2)] by simp
  ultimately show ?case
    using Cons.IH [of "applied @ [c]" w2] Cons.prems(2) faithful_delete [OF assms d] faithful_add [OF assms a]
    by simp
qed simp

text \<open>
  When a takeover fails, the changes it reports are those in force, except that the original
  of the last one may be gone; the saved state is kept as long as a change is reported.
\<close>

definition inForce :: "DefaultRoute set \<Rightarrow> defaultRouteChange list \<Rightarrow> DefaultRoute set \<Rightarrow> bool" where
  "inForce V cs S \<longleftrightarrow> S = swapped V cs \<or>
     (cs \<noteq> [] \<and> S = swapped V (butlast cs) - {canon (Original (last cs))})"

lemma cleanup_view:
  assumes "faithful ops view" and "cleanupSavedDefaultRouteStateWithStore ops ifname applied w = (cl, w')"
  shows "view (kernel w') = view (kernel w) \<and> (applied \<noteq> [] \<longrightarrow> savedRoutes w' = savedRoutes w)"
  using assms(2) faithful_saved [OF assms(1)]
  by (auto simp: cleanupSavedDefaultRouteStateWithStore_def deleteRouteState_def split: if_splits)

lemma takeoverLoop_failed:
  assumes "faithful ops view"
  shows "takeoverLoop ops ifname applied cs w = ((e # es, done_changes), w') \<Longrightarrow> planOk V (applied @ cs) \<Longrightarrow>
    view (kernel w) = swapped V applied \<Longrightarrow>
    (\<exists>rest. applied @ cs = done_changes @ rest) \<and> inForce V done_changes (view (kernel w')) \<and>
    (done_changes \<noteq> [] \<longrightarrow> savedRoutes w' = savedRoutes w)"
proof (induction cs arbitrary: applied w)
  case (Cons c cs)
  obtain d w1 where d: "deleteErr ops (Original c) w = (d, w1)" by fastforce
  note fd = faithful_delete [OF assms d] and sw = swapped_snoc [OF Cons.prems(2)]
  obtain cl w1' where cl: "cleanupSavedDefaultRouteStateWithStore ops ifname applied w1 = (cl, w1')" by fastforce
  note fcl = cleanup_view [OF assms cl]
  show ?case
  proof (cases d)
    case (Cons d1 ds)
    then have "done_changes = applied" "w' = w1'" using Cons.prems(1) d cl by auto
    then show ?thesis using fd fcl Cons Cons.prems(3) by (auto simp: inForce_def)
  next
    case Nil
    obtain x w2 where a: "onKernel (addRoute ops (Replacement c)) w1 = (x, w2)" by fastforce
    note fa = faithful_add [OF assms a]
    show ?thesis
    proof (cases x)
      case None
      have "takeoverLoop ops ifname (applied @ [c]) cs w2 = ((e # es, done_changes), w')"
        using Cons.prems(1) d Nil a None by simp
      moreover have "view (kernel w2) = swapped V (applied @ [c])"
        using fd fa Nil None Cons.prems(3) sw(1) by simp
      ultimately show ?thesis
        using Cons.IH [of "applied @ [c]" w2] Cons.prems(2) fd fa by simp
    next
      case (Some err)
      obtain res w3 where r: "restoreOriginalDefaultRouteWithOps ops (Original c) w2 = (res, w3)" by fastforce
      note fr = faithful_restoreOriginal [OF assms r]
      show ?thesis
      proof (cases "res = []")
        case True
        obtain cl w4 where cl: "cleanupSavedDefaultRouteStateWithStore ops ifname applied w3 = (cl, w4)" by fastforce
        have "done_changes = applied" "w' = w4" using Cons.prems(1) d Nil a Some r True cl by auto
        moreover have "view (kernel w3) = swapped V applied"
          using fr fa fd Nil Some True Cons.prems(3) sw(2) by auto
        ultimately show ?thesis
          using cleanup_view [OF assms cl] fr fa fd by (auto simp: inForce_def)
      next
        case False
        have "done_changes = applied @ [c]" "w' = w3" using Cons.prems(1) d Nil a Some r False by auto
        then show ?thesis
          using fr fa fd Nil Some False Cons.prems(3) by (auto simp: inForce_def)
      qed
    qed
  qed
qed simp

text \<open>Whatever a takeover leaves behind, restoring its plan gives the table of before.\<close>

lemma inForce_between:
  assumes "planOk V (cs @ rest)" and "inForce V cs S"
  shows "V - set (origs (cs @ rest)) \<subseteq> S" "S \<subseteq> V \<union> set (repls (cs @ rest))"
proof -
  have "V - set (origs cs) \<subseteq> S \<and> S \<subseteq> V \<union> set (repls cs)"
  proof (cases "S = swapped V cs")
    case False
    then have cs: "cs \<noteq> []" and S: "S = swapped V (butlast cs) - {canon (Original (last cs))}"
      using assms(2) by (auto simp: inForce_def)
    have "cs = butlast cs @ [last cs]" using cs by simp
    then have "origs cs = origs (butlast cs) @ [canon (Original (last cs))]"
      and "set (repls (butlast cs)) \<subseteq> set (repls cs)"
      by (metis list.simps(8,9) map_append, metis map_append set_append sup_ge1)
    then show ?thesis using S by (auto simp: swapped_def)
  qed (auto simp: swapped_def)
  then show "V - set (origs (cs @ rest)) \<subseteq> S" "S \<subseteq> V \<union> set (repls (cs @ rest))" by auto
qed

text \<open>The takeover as a whole: its plan is saved before the first route is touched.\<close>

lemma save_view:
  assumes "faithful ops view" and "saveRouteStateForModem ops modemID ifname preferred changes w = (es, w')"
  shows "view (kernel w') = view (kernel w) \<and>
    (es = [] \<longrightarrow> map_of (savedRoutes w') (trim_space ifname) =
       Some \<lparr>SavedModem = modemID, Preferred = preferred, Changes = changes\<rparr>)"
  using assms(2)
  by (auto simp: saveRouteStateForModem_def putRouteStateForModem_def Let_def update_conv split: if_splits prod.splits option.splits
      dest!: faithful_fault [OF assms(1)] faithful_saved [OF assms(1)])

lemma takeover_parts:
  assumes f: "faithful ops view" and t: "takeoverDefaultRoutesWithStore ops modemID ifname preferred w = ((errs, changed), w')"
  obtains (untouched) "errs \<noteq> []" "changed = []" "view (kernel w') = view (kernel w)"
  | (ran) current w1 where "canon ` set current = view (kernel w)" "distinct (map canon current)"
      "view (kernel w1) = view (kernel w)"
      "takeoverLoop ops ifname [] (defaultRouteChanges current preferred) w1 = ((errs, changed), w')"
      "defaultRouteChanges current preferred \<noteq> [] \<Longrightarrow> map_of (savedRoutes w1) (trim_space ifname) =
         Some \<lparr>SavedModem = modemID, Preferred = preferred, Changes = defaultRouteChanges current preferred\<rparr>"
proof -
  obtain x wl where l: "onKernel (listRoutes ops) w = (x, wl)" by fastforce
  note fl = faithful_list [OF f l]
  show ?thesis
  proof (cases x)
    case (Inl e)
    then show ?thesis using t l fl untouched by (auto simp: takeoverDefaultRoutesWithStore_def)
  next
    case (Inr current)
    let ?changes = "defaultRouteChanges current preferred"
    obtain es w1 where s: "(if ?changes \<noteq> [] then saveRouteStateForModem ops modemID ifname preferred ?changes wl
        else ([], wl)) = (es, w1)" by fastforce
    have v: "view (kernel w1) = view (kernel w)"
      and saved: "?changes \<noteq> [] \<Longrightarrow> es = [] \<Longrightarrow> map_of (savedRoutes w1) (trim_space ifname) =
         Some \<lparr>SavedModem = modemID, Preferred = preferred, Changes = ?changes\<rparr>"
      using s save_view [OF f] fl by (auto split: if_splits)
    show ?thesis
    proof (cases es)
      case Nil
      then have "takeoverLoop ops ifname [] ?changes w1 = ((errs, changed), w')"
        using t l Inr s by (simp add: takeoverDefaultRoutesWithStore_def)
      then show ?thesis
        using ran [of current w1, OF _ _ v] fl Inr saved [OF _ Nil] by simp
    next
      case (Cons e es')
      then have "errs = e # es'" "changed = []" "w' = w1"
        using t l Inr s by (simp_all add: takeoverDefaultRoutesWithStore_def)
      then show ?thesis using untouched v by simp
    qed
  qed
qed

lemma takeover_recoverable:
  assumes f: "faithful ops view" and t: "takeoverDefaultRoutesWithStore ops modemID ifname preferred w = ((errs, changed), w')"
    and "view (kernel w') \<noteq> view (kernel w)"
  obtains entry where "map_of (savedRoutes w') (trim_space ifname) = Some entry" "Preferred entry = preferred"
    "planOk (view (kernel w)) (Changes entry)"
    "view (kernel w) - set (origs (Changes entry)) \<subseteq> view (kernel w')"
    "view (kernel w') \<subseteq> view (kernel w) \<union> set (repls (Changes entry))"
  using f t
proof (cases rule: takeover_parts)
  case untouched
  with assms(3) show ?thesis by simp
next
  case (ran current w1)
  let ?V = "view (kernel w)" and ?plan = "defaultRouteChanges current preferred"
  have plan: "planOk ?V ([] @ ?plan)" using plan_ok [OF ran(2), of preferred] ran(1) by simp
  have start: "view (kernel w1) = swapped ?V []" using ran(3) by simp
  have out: "(\<exists>rest. ?plan = changed @ rest) \<and> inForce ?V changed (view (kernel w')) \<and>
    (changed \<noteq> [] \<longrightarrow> savedRoutes w' = savedRoutes w1)"
  proof (cases errs)
    case Nil
    have "changed = [] @ ?plan \<and> view (kernel w') = swapped ?V changed \<and> savedRoutes w' = savedRoutes w1"
      by (rule takeoverLoop_done [OF f ran(4) [unfolded Nil] plan start])
    then show ?thesis by (auto simp: inForce_def)
  next
    case (Cons e es)
    show ?thesis using takeoverLoop_failed [OF f ran(4) [unfolded Cons] plan start] by simp
  qed
  then obtain rest where rest: "?plan = changed @ rest" by blast
  have "inForce ?V changed (view (kernel w'))" using out by blast
  then have "changed \<noteq> []" using assms(3) by (cases changed) (simp_all add: inForce_def)
  then have "map_of (savedRoutes w') (trim_space ifname) =
      Some \<lparr>SavedModem = modemID, Preferred = preferred, Changes = ?plan\<rparr>"
    using out ran(5) rest by auto
  moreover have "?V - set (origs ?plan) \<subseteq> view (kernel w')" "view (kernel w') \<subseteq> ?V \<union> set (repls ?plan)"
    unfolding rest using inForce_between [OF plan [unfolded rest append_Nil], of "view (kernel w')"] out by blast+
  ultimately show ?thesis using that plan [unfolded append_Nil] by fastforce
qed

lemma takeover_restorable:
  assumes "faithful ops view" and "takeoverDefaultRoutesWithStore ops modemID ifname preferred w = ((errs, changed), w')"
    and "view (kernel w') \<noteq> view (kernel w)"
  shows "\<exists>entry. map_of (savedRoutes w') (trim_space ifname) = Some entry \<and>
    (\<forall>w''. restoreDefaultRoutesWithOps ops (Changes entry) w' = ([], w'') \<longrightarrow>
       view (kernel w'') = view (kernel w) \<and> savedRoutes w'' = savedRoutes w')"
  using takeover_recoverable [OF assms] restore_between [OF assms(1)] by metis

text \<open>After a takeover without errors nothing that is not preferred comes before the preferred routes.\<close>

lemma preferredLoop_some: "preferredLoop family found routes = Some m \<Longrightarrow>
    found = Some m \<or> (\<exists>r\<in>set routes. Family r = family \<and> Metric r = m)"
  by (induction family found routes rule: preferredLoop.induct) (auto split: if_splits option.splits)

lemma changesLoop_complete:
  "r \<in> set rs \<Longrightarrow> \<not> defaultRouteExists r preferred \<Longrightarrow> preferredMetric (Family r) preferred = Some m \<Longrightarrow>
   Metric r \<le> m \<Longrightarrow> r \<in> Original ` set (changesLoop preferred used rs)"
  by (induction rs arbitrary: used) (auto simp: Let_def split: option.splits)

lemma takeover_priority:
  assumes f: "faithful ops view" and t: "takeoverDefaultRoutesWithStore ops modemID ifname preferred w = (([], changed), w')"
    and ten: "\<forall>p\<in>set preferred. Metric p \<le> defaultRouteMetric" and pos: "\<forall>r\<in>view (kernel w). 0 \<le> Metric r"
    and r: "r \<in> view (kernel w')" and p: "preferredMetric (Family r) preferred = Some m"
  shows "r \<in> canon ` set preferred \<or> m < Metric r"
  using f t
proof (cases rule: takeover_parts)
  case (ran current w1)
  let ?plan = "defaultRouteChanges current preferred"
  have plan: "planOk (view (kernel w)) ([] @ ?plan)" using plan_ok [OF ran(2), of preferred] ran(1) by simp
  have "view (kernel w') = swapped (view (kernel w)) ?plan"
    using takeoverLoop_done [OF f ran(4) plan] ran(3) by simp
  with r have "r \<in> set (repls ?plan) \<or> (r \<in> canon ` set current \<and> r \<notin> set (origs ?plan))"
    using ran(1) by (auto simp: swapped_def)
  then consider c where "c \<in> set ?plan" "r = canon (Replacement c)"
    | q where "q \<in> set current" "r = canon q" "r \<notin> set (origs ?plan)"
    by (metis (no_types, lifting) image_iff image_set)
  then show ?thesis
  proof cases
    case 1
    have "Original c \<in> set current" "10 + Metric (Original c) < Metric (Replacement c)"
      using changesLoop_props [of current current c preferred] 1 by (auto simp: defaultRouteChanges_def)
    moreover from this(1) have "0 \<le> Metric (Original c)" using pos ran(1) by (metis canon_fields(3) imageI)
    moreover have "m \<le> 10"
      using preferredLoop_some [OF p [unfolded preferredMetric_def]] ten by (auto simp: defaultRouteMetric_def)
    ultimately show ?thesis using 1 by simp
  next
    case 2
    then have "q \<notin> Original ` set ?plan" by auto
    then have "defaultRouteExists q preferred \<or> m < Metric q"
      using changesLoop_complete [of q current preferred m current] 2 p
      by (fastforce simp: defaultRouteChanges_def)
    then show ?thesis using 2
      by (auto simp: defaultRouteExists_def list_ex_iff sameDefaultRoute_canon)
  qed
qed simp

text \<open>A takeover without errors: the table, and the saved entry when there was something to move.\<close>

lemma save_exact:
  assumes "faithful ops view" and "saveRouteStateForModem ops modemID ifname preferred changes w = ([], w')"
  shows "savedRoutes w' = AList.update (trim_space ifname)
    \<lparr>SavedModem = modemID, Preferred = preferred, Changes = changes\<rparr> (savedRoutes w)"
  using assms(2)
  by (auto simp: saveRouteStateForModem_def putRouteStateForModem_def Let_def split: if_splits prod.splits option.splits
      dest!: faithful_fault [OF assms(1)] faithful_saved [OF assms(1)])

lemma takeover_clean:
  assumes f: "faithful ops view" and t: "takeoverDefaultRoutesWithStore ops modemID ifname preferred w = (([], changed), w')"
  shows "planOk (view (kernel w)) changed \<and> view (kernel w') = swapped (view (kernel w)) changed \<and>
    savedRoutes w' = (if changed = [] then savedRoutes w else
      AList.update (trim_space ifname) \<lparr>SavedModem = modemID, Preferred = preferred, Changes = changed\<rparr> (savedRoutes w))"
proof -
  obtain x wl where l: "onKernel (listRoutes ops) w = (x, wl)" by fastforce
  obtain current where x: "x = Inr current"
    using t l by (cases x) (auto simp: takeoverDefaultRoutesWithStore_def)
  note fl = faithful_list [OF f l]
  let ?plan = "defaultRouteChanges current preferred"
  obtain es w1 where s: "(if ?plan \<noteq> [] then saveRouteStateForModem ops modemID ifname preferred ?plan wl
      else ([], wl)) = (es, w1)" by fastforce
  have es: "es = []" and loop: "takeoverLoop ops ifname [] ?plan w1 = (([], changed), w')"
    using t l x s by (cases es; simp add: takeoverDefaultRoutesWithStore_def)+
  have v: "view (kernel w1) = view (kernel w)"
    using s save_view [OF f] fl by (auto split: if_splits)
  have plan: "planOk (view (kernel w)) ([] @ ?plan)" using plan_ok [of current preferred] fl x by simp
  have d: "changed = ?plan \<and> view (kernel w') = swapped (view (kernel w)) changed \<and> savedRoutes w' = savedRoutes w1"
    using takeoverLoop_done [OF f loop plan] v by simp
  then show ?thesis
    using plan s es fl save_exact [OF f, of modemID ifname preferred ?plan wl w1] by (auto split: if_splits)
qed

section \<open>Properties\<close>

text \<open>A kernel that holds its routes in a list and never fails, and two routes, for the examples.\<close>

definition exampleKernel :: "DefaultRoute list routeOps" where
  "exampleKernel = \<lparr>listRoutes = \<lambda>k. (Inr (remdups (map canon k)), k),
     addRoute = \<lambda>r k. if defaultRouteExists r k then (Some ErrDefaultRouteExists, k) else (None, k @ [r]),
     deleteRoute = \<lambda>r k. if defaultRouteExists r k then (None, filter (\<lambda>x. canon x \<noteq> canon r) k) else (Some ''no route'', k),
     storeFault = \<lambda>k. (None, k)\<rparr>"

definition exampleRoute :: "string \<Rightarrow> int \<Rightarrow> DefaultRoute" where
  "exampleRoute name metric = \<lparr>Interface = name, Family = 2, Protocol = 4, Scope = 0, Gateway = None, Source = None, Metric = metric\<rparr>"

lemma canon_canon [simp]: "canon (canon r) = canon r"
  by (simp add: canon_def routeProtocol_def)

lemma exampleKernel_faithful: "faithful exampleKernel (\<lambda>k. canon ` set k)"
proof -
  have "distinct (map canon (remdups (map canon k)))" for k
  proof -
    have "map canon (remdups (map canon k)) = remdups (map canon k)" by (rule map_idI) auto
    then show ?thesis by simp
  qed
  then show ?thesis
    by (auto simp: faithful_def exampleKernel_def defaultRouteExists_def list_ex_iff sameDefaultRoute_canon image_image)
qed

text \<open>
  C6: Whatever fails on the way, a takeover that leaves the routing table different from before has saved
  a plan from which restoring, when it reports no error, gives back exactly the table of before.
\<close>

theorem takeover_is_recoverable:
  assumes "faithful ops view" and "takeoverDefaultRoutesWithStore ops modemID ifname preferred w = ((errs, changed), w')"
    and "view (kernel w') \<noteq> view (kernel w)"
  shows "\<exists>entry. map_of (savedRoutes w') (trim_space ifname) = Some entry \<and>
    (\<forall>w''. restoreDefaultRoutesWithOps ops (Changes entry) w' = ([], w'') \<longrightarrow> view (kernel w'') = view (kernel w))"
  using takeover_restorable [OF assms] by blast

theorem takeover_is_recoverable_witness:
  "\<exists>errs changed w'. takeoverDefaultRoutesWithStore exampleKernel ''i'' ''wwan0'' [exampleRoute ''wwan0'' 10]
       \<lparr>kernel = [exampleRoute ''eth0'' 0, exampleRoute ''wwan0'' 10], savedRoutes = []\<rparr> = ((errs, changed), w') \<and>
     (\<exists>entry. map_of (savedRoutes w') ''wwan0'' = Some entry \<and>
       canon ` set (kernel (snd (restoreDefaultRoutesWithOps exampleKernel (Changes entry) w'))) =
         canon ` {exampleRoute ''eth0'' 0, exampleRoute ''wwan0'' 10})"
proof -
  let ?w = "\<lparr>kernel = [exampleRoute ''eth0'' 0, exampleRoute ''wwan0'' 10], savedRoutes = []\<rparr>"
  let ?t = "takeoverDefaultRoutesWithStore exampleKernel ''i'' ''wwan0'' [exampleRoute ''wwan0'' 10] ?w"
  obtain errs changed w' where t: "?t = ((errs, changed), w')" by (metis surj_pair)
  have k: "kernel (snd ?t) = [exampleRoute ''wwan0'' 10, exampleRoute ''eth0'' 11]" by code_simp
  have differ: "canon ` set [exampleRoute ''wwan0'' 10, exampleRoute ''eth0'' 11] \<noteq>
      canon ` set [exampleRoute ''eth0'' 0, exampleRoute ''wwan0'' 10]" (is "?A \<noteq> ?B")
  proof
    assume "?A = ?B"
    moreover have "11 \<in> Metric ` ?A" "11 \<notin> Metric ` ?B" by (simp_all add: exampleRoute_def)
    ultimately show False by metis
  qed
  have "canon ` set (kernel w') \<noteq> canon ` set (kernel ?w)"
    using k t differ by simp
  from takeover_is_recoverable [OF exampleKernel_faithful t this] obtain entry
    where e: "map_of (savedRoutes w') ''wwan0'' = Some entry"
      and undone: "\<And>w''. restoreDefaultRoutesWithOps exampleKernel (Changes entry) w' = ([], w'') \<Longrightarrow>
        canon ` set (kernel w'') = canon ` set (kernel ?w)"
    by (auto simp: trim_space_graphic graphic_def)
  have "fst (restoreDefaultRoutesWithOps exampleKernel (Changes (the (map_of (savedRoutes (snd ?t)) ''wwan0''))) (snd ?t)) = []"
    by code_simp
  then have "fst (restoreDefaultRoutesWithOps exampleKernel (Changes entry) w') = []" using t e by simp
  then obtain w'' where r: "restoreDefaultRoutesWithOps exampleKernel (Changes entry) w' = ([], w'')"
    by (metis prod.collapse)
  show ?thesis using t e undone [OF r] r by auto
qed

text \<open>
  C19: After a takeover without errors, every default route the kernel holds is one of the preferred routes or
  has a larger metric than the best preferred route of its family, so that the modem's routes win.
\<close>

theorem takeover_wins:
  assumes "faithful ops view" and "takeoverDefaultRoutesWithStore ops modemID ifname preferred w = (([], changed), w')"
    and "\<forall>p\<in>set preferred. Metric p \<le> defaultRouteMetric" and "\<forall>r\<in>view (kernel w). 0 \<le> Metric r"
    and "r \<in> view (kernel w')" and "preferredMetric (Family r) preferred = Some m"
  shows "r \<in> canon ` set preferred \<or> m < Metric r"
  by (rule takeover_priority [OF assms])

theorem takeover_wins_witness:
  "canon (exampleRoute ''eth0'' 11) \<in> canon ` set [exampleRoute ''wwan0'' 10] \<or> 10 < Metric (canon (exampleRoute ''eth0'' 11))"
proof -
  let ?w = "\<lparr>kernel = [exampleRoute ''eth0'' 0, exampleRoute ''wwan0'' 10], savedRoutes = []\<rparr>"
  let ?t = "takeoverDefaultRoutesWithStore exampleKernel ''i'' ''wwan0'' [exampleRoute ''wwan0'' 10] ?w"
  have k: "fst (fst ?t) = []" "kernel (snd ?t) = [exampleRoute ''wwan0'' 10, exampleRoute ''eth0'' 11]" by code_simp+
  obtain changed w' where t: "?t = (([], changed), w')" using k(1) by (metis prod.collapse)
  then have w': "kernel w' = [exampleRoute ''wwan0'' 10, exampleRoute ''eth0'' 11]" using k(2) by simp
  have m: "preferredMetric 2 [exampleRoute ''wwan0'' 10] = Some 10" by code_simp
  show ?thesis
    by (rule takeover_wins [OF exampleKernel_faithful t])
      (simp_all add: w' preferredMetric_def exampleRoute_def defaultRouteMetric_def)
qed

text \<open>
  The metric a displaced route gets is above the metric of the modem's routes and its own, is used by no route of its
  family, and is the smallest such metric.
\<close>

theorem fallback_metric_least_free:
  "\<not> routeMetricExists route (fallbackMetric route used) used \<and>
   defaultRouteMetric + Metric route < fallbackMetric route used \<and>
   (\<forall>m. defaultRouteMetric + Metric route < m \<and> m < fallbackMetric route used \<longrightarrow> routeMetricExists route m used)"
proof (intro conjI allI impI)
  fix m
  assume "defaultRouteMetric + Metric route < m \<and> m < fallbackMetric route used"
  then show "routeMetricExists route m used"
    unfolding fallbackMetric_def
    by (intro freeMetric_least [where used = "\<lambda>m. routeMetricExists route m used" and metrics = "map Metric used"
        and metric = "defaultRouteMetric + Metric route + 1"])
      (auto simp: routeMetricExists_def list_ex_iff)
qed (use fallbackMetric_free fallbackMetric_above in \<open>simp_all add: defaultRouteMetric_def\<close>)

theorem fallback_metric_least_free_witness:
  "fallbackMetric (exampleRoute ''eth0'' 0) [exampleRoute ''wlan0'' 11, exampleRoute ''wwan0'' 10] = 12 \<and>
   routeMetricExists (exampleRoute ''eth0'' 0) 11 [exampleRoute ''wlan0'' 11, exampleRoute ''wwan0'' 10]"
proof -
  have v: "fallbackMetric (exampleRoute ''eth0'' 0) [exampleRoute ''wlan0'' 11, exampleRoute ''wwan0'' 10] = 12"
    by (simp add: fallbackMetric_def freeMetric.simps routeMetricExists_def exampleRoute_def defaultRouteMetric_def)
  show ?thesis
    using fallback_metric_least_free [of "exampleRoute ''eth0'' 0" "[exampleRoute ''wlan0'' 11, exampleRoute ''wwan0'' 10]"]
    unfolding v by (simp add: exampleRoute_def defaultRouteMetric_def)
qed

end
