(* ===== verification/Netlink.thy ===== *)
theory Netlink
  imports DefaultRoutes "HOL-Library.Monad_Syntax"
begin

text \<open>
  The routing messages the program exchanges with the kernel (\<open>internal/pkg/netlink/netlink.go\<close>): how an
  address or a default route becomes a request, how a dump of the routing table is read back, and how
  the acknowledgement of a request is awaited.

  A byte slice is a list; \<open>sliceOf\<close> and \<open>byteAt\<close> give \<open>None\<close> where Go would panic (they are stricter than
  Go, which allows a slice to reach up to its capacity), so \<open>None\<close> of a parser is a panic. An address is its 4 or
  16 bytes, \<open>None\<close> the invalid address; zones are not modelled. The byte order of the machine, the
  interfaces, the sockets and the clock are the record \<open>netSystem\<close> of functions on a kernel state; an
  error of the kernel is its \<open>errno\<close>. A call that waits for the kernel gives \<open>None\<close> when it waits
  for ever.
\<close>

section \<open>Bytes\<close>

datatype byteOrder = LittleEndian | BigEndian

primrec fromLittle :: "byte list \<Rightarrow> nat" where
  "fromLittle [] = 0"
| "fromLittle (b # bs) = unat b + 256 * fromLittle bs"

primrec toLittle :: "nat \<Rightarrow> nat \<Rightarrow> byte list" where
  "toLittle 0 v = []"
| "toLittle (Suc n) v = of_nat v # toLittle n (v div 256)"

text \<open>\<open>binary.NativeEndian.Uint16\<close> and its kin, on a slice of the right length, and \<open>PutUint16\<close>.\<close>

definition getUint :: "byteOrder \<Rightarrow> byte list \<Rightarrow> nat" where
  "getUint en bs = fromLittle (if en = LittleEndian then bs else rev bs)"

definition putUint :: "byteOrder \<Rightarrow> nat \<Rightarrow> nat \<Rightarrow> byte list" where
  "putUint en n v = (if en = LittleEndian then toLittle n v else rev (toLittle n v))"

text \<open>The conversion \<open>int32(x)\<close>.\<close>

definition int32 :: "int \<Rightarrow> int" where
  "int32 x = (x + 2 ^ 31) mod 2 ^ 32 - 2 ^ 31"

definition sliceOf :: "'a list \<Rightarrow> nat \<Rightarrow> nat \<Rightarrow> 'a list option" where
  "sliceOf xs i j = (if i \<le> j \<and> j \<le> length xs then Some (drop i (take j xs)) else None)"

definition byteAt :: "byte list \<Rightarrow> nat \<Rightarrow> byte option" where
  "byteAt xs i = (if i < length xs then Some (xs ! i) else None)"

section \<open>The kernel\<close>

text \<open>The Linux constants of \<open>golang.org/x/sys/unix\<close>.\<close>

abbreviation (input) AF_UNSPEC :: int where "AF_UNSPEC \<equiv> 0"
abbreviation (input) AF_INET :: int where "AF_INET \<equiv> 2"
abbreviation (input) AF_INET6 :: int where "AF_INET6 \<equiv> 10"
abbreviation (input) RTM_NEWADDR :: nat where "RTM_NEWADDR \<equiv> 20"
abbreviation (input) RTM_DELADDR :: nat where "RTM_DELADDR \<equiv> 21"
abbreviation (input) RTM_NEWROUTE :: nat where "RTM_NEWROUTE \<equiv> 24"
abbreviation (input) RTM_DELROUTE :: nat where "RTM_DELROUTE \<equiv> 25"
abbreviation (input) IFA_ADDRESS :: nat where "IFA_ADDRESS \<equiv> 1"
abbreviation (input) IFA_LOCAL :: nat where "IFA_LOCAL \<equiv> 2"
abbreviation (input) RTA_OIF :: nat where "RTA_OIF \<equiv> 4"
abbreviation (input) RTA_GATEWAY :: nat where "RTA_GATEWAY \<equiv> 5"
abbreviation (input) RTA_PRIORITY :: nat where "RTA_PRIORITY \<equiv> 6"
abbreviation (input) RTA_PREFSRC :: nat where "RTA_PREFSRC \<equiv> 7"
abbreviation (input) RTA_MULTIPATH :: nat where "RTA_MULTIPATH \<equiv> 9"
abbreviation (input) RTA_TABLE :: nat where "RTA_TABLE \<equiv> 15"
abbreviation (input) RTA_VIA :: nat where "RTA_VIA \<equiv> 18"
abbreviation (input) EINVAL :: nat where "EINVAL \<equiv> 22"

text \<open>\<open>NLM_F_REQUEST|NLM_F_ACK\<close>, \<open>NLM_F_CREATE|NLM_F_REPLACE\<close> and \<open>NLM_F_CREATE|NLM_F_EXCL\<close>.\<close>

abbreviation (input) requestAck :: nat where "requestAck \<equiv> 0x005"
abbreviation (input) createReplace :: nat where "createReplace \<equiv> 0x500"
abbreviation (input) createExcl :: nat where "createExcl \<equiv> 0x600"

datatype netlinkError =
    Errno nat
  | OpenSocket nat
  | BindSocket nat
  | SendRequest nat
  | ReceiveAck nat
  | ParseAck nat
  | ReadDump nat
  | ParseDump nat
  | FindInterface "nat option"
  | ListAddresses "nat option"
  | OpenControlSocket nat
  | PrepareInterface nat
  | ReadFlags nat
  | SetFlags nat
  | SetInterfaceMTU nat
  | ParseAddressText string
  | ResponseTruncated
  | InvalidPrefix
  | InvalidIPAddress
  | InvalidRouteFamily
  | GatewayFamilyMismatch
  | SourceFamilyMismatch
  | DefaultRouteExistsErr string int

record 'k netSystem =
  NativeEndian :: byteOrder
  InterfaceByName :: "string \<Rightarrow> nat option + int"
  InterfaceByIndex :: "int \<Rightarrow> string option"
  InterfaceAddrs :: "string \<Rightarrow> nat option + (string + (byte list \<times> int)) list"
  NetlinkRIB :: "int \<Rightarrow> nat + byte list"
  UnixNano :: "'k \<Rightarrow> int"
  openNetlink :: "'k \<Rightarrow> nat option \<times> 'k"
  bindNetlink :: "'k \<Rightarrow> nat option \<times> 'k"
  Sendto :: "byte list \<Rightarrow> 'k \<Rightarrow> nat option \<times> 'k"
  Recvfrom :: "'k \<Rightarrow> ((nat + byte list) \<times> 'k) option"
  openControl :: "'k \<Rightarrow> nat option \<times> 'k"
  NewIfreq :: "string \<Rightarrow> nat option"
  getFlags :: "string \<Rightarrow> 'k \<Rightarrow> nat + nat"
  setFlags :: "string \<Rightarrow> nat \<Rightarrow> 'k \<Rightarrow> nat option \<times> 'k"
  setMTU :: "string \<Rightarrow> nat \<Rightarrow> 'k \<Rightarrow> nat option \<times> 'k"

text \<open>\<open>errors.Is(err, errno)\<close> looks through the wrapped errors.\<close>

fun errnoOf :: "netlinkError \<Rightarrow> nat option" where
  "errnoOf (Errno e) = Some e"
| "errnoOf (OpenSocket e) = Some e"
| "errnoOf (BindSocket e) = Some e"
| "errnoOf (SendRequest e) = Some e"
| "errnoOf (ReceiveAck e) = Some e"
| "errnoOf (ParseAck e) = Some e"
| "errnoOf (ReadDump e) = Some e"
| "errnoOf (ParseDump e) = Some e"
| "errnoOf (FindInterface e) = e"
| "errnoOf (ListAddresses e) = e"
| "errnoOf (OpenControlSocket e) = Some e"
| "errnoOf (PrepareInterface e) = Some e"
| "errnoOf (ReadFlags e) = Some e"
| "errnoOf (SetFlags e) = Some e"
| "errnoOf (SetInterfaceMTU e) = Some e"
| "errnoOf _ = None"

section \<open>Attributes\<close>

definition rtaAlign :: "nat \<Rightarrow> nat" where
  "rtaAlign n = nat ((int n + 4 - 1) AND NOT (4 - 1))"

definition appendAttr :: "byteOrder \<Rightarrow> byte list \<Rightarrow> nat \<Rightarrow> byte list \<Rightarrow> byte list" where
  "appendAttr en msg attrType val =
     (let len = 4 + length val; padded = rtaAlign len in
      msg @ putUint en 2 len @ putUint en 2 attrType @ val @ replicate (padded - len) 0)"

text \<open>The Go map of the attributes; reading a missing key gives the nil slice.\<close>

type_synonym attrMap = "nat \<rightharpoonup> byte list"

definition attrOf :: "attrMap \<Rightarrow> nat \<Rightarrow> byte list" where
  "attrOf attrs t = (case attrs t of None \<Rightarrow> [] | Some v \<Rightarrow> v)"

lemma sliceOf_length: "sliceOf xs i j = Some ys \<Longrightarrow> length ys = j - i \<and> j \<le> length xs"
  by (auto simp: sliceOf_def split: if_splits)

lemma rtaAlign_eq: "rtaAlign n = 4 * ((n + 3) div 4)"
proof -
  have "(int n + 3) AND NOT (mask 2) = push_bit 2 (drop_bit 2 (int n + 3))"
    by (rule bit_eqI)
      (auto simp: bit_and_iff bit_not_iff bit_mask_iff bit_push_bit_iff bit_drop_bit_eq simp del: add_2_eq_Suc add_2_eq_Suc')
  also have "\<dots> = 4 * ((int n + 3) div 4)"
    by (simp add: push_bit_eq_mult drop_bit_eq_div)
  finally have e: "(int n + 3) AND NOT (mask 2) = int (4 * ((n + 3) div 4))"
    by (simp add: zdiv_int)
  have "rtaAlign n = nat ((int n + 3) AND NOT (mask 2))"
    by (simp add: rtaAlign_def mask_eq_exp_minus_1 add.commute)
  then show ?thesis unfolding e by simp
qed

lemma rtaAlign_ge: "n \<le> rtaAlign n" and rtaAlign_pos: "0 < n \<Longrightarrow> 0 < rtaAlign n"
  by (simp_all add: rtaAlign_eq)

function parseAttrsLoop :: "byteOrder \<Rightarrow> attrMap \<Rightarrow> byte list \<Rightarrow> attrMap option" where
  "parseAttrsLoop en attrs data =
     (if length data < 4 then Some attrs
      else do {
        l \<leftarrow> sliceOf data 0 2;
        let len = getUint en l;
        if len < 4 \<or> length data < len then Some attrs
        else let aligned = rtaAlign len in
          if length data < aligned then Some attrs
          else do {
            t \<leftarrow> sliceOf data 2 4;
            v \<leftarrow> sliceOf data 4 len;
            rest \<leftarrow> sliceOf data aligned (length data);
            parseAttrsLoop en (attrs(getUint en t \<mapsto> v)) rest
          }
      })"
  by pat_completeness auto
termination
  by (relation "measure (\<lambda>(en, attrs, data). length data)")
    (auto simp: rtaAlign_eq dest!: sliceOf_length)

declare parseAttrsLoop.simps [simp del]

definition parseAttrs :: "byteOrder \<Rightarrow> byte list \<Rightarrow> attrMap option" where
  "parseAttrs en data = parseAttrsLoop en Map.empty data"

definition attrUint32 :: "byteOrder \<Rightarrow> byte list \<Rightarrow> nat option" where
  "attrUint32 en val =
     (if length val < 4 then Some 0 else do { w \<leftarrow> sliceOf val 0 4; Some (getUint en w) })"

definition attrAddr :: "int \<Rightarrow> byte list \<Rightarrow> byte list option option" where
  "attrAddr family val =
     (if family = AF_INET then
        if length val < 4 then Some None else do { raw \<leftarrow> sliceOf val 0 4; Some (Some raw) }
      else if family = AF_INET6 then
        if length val < 16 then Some None else do { raw \<leftarrow> sliceOf val 0 16; Some (Some raw) }
      else Some None)"

definition attrViaAddr :: "byteOrder \<Rightarrow> byte list \<Rightarrow> byte list option option" where
  "attrViaAddr en val =
     (if length val < 2 then Some None
      else do {
        f \<leftarrow> sliceOf val 0 2;
        rest \<leftarrow> sliceOf val 2 (length val);
        attrAddr (int (getUint en f)) rest
      })"

definition attrRouteGateway :: "byteOrder \<Rightarrow> int \<Rightarrow> attrMap \<Rightarrow> byte list option option" where
  "attrRouteGateway en family attrs = do {
     gateway \<leftarrow> attrAddr family (attrOf attrs RTA_GATEWAY);
     case gateway of
       Some a \<Rightarrow> Some (Some a)
     | None \<Rightarrow> attrViaAddr en (attrOf attrs RTA_VIA)
   }"

section \<open>Reading the routing table\<close>

function parseMultipathDefaultRoutes ::
  "'k netSystem \<Rightarrow> DefaultRoute \<Rightarrow> DefaultRoute list \<Rightarrow> byte list \<Rightarrow> DefaultRoute list option" where
  "parseMultipathDefaultRoutes sys route routes data =
     (if length data < 8 then Some routes
      else do {
        l \<leftarrow> sliceOf data 0 2;
        let len = getUint (NativeEndian sys) l;
        if len < 8 \<or> length data < len then Some routes
        else let aligned = rtaAlign len in
          if length data < aligned then Some routes
          else do {
            w \<leftarrow> sliceOf data 4 8;
            rest \<leftarrow> sliceOf data aligned (length data);
            let index = int32 (int (getUint (NativeEndian sys) w));
            (case if index \<noteq> 0 then InterfaceByIndex sys index else Some (Interface route) of
               None \<Rightarrow> parseMultipathDefaultRoutes sys route routes rest
             | Some name \<Rightarrow> do {
                 hop \<leftarrow> sliceOf data 8 len;
                 attrs \<leftarrow> parseAttrs (NativeEndian sys) hop;
                 gateway \<leftarrow> attrRouteGateway (NativeEndian sys) (Family route) attrs;
                 let nexthop = route\<lparr>Interface := name,
                   Gateway := (case gateway of None \<Rightarrow> Gateway route | Some a \<Rightarrow> Some a)\<rparr>;
                 parseMultipathDefaultRoutes sys route
                   (if Interface nexthop \<noteq> [] then routes @ [nexthop] else routes) rest
               })
          }
      })"
  by pat_completeness auto
termination
  by (relation "measure (\<lambda>(sys, route, routes, data). length data)")
    (auto simp: rtaAlign_eq dest!: sliceOf_length)

declare parseMultipathDefaultRoutes.simps [simp del]

definition parseDefaultRoutes :: "'k netSystem \<Rightarrow> byte list \<Rightarrow> DefaultRoute list option" where
  "parseDefaultRoutes sys data =
     (let en = NativeEndian sys in
      if length data < 12 then Some []
      else do {
        d0 \<leftarrow> byteAt data 0;
        let family = uint d0;
        if family \<noteq> AF_INET \<and> family \<noteq> AF_INET6 then Some []
        else do {
          dstLen \<leftarrow> byteAt data 1;
          routeType \<leftarrow> byteAt data 7;
          if dstLen \<noteq> 0 \<or> routeType \<noteq> 1 then Some []
          else do {
            body \<leftarrow> sliceOf data 12 (length data);
            attrs \<leftarrow> parseAttrs en body;
            table \<leftarrow> attrUint32 en (attrOf attrs RTA_TABLE);
            d4 \<leftarrow> byteAt data 4;
            if table \<noteq> 0 \<and> table \<noteq> 254 \<or> table = 0 \<and> d4 \<noteq> 254 then Some []
            else do {
              index \<leftarrow> attrUint32 en (attrOf attrs RTA_OIF);
              gateway \<leftarrow> attrRouteGateway en family attrs;
              source \<leftarrow> attrAddr family (attrOf attrs RTA_PREFSRC);
              metric \<leftarrow> attrUint32 en (attrOf attrs RTA_PRIORITY);
              d5 \<leftarrow> byteAt data 5;
              d6 \<leftarrow> byteAt data 6;
              (case if index \<noteq> 0 then InterfaceByIndex sys (int index) else Some [] of
                 None \<Rightarrow> Some []
               | Some name \<Rightarrow>
                   let route = \<lparr>Interface = name, Family = family, Protocol = uint d5, Scope = uint d6,
                                 Gateway = gateway, Source = source, Metric = int metric\<rparr>;
                       multipath = attrOf attrs RTA_MULTIPATH
                   in if multipath \<noteq> [] then parseMultipathDefaultRoutes sys route [] multipath
                      else if name = [] then Some []
                      else Some [route])
            }
          }
        }
      })"

text \<open>A message of the kernel: the fields of its header that the program reads, and its data.\<close>

record netlinkMessage =
  nlType :: nat
  nlFlags :: nat
  nlSeq :: nat
  nlData :: "byte list"

text \<open>
  \<open>syscall.ParseNetlinkMessage\<close> of the Go library: a header of 16 bytes with its length, type, flags, sequence
  number and port, then the data, padded to four bytes.
\<close>

function ParseNetlinkMessage :: "byteOrder \<Rightarrow> byte list \<Rightarrow> nat + netlinkMessage list" where
  "ParseNetlinkMessage en b =
     (if length b < 16 then Inr []
      else let len = getUint en (take 4 b) in
        if len < 16 \<or> length b < rtaAlign len then Inl EINVAL
        else rbind (ParseNetlinkMessage en (drop (rtaAlign len) b)) (\<lambda>ms.
          Inr (\<lparr>nlType = getUint en (take 2 (drop 4 b)), nlFlags = getUint en (take 2 (drop 6 b)),
                nlSeq = getUint en (take 4 (drop 8 b)), nlData = take (len - 16) (drop 16 b)\<rparr> # ms)))"
  by pat_completeness auto
termination
  by (relation "measure (length o snd)") (auto simp: rtaAlign_eq)

declare ParseNetlinkMessage.simps [simp del]

definition routeDump :: "'k netSystem \<Rightarrow> int \<Rightarrow> netlinkError + netlinkMessage list" where
  "routeDump sys family =
     (case NetlinkRIB sys family of
        Inl e \<Rightarrow> Inl (ReadDump e)
      | Inr data \<Rightarrow> map_sum ParseDump id (ParseNetlinkMessage (NativeEndian sys) data))"

text \<open>\<open>if !defaultRouteExists(route, routes) { routes = append(routes, route) }\<close>.\<close>

definition addDumpedRoute :: "DefaultRoute \<Rightarrow> DefaultRoute list \<Rightarrow> DefaultRoute list" where
  "addDumpedRoute route routes = (if defaultRouteExists route routes then routes else routes @ [route])"

fun dumpedRoutesLoop :: "'k netSystem \<Rightarrow> DefaultRoute list \<Rightarrow> netlinkMessage list \<Rightarrow> DefaultRoute list option" where
  "dumpedRoutesLoop sys routes [] = Some routes"
| "dumpedRoutesLoop sys routes (msg # msgs) =
     (if nlType msg \<noteq> RTM_NEWROUTE then dumpedRoutesLoop sys routes msgs
      else do {
        parsed \<leftarrow> parseDefaultRoutes sys (nlData msg);
        dumpedRoutesLoop sys (fold addDumpedRoute parsed routes) msgs
      })"

fun familiesLoop :: "'k netSystem \<Rightarrow> DefaultRoute list \<Rightarrow> int list \<Rightarrow> (netlinkError + DefaultRoute list) option" where
  "familiesLoop sys routes [] = Some (Inr routes)"
| "familiesLoop sys routes (family # families) =
     (case routeDump sys family of
        Inl e \<Rightarrow> Some (Inl e)
      | Inr msgs \<Rightarrow> do {
          routes' \<leftarrow> dumpedRoutesLoop sys routes msgs;
          familiesLoop sys routes' families
        })"

definition readDefaultRoutes :: "'k netSystem \<Rightarrow> (netlinkError + DefaultRoute list) option" where
  "readDefaultRoutes sys = familiesLoop sys [] [AF_UNSPEC, AF_INET, AF_INET6]"

section \<open>Requests\<close>

definition ipFamilyBytes :: "byte list option \<Rightarrow> netlinkError + int \<times> byte list" where
  "ipFamilyBytes addr =
     (case addr of
        None \<Rightarrow> Inl InvalidIPAddress
      | Some raw \<Rightarrow>
          if length raw = 4 then Inr (AF_INET, raw)
          else if length raw = 16 then Inr (AF_INET6, raw)
          else Inl InvalidIPAddress)"

definition addressMessage :: "'k netSystem \<Rightarrow> string \<Rightarrow> (byte list \<times> int) option \<Rightarrow> netlinkError + byte list" where
  "addressMessage sys interfaceName prefix =
     (case prefix of
        None \<Rightarrow> Inl InvalidPrefix
      | Some (addr, bits) \<Rightarrow>
          rbind (map_sum FindInterface id (InterfaceByName sys interfaceName)) (\<lambda>index.
          rbind (ipFamilyBytes (Some addr)) (\<lambda>(family, raw).
            let en = NativeEndian sys;
                msg = [word_of_int family, word_of_int bits, 0, 0] @ putUint en 4 (nat (index mod 2 ^ 32));
                msg = appendAttr en msg IFA_LOCAL raw
            in Inr (appendAttr en msg IFA_ADDRESS raw))))"

text \<open>The optional attribute of an address: it must have the family of the route.\<close>

definition appendAddr ::
  "byteOrder \<Rightarrow> int \<Rightarrow> netlinkError \<Rightarrow> nat \<Rightarrow> byte list option \<Rightarrow> byte list \<Rightarrow> netlinkError + byte list" where
  "appendAddr en routeFamily mismatch attrType addr msg =
     (if addr = None then Inr msg
      else rbind (ipFamilyBytes addr) (\<lambda>(family, raw).
        if family \<noteq> routeFamily then Inl mismatch else Inr (appendAttr en msg attrType raw)))"

definition routeMessage :: "'k netSystem \<Rightarrow> DefaultRoute \<Rightarrow> netlinkError + byte list" where
  "routeMessage sys route =
     (if Family route \<noteq> AF_INET \<and> Family route \<noteq> AF_INET6 then Inl InvalidRouteFamily
      else rbind (map_sum FindInterface id (InterfaceByName sys (Interface route))) (\<lambda>index.
        let en = NativeEndian sys;
            msg = [word_of_int (Family route), 0, 0, 0, 254, word_of_int (routeProtocol route),
                   word_of_int (Scope route), 1, 0, 0, 0, 0];
            msg = appendAttr en msg RTA_OIF (putUint en 4 (nat (index mod 2 ^ 32)));
            msg = (if Metric route > 0
                   then appendAttr en msg RTA_PRIORITY (putUint en 4 (nat (Metric route mod 2 ^ 32)))
                   else msg)
        in rbind (appendAddr en (Family route) GatewayFamilyMismatch RTA_GATEWAY (Gateway route) msg) (\<lambda>msg.
           appendAddr en (Family route) SourceFamilyMismatch RTA_PREFSRC (Source route) msg)))"

text \<open>The request: the header of 16 bytes, then the payload.\<close>

definition netlinkRequest :: "byteOrder \<Rightarrow> nat \<Rightarrow> nat \<Rightarrow> nat \<Rightarrow> byte list \<Rightarrow> byte list" where
  "netlinkRequest en msgType flags seq payload =
     putUint en 4 (16 + length payload) @ putUint en 2 msgType @ putUint en 2 flags @ putUint en 4 seq
       @ replicate 4 0 @ payload"

text \<open>The messages of one datagram: \<open>None\<close> to go on receiving, or the answer to the request.\<close>

fun scanAck :: "byteOrder \<Rightarrow> nat \<Rightarrow> netlinkMessage list \<Rightarrow> netlinkError option option" where
  "scanAck en seq [] = None"
| "scanAck en seq (msg # msgs) =
     (if nlSeq msg \<noteq> seq then scanAck en seq msgs
      else if nlType msg = 2 then
        (if length (nlData msg) < 4 then Some (Some ResponseTruncated)
         else let code = int32 (int (getUint en (take 4 (nlData msg)))) in
           if code = 0 then Some None else Some (Some (Errno (nat (int32 (- code) mod 2 ^ 64)))))
      else if nlType msg = 3 then Some None
      else scanAck en seq msgs)"

partial_function (option) receiveACK ::
  "'k netSystem \<Rightarrow> nat \<Rightarrow> 'k \<Rightarrow> (netlinkError option \<times> 'k) option" where
  "receiveACK sys seq k =
     (case Recvfrom sys k of
        None \<Rightarrow> None
      | Some (Inl e, k) \<Rightarrow> Some (Some (ReceiveAck e), k)
      | Some (Inr datagram, k) \<Rightarrow>
          (case ParseNetlinkMessage (NativeEndian sys) (take 8192 datagram) of
             Inl e \<Rightarrow> Some (Some (ParseAck e), k)
           | Inr msgs \<Rightarrow>
               (case scanAck (NativeEndian sys) seq msgs of
                  Some r \<Rightarrow> Some (r, k)
                | None \<Rightarrow> receiveACK sys seq k)))"

definition send :: "'k netSystem \<Rightarrow> nat \<Rightarrow> nat \<Rightarrow> byte list \<Rightarrow> 'k \<Rightarrow> (netlinkError option \<times> 'k) option" where
  "send sys msgType flags payload k =
     (case openNetlink sys k of
        (Some e, k) \<Rightarrow> Some (Some (OpenSocket e), k)
      | (None, k) \<Rightarrow>
     (case bindNetlink sys k of
        (Some e, k) \<Rightarrow> Some (Some (BindSocket e), k)
      | (None, k) \<Rightarrow>
          let seq = nat (UnixNano sys k mod 2 ^ 32) in
     (case Sendto sys (netlinkRequest (NativeEndian sys) msgType flags seq payload) k of
        (Some e, k) \<Rightarrow> Some (Some (SendRequest e), k)
      | (None, k) \<Rightarrow> receiveACK sys seq k)))"

definition changeAddress ::
  "'k netSystem \<Rightarrow> nat \<Rightarrow> nat \<Rightarrow> string \<Rightarrow> (byte list \<times> int) option \<Rightarrow> 'k \<Rightarrow> (netlinkError option \<times> 'k) option" where
  "changeAddress sys msgType flags interfaceName prefix k =
     (case addressMessage sys interfaceName prefix of
        Inl e \<Rightarrow> Some (Some e, k)
      | Inr msg \<Rightarrow> send sys msgType (requestAck OR flags) msg k)"

definition changeDefaultRoute ::
  "'k netSystem \<Rightarrow> nat \<Rightarrow> nat \<Rightarrow> DefaultRoute \<Rightarrow> 'k \<Rightarrow> (netlinkError option \<times> 'k) option" where
  "changeDefaultRoute sys msgType flags route k =
     (case routeMessage sys route of
        Inl e \<Rightarrow> Some (Some e, k)
      | Inr msg \<Rightarrow> send sys msgType (requestAck OR flags) msg k)"

text \<open>An error that means the entry is already gone counts as success.\<close>

definition ignoring :: "nat list \<Rightarrow> netlinkError option \<Rightarrow> netlinkError option" where
  "ignoring errnos err =
     (case err of
        None \<Rightarrow> None
      | Some e \<Rightarrow> if list_ex (\<lambda>n. errnoOf e = Some n) errnos then None else Some e)"

definition netAddAddress ::
  "'k netSystem \<Rightarrow> string \<Rightarrow> (byte list \<times> int) option \<Rightarrow> 'k \<Rightarrow> (netlinkError option \<times> 'k) option" where
  "netAddAddress sys interfaceName prefix = changeAddress sys RTM_NEWADDR createReplace interfaceName prefix"

definition netDeleteAddress ::
  "'k netSystem \<Rightarrow> string \<Rightarrow> (byte list \<times> int) option \<Rightarrow> 'k \<Rightarrow> (netlinkError option \<times> 'k) option" where
  "netDeleteAddress sys interfaceName prefix k =
     map_option (map_prod (ignoring [99, 2, 3]) id) (changeAddress sys RTM_DELADDR 0 interfaceName prefix k)"

definition netAddDefaultRoute :: "'k netSystem \<Rightarrow> DefaultRoute \<Rightarrow> 'k \<Rightarrow> (netlinkError option \<times> 'k) option" where
  "netAddDefaultRoute sys route k =
     map_option (map_prod (\<lambda>err.
         case err of
           None \<Rightarrow> None
         | Some e \<Rightarrow> if errnoOf e = Some 17 then Some (DefaultRouteExistsErr (Interface route) (Metric route)) else Some e) id)
       (changeDefaultRoute sys RTM_NEWROUTE createExcl route k)"

definition netDeleteDefaultRoute :: "'k netSystem \<Rightarrow> DefaultRoute \<Rightarrow> 'k \<Rightarrow> (netlinkError option \<times> 'k) option" where
  "netDeleteDefaultRoute sys route k =
     map_option (map_prod (ignoring [2, 3]) id) (changeDefaultRoute sys RTM_DELROUTE 0 route k)"

text \<open>A joined error is the list of its parts; an address whose text does not parse is an error of its own.\<close>

fun flushLoop ::
  "'k netSystem \<Rightarrow> string \<Rightarrow> netlinkError list \<Rightarrow> (string + (byte list \<times> int)) list \<Rightarrow> 'k \<Rightarrow> (netlinkError list \<times> 'k) option" where
  "flushLoop sys interfaceName errs [] k = Some (errs, k)"
| "flushLoop sys interfaceName errs (Inl e # addrs) k = flushLoop sys interfaceName (errs @ [ParseAddressText e]) addrs k"
| "flushLoop sys interfaceName errs (Inr prefix # addrs) k =
     (case netDeleteAddress sys interfaceName (Some prefix) k of
        None \<Rightarrow> None
      | Some (err, k) \<Rightarrow> flushLoop sys interfaceName (errs @ (case err of None \<Rightarrow> [] | Some e \<Rightarrow> [e])) addrs k)"

definition netFlushAddresses :: "'k netSystem \<Rightarrow> string \<Rightarrow> 'k \<Rightarrow> (netlinkError list \<times> 'k) option" where
  "netFlushAddresses sys interfaceName k =
     (case InterfaceByName sys interfaceName of
        Inl e \<Rightarrow> Some ([FindInterface e], k)
      | Inr index \<Rightarrow>
          (case InterfaceAddrs sys interfaceName of
             Inl e \<Rightarrow> Some ([ListAddresses e], k)
           | Inr addrs \<Rightarrow> flushLoop sys interfaceName [] addrs k))"

definition netSetUp :: "'k netSystem \<Rightarrow> string \<Rightarrow> 'k \<Rightarrow> netlinkError option \<times> 'k" where
  "netSetUp sys name k =
     (case openControl sys k of
        (Some e, k) \<Rightarrow> (Some (OpenControlSocket e), k)
      | (None, k) \<Rightarrow>
     (case NewIfreq sys name of
        Some e \<Rightarrow> (Some (PrepareInterface e), k)
      | None \<Rightarrow>
     (case getFlags sys name k of
        Inl e \<Rightarrow> (Some (ReadFlags e), k)
      | Inr flags \<Rightarrow> map_prod (map_option SetFlags) id (setFlags sys name (flags OR 1) k))))"

definition netSetMTU :: "'k netSystem \<Rightarrow> string \<Rightarrow> nat \<Rightarrow> 'k \<Rightarrow> netlinkError option \<times> 'k" where
  "netSetMTU sys name mtu k =
     (if mtu = 0 then (None, k)
      else case openControl sys k of
        (Some e, k) \<Rightarrow> (Some (OpenControlSocket e), k)
      | (None, k) \<Rightarrow>
     (case NewIfreq sys name of
        Some e \<Rightarrow> (Some (PrepareInterface e), k)
      | None \<Rightarrow> map_prod (map_option SetInterfaceMTU) id (setMTU sys name mtu k)))"

section \<open>Bytes and attributes\<close>

lemma toLittle_length [simp]: "length (toLittle n v) = n"
  by (induction n arbitrary: v) simp_all

lemma putUint_length [simp]: "length (putUint en n v) = n"
  by (simp add: putUint_def)

lemma fromLittle_toLittle [simp]: "fromLittle (toLittle n v) = v mod 256 ^ n"
  by (induction n arbitrary: v) (simp_all add: unsigned_of_nat take_bit_eq_mod mod_mult2_eq)

lemma getUint_putUint [simp]: "getUint en (putUint en n v) = v mod 256 ^ n"
  by (simp add: getUint_def putUint_def)

lemma fromLittle_less: "fromLittle bs < 256 ^ length bs"
proof (induction bs)
  case (Cons b bs)
  have "unat b < 256" using unsigned_less [of b, where 'a = nat] by simp
  with Cons show ?case by simp
qed simp

lemma getUint_less: "getUint en bs < 256 ^ length bs"
  using fromLittle_less [of bs] fromLittle_less [of "rev bs"] by (simp add: getUint_def)

lemma sliceOf_Some [simp]: "i \<le> j \<Longrightarrow> j \<le> length xs \<Longrightarrow> sliceOf xs i j = Some (drop i (take j xs))"
  by (simp add: sliceOf_def)

lemma byteAt_Some [simp]: "i < length xs \<Longrightarrow> byteAt xs i = Some (xs ! i)"
  by (simp add: byteAt_def)

lemma attrUint32_eq:
  "attrUint32 en val = Some (if length val < 4 then 0 else getUint en (take 4 val))"
  by (simp add: attrUint32_def)

lemma attrAddr_eq:
  "attrAddr family val =
     Some (if family = AF_INET \<and> 4 \<le> length val then Some (take 4 val)
           else if family = AF_INET6 \<and> 16 \<le> length val then Some (take 16 val) else None)"
  by (simp add: attrAddr_def)

text \<open>The parsers never leave their slice.\<close>

lemma attrRouteGateway_total: "\<exists>g. attrRouteGateway en family attrs = Some g"
  by (simp add: attrRouteGateway_def attrAddr_eq attrViaAddr_def)

lemma attrUint32_bounded: "\<exists>v. attrUint32 en val = Some v \<and> v < 2 ^ 32"
  using getUint_less [of en "take 4 val"] by (cases "length val < 4") (simp_all add: attrUint32_eq min_absorb2)

lemma parseAttrsLoop_stop:
  "length data < 4 \<or> getUint en (take 2 data) < 4 \<or> length data < rtaAlign (getUint en (take 2 data)) \<Longrightarrow>
   parseAttrsLoop en attrs data = Some attrs"
  by (subst parseAttrsLoop.simps) (auto simp: Let_def)

lemma parseAttrsLoop_next:
  assumes "4 \<le> length data" and len: "getUint en (take 2 data) = len" and "4 \<le> len" and fits: "rtaAlign len \<le> length data"
  shows "parseAttrsLoop en attrs data =
    parseAttrsLoop en (attrs(getUint en (take 2 (drop 2 data)) \<mapsto> take (len - 4) (drop 4 data))) (drop (rtaAlign len) data)"
proof -
  have "len \<le> length data" using rtaAlign_ge fits by (rule order_trans)
  with assms show ?thesis
    by (subst parseAttrsLoop.simps) (simp add: Let_def drop_take)
qed

lemma parseAttrsLoop_total: "\<exists>m. parseAttrsLoop en attrs data = Some m"
proof (induction "length data" arbitrary: attrs data rule: less_induct)
  case less
  let ?len = "getUint en (take 2 data)"
  show ?case
  proof (cases "length data < 4 \<or> ?len < 4 \<or> length data < rtaAlign ?len")
    case True
    then show ?thesis by (simp add: parseAttrsLoop_stop)
  next
    case False
    then have "length (drop (rtaAlign ?len) data) < length data"
      using rtaAlign_ge [of ?len] unfolding length_drop by linarith
    with False less show ?thesis by (simp add: parseAttrsLoop_next)
  qed
qed

lemma parseAttrs_total: "\<exists>m. parseAttrs en data = Some m"
  by (simp add: parseAttrs_def parseAttrsLoop_total)

text \<open>An appended attribute is read back, and the rest after it.\<close>

definition attrBytes :: "byteOrder \<Rightarrow> nat \<Rightarrow> byte list \<Rightarrow> byte list" where
  "attrBytes en t val = appendAttr en [] t val"

lemma appendAttr_eq: "appendAttr en msg t val = msg @ attrBytes en t val"
  by (simp add: attrBytes_def appendAttr_def Let_def)

lemma attrBytes_length [simp]: "length (attrBytes en t val) = rtaAlign (4 + length val)"
  using rtaAlign_ge [of "4 + length val"] by (simp add: attrBytes_def appendAttr_def Let_def)

lemma parseAttrsLoop_attr:
  assumes "length val < 65532" and "t < 65536"
  shows "parseAttrsLoop en attrs (attrBytes en t val @ rest) = parseAttrsLoop en (attrs(t \<mapsto> val)) rest"
proof -
  let ?len = "4 + length val"
  let ?data = "attrBytes en t val @ rest"
  have d: "?data = putUint en 2 ?len @ putUint en 2 t @ val @ replicate (rtaAlign ?len - ?len) 0 @ rest"
    by (simp add: attrBytes_def appendAttr_def Let_def)
  have "getUint en (take 2 ?data) = ?len" "take 2 (drop 2 ?data) = putUint en 2 t" "take (?len - 4) (drop 4 ?data) = val"
    unfolding d using assms by simp_all
  moreover have "drop (rtaAlign ?len) ?data = rest" by simp
  moreover have "4 \<le> length ?data" using rtaAlign_ge [of ?len] by simp
  ultimately show ?thesis
    using parseAttrsLoop_next [of ?data en ?len attrs] assms by simp
qed

section \<open>Parsed routes\<close>

definition addrSized :: "byte list option \<Rightarrow> bool" where
  "addrSized a \<longleftrightarrow> a = None \<or> length (the a) = 4 \<or> length (the a) = 16"

text \<open>What the fields of a route read from the kernel can hold, the interface apart.\<close>

definition routeFields :: "DefaultRoute \<Rightarrow> bool" where
  "routeFields r \<longleftrightarrow>
     (Family r = AF_INET \<or> Family r = AF_INET6) \<and> Protocol r \<in> {0..<256} \<and> Scope r \<in> {0..<256} \<and>
     Metric r \<in> {0..<2 ^ 32} \<and> addrSized (Gateway r) \<and>
     (Source r = None \<or> length (the (Source r)) = (if Family r = AF_INET then 4 else 16))"

definition knownInterface :: "'k netSystem \<Rightarrow> string \<Rightarrow> bool" where
  "knownInterface sys name \<longleftrightarrow> name \<noteq> [] \<and> (\<exists>index. index \<noteq> 0 \<and> InterfaceByIndex sys index = Some name)"

definition routeTyped :: "'k netSystem \<Rightarrow> DefaultRoute \<Rightarrow> bool" where
  "routeTyped sys r \<longleftrightarrow> routeFields r \<and> knownInterface sys (Interface r)"

lemma attrAddr_sized: "attrAddr family val = Some a \<Longrightarrow> addrSized a"
  by (auto simp: attrAddr_eq addrSized_def split: if_splits)

lemma attrRouteGateway_sized: "attrRouteGateway en family attrs = Some a \<Longrightarrow> addrSized a"
  by (auto simp: attrRouteGateway_def attrAddr_eq attrViaAddr_def addrSized_def split: option.splits if_splits)

lemma parseMultipathDefaultRoutes_typed:
  assumes "routeFields route" "Interface route = [] \<or> knownInterface sys (Interface route)" "list_all (routeTyped sys) routes"
  shows "\<exists>rs. parseMultipathDefaultRoutes sys route routes data = Some rs \<and> list_all (routeTyped sys) rs"
  using assms
proof (induction "length data" arbitrary: routes data rule: less_induct)
  case less
  let ?en = "NativeEndian sys"
  let ?len = "getUint ?en (take 2 data)"
  let ?index = "int32 (int (getUint ?en (take 4 (drop 4 data))))"
  let ?rest = "drop (rtaAlign ?len) data"
  show ?case
  proof (cases "length data < 8 \<or> ?len < 8 \<or> length data < rtaAlign ?len")
    case True
    then show ?thesis
      using less.prems by (subst parseMultipathDefaultRoutes.simps) (auto simp: Let_def)
  next
    case False
    then have shorter: "length ?rest < length data" and fits: "?len \<le> length data"
      using rtaAlign_ge [of ?len] unfolding length_drop by linarith+
    note rest = less.hyps [OF shorter less.prems(1,2)]
    show ?thesis
    proof (cases "if ?index \<noteq> 0 then InterfaceByIndex sys ?index else Some (Interface route)")
      case None
      with False fits rest [OF less.prems(3)] show ?thesis
        by (subst parseMultipathDefaultRoutes.simps) (simp add: Let_def drop_take)
    next
      case (Some name)
      obtain attrs where attrs: "parseAttrs ?en (drop 8 (take ?len data)) = Some attrs"
        using parseAttrs_total by blast
      obtain g where g: "attrRouteGateway ?en (Family route) attrs = Some g"
        using attrRouteGateway_total by blast
      let ?hop = "route\<lparr>Interface := name, Gateway := (case g of None \<Rightarrow> Gateway route | Some a \<Rightarrow> Some a)\<rparr>"
      have "routeFields ?hop"
        using less.prems(1) attrRouteGateway_sized [OF g] by (auto simp: routeFields_def addrSized_def split: option.splits)
      moreover have "name \<noteq> [] \<Longrightarrow> knownInterface sys name"
        using Some less.prems(2) by (auto simp: knownInterface_def split: if_splits)
      ultimately have "list_all (routeTyped sys) (if name \<noteq> [] then routes @ [?hop] else routes)"
        using less.prems(3) by (simp add: routeTyped_def)
      from rest [OF this] False fits attrs g Some show ?thesis
        by (subst parseMultipathDefaultRoutes.simps) (simp add: Let_def drop_take)
    qed
  qed
qed

lemma parseDefaultRoutes_eq:
  assumes "12 \<le> length data"
  shows "parseDefaultRoutes sys data =
    (let en = NativeEndian sys; family = uint (data ! 0) in
     if family \<noteq> AF_INET \<and> family \<noteq> AF_INET6 \<or> data ! 1 \<noteq> 0 \<or> data ! 7 \<noteq> 1 then Some []
     else do {
       attrs \<leftarrow> parseAttrs en (drop 12 data);
       table \<leftarrow> attrUint32 en (attrOf attrs RTA_TABLE);
       if table \<noteq> 0 \<and> table \<noteq> 254 \<or> table = 0 \<and> data ! 4 \<noteq> 254 then Some []
       else do {
         index \<leftarrow> attrUint32 en (attrOf attrs RTA_OIF);
         gateway \<leftarrow> attrRouteGateway en family attrs;
         source \<leftarrow> attrAddr family (attrOf attrs RTA_PREFSRC);
         metric \<leftarrow> attrUint32 en (attrOf attrs RTA_PRIORITY);
         (case if index \<noteq> 0 then InterfaceByIndex sys (int index) else Some [] of
            None \<Rightarrow> Some []
          | Some name \<Rightarrow>
              let route = \<lparr>Interface = name, Family = family, Protocol = uint (data ! 5), Scope = uint (data ! 6),
                            Gateway = gateway, Source = source, Metric = int metric\<rparr>;
                  multipath = attrOf attrs RTA_MULTIPATH
              in if multipath \<noteq> [] then parseMultipathDefaultRoutes sys route [] multipath
                 else if name = [] then Some []
                 else Some [route])
       }
     })"
proof -
  have bytes: "byteAt data 0 = Some (data ! 0)" "byteAt data 1 = Some (data ! 1)" "byteAt data 4 = Some (data ! 4)"
    "byteAt data 5 = Some (data ! 5)" "byteAt data 6 = Some (data ! 6)" "byteAt data 7 = Some (data ! 7)"
    using assms unfolding byteAt_def by (simp_all del: length_greater_0_conv)
  from assms show ?thesis
    unfolding parseDefaultRoutes_def by (simp add: Let_def bytes [unfolded One_nat_def] cong: if_cong)
qed

lemma parseDefaultRoutes_typed:
  "\<exists>rs. parseDefaultRoutes sys data = Some rs \<and> list_all (routeTyped sys) rs"
proof -
  let ?en = "NativeEndian sys"
  obtain attrs where attrs: "parseAttrs ?en (drop 12 data) = Some attrs"
    using parseAttrs_total by blast
  let ?family = "uint (data ! 0)"
  obtain g where g: "attrRouteGateway ?en ?family attrs = Some g"
    using attrRouteGateway_total by blast
  obtain source where source: "attrAddr ?family (attrOf attrs RTA_PREFSRC) = Some source"
    by (simp add: attrAddr_eq)
  obtain table where table: "attrUint32 ?en (attrOf attrs RTA_TABLE) = Some table"
    using attrUint32_bounded by blast
  obtain index where index: "attrUint32 ?en (attrOf attrs RTA_OIF) = Some index"
    using attrUint32_bounded by blast
  obtain metric where metric: "attrUint32 ?en (attrOf attrs RTA_PRIORITY) = Some metric" "metric < 2 ^ 32"
    using attrUint32_bounded by blast
  let ?route = "\<lambda>name. \<lparr>Interface = name, Family = ?family, Protocol = uint (data ! 5), Scope = uint (data ! 6),
                        Gateway = g, Source = source, Metric = int metric\<rparr>"
  let ?found = "if index \<noteq> 0 then InterfaceByIndex sys (int index) else Some []"
  have fields: "routeFields (?route name)" if "?family = AF_INET \<or> ?family = AF_INET6" for name
  proof -
    have "uint b \<in> {0..<256}" for b :: byte
      using uint_bounded [of b] by simp
    then show ?thesis
      using that metric(2) attrRouteGateway_sized [OF g] source by (auto simp: routeFields_def attrAddr_eq split: if_splits)
  qed
  have known: "name = [] \<or> knownInterface sys name" if "?found = Some name" for name
    using that by (auto simp: knownInterface_def split: if_splits intro!: exI [of _ "int index"])
  show ?thesis
  proof (cases "length data < 12")
    case True
    then show ?thesis by (simp add: parseDefaultRoutes_def)
  next
    case False
    then have eq: "parseDefaultRoutes sys data =
        (if ?family \<noteq> AF_INET \<and> ?family \<noteq> AF_INET6 \<or> data ! 1 \<noteq> 0 \<or> data ! 7 \<noteq> 1 then Some []
         else if table \<noteq> 0 \<and> table \<noteq> 254 \<or> table = 0 \<and> data ! 4 \<noteq> 254 then Some []
         else case ?found of None \<Rightarrow> Some []
           | Some name \<Rightarrow> (if attrOf attrs RTA_MULTIPATH \<noteq> []
               then parseMultipathDefaultRoutes sys (?route name) [] (attrOf attrs RTA_MULTIPATH)
               else if name = [] then Some [] else Some [?route name]))"
      by (simp add: parseDefaultRoutes_eq Let_def attrs g source table index metric(1) cong: if_cong option.case_cong)
    have typed: "\<exists>rs. (if attrOf attrs RTA_MULTIPATH \<noteq> []
               then parseMultipathDefaultRoutes sys (?route name) [] (attrOf attrs RTA_MULTIPATH)
               else if name = [] then Some [] else Some [?route name]) = Some rs \<and> list_all (routeTyped sys) rs"
      if "?family = AF_INET \<or> ?family = AF_INET6" "?found = Some name" for name
      using known [OF that(2)] fields [OF that(1), of name]
        parseMultipathDefaultRoutes_typed [of "?route name" sys "[]" "attrOf attrs RTA_MULTIPATH"]
      by (auto simp: routeTyped_def)
    show ?thesis
    proof (cases "?family = AF_INET \<or> ?family = AF_INET6")
      case fam: True
      show ?thesis
        unfolding eq using typed [OF fam] by (cases ?found) simp_all
    next
      case False
      then show ?thesis unfolding eq by simp
    qed
  qed
qed

section \<open>A request is read back as the route it was built from\<close>

text \<open>The route that reaches the kernel: a protocol of its own, no negative metric.\<close>

definition requestedRoute :: "DefaultRoute \<Rightarrow> DefaultRoute" where
  "requestedRoute r = r\<lparr>Protocol := routeProtocol r, Metric := max 0 (Metric r)\<rparr>"

definition routeSendable :: "DefaultRoute \<Rightarrow> bool" where
  "routeSendable r \<longleftrightarrow>
     (Family r = AF_INET \<or> Family r = AF_INET6) \<and> Protocol r \<in> {0..<256} \<and> Scope r \<in> {0..<256} \<and>
     Metric r < 2 ^ 32 \<and>
     (case Gateway r of None \<Rightarrow> True | Some a \<Rightarrow> length a = (if Family r = AF_INET then 4 else 16)) \<and>
     (case Source r of None \<Rightarrow> True | Some a \<Rightarrow> length a = (if Family r = AF_INET then 4 else 16))"

definition addrAttr :: "byteOrder \<Rightarrow> nat \<Rightarrow> byte list option \<Rightarrow> byte list" where
  "addrAttr en t a = (case a of None \<Rightarrow> [] | Some raw \<Rightarrow> attrBytes en t raw)"

lemma appendAddr_eq:
  assumes "case a of None \<Rightarrow> True | Some raw \<Rightarrow> length raw = (if family = AF_INET then 4 else 16)"
    and "family = AF_INET \<or> family = AF_INET6"
  shows "appendAddr en family mismatch t a msg = Inr (msg @ addrAttr en t a)"
  using assms by (cases a) (auto simp: appendAddr_def ipFamilyBytes_def addrAttr_def appendAttr_eq)

lemma parseAttrsLoop_addr:
  assumes "case a of None \<Rightarrow> True | Some raw \<Rightarrow> length raw \<le> 16" and "t < 65536"
  shows "parseAttrsLoop en attrs (addrAttr en t a @ rest) =
    parseAttrsLoop en (case a of None \<Rightarrow> attrs | Some raw \<Rightarrow> attrs(t \<mapsto> raw)) rest"
  using assms by (cases a) (simp_all add: addrAttr_def parseAttrsLoop_attr)

lemma parseAttrsLoop_Nil: "parseAttrsLoop en attrs [] = Some attrs"
  by (simp add: parseAttrsLoop_stop)

definition metricAttr :: "byteOrder \<Rightarrow> int \<Rightarrow> byte list" where
  "metricAttr en m = (if m > 0 then attrBytes en RTA_PRIORITY (putUint en 4 (nat (m mod 2 ^ 32))) else [])"

lemma routeMessage_eq:
  assumes "routeSendable r" and "InterfaceByName sys (Interface r) = Inr index"
  shows "routeMessage sys r = Inr ([word_of_int (Family r), 0, 0, 0, 254, word_of_int (routeProtocol r),
       word_of_int (Scope r), 1, 0, 0, 0, 0] @
     attrBytes (NativeEndian sys) RTA_OIF (putUint (NativeEndian sys) 4 (nat (index mod 2 ^ 32))) @
     metricAttr (NativeEndian sys) (Metric r) @
     addrAttr (NativeEndian sys) RTA_GATEWAY (Gateway r) @ addrAttr (NativeEndian sys) RTA_PREFSRC (Source r))"
  using assms
  by (simp add: routeMessage_def routeSendable_def Let_def appendAttr_eq appendAddr_eq metricAttr_def)

definition routeAttrs :: "byteOrder \<Rightarrow> int \<Rightarrow> DefaultRoute \<Rightarrow> attrMap" where
  "routeAttrs en index r =
     (let m = [RTA_OIF \<mapsto> putUint en 4 (nat (index mod 2 ^ 32))];
          m = (if Metric r > 0 then m(RTA_PRIORITY \<mapsto> putUint en 4 (nat (Metric r mod 2 ^ 32))) else m);
          m = (case Gateway r of None \<Rightarrow> m | Some raw \<Rightarrow> m(RTA_GATEWAY \<mapsto> raw))
      in case Source r of None \<Rightarrow> m | Some raw \<Rightarrow> m(RTA_PREFSRC \<mapsto> raw))"

lemma routeMessage_attrs:
  assumes "routeSendable r"
  shows "parseAttrs en (attrBytes en RTA_OIF (putUint en 4 (nat (index mod 2 ^ 32))) @ metricAttr en (Metric r) @
     addrAttr en RTA_GATEWAY (Gateway r) @ addrAttr en RTA_PREFSRC (Source r)) = Some (routeAttrs en index r)"
proof -
  have g: "case Gateway r of None \<Rightarrow> True | Some raw \<Rightarrow> length raw \<le> 16" and s: "case Source r of None \<Rightarrow> True | Some raw \<Rightarrow> length raw \<le> 16"
    using assms by (auto simp: routeSendable_def split: option.splits if_splits)
  have m: "parseAttrsLoop en attrs (metricAttr en (Metric r) @ rest) =
      parseAttrsLoop en (if Metric r > 0 then attrs(RTA_PRIORITY \<mapsto> putUint en 4 (nat (Metric r mod 2 ^ 32))) else attrs) rest"
    for attrs rest by (simp add: metricAttr_def parseAttrsLoop_attr)
  show ?thesis
    using parseAttrsLoop_addr [OF s, of RTA_PREFSRC en _ "[]"]
    by (simp add: parseAttrs_def parseAttrsLoop_attr m parseAttrsLoop_addr [OF g] parseAttrsLoop_Nil routeAttrs_def Let_def)
qed

lemma route_read_back:
  assumes "routeSendable r" "InterfaceByName sys (Interface r) = Inr index" "InterfaceByIndex sys index = Some (Interface r)"
    "Interface r \<noteq> []" "0 < index" "index < 2 ^ 32" "routeMessage sys r = Inr payload"
  shows "parseDefaultRoutes sys payload = Some [requestedRoute r]"
proof -
  let ?en = "NativeEndian sys"
  let ?h = "[word_of_int (Family r), 0, 0, 0, 254, word_of_int (routeProtocol r), word_of_int (Scope r), 1, 0, 0, 0, 0] :: byte list"
  obtain body where payload: "payload = ?h @ body" and attrs: "parseAttrs ?en body = Some (routeAttrs ?en index r)"
    using routeMessage_eq [OF assms(1,2)] assms(7) routeMessage_attrs [OF assms(1)] by auto
  have byte: "uint (word_of_int v :: byte) = v" if "v \<in> {0..<256}" for v
    using that by (simp add: unsigned_of_int take_bit_eq_mod)
  have fam: "Family r = AF_INET \<or> Family r = AF_INET6" using assms(1) by (simp add: routeSendable_def)
  have bytes: "uint (word_of_int (Family r) :: byte) = Family r" "uint (word_of_int (routeProtocol r) :: byte) = routeProtocol r"
    "uint (word_of_int (Scope r) :: byte) = Scope r"
    using assms(1) by (auto simp: routeSendable_def routeProtocol_def intro!: byte)
  have index: "nat (index mod 2 ^ 32) = nat index" using assms(5,6) by simp
  have metric: "nat (Metric r mod 2 ^ 32) = nat (Metric r)" if "0 < Metric r"
    using assms(1) that by (simp add: routeSendable_def)
  have a: "attrOf (routeAttrs ?en index r) RTA_OIF = putUint ?en 4 (nat index)"
    "attrOf (routeAttrs ?en index r) RTA_GATEWAY = (case Gateway r of None \<Rightarrow> [] | Some raw \<Rightarrow> raw)"
    "attrOf (routeAttrs ?en index r) RTA_PREFSRC = (case Source r of None \<Rightarrow> [] | Some raw \<Rightarrow> raw)"
    "attrOf (routeAttrs ?en index r) RTA_PRIORITY = (if Metric r > 0 then putUint ?en 4 (nat (Metric r)) else [])"
    "attrOf (routeAttrs ?en index r) RTA_VIA = []" "attrOf (routeAttrs ?en index r) RTA_TABLE = []"
    "attrOf (routeAttrs ?en index r) RTA_MULTIPATH = []"
    using index metric by (cases "Gateway r"; cases "Source r"; simp add: routeAttrs_def Let_def attrOf_def)+
  have gw: "attrRouteGateway ?en (Family r) (routeAttrs ?en index r) = Some (Gateway r)"
    using assms(1) by (cases "Gateway r") (auto simp: attrRouteGateway_def attrViaAddr_def attrAddr_eq a routeSendable_def)
  have src: "attrAddr (Family r) (attrOf (routeAttrs ?en index r) RTA_PREFSRC) = Some (Source r)"
    using assms(1) by (cases "Source r") (auto simp: attrAddr_eq a routeSendable_def)
  have "nat index < 2 ^ 32" "nat (Metric r) < 2 ^ 32"
    using assms(1,5,6) unfolding routeSendable_def by (simp_all, linarith+)
  then have nums: "attrUint32 ?en (attrOf (routeAttrs ?en index r) RTA_OIF) = Some (nat index)"
    "attrUint32 ?en (attrOf (routeAttrs ?en index r) RTA_PRIORITY) = Some (nat (Metric r))"
    "attrUint32 ?en (attrOf (routeAttrs ?en index r) RTA_TABLE) = Some 0"
    by (simp_all add: a attrUint32_eq)
  have parts: "payload ! 0 = word_of_int (Family r)" "payload ! 1 = 0" "payload ! 4 = 254"
    "payload ! 5 = word_of_int (routeProtocol r)" "payload ! 6 = word_of_int (Scope r)" "payload ! 7 = 1"
    "drop 12 payload = body" "12 \<le> length payload"
    by (simp_all add: payload)
  show ?thesis
    using assms(3-6) fam
    by (simp add: parseDefaultRoutes_eq [OF parts(8)] Let_def parts(1-7) parts(2) [unfolded One_nat_def] bytes attrs nums gw src a(7) requestedRoute_def)
qed

lemma sameDefaultRoute_requested: "sameDefaultRoute (requestedRoute r) r \<longleftrightarrow> 0 \<le> Metric r"
  by (auto simp: sameDefaultRoute_def requestedRoute_def routeProtocol_def)

lemma rtaAlign_dvd: "4 dvd rtaAlign n"
  by (simp add: rtaAlign_eq)

lemma rtaAlign_id: "4 dvd n \<Longrightarrow> rtaAlign n = n"
  by (auto simp: rtaAlign_eq elim!: dvdE)

lemma routeMessage_aligned:
  assumes "routeSendable r" "InterfaceByName sys (Interface r) = Inr index" "routeMessage sys r = Inr payload"
  shows "4 dvd length payload" and "length payload \<le> 68"
proof -
  have a: "4 dvd length (addrAttr en t a)" for en t a
    by (simp add: addrAttr_def rtaAlign_dvd split: option.split)
  have l: "length (addrAttr en t a) \<le> 20" if "case a of None \<Rightarrow> True | Some raw \<Rightarrow> length raw = (if b then 4 else 16)" for en t a b
    using that by (auto simp: addrAttr_def rtaAlign_eq split: option.splits if_splits)
  have p: "length payload = 20 + length (metricAttr (NativeEndian sys) (Metric r)) +
      length (addrAttr (NativeEndian sys) RTA_GATEWAY (Gateway r)) + length (addrAttr (NativeEndian sys) RTA_PREFSRC (Source r))"
    using assms(3) unfolding routeMessage_eq [OF assms(1,2)] by (auto simp: rtaAlign_eq)
  show "4 dvd length payload"
    unfolding p by (intro dvd_add a) (simp_all add: metricAttr_def rtaAlign_eq)
  have "length (metricAttr (NativeEndian sys) (Metric r)) \<le> 8"
    by (simp add: metricAttr_def rtaAlign_eq)
  moreover have "length (addrAttr (NativeEndian sys) RTA_GATEWAY (Gateway r)) \<le> 20"
    using assms(1) by (intro l [where b = "Family r = AF_INET"]) (simp add: routeSendable_def)
  moreover have "length (addrAttr (NativeEndian sys) RTA_PREFSRC (Source r)) \<le> 20"
    using assms(1) by (intro l [where b = "Family r = AF_INET"]) (simp add: routeSendable_def)
  ultimately show "length payload \<le> 68"
    unfolding p by linarith
qed

lemma netlinkRequest_length [simp]: "length (netlinkRequest en t f seq payload) = 16 + length payload"
  by (simp add: netlinkRequest_def)

lemma parse_netlinkRequest:
  assumes "4 dvd length payload" "16 + length payload < 2 ^ 32" "t < 2 ^ 16" "f < 2 ^ 16" "seq < 2 ^ 32"
  shows "ParseNetlinkMessage en (netlinkRequest en t f seq payload) =
    Inr [\<lparr>nlType = t, nlFlags = f, nlSeq = seq, nlData = payload\<rparr>]"
proof -
  let ?b = "netlinkRequest en t f seq payload"
  have head: "take 4 ?b = putUint en 4 (16 + length payload)" "take 2 (drop 4 ?b) = putUint en 2 t"
    "take 2 (drop 6 ?b) = putUint en 2 f" "take 4 (drop 8 ?b) = putUint en 4 seq" "drop 16 ?b = payload"
    by (simp_all add: netlinkRequest_def)
  have end_of: "ParseNetlinkMessage en [] = Inr []"
    by (subst ParseNetlinkMessage.simps) simp
  have "4 dvd 16 + length payload" using assms(1) by simp
  then show ?thesis
    by (subst ParseNetlinkMessage.simps) (use assms in \<open>simp add: head rtaAlign_id Let_def end_of\<close>)
qed

section \<open>Waiting for the answer\<close>

text \<open>The datagrams \<open>ds\<close> are the next ones the socket delivers, and \<open>k'\<close> is the kernel after them.\<close>

fun delivers :: "'k netSystem \<Rightarrow> byte list list \<Rightarrow> 'k \<Rightarrow> 'k option" where
  "delivers sys [] k = Some k"
| "delivers sys (d # ds) k =
     (case Recvfrom sys k of
        Some (Inr d', k') \<Rightarrow> if d' = d then delivers sys ds k' else None
      | _ \<Rightarrow> None)"

text \<open>What a datagram says about a request: \<open>None\<close> is nothing.\<close>

definition ackOf :: "byteOrder \<Rightarrow> nat \<Rightarrow> byte list \<Rightarrow> netlinkError option option" where
  "ackOf en seq d =
     (case ParseNetlinkMessage en (take 8192 d) of
        Inl e \<Rightarrow> Some (Some (ParseAck e))
      | Inr msgs \<Rightarrow> scanAck en seq msgs)"

lemma receiveACK_delivered:
  assumes "delivers sys (ds @ [d]) k = Some k'" "list_all (\<lambda>d. ackOf (NativeEndian sys) seq d = None) ds"
    "ackOf (NativeEndian sys) seq d = Some r"
  shows "receiveACK sys seq k = Some (r, k')"
  using assms
proof (induction ds arbitrary: k)
  case Nil
  then show ?case
    by (subst receiveACK.simps) (auto simp: ackOf_def split: option.splits sum.splits prod.splits if_splits)
next
  case (Cons a ds)
  then obtain k1 where k1: "Recvfrom sys k = Some (Inr a, k1)" "delivers sys (ds @ [d]) k1 = Some k'"
    by (auto split: option.splits sum.splits prod.splits if_splits)
  obtain msgs where "ParseNetlinkMessage (NativeEndian sys) (take 8192 a) = Inr msgs" "scanAck (NativeEndian sys) seq msgs = None"
    using Cons.prems(2) by (auto simp: ackOf_def split: sum.splits)
  with k1 Cons show ?case by (subst receiveACK.simps) simp
qed

text \<open>The acknowledgement of a request: an error message with the negated \<open>errno\<close>, 0 for success.\<close>

definition ackDatagram :: "byteOrder \<Rightarrow> nat \<Rightarrow> nat \<Rightarrow> byte list \<Rightarrow> byte list" where
  "ackDatagram en seq errno rest = netlinkRequest en 2 0 seq (putUint en 4 (nat (- int errno mod 2 ^ 32)) @ rest)"

lemma int32_id: "- (2 ^ 31) \<le> x \<Longrightarrow> x < 2 ^ 31 \<Longrightarrow> int32 x = x"
  by (simp add: int32_def)

lemma int32_mod: "int32 (x mod 2 ^ 32) = int32 x"
  by (simp add: int32_def mod_add_left_eq)

lemma parse_ackDatagram:
  assumes "4 dvd length rest" "length rest \<le> 8172" "seq < 2 ^ 32"
  shows "ParseNetlinkMessage en (take 8192 (ackDatagram en seq errno rest)) =
    Inr [\<lparr>nlType = 2, nlFlags = 0, nlSeq = seq, nlData = putUint en 4 (nat (- int errno mod 2 ^ 32)) @ rest\<rparr>]"
proof -
  have "take 8192 (ackDatagram en seq errno rest) = ackDatagram en seq errno rest"
    using assms(2) by (simp add: ackDatagram_def)
  moreover have "ParseNetlinkMessage en (ackDatagram en seq errno rest) =
    Inr [\<lparr>nlType = 2, nlFlags = 0, nlSeq = seq, nlData = putUint en 4 (nat (- int errno mod 2 ^ 32)) @ rest\<rparr>]"
    unfolding ackDatagram_def using assms by (intro parse_netlinkRequest) simp_all
  ultimately show ?thesis by simp
qed

lemma ackOf_ackDatagram:
  assumes "4 dvd length rest" "length rest \<le> 8172" "seq < 2 ^ 32" "errno < 2 ^ 31"
  shows "ackOf en seq (ackDatagram en seq errno rest) = Some (if errno = 0 then None else Some (Errno errno))"
proof -
  define code where "code = putUint en 4 (nat (- int errno mod 2 ^ 32))"
  have "nat (- int errno mod 2 ^ 32) < 2 ^ 32" by (simp add: nat_less_iff)
  then have code: "int32 (int (getUint en code)) = - int errno" "length code = 4"
    using assms(4) int32_mod [of "- int errno"] by (simp_all add: code_def int32_id)
  have "int32 (int errno) = int errno" using assms(4) by (intro int32_id) simp_all
  with assms(4) show ?thesis
    unfolding ackOf_def parse_ackDatagram [OF assms(1-3)] code_def [symmetric] by (simp add: code Let_def)
qed

lemma ackOf_other:
  assumes "4 dvd length rest" "length rest \<le> 8172" "seq' < 2 ^ 32" "seq' \<noteq> seq"
  shows "ackOf en seq (ackDatagram en seq' errno rest) = None"
  using assms(4) unfolding ackOf_def parse_ackDatagram [OF assms(1-3)] by simp

text \<open>
  A kernel with one interface whose state is the datagrams it has queued: it answers each request
  with one datagram about another request and with \<open>ESRCH\<close>.
\<close>

definition exampleNet :: "byte list list netSystem" where
  "exampleNet = \<lparr>NativeEndian = LittleEndian,
     InterfaceByName = (\<lambda>n. if n = ''wwan0'' then Inr 7 else Inl None),
     InterfaceByIndex = (\<lambda>i. if i = 7 then Some ''wwan0'' else None),
     InterfaceAddrs = (\<lambda>n. Inr []), NetlinkRIB = (\<lambda>f. Inr []), UnixNano = (\<lambda>k. 5),
     openNetlink = (\<lambda>k. (None, k)), bindNetlink = (\<lambda>k. (None, k)),
     Sendto = (\<lambda>req k. (None, [ackDatagram LittleEndian 4 0 [], ackDatagram LittleEndian 5 3 []])),
     Recvfrom = (\<lambda>k. case k of [] \<Rightarrow> None | d # ds \<Rightarrow> Some (Inr d, ds)),
     openControl = (\<lambda>k. (None, k)), NewIfreq = (\<lambda>n. None), getFlags = (\<lambda>n k. Inr 0),
     setFlags = (\<lambda>n f k. (None, k)), setMTU = (\<lambda>n m k. (None, k))\<rparr>"

definition exampleWwanRoute :: DefaultRoute where
  "exampleWwanRoute = \<lparr>Interface = ''wwan0'', Family = 2, Protocol = 0, Scope = 0, Gateway = Some [10, 0, 0, 1],
     Source = Some [10, 0, 0, 2], Metric = 700\<rparr>"

lemma exampleWwanRoute_ok: "routeSendable exampleWwanRoute" "InterfaceByName exampleNet (Interface exampleWwanRoute) = Inr 7"
  "InterfaceByIndex exampleNet 7 = Some (Interface exampleWwanRoute)" "Interface exampleWwanRoute \<noteq> []"
  by (simp_all add: exampleWwanRoute_def exampleNet_def routeSendable_def)

section \<open>Properties\<close>

text \<open>
  C4: Whatever the kernel sends, reading it cannot panic, and a route read from it is well-formed. For every byte list the parser of route messages stays inside its slices, and each route it
  gives has a supported family, an interface that exists, fields in the range of their bytes and words, a gateway of 4
  or 16 bytes and a source address of the family of the route.
\<close>

theorem parsed_routes_typed:
  "\<exists>rs. parseDefaultRoutes sys data = Some rs \<and> list_all (routeTyped sys) rs"
  by (rule parseDefaultRoutes_typed)

text \<open>
  C3: A route request is read back as the route it was built from. On a machine of either byte order, for a
  route in range whose interface is known to the kernel, the request is one netlink message whose payload
  the parser of route dumps reads as exactly that route, with the protocol filled in and a negative metric
  dropped. \<open>sameDefaultRoute\<close> therefore recognises the route, unless its metric is negative.
\<close>

theorem route_request_round_trip:
  assumes "routeSendable r" and "InterfaceByName sys (Interface r) = Inr index"
    and "InterfaceByIndex sys index = Some (Interface r)" and "Interface r \<noteq> []" and "0 < index" and "index < 2 ^ 32"
    and "t < 2 ^ 16" and "f < 2 ^ 16" and "seq < 2 ^ 32"
  shows "(case routeMessage sys r of
       Inl e \<Rightarrow> False
     | Inr payload \<Rightarrow>
         ParseNetlinkMessage (NativeEndian sys) (netlinkRequest (NativeEndian sys) t f seq payload) =
           Inr [\<lparr>nlType = t, nlFlags = f, nlSeq = seq, nlData = payload\<rparr>] \<and>
         parseDefaultRoutes sys payload = Some [requestedRoute r]) \<and>
     (sameDefaultRoute (requestedRoute r) r \<longleftrightarrow> 0 \<le> Metric r)"
proof -
  obtain payload where m: "routeMessage sys r = Inr payload"
    using routeMessage_eq [OF assms(1,2)] by blast
  have "ParseNetlinkMessage (NativeEndian sys) (netlinkRequest (NativeEndian sys) t f seq payload) =
      Inr [\<lparr>nlType = t, nlFlags = f, nlSeq = seq, nlData = payload\<rparr>]"
    using routeMessage_aligned [OF assms(1,2) m] assms by (intro parse_netlinkRequest) simp_all
  with route_read_back [OF assms(1-6) m] show ?thesis
    by (simp add: m sameDefaultRoute_requested)
qed

theorem route_request_round_trip_witness:
  "parseDefaultRoutes exampleNet (case routeMessage exampleNet exampleWwanRoute of Inr p \<Rightarrow> p | Inl e \<Rightarrow> []) =
     Some [exampleWwanRoute\<lparr>Protocol := 4\<rparr>] \<and>
   sameDefaultRoute (exampleWwanRoute\<lparr>Protocol := 4\<rparr>) exampleWwanRoute"
proof -
  have "requestedRoute exampleWwanRoute = exampleWwanRoute\<lparr>Protocol := 4\<rparr>" "0 \<le> Metric exampleWwanRoute"
    by (simp_all add: exampleWwanRoute_def requestedRoute_def routeProtocol_def)
  then show ?thesis
    using route_request_round_trip [OF exampleWwanRoute_ok, of 0 0 0] by (simp split: sum.splits)
qed

text \<open>
  C5: A request the kernel acknowledges returns, with the kernel's verdict. When the sockets work and the
  kernel delivers the acknowledgement after any number of datagrams that are about other requests, the
  deletion of a default route returns; a route that is already gone (\<open>ENOENT\<close>, \<open>ESRCH\<close>) counts as deleted.
\<close>

theorem acknowledged_delete_returns:
  assumes "routeMessage sys r = Inr payload" and "openNetlink sys k = (None, ka)" and "bindNetlink sys ka = (None, kb)"
    and "seq = nat (UnixNano sys kb mod 2 ^ 32)"
    and "Sendto sys (netlinkRequest (NativeEndian sys) RTM_DELROUTE requestAck seq payload) kb = (None, kc)"
    and "delivers sys (ds @ [ackDatagram (NativeEndian sys) seq errno rest]) kc = Some k'"
    and "list_all (\<lambda>d. ackOf (NativeEndian sys) seq d = None) ds"
    and "4 dvd length rest" and "length rest \<le> 8172" and "errno < 2 ^ 31"
  shows "netDeleteDefaultRoute sys r k =
    Some (if errno = 0 \<or> errno = 2 \<or> errno = 3 then None else Some (Errno errno), k')"
proof -
  have "seq < 2 ^ 32" by (simp add: assms(4) nat_less_iff)
  from ackOf_ackDatagram [OF assms(8,9) this assms(10)]
  have "receiveACK sys seq kc = Some (if errno = 0 then None else Some (Errno errno), k')"
    by (rule receiveACK_delivered [OF assms(6,7)])
  moreover have "requestAck OR 0 = requestAck" by simp
  ultimately have "changeDefaultRoute sys RTM_DELROUTE 0 r k = Some (if errno = 0 then None else Some (Errno errno), k')"
    unfolding changeDefaultRoute_def send_def using assms(1-5) by (simp add: Let_def)
  then show ?thesis by (simp add: netDeleteDefaultRoute_def ignoring_def)
qed

theorem acknowledged_delete_returns_witness:
  "netDeleteDefaultRoute exampleNet exampleWwanRoute [] = Some (None, [])"
proof -
  obtain payload where m: "routeMessage exampleNet exampleWwanRoute = Inr payload"
    using routeMessage_eq [OF exampleWwanRoute_ok(1,2)] by blast
  let ?noise = "ackDatagram LittleEndian 4 0 []" and ?ack = "ackDatagram LittleEndian 5 3 []"
  have o: "ackOf LittleEndian 5 ?noise = None" by (rule ackOf_other) simp_all
  have "netDeleteDefaultRoute exampleNet exampleWwanRoute [] =
      Some (if (3::nat) = 0 \<or> (3::nat) = 2 \<or> (3::nat) = 3 then None else Some (Errno 3), [])"
    by (rule acknowledged_delete_returns [OF m, where ka = "[]" and kb = "[]" and kc = "[?noise, ?ack]" and seq = 5
        and ds = "[?noise]" and rest = "[]"]) (simp_all add: exampleNet_def o)
  then show ?thesis by simp
qed

end
