(* ===== verification/Apn.thy ===== *)
theory Apn
  imports GoPrelude
begin

text \<open>
  Choosing the access point name of a SIM (\<open>internal/pkg/internet/apn.go\<close>). The carrier table is
  the list of its decoded entries; \<open>strings.ToUpper\<close> and \<open>strings.ToLower\<close> are the arguments
  \<open>upper\<close> and \<open>lower\<close>.
\<close>

section \<open>Records\<close>

record apnCriteria =
  GID1 :: string
  SPN :: string
  ICCID :: string
  IMSI :: string

record apnProfile =
  ProfileAPN :: string
  ProfileIPType :: string
  Username :: string
  Password :: string
  Auth :: string

record apnRecord =
  RecordOperator :: string
  Criteria :: apnCriteria
  Profile :: apnProfile

record apnEntry =
  MCC :: string
  MNC :: string
  EntryCriteria :: apnCriteria
  EntryAPN :: string
  EntryProtocol :: string
  User :: string
  EntryPassword :: string
  AuthType :: "int option"

record apnSelection =
  Requested :: string
  BearerAPN :: string
  Remembered :: string
  SelOperator :: string
  SelCriteria :: apnCriteria
  DefaultAPNs :: "apnRecord list"

definition noProfile :: apnProfile where
  "noProfile = \<lparr>ProfileAPN = [], ProfileIPType = [], Username = [], Password = [], Auth = []\<rparr>"

section \<open>Normal forms\<close>

definition normalizeGID1 :: "(string \<Rightarrow> string) \<Rightarrow> string \<Rightarrow> string" where
  "normalizeGID1 upper v = upper (trim_space v)"

definition normalizeSPN :: "(string \<Rightarrow> string) \<Rightarrow> string \<Rightarrow> string" where
  "normalizeSPN upper v = upper (trim_space v)"

definition normalizeICCID :: "string \<Rightarrow> string" where
  "normalizeICCID v = trim_space v"

definition normalizeIMSI :: "(string \<Rightarrow> string) \<Rightarrow> string \<Rightarrow> string" where
  "normalizeIMSI upper v = upper (trim_space v)"

definition cleanAPNCriteria :: "(string \<Rightarrow> string) \<Rightarrow> apnCriteria \<Rightarrow> apnCriteria" where
  "cleanAPNCriteria upper c =
     \<lparr>GID1 = normalizeGID1 upper (GID1 c), SPN = normalizeSPN upper (SPN c),
      ICCID = normalizeICCID (ICCID c), IMSI = normalizeIMSI upper (IMSI c)\<rparr>"

definition cleanAPNProfile :: "(string \<Rightarrow> string) \<Rightarrow> apnProfile \<Rightarrow> apnProfile" where
  "cleanAPNProfile lower p =
     p\<lparr>ProfileAPN := trim_space (ProfileAPN p), ProfileIPType := lower (trim_space (ProfileIPType p)),
       Username := trim_space (Username p), Auth := lower (trim_space (Auth p))\<rparr>"

definition androidProtocol :: "(string \<Rightarrow> string) \<Rightarrow> string \<Rightarrow> string" where
  "androidProtocol upper v =
     (let u = upper (trim_space v) in
      if u = ''IP'' then ''ipv4'' else if u = ''IPV6'' then ''ipv6''
      else if u = ''IPV4V6'' then ''ipv4v6'' else [])"

definition androidAuthType :: "int option \<Rightarrow> string" where
  "androidAuthType v =
     (case v of None \<Rightarrow> []
      | Some n \<Rightarrow> if n = 0 then ''none'' else if n = 1 then ''pap'' else if n = 2 then ''chap''
          else if n = 3 then ''pap|chap'' else [])"

fun firstAPN :: "string list \<Rightarrow> string" where
  "firstAPN [] = []"
| "firstAPN (v # vs) = (if trim_space v \<noteq> [] then trim_space v else firstAPN vs)"

section \<open>Matching\<close>

definition imsiPatternMatches :: "(string \<Rightarrow> string) \<Rightarrow> string \<Rightarrow> string \<Rightarrow> bool" where
  "imsiPatternMatches upper pattern imsi =
     (let pattern = normalizeIMSI upper pattern; imsi = normalizeIMSI upper imsi in
      if pattern = [] \<or> length pattern > length imsi then False
      else list_all (\<lambda>i. pattern ! i = CHR ''X'' \<or> pattern ! i = imsi ! i) (rune_starts pattern))"

definition imsiSpecificity :: "string \<Rightarrow> int" where
  "imsiSpecificity pattern =
     int (length pattern) + int (length (filter (\<lambda>i. pattern ! i \<noteq> CHR ''X'') (rune_starts pattern)))"

text \<open>One criterion of a record: \<open>None\<close> when it is asked for and does not fit, else what it adds to the score.\<close>

definition apnMatchScore :: "(string \<Rightarrow> string) \<Rightarrow> apnCriteria \<Rightarrow> apnCriteria \<Rightarrow> int option" where
  "apnMatchScore upper want got =
     (let score = 0 in
      if GID1 want \<noteq> [] \<and> GID1 got \<noteq> GID1 want then None
      else let score = (if GID1 want \<noteq> [] then score + 2000 + int (length (GID1 want)) else score) in
      if SPN want \<noteq> [] \<and> SPN got \<noteq> SPN want then None
      else let score = (if SPN want \<noteq> [] then score + 1000 + int (length (SPN want)) else score) in
      if ICCID want \<noteq> [] \<and> (ICCID got = [] \<or> \<not> starts_with (ICCID got) (ICCID want)) then None
      else let score = (if ICCID want \<noteq> [] then score + 4000 + int (length (ICCID want)) else score) in
      if IMSI want \<noteq> [] \<and> (IMSI got = [] \<or> \<not> imsiPatternMatches upper (IMSI want) (IMSI got)) then None
      else let score = (if IMSI want \<noteq> [] then score + 3000 + imsiSpecificity (IMSI want) else score) in
      Some score)"

text \<open>The loop over the records, with the best score so far and its profile.\<close>

fun bestLoop ::
  "(string \<Rightarrow> string) \<Rightarrow> string \<Rightarrow> apnCriteria \<Rightarrow> int \<Rightarrow> apnProfile \<Rightarrow> apnRecord list \<Rightarrow> apnProfile" where
  "bestLoop upper op got bestScore best [] = best"
| "bestLoop upper op got bestScore best (r # rs) =
     (if RecordOperator r \<noteq> op then bestLoop upper op got bestScore best rs
      else case apnMatchScore upper (Criteria r) got of
        None \<Rightarrow> bestLoop upper op got bestScore best rs
      | Some score \<Rightarrow>
          if score \<le> bestScore then bestLoop upper op got bestScore best rs
          else bestLoop upper op got score (Profile r) rs)"

definition defaultAPNProfileFrom ::
  "(string \<Rightarrow> string) \<Rightarrow> (string \<Rightarrow> string) \<Rightarrow> apnRecord list \<Rightarrow> string \<Rightarrow> apnCriteria \<Rightarrow> apnProfile" where
  "defaultAPNProfileFrom upper lower apns op criteria =
     cleanAPNProfile lower
       (bestLoop upper (trim_space op) (cleanAPNCriteria upper criteria) (- 1) noProfile apns)"

definition defaultAPNFrom ::
  "(string \<Rightarrow> string) \<Rightarrow> (string \<Rightarrow> string) \<Rightarrow> apnRecord list \<Rightarrow> string \<Rightarrow> apnCriteria \<Rightarrow> string" where
  "defaultAPNFrom upper lower apns op criteria = ProfileAPN (defaultAPNProfileFrom upper lower apns op criteria)"

definition selectAPN :: "(string \<Rightarrow> string) \<Rightarrow> (string \<Rightarrow> string) \<Rightarrow> apnSelection \<Rightarrow> string" where
  "selectAPN upper lower s =
     (let apn = firstAPN [Requested s, BearerAPN s, Remembered s] in
      if apn \<noteq> [] then apn else defaultAPNFrom upper lower (DefaultAPNs s) (SelOperator s) (SelCriteria s))"

section \<open>The carrier table\<close>

definition apnKey :: "(string \<Rightarrow> string) \<Rightarrow> string \<Rightarrow> apnCriteria \<Rightarrow> string" where
  "apnKey upper op criteria =
     (let c = cleanAPNCriteria upper criteria;
          part = (\<lambda>name v. if v \<noteq> [] then CHR ''|'' # name @ v else [])
      in trim_space op @ part ''gid1='' (GID1 c) @ part ''spn='' (SPN c) @
         part ''iccid='' (ICCID c) @ part ''imsi='' (IMSI c))"

fun entriesLoop :: "(string \<Rightarrow> string) \<Rightarrow> string set \<Rightarrow> apnEntry list \<Rightarrow> apnRecord list" where
  "entriesLoop upper seen [] = []"
| "entriesLoop upper seen (e # es) =
     (let apn = trim_space (EntryAPN e); mcc = trim_space (MCC e); mnc = trim_space (MNC e) in
      if apn = [] \<or> mcc = [] \<or> mnc = [] then entriesLoop upper seen es
      else
        let key = apnKey upper (mcc @ mnc) (EntryCriteria e) in
        if key \<in> seen then entriesLoop upper seen es
        else
          \<lparr>RecordOperator = mcc @ mnc, Criteria = cleanAPNCriteria upper (EntryCriteria e),
           Profile = \<lparr>ProfileAPN = apn, ProfileIPType = androidProtocol upper (EntryProtocol e),
             Username = trim_space (User e), Password = EntryPassword e, Auth = androidAuthType (AuthType e)\<rparr>\<rparr> #
          entriesLoop upper (insert key seen) es)"

text \<open>\<open>defaultAPNsFromJSON\<close>, after the entries have been decoded.\<close>

definition defaultAPNsFromEntries :: "(string \<Rightarrow> string) \<Rightarrow> apnEntry list \<Rightarrow> apnRecord list" where
  "defaultAPNsFromEntries upper entries = entriesLoop upper {} entries"

section \<open>The best match\<close>

text \<open>A record that fits the operator and the card, and its score.\<close>

definition fits :: "(string \<Rightarrow> string) \<Rightarrow> string \<Rightarrow> apnCriteria \<Rightarrow> apnRecord \<Rightarrow> int option" where
  "fits upper op got r = (if RecordOperator r = op then apnMatchScore upper (Criteria r) got else None)"

lemma imsiSpecificity_nonneg: "0 \<le> imsiSpecificity p"
  by (simp add: imsiSpecificity_def)

lemma apnMatchScore_nonneg: "apnMatchScore upper want got = Some n \<Longrightarrow> 0 \<le> n"
  by (cases "GID1 want = []"; cases "SPN want = []"; cases "ICCID want = []"; cases "IMSI want = []")
    (use imsiSpecificity_nonneg [of "IMSI want"] in
      \<open>auto simp: apnMatchScore_def Let_def simp del: not_gr_zero split: if_split_asm\<close>)

lemma bestLoop_step:
  "bestLoop upper op got n best (r # rs) =
     (case fits upper op got r of
        Some m \<Rightarrow> if n < m then bestLoop upper op got m (Profile r) rs else bestLoop upper op got n best rs
      | None \<Rightarrow> bestLoop upper op got n best rs)"
  by (auto simp: fits_def split: option.splits)

declare bestLoop.simps(2) [simp del]

text \<open>The first of the elements with the greatest score, where that is above the bound.\<close>

definition first_best :: "('r \<Rightarrow> int option) \<Rightarrow> int \<Rightarrow> 'r list \<Rightarrow> 'r \<Rightarrow> bool" where
  "first_best fit n rs r \<longleftrightarrow>
     (\<exists>pre post m. rs = pre @ r # post \<and> fit r = Some m \<and> n < m \<and>
        (\<forall>q\<in>set pre. \<forall>k. fit q = Some k \<longrightarrow> k < m) \<and> (\<forall>q\<in>set post. \<forall>k. fit q = Some k \<longrightarrow> k \<le> m))"

lemma first_bestI:
  "rs = pre @ r # post \<Longrightarrow> fit r = Some m \<Longrightarrow> n < m \<Longrightarrow> (\<And>q k. q \<in> set pre \<Longrightarrow> fit q = Some k \<Longrightarrow> k < m) \<Longrightarrow>
   (\<And>q k. q \<in> set post \<Longrightarrow> fit q = Some k \<Longrightarrow> k \<le> m) \<Longrightarrow> first_best fit n rs r"
  unfolding first_best_def by blast

lemma first_bestE:
  assumes "first_best fit n rs r"
  obtains pre post m where "rs = pre @ r # post" "fit r = Some m" "n < m"
    "\<And>q k. q \<in> set pre \<Longrightarrow> fit q = Some k \<Longrightarrow> k < m" "\<And>q k. q \<in> set post \<Longrightarrow> fit q = Some k \<Longrightarrow> k \<le> m"
  using assms unfolding first_best_def by blast

lemma first_best_skip:
  assumes "first_best fit n rs r" and a: "\<And>m. fit a = Some m \<Longrightarrow> m \<le> n"
  shows "first_best fit n (a # rs) r"
  using assms(1)
proof (rule first_bestE)
  fix pre post m
  assume p: "rs = pre @ r # post" "fit r = Some m" "n < m" "\<And>q k. q \<in> set pre \<Longrightarrow> fit q = Some k \<Longrightarrow> k < m"
    "\<And>q k. q \<in> set post \<Longrightarrow> fit q = Some k \<Longrightarrow> k \<le> m"
  have pre: "k < m" if "q \<in> set (a # pre)" "fit q = Some k" for q k
  proof (cases "q = a")
    case True
    then show ?thesis using a that p(3) by force
  qed (use that p(4) in simp)
  show ?thesis by (rule first_bestI [where pre = "a # pre" and post = post and m = m]) (use p pre in auto)
qed

lemma first_best_improve:
  assumes "first_best fit m rs r" and a: "fit a = Some m" "n < m"
  shows "first_best fit n (a # rs) r"
  using assms(1)
proof (rule first_bestE)
  fix pre post k
  assume p: "rs = pre @ r # post" "fit r = Some k" "m < k" "\<And>q j. q \<in> set pre \<Longrightarrow> fit q = Some j \<Longrightarrow> j < k"
    "\<And>q j. q \<in> set post \<Longrightarrow> fit q = Some j \<Longrightarrow> j \<le> k"
  have pre: "j < k" if "q \<in> set (a # pre)" "fit q = Some j" for q j
    using that p(3,4) a by auto
  show ?thesis by (rule first_bestI [where pre = "a # pre" and post = post and m = k]) (use p pre a in auto)
qed

text \<open>The loop returns the profile of the first best record, and the start value when there is none.\<close>

lemma bestLoop_first_best:
  "(bestLoop upper op got n best rs = best \<and> (\<forall>r\<in>set rs. \<forall>m. fits upper op got r = Some m \<longrightarrow> m \<le> n)) \<or>
   (\<exists>r. first_best (fits upper op got) n rs r \<and> bestLoop upper op got n best rs = Profile r)"
proof (induction rs arbitrary: n best)
  case (Cons r rs)
  show ?case
  proof (cases "\<exists>m. fits upper op got r = Some m \<and> n < m")
    case False
    then have r: "m \<le> n" if "fits upper op got r = Some m" for m using that by force
    have step: "bestLoop upper op got n best (r # rs) = bestLoop upper op got n best rs"
      using False by (auto simp: bestLoop_step split: option.splits)
    from Cons.IH [of n best] show ?thesis
      unfolding step using r by (auto intro: first_best_skip)
  next
    case True
    then obtain m where m: "fits upper op got r = Some m" "n < m" by blast
    then have step: "bestLoop upper op got n best (r # rs) = bestLoop upper op got m (Profile r) rs"
      by (simp add: bestLoop_step)
    from Cons.IH [of m "Profile r"] show ?thesis
    proof (elim disjE exE conjE)
      assume same: "bestLoop upper op got m (Profile r) rs = Profile r"
        and le: "\<forall>q\<in>set rs. \<forall>k. fits upper op got q = Some k \<longrightarrow> k \<le> m"
      have "first_best (fits upper op got) n (r # rs) r"
        by (rule first_bestI [where pre = "[]" and post = rs]) (use m le in auto)
      with same step show ?thesis by auto
    next
      fix r'
      assume "first_best (fits upper op got) m rs r'" "bestLoop upper op got m (Profile r) rs = Profile r'"
      with step m show ?thesis by (auto intro: first_best_improve)
    qed
  qed
qed simp

lemma defaultAPN_first_best:
  "(\<exists>r. first_best (fits upper (trim_space op) (cleanAPNCriteria upper c)) (- 1) apns r \<and>
      defaultAPNProfileFrom upper lower apns op c = cleanAPNProfile lower (Profile r)) \<or>
   (defaultAPNProfileFrom upper lower apns op c = cleanAPNProfile lower noProfile \<and>
      (\<forall>r\<in>set apns. fits upper (trim_space op) (cleanAPNCriteria upper c) r = None))"
proof -
  let ?fit = "fits upper (trim_space op) (cleanAPNCriteria upper c)"
  have none: "?fit r = None" if "\<forall>m. ?fit r = Some m \<longrightarrow> m \<le> - 1" for r
  proof (cases "?fit r")
    case (Some m)
    then have "0 \<le> m" by (auto simp: fits_def dest: apnMatchScore_nonneg split: if_splits)
    then show ?thesis using that Some by auto
  qed
  from bestLoop_first_best [of upper "trim_space op" "cleanAPNCriteria upper c" "- 1" noProfile apns]
  show ?thesis unfolding defaultAPNProfileFrom_def using none by auto
qed

section \<open>Properties\<close>

definition exampleAPN :: "string \<Rightarrow> string \<Rightarrow> apnRecord" where
  "exampleAPN spn apn =
     \<lparr>RecordOperator = ''26201'', Criteria = \<lparr>GID1 = [], SPN = spn, ICCID = [], IMSI = []\<rparr>,
      Profile = \<lparr>ProfileAPN = apn, ProfileIPType = ''ipv4'', Username = [], Password = [], Auth = []\<rparr>\<rparr>"

text \<open>
  The profile chosen for a SIM is that of the first of the table's records that fit its operator and its
  identifiers with the greatest score, and the empty profile exactly when no record fits.
\<close>

theorem apn_best_match:
  "(\<exists>r. first_best (fits upper (trim_space op) (cleanAPNCriteria upper c)) (- 1) apns r \<and>
      defaultAPNProfileFrom upper lower apns op c = cleanAPNProfile lower (Profile r)) \<or>
   (defaultAPNProfileFrom upper lower apns op c = cleanAPNProfile lower noProfile \<and>
      (\<forall>r\<in>set apns. fits upper (trim_space op) (cleanAPNCriteria upper c) r = None))"
  by (rule defaultAPN_first_best)

theorem apn_best_match_witness:
  "\<exists>r. first_best (fits id ''26201'' (cleanAPNCriteria id \<lparr>GID1 = [], SPN = ''S'', ICCID = [], IMSI = []\<rparr>)) (- 1)
       [exampleAPN [] ''internet'', exampleAPN ''S'' ''special''] r \<and>
     defaultAPNProfileFrom id id [exampleAPN [] ''internet'', exampleAPN ''S'' ''special''] ''26201''
       \<lparr>GID1 = [], SPN = ''S'', ICCID = [], IMSI = []\<rparr> = cleanAPNProfile id (Profile r)"
proof -
  let ?c = "\<lparr>GID1 = [], SPN = ''S'', ICCID = [], IMSI = []\<rparr>"
  have op: "trim_space ''26201'' = ''26201''" by code_simp
  have "fits id ''26201'' (cleanAPNCriteria id ?c) (exampleAPN [] ''internet'') \<noteq> None" by code_simp
  then show ?thesis
    using apn_best_match [of id "''26201''" ?c "[exampleAPN [] ''internet'', exampleAPN ''S'' ''special'']" id]
    unfolding op by auto
qed

end
