(* ===== verification/BearerConfig.thy ===== *)
theory BearerConfig
  imports DefaultRoutes Apn
begin

text \<open>
  Putting the IP configuration of a bearer on its network interface and reading it back
  (\<open>internal/pkg/internet/bearer_config.go\<close>), with the saved proxy and route state
  (\<open>connection_state.go\<close>).

  \<open>host\<close> is what the code calls of the machine: the routing table, the interfaces, the proxy, and
  the functions of the standard library on texts and addresses; \<open>modemAccess\<close> is one modem with
  its bearers, which are named by their D-Bus path. All of them act on the abstract world of
  \<open>DefaultRoutes\<close>, which also decides which calls fail. A joined error is the list of its
  parts; the text a caller puts in front of an error is left out. The locks are not modelled: an operation runs alone.
\<close>

section \<open>Data\<close>

record Preferences =
  APN :: string
  IPType :: string
  APNUsername :: string
  APNPassword :: string
  APNAuth :: string
  PrefDefaultRoute :: bool
  ProxyEnabled :: bool
  AlwaysOn :: bool

definition noPreferences :: Preferences where
  "noPreferences = \<lparr>APN = [], IPType = [], APNUsername = [], APNPassword = [], APNAuth = [],
     PrefDefaultRoute = False, ProxyEnabled = False, AlwaysOn = False\<rparr>"

record BearerIPConfig =
  MethodStatic :: bool
  Address :: string
  Prefix :: nat
  IPGateway :: string
  IPDNS :: "string list"
  MTU :: nat

record BearerProperties =
  PropAPN :: string
  PropIPType :: string
  PropUsername :: string
  PropPassword :: string
  AllowedAuth :: string

record BearerStats =
  StatRXBytes :: nat
  StatTXBytes :: nat
  StatDuration :: nat

record ProxyStatus =
  ProxyOn :: bool
  ProxyUsername :: string
  ProxyPassword :: string
  HTTPAddress :: string
  SOCKS5Address :: string

definition noProxyStatus :: ProxyStatus where
  "noProxyStatus = \<lparr>ProxyOn = False, ProxyUsername = [], ProxyPassword = [], HTTPAddress = [], SOCKS5Address = []\<rparr>"

datatype connStatus = StatusConnected | StatusDisconnected

record Connection =
  Status :: connStatus
  ConnPrefs :: Preferences
  Proxy :: ProxyStatus
  InterfaceName :: string
  Bearer :: string
  IPv4Addresses :: "(byte list \<times> int) list"
  IPv6Addresses :: "(byte list \<times> int) list"
  DNS :: "string list"
  DurationOf :: nat
  TXBytes :: nat
  RXBytes :: nat
  RouteMetric :: int

record trackedConnection =
  bearerPath :: string
  interfaceName :: string
  trackedProfile :: string
  prefs :: Preferences
  trackedMetric :: int
  addresses :: "(byte list \<times> int) list"
  routes :: "DefaultRoute list"
  routeChanges :: "defaultRouteChange list"

record recoveredRoute =
  Found :: bool
  RecMetric :: int
  RecDefaultRoute :: bool

datatype netErr =
    RouteErr routeError
  | ModemErr string
  | NetlinkErr string
  | ProxyErr string
  | StateErr string
  | ContextErr string
  | ParseAddressErr string
  | AddressFamilyErr int
  | PrefixInvalid
  | BearerInterfaceEmpty
  | ProxyStateInterfaceEmpty
  | ProxyStateOwned string
  | ErrUnsupportedIPMethod
  | ErrProfileIDRequired
  | ErrProxyNotConfigured

section \<open>The machine, the modem and the state\<close>

record 'k host =
  rops :: "'k routeOps"
  SetUp :: "string \<Rightarrow> 'k \<Rightarrow> string option \<times> 'k"
  changeMTU :: "string \<Rightarrow> nat \<Rightarrow> 'k \<Rightarrow> string option \<times> 'k"
  AddAddress :: "string \<Rightarrow> byte list \<times> int \<Rightarrow> 'k \<Rightarrow> string option \<times> 'k"
  DeleteAddress :: "string \<Rightarrow> byte list \<times> int \<Rightarrow> 'k \<Rightarrow> string option \<times> 'k"
  FlushAddresses :: "string \<Rightarrow> 'k \<Rightarrow> string option \<times> 'k"
  ctxErr :: "'k \<Rightarrow> string option"
  proxyRegister :: "string \<Rightarrow> string \<Rightarrow> 'k \<Rightarrow> string option \<times> 'k"
  proxyUnregister :: "string \<Rightarrow> 'k \<Rightarrow> string option \<times> 'k"
  proxyStatus :: "string \<Rightarrow> 'k \<Rightarrow> ProxyStatus"
  ParseAddr :: "string \<Rightarrow> (string + byte list)"
  upper :: "string \<Rightarrow> string"
  lower :: "string \<Rightarrow> string"
  equalFold :: "string \<Rightarrow> string \<Rightarrow> bool"
  defaultAPNs :: "apnRecord list"

record simIdentity =
  SimOperator :: string
  SimGID1 :: string
  SimOperatorName :: string
  SimICCID :: string
  SimIMSI :: string

record 'k modemAccess =
  modemID :: string
  simOf :: "simIdentity option"
  modemBearers :: "'k \<Rightarrow> (string + string list) \<times> 'k"
  openBearer :: "string \<Rightarrow> 'k \<Rightarrow> string option \<times> 'k"
  connectBearer :: "BearerProperties \<Rightarrow> 'k \<Rightarrow> (string + string) \<times> 'k"
  disconnectBearer :: "string \<Rightarrow> 'k \<Rightarrow> string option \<times> 'k"
  deleteBearer :: "string \<Rightarrow> 'k \<Rightarrow> string option \<times> 'k"
  refreshModem :: "'k \<Rightarrow> string option \<times> 'k"
  bearerConnected :: "string \<Rightarrow> 'k \<Rightarrow> (string + bool) \<times> 'k"
  bearerInterface :: "string \<Rightarrow> 'k \<Rightarrow> (string + string) \<times> 'k"
  bearerIP4 :: "string \<Rightarrow> 'k \<Rightarrow> (string + BearerIPConfig) \<times> 'k"
  bearerIP6 :: "string \<Rightarrow> 'k \<Rightarrow> (string + BearerIPConfig) \<times> 'k"
  bearerStats :: "string \<Rightarrow> 'k \<Rightarrow> (string + BearerStats) \<times> 'k"
  bearerAPN :: "string \<Rightarrow> 'k \<Rightarrow> (string + string) \<times> 'k"
  bearerProperties :: "string \<Rightarrow> 'k \<Rightarrow> (string + BearerProperties) \<times> 'k"
  bearerDisconnect :: "string \<Rightarrow> 'k \<Rightarrow> string option \<times> 'k"

record 'k connector =
  net :: "'k routeWorld"
  proxyStates :: "(string \<times> string) list"
  alwaysOnStates :: "(string \<times> Preferences) list"
  connections :: "(string \<times> trackedConnection) list"
  preferences :: "string \<rightharpoonup> Preferences"
  hasProxy :: bool

type_synonym ('k, 'a) connCall = "'k connector \<Rightarrow> (netErr list + 'a) \<times> 'k connector"
type_synonym 'k connErrs = "'k connector \<Rightarrow> netErr list \<times> 'k connector"

definition onWorld :: "('k \<Rightarrow> 'a \<times> 'k) \<Rightarrow> 'k connector \<Rightarrow> 'a \<times> 'k connector" where
  "onWorld f s = (let (a, w) = onKernel f (net s) in (a, s\<lparr>net := w\<rparr>))"

definition onNet :: "('k routeWorld \<Rightarrow> routeError list \<times> 'k routeWorld) \<Rightarrow> 'k connErrs" where
  "onNet f s = (let (es, w) = f (net s) in (map RouteErr es, s\<lparr>net := w\<rparr>))"

text \<open>A call that returns only an error, and one that returns a value or an error.\<close>

definition tryErr :: "(string \<Rightarrow> netErr) \<Rightarrow> ('k \<Rightarrow> string option \<times> 'k) \<Rightarrow> 'k connErrs" where
  "tryErr wrap f s = (case onWorld f s of (None, s) \<Rightarrow> ([], s) | (Some e, s) \<Rightarrow> ([wrap e], s))"

definition tryVal :: "(string \<Rightarrow> netErr) \<Rightarrow> ('k \<Rightarrow> (string + 'a) \<times> 'k) \<Rightarrow> ('k, 'a) connCall" where
  "tryVal wrap f s = (case onWorld f s of (Inl e, s) \<Rightarrow> (Inl [wrap e], s) | (Inr a, s) \<Rightarrow> (Inr a, s))"

text \<open>\<open>if err := m(); err != nil { return err }\<close>, and \<open>err = errors.Join(err, m())\<close>.\<close>

definition must :: "'k connErrs \<Rightarrow> ('k, unit) connCall" where
  "must m s = (case m s of ([], s) \<Rightarrow> (Inr (), s) | (e # es, s) \<Rightarrow> (Inl (e # es), s))"

definition joinErr :: "'k connErrs \<Rightarrow> 'k connErrs \<Rightarrow> 'k connErrs" where
  "joinErr m n s = (let (es, s) = m s; (fs, s) = n s in (es @ fs, s))"

definition noErr :: "'k connErrs" where "noErr s = ([], s)"

text \<open>\<open>m()\<close>, and when it returns no error \<open>n()\<close>.\<close>

definition thenErr :: "'k connErrs \<Rightarrow> 'k connErrs \<Rightarrow> 'k connErrs" where
  "thenErr m n s = (case m s of ([], s) \<Rightarrow> n s | (e # es, s) \<Rightarrow> (e # es, s))"

fun joinAll :: "'k connErrs list \<Rightarrow> 'k connErrs" where
  "joinAll [] = noErr"
| "joinAll (m # ms) = joinErr m (joinAll ms)"

section \<open>Preferences and APNs\<close>

definition simText :: "'k modemAccess \<Rightarrow> (simIdentity \<Rightarrow> string) \<Rightarrow> string" where
  "simText m field = (case simOf m of None \<Rightarrow> [] | Some sim \<Rightarrow> trim_space (field sim))"

definition profileID :: "'k modemAccess \<Rightarrow> string" where
  "profileID m = simText m SimICCID"

definition normalizePreferences :: "'k host \<Rightarrow> Preferences \<Rightarrow> Preferences" where
  "normalizePreferences h p =
     p\<lparr>APN := trim_space (APN p), IPType := lower h (trim_space (IPType p)),
       APNUsername := trim_space (APNUsername p), APNAuth := lower h (trim_space (APNAuth p))\<rparr>"

definition modemAPNCriteria :: "'k modemAccess \<Rightarrow> apnCriteria" where
  "modemAPNCriteria m =
     \<lparr>GID1 = trim_space (simText m SimGID1), SPN = trim_space (simText m SimOperatorName),
      ICCID = trim_space (simText m SimICCID), IMSI = trim_space (simText m SimIMSI)\<rparr>"

definition apnForModem :: "'k host \<Rightarrow> 'k modemAccess \<Rightarrow> string \<Rightarrow> string \<Rightarrow> string \<Rightarrow> string" where
  "apnForModem h m requested bearer remembered =
     selectAPN (upper h) (lower h)
       \<lparr>Requested = requested, BearerAPN = bearer, Remembered = remembered,
        SelOperator = trim_space (simText m SimOperator), SelCriteria = modemAPNCriteria m,
        DefaultAPNs = defaultAPNs h\<rparr>"

definition preferencesWithDefaultAPNCredentials :: "'k host \<Rightarrow> 'k modemAccess \<Rightarrow> Preferences \<Rightarrow> Preferences" where
  "preferencesWithDefaultAPNCredentials h m p =
     (let profile = defaultAPNProfileFrom (upper h) (lower h) (defaultAPNs h)
                      (trim_space (simText m SimOperator)) (modemAPNCriteria m) in
      if ProfileAPN profile = [] \<or> \<not> equalFold h (trim_space (APN p)) (ProfileAPN profile)
      then normalizePreferences h p
      else
        let p = (if trim_space (IPType p) = [] then p\<lparr>IPType := ProfileIPType profile\<rparr> else p);
            p = (if trim_space (APNUsername p) = [] then p\<lparr>APNUsername := Username profile\<rparr> else p);
            p = (if APNPassword p = [] then p\<lparr>APNPassword := Password profile\<rparr> else p);
            p = (if trim_space (APNAuth p) = [] then p\<lparr>APNAuth := Auth profile\<rparr> else p)
        in normalizePreferences h p)"

definition preferencesWithSelectedAPN :: "'k host \<Rightarrow> 'k modemAccess \<Rightarrow> Preferences \<Rightarrow> Preferences" where
  "preferencesWithSelectedAPN h m p =
     preferencesWithDefaultAPNCredentials h m (p\<lparr>APN := apnForModem h m [] [] (APN p)\<rparr>)"

definition bearerPropertiesFromPreferences :: "Preferences \<Rightarrow> BearerProperties" where
  "bearerPropertiesFromPreferences p =
     \<lparr>PropAPN = APN p, PropIPType = IPType p, PropUsername = APNUsername p,
      PropPassword = APNPassword p, AllowedAuth = APNAuth p\<rparr>"

definition bearerPreferences ::
  "'k host \<Rightarrow> 'k modemAccess \<Rightarrow> string \<Rightarrow> Preferences \<Rightarrow> 'k connector \<Rightarrow> Preferences \<times> 'k connector" where
  "bearerPreferences h m b fallback s =
     (let p = normalizePreferences h fallback in
      case onWorld (bearerProperties m b) s of
        (Inl e, s) \<Rightarrow> (p, s)
      | (Inr q, s) \<Rightarrow>
          (let p = (if PropAPN q \<noteq> [] then p\<lparr>APN := PropAPN q\<rparr> else p);
               p = (if PropIPType q \<noteq> [] then p\<lparr>IPType := PropIPType q\<rparr> else p);
               p = (if PropUsername q \<noteq> [] then p\<lparr>APNUsername := PropUsername q\<rparr> else p);
               p = (if PropPassword q \<noteq> [] then p\<lparr>APNPassword := PropPassword q\<rparr> else p);
               p = (if AllowedAuth q \<noteq> [] then p\<lparr>APNAuth := AllowedAuth q\<rparr> else p)
           in (p, s)))"

definition disconnectedConnection :: "'k host \<Rightarrow> Preferences \<Rightarrow> Connection" where
  "disconnectedConnection h p =
     \<lparr>Status = StatusDisconnected, ConnPrefs = normalizePreferences h p, Proxy = noProxyStatus,
      InterfaceName = [], Bearer = [], IPv4Addresses = [], IPv6Addresses = [], DNS = [],
      DurationOf = 0, TXBytes = 0, RXBytes = 0, RouteMetric = 0\<rparr>"

section \<open>Addresses and routes\<close>

abbreviation (input) FamilyIPv4 :: int where "FamilyIPv4 \<equiv> 2"
abbreviation (input) FamilyIPv6 :: int where "FamilyIPv6 \<equiv> 10"

definition StaticAddress :: "BearerIPConfig \<Rightarrow> bool" where
  "StaticAddress c \<longleftrightarrow> MethodStatic c \<and> trim_space (Address c) \<noteq> []"

definition addrFromString :: "'k host \<Rightarrow> string \<Rightarrow> byte list option" where
  "addrFromString h v = (case ParseAddr h (trim_space v) of Inl e \<Rightarrow> None | Inr a \<Rightarrow> Some a)"

text \<open>An address is its 4 or 16 bytes; a prefix is valid when its length fits the address.\<close>

definition prefixFromIPConfig :: "'k host \<Rightarrow> BearerIPConfig \<Rightarrow> int \<Rightarrow> netErr + (byte list \<times> int) option" where
  "prefixFromIPConfig h cfg family =
     (if \<not> StaticAddress cfg then Inr None
      else case ParseAddr h (Address cfg) of
        Inl e \<Rightarrow> Inl (ParseAddressErr e)
      | Inr addr \<Rightarrow>
          if family = FamilyIPv4 \<and> length addr \<noteq> 4 then Inl (AddressFamilyErr FamilyIPv4)
          else if family = FamilyIPv6 \<and> length addr \<noteq> 16 then Inl (AddressFamilyErr FamilyIPv6)
          else
            let bits = int (Prefix cfg);
                bits = (if bits = 0 then if length addr = 4 then 32 else 128 else bits)
            in if bits \<le> 8 * int (length addr) then Inr (Some (addr, bits)) else Inl PrefixInvalid)"

definition addressesAndRoutesWithMetric ::
  "'k host \<Rightarrow> string \<Rightarrow> int \<Rightarrow> bool \<Rightarrow> BearerIPConfig \<Rightarrow> BearerIPConfig \<Rightarrow>
   netErr + (byte list \<times> int) list \<times> DefaultRoute list" where
  "addressesAndRoutesWithMetric h ifname metric includeRoutes ip4 ip6 =
     (let route = (\<lambda>family gateway addr. \<lparr>Interface = ifname, Family = family, Protocol = 0, Scope = 0,
            Gateway = addrFromString h gateway, Source = Some addr, Metric = metric\<rparr>) in
      rbind (prefixFromIPConfig h ip4 FamilyIPv4) (\<lambda>p4.
      let (as4, rs4) = (case p4 of None \<Rightarrow> ([], [])
            | Some p \<Rightarrow> ([p], if includeRoutes then [route FamilyIPv4 (IPGateway ip4) (fst p)] else [])) in
      rbind (prefixFromIPConfig h ip6 FamilyIPv6) (\<lambda>p6.
      let (as6, rs6) = (case p6 of None \<Rightarrow> ([], [])
            | Some p \<Rightarrow> ([p], if includeRoutes then [route FamilyIPv6 (IPGateway ip6) (fst p)] else [])) in
      if as4 @ as6 = [] then Inl ErrUnsupportedIPMethod else Inr (as4 @ as6, rs4 @ rs6))))"

definition addressesAndRoutes ::
  "'k host \<Rightarrow> string \<Rightarrow> Preferences \<Rightarrow> BearerIPConfig \<Rightarrow> BearerIPConfig \<Rightarrow>
   netErr + (byte list \<times> int) list \<times> DefaultRoute list" where
  "addressesAndRoutes h ifname p ip4 ip6 =
     addressesAndRoutesWithMetric h ifname (routeMetric (PrefDefaultRoute p)) True ip4 ip6"

definition setRouteMetric :: "DefaultRoute list \<Rightarrow> int \<Rightarrow> DefaultRoute list" where
  "setRouteMetric rs metric = map (\<lambda>r. r\<lparr>Metric := metric\<rparr>) rs"

definition addressStrings :: "'k host \<Rightarrow> BearerIPConfig \<Rightarrow> int \<Rightarrow> netErr + (byte list \<times> int) list" where
  "addressStrings h cfg family =
     rbind (prefixFromIPConfig h cfg family) (\<lambda>p. Inr (case p of None \<Rightarrow> [] | Some x \<Rightarrow> [x]))"

definition connectionAddressStrings ::
  "'k host \<Rightarrow> BearerIPConfig \<Rightarrow> BearerIPConfig \<Rightarrow> netErr + (byte list \<times> int) list \<times> (byte list \<times> int) list" where
  "connectionAddressStrings h ip4 ip6 =
     rbind (addressStrings h ip4 FamilyIPv4) (\<lambda>a4. rbind (addressStrings h ip6 FamilyIPv6) (\<lambda>a6. Inr (a4, a6)))"

fun mergeLoop :: "string list \<Rightarrow> string list \<Rightarrow> string list" where
  "mergeLoop result [] = result"
| "mergeLoop result (d # ds) =
     (let d = trim_space d in
      if d = [] \<or> d \<in> set result then mergeLoop result ds else mergeLoop (result @ [d]) ds)"

definition mergeDNS :: "string list list \<Rightarrow> string list" where
  "mergeDNS groups = mergeLoop [] (concat groups)"

fun routeStateLoop :: "string \<Rightarrow> int option \<Rightarrow> DefaultRoute list \<Rightarrow> int option" where
  "routeStateLoop ifname best [] = best"
| "routeStateLoop ifname best (r # rs) =
     (if Interface r \<noteq> ifname then routeStateLoop ifname best rs
      else case best of
        None \<Rightarrow> routeStateLoop ifname (Some (Metric r)) rs
      | Some b \<Rightarrow> routeStateLoop ifname (if Metric r < b then Some (Metric r) else Some b) rs)"

definition routeStateFromRoutes :: "DefaultRoute list \<Rightarrow> string \<Rightarrow> recoveredRoute" where
  "routeStateFromRoutes rs ifname =
     (case routeStateLoop ifname None rs of
        None \<Rightarrow> \<lparr>Found = False, RecMetric = 0, RecDefaultRoute = False\<rparr>
      | Some b \<Rightarrow> \<lparr>Found = True, RecMetric = b, RecDefaultRoute = b \<le> defaultRouteMetric\<rparr>)"

definition listDefaultRoutes :: "'k host \<Rightarrow> ('k, DefaultRoute list) connCall" where
  "listDefaultRoutes h = tryVal (RouteErr o ListError) (listRoutes (rops h))"

definition routeStateForInterface :: "'k host \<Rightarrow> string \<Rightarrow> 'k connector \<Rightarrow> recoveredRoute \<times> 'k connector" where
  "routeStateForInterface h ifname s =
     (case listDefaultRoutes h s of
        (Inl e, s) \<Rightarrow> (\<lparr>Found = False, RecMetric = 0, RecDefaultRoute = False\<rparr>, s)
      | (Inr rs, s) \<Rightarrow> (routeStateFromRoutes rs ifname, s))"

section \<open>Saved proxy and route state\<close>

text \<open>A statement of the database: it fails, or it runs.\<close>

definition statement :: "'k host \<Rightarrow> ('k connector \<Rightarrow> 'k connector) \<Rightarrow> 'k connErrs" where
  "statement h f s =
     (case onWorld (storeFault (rops h)) s of
        (Some e, s) \<Rightarrow> ([StateErr e], s)
      | (None, s) \<Rightarrow> ([], f s))"

definition query :: "'k host \<Rightarrow> ('k connector \<Rightarrow> 'a) \<Rightarrow> ('k, 'a) connCall" where
  "query h f s =
     (case onWorld (storeFault (rops h)) s of
        (Some e, s) \<Rightarrow> (Inl [StateErr e], s)
      | (None, s) \<Rightarrow> (Inr (f s), s))"

definition proxyState :: "'k host \<Rightarrow> string \<Rightarrow> ('k, string option) connCall" where
  "proxyState h ifname = query h (\<lambda>s. map_of (proxyStates s) (trim_space ifname))"

definition deleteProxyState :: "'k host \<Rightarrow> string \<Rightarrow> 'k connErrs" where
  "deleteProxyState h ifname =
     statement h (\<lambda>s. s\<lparr>proxyStates := AList.delete (trim_space ifname) (proxyStates s)\<rparr>)"

definition proxyInterfacesForModem :: "'k host \<Rightarrow> string \<Rightarrow> ('k, string list) connCall" where
  "proxyInterfacesForModem h i =
     (let i = trim_space i in
      if i = [] then ok []
      else query h (\<lambda>s. sort (map fst (filter (\<lambda>(n, owner). trim_space owner = i) (proxyStates s)))))"

text \<open>The other interfaces of the modem are forgotten first; the loop stops at the first error.\<close>

fun deleteProxyStates :: "'k host \<Rightarrow> string \<Rightarrow> string list \<Rightarrow> 'k connErrs" where
  "deleteProxyStates h keep [] = noErr"
| "deleteProxyStates h keep (n # ns) =
     (if n \<noteq> keep then thenErr (deleteProxyState h n) (deleteProxyStates h keep ns) else deleteProxyStates h keep ns)"

definition replaceProxyState :: "'k host \<Rightarrow> string \<Rightarrow> string \<Rightarrow> 'k connErrs" where
  "replaceProxyState h i ifname s =
     (case (if i \<noteq> [] then proxyInterfacesForModem h i s else (Inr [], s)) of
        (Inl es, s) \<Rightarrow> (es, s)
      | (Inr ns, s) \<Rightarrow>
          thenErr (deleteProxyStates h ifname ns)
            (statement h (\<lambda>s. s\<lparr>proxyStates := AList.update ifname i (proxyStates s)\<rparr>)) s)"

definition saveProxyStateForModem :: "'k host \<Rightarrow> string \<Rightarrow> string \<Rightarrow> 'k connErrs" where
  "saveProxyStateForModem h i ifname s =
     (let i = trim_space i; ifname = trim_space ifname in
      if ifname = [] then ([ProxyStateInterfaceEmpty], s)
      else case proxyState h ifname s of
        (Inl es, s) \<Rightarrow> (es, s)
      | (Inr entry, s) \<Rightarrow>
          (case entry of
             Some owner \<Rightarrow> if trim_space owner \<noteq> [] \<and> trim_space owner \<noteq> i then ([ProxyStateOwned ifname], s)
               else replaceProxyState h i ifname s
           | None \<Rightarrow> replaceProxyState h i ifname s))"

definition loadProxyStateForModem :: "'k host \<Rightarrow> string \<Rightarrow> string \<Rightarrow> ('k, bool \<times> bool) connCall" where
  "loadProxyStateForModem h i ifname =
     ebind (proxyState h ifname) (\<lambda>entry.
       ok (case entry of None \<Rightarrow> (False, False)
           | Some owner \<Rightarrow>
               if trim_space owner \<noteq> [] \<and> trim_space owner \<noteq> trim_space i then (False, False) else (True, True)))"

definition loadRouteStateForModem ::
  "'k host \<Rightarrow> string \<Rightarrow> string \<Rightarrow> ('k, defaultRouteChange list option) connCall" where
  "loadRouteStateForModem h i ifname =
     ebind (query h (\<lambda>s. map_of (savedRoutes (net s)) (trim_space ifname))) (\<lambda>entry.
       ok (case entry of None \<Rightarrow> None
           | Some e \<Rightarrow>
               if trim_space (SavedModem e) \<noteq> [] \<and> trim_space (SavedModem e) \<noteq> trim_space i then None
               else Some (Changes e)))"

section \<open>Putting a configuration on an interface\<close>

definition SetMTU :: "'k host \<Rightarrow> string \<Rightarrow> nat \<Rightarrow> 'k connErrs" where
  "SetMTU h ifname mtu = (if mtu = 0 then noErr else tryErr NetlinkErr (changeMTU h ifname mtu))"

definition deleteTrackedRoute :: "'k host \<Rightarrow> DefaultRoute \<Rightarrow> 'k connErrs" where
  "deleteTrackedRoute h r = onNet (deleteErr (rops h) r)"

definition cleanupApplied :: "'k host \<Rightarrow> trackedConnection \<Rightarrow> 'k connErrs" where
  "cleanupApplied h t s =
     (case ctxErr h (kernel (net s)) of
        Some e \<Rightarrow> ([ContextErr e], s)
      | None \<Rightarrow>
          joinErr (joinAll (map (deleteTrackedRoute h) (rev (routes t))))
            (joinErr (onNet (cleanupDefaultRouteChangesWithStore (rops h) (interfaceName t) (routeChanges t)))
              (joinAll (map (\<lambda>a. tryErr NetlinkErr (DeleteAddress h (interfaceName t) a)) (rev (addresses t))))) s)"

text \<open>The deferred clean-up of a configuration that failed half way; its own errors are dropped.\<close>

definition release :: "'k host \<Rightarrow> trackedConnection \<Rightarrow> netErr list \<Rightarrow> ('k, 'a) connCall" where
  "release h t es s = (Inl es, snd (cleanupApplied h t s))"

fun addAddresses :: "'k host \<Rightarrow> (byte list \<times> int) list \<Rightarrow> trackedConnection \<Rightarrow> ('k, trackedConnection) connCall" where
  "addAddresses h [] t = ok t"
| "addAddresses h (a # as) t = (\<lambda>s.
     case tryErr NetlinkErr (AddAddress h (interfaceName t) a) s of
       (e # es, s) \<Rightarrow> release h t (e # es) s
     | ([], s) \<Rightarrow> addAddresses h as (t\<lparr>addresses := addresses t @ [a]\<rparr>) s)"

definition addTrackedRoute :: "'k host \<Rightarrow> DefaultRoute \<Rightarrow> 'k connErrs" where
  "addTrackedRoute h r s =
     (case onWorld (addRoute (rops h) r) s of
        (Some e, s) \<Rightarrow> ([RouteErr (AddError e)], s)
      | (None, s) \<Rightarrow> ([], s))"

fun addRoutes :: "'k host \<Rightarrow> DefaultRoute list \<Rightarrow> trackedConnection \<Rightarrow> ('k, trackedConnection) connCall" where
  "addRoutes h [] t = ok t"
| "addRoutes h (r # rs) t = (\<lambda>s.
     case addTrackedRoute h r s of
       (e # es, s) \<Rightarrow> release h t (e # es) s
     | ([], s) \<Rightarrow> addRoutes h rs (t\<lparr>routes := routes t @ [r]\<rparr>) s)"

text \<open>The part of \<open>configureBearer\<close> that takes over the default route.\<close>

definition takeOver ::
  "'k host \<Rightarrow> string \<Rightarrow> DefaultRoute list \<Rightarrow> trackedConnection \<Rightarrow> ('k, trackedConnection) connCall" where
  "takeOver h i rs t s =
     (case onNet (restoreStaleDefaultRouteStatesWithStore (rops h) i [interfaceName t]) s of
        (e # es, s) \<Rightarrow> release h t (e # es) s
      | ([], s) \<Rightarrow>
          (case takeoverDefaultRoutesWithStore (rops h) i (interfaceName t) rs (net s) of
             ((es, changes), w) \<Rightarrow>
               let s = s\<lparr>net := w\<rparr>; t = t\<lparr>routeChanges := changes\<rparr> in
               if es \<noteq> [] then release h t (map RouteErr es) s else (Inr t, s)))"

definition secondaryMetric ::
  "'k host \<Rightarrow> Preferences \<Rightarrow> DefaultRoute list \<Rightarrow> ('k, int \<times> DefaultRoute list) connCall" where
  "secondaryMetric h p rs =
     (let metric = (if rs \<noteq> [] then Metric (hd rs) else routeMetric (PrefDefaultRoute p)) in
      if \<not> PrefDefaultRoute p \<and> rs \<noteq> []
      then ebind (listDefaultRoutes h) (\<lambda>current.
             let metric = secondaryRouteMetricFor rs current in ok (metric, setRouteMetric rs metric))
      else ok (metric, rs))"

definition configureBearer ::
  "'k host \<Rightarrow> 'k modemAccess \<Rightarrow> string \<Rightarrow> Preferences \<Rightarrow> ('k, trackedConnection) connCall" where
  "configureBearer h m b p =
     ebind (tryVal ModemErr (bearerInterface m b)) (\<lambda>ifname.
     if trim_space ifname = [] then fail [BearerInterfaceEmpty]
     else
     ebind (tryVal ModemErr (bearerIP4 m b)) (\<lambda>ip4.
     ebind (tryVal ModemErr (bearerIP6 m b)) (\<lambda>ip6.
     case addressesAndRoutes h ifname p ip4 ip6 of
       Inl e \<Rightarrow> fail [e]
     | Inr (as, rs) \<Rightarrow>
         ebind (secondaryMetric h p rs) (\<lambda>(metric, rs).
         ebind (must (tryErr NetlinkErr (SetUp h ifname))) (\<lambda>_.
         ebind (must (SetMTU h ifname (max (MTU ip4) (MTU ip6)))) (\<lambda>_.
         ebind (addAddresses h as
                  \<lparr>bearerPath = [], interfaceName = ifname, trackedProfile = [], prefs = noPreferences,
                   trackedMetric = metric, addresses = [], routes = [], routeChanges = []\<rparr>) (\<lambda>t.
         ebind (if PrefDefaultRoute p then takeOver h (modemID m) rs t else ok t)
           (addRoutes h rs))))))))"

section \<open>Reading a configuration back\<close>

definition connectionFromBearer ::
  "'k host \<Rightarrow> 'k modemAccess \<Rightarrow> string \<Rightarrow> Preferences \<Rightarrow> int \<Rightarrow> ('k, Connection) connCall" where
  "connectionFromBearer h m b p metric s =
     (let (p, s) = bearerPreferences h m b p s; p = normalizePreferences h p in
      ebind (tryVal ModemErr (bearerConnected m b)) (\<lambda>connected.
      if \<not> connected then ok (disconnectedConnection h p)
      else
      ebind (tryVal ModemErr (bearerInterface m b)) (\<lambda>ifname.
      ebind (tryVal ModemErr (bearerIP4 m b)) (\<lambda>ip4.
      ebind (tryVal ModemErr (bearerIP6 m b)) (\<lambda>ip6 s.
        let (st, s) = onWorld (bearerStats m b) s;
            stats = (case st of Inl e \<Rightarrow> \<lparr>StatRXBytes = 0, StatTXBytes = 0, StatDuration = 0\<rparr> | Inr x \<Rightarrow> x)
        in case connectionAddressStrings h ip4 ip6 of
             Inl e \<Rightarrow> (Inl [e], s)
           | Inr (a4, a6) \<Rightarrow>
               if a4 = [] \<and> a6 = [] then (Inl [ErrUnsupportedIPMethod], s)
               else (Inr \<lparr>Status = StatusConnected, ConnPrefs = p, Proxy = noProxyStatus,
                      InterfaceName = ifname, Bearer = b, IPv4Addresses = a4, IPv6Addresses = a6,
                      DNS = mergeDNS [IPDNS ip4, IPDNS ip6], DurationOf = StatDuration stats,
                      TXBytes = StatTXBytes stats, RXBytes = StatRXBytes stats, RouteMetric = metric\<rparr>, s))))) s)"

text \<open>The first bearer that is connected, else the first with an APN; the flag says which.\<close>

fun bearerLoop :: "'k modemAccess \<Rightarrow> string option \<Rightarrow> string list \<Rightarrow> ('k, string option \<times> bool) connCall" where
  "bearerLoop m fallback [] = ok (fallback, False)"
| "bearerLoop m fallback (b # bs) =
     ebind (tryVal ModemErr (bearerConnected m b)) (\<lambda>connected.
     if connected then ok (Some b, True)
     else if fallback \<noteq> None then bearerLoop m fallback bs
     else (\<lambda>s. let (apn, s) = onWorld (bearerAPN m b) s in
        bearerLoop m (case apn of Inl e \<Rightarrow> None | Inr a \<Rightarrow> if trim_space a \<noteq> [] then Some b else None) bs s))"

definition currentBearer :: "'k modemAccess \<Rightarrow> ('k, string option \<times> bool) connCall" where
  "currentBearer m = ebind (tryVal ModemErr (modemBearers m)) (bearerLoop m None)"

definition apnFromBearers :: "'k modemAccess \<Rightarrow> ('k, string) connCall" where
  "apnFromBearers m =
     ebind (currentBearer m) (\<lambda>(b, _).
     case b of
       None \<Rightarrow> ok []
     | Some b \<Rightarrow> (\<lambda>s. case onWorld (bearerAPN m b) s of
           (Inl e, s) \<Rightarrow> (Inr [], s)
         | (Inr a, s) \<Rightarrow> (Inr (trim_space a), s)))"

definition recoverPreferences ::
  "'k host \<Rightarrow> 'k modemAccess \<Rightarrow> string \<Rightarrow> Preferences \<Rightarrow> 'k connector \<Rightarrow> Preferences \<times> 'k connector" where
  "recoverPreferences h m b fallback s =
     (let (p, s) = bearerPreferences h m b fallback s in
      case onWorld (bearerInterface m b) s of
        (Inl e, s) \<Rightarrow> (p, s)
      | (Inr ifname, s) \<Rightarrow>
          if trim_space ifname = [] then (p, s)
          else let (st, s) = routeStateForInterface h ifname s in
               (if Found st then p\<lparr>PrefDefaultRoute := RecDefaultRoute st\<rparr> else p, s))"

definition cleanupBearer :: "'k host \<Rightarrow> 'k modemAccess \<Rightarrow> string \<Rightarrow> Preferences \<Rightarrow> 'k connErrs" where
  "cleanupBearer h m b p s =
     (case ebind (tryVal ModemErr (bearerInterface m b)) (\<lambda>ifname.
           ebind (tryVal ModemErr (bearerIP4 m b)) (\<lambda>ip4.
           ebind (tryVal ModemErr (bearerIP6 m b)) (\<lambda>ip6 s.
             let (st, s) = routeStateForInterface h ifname s;
                 metric = (if Found st then RecMetric st else routeMetric (PrefDefaultRoute p))
             in case addressesAndRoutesWithMetric h ifname metric (Found st) ip4 ip6 of
                  Inl e \<Rightarrow> if e = ErrUnsupportedIPMethod then (Inr None, s) else (Inl [e], s)
                | Inr (as, rs) \<Rightarrow>
                    (case loadRouteStateForModem h (modemID m) ifname s of
                       (Inl es, s) \<Rightarrow> (Inl es, s)
                     | (Inr changes, s) \<Rightarrow>
                         (Inr (Some \<lparr>bearerPath = [], interfaceName = ifname, trackedProfile = [],
                            prefs = noPreferences, trackedMetric = 0, addresses = as, routes = rs,
                            routeChanges = (case changes of None \<Rightarrow> [] | Some cs \<Rightarrow> cs)\<rparr>), s))))) s of
        (Inl es, s) \<Rightarrow> (es, s)
      | (Inr None, s) \<Rightarrow> ([], s)
      | (Inr (Some t), s) \<Rightarrow> cleanupApplied h t s)"

text \<open>The changes of the default routes: those saved, else a takeover for a bearer that holds the default route.\<close>

definition recoverChanges ::
  "'k host \<Rightarrow> string \<Rightarrow> string \<Rightarrow> Preferences \<Rightarrow> DefaultRoute list \<Rightarrow> ('k, defaultRouteChange list) connCall" where
  "recoverChanges h i ifname p rs =
     ebind (loadRouteStateForModem h i ifname) (\<lambda>saved.
     case saved of
       Some changes \<Rightarrow> ok changes
     | None \<Rightarrow>
         if \<not> PrefDefaultRoute p then ok []
         else (\<lambda>s. case takeoverDefaultRoutesWithStore (rops h) i ifname rs (net s) of
             ((es, changes), w) \<Rightarrow>
               if es \<noteq> [] then (Inl (map RouteErr es), s\<lparr>net := w\<rparr>) else (Inr changes, s\<lparr>net := w\<rparr>)))"

text \<open>\<open>None\<close> is the third result \<open>false\<close>: the bearer has no address the program put there.\<close>

definition rebuildTracked ::
  "'k host \<Rightarrow> string \<Rightarrow> string \<Rightarrow> string \<Rightarrow> Preferences \<Rightarrow> BearerIPConfig \<Rightarrow> BearerIPConfig \<Rightarrow> recoveredRoute \<Rightarrow>
   ('k, (trackedConnection \<times> int) option) connCall" where
  "rebuildTracked h i b ifname p ip4 ip6 st =
     (let metric = (if Found st then RecMetric st else 0);
          p = (if Found st then p\<lparr>PrefDefaultRoute := RecDefaultRoute st\<rparr> else p)
      in ebind (loadProxyStateForModem h i ifname) (\<lambda>(enabled, found).
         let p = (if found then p\<lparr>ProxyEnabled := enabled\<rparr> else p) in
         case addressesAndRoutesWithMetric h ifname metric (Found st) ip4 ip6 of
           Inl e \<Rightarrow> if e = ErrUnsupportedIPMethod then ok None else fail [e]
         | Inr (as, rs) \<Rightarrow>
             ebind (recoverChanges h i ifname p rs) (\<lambda>changes.
               ok (Some (\<lparr>bearerPath = b, interfaceName = ifname, trackedProfile = [], prefs = p,
                      trackedMetric = metric, addresses = as, routes = rs, routeChanges = changes\<rparr>, metric)))))"

definition recoverTrackedConnection ::
  "'k host \<Rightarrow> 'k modemAccess \<Rightarrow> string \<Rightarrow> Preferences \<Rightarrow> ('k, (trackedConnection \<times> int) option) connCall" where
  "recoverTrackedConnection h m b fallback s =
     (let (p, s) = recoverPreferences h m b fallback s in
      ebind (tryVal ModemErr (bearerInterface m b)) (\<lambda>ifname.
      if trim_space ifname = [] then ok None
      else
      ebind (tryVal ModemErr (bearerIP4 m b)) (\<lambda>ip4.
      ebind (tryVal ModemErr (bearerIP6 m b)) (\<lambda>ip6 s.
        let (st, s) = routeStateForInterface h ifname s
        in rebuildTracked h (modemID m) b ifname p ip4 ip6 st s))) s)"

end
