(* ===== verification/Connector.thy ===== *)
theory Connector
  imports BearerConfig
begin

text \<open>
  The internet connections of the modems (\<open>internal/pkg/internet/connection.go\<close>, \<open>always_on.go\<close>):
  connecting, disconnecting, recovering after a restart, and the bookkeeping when one modem takes
  the default route from another.

  A connection's routes are a Go slice, which a copy of the connection shares with the original.
  The only code that writes into such a slice while another copy is in use is \<open>syncDefaultRouteTakeover\<close>;
  there the model writes to both.
\<close>

section \<open>State of the connector\<close>

definition preference :: "'k host \<Rightarrow> string \<Rightarrow> 'k connector \<Rightarrow> Preferences" where
  "preference h i s = (case preferences s i of None \<Rightarrow> noPreferences | Some p \<Rightarrow> normalizePreferences h p)"

definition connection :: "string \<Rightarrow> 'k connector \<Rightarrow> trackedConnection option" where
  "connection i s = map_of (connections s) i"

definition setConnectionAndPreference ::
  "'k host \<Rightarrow> string \<Rightarrow> trackedConnection \<Rightarrow> Preferences \<Rightarrow> 'k connector \<Rightarrow> 'k connector" where
  "setConnectionAndPreference h i t p s =
     s\<lparr>connections := AList.update i t (connections s),
       preferences := (preferences s)(i \<mapsto> normalizePreferences h p)\<rparr>"

definition deleteConnection :: "string \<Rightarrow> 'k connector \<Rightarrow> 'k connector" where
  "deleteConnection i s = s\<lparr>connections := AList.delete i (connections s)\<rparr>"

definition setPreference :: "'k host \<Rightarrow> string \<Rightarrow> Preferences \<Rightarrow> 'k connector \<Rightarrow> 'k connector" where
  "setPreference h i p s = s\<lparr>preferences := (preferences s)(i \<mapsto> normalizePreferences h p)\<rparr>"

definition deletePreference :: "string \<Rightarrow> 'k connector \<Rightarrow> 'k connector" where
  "deletePreference i s = s\<lparr>preferences := (preferences s)(i := None)\<rparr>"

definition deleteConnectionAndPreference :: "string \<Rightarrow> 'k connector \<Rightarrow> 'k connector" where
  "deleteConnectionAndPreference i s = deletePreference i (deleteConnection i s)"

definition hasInternetPreference :: "'k host \<Rightarrow> Preferences \<Rightarrow> bool" where
  "hasInternetPreference h p =
     (let p = normalizePreferences h p in
      APN p \<noteq> [] \<or> (IPType p \<noteq> [] \<and> IPType p \<noteq> ''ipv4v6'') \<or> APNUsername p \<noteq> [] \<or>
      APNPassword p \<noteq> [] \<or> APNAuth p \<noteq> [] \<or> PrefDefaultRoute p \<or> ProxyEnabled p)"

section \<open>Always on\<close>

definition loadAlwaysOnStateForProfile :: "'k host \<Rightarrow> string \<Rightarrow> ('k, Preferences option) connCall" where
  "loadAlwaysOnStateForProfile h profile =
     (let profile = trim_space profile in
      if profile = [] then ok None
      else ebind (query h (\<lambda>s. map_of (alwaysOnStates s) profile)) (\<lambda>entry.
           ok (case entry of None \<Rightarrow> None | Some p \<Rightarrow> if AlwaysOn p then Some p else None)))"

definition preferenceWithAlwaysOn ::
  "'k host \<Rightarrow> 'k modemAccess \<Rightarrow> 'k connector \<Rightarrow> Preferences \<times> 'k connector" where
  "preferenceWithAlwaysOn h m s =
     (let p = preference h (modemID m) s in
      if profileID m = [] then (p, s)
      else case loadAlwaysOnStateForProfile h (profileID m) s of
        (Inr (Some a), s) \<Rightarrow> (a, s)
      | (_, s) \<Rightarrow> (p, s))"

definition deleteAlwaysOn :: "'k host \<Rightarrow> string \<Rightarrow> 'k connErrs" where
  "deleteAlwaysOn h profile =
     statement h (\<lambda>s. s\<lparr>alwaysOnStates := AList.delete (trim_space profile) (alwaysOnStates s)\<rparr>)"

definition syncAlwaysOnState :: "'k host \<Rightarrow> string \<Rightarrow> Preferences \<Rightarrow> 'k connErrs" where
  "syncAlwaysOnState h profile p s =
     (let profile = trim_space profile in
      if AlwaysOn p then
        if profile = [] then ([ErrProfileIDRequired], s)
        else statement h (\<lambda>s. s\<lparr>alwaysOnStates := AList.update profile p (alwaysOnStates s)\<rparr>) s
      else if profile = [] then ([], s)
      else deleteAlwaysOn h profile s)"

definition clearAlwaysOnState :: "'k host \<Rightarrow> 'k modemAccess \<Rightarrow> 'k connErrs" where
  "clearAlwaysOnState h m s =
     (let (p, s) = preferenceWithAlwaysOn h m s;
          p = p\<lparr>AlwaysOn := False\<rparr>;
          s = (if hasInternetPreference h p then setPreference h (modemID m) p s else deletePreference (modemID m) s)
      in if profileID m = [] then ([], s) else deleteAlwaysOn h (profileID m) s)"

section \<open>The proxy\<close>

definition cleanupProxy :: "'k host \<Rightarrow> string \<Rightarrow> string \<Rightarrow> 'k connErrs" where
  "cleanupProxy h i ifname =
     joinErr (deleteProxyState h ifname)
       (\<lambda>s. if hasProxy s then tryErr ProxyErr (proxyUnregister h i) s else ([], s))"

definition cleanupProxyInterfaces :: "'k host \<Rightarrow> string \<Rightarrow> string list \<Rightarrow> 'k connErrs" where
  "cleanupProxyInterfaces h i ifnames = joinAll (map (cleanupProxy h i) ifnames)"

definition cleanupProxyForModem :: "'k host \<Rightarrow> string \<Rightarrow> 'k connErrs" where
  "cleanupProxyForModem h i s =
     (case proxyInterfacesForModem h i s of
        (Inl es, s) \<Rightarrow> (es, s)
      | (Inr ifnames, s) \<Rightarrow>
          joinErr (cleanupProxyInterfaces h i ifnames)
            (\<lambda>s. if hasProxy s then tryErr ProxyErr (proxyUnregister h i) s else ([], s)) s)"

definition syncProxyPreference :: "'k host \<Rightarrow> string \<Rightarrow> string \<Rightarrow> Preferences \<Rightarrow> 'k connErrs" where
  "syncProxyPreference h i ifname p s =
     (if \<not> hasProxy s then (if ProxyEnabled p then [ErrProxyNotConfigured] else [], s)
      else if \<not> ProxyEnabled p then cleanupProxy h i ifname s
      else tryErr ProxyErr (proxyRegister h i ifname) s)"

definition withProxyStatus ::
  "'k host \<Rightarrow> 'k modemAccess \<Rightarrow> string \<Rightarrow> Preferences \<Rightarrow> int \<Rightarrow> ('k, Connection) connCall" where
  "withProxyStatus h m b p metric =
     ebind (connectionFromBearer h m b p metric) (\<lambda>c s.
       (Inr (if hasProxy s \<and> trim_space (InterfaceName c) \<noteq> []
             then c\<lparr>Proxy := proxyStatus h (modemID m) (kernel (net s))\<rparr> else c), s))"

section \<open>Who owns a default route\<close>

definition ownsRoute :: "DefaultRoute \<Rightarrow> trackedConnection \<Rightarrow> bool" where
  "ownsRoute r t \<longleftrightarrow> list_ex (\<lambda>q. sameDefaultRoute q r) (routes t)"

definition routeChangeOwner ::
  "(string \<times> trackedConnection) list \<Rightarrow> defaultRouteChange \<Rightarrow> (string \<times> trackedConnection) option" where
  "routeChangeOwner owners c = find (\<lambda>(i, t). ownsRoute (Original c) t) owners"

definition restoredRouteOwner ::
  "(string \<times> trackedConnection) list \<Rightarrow> defaultRouteChange \<Rightarrow> (string \<times> trackedConnection) option" where
  "restoredRouteOwner owners c = find (\<lambda>(i, t). ownsRoute (Replacement c) t) owners"

text \<open>Replaces a route of a connection by another and recomputes its metric and default flag.\<close>

definition swapTrackedRoute :: "DefaultRoute \<Rightarrow> DefaultRoute \<Rightarrow> trackedConnection \<Rightarrow> trackedConnection option" where
  "swapTrackedRoute old new t =
     (if ownsRoute old t then
        let rs = map (\<lambda>r. if sameDefaultRoute r old then new else r) (routes t);
            st = routeStateFromRoutes rs (interfaceName t)
        in Some (t\<lparr>routes := rs, trackedMetric := RecMetric st,
                   prefs := (prefs t)\<lparr>PrefDefaultRoute := RecDefaultRoute st\<rparr>\<rparr>)
      else None)"

definition demoteTrackedRoute :: "trackedConnection \<Rightarrow> defaultRouteChange \<Rightarrow> trackedConnection option" where
  "demoteTrackedRoute t c = swapTrackedRoute (Original c) (Replacement c) t"

definition restoreTrackedRoute :: "trackedConnection \<Rightarrow> defaultRouteChange \<Rightarrow> trackedConnection option" where
  "restoreTrackedRoute t c = swapTrackedRoute (Replacement c) (Original c) t"

text \<open>
  The loop of the takeover over the changes: the copies in \<open>owners\<close> are demoted, and the slice of
  routes a copy shares with the connection in \<open>conns\<close> changes with it.
\<close>

fun demoteLoop ::
  "defaultRouteChange list \<Rightarrow> (string \<times> trackedConnection) list \<Rightarrow> (string \<times> trackedConnection) list \<Rightarrow>
   string list \<Rightarrow> (string \<times> trackedConnection) list \<times> (string \<times> trackedConnection) list \<times> string list" where
  "demoteLoop [] owners conns affected = (owners, conns, affected)"
| "demoteLoop (c # cs) owners conns affected =
     (case routeChangeOwner owners c of
        None \<Rightarrow> demoteLoop cs owners conns affected
      | Some (i, owner) \<Rightarrow>
          (case demoteTrackedRoute owner c of
             None \<Rightarrow> demoteLoop cs owners conns affected
           | Some owner \<Rightarrow>
               demoteLoop cs (AList.update i owner owners)
                 (AList.map_entry i (\<lambda>t. t\<lparr>routes := routes owner\<rparr>) conns) (List.insert i affected)))"

text \<open>The saved preferences of the demoted connections; the loop stops at the first error.\<close>

fun syncOwners :: "'k host \<Rightarrow> (string \<times> trackedConnection) list \<Rightarrow> string list \<Rightarrow> 'k connErrs" where
  "syncOwners h owners [] = noErr"
| "syncOwners h owners (i # is) =
     (case map_of owners i of
        None \<Rightarrow> syncOwners h owners is
      | Some owner \<Rightarrow>
          if AlwaysOn (prefs owner)
          then thenErr (syncAlwaysOnState h (trackedProfile owner) (prefs owner)) (syncOwners h owners is)
          else syncOwners h owners is)"

definition commitOwner :: "(string \<times> trackedConnection) list \<Rightarrow> string \<Rightarrow> 'k connector \<Rightarrow> 'k connector" where
  "commitOwner owners i s =
     (case map_of owners i of
        None \<Rightarrow> s
      | Some owner \<Rightarrow> s\<lparr>connections := AList.update i owner (connections s),
                         preferences := (preferences s)(i \<mapsto> prefs owner)\<rparr>)"

definition syncDefaultRouteTakeover :: "'k host \<Rightarrow> string \<Rightarrow> trackedConnection \<Rightarrow> 'k connErrs" where
  "syncDefaultRouteTakeover h i t s =
     (if routeChanges t = [] then ([], s)
      else
        let (owners, conns, affected) = demoteLoop (routeChanges t) (connections s) (connections s) [];
            s = s\<lparr>connections := conns\<rparr>
        in if affected = [] then ([], s)
           else thenErr (onNet (putRouteStateForModem (rops h) i (interfaceName t) (routes t) (routeChanges t)))
                  (thenErr (syncOwners h owners affected)
                    (\<lambda>s. ([], fold (commitOwner owners) affected s))) s)"

fun restoreOwnersLoop ::
  "defaultRouteChange list \<Rightarrow> (string \<times> trackedConnection) list \<Rightarrow> string list \<Rightarrow>
   (string \<times> trackedConnection) list \<times> string list" where
  "restoreOwnersLoop [] owners affected = (owners, affected)"
| "restoreOwnersLoop (c # cs) owners affected =
     (case restoredRouteOwner owners c of
        None \<Rightarrow> restoreOwnersLoop cs owners affected
      | Some (i, owner) \<Rightarrow>
          (case restoreTrackedRoute owner c of
             None \<Rightarrow> restoreOwnersLoop cs owners affected
           | Some owner \<Rightarrow> restoreOwnersLoop cs (AList.update i owner owners) (List.insert i affected)))"

text \<open>One restored owner is committed, then its saved preferences follow; errors are joined.\<close>

fun commitRestored :: "'k host \<Rightarrow> (string \<times> trackedConnection) list \<Rightarrow> string list \<Rightarrow> 'k connErrs" where
  "commitRestored h owners [] = noErr"
| "commitRestored h owners (i # is) = (\<lambda>s.
     let s = commitOwner owners i s in
     case map_of owners i of
       None \<Rightarrow> commitRestored h owners is s
     | Some owner \<Rightarrow>
         if AlwaysOn (prefs owner)
         then joinErr (syncAlwaysOnState h (trackedProfile owner) (prefs owner)) (commitRestored h owners is) s
         else commitRestored h owners is s)"

definition syncDefaultRouteRestore :: "'k host \<Rightarrow> defaultRouteChange list \<Rightarrow> 'k connErrs" where
  "syncDefaultRouteRestore h changes s =
     (let (owners, affected) = restoreOwnersLoop (rev changes) (connections s) []
      in commitRestored h owners affected s)"

definition routeRemoved :: "DefaultRoute \<Rightarrow> DefaultRoute list \<Rightarrow> bool" where
  "routeRemoved r removed \<longleftrightarrow> list_ex (sameDefaultRoute r) removed"

fun removalLoop ::
  "trackedConnection \<Rightarrow> bool \<Rightarrow> defaultRouteChange list \<Rightarrow> defaultRouteChange list" where
  "removalLoop removed inherited [] = []"
| "removalLoop removed inherited (c # cs) =
     (if routeRemoved (Replacement c) (routes removed)
      then (if inherited then [] else routeChanges removed) @ removalLoop removed True cs
      else c # removalLoop removed inherited cs)"

definition defaultRouteChangesAfterRemoval ::
  "defaultRouteChange list \<Rightarrow> trackedConnection \<Rightarrow> defaultRouteChange list \<times> bool" where
  "defaultRouteChangesAfterRemoval changes removed =
     (removalLoop removed False changes, list_ex (\<lambda>c. routeRemoved (Replacement c) (routes removed)) changes)"

fun saveInherited :: "'k host \<Rightarrow> (string \<times> trackedConnection) list \<Rightarrow> 'k connErrs" where
  "saveInherited h [] = noErr"
| "saveInherited h ((i, owner) # rest) =
     thenErr
       (if routeChanges owner \<noteq> []
        then onNet (putRouteStateForModem (rops h) i (interfaceName owner) (routes owner) (routeChanges owner))
        else onNet (deleteRouteState (rops h) (interfaceName owner)))
       (saveInherited h rest)"

definition inheritedOwners ::
  "trackedConnection \<Rightarrow> (string \<times> trackedConnection) list \<Rightarrow> (string \<times> trackedConnection) list" where
  "inheritedOwners removed conns =
     concat (map (\<lambda>(i, owner).
        if interfaceName owner = interfaceName removed then []
        else case defaultRouteChangesAfterRemoval (routeChanges owner) removed of
          (next, changed) \<Rightarrow> if changed then [(i, owner\<lparr>routeChanges := next\<rparr>)] else []) conns)"

definition syncDefaultRouteRemoval :: "'k host \<Rightarrow> trackedConnection \<Rightarrow> 'k connErrs" where
  "syncDefaultRouteRemoval h removed s =
     (if routes removed = [] then ([], s)
      else
        let affected = inheritedOwners removed (connections s)
        in thenErr (saveInherited h affected)
             (\<lambda>s. ([], s\<lparr>connections := fold (\<lambda>(i, owner). AList.update i owner) affected (connections s)\<rparr>)) s)"

definition syncCleanedUpDefaultRouteState :: "'k host \<Rightarrow> trackedConnection \<Rightarrow> 'k connErrs" where
  "syncCleanedUpDefaultRouteState h t =
     (if PrefDefaultRoute (prefs t) then syncDefaultRouteRestore h (routeChanges t)
      else syncDefaultRouteRemoval h t)"

section \<open>Cleaning up\<close>

definition restoreStale :: "'k host \<Rightarrow> string \<Rightarrow> string list \<Rightarrow> 'k connErrs" where
  "restoreStale h i ifnames = onNet (restoreStaleDefaultRouteStatesWithStore (rops h) i ifnames)"

definition cleanupTracked :: "'k host \<Rightarrow> string \<Rightarrow> trackedConnection \<Rightarrow> 'k connErrs" where
  "cleanupTracked h i t =
     joinErr (cleanupProxy h i (interfaceName t))
       (thenErr
         (cleanupApplied h (if PrefDefaultRoute (prefs t) then t else t\<lparr>routeChanges := []\<rparr>))
         (onNet (deleteRouteState (rops h) (interfaceName t))))"

definition cleanupStaleConnectionState :: "'k host \<Rightarrow> string \<Rightarrow> string list \<Rightarrow> 'k connErrs" where
  "cleanupStaleConnectionState h i ifnames =
     joinErr (cleanupProxyInterfaces h i ifnames)
       (joinErr (cleanupProxyForModem h i)
         (joinErr (restoreStale h i ifnames)
           (joinAll (map (\<lambda>n. tryErr NetlinkErr (FlushAddresses h n)) (filter (\<lambda>n. trim_space n \<noteq> []) ifnames)))))"

text \<open>The bearers that are not connected are deleted; the names of their interfaces are returned with the errors.\<close>

fun deleteBearersLoop ::
  "'k modemAccess \<Rightarrow> string list \<Rightarrow> netErr list \<Rightarrow> string list \<Rightarrow> 'k connector \<Rightarrow>
   (string list \<times> netErr list) \<times> 'k connector" where
  "deleteBearersLoop m names errs [] s = ((names, errs), s)"
| "deleteBearersLoop m names errs (b # bs) s =
     (case onWorld (bearerConnected m b) s of
        (Inl e, s) \<Rightarrow> deleteBearersLoop m names (errs @ [ModemErr e]) bs s
      | (Inr True, s) \<Rightarrow> deleteBearersLoop m names errs bs s
      | (Inr False, s) \<Rightarrow>
          let (r, s) = onWorld (bearerInterface m b) s;
              names = (case r of
                  Inl e \<Rightarrow> names
                | Inr n \<Rightarrow> if trim_space n = [] \<or> trim_space n \<in> set names then names else names @ [trim_space n]);
              (es, s) = tryErr ModemErr (deleteBearer m b) s
          in deleteBearersLoop m names (errs @ es) bs s)"

definition deleteDisconnectedBearers ::
  "'k modemAccess \<Rightarrow> 'k connector \<Rightarrow> (string list \<times> netErr list) \<times> 'k connector" where
  "deleteDisconnectedBearers m s =
     (case onWorld (modemBearers m) s of
        (Inl e, s) \<Rightarrow> (([], [ModemErr e]), s)
      | (Inr bs, s) \<Rightarrow> deleteBearersLoop m [] [] bs s)"

definition cleanupConnectFailure :: "'k host \<Rightarrow> 'k modemAccess \<Rightarrow> 'k connErrs" where
  "cleanupConnectFailure h m s =
     (let ((names, es), s) = deleteDisconnectedBearers m s;
          (fs, s) = cleanupStaleConnectionState h (modemID m) names s
      in (es @ fs, s))"

definition resetConnectFailure :: "'k host \<Rightarrow> 'k modemAccess \<Rightarrow> 'k connErrs" where
  "resetConnectFailure h m =
     thenErr (cleanupConnectFailure h m)
       (thenErr (tryErr ModemErr (refreshModem m)) (cleanupConnectFailure h m))"

section \<open>Disconnecting\<close>

definition disconnectTracked :: "'k host \<Rightarrow> 'k modemAccess \<Rightarrow> trackedConnection \<Rightarrow> 'k connErrs" where
  "disconnectTracked h m t s =
     (let (es, s) =
        joinErr (thenErr (cleanupTracked h (modemID m) t) (syncCleanedUpDefaultRouteState h t))
          (joinErr (tryErr ModemErr (disconnectBearer m (bearerPath t))) (restoreStale h (modemID m) [])) s
      in (es, deleteConnection (modemID m) s))"

definition disconnectUntracked :: "'k host \<Rightarrow> 'k modemAccess \<Rightarrow> string \<Rightarrow> 'k connErrs" where
  "disconnectUntracked h m b s =
     (let (p, s) = recoverPreferences h m b (preference h (modemID m) s) s;
          (iface, s) = onWorld (bearerInterface m b) s;
          (es, s) = thenErr (cleanupBearer h m b p)
             (case iface of Inl e \<Rightarrow> noErr | Inr n \<Rightarrow> onNet (deleteRouteState (rops h) n)) s;
          (fs, s) = (case iface of
              Inr n \<Rightarrow> cleanupProxy h (modemID m) n s
            | Inl e \<Rightarrow> cleanupProxyForModem h (modemID m) s);
          (gs, s) = joinErr (tryErr ModemErr (bearerDisconnect m b)) (restoreStale h (modemID m) []) s
      in (es @ fs @ gs, s))"

definition disconnectModem :: "'k host \<Rightarrow> 'k modemAccess \<Rightarrow> bool \<Rightarrow> 'k connErrs" where
  "disconnectModem h m clearAlwaysOn =
     joinErr (if clearAlwaysOn then clearAlwaysOnState h m else noErr)
       (\<lambda>s. case connection (modemID m) s of
          Some t \<Rightarrow> disconnectTracked h m t s
        | None \<Rightarrow>
            (case currentBearer m s of
               (Inl es, s) \<Rightarrow> (es, s)
             | (Inr (None, _), s) \<Rightarrow> cleanupStaleConnectionState h (modemID m) [] s
             | (Inr (Some b, True), s) \<Rightarrow> disconnectUntracked h m b s
             | (Inr (Some b, False), s) \<Rightarrow>
                 (case tryVal ModemErr (bearerInterface m b) s of
                    (Inl es, s) \<Rightarrow> (es, s)
                  | (Inr n, s) \<Rightarrow> cleanupStaleConnectionState h (modemID m) [n] s)))"

definition Disconnect :: "'k host \<Rightarrow> 'k modemAccess \<Rightarrow> 'k connErrs" where
  "Disconnect h m = disconnectModem h m True"

definition Restore :: "'k host \<Rightarrow> 'k modemAccess \<Rightarrow> 'k connErrs" where
  "Restore h m s =
     (let (es, s) = disconnectModem h m False s in (es, deleteConnectionAndPreference (modemID m) s))"

section \<open>Connecting\<close>

definition connectBearerAfterRecovery ::
  "'k host \<Rightarrow> 'k modemAccess \<Rightarrow> Preferences \<Rightarrow> netErr list \<Rightarrow> ('k, string) connCall" where
  "connectBearerAfterRecovery h m p connectErr s =
     (case cleanupConnectFailure h m s of
        (e # es, s) \<Rightarrow> (Inl (connectErr @ e # es), s)
      | ([], s) \<Rightarrow>
          (case tryVal ModemErr (connectBearer m (bearerPropertiesFromPreferences p)) s of
             (Inr b, s) \<Rightarrow> (Inr b, s)
           | (Inl es, s) \<Rightarrow>
               (case resetConnectFailure h m s of
                  (r # rs, s) \<Rightarrow> (Inl (es @ r # rs), s)
                | ([], s) \<Rightarrow> tryVal ModemErr (connectBearer m (bearerPropertiesFromPreferences p)) s)))"

text \<open>
  What \<open>connect\<close> does once the bearer has an address: each step that fails undoes the
  configuration and disconnects the bearer.
\<close>

definition abandon ::
  "'k host \<Rightarrow> 'k modemAccess \<Rightarrow> string \<Rightarrow> trackedConnection \<Rightarrow> netErr list \<Rightarrow> ('k, 'a) connCall" where
  "abandon h m b t es s =
     (let (fs, s) = joinErr (cleanupTracked h (modemID m) t) (tryErr ModemErr (bearerDisconnect m b)) s
      in (Inl (es @ fs), s))"

definition orAbandon ::
  "'k host \<Rightarrow> 'k modemAccess \<Rightarrow> string \<Rightarrow> trackedConnection \<Rightarrow> ('k, 'a) connCall \<Rightarrow> ('k, 'a) connCall" where
  "orAbandon h m b t call s =
     (case call s of
        (Inl es, s) \<Rightarrow> abandon h m b t es s
      | (Inr a, s) \<Rightarrow> (Inr a, s))"

definition finishConnect ::
  "'k host \<Rightarrow> 'k modemAccess \<Rightarrow> string \<Rightarrow> Preferences \<Rightarrow> trackedConnection \<Rightarrow> ('k, Connection) connCall" where
  "finishConnect h m b p t =
     ebind (orAbandon h m b t (must (syncProxyPreference h (modemID m) (interfaceName t) p))) (\<lambda>_.
     ebind (if ProxyEnabled p
            then orAbandon h m b t (must (saveProxyStateForModem h (modemID m) (interfaceName t)))
            else ok ()) (\<lambda>_.
     ebind (orAbandon h m b t (withProxyStatus h m b p (trackedMetric t))) (\<lambda>c.
     ebind (orAbandon h m b t (must (syncAlwaysOnState h (profileID m) p))) (\<lambda>_.
     ebind (orAbandon h m b t (must (syncDefaultRouteTakeover h (modemID m) t))) (\<lambda>_ s.
       (Inr c, setConnectionAndPreference h (modemID m) t p s))))))"

definition selectedAPN :: "'k host \<Rightarrow> 'k modemAccess \<Rightarrow> Preferences \<Rightarrow> ('k, Preferences) connCall" where
  "selectedAPN h m p =
     (if APN p \<noteq> [] then ok p
      else ebind (apnFromBearers m) (\<lambda>apn s.
        let (q, s) = preferenceWithAlwaysOn h m s in (Inr (p\<lparr>APN := apnForModem h m [] apn (APN q)\<rparr>), s)))"

definition connectModem ::
  "'k host \<Rightarrow> 'k modemAccess \<Rightarrow> Preferences \<Rightarrow> bool \<Rightarrow> ('k, Connection) connCall" where
  "connectModem h m p clearAlwaysOnBefore =
     (let p = normalizePreferences h p in
      if AlwaysOn p \<and> profileID m = [] then fail [ErrProfileIDRequired]
      else
      ebind (selectedAPN h m p) (\<lambda>p.
      let p = preferencesWithDefaultAPNCredentials h m p in
      ebind (must (disconnectModem h m clearAlwaysOnBefore)) (\<lambda>_.
      ebind (\<lambda>s. case tryVal ModemErr (connectBearer m (bearerPropertiesFromPreferences p)) s of
               (Inr b, s) \<Rightarrow> (Inr b, s)
             | (Inl es, s) \<Rightarrow> connectBearerAfterRecovery h m p es s) (\<lambda>b s.
      let (p, s) = bearerPreferences h m b p s in
      case configureBearer h m b p s of
        (Inl es, s) \<Rightarrow> (let (fs, s) = tryErr ModemErr (bearerDisconnect m b) s in (Inl (es @ fs), s))
      | (Inr t, s) \<Rightarrow>
          finishConnect h m b p (t\<lparr>bearerPath := b, trackedProfile := profileID m, prefs := p\<rparr>) s))))"

definition Connect :: "'k host \<Rightarrow> 'k modemAccess \<Rightarrow> Preferences \<Rightarrow> ('k, Connection) connCall" where
  "Connect h m p = connectModem h m p True"

section \<open>The current connection\<close>

text \<open>\<open>current\<close>, once nothing is tracked for the modem any more.\<close>

definition currentUntracked ::
  "'k host \<Rightarrow> 'k modemAccess \<Rightarrow> Preferences \<Rightarrow> string list \<Rightarrow> ('k, Connection) connCall" where
  "currentUntracked h m p stale =
     ebind (currentBearer m) (\<lambda>(b, connected).
     case b of
       None \<Rightarrow>
         ebind (must (cleanupStaleConnectionState h (modemID m) stale)) (\<lambda>_.
           ok (disconnectedConnection h (preferencesWithSelectedAPN h m p)))
     | Some b \<Rightarrow>
         if \<not> connected then (\<lambda>s.
           let (r, s) = onWorld (bearerInterface m b) s;
               stale = (case r of Inl e \<Rightarrow> stale | Inr n \<Rightarrow> stale @ [n])
           in ebind (must (cleanupStaleConnectionState h (modemID m) stale)) (\<lambda>_ s.
                let (p, s) = bearerPreferences h m b p s; p = preferencesWithSelectedAPN h m p
                in (Inr (disconnectedConnection h p), setPreference h (modemID m) p s)) s)
         else
           ebind (recoverTrackedConnection h m b p) (\<lambda>r.
           case r of
             None \<Rightarrow> fail [ErrUnsupportedIPMethod]
           | Some (t, metric) \<Rightarrow> (\<lambda>s.
               let t = t\<lparr>prefs := preferencesWithDefaultAPNCredentials h m (prefs t), trackedProfile := profileID m\<rparr>;
                   s = setConnectionAndPreference h (modemID m) t (prefs t) s
               in withProxyStatus h m b (prefs t) metric s)))"

definition currentDisconnected ::
  "'k host \<Rightarrow> 'k modemAccess \<Rightarrow> trackedConnection \<Rightarrow> ('k, Connection) connCall" where
  "currentDisconnected h m t =
     ebind (must (joinErr (thenErr (cleanupTracked h (modemID m) t) (syncCleanedUpDefaultRouteState h t))
                   (restoreStale h (modemID m) []))) (\<lambda>_ s.
       let s = deleteConnection (modemID m) s;
           (p, s) = bearerPreferences h m (bearerPath t) (prefs t) s;
           p = preferencesWithSelectedAPN h m p
       in (Inr (disconnectedConnection h p), setPreference h (modemID m) p s))"

definition currentOf :: "'k host \<Rightarrow> 'k modemAccess \<Rightarrow> ('k, Connection) connCall" where
  "currentOf h m s =
     (let (p, s) = preferenceWithAlwaysOn h m s in
      case connection (modemID m) s of
        None \<Rightarrow> currentUntracked h m p [] s
      | Some t \<Rightarrow>
          let lost = (\<lambda>t s. currentUntracked h m (prefs t) [interfaceName t] (deleteConnection (modemID m) s)) in
          (case onWorld (openBearer m (bearerPath t)) s of
             (Some e, s) \<Rightarrow> lost t s
           | (None, s) \<Rightarrow>
               (case onWorld (bearerConnected m (bearerPath t)) s of
                  (Inl e, s) \<Rightarrow> lost t s
                | (Inr False, s) \<Rightarrow> currentDisconnected h m t s
                | (Inr True, s) \<Rightarrow>
                    let p = preferencesWithDefaultAPNCredentials h m (prefs t);
                        t = t\<lparr>prefs := p\<rparr>;
                        s = setConnectionAndPreference h (modemID m) t p s
                    in (case withProxyStatus h m (bearerPath t) p (trackedMetric t) s of
                          (Inr c, s) \<Rightarrow> (Inr c, s)
                        | (Inl es, s) \<Rightarrow> lost t s))))"

definition recoverModem :: "'k host \<Rightarrow> 'k modemAccess \<Rightarrow> 'k connErrs" where
  "recoverModem h m s =
     (let (p, s) = preferenceWithAlwaysOn h m s in
      case currentBearer m s of
        (Inl es, s) \<Rightarrow> (es, s)
      | (Inr (None, _), s) \<Rightarrow> cleanupStaleConnectionState h (modemID m) [] s
      | (Inr (Some b, False), s) \<Rightarrow>
          let (r, s) = onWorld (bearerInterface m b) s;
              stale = (case r of Inl e \<Rightarrow> [] | Inr n \<Rightarrow> [n])
          in thenErr (cleanupStaleConnectionState h (modemID m) stale) (\<lambda>s.
               let (p, s) = bearerPreferences h m b p s
               in ([], setPreference h (modemID m) (preferencesWithSelectedAPN h m p) s)) s
      | (Inr (Some b, True), s) \<Rightarrow>
          (case recoverTrackedConnection h m b p s of
             (Inl es, s) \<Rightarrow> (es, s)
           | (Inr None, s) \<Rightarrow> ([ErrUnsupportedIPMethod], s)
           | (Inr (Some (t, metric)), s) \<Rightarrow>
               let t = t\<lparr>prefs := preferencesWithDefaultAPNCredentials h m (prefs t), trackedProfile := profileID m\<rparr>
               in thenErr (syncProxyPreference h (modemID m) (interfaceName t) (prefs t))
                    (\<lambda>s. ([], setConnectionAndPreference h (modemID m) t (prefs t) s)) s))"

definition Recover :: "'k host \<Rightarrow> 'k modemAccess list \<Rightarrow> 'k connErrs" where
  "Recover h ms = joinAll (map (recoverModem h) ms)"

section \<open>Connections that are always on\<close>

definition recoverAlwaysOn :: "'k host \<Rightarrow> 'k modemAccess \<Rightarrow> string \<Rightarrow> Preferences \<Rightarrow> 'k connErrs" where
  "recoverAlwaysOn h m b p s =
     (case recoverTrackedConnection h m b p s of
        (Inl es, s) \<Rightarrow> (es, s)
      | (Inr None, s) \<Rightarrow> ([ErrUnsupportedIPMethod], s)
      | (Inr (Some (t, metric)), s) \<Rightarrow>
          let t = t\<lparr>trackedProfile := profileID m, prefs := (prefs t)\<lparr>AlwaysOn := True\<rparr>\<rparr>
          in thenErr (syncProxyPreference h (modemID m) (interfaceName t) (prefs t))
               (thenErr (syncAlwaysOnState h (profileID m) (prefs t))
                 (\<lambda>s. ([], setConnectionAndPreference h (modemID m) t (prefs t) s))) s)"

definition restoreAlwaysOn :: "'k host \<Rightarrow> 'k modemAccess \<Rightarrow> 'k connErrs" where
  "restoreAlwaysOn h m s =
     (if profileID m = [] then ([], s)
      else case loadAlwaysOnStateForProfile h (profileID m) s of
        (Inl es, s) \<Rightarrow> (es, s)
      | (Inr None, s) \<Rightarrow> ([], s)
      | (Inr (Some latest), s) \<Rightarrow>
          let p = latest\<lparr>AlwaysOn := True\<rparr> in
          (case currentBearer m s of
             (Inl es, s) \<Rightarrow> (es, s)
           | (Inr (Some b, True), s) \<Rightarrow> recoverAlwaysOn h m b p s
           | (Inr _, s) \<Rightarrow>
               (case connectModem h m p False s of
                  (Inl es, s) \<Rightarrow> (es, s)
                | (Inr c, s) \<Rightarrow> ([], s))))"

definition loadAlwaysOnStates :: "'k host \<Rightarrow> ('k, (string \<times> Preferences) list) connCall" where
  "loadAlwaysOnStates h =
     query h (\<lambda>s. filter (\<lambda>(i, p). AlwaysOn p \<and> trim_space i \<noteq> []) (alwaysOnStates s))"

text \<open>One round of the monitor over the modems; the errors are only logged.\<close>

fun restoreAlwaysOnLoop ::
  "'k host \<Rightarrow> (string \<times> Preferences) list \<Rightarrow> 'k modemAccess list \<Rightarrow> 'k connector \<Rightarrow> 'k connector" where
  "restoreAlwaysOnLoop h states [] s = s"
| "restoreAlwaysOnLoop h states (m # ms) s =
     restoreAlwaysOnLoop h states ms
       (if profileID m = [] then s
        else case map_of states (profileID m) of
          None \<Rightarrow> s
        | Some p \<Rightarrow> if \<not> AlwaysOn p then s else snd (restoreAlwaysOn h m s))"

definition restoreAlwaysOnModems :: "'k host \<Rightarrow> 'k modemAccess list \<Rightarrow> 'k connector \<Rightarrow> 'k connector" where
  "restoreAlwaysOnModems h ms s =
     (if ctxErr h (kernel (net s)) \<noteq> None then s
      else case loadAlwaysOnStates h s of
        (Inl es, s) \<Rightarrow> s
      | (Inr states, s) \<Rightarrow> if states = [] then s else restoreAlwaysOnLoop h states ms s)"

end
