(* ===== verification/ConnectorFrame.thy ===== *)
theory ConnectorFrame
  imports Connector
begin

text \<open>
  What the operations of the connector leave alone. \<open>keeps Q f\<close> says that a call preserves a
  property of the state; \<open>frame\<close> is the interface of the properties that most calls of the
  connector preserve because they only touch the machine, the saved proxy state, the always-on
  state or the preferences, and \<open>conn_frame\<close> that of the properties of the tracked connections.
\<close>

named_theorems keeps_rules \<open>how calls are put together\<close>

section \<open>Calls that preserve a property\<close>

definition keeps :: "('s \<Rightarrow> bool) \<Rightarrow> ('s \<Rightarrow> 'r \<times> 's) \<Rightarrow> bool" where
  "keeps Q f \<longleftrightarrow> (\<forall>s. Q s \<longrightarrow> Q (snd (f s)))"

lemma keepsI: "(\<And>s r s'. f s = (r, s') \<Longrightarrow> Q s \<Longrightarrow> Q s') \<Longrightarrow> keeps Q f"
  unfolding keeps_def by (metis prod.collapse)

lemma keepsD: "keeps Q f \<Longrightarrow> f s = (r, s') \<Longrightarrow> Q s \<Longrightarrow> Q s'"
  unfolding keeps_def by force

lemma keeps_snd: "keeps Q f \<Longrightarrow> Q s \<Longrightarrow> Q (snd (f s))"
  by (simp add: keeps_def)

lemma keeps_case [keeps_rules]:
  "keeps Q f \<Longrightarrow> (\<And>t a. keeps Q (g t a)) \<Longrightarrow> keeps Q (\<lambda>s. case f s of (a, s') \<Rightarrow> g s a s')"
  unfolding keeps_def by (auto split: prod.split)

lemma keeps_arg: "(\<And>a. keeps Q (f a)) \<Longrightarrow> keeps Q (\<lambda>s. f (x s) s)"
  by (simp add: keeps_def)

lemma keeps_const [keeps_rules]: "keeps Q (\<lambda>s. (c s, s))"
  by (simp add: keeps_def)

lemma keeps_Pair [keeps_rules]: "keeps Q (Pair c)"
  by (simp add: keeps_def)

lemma keeps_if [keeps_rules]: "keeps Q f \<Longrightarrow> keeps Q g \<Longrightarrow> keeps Q (if b then f else g)"
  by simp

lemma keeps_if_state [keeps_rules]: "keeps Q f \<Longrightarrow> keeps Q g \<Longrightarrow> keeps Q (\<lambda>s. if b s then f s else g s)"
  by (simp add: keeps_def)

lemma keeps_option [keeps_rules]:
  "keeps Q f \<Longrightarrow> (\<And>a. keeps Q (g a)) \<Longrightarrow> keeps Q (\<lambda>s. case x s of None \<Rightarrow> f s | Some a \<Rightarrow> g a s)"
  by (simp add: keeps_def split: option.split)

lemma keeps_sum [keeps_rules]:
  "(\<And>a. keeps Q (f a)) \<Longrightarrow> (\<And>a. keeps Q (g a)) \<Longrightarrow> keeps Q (\<lambda>s. case x s of Inl a \<Rightarrow> f a s | Inr a \<Rightarrow> g a s)"
  by (simp add: keeps_def split: sum.split)

lemma keeps_list [keeps_rules]:
  "keeps Q f \<Longrightarrow> (\<And>a as. keeps Q (g a as)) \<Longrightarrow> keeps Q (\<lambda>s. case x s of [] \<Rightarrow> f s | a # as \<Rightarrow> g a as s)"
  by (simp add: keeps_def split: list.split)

lemma keeps_pair [keeps_rules]:
  "(\<And>a b. keeps Q (f a b)) \<Longrightarrow> keeps Q (\<lambda>s. case x of (a, b) \<Rightarrow> f a b s)"
  by (cases x) simp

lemma keeps_bool [keeps_rules]:
  "keeps Q f \<Longrightarrow> keeps Q g \<Longrightarrow> keeps Q (\<lambda>s. case b of True \<Rightarrow> f s | False \<Rightarrow> g s)"
  by (simp add: keeps_def split: bool.split)

lemma keeps_option' [keeps_rules]:
  "keeps Q f \<Longrightarrow> (\<And>a. keeps Q (g a)) \<Longrightarrow> keeps Q (case x of None \<Rightarrow> f | Some a \<Rightarrow> g a)"
  by (cases x) simp_all

lemma keeps_sum' [keeps_rules]:
  "(\<And>a. keeps Q (f a)) \<Longrightarrow> (\<And>a. keeps Q (g a)) \<Longrightarrow> keeps Q (case x of Inl a \<Rightarrow> f a | Inr a \<Rightarrow> g a)"
  by (cases x) simp_all

lemma keeps_pair' [keeps_rules]: "(\<And>a b. keeps Q (f a b)) \<Longrightarrow> keeps Q (case x of (a, b) \<Rightarrow> f a b)"
  by (cases x) simp

lemma keeps_ok [keeps_rules]: "keeps Q (ok a)"
  by (simp add: keeps_def ok_def)

lemma keeps_fail [keeps_rules]: "keeps Q (fail e)"
  by (simp add: keeps_def fail_def)

lemma keeps_noErr [keeps_rules]: "keeps Q noErr"
  by (simp add: keeps_def noErr_def)

lemma keeps_ebind [keeps_rules]:
  assumes "keeps Q f" and "\<And>a. keeps Q (g a)"
  shows "keeps Q (ebind f g)"
proof (rule keepsI)
  fix s r s' assume run: "ebind f g s = (r, s')" and Q: "Q s"
  obtain a s1 where s1: "f s = (a, s1)" by fastforce
  have "Q s1" using keepsD [OF assms(1) s1 Q] .
  then show "Q s'"
    using run s1 keepsD [OF assms(2)] by (cases a) (auto simp: ebind_def)
qed

lemma keeps_ebind_value:
  assumes "keeps Q f" and "\<And>s a s'. f s = (Inr a, s') \<Longrightarrow> R a" and "\<And>a. R a \<Longrightarrow> keeps Q (g a)"
  shows "keeps Q (ebind f g)"
proof (rule keepsI)
  fix s r s' assume run: "ebind f g s = (r, s')" and Q: "Q s"
  obtain a s1 where s1: "f s = (a, s1)" by fastforce
  have "Q s1" using keepsD [OF assms(1) s1 Q] .
  then show "Q s'"
    using run s1 keepsD [OF assms(3) [OF assms(2)]] by (cases a) (auto simp: ebind_def)
qed

lemma keeps_must [keeps_rules]: "keeps Q f \<Longrightarrow> keeps Q (must f)"
  unfolding must_def by (intro keeps_rules)

lemma keeps_joinErr [keeps_rules]: "keeps Q f \<Longrightarrow> keeps Q g \<Longrightarrow> keeps Q (joinErr f g)"
  unfolding joinErr_def Let_def by (intro keeps_rules)

lemma keeps_thenErr [keeps_rules]: "keeps Q f \<Longrightarrow> keeps Q g \<Longrightarrow> keeps Q (thenErr f g)"
  unfolding thenErr_def by (intro keeps_rules)

lemma keeps_joinAll [keeps_rules]: "(\<And>f. f \<in> set fs \<Longrightarrow> keeps Q f) \<Longrightarrow> keeps Q (joinAll fs)"
  by (induction fs) (auto intro: keeps_rules)

lemma keeps_tryErr [keeps_rules]: "keeps Q (onWorld f) \<Longrightarrow> keeps Q (tryErr wrap f)"
  unfolding tryErr_def by (intro keeps_rules)

lemma keeps_tryVal [keeps_rules]: "keeps Q (onWorld f) \<Longrightarrow> keeps Q (tryVal wrap f)"
  unfolding tryVal_def by (intro keeps_rules)

lemma keeps_query [keeps_rules]: "keeps Q (onWorld (storeFault (rops h))) \<Longrightarrow> keeps Q (query h f)"
  unfolding query_def by (intro keeps_rules)

text \<open>All calls that a connector makes of the machine and of the modem, without those of the routing table.\<close>

definition quietHost :: "(('k \<Rightarrow> 'k) \<Rightarrow> bool) \<Rightarrow> 'k host \<Rightarrow> bool" where
  "quietHost calm h \<longleftrightarrow>
     calm (\<lambda>k. snd (listRoutes (rops h) k)) \<and> calm (\<lambda>k. snd (storeFault (rops h) k)) \<and>
     (\<forall>n. calm (\<lambda>k. snd (SetUp h n k))) \<and> (\<forall>n u. calm (\<lambda>k. snd (changeMTU h n u k))) \<and>
     (\<forall>n a. calm (\<lambda>k. snd (AddAddress h n a k))) \<and> (\<forall>n a. calm (\<lambda>k. snd (DeleteAddress h n a k))) \<and>
     (\<forall>n. calm (\<lambda>k. snd (FlushAddresses h n k))) \<and>
     (\<forall>u n. calm (\<lambda>k. snd (proxyRegister h u n k))) \<and> (\<forall>u. calm (\<lambda>k. snd (proxyUnregister h u k)))"

definition quietModem :: "(('k \<Rightarrow> 'k) \<Rightarrow> bool) \<Rightarrow> 'k modemAccess \<Rightarrow> bool" where
  "quietModem calm m \<longleftrightarrow>
     calm (\<lambda>k. snd (modemBearers m k)) \<and> (\<forall>b. calm (\<lambda>k. snd (openBearer m b k))) \<and>
     (\<forall>p. calm (\<lambda>k. snd (connectBearer m p k))) \<and> (\<forall>b. calm (\<lambda>k. snd (disconnectBearer m b k))) \<and>
     (\<forall>b. calm (\<lambda>k. snd (deleteBearer m b k))) \<and> calm (\<lambda>k. snd (refreshModem m k)) \<and>
     (\<forall>b. calm (\<lambda>k. snd (bearerConnected m b k))) \<and> (\<forall>b. calm (\<lambda>k. snd (bearerInterface m b k))) \<and>
     (\<forall>b. calm (\<lambda>k. snd (bearerIP4 m b k))) \<and> (\<forall>b. calm (\<lambda>k. snd (bearerIP6 m b k))) \<and>
     (\<forall>b. calm (\<lambda>k. snd (bearerStats m b k))) \<and> (\<forall>b. calm (\<lambda>k. snd (bearerAPN m b k))) \<and>
     (\<forall>b. calm (\<lambda>k. snd (bearerProperties m b k))) \<and> (\<forall>b. calm (\<lambda>k. snd (bearerDisconnect m b k)))"

section \<open>Properties that do not speak of the bookkeeping\<close>

text \<open>
  \<open>Q\<close> survives the changes \<open>calm\<close> of the world, and any change of the saved proxy state, the
  always-on state and the preferences.
\<close>

lemma deleteBearersLoop_Cons:
  "deleteBearersLoop m names errs (b # bs) = (\<lambda>s.
     case onWorld (bearerConnected m b) s of
        (Inl e, s) \<Rightarrow> deleteBearersLoop m names (errs @ [ModemErr e]) bs s
      | (Inr True, s) \<Rightarrow> deleteBearersLoop m names errs bs s
      | (Inr False, s) \<Rightarrow>
          let (r, s) = onWorld (bearerInterface m b) s;
              names = (case r of
                  Inl e \<Rightarrow> names
                | Inr n \<Rightarrow> if trim_space n = [] \<or> trim_space n \<in> set names then names else names @ [trim_space n]);
              (es, s) = tryErr ModemErr (deleteBearer m b) s
          in deleteBearersLoop m names (errs @ es) bs s)"
  by (rule ext) simp

locale frame =
  fixes Q :: "'k connector \<Rightarrow> bool" and calm :: "('k \<Rightarrow> 'k) \<Rightarrow> bool"
  assumes world: "calm g \<Longrightarrow> Q s \<Longrightarrow> Q (s\<lparr>net := (net s)\<lparr>kernel := g (kernel (net s))\<rparr>\<rparr>)"
    and proxies: "Q s \<Longrightarrow> Q (s\<lparr>proxyStates := x\<rparr>)"
    and always: "Q s \<Longrightarrow> Q (s\<lparr>alwaysOnStates := y\<rparr>)"
    and remembered: "Q s \<Longrightarrow> Q (s\<lparr>preferences := z\<rparr>)"
begin

lemma onWorld_calm: "calm (\<lambda>k. snd (f k)) \<Longrightarrow> keeps Q (onWorld f)"
  using world [of "\<lambda>k. snd (f k)"] by (auto simp: keeps_def onWorld_def onKernel_def split: prod.splits) (metis snd_conv)

lemma keeps_host:
  assumes "quietHost calm h"
  shows "keeps Q (onWorld (listRoutes (rops h)))" "keeps Q (onWorld (storeFault (rops h)))"
    "keeps Q (onWorld (SetUp h n))" "keeps Q (onWorld (changeMTU h n u))" "keeps Q (onWorld (AddAddress h n a))"
    "keeps Q (onWorld (DeleteAddress h n a))" "keeps Q (onWorld (FlushAddresses h n))"
    "keeps Q (onWorld (proxyRegister h v n))" "keeps Q (onWorld (proxyUnregister h v))"
  using assms by (auto intro!: onWorld_calm simp: quietHost_def simp del: split_paired_All)

lemma keeps_modem:
  assumes "quietModem calm m"
  shows "keeps Q (onWorld (modemBearers m))" "keeps Q (onWorld (openBearer m b))" "keeps Q (onWorld (connectBearer m p))"
    "keeps Q (onWorld (disconnectBearer m b))" "keeps Q (onWorld (deleteBearer m b))" "keeps Q (onWorld (refreshModem m))"
    "keeps Q (onWorld (bearerConnected m b))" "keeps Q (onWorld (bearerInterface m b))" "keeps Q (onWorld (bearerIP4 m b))"
    "keeps Q (onWorld (bearerIP6 m b))" "keeps Q (onWorld (bearerStats m b))" "keeps Q (onWorld (bearerAPN m b))"
    "keeps Q (onWorld (bearerProperties m b))" "keeps Q (onWorld (bearerDisconnect m b))"
  using assms by (auto intro!: onWorld_calm simp: quietModem_def)

lemma keeps_statement:
  assumes "quietHost calm h" and "\<And>s. Q s \<Longrightarrow> Q (f s)"
  shows "keeps Q (statement h f)"
  unfolding statement_def
  by (rule keeps_case [OF keeps_host(2) [OF assms(1)]]) (auto simp: keeps_def assms(2) split: option.split)

lemma keeps_deleteProxyState: "quietHost calm h \<Longrightarrow> keeps Q (deleteProxyState h n)"
  unfolding deleteProxyState_def by (rule keeps_statement) (auto intro: proxies)

lemma keeps_proxyState: "quietHost calm h \<Longrightarrow> keeps Q (proxyState h n)"
  unfolding proxyState_def by (intro keeps_rules keeps_host)

lemma keeps_proxyInterfaces: "quietHost calm h \<Longrightarrow> keeps Q (proxyInterfacesForModem h i)"
  unfolding proxyInterfacesForModem_def Let_def by (intro keeps_rules keeps_host)

lemma keeps_deleteProxyStates: "quietHost calm h \<Longrightarrow> keeps Q (deleteProxyStates h n ns)"
  by (induction ns) (auto intro!: keeps_rules keeps_deleteProxyState)

lemma keeps_replaceProxyState: "quietHost calm h \<Longrightarrow> keeps Q (replaceProxyState h i n)"
  unfolding replaceProxyState_def
  by (intro keeps_rules keeps_proxyInterfaces keeps_deleteProxyStates keeps_statement) (auto intro: proxies)

lemma keeps_saveProxyState: "quietHost calm h \<Longrightarrow> keeps Q (saveProxyStateForModem h i n)"
  unfolding saveProxyStateForModem_def Let_def
  by (intro keeps_rules keeps_proxyState keeps_replaceProxyState)

lemma keeps_loadProxyState: "quietHost calm h \<Longrightarrow> keeps Q (loadProxyStateForModem h i n)"
  unfolding loadProxyStateForModem_def by (intro keeps_rules keeps_proxyState)

lemma keeps_loadRouteState: "quietHost calm h \<Longrightarrow> keeps Q (loadRouteStateForModem h i n)"
  unfolding loadRouteStateForModem_def by (intro keeps_rules keeps_host)

lemma keeps_cleanupProxy: "quietHost calm h \<Longrightarrow> keeps Q (cleanupProxy h i n)"
  unfolding cleanupProxy_def by (intro keeps_rules keeps_host keeps_deleteProxyState)

lemma keeps_cleanupProxyInterfaces: "quietHost calm h \<Longrightarrow> keeps Q (cleanupProxyInterfaces h i ns)"
  unfolding cleanupProxyInterfaces_def by (intro keeps_rules) (auto intro: keeps_cleanupProxy)

lemma keeps_cleanupProxyForModem: "quietHost calm h \<Longrightarrow> keeps Q (cleanupProxyForModem h i)"
  unfolding cleanupProxyForModem_def
  by (intro keeps_rules keeps_host keeps_proxyInterfaces keeps_cleanupProxyInterfaces)

lemma keeps_syncProxyPreference: "quietHost calm h \<Longrightarrow> keeps Q (syncProxyPreference h i n p)"
  unfolding syncProxyPreference_def by (intro keeps_rules keeps_host keeps_cleanupProxy)

lemmas keeps_proxy =
  keeps_deleteProxyState keeps_proxyState keeps_saveProxyState keeps_loadProxyState keeps_loadRouteState keeps_cleanupProxy
  keeps_cleanupProxyInterfaces keeps_cleanupProxyForModem keeps_syncProxyPreference

subsection \<open>The always-on state and the preferences\<close>

lemma keeps_loadAlwaysOn: "quietHost calm h \<Longrightarrow> keeps Q (loadAlwaysOnStateForProfile h i)"
  unfolding loadAlwaysOnStateForProfile_def Let_def by (intro keeps_rules keeps_host)

lemma keeps_preferenceWithAlwaysOn: "quietHost calm h \<Longrightarrow> keeps Q (preferenceWithAlwaysOn h m)"
  unfolding preferenceWithAlwaysOn_def Let_def by (intro keeps_rules keeps_loadAlwaysOn)

lemma keeps_deleteAlwaysOn: "quietHost calm h \<Longrightarrow> keeps Q (deleteAlwaysOn h i)"
  unfolding deleteAlwaysOn_def by (rule keeps_statement) (auto intro: always)

lemma keeps_syncAlwaysOn: "quietHost calm h \<Longrightarrow> keeps Q (syncAlwaysOnState h i p)"
  unfolding syncAlwaysOnState_def Let_def
  by (intro keeps_rules keeps_deleteAlwaysOn keeps_statement) (auto intro: always)

lemma keeps_setPreference: "Q s \<Longrightarrow> Q (setPreference h i p s)" "Q s \<Longrightarrow> Q (deletePreference i s)"
  by (simp_all add: setPreference_def deletePreference_def remembered)

lemma keeps_clearAlwaysOn: "quietHost calm h \<Longrightarrow> keeps Q (clearAlwaysOnState h m)"
  unfolding clearAlwaysOnState_def Let_def
  by (intro keeps_case keeps_preferenceWithAlwaysOn)
    (use keeps_deleteAlwaysOn [of h "profileID m"] in \<open>auto simp: keeps_def keeps_setPreference\<close>)

lemmas keeps_always = keeps_loadAlwaysOn keeps_preferenceWithAlwaysOn keeps_deleteAlwaysOn keeps_syncAlwaysOn keeps_clearAlwaysOn

subsection \<open>The bearers\<close>

lemma keeps_bearerPreferences: "quietModem calm m \<Longrightarrow> keeps Q (bearerPreferences h m b p)"
  unfolding bearerPreferences_def Let_def by (intro keeps_rules keeps_modem)

lemma keeps_routeStateForInterface: "quietHost calm h \<Longrightarrow> keeps Q (routeStateForInterface h n)"
  unfolding routeStateForInterface_def listDefaultRoutes_def by (intro keeps_rules keeps_host)

lemma keeps_SetMTU: "quietHost calm h \<Longrightarrow> keeps Q (SetMTU h n u)"
  unfolding SetMTU_def by (intro keeps_rules keeps_host)

lemma keeps_bearerLoop: "quietModem calm m \<Longrightarrow> keeps Q (bearerLoop m b bs)"
  by (induction bs arbitrary: b) (auto intro!: keeps_rules keeps_modem simp: Let_def)

lemma keeps_currentBearer: "quietModem calm m \<Longrightarrow> keeps Q (currentBearer m)"
  unfolding currentBearer_def by (intro keeps_rules keeps_modem keeps_bearerLoop)

lemma keeps_apnFromBearers: "quietModem calm m \<Longrightarrow> keeps Q (apnFromBearers m)"
  unfolding apnFromBearers_def by (intro keeps_rules keeps_modem keeps_currentBearer)

lemma keeps_recoverPreferences:
  "quietHost calm h \<Longrightarrow> quietModem calm m \<Longrightarrow> keeps Q (recoverPreferences h m b p)"
  unfolding recoverPreferences_def Let_def
  by (intro keeps_rules keeps_modem keeps_bearerPreferences keeps_routeStateForInterface)

lemma keeps_connectionFromBearer:
  "quietHost calm h \<Longrightarrow> quietModem calm m \<Longrightarrow> keeps Q (connectionFromBearer h m b p metric)"
  unfolding connectionFromBearer_def Let_def
  by (intro keeps_rules keeps_modem keeps_bearerPreferences)

lemma keeps_withProxyStatus:
  "quietHost calm h \<Longrightarrow> quietModem calm m \<Longrightarrow> keeps Q (withProxyStatus h m b p metric)"
  unfolding withProxyStatus_def by (intro keeps_rules keeps_connectionFromBearer)

lemma keeps_selectedAPN:
  "quietHost calm h \<Longrightarrow> quietModem calm m \<Longrightarrow> keeps Q (selectedAPN h m p)"
  unfolding selectedAPN_def Let_def
  by (intro keeps_rules keeps_apnFromBearers keeps_preferenceWithAlwaysOn)

lemma keeps_deleteBearersLoop: "quietModem calm m \<Longrightarrow> keeps Q (deleteBearersLoop m ns es bs)"
proof (induction bs arbitrary: ns es)
  case (Cons b bs)
  show ?case
    unfolding deleteBearersLoop_Cons Let_def by (intro keeps_rules keeps_modem Cons)
qed (simp add: keeps_def)

lemma keeps_deleteDisconnectedBearers: "quietModem calm m \<Longrightarrow> keeps Q (deleteDisconnectedBearers m)"
  unfolding deleteDisconnectedBearers_def by (intro keeps_rules keeps_modem keeps_deleteBearersLoop)

lemmas keeps_bearers =
  keeps_bearerPreferences keeps_routeStateForInterface keeps_SetMTU keeps_currentBearer keeps_apnFromBearers
  keeps_recoverPreferences keeps_connectionFromBearer keeps_withProxyStatus keeps_selectedAPN keeps_deleteDisconnectedBearers

subsection \<open>Cleaning up after what was left behind\<close>

lemma keeps_cleanupStale:
  "quietHost calm h \<Longrightarrow> (\<And>ns. keeps Q (restoreStale h i ns)) \<Longrightarrow> keeps Q (cleanupStaleConnectionState h i ns)"
  unfolding cleanupStaleConnectionState_def
  by (intro keeps_rules keeps_proxy) (auto intro!: keeps_rules keeps_host)

lemma keeps_cleanupConnectFailure:
  "quietHost calm h \<Longrightarrow> quietModem calm m \<Longrightarrow> (\<And>ns. keeps Q (restoreStale h (modemID m) ns)) \<Longrightarrow>
   keeps Q (cleanupConnectFailure h m)"
  unfolding cleanupConnectFailure_def Let_def by (intro keeps_rules keeps_bearers keeps_cleanupStale)

lemma keeps_resetConnectFailure:
  "quietHost calm h \<Longrightarrow> quietModem calm m \<Longrightarrow> (\<And>ns. keeps Q (restoreStale h (modemID m) ns)) \<Longrightarrow>
   keeps Q (resetConnectFailure h m)"
  unfolding resetConnectFailure_def by (intro keeps_rules keeps_modem keeps_cleanupConnectFailure)

lemma keeps_connectBearerAfterRecovery:
  "quietHost calm h \<Longrightarrow> quietModem calm m \<Longrightarrow> (\<And>ns. keeps Q (restoreStale h (modemID m) ns)) \<Longrightarrow>
   keeps Q (connectBearerAfterRecovery h m p es)"
  unfolding connectBearerAfterRecovery_def
  by (intro keeps_rules keeps_modem keeps_cleanupConnectFailure keeps_resetConnectFailure)

end

section \<open>Properties of the tracked connections\<close>

locale conn_frame =
  fixes Q :: "'k connector \<Rightarrow> bool"
  assumes net: "Q s \<Longrightarrow> Q (s\<lparr>net := w\<rparr>)"
    and conn_proxies: "Q s \<Longrightarrow> Q (s\<lparr>proxyStates := x\<rparr>)"
    and conn_always: "Q s \<Longrightarrow> Q (s\<lparr>alwaysOnStates := y\<rparr>)"
    and conn_remembered: "Q s \<Longrightarrow> Q (s\<lparr>preferences := z\<rparr>)"

sublocale conn_frame \<subseteq> frame Q "\<lambda>_. True"
  by unfold_locales (auto intro: net conn_proxies conn_always conn_remembered)

context conn_frame begin

lemma any_host [simp]: "quietHost (\<lambda>_. True) h"
  by (simp add: quietHost_def)

lemma any_modem [simp]: "quietModem (\<lambda>_. True) m"
  by (simp add: quietModem_def)

lemmas keeps_any = keeps_host [OF any_host] keeps_modem [OF any_modem] keeps_proxy [OF any_host]
  keeps_loadAlwaysOn [OF any_host] keeps_preferenceWithAlwaysOn [OF any_host] keeps_deleteAlwaysOn [OF any_host]
  keeps_syncAlwaysOn [OF any_host] keeps_clearAlwaysOn [OF any_host] keeps_bearerPreferences [OF any_modem]
  keeps_routeStateForInterface [OF any_host] keeps_SetMTU [OF any_host] keeps_currentBearer [OF any_modem]
  keeps_apnFromBearers [OF any_modem] keeps_recoverPreferences [OF any_host any_modem]
  keeps_connectionFromBearer [OF any_host any_modem] keeps_withProxyStatus [OF any_host any_modem]
  keeps_selectedAPN [OF any_host any_modem] keeps_deleteDisconnectedBearers [OF any_modem]

lemma keeps_onNet: "keeps Q (onNet f)"
  by (auto simp: keeps_def onNet_def net split: prod.split)

lemma keeps_restoreStale: "keeps Q (restoreStale h i ns)"
  unfolding restoreStale_def by (rule keeps_onNet)

lemmas keeps_cleaning = keeps_cleanupStale [OF any_host keeps_restoreStale]
  keeps_cleanupConnectFailure [OF any_host any_modem keeps_restoreStale]
  keeps_resetConnectFailure [OF any_host any_modem keeps_restoreStale]
  keeps_connectBearerAfterRecovery [OF any_host any_modem keeps_restoreStale]

lemma keeps_cleanupApplied: "keeps Q (cleanupApplied h t)"
  unfolding cleanupApplied_def
  by (intro keeps_rules keeps_onNet) (auto simp: deleteTrackedRoute_def intro: keeps_rules keeps_onNet keeps_any)

lemma keeps_release: "keeps Q (release h t es)"
  using keeps_cleanupApplied [of h t] by (simp add: keeps_def release_def)

lemma keeps_addAddresses: "keeps Q (addAddresses h as t)"
  by (induction as arbitrary: t) (auto intro!: keeps_rules keeps_any keeps_release)

lemma keeps_addTrackedRoute: "keeps Q (addTrackedRoute h r)"
  by (auto simp: keeps_def addTrackedRoute_def onWorld_def net split: prod.split option.split)

lemma keeps_addRoutes: "keeps Q (addRoutes h rs t)"
  by (induction rs arbitrary: t) (auto intro!: keeps_rules keeps_addTrackedRoute keeps_release)

lemma keeps_takeOver: "keeps Q (takeOver h i rs t)"
proof -
  have "keeps Q (\<lambda>s. case takeoverDefaultRoutesWithStore (rops h) i (interfaceName t) rs (net s) of
      ((es, changes), w) \<Rightarrow>
        if es \<noteq> [] then release h (t\<lparr>routeChanges := changes\<rparr>) (map RouteErr es) (s\<lparr>net := w\<rparr>)
        else (Inr (t\<lparr>routeChanges := changes\<rparr>), s\<lparr>net := w\<rparr>))"
    using keeps_cleanupApplied net by (auto simp: keeps_def release_def split: prod.split)
  then show ?thesis
    unfolding takeOver_def Let_def by (intro keeps_case keeps_list keeps_onNet keeps_release)
qed

lemma keeps_secondaryMetric: "keeps Q (secondaryMetric h p rs)"
  unfolding secondaryMetric_def listDefaultRoutes_def Let_def by (intro keeps_rules keeps_any)

lemma keeps_configureBearer: "keeps Q (configureBearer h m b p)"
  unfolding configureBearer_def
  by (intro keeps_rules keeps_any keeps_secondaryMetric keeps_addAddresses keeps_takeOver keeps_addRoutes)

lemma keeps_cleanupBearer: "keeps Q (cleanupBearer h m b p)"
  unfolding cleanupBearer_def Let_def by (intro keeps_rules keeps_any keeps_cleanupApplied)

lemma keeps_recoverChanges: "keeps Q (recoverChanges h i n p rs)"
proof -
  have "keeps Q (\<lambda>s. case takeoverDefaultRoutesWithStore (rops h) i n rs (net s) of
      ((es, changes), w) \<Rightarrow> if es \<noteq> [] then (Inl (map RouteErr es), s\<lparr>net := w\<rparr>) else (Inr changes, s\<lparr>net := w\<rparr>))"
    using net by (auto simp: keeps_def split: prod.split)
  then show ?thesis
    unfolding recoverChanges_def by (intro keeps_rules keeps_any)
qed

lemma keeps_recoverTracked: "keeps Q (recoverTrackedConnection h m b p)"
  unfolding recoverTrackedConnection_def rebuildTracked_def Let_def
  by (intro keeps_rules keeps_any keeps_recoverChanges)

lemma keeps_cleanupTracked: "keeps Q (cleanupTracked h i t)"
  unfolding cleanupTracked_def by (intro keeps_rules keeps_any keeps_cleanupApplied keeps_onNet)

lemma keeps_recoverFrom: "keeps Q (\<lambda>s. recoverPreferences h m b (x s) s)"
  by (rule keeps_arg) (rule keeps_recoverPreferences [OF any_host any_modem])

lemma keeps_disconnectUntracked: "keeps Q (disconnectUntracked h m b)"
  unfolding disconnectUntracked_def Let_def
  by (intro keeps_rules keeps_recoverFrom keeps_any keeps_cleanupBearer keeps_onNet keeps_restoreStale)

end

end
