(* ===== verification/ConnectorFlags.thy ===== *)
theory ConnectorFlags
  imports ConnectorFrame
begin

text \<open>
  The metric and the default-route flag of a tracked connection are copies of what its routes say.
  They follow when another modem takes the default route and when it gives it back, except when
  recording a takeover fails half way.
\<close>

section \<open>Flags that agree with the routes\<close>

definition flagsAgree :: "trackedConnection \<Rightarrow> bool" where
  "flagsAgree t \<longleftrightarrow> routes t \<noteq> [] \<longrightarrow>
     (let st = routeStateFromRoutes (routes t) (interfaceName t)
      in trackedMetric t = RecMetric st \<and> PrefDefaultRoute (prefs t) = RecDefaultRoute st)"

definition consistent :: "(string \<times> trackedConnection) list \<Rightarrow> bool" where
  "consistent conns \<longleftrightarrow> distinct (map fst conns) \<and> (\<forall>i t. map_of conns i = Some t \<longrightarrow> flagsAgree t)"

lemma consistent_update: "consistent conns \<Longrightarrow> flagsAgree t \<Longrightarrow> consistent (AList.update i t conns)"
  by (auto simp: consistent_def update_conv' distinct_update split: if_splits)

lemma consistent_delete: "consistent conns \<Longrightarrow> consistent (AList.delete i conns)"
  by (auto simp: consistent_def delete_conv' distinct_delete split: if_splits)

lemma consistent_member: "consistent conns \<Longrightarrow> (i, t) \<in> set conns \<Longrightarrow> flagsAgree t"
  by (auto simp: consistent_def)

interpretation flags: conn_frame "\<lambda>s. consistent (connections s)"
  by unfold_locales auto

section \<open>Where a connection gets its flags\<close>

lemma routeStateLoop_same:
  "\<forall>r\<in>set rs. Interface r = n \<and> Metric r = k \<Longrightarrow> routeStateLoop n (Some k) rs = Some k"
  by (induction rs) auto

lemma routeState_same:
  "rs \<noteq> [] \<Longrightarrow> \<forall>r\<in>set rs. Interface r = n \<and> Metric r = k \<Longrightarrow>
   routeStateFromRoutes rs n = \<lparr>Found = True, RecMetric = k, RecDefaultRoute = k \<le> defaultRouteMetric\<rparr>"
  by (cases rs) (simp_all add: routeStateFromRoutes_def routeStateLoop_same)

lemma flagsAgree_same:
  "\<forall>r\<in>set (routes t). Interface r = interfaceName t \<and> Metric r = trackedMetric t \<Longrightarrow>
   routes t \<noteq> [] \<longrightarrow> PrefDefaultRoute (prefs t) = (trackedMetric t \<le> defaultRouteMetric) \<Longrightarrow> flagsAgree t"
  using routeState_same [of "routes t" "interfaceName t" "trackedMetric t"]
  by (cases "routes t = []") (simp_all add: flagsAgree_def)

lemma swapTrackedRoute_agrees: "swapTrackedRoute old new t = Some t' \<Longrightarrow> flagsAgree t'"
  by (auto simp: swapTrackedRoute_def flagsAgree_def Let_def split: if_splits)

lemma preferencesWithDefaultAPN_default [simp]:
  "PrefDefaultRoute (preferencesWithDefaultAPNCredentials h m p) = PrefDefaultRoute p"
  by (auto simp: preferencesWithDefaultAPNCredentials_def normalizePreferences_def Let_def)

lemma bearerPreferences_default:
  assumes "bearerPreferences h m b p s = (p', s')"
  shows "PrefDefaultRoute p' = PrefDefaultRoute p"
proof -
  obtain a s1 where "onWorld (bearerProperties m b) s = (a, s1)" by fastforce
  with assms show ?thesis
    by (cases a) (auto simp: bearerPreferences_def normalizePreferences_def Let_def split: if_split_asm)
qed

lemma addressesAndRoutes_routes:
  "addressesAndRoutesWithMetric h n k includes ip4 ip6 = Inr (as, rs) \<Longrightarrow>
   (\<forall>r\<in>set rs. Interface r = n \<and> Metric r = k) \<and> (\<not> includes \<longrightarrow> rs = [])"
  by (cases "prefixFromIPConfig h ip4 FamilyIPv4"; cases "prefixFromIPConfig h ip6 FamilyIPv6")
    (auto simp: addressesAndRoutesWithMetric_def Let_def split: option.splits if_splits)

text \<open>What configuring a bearer returns.\<close>

lemma ebind_Inr:
  "ebind f g s = (Inr b, s') \<Longrightarrow> (\<And>a s1. f s = (Inr a, s1) \<Longrightarrow> g a s1 = (Inr b, s') \<Longrightarrow> thesis) \<Longrightarrow> thesis"
  by (cases "f s"; cases "fst (f s)") (auto simp: ebind_def)

lemma addAddresses_result: "addAddresses h as t s = (Inr t', s') \<Longrightarrow> t' = t\<lparr>addresses := addresses t @ as\<rparr>"
proof (induction as arbitrary: t s)
  case (Cons a as)
  obtain es s1 where e: "tryErr NetlinkErr (AddAddress h (interfaceName t) a) s = (es, s1)" by fastforce
  with Cons.prems have "es = []" by (cases es) (simp_all add: release_def)
  with Cons.prems e have "addAddresses h as (t\<lparr>addresses := addresses t @ [a]\<rparr>) s1 = (Inr t', s')" by simp
  from Cons.IH [OF this] show ?case by simp
qed (simp add: ok_def)

lemma addRoutes_result: "addRoutes h rs t s = (Inr t', s') \<Longrightarrow> t' = t\<lparr>routes := routes t @ rs\<rparr>"
proof (induction rs arbitrary: t s)
  case (Cons r rs)
  obtain es s1 where e: "addTrackedRoute h r s = (es, s1)" by fastforce
  with Cons.prems have "es = []" by (cases es) (simp_all add: release_def)
  with Cons.prems e have "addRoutes h rs (t\<lparr>routes := routes t @ [r]\<rparr>) s1 = (Inr t', s')" by simp
  from Cons.IH [OF this] show ?case by simp
qed (simp add: ok_def)

lemma takeOver_result:
  assumes "takeOver h i rs t s = (Inr t', s')"
  obtains s1 changes w where "onNet (restoreStaleDefaultRouteStatesWithStore (rops h) i [interfaceName t]) s = ([], s1)"
    "takeoverDefaultRoutesWithStore (rops h) i (interfaceName t) rs (net s1) = (([], changes), w)"
    "t' = t\<lparr>routeChanges := changes\<rparr>" "s' = s1\<lparr>net := w\<rparr>"
proof -
  obtain es s1 where r: "onNet (restoreStaleDefaultRouteStatesWithStore (rops h) i [interfaceName t]) s = (es, s1)"
    by fastforce
  with assms have es: "es = []" by (cases es) (simp_all add: takeOver_def release_def)
  obtain fs changes w where t: "takeoverDefaultRoutesWithStore (rops h) i (interfaceName t) rs (net s1) = ((fs, changes), w)"
    by (metis prod.collapse)
  with assms r es have "fs = []" by (cases fs) (simp_all add: takeOver_def release_def Let_def)
  with assms r es t that show ?thesis by (simp add: takeOver_def Let_def)
qed

lemma secondaryMetric_result:
  assumes "secondaryMetric h p rs s = (Inr (k, rs'), s')"
    and "\<forall>r\<in>set rs. Interface r = n \<and> Metric r = routeMetric (PrefDefaultRoute p)"
  shows "\<forall>r\<in>set rs'. Interface r = n \<and> Metric r = k" "rs' \<noteq> [] \<Longrightarrow> PrefDefaultRoute p = (k \<le> defaultRouteMetric)"
    "PrefDefaultRoute p \<Longrightarrow> rs' = rs \<and> s' = s"
proof -
  have k: "rs \<noteq> [] \<Longrightarrow> Metric (hd rs) = routeMetric (PrefDefaultRoute p)" using assms(2) by (cases rs) auto
  have nine: "9000 \<le> secondaryRouteMetricFor rs current" for current
    using freeMetric_ge [of secondaryRouteMetric] by (simp add: secondaryRouteMetricFor_def secondaryRouteMetric_def)
  have big: "\<not> secondaryRouteMetricFor rs current \<le> defaultRouteMetric" for current
    unfolding defaultRouteMetric_def using nine [of current] by linarith
  show "\<forall>r\<in>set rs'. Interface r = n \<and> Metric r = k" "rs' \<noteq> [] \<Longrightarrow> PrefDefaultRoute p = (k \<le> defaultRouteMetric)"
    "PrefDefaultRoute p \<Longrightarrow> rs' = rs \<and> s' = s"
    using assms k big by (auto simp: secondaryMetric_def Let_def ok_def setRouteMetric_def routeMetric_def
        split: if_splits elim!: ebind_Inr)
qed

lemma configureBearer_parts:
  assumes "configureBearer h m b p s = (Inr t, s')"
  obtains n s1 ip4 s2 ip6 s3 as rs0 k rs s4 u s5 v s6 t1 s7 t2 s8 where
    "tryVal ModemErr (bearerInterface m b) s = (Inr n, s1)" "trim_space n \<noteq> []"
    "tryVal ModemErr (bearerIP4 m b) s1 = (Inr ip4, s2)" "tryVal ModemErr (bearerIP6 m b) s2 = (Inr ip6, s3)"
    "addressesAndRoutes h n p ip4 ip6 = Inr (as, rs0)" "secondaryMetric h p rs0 s3 = (Inr (k, rs), s4)"
    "must (tryErr NetlinkErr (SetUp h n)) s4 = (Inr u, s5)"
    "must (SetMTU h n (max (MTU ip4) (MTU ip6))) s5 = (Inr v, s6)"
    "addAddresses h as \<lparr>bearerPath = [], interfaceName = n, trackedProfile = [], prefs = noPreferences,
       trackedMetric = k, addresses = [], routes = [], routeChanges = []\<rparr> s6 = (Inr t1, s7)"
    "(if PrefDefaultRoute p then takeOver h (modemID m) rs t1 else ok t1) s7 = (Inr t2, s8)"
    "addRoutes h rs t2 s8 = (Inr t, s')"
proof -
  from assms obtain n s1 where n: "tryVal ModemErr (bearerInterface m b) s = (Inr n, s1)" "trim_space n \<noteq> []"
    and "ebind (tryVal ModemErr (bearerIP4 m b)) (\<lambda>ip4.
     ebind (tryVal ModemErr (bearerIP6 m b)) (\<lambda>ip6.
     case addressesAndRoutes h n p ip4 ip6 of
       Inl e \<Rightarrow> fail [e]
     | Inr (as, rs) \<Rightarrow>
         ebind (secondaryMetric h p rs) (\<lambda>(metric, rs).
         ebind (must (tryErr NetlinkErr (SetUp h n))) (\<lambda>_.
         ebind (must (SetMTU h n (max (MTU ip4) (MTU ip6)))) (\<lambda>_.
         ebind (addAddresses h as
                  \<lparr>bearerPath = [], interfaceName = n, trackedProfile = [], prefs = noPreferences,
                   trackedMetric = metric, addresses = [], routes = [], routeChanges = []\<rparr>) (\<lambda>t.
         ebind (if PrefDefaultRoute p then takeOver h (modemID m) rs t else ok t)
           (addRoutes h rs))))))) s1 = (Inr t, s')"
    unfolding configureBearer_def by (elim ebind_Inr) (auto simp: fail_def split: if_splits)
  then obtain ip4 s2 ip6 s3 where ip: "tryVal ModemErr (bearerIP4 m b) s1 = (Inr ip4, s2)"
      "tryVal ModemErr (bearerIP6 m b) s2 = (Inr ip6, s3)"
    and rest: "(case addressesAndRoutes h n p ip4 ip6 of
       Inl e \<Rightarrow> fail [e]
     | Inr (as, rs) \<Rightarrow>
         ebind (secondaryMetric h p rs) (\<lambda>(metric, rs).
         ebind (must (tryErr NetlinkErr (SetUp h n))) (\<lambda>_.
         ebind (must (SetMTU h n (max (MTU ip4) (MTU ip6)))) (\<lambda>_.
         ebind (addAddresses h as
                  \<lparr>bearerPath = [], interfaceName = n, trackedProfile = [], prefs = noPreferences,
                   trackedMetric = metric, addresses = [], routes = [], routeChanges = []\<rparr>) (\<lambda>t.
         ebind (if PrefDefaultRoute p then takeOver h (modemID m) rs t else ok t)
           (addRoutes h rs)))))) s3 = (Inr t, s')"
    by (elim ebind_Inr) blast
  obtain as rs0 where ar: "addressesAndRoutes h n p ip4 ip6 = Inr (as, rs0)"
    using rest by (cases "addressesAndRoutes h n p ip4 ip6") (auto simp: fail_def)
  show ?thesis
    by (rule ebind_Inr [OF rest [unfolded ar sum.case prod.case]], simp only: split_paired_all prod.case, elim ebind_Inr, intro that [OF n ip ar], assumption+)
qed

lemma configureBearer_agrees:
  assumes "configureBearer h m b p s = (Inr t, s')"
  shows "flagsAgree (t\<lparr>bearerPath := b', trackedProfile := i, prefs := p\<rparr>)"
  using assms
proof (cases rule: configureBearer_parts)
  case (1 n s1 ip4 s2 ip6 s3 as rs0 k rs s4 u s5 v s6 t1 s7 t2 s8)
  note r0 = addressesAndRoutes_routes [OF 1(5) [unfolded addressesAndRoutes_def], THEN conjunct1]
  note m = secondaryMetric_result [OF 1(6) r0]
  have "\<exists>cs. t2 = t1\<lparr>routeChanges := cs\<rparr>"
  proof (cases "PrefDefaultRoute p")
    case True
    with 1(10) have "takeOver h (modemID m) rs t1 s7 = (Inr t2, s8)" by simp
    then show ?thesis by (rule takeOver_result) blast
  next
    case False
    with 1(10) have "t2 = t1\<lparr>routeChanges := routeChanges t1\<rparr>" by (simp add: ok_def)
    then show ?thesis by blast
  qed
  then have "routes t = rs" "interfaceName t = n" "trackedMetric t = k"
    using addRoutes_result [OF 1(11)] addAddresses_result [OF 1(9)] by auto
  with m(1,2) show ?thesis by (intro flagsAgree_same) simp_all
qed

text \<open>What is read back after a restart.\<close>

lemma routeState_default:
  "routeStateForInterface h n s = (st, s') \<Longrightarrow> Found st \<Longrightarrow> RecDefaultRoute st = (RecMetric st \<le> defaultRouteMetric)"
  by (auto simp: routeStateForInterface_def routeStateFromRoutes_def split: prod.splits sum.splits option.splits)

lemma rebuildTracked_agrees:
  assumes "rebuildTracked h i b n p ip4 ip6 st s = (Inr (Some (t, k)), s')"
    and "Found st \<longrightarrow> RecDefaultRoute st = (RecMetric st \<le> defaultRouteMetric)"
  shows "flagsAgree t"
proof -
  define metric where "metric = (if Found st then RecMetric st else 0)"
  define q where "q = (if Found st then p\<lparr>PrefDefaultRoute := RecDefaultRoute st\<rparr> else p)"
  obtain as rs where ar: "addressesAndRoutesWithMetric h n metric (Found st) ip4 ip6 = Inr (as, rs)"
    using assms(1) unfolding rebuildTracked_def Let_def metric_def [symmetric]
    by (cases "addressesAndRoutesWithMetric h n metric (Found st) ip4 ip6")
      (auto simp: ok_def fail_def elim!: ebind_Inr split: if_split_asm)
  have t: "routes t = rs" "interfaceName t = n" "trackedMetric t = metric"
    "PrefDefaultRoute (prefs t) = PrefDefaultRoute q"
    using assms(1) ar unfolding rebuildTracked_def Let_def metric_def [symmetric] q_def [symmetric]
    by (auto simp: ok_def elim!: ebind_Inr split: if_split_asm)
  have "rs \<noteq> [] \<longrightarrow> PrefDefaultRoute q = (metric \<le> defaultRouteMetric)"
    using addressesAndRoutes_routes [OF ar] assms(2) by (auto simp: q_def metric_def)
  then show ?thesis
    using t addressesAndRoutes_routes [OF ar] by (intro flagsAgree_same) auto
qed

lemma recoverTracked_agrees:
  assumes "recoverTrackedConnection h m b fallback s = (Inr (Some (t, k)), s')"
  shows "flagsAgree t"
proof -
  obtain p s0 where p: "recoverPreferences h m b fallback s = (p, s0)" by fastforce
  obtain n ip4 ip6 s3 st s4 where "routeStateForInterface h n s3 = (st, s4)"
    "rebuildTracked h (modemID m) b n p ip4 ip6 st s4 = (Inr (Some (t, k)), s')"
    using assms unfolding recoverTrackedConnection_def p Let_def prod.case
    by (auto simp: ok_def elim!: ebind_Inr split: if_split_asm prod.splits)
  then show ?thesis by (rule_tac rebuildTracked_agrees) (blast dest: routeState_default)+
qed

lemma flagsAgree_cong:
  "routes t' = routes t \<Longrightarrow> interfaceName t' = interfaceName t \<Longrightarrow> trackedMetric t' = trackedMetric t \<Longrightarrow>
   PrefDefaultRoute (prefs t') = PrefDefaultRoute (prefs t) \<Longrightarrow> flagsAgree t' = flagsAgree t"
  by (simp add: flagsAgree_def)

section \<open>The owners of a default route\<close>

lemma demoteLoop_owners:
  "demoteLoop cs owners conns affected = (owners', conns', affected') \<Longrightarrow> consistent owners \<Longrightarrow>
   set affected \<subseteq> fst ` set owners \<Longrightarrow> \<forall>i. i \<notin> set affected \<longrightarrow> map_of conns i = map_of owners i \<Longrightarrow>
   map fst conns = map fst owners \<Longrightarrow>
   consistent owners' \<and> set affected' \<subseteq> fst ` set owners' \<and> map fst conns' = map fst owners' \<and>
   (\<forall>i. i \<notin> set affected' \<longrightarrow> map_of conns' i = map_of owners' i) \<and> set affected \<subseteq> set affected' \<and>
   (affected' = [] \<longrightarrow> conns' = conns)"
proof (induction cs arbitrary: owners conns affected)
  case (Cons c cs)
  consider (none) "demoteLoop (c # cs) owners conns affected = demoteLoop cs owners conns affected"
    | (some) i owner owner' where "routeChangeOwner owners c = Some (i, owner)" "demoteTrackedRoute owner c = Some owner'"
    by (cases "routeChangeOwner owners c"; cases "demoteTrackedRoute (snd (the (routeChangeOwner owners c))) c")
      (auto split: prod.splits)
  then show ?case
  proof cases
    case none
    with Cons show ?thesis by simp
  next
    case some
    let ?owners = "AList.update i owner' owners" and ?affected = "List.insert i affected"
    let ?conns = "AList.map_entry i (\<lambda>t. t\<lparr>routes := routes owner'\<rparr>) conns"
    have i: "i \<in> fst ` set owners"
      using some(1) unfolding routeChangeOwner_def by (metis find_Some_iff fst_conv image_eqI nth_mem)
    have run: "demoteLoop cs ?owners ?conns ?affected = (owners', conns', affected')"
      using Cons.prems(1) some by simp
    have keys: "map fst ?owners = map fst owners" "map fst ?conns = map fst conns"
      using i by (simp_all add: update_keys)
        (induction conns; auto)+
    have "consistent ?owners"
      using consistent_update [OF Cons.prems(2)] swapTrackedRoute_agrees some(2) by (simp add: demoteTrackedRoute_def)
    moreover have "\<forall>j. j \<notin> set ?affected \<longrightarrow> map_of ?conns j = map_of ?owners j"
      using Cons.prems(4) by (auto simp: map_of_map_entry update_conv')
    moreover have "set ?affected \<subseteq> fst ` set ?owners"
      using Cons.prems(3) i keys(1) by (metis insert_subset list.set_map set_insert)
    ultimately have "consistent owners' \<and> set affected' \<subseteq> fst ` set owners' \<and> map fst conns' = map fst owners' \<and>
       (\<forall>i. i \<notin> set affected' \<longrightarrow> map_of conns' i = map_of owners' i) \<and> set ?affected \<subseteq> set affected'"
      using Cons.IH [OF run] keys Cons.prems(5) by simp
    then show ?thesis by auto
  qed
qed simp

lemma restoreOwnersLoop_consistent:
  "restoreOwnersLoop cs owners affected = (owners', affected') \<Longrightarrow> consistent owners \<Longrightarrow> consistent owners'"
proof (induction cs arbitrary: owners affected)
  case (Cons c cs)
  consider (none) "restoreOwnersLoop (c # cs) owners affected = restoreOwnersLoop cs owners affected"
    | (some) i owner owner' where "restoredRouteOwner owners c = Some (i, owner)" "restoreTrackedRoute owner c = Some owner'"
    by (cases "restoredRouteOwner owners c"; cases "restoreTrackedRoute (snd (the (restoredRouteOwner owners c))) c")
      (auto split: prod.splits)
  then show ?case
  proof cases
    case none
    with Cons show ?thesis by simp
  next
    case some
    then have "restoreOwnersLoop cs (AList.update i owner' owners) (List.insert i affected) = (owners', affected')"
      using Cons.prems(1) by simp
    moreover have "flagsAgree owner'" using some(2) swapTrackedRoute_agrees by (simp add: restoreTrackedRoute_def)
    ultimately show ?thesis using Cons.IH consistent_update [OF Cons.prems(2)] by blast
  qed
qed simp

lemma commitOwner_connections:
  "map_of (connections (commitOwner owners i s)) =
     (case map_of owners i of None \<Rightarrow> map_of (connections s) | Some t \<Rightarrow> (map_of (connections s))(i \<mapsto> t))"
  by (simp add: commitOwner_def update_conv' split: option.split)

lemma commitOwner_distinct:
  "distinct (map fst (connections s)) \<Longrightarrow> distinct (map fst (connections (commitOwner owners i s)))"
  by (simp add: commitOwner_def distinct_update split: option.split)

lemma commitOwners:
  "set is \<subseteq> fst ` set owners \<Longrightarrow> distinct (map fst (connections s)) \<Longrightarrow>
   distinct (map fst (connections (fold (commitOwner owners) is s))) \<and>
   (\<forall>i. map_of (connections (fold (commitOwner owners) is s)) i =
     (if i \<in> set is then map_of owners i else map_of (connections s) i))"
proof (induction "is" arbitrary: s)
  case (Cons j js)
  obtain t where t: "map_of owners j = Some t"
    using Cons.prems(1) by (metis domIff dom_map_of_conv_image_fst insert_subset list.set(2) not_None_eq)
  with Cons commitOwner_distinct [OF Cons.prems(2)] show ?case
    by (auto simp: commitOwner_connections)
qed simp

lemma consistent_commitOwner:
  "consistent owners \<Longrightarrow> consistent (connections s) \<Longrightarrow> consistent (connections (commitOwner owners i s))"
  by (auto simp: commitOwner_def consistent_update consistent_def [of owners] split: option.split)

lemma keeps_commitRestored:
  "consistent owners \<Longrightarrow> keeps (\<lambda>s. consistent (connections s)) (commitRestored h owners is)"
proof (induction "is")
  case (Cons i "is")
  have "keeps (\<lambda>s. consistent (connections s)) (\<lambda>s. (case map_of owners i of
       None \<Rightarrow> commitRestored h owners is
     | Some owner \<Rightarrow>
         if AlwaysOn (prefs owner)
         then joinErr (syncAlwaysOnState h (trackedProfile owner) (prefs owner)) (commitRestored h owners is)
         else commitRestored h owners is) s)"
    by (intro keeps_rules flags.keeps_any Cons)
  then show ?case
    using consistent_commitOwner [OF Cons.prems] by (auto simp: keeps_def Let_def split: option.splits)
qed (simp add: keeps_noErr)

lemma keeps_syncRestore: "keeps (\<lambda>s. consistent (connections s)) (syncDefaultRouteRestore h changes)"
proof (rule keepsI)
  fix s r s'
  assume run: "syncDefaultRouteRestore h changes s = (r, s')" and c: "consistent (connections s)"
  obtain owners affected where l: "restoreOwnersLoop (rev changes) (connections s) [] = (owners, affected)" by fastforce
  from run l have "commitRestored h owners affected s = (r, s')" by (simp add: syncDefaultRouteRestore_def)
  with keepsD [OF keeps_commitRestored [OF restoreOwnersLoop_consistent [OF l c]]] c
  show "consistent (connections s')" by blast
qed

lemma keeps_saveInherited: "keeps (\<lambda>s. consistent (connections s)) (saveInherited h owners)"
  by (induction owners) (auto intro!: keeps_rules flags.keeps_onNet)

lemma inheritedOwners_member:
  assumes "(i, t) \<in> set (inheritedOwners removed conns)"
  obtains owner cs where "(i, owner) \<in> set conns" "t = owner\<lparr>routeChanges := cs\<rparr>"
  using assms by (auto simp: inheritedOwners_def split: if_split_asm prod.splits)

lemma keeps_syncRemoval: "keeps (\<lambda>s. consistent (connections s)) (syncDefaultRouteRemoval h removed)"
proof (rule keepsI)
  fix s r s'
  assume run: "syncDefaultRouteRemoval h removed s = (r, s')" and c: "consistent (connections s)"
  let ?a = "inheritedOwners removed (connections s)"
  let ?Q = "\<lambda>s. consistent (connections s)"
  have ok: "list_all (\<lambda>(i, t). flagsAgree t) ?a"
  proof (clarsimp simp: list_all_iff)
    fix i t assume "(i, t) \<in> set ?a"
    then obtain owner cs where "(i, owner) \<in> set (connections s)" "t = owner\<lparr>routeChanges := cs\<rparr>"
      by (rule inheritedOwners_member)
    with consistent_member [OF c] show "flagsAgree t" using flagsAgree_cong [of t owner] by simp
  qed
  have "consistent (fold (\<lambda>(i, t). AList.update i t) ts conns)"
    if "list_all (\<lambda>(i, t). flagsAgree t) ts" "consistent conns" for ts conns
    using that by (induction ts arbitrary: conns) (auto intro: consistent_update)
  then have "keeps ?Q (\<lambda>s. ([], s\<lparr>connections := fold (\<lambda>(i, owner). AList.update i owner) ?a (connections s)\<rparr>))"
    using ok by (simp add: keeps_def)
  then have "keeps ?Q (thenErr (saveInherited h ?a)
      (\<lambda>s. ([], s\<lparr>connections := fold (\<lambda>(i, owner). AList.update i owner) ?a (connections s)\<rparr>)))"
    by (intro keeps_thenErr keeps_saveInherited)
  with run c show "?Q s'"
    by (auto simp: syncDefaultRouteRemoval_def Let_def dest: keepsD split: if_splits)
qed

section \<open>The operations\<close>

abbreviation (input) agreeing :: "'k connector \<Rightarrow> bool" where
  "agreeing \<equiv> \<lambda>s. consistent (connections s)"

lemma deleteConnection_agreeing: "agreeing s \<Longrightarrow> agreeing (deleteConnection i s)"
  by (simp add: deleteConnection_def consistent_delete)

lemma setConnection_agreeing: "flagsAgree t \<Longrightarrow> agreeing s \<Longrightarrow> agreeing (setConnectionAndPreference h i t p s)"
  by (simp add: setConnectionAndPreference_def consistent_update)

lemma keeps_syncCleanedUp: "keeps agreeing (syncCleanedUpDefaultRouteState h t)"
  unfolding syncCleanedUpDefaultRouteState_def by (intro keeps_if keeps_syncRestore keeps_syncRemoval)

lemma keeps_disconnectTracked: "keeps agreeing (disconnectTracked h m t)"
proof -
  have "keeps agreeing (joinErr (thenErr (cleanupTracked h (modemID m) t) (syncCleanedUpDefaultRouteState h t))
          (joinErr (tryErr ModemErr (disconnectBearer m (bearerPath t))) (restoreStale h (modemID m) [])))"
    by (intro keeps_rules flags.keeps_cleanupTracked keeps_syncCleanedUp flags.keeps_any flags.keeps_restoreStale)
  then show ?thesis
    unfolding disconnectTracked_def Let_def
    by (rule keeps_case) (auto simp: keeps_def deleteConnection_agreeing)
qed

lemma keeps_disconnect: "keeps agreeing (disconnectModem h m b)"
  unfolding disconnectModem_def
  by (intro keeps_rules flags.keeps_any keeps_disconnectTracked flags.keeps_cleaning flags.keeps_disconnectUntracked)

lemma keeps_Restore: "keeps agreeing (Restore h m)"
  unfolding Restore_def Let_def
  by (rule keeps_case [OF keeps_disconnect])
    (auto simp: keeps_def deleteConnectionAndPreference_def deletePreference_def deleteConnection_agreeing)

lemma keeps_rememberPreference: "keeps agreeing (\<lambda>s. (r s, setPreference h i p s))"
  by (simp add: keeps_def setPreference_def)

lemma keeps_tracking:
  "flagsAgree t \<Longrightarrow> keeps agreeing f \<Longrightarrow> keeps agreeing (\<lambda>s. f (setConnectionAndPreference h i t p s))"
  "flagsAgree t \<Longrightarrow> keeps agreeing (\<lambda>s. (r s, setConnectionAndPreference h i t p s))"
  by (simp_all add: keeps_def setConnection_agreeing)

lemma keeps_dropping: "keeps agreeing f \<Longrightarrow> keeps agreeing (\<lambda>s. f (deleteConnection i s))"
  by (simp add: keeps_def deleteConnection_agreeing)

lemma keeps_shown:
  "flagsAgree t \<Longrightarrow> keeps agreeing (\<lambda>s. withProxyStatus h m b p k (setConnectionAndPreference h i t q s))"
  by (intro keeps_tracking(1) flags.keeps_withProxyStatus [OF flags.any_host flags.any_modem])

text \<open>A recovered connection is tracked and shown.\<close>

lemma keeps_retracked:
  "keeps agreeing (ebind (recoverTrackedConnection h m b p) (\<lambda>r.
     case r of
       None \<Rightarrow> fail [ErrUnsupportedIPMethod]
     | Some (t, metric) \<Rightarrow> (\<lambda>s. withProxyStatus h m b' (q t) metric
         (setConnectionAndPreference h i
            (t\<lparr>prefs := preferencesWithDefaultAPNCredentials h m (prefs t), trackedProfile := n\<rparr>) (q t) s))))"
proof (rule keeps_ebind_value [OF flags.keeps_recoverTracked])
  fix s r s' assume "recoverTrackedConnection h m b p s = (Inr r, s')"
  then show "case r of None \<Rightarrow> True | Some (t, k) \<Rightarrow> flagsAgree t"
    by (auto split: option.split intro: recoverTracked_agrees)
next
  fix r :: "(trackedConnection \<times> int) option" assume r: "case r of None \<Rightarrow> True | Some (t, k) \<Rightarrow> flagsAgree t"
  show "keeps agreeing (case r of
       None \<Rightarrow> fail [ErrUnsupportedIPMethod]
     | Some (t, metric) \<Rightarrow> (\<lambda>s. withProxyStatus h m b' (q t) metric
         (setConnectionAndPreference h i
            (t\<lparr>prefs := preferencesWithDefaultAPNCredentials h m (prefs t), trackedProfile := n\<rparr>) (q t) s)))"
  proof (cases r)
    case (Some x)
    obtain t k where x: "x = (t, k)" by fastforce
    have "flagsAgree (t\<lparr>prefs := preferencesWithDefaultAPNCredentials h m (prefs t), trackedProfile := n\<rparr>)"
      using r Some x by (simp add: flagsAgree_def)
    then show ?thesis unfolding Some x option.case prod.case by (rule keeps_shown)
  qed (simp add: keeps_fail)
qed

lemma keeps_currentUntracked: "keeps agreeing (currentUntracked h m p stale)"
  unfolding currentUntracked_def Let_def
  by (rule keeps_ebind [OF flags.keeps_currentBearer [OF flags.any_modem]], intro keeps_pair' keeps_option' keeps_if)
    ((rule keeps_retracked)[1] | (intro keeps_ebind keeps_must keeps_case keeps_ok flags.keeps_any flags.keeps_cleaning keeps_rememberPreference)[1])+

lemma keeps_afterDropping:
  "keeps agreeing (\<lambda>s. bearerPreferences h m b p (deleteConnection i s))"
  "keeps agreeing (\<lambda>s. currentUntracked h m p stale (deleteConnection i s))"
  using keeps_dropping [OF flags.keeps_bearerPreferences [OF flags.any_modem]] keeps_dropping [OF keeps_currentUntracked]
  by blast+

lemma keeps_currentDisconnected: "keeps agreeing (currentDisconnected h m t)"
  unfolding currentDisconnected_def Let_def
  by (rule keeps_ebind, rule keeps_must,
      intro keeps_joinErr keeps_thenErr flags.keeps_cleanupTracked keeps_syncCleanedUp flags.keeps_restoreStale)
    (rule keeps_case, rule keeps_afterDropping, rule keeps_rememberPreference)

text \<open>A tracked connection that is looked up agrees with its routes.\<close>

lemma keeps_lookup:
  assumes "keeps agreeing f" and "\<And>t. flagsAgree t \<Longrightarrow> keeps agreeing (g t)"
  shows "keeps agreeing (\<lambda>s. case connection i s of None \<Rightarrow> f s | Some t \<Rightarrow> g t s)"
proof (rule keepsI)
  fix s r s'
  assume run: "(case connection i s of None \<Rightarrow> f s | Some t \<Rightarrow> g t s) = (r, s')" and c: "agreeing s"
  show "agreeing s'"
  proof (cases "connection i s")
    case None
    with run keepsD [OF assms(1) _ c] show ?thesis by simp
  next
    case (Some t)
    then have "flagsAgree t" using c by (simp add: connection_def consistent_def)
    with run Some keepsD [OF assms(2) _ c] show ?thesis by simp
  qed
qed

lemma keeps_current: "keeps agreeing (currentOf h m)"
proof -
  have t: "flagsAgree (t\<lparr>prefs := preferencesWithDefaultAPNCredentials h m (prefs t)\<rparr>) = flagsAgree t" for t
    by (simp add: flagsAgree_def)
  show ?thesis
    unfolding currentOf_def Let_def
    by (intro keeps_case [OF flags.keeps_preferenceWithAlwaysOn [OF flags.any_host]] keeps_lookup keeps_currentUntracked)
      (intro keeps_rules flags.keeps_modem [OF flags.any_modem] keeps_afterDropping keeps_currentDisconnected keeps_shown; simp add: t)
qed

lemma keeps_recoverModem: "keeps agreeing (recoverModem h m)"
proof (rule keepsI)
  fix s r s'
  assume run: "recoverModem h m s = (r, s')" and c: "agreeing s"
  obtain p s1 where p: "preferenceWithAlwaysOn h m s = (p, s1)" by fastforce
  obtain x s2 where x: "currentBearer m s1 = (x, s2)" by fastforce
  have c2: "agreeing s2"
    using keepsD [OF flags.keeps_currentBearer [OF flags.any_modem] x]
      keepsD [OF flags.keeps_preferenceWithAlwaysOn [OF flags.any_host] p c] by blast
  note run = run [unfolded recoverModem_def p Let_def prod.case x]
  consider (stop) es where "x = Inl es" | (none) f where "x = Inr (None, f)" | (off) b where "x = Inr (Some b, False)"
    | (on) b where "x = Inr (Some b, True)"
  proof (cases x)
    case (Inr y)
    obtain o' f where "y = (o', f)" by fastforce
    with Inr none off on show thesis by (cases o'; cases f) blast+
  qed blast
  then show "agreeing s'"
  proof cases
    case stop
    with run c2 show ?thesis by simp
  next
    case none
    with run c2 keepsD [OF flags.keeps_cleaning(1)] show ?thesis by auto
  next
    case off
    have "keeps agreeing (\<lambda>s. case onWorld (bearerInterface m b) s of (r, s) \<Rightarrow>
        thenErr (cleanupStaleConnectionState h (modemID m) (case r of Inl e \<Rightarrow> [] | Inr n \<Rightarrow> [n]))
          (\<lambda>s. case bearerPreferences h m b p s of (p, s) \<Rightarrow>
             ([], setPreference h (modemID m) (preferencesWithSelectedAPN h m p) s)) s)"
      by (intro keeps_case keeps_thenErr flags.keeps_modem flags.keeps_bearerPreferences flags.any_modem
          flags.keeps_cleaning keeps_rememberPreference)
    with off run c2 show ?thesis by (auto dest: keepsD)
  next
    case on
    obtain y s3 where y: "recoverTrackedConnection h m b p s2 = (y, s3)" by fastforce
    have c3: "agreeing s3" using keepsD [OF flags.keeps_recoverTracked y c2] .
    show ?thesis
    proof (cases "\<exists>t k. y = Inr (Some (t, k))")
      case True
      then obtain t k where t: "y = Inr (Some (t, k))" by blast
      let ?t = "t\<lparr>prefs := preferencesWithDefaultAPNCredentials h m (prefs t), trackedProfile := profileID m\<rparr>"
      have "flagsAgree ?t" using recoverTracked_agrees [OF y [unfolded t]] by (simp add: flagsAgree_def)
      then have "keeps agreeing (thenErr (syncProxyPreference h (modemID m) (interfaceName ?t) (prefs ?t))
          (\<lambda>s. ([], setConnectionAndPreference h (modemID m) ?t (prefs ?t) s)))"
        by (intro keeps_thenErr flags.keeps_syncProxyPreference flags.any_host keeps_tracking(2))
      with run on y t c3 show ?thesis by (auto dest: keepsD)
    next
      case False
      with run on y c3 show ?thesis by (auto split: sum.splits option.splits)
    qed
  qed
qed

lemma keeps_Recover: "keeps agreeing (Recover h ms)"
  unfolding Recover_def by (rule keeps_joinAll) (auto intro: keeps_recoverModem)

text \<open>Recording a takeover, when it succeeds.\<close>

interpretation same: conn_frame "\<lambda>s. connections s = C" for C
  by unfold_locales auto

lemma same_syncOwners: "keeps (\<lambda>s. connections s = C) (syncOwners h owners is)"
  by (induction "is") (auto intro!: keeps_rules same.keeps_syncAlwaysOn split: option.split)

lemma syncTakeover_agreeing:
  assumes "syncDefaultRouteTakeover h i t s = ([], s')" and "agreeing s"
  shows "agreeing s'"
proof (cases "routeChanges t = []")
  case False
  obtain owners conns affected where
    l: "demoteLoop (routeChanges t) (connections s) (connections s) [] = (owners, conns, affected)" by (metis prod.collapse)
  note d = demoteLoop_owners [OF l assms(2)]
  show ?thesis
  proof (cases "affected = []")
    case True
    with assms False l d show ?thesis by (simp add: syncDefaultRouteTakeover_def)
  next
    case some: False
    let ?save = "onNet (putRouteStateForModem (rops h) i (interfaceName t) (routes t) (routeChanges t))"
    have run: "thenErr ?save (thenErr (syncOwners h owners affected) (\<lambda>s. ([], fold (commitOwner owners) affected s)))
        (s\<lparr>connections := conns\<rparr>) = ([], s')"
      using assms(1) False l some by (simp add: syncDefaultRouteTakeover_def)
    obtain s1 where s1: "?save (s\<lparr>connections := conns\<rparr>) = ([], s1)"
      and run1: "thenErr (syncOwners h owners affected) (\<lambda>s. ([], fold (commitOwner owners) affected s)) s1 = ([], s')"
      using run by (auto simp: thenErr_def split: prod.splits list.splits)
    obtain s2 where s2: "syncOwners h owners affected s1 = ([], s2)" and s': "s' = fold (commitOwner owners) affected s2"
      using run1 by (auto simp: thenErr_def split: prod.splits list.splits)
    have "connections s1 = conns" using keepsD [OF same.keeps_onNet s1] by simp
    then have "connections s2 = conns" using keepsD [OF same_syncOwners s2] by simp
    with commitOwners [of affected owners s2] d show ?thesis
      unfolding s' by (auto simp: consistent_def)
  qed
qed (use assms in \<open>simp add: syncDefaultRouteTakeover_def\<close>)

lemma orAbandon_Inr: "orAbandon h m b t f s = (Inr a, s') \<Longrightarrow> f s = (Inr a, s')"
  by (cases "f s"; cases "fst (f s)") (auto simp: orAbandon_def abandon_def joinErr_def Let_def split: prod.splits)

lemma must_Inr: "must f s = (Inr u, s') \<Longrightarrow> f s = ([], s')"
  by (cases "f s"; cases "fst (f s)") (auto simp: must_def)

lemma finishConnect_parts:
  assumes "finishConnect h m b p t s = (Inr c, s')"
  obtains s1 s2 s3 s4 s5 where
    "syncProxyPreference h (modemID m) (interfaceName t) p s = ([], s1)"
    "(if ProxyEnabled p then saveProxyStateForModem h (modemID m) (interfaceName t) s1 = ([], s2) else s2 = s1)"
    "withProxyStatus h m b p (trackedMetric t) s2 = (Inr c, s3)" "syncAlwaysOnState h (profileID m) p s3 = ([], s4)"
    "syncDefaultRouteTakeover h (modemID m) t s4 = ([], s5)" "s' = setConnectionAndPreference h (modemID m) t p s5"
proof -
  from assms obtain s1 a2 s2 c3 s3 s4 s5 where
    p: "syncProxyPreference h (modemID m) (interfaceName t) p s = ([], s1)"
    and sv: "(if ProxyEnabled p then orAbandon h m b t (must (saveProxyStateForModem h (modemID m) (interfaceName t)))
        else ok ()) s1 = (Inr a2, s2)"
    and rest: "withProxyStatus h m b p (trackedMetric t) s2 = (Inr c3, s3)" "syncAlwaysOnState h (profileID m) p s3 = ([], s4)"
      "syncDefaultRouteTakeover h (modemID m) t s4 = ([], s5)"
      "(Inr c3, setConnectionAndPreference h (modemID m) t p s5) = (Inr c, s' :: 'a connector)"
    unfolding finishConnect_def by (elim ebind_Inr) (blast dest: orAbandon_Inr must_Inr)
  have "if ProxyEnabled p then saveProxyStateForModem h (modemID m) (interfaceName t) s1 = ([], s2) else s2 = s1"
    using sv by (auto simp: ok_def intro: must_Inr [OF orAbandon_Inr])
  with that p rest show ?thesis by simp
qed

lemma connectModem_parts:
  assumes "connectModem h m p0 clear s = (Inr c, s')"
  obtains p1 s1 s2 b s3 p s4 t s5 where
    "selectedAPN h m (normalizePreferences h p0) s = (Inr p1, s1)"
    "disconnectModem h m clear s1 = ([], s2)"
    "(case tryVal ModemErr (connectBearer m (bearerPropertiesFromPreferences
         (preferencesWithDefaultAPNCredentials h m p1))) s2 of
        (Inr b, s) \<Rightarrow> (Inr b, s)
      | (Inl es, s) \<Rightarrow> connectBearerAfterRecovery h m (preferencesWithDefaultAPNCredentials h m p1) es s) = (Inr b, s3)"
    "bearerPreferences h m b (preferencesWithDefaultAPNCredentials h m p1) s3 = (p, s4)"
    "configureBearer h m b p s4 = (Inr t, s5)"
    "finishConnect h m b p (t\<lparr>bearerPath := b, trackedProfile := profileID m, prefs := p\<rparr>) s5 = (Inr c, s')"
proof -
  have "\<not> (AlwaysOn (normalizePreferences h p0) \<and> profileID m = [])"
    using assms by (auto simp: connectModem_def fail_def Let_def)
  with assms obtain p1 s1 s2 b s3 where
    a: "selectedAPN h m (normalizePreferences h p0) s = (Inr p1, s1)" "disconnectModem h m clear s1 = ([], s2)"
    "(case tryVal ModemErr (connectBearer m (bearerPropertiesFromPreferences
         (preferencesWithDefaultAPNCredentials h m p1))) s2 of
        (Inr b, s) \<Rightarrow> (Inr b, s)
      | (Inl es, s) \<Rightarrow> connectBearerAfterRecovery h m (preferencesWithDefaultAPNCredentials h m p1) es s) = (Inr b, s3)"
    and rest: "(case bearerPreferences h m b (preferencesWithDefaultAPNCredentials h m p1) s3 of (p, s) \<Rightarrow>
      (case configureBearer h m b p s of
        (Inl es, s) \<Rightarrow> (case tryErr ModemErr (bearerDisconnect m b) s of (fs, s) \<Rightarrow> (Inl (es @ fs), s))
      | (Inr t, s) \<Rightarrow>
          finishConnect h m b p (t\<lparr>bearerPath := b, trackedProfile := profileID m, prefs := p\<rparr>) s)) = (Inr c, s')"
    unfolding connectModem_def Let_def by (simp only: if_False) (elim ebind_Inr, blast dest: must_Inr)
  obtain p s4 where p: "bearerPreferences h m b (preferencesWithDefaultAPNCredentials h m p1) s3 = (p, s4)" by fastforce
  obtain x s5 where x: "configureBearer h m b p s4 = (x, s5)" by fastforce
  with rest p obtain t where t: "x = Inr t" by (cases x) (auto split: prod.splits)
  with rest p x that [OF a p] show ?thesis by simp
qed

lemma connect_agreeing:
  assumes "connectModem h m p0 clear s = (Inr c, s')" and "agreeing s"
  shows "agreeing s'"
  using assms(1)
proof (cases rule: connectModem_parts)
  case (1 p1 s1 s2 b s3 p s4 t s5)
  have "agreeing s2"
    using keepsD [OF flags.keeps_selectedAPN [OF flags.any_host flags.any_modem] 1(1) assms(2)]
      keepsD [OF keeps_disconnect 1(2)] by blast
  moreover have "keeps agreeing (\<lambda>s. case tryVal ModemErr (connectBearer m (bearerPropertiesFromPreferences
         (preferencesWithDefaultAPNCredentials h m p1))) s of
        (Inr b, s) \<Rightarrow> (Inr b, s)
      | (Inl es, s) \<Rightarrow> connectBearerAfterRecovery h m (preferencesWithDefaultAPNCredentials h m p1) es s)"
    by (intro keeps_rules flags.keeps_modem flags.any_modem flags.keeps_cleaning)
  ultimately have "agreeing s3" using 1(3) by (auto dest: keepsD)
  then have s5: "agreeing s5"
    using keepsD [OF flags.keeps_bearerPreferences [OF flags.any_modem] 1(4)]
      keepsD [OF flags.keeps_configureBearer 1(5)] by blast
  let ?t = "t\<lparr>bearerPath := b, trackedProfile := profileID m, prefs := p\<rparr>"
  have t: "flagsAgree ?t" by (rule configureBearer_agrees [OF 1(5)])
  from 1(6) show ?thesis
  proof (cases rule: finishConnect_parts)
    case (1 u1 u2 u3 u4 u5)
    have "agreeing u1" using keepsD [OF flags.keeps_syncProxyPreference [OF flags.any_host] 1(1) s5] .
    then have "agreeing u2"
      using 1(2) keepsD [OF flags.keeps_saveProxyState [OF flags.any_host]] by (auto split: if_splits)
    then have "agreeing u4"
      using keepsD [OF flags.keeps_withProxyStatus [OF flags.any_host flags.any_modem] 1(3)]
        keepsD [OF flags.keeps_syncAlwaysOn [OF flags.any_host] 1(4)] by blast
    then have "agreeing u5" by (rule syncTakeover_agreeing [OF 1(5)])
    then show ?thesis unfolding 1(6) by (rule setConnection_agreeing [OF t])
  qed
qed

end
