(* ===== verification/ConnectorRoutes.thy ===== *)
theory ConnectorRoutes
  imports ConnectorFlags
begin

text \<open>
  What connecting and disconnecting a modem does to the routing table of the host and to the saved
  plans: all the other calls leave both alone, the takeover and its undoing are those of
  \<open>DefaultRoutes\<close>.
\<close>

section \<open>The table and the saved plans\<close>

definition routesAre ::
  "('k \<Rightarrow> DefaultRoute set) \<Rightarrow> DefaultRoute set \<Rightarrow> (string \<times> savedRouteState) list \<Rightarrow> 'k connector \<Rightarrow> bool" where
  "routesAre view V S s \<longleftrightarrow> view (kernel (net s)) = V \<and> savedRoutes (net s) = S"

abbreviation viewCalm :: "('k \<Rightarrow> 'b) \<Rightarrow> ('k \<Rightarrow> 'k) \<Rightarrow> bool" where
  "viewCalm view g \<equiv> \<forall>k. view (g k) = view k"

interpretation still: frame "routesAre view V S" "viewCalm view" for view V S
  by unfold_locales (auto simp: routesAre_def)

text \<open>A route that is accepted was not there: \<open>NLM_F_EXCL\<close>.\<close>

definition exclusive :: "'k routeOps \<Rightarrow> ('k \<Rightarrow> DefaultRoute set) \<Rightarrow> bool" where
  "exclusive ops view \<longleftrightarrow> (\<forall>r k. fst (addRoute ops r k) = None \<longrightarrow> canon r \<notin> view k)"

text \<open>Saved plans that belong to other modems, and a modem whose interfaces hold no route and no plan.\<close>

definition foreign :: "string \<Rightarrow> (string \<times> savedRouteState) list \<Rightarrow> bool" where
  "foreign i S \<longleftrightarrow> trim_space i \<noteq> [] \<and>
     (\<forall>(n, e)\<in>set S. trim_space (SavedModem e) \<noteq> [] \<and> trim_space (SavedModem e) \<noteq> trim_space i)"

definition unused :: "'k modemAccess \<Rightarrow> DefaultRoute set \<Rightarrow> (string \<times> savedRouteState) list \<Rightarrow> bool" where
  "unused m V S \<longleftrightarrow> (\<forall>b k n. fst (bearerInterface m b k) = Inr n \<longrightarrow>
     (\<forall>r\<in>V. Interface r \<noteq> n) \<and> trim_space n \<notin> fst ` set S)"

lemma keeps_deleteAbsent:
  assumes "faithful (rops h) view" and "trim_space n \<notin> fst ` set S"
  shows "keeps (routesAre view V S) (onNet (deleteRouteState (rops h) n))"
proof (rule keepsI)
  fix s r s' assume run: "onNet (deleteRouteState (rops h) n) s = (r, s')" and Q: "routesAre view V S s"
  obtain es w where w: "onSaved (rops h) (AList.delete (trim_space n)) (net s) = (es, w)" by fastforce
  with run have "net s' = w" by (auto simp: onNet_def deleteRouteState_def)
  with faithful_saved [OF assms(1) w] Q assms(2) show "routesAre view V S s'"
    by (auto simp: routesAre_def delete_id dom_map_of_conv_image_fst)
qed

lemma restoreStaleLoop_foreign:
  "foreign i S \<Longrightarrow> set entries \<subseteq> set S \<Longrightarrow> restoreStaleLoop ops (trim_space i) targets True current entries w = ([], w)"
  by (induction entries) (auto simp: foreign_def routeStateTargetMatches_def)

lemma keeps_restoreStale_foreign:
  assumes f: "faithful (rops h) view" and S: "foreign i S"
  shows "keeps (routesAre view V S) (restoreStale h i ns)"
proof (rule keepsI)
  fix s r s' assume run: "restoreStale h i ns s = (r, s')" and Q: "routesAre view V S s"
  obtain x w1 where x: "onKernel (storeFault (rops h)) (net s) = (x, w1)" by fastforce
  note fx = faithful_fault [OF f x]
  obtain y w2 where y: "onKernel (listRoutes (rops h)) w1 = (y, w2)" by fastforce
  note fy = faithful_list [OF f y]
  have "savedRoutes w2 = S" using fx fy Q by (simp add: routesAre_def)
  then have loop: "restoreStaleLoop (rops h) (trim_space i) T True c (sort_key fst (savedRoutes w2)) w2 = ([], w2)" for T c
    by (simp add: restoreStaleLoop_foreign [OF S])
  have "view (kernel (net s')) = view (kernel (net s)) \<and> savedRoutes (net s') = savedRoutes (net s)"
    using run x y fx fy loop S
    by (cases x; cases y) (auto simp: restoreStale_def onNet_def restoreStaleDefaultRouteStatesWithStore_def
        foreign_def Let_def split: prod.splits if_splits)
  with Q show "routesAre view V S s'" by (simp add: routesAre_def)
qed

section \<open>Disconnecting a modem that is not tracked\<close>

text \<open>A modem that is known to leave the table and the plans alone as long as it holds no route.\<close>

definition gentle :: "'k host \<Rightarrow> 'k modemAccess \<Rightarrow> ('k \<Rightarrow> DefaultRoute set) \<Rightarrow> bool" where
  "gentle h m view \<longleftrightarrow> faithful (rops h) view \<and> exclusive (rops h) view \<and>
     quietHost (viewCalm view) h \<and> quietModem (viewCalm view) m"

lemma tryVal_world:
  "tryVal w f s = (Inr a, s') \<Longrightarrow> fst (f (kernel (net s))) = Inr a \<and> s' = s\<lparr>net := (net s)\<lparr>kernel := snd (f (kernel (net s)))\<rparr>\<rparr>"
  by (cases "f (kernel (net s))"; cases "fst (f (kernel (net s)))") (auto simp: tryVal_def onWorld_def onKernel_def)

lemma routeState_unused:
  assumes f: "faithful (rops h) view" and r: "routeStateForInterface h n s = (st, s')"
    and Q: "routesAre view V S s" and n: "\<forall>r\<in>V. Interface r \<noteq> n"
  shows "\<not> Found st"
proof -
  obtain x w where x: "onKernel (listRoutes (rops h)) (net s) = (x, w)" by fastforce
  show ?thesis
  proof (cases x)
    case (Inl e)
    with r x show ?thesis by (auto simp: routeStateForInterface_def listDefaultRoutes_def tryVal_def onWorld_def)
  next
    case (Inr rs)
    have "canon ` set rs = V" using faithful_list [OF f x] Inr Q by (simp add: routesAre_def)
    then have "\<forall>r\<in>set rs. Interface r \<noteq> n" using n by (metis canon_fields(1) imageI)
    then have "routeStateLoop n b rs = b" for b by (induction rs) auto
    with r x Inr show ?thesis
      by (auto simp: routeStateForInterface_def listDefaultRoutes_def tryVal_def onWorld_def routeStateFromRoutes_def)
  qed
qed

lemma keeps_cleanupAddresses:
  assumes "quietHost (viewCalm view) h"
  shows "keeps (routesAre view V S) (cleanupApplied h (t\<lparr>routes := [], routeChanges := []\<rparr>))"
proof -
  have "keeps (routesAre view V S) (onNet (cleanupDefaultRouteChangesWithStore (rops h) n []))" for n
    by (simp add: keeps_def onNet_def cleanupDefaultRouteChangesWithStore_def routesAre_def)
  then show ?thesis
    unfolding cleanupApplied_def
    by (intro keeps_rules) (auto intro!: keeps_rules still.keeps_host assms simp del: split_paired_All)
qed

lemma keeps_loadNone:
  assumes "loadRouteStateForModem h i n s = (Inr x, s')" and "routesAre view V S s" and "trim_space n \<notin> fst ` set S"
    and "faithful (rops h) view"
  shows "x = None"
  using assms faithful_fault [OF assms(4)]
  by (auto simp: loadRouteStateForModem_def query_def onWorld_def routesAre_def ok_def map_of_eq_None_iff
      elim!: ebind_Inr split: prod.splits option.splits) (metis map_of_eq_None_iff option.distinct(1))+

lemma gentleD:
  assumes "gentle h m view"
  shows "faithful (rops h) view" "exclusive (rops h) view" "quietHost (viewCalm view) h" "quietModem (viewCalm view) m"
  using assms by (simp_all add: gentle_def)

lemma unused_interface:
  assumes "tryVal w (bearerInterface m b) s = (Inr n, s')" and "unused m V S"
  shows "\<forall>r\<in>V. Interface r \<noteq> n" "trim_space n \<notin> fst ` set S"
  using tryVal_world [OF assms(1)] assms(2) unfolding unused_def by blast+

lemma keeps_cleanupBearer_unused:
  assumes g: "gentle h m view" and u: "unused m V S"
  shows "keeps (routesAre view V S) (cleanupBearer h m b p)"
proof (rule keepsI)
  fix s r s' assume run: "cleanupBearer h m b p s = (r, s')" and Q: "routesAre view V S s"
  let ?Q = "routesAre view V S"
  note q = gentleD [OF g]
  define read where "read = ebind (tryVal ModemErr (bearerInterface m b)) (\<lambda>ifname.
           ebind (tryVal ModemErr (bearerIP4 m b)) (\<lambda>ip4.
           ebind (tryVal ModemErr (bearerIP6 m b)) (\<lambda>ip6 s.
             let (st, s) = routeStateForInterface h ifname s;
                 metric = (if Found st then RecMetric st else routeMetric (PrefDefaultRoute p))
             in case addressesAndRoutesWithMetric h ifname metric (Found st) ip4 ip6 of
                  Inl e \<Rightarrow> if e = ErrUnsupportedIPMethod then (Inr None, s) else (Inl [e], s)
                | Inr (as, rs) \<Rightarrow>
                    (case loadRouteStateForModem h (modemID m) ifname s of
                       (Inl es, s) \<Rightarrow> (Inl es, s)
                     | (Inr changes, s) \<Rightarrow>
                         (Inr (Some \<lparr>bearerPath = [], interfaceName = ifname, trackedProfile = [],
                            prefs = noPreferences, trackedMetric = 0, addresses = as, routes = rs,
                            routeChanges = (case changes of None \<Rightarrow> [] | Some cs \<Rightarrow> cs)\<rparr>), s)))))"
  have keeps_read: "keeps ?Q read"
    unfolding read_def Let_def
    by (intro keeps_rules still.keeps_modem q still.keeps_routeStateForInterface still.keeps_loadRouteState)
  obtain x s1 where x: "read s = (x, s1)" by fastforce
  have Q1: "?Q s1" by (rule keepsD [OF keeps_read x Q])
  have run: "(case x of Inl es \<Rightarrow> (es, s1) | Inr None \<Rightarrow> ([], s1) | Inr (Some t) \<Rightarrow> cleanupApplied h t s1) = (r, s')"
    using run x unfolding cleanupBearer_def read_def by simp
  show "?Q s'"
  proof (cases "\<exists>t. x = Inr (Some t)")
    case True
    then obtain t where t: "x = Inr (Some t)" by blast
    from x [unfolded t read_def] obtain n sa ip4 sb ip6 sc st sd as rs y where
      n: "tryVal ModemErr (bearerInterface m b) s = (Inr n, sa)" "tryVal ModemErr (bearerIP4 m b) sa = (Inr ip4, sb)"
        "tryVal ModemErr (bearerIP6 m b) sb = (Inr ip6, sc)" "routeStateForInterface h n sc = (st, sd)"
        "addressesAndRoutesWithMetric h n (if Found st then RecMetric st else routeMetric (PrefDefaultRoute p)) (Found st) ip4 ip6
          = Inr (as, rs)"
        "loadRouteStateForModem h (modemID m) n sd = (Inr y, s1)"
        "routes t = rs" "routeChanges t = (case y of None \<Rightarrow> [] | Some cs \<Rightarrow> cs)"
      by (auto simp: Let_def elim!: ebind_Inr split: prod.splits sum.splits if_split_asm)
    have Qc: "?Q sc"
      using keepsD [OF keeps_tryVal [OF still.keeps_modem(8) [OF q(4)]] n(1) Q]
        keepsD [OF keeps_tryVal [OF still.keeps_modem(9) [OF q(4)]] n(2)]
        keepsD [OF keeps_tryVal [OF still.keeps_modem(10) [OF q(4)]] n(3)] by blast
    note i = unused_interface [OF n(1) u]
    have "rs = []"
      using addressesAndRoutes_routes [OF n(5)] routeState_unused [OF q(1) n(4) Qc i(1)] by simp
    moreover have "y = None"
      using keeps_loadNone [OF n(6) keepsD [OF still.keeps_routeStateForInterface [OF q(3)] n(4) Qc] i(2) q(1)] .
    ultimately have "t = t\<lparr>routes := [], routeChanges := []\<rparr>" using n(7,8) by simp
    then have "keeps ?Q (cleanupApplied h t)" using keeps_cleanupAddresses [OF q(3), of V S t] by simp
    with run t Q1 show ?thesis by (auto dest: keepsD)
  next
    case False
    with run Q1 show ?thesis by (auto split: sum.splits option.splits)
  qed
qed

lemma keeps_disconnectUnused:
  assumes g: "gentle h m view" and u: "unused m V S" and S: "foreign (modemID m) S"
  shows "keeps (routesAre view V S) (disconnectUntracked h m b)"
proof (rule keepsI)
  fix s r s' assume run: "disconnectUntracked h m b s = (r, s')" and Q: "routesAre view V S s"
  let ?Q = "routesAre view V S"
  note q = gentleD [OF g]
  obtain p s1 where p: "recoverPreferences h m b (preference h (modemID m) s) s = (p, s1)" by fastforce
  have Q1: "?Q s1" by (rule keepsD [OF still.keeps_recoverPreferences [OF q(3,4)] p Q])
  obtain y s2 where y: "onWorld (bearerInterface m b) s1 = (y, s2)" by fastforce
  have Q2: "?Q s2" by (rule keepsD [OF still.keeps_modem(8) [OF q(4)] y Q1])
  have forget: "keeps ?Q (case y of Inl e \<Rightarrow> noErr | Inr n \<Rightarrow> onNet (deleteRouteState (rops h) n))"
  proof (cases y)
    case (Inr n)
    then have "tryVal ModemErr (bearerInterface m b) s1 = (Inr n, s2)" using y by (simp add: tryVal_def)
    from keeps_deleteAbsent [OF q(1) unused_interface(2) [OF this u]] Inr show ?thesis by simp
  qed (simp add: keeps_noErr)
  have "keeps ?Q (\<lambda>s. case thenErr (cleanupBearer h m b p)
             (case y of Inl e \<Rightarrow> noErr | Inr n \<Rightarrow> onNet (deleteRouteState (rops h) n)) s of (es, s) \<Rightarrow>
       case (case y of Inr n \<Rightarrow> cleanupProxy h (modemID m) n s | Inl e \<Rightarrow> cleanupProxyForModem h (modemID m) s) of (fs, s) \<Rightarrow>
       case joinErr (tryErr ModemErr (bearerDisconnect m b)) (restoreStale h (modemID m) []) s of (gs, s) \<Rightarrow> (es @ fs @ gs, s))"
    by (intro keeps_rules forget keeps_cleanupBearer_unused [OF g u] still.keeps_proxy still.keeps_modem q
        keeps_restoreStale_foreign [OF q(1) S])
  with run p y Q2 show "?Q s'" by (auto simp: disconnectUntracked_def dest: keepsD)
qed

lemma keeps_disconnect_untracked:
  assumes g: "gentle h m view" and u: "unused m V S" and S: "foreign (modemID m) S"
    and run: "disconnectModem h m clear s = (r, s')" and Q: "routesAre view V S s" and c: "connection (modemID m) s = None"
  shows "routesAre view V S s'"
proof -
  let ?Q = "routesAre view V S"
  note q = gentleD [OF g]
  note stale = keeps_restoreStale_foreign [OF q(1) S]
  obtain es s1 where s1: "(if clear then clearAlwaysOnState h m else noErr) s = (es, s1)" by fastforce
  have Q1: "?Q s1"
    using keepsD [OF still.keeps_clearAlwaysOn [OF q(3)] _ Q] s1 Q by (auto simp: noErr_def split: if_splits)
  have "connections s1 = connections s"
    using keepsD [OF same.keeps_clearAlwaysOn [OF same.any_host] _ refl] s1 by (auto simp: noErr_def split: if_splits)
  with c have c1: "connection (modemID m) s1 = None" by (simp add: connection_def)
  define rest where "rest = (\<lambda>s. case currentBearer m s of
               (Inl es, s) \<Rightarrow> (es, s)
             | (Inr (None, _), s) \<Rightarrow> cleanupStaleConnectionState h (modemID m) [] s
             | (Inr (Some b, True), s) \<Rightarrow> disconnectUntracked h m b s
             | (Inr (Some b, False), s) \<Rightarrow>
                 (case tryVal ModemErr (bearerInterface m b) s of
                    (Inl es, s) \<Rightarrow> (es, s)
                  | (Inr n, s) \<Rightarrow> cleanupStaleConnectionState h (modemID m) [n] s))"
  have "keeps ?Q rest"
    unfolding rest_def
    by (intro keeps_rules still.keeps_currentBearer still.keeps_modem still.keeps_cleanupStale q stale
        keeps_disconnectUnused [OF g u S])
  moreover have "disconnectModem h m clear s = (case rest s1 of (fs, s) \<Rightarrow> (es @ fs, s))"
    by (simp add: disconnectModem_def joinErr_def s1 c1 rest_def)
  ultimately show ?thesis using run Q1 by (auto dest: keepsD split: prod.splits)
qed

section \<open>Connecting\<close>

lemma keeps_addAddresses_done:
  assumes "quietHost (viewCalm view) h"
  shows "addAddresses h as t s = (Inr t', s') \<Longrightarrow> routesAre view V S s \<Longrightarrow> routesAre view V S s'"
proof (induction as arbitrary: t s)
  case (Cons a as)
  obtain es s1 where e: "tryErr NetlinkErr (AddAddress h (interfaceName t) a) s = (es, s1)" by fastforce
  have "es = []" using Cons.prems e by (cases es) (simp_all add: release_def)
  moreover have "routesAre view V S s1"
    by (rule keepsD [OF keeps_tryErr [OF still.keeps_host(5) [OF assms]] e Cons.prems(2)])
  ultimately show ?case using Cons e by simp
qed (simp add: ok_def)

lemma addRoutes_view:
  assumes f: "faithful (rops h) view" and x: "exclusive (rops h) view"
  shows "addRoutes h rs t s = (Inr t', s') \<Longrightarrow> routesAre view V S s \<Longrightarrow>
    routesAre view (V \<union> canon ` set rs) S s' \<and> canon ` set rs \<inter> V = {}"
proof (induction rs arbitrary: t s V)
  case (Cons r rs)
  obtain e s1 where e: "onWorld (addRoute (rops h) r) s = (e, s1)" by fastforce
  have n: "e = None" "addRoutes h rs (t\<lparr>routes := routes t @ [r]\<rparr>) s1 = (Inr t', s')"
    using Cons.prems(1) e by (cases e; simp add: addTrackedRoute_def release_def)+
  obtain w where w: "onKernel (addRoute (rops h) r) (net s) = (e, w)" and s1: "s1 = s\<lparr>net := w\<rparr>"
    using e by (auto simp: onWorld_def split: prod.splits)
  have new: "canon r \<notin> V"
    using w n(1) x Cons.prems(2) by (auto simp: exclusive_def onKernel_iff routesAre_def)
  have "routesAre view (insert (canon r) V) S s1"
    using faithful_add [OF f w] n(1) s1 Cons.prems(2) by (simp add: routesAre_def)
  from Cons.IH [OF n(2) this] new show ?case by auto
qed (simp add: ok_def)

text \<open>The table and the plans while a modem \<open>m\<close> has the default route through interface \<open>n\<close>.\<close>

definition tookOver ::
  "'k modemAccess \<Rightarrow> DefaultRoute set \<Rightarrow> (string \<times> savedRouteState) list \<Rightarrow> trackedConnection \<Rightarrow> DefaultRoute set \<Rightarrow>
   (string \<times> savedRouteState) list \<Rightarrow> bool" where
  "tookOver m V S t V' S' \<longleftrightarrow>
     planOk V (routeChanges t) \<and> V' = swapped V (routeChanges t) \<union> canon ` set (routes t) \<and>
     canon ` set (routes t) \<inter> swapped V (routeChanges t) = {} \<and> trim_space (interfaceName t) \<notin> fst ` set S \<and>
     S' = (if routeChanges t = [] then S else AList.update (trim_space (interfaceName t))
       \<lparr>SavedModem = modemID m, Preferred = routes t, Changes = routeChanges t\<rparr> S)"

lemma configureBearer_tookOver:
  assumes g: "gentle h m view" and u: "unused m V S" and S: "foreign (modemID m) S"
    and run: "configureBearer h m b p s = (Inr t, s')" and Q: "routesAre view V S s" and p: "PrefDefaultRoute p"
  shows "\<exists>V' S'. tookOver m V S t V' S' \<and> routesAre view V' S' s'"
  using run
proof (cases rule: configureBearer_parts)
  case (1 n s1 ip4 s2 ip6 s3 as rs0 k rs s4 u' s5 v s6 t1 s7 t2 s8)
  let ?Q = "routesAre view V S"
  note q = gentleD [OF g]
  have "?Q s3"
    using keepsD [OF keeps_tryVal [OF still.keeps_modem(8) [OF q(4)]] 1(1) Q]
      keepsD [OF keeps_tryVal [OF still.keeps_modem(9) [OF q(4)]] 1(3)]
      keepsD [OF keeps_tryVal [OF still.keeps_modem(10) [OF q(4)]] 1(4)] by blast
  moreover have "s4 = s3"
    using secondaryMetric_result(3) [OF 1(6) _ p]
      addressesAndRoutes_routes [OF 1(5) [unfolded addressesAndRoutes_def], THEN conjunct1] by blast
  ultimately have "?Q s6"
    using keepsD [OF keeps_must [OF keeps_tryErr [OF still.keeps_host(3) [OF q(3)]]] 1(7)]
      keepsD [OF keeps_must [OF still.keeps_SetMTU [OF q(3)]] 1(8)] by blast
  then have Q7: "?Q s7" by (rule keeps_addAddresses_done [OF q(3) 1(9)])
  note t1 = addAddresses_result [OF 1(9)]
  have "takeOver h (modemID m) rs t1 s7 = (Inr t2, s8)" using 1(10) p by simp
  then obtain sa changes w where
    a: "onNet (restoreStaleDefaultRouteStatesWithStore (rops h) (modemID m) [interfaceName t1]) s7 = ([], sa)"
    and w: "takeoverDefaultRoutesWithStore (rops h) (modemID m) (interfaceName t1) rs (net sa) = (([], changes), w)"
    and t2: "t2 = t1\<lparr>routeChanges := changes\<rparr>" and s8: "s8 = sa\<lparr>net := w\<rparr>" by (rule takeOver_result)
  have "?Q sa" using keepsD [OF keeps_restoreStale_foreign [OF q(1) S] _ Q7] a by (simp add: restoreStale_def)
  with takeover_clean [OF q(1) w] s8 have Q8: "planOk V changes"
    "routesAre view (swapped V changes) (if changes = [] then S else AList.update (trim_space (interfaceName t1))
       \<lparr>SavedModem = modemID m, Preferred = rs, Changes = changes\<rparr> S) s8" by (auto simp: routesAre_def)
  note t = addRoutes_result [OF 1(11)]
  have "trim_space (interfaceName t) \<notin> fst ` set S"
    using unused_interface(2) [OF 1(1) u] t t2 t1 by simp
  with addRoutes_view [OF q(1,2) 1(11) Q8(2)] Q8(1) t t1 t2 show ?thesis
    unfolding tookOver_def by auto
qed

lemma update_again: "AList.update k v (AList.update k v xs) = AList.update k v xs"
  by (induction xs) auto

lemma delete_update: "k \<notin> fst ` set xs \<Longrightarrow> AList.delete k (AList.update k v xs) = xs"
  by (induction xs) (auto simp: AList.delete_eq)

lemma commitOwners_net [simp]: "net (fold (commitOwner owners) is s) = net s"
  by (induction "is" arbitrary: s) (auto simp: commitOwner_def split: option.split)

lemma still_syncOwners: "quietHost (viewCalm view) h \<Longrightarrow> keeps (routesAre view V S) (syncOwners h owners is)"
  by (induction "is") (auto intro!: keeps_rules still.keeps_syncAlwaysOn split: option.split)

lemma still_syncTakeover:
  assumes g: "gentle h m view" and t: "tookOver m V S t V' S'"
  shows "keeps (routesAre view V' S') (syncDefaultRouteTakeover h (modemID m) t)"
proof (rule keepsI)
  fix s r s' assume run: "syncDefaultRouteTakeover h (modemID m) t s = (r, s')" and Q: "routesAre view V' S' s"
  let ?Q = "routesAre view V' S'"
  note q = gentleD [OF g]
  obtain owners conns affected where
    l: "demoteLoop (routeChanges t) (connections s) (connections s) [] = (owners, conns, affected)" by (metis prod.collapse)
  have Q1: "?Q (s\<lparr>connections := conns\<rparr>)" using Q by (simp add: routesAre_def)
  let ?put = "onNet (putRouteStateForModem (rops h) (modemID m) (interfaceName t) (routes t) (routeChanges t))"
  have put: "keeps ?Q ?put" if "routeChanges t \<noteq> []"
  proof (rule keepsI)
    fix s r s' assume run: "?put s = (r, s')" and Q: "?Q s"
    obtain es w where w: "putRouteStateForModem (rops h) (modemID m) (interfaceName t) (routes t) (routeChanges t) (net s) = (es, w)"
      by fastforce
    let ?e = "\<lparr>SavedModem = modemID m, Preferred = routes t, Changes = routeChanges t\<rparr>"
    have saved: "AList.update (trim_space (interfaceName t)) ?e (savedRoutes (net s)) = savedRoutes (net s)"
      using t that Q by (simp add: tookOver_def routesAre_def update_again)
    have "view (kernel w) = view (kernel (net s)) \<and> savedRoutes w = savedRoutes (net s)"
    proof (cases "trim_space (interfaceName t) = []")
      case False
      with w have "onSaved (rops h) (AList.update (trim_space (interfaceName t)) ?e) (net s) = (es, w)"
        by (simp add: putRouteStateForModem_def Let_def)
      from faithful_saved [OF q(1) this] saved show ?thesis by simp
    qed (use w in \<open>simp add: putRouteStateForModem_def\<close>)
    moreover have "net s' = w" using run w by (auto simp: onNet_def)
    ultimately show "?Q s'" using Q by (simp add: routesAre_def)
  qed
  have commit: "keeps ?Q (\<lambda>s. ([], fold (commitOwner owners) affected s))"
    by (simp add: keeps_def routesAre_def)
  show "?Q s'"
  proof (cases "routeChanges t = [] \<or> affected = []")
    case True
    with run Q Q1 l show ?thesis by (auto simp: syncDefaultRouteTakeover_def split: if_split_asm)
  next
    case False
    then have "keeps ?Q (thenErr ?put (thenErr (syncOwners h owners affected) (\<lambda>s. ([], fold (commitOwner owners) affected s))))"
      using put commit still_syncOwners [OF q(3)] by (intro keeps_thenErr) auto
    moreover have "thenErr ?put (thenErr (syncOwners h owners affected) (\<lambda>s. ([], fold (commitOwner owners) affected s)))
        (s\<lparr>connections := conns\<rparr>) = (r, s')"
      using run l False by (simp add: syncDefaultRouteTakeover_def)
    ultimately show ?thesis using Q1 by (blast dest: keepsD)
  qed
qed

lemma finishConnect_tookOver:
  assumes g: "gentle h m view" and t: "tookOver m V S t V' S'"
    and run: "finishConnect h m b p t s = (Inr c, s')" and Q: "routesAre view V' S' s"
  shows "routesAre view V' S' s' \<and> connection (modemID m) s' = Some t"
  using run
proof (cases rule: finishConnect_parts)
  case (1 s1 s2 s3 s4 s5)
  let ?Q = "routesAre view V' S'"
  note q = gentleD [OF g]
  have "?Q s1" by (rule keepsD [OF still.keeps_syncProxyPreference [OF q(3)] 1(1) Q])
  then have "?Q s2" using 1(2) keepsD [OF still.keeps_saveProxyState [OF q(3)]] by (auto split: if_splits)
  then have "?Q s4"
    using keepsD [OF still.keeps_withProxyStatus [OF q(3,4)] 1(3)] keepsD [OF still.keeps_syncAlwaysOn [OF q(3)] 1(4)]
    by blast
  then have "?Q s5" by (rule keepsD [OF still_syncTakeover [OF g t] 1(5)])
  then show ?thesis
    unfolding 1(6) by (simp add: setConnectionAndPreference_def routesAre_def connection_def update_conv')
qed

lemma selectedAPN_default: "selectedAPN h m p s = (Inr p', s') \<Longrightarrow> PrefDefaultRoute p' = PrefDefaultRoute p"
  by (auto simp: selectedAPN_def ok_def Let_def elim!: ebind_Inr split: if_splits prod.splits)

lemma connect_tookOver:
  assumes g: "gentle h m view" and u: "unused m V S" and S: "foreign (modemID m) S"
    and run: "connectModem h m p0 clear s = (Inr c, s')" and Q: "routesAre view V S s"
    and c: "connection (modemID m) s = None" and p0: "PrefDefaultRoute p0"
  shows "\<exists>t V' S'. tookOver m V S t V' S' \<and> routesAre view V' S' s' \<and> connection (modemID m) s' = Some t \<and>
    PrefDefaultRoute (prefs t)"
  using run
proof (cases rule: connectModem_parts)
  case (1 p1 s1 s2 b s3 p s4 t s5)
  let ?Q = "routesAre view V S"
  note q = gentleD [OF g]
  have Q1: "?Q s1" by (rule keepsD [OF still.keeps_selectedAPN [OF q(3,4)] 1(1) Q])
  have "connections s1 = connections s"
    using keepsD [OF same.keeps_selectedAPN [OF same.any_host same.any_modem] 1(1) refl] by simp
  with c have "connection (modemID m) s1 = None" by (simp add: connection_def)
  from keeps_disconnect_untracked [OF g u S 1(2) Q1 this] have Q2: "?Q s2" .
  have "keeps ?Q (\<lambda>s. case tryVal ModemErr (connectBearer m (bearerPropertiesFromPreferences
         (preferencesWithDefaultAPNCredentials h m p1))) s of
        (Inr b, s) \<Rightarrow> (Inr b, s)
      | (Inl es, s) \<Rightarrow> connectBearerAfterRecovery h m (preferencesWithDefaultAPNCredentials h m p1) es s)"
    by (intro keeps_rules still.keeps_modem still.keeps_connectBearerAfterRecovery q keeps_restoreStale_foreign [OF q(1) S])
  with 1(3) Q2 have Q3: "?Q s3" by (auto dest: keepsD)
  then have Q4: "?Q s4" by (rule keepsD [OF still.keeps_bearerPreferences [OF q(4)] 1(4)])
  have p: "PrefDefaultRoute p"
    using bearerPreferences_default [OF 1(4)] selectedAPN_default [OF 1(1)] p0 by (simp add: normalizePreferences_def)
  obtain V' S' where t: "tookOver m V S t V' S'" "routesAre view V' S' s5"
    using configureBearer_tookOver [OF g u S 1(5) Q4 p] by blast
  let ?t = "t\<lparr>bearerPath := b, trackedProfile := profileID m, prefs := p\<rparr>"
  have "tookOver m V S ?t V' S'" using t(1) by (simp add: tookOver_def)
  with finishConnect_tookOver [OF g this 1(6) t(2)] p show ?thesis by (intro exI [of _ ?t]) auto
qed

section \<open>Disconnecting\<close>

lemma joinErr_Nil:
  assumes "joinErr f g s = ([], s')"
  obtains s1 where "f s = ([], s1)" "g s1 = ([], s')"
  using assms by (auto simp: joinErr_def Let_def split: prod.splits)

lemma thenErr_Nil:
  assumes "thenErr f g s = ([], s')"
  obtains s1 where "f s = ([], s1)" "g s1 = ([], s')"
  using assms by (auto simp: thenErr_def split: prod.splits list.splits)

lemma deleteRoutes_view:
  assumes f: "faithful (rops h) view"
  shows "joinAll (map (deleteTrackedRoute h) rs) s = ([], s') \<Longrightarrow> routesAre view V S s \<Longrightarrow>
    routesAre view (V - canon ` set rs) S s'"
proof (induction rs arbitrary: s V)
  case (Cons r rs)
  from Cons.prems(1) obtain s1 where s1: "deleteTrackedRoute h r s = ([], s1)"
    and rest: "joinAll (map (deleteTrackedRoute h) rs) s1 = ([], s')" by (auto elim: joinErr_Nil)
  obtain w where w: "deleteErr (rops h) r (net s) = ([], w)" and "net s1 = w"
    using s1 by (auto simp: deleteTrackedRoute_def onNet_def split: prod.splits)
  with faithful_delete [OF f w] Cons.prems(2) have "routesAre view (V - {canon r}) S s1" by (simp add: routesAre_def)
  moreover have "V - {canon r} - canon ` set rs = V - canon ` set (r # rs)" by auto
  ultimately show ?case using Cons.IH [OF rest] by metis
qed (simp add: noErr_def)

lemma undoChanges_view:
  assumes f: "faithful (rops h) view" and t: "tookOver m V S t V' S'"
    and run: "onNet (cleanupDefaultRouteChangesWithStore (rops h) (interfaceName t) (routeChanges t)) s = ([], s')"
    and Q: "routesAre view (V' - canon ` set (routes t)) S' s"
  shows "routesAre view V S s'"
proof -
  let ?cs = "routeChanges t" and ?n = "interfaceName t"
  obtain w where w: "cleanupDefaultRouteChangesWithStore (rops h) ?n ?cs (net s) = ([], w)" and s': "net s' = w"
    using run by (auto simp: onNet_def split: prod.splits)
  have table: "view (kernel (net s)) = swapped V ?cs" and saved: "savedRoutes (net s) = S'"
    and plan: "planOk V ?cs" using t Q by (auto simp: tookOver_def routesAre_def)
  show ?thesis
  proof (cases "?cs = []")
    case True
    with w s' table saved t show ?thesis
      by (simp add: cleanupDefaultRouteChangesWithStore_def tookOver_def routesAre_def)
  next
    case False
    then obtain w1 where r: "restoreDefaultRoutesWithOps (rops h) ?cs (net s) = ([], w1)"
      and d: "onSaved (rops h) (AList.delete (trim_space ?n)) w1 = ([], w)"
      using w by (auto simp: cleanupDefaultRouteChangesWithStore_def deleteRouteState_def split: prod.splits list.splits)
    have "V - set (origs ?cs) \<subseteq> view (kernel (net s))" "view (kernel (net s)) \<subseteq> V \<union> set (repls ?cs)"
      using table by (auto simp: swapped_def)
    note undone = restore_between [OF f plan this r]
    have "AList.delete (trim_space ?n) S' = S"
      using t False delete_update [of "trim_space ?n" S] by (simp add: tookOver_def)
    with undone faithful_saved [OF f d] saved s' show ?thesis by (simp add: routesAre_def)
  qed
qed

lemma cleanupApplied_view:
  assumes g: "gentle h m view" and t: "tookOver m V S t V' S'"
    and run: "cleanupApplied h t s = ([], s')" and Q: "routesAre view V' S' s"
  shows "routesAre view V S s'"
proof -
  note q = gentleD [OF g]
  have "ctxErr h (kernel (net s)) = None" using run by (auto simp: cleanupApplied_def split: option.splits)
  with run obtain s1 s2 where
    d: "joinAll (map (deleteTrackedRoute h) (rev (routes t))) s = ([], s1)"
    and c: "onNet (cleanupDefaultRouteChangesWithStore (rops h) (interfaceName t) (routeChanges t)) s1 = ([], s2)"
    and a: "joinAll (map (\<lambda>a. tryErr NetlinkErr (DeleteAddress h (interfaceName t) a)) (rev (addresses t))) s2 = ([], s')"
    by (auto simp: cleanupApplied_def elim!: joinErr_Nil)
  have "routesAre view (V' - canon ` set (routes t)) S' s1"
    using deleteRoutes_view [OF q(1) d Q] by simp
  from undoChanges_view [OF q(1) t c this] have "routesAre view V S s2" .
  moreover have "keeps (routesAre view V S) (joinAll (map (\<lambda>a. tryErr NetlinkErr (DeleteAddress h (interfaceName t) a)) (rev (addresses t))))"
    by (rule keeps_joinAll) (auto intro: keeps_tryErr still.keeps_host q(3))
  ultimately show ?thesis using a by (blast dest: keepsD)
qed

lemma still_commitRestored: "quietHost (viewCalm view) h \<Longrightarrow> keeps (routesAre view V S) (commitRestored h owners is)"
proof (induction "is")
  case (Cons i "is")
  have "routesAre view V S (commitOwner owners i s) = routesAre view V S s" for s
    by (simp add: routesAre_def commitOwner_def split: option.split)
  moreover have "keeps (routesAre view V S) (\<lambda>s. (case map_of owners i of
       None \<Rightarrow> commitRestored h owners is
     | Some owner \<Rightarrow>
         if AlwaysOn (prefs owner)
         then joinErr (syncAlwaysOnState h (trackedProfile owner) (prefs owner)) (commitRestored h owners is)
         else commitRestored h owners is) s)"
    by (intro keeps_rules still.keeps_syncAlwaysOn Cons)
  ultimately show ?case by (auto simp: keeps_def Let_def split: option.splits)
qed (simp add: keeps_noErr)

lemma disconnect_gives_back:
  assumes g: "gentle h m view" and t: "tookOver m V S t V' S'" and S: "foreign (modemID m) S"
    and p: "PrefDefaultRoute (prefs t)" and c: "connection (modemID m) s = Some t"
    and run: "disconnectModem h m clear s = ([], s')" and Q: "routesAre view V' S' s"
  shows "routesAre view V S s' \<and> connection (modemID m) s' = None"
proof -
  note q = gentleD [OF g]
  let ?Q = "routesAre view V S"
  obtain s1 where s1: "(if clear then clearAlwaysOnState h m else noErr) s = ([], s1)"
    and rest: "(case connection (modemID m) s1 of
          Some t \<Rightarrow> disconnectTracked h m t s1
        | None \<Rightarrow>
            (case currentBearer m s1 of
               (Inl es, s) \<Rightarrow> (es, s)
             | (Inr (None, _), s) \<Rightarrow> cleanupStaleConnectionState h (modemID m) [] s
             | (Inr (Some b, True), s) \<Rightarrow> disconnectUntracked h m b s
             | (Inr (Some b, False), s) \<Rightarrow>
                 (case tryVal ModemErr (bearerInterface m b) s of
                    (Inl es, s) \<Rightarrow> (es, s)
                  | (Inr n, s) \<Rightarrow> cleanupStaleConnectionState h (modemID m) [n] s))) = ([], s')"
    using run unfolding disconnectModem_def by (rule joinErr_Nil)
  have Q1: "routesAre view V' S' s1"
    using keepsD [OF still.keeps_clearAlwaysOn [OF q(3)] _ Q] s1 Q by (auto simp: noErr_def split: if_splits)
  have "connections s1 = connections s"
    using keepsD [OF same.keeps_clearAlwaysOn [OF same.any_host] _ refl] s1 by (auto simp: noErr_def split: if_splits)
  with c have "connection (modemID m) s1 = Some t" by (simp add: connection_def)
  with rest have "disconnectTracked h m t s1 = ([], s')" by simp
  then obtain s4 where s4: "joinErr (thenErr (cleanupTracked h (modemID m) t) (syncCleanedUpDefaultRouteState h t))
          (joinErr (tryErr ModemErr (disconnectBearer m (bearerPath t))) (restoreStale h (modemID m) [])) s1 = ([], s4)"
    and s': "s' = deleteConnection (modemID m) s4"
    by (auto simp: disconnectTracked_def Let_def split: prod.splits)
  from s4 obtain s3 where cl: "thenErr (cleanupTracked h (modemID m) t) (syncCleanedUpDefaultRouteState h t) s1 = ([], s3)"
    and end4: "joinErr (tryErr ModemErr (disconnectBearer m (bearerPath t))) (restoreStale h (modemID m) []) s3 = ([], s4)"
    by (rule joinErr_Nil)
  from cl obtain s2 where s2: "cleanupTracked h (modemID m) t s1 = ([], s2)"
    and s3: "syncCleanedUpDefaultRouteState h t s2 = ([], s3)" by (rule thenErr_Nil)
  from s2 p obtain u1 u2 where u: "cleanupProxy h (modemID m) (interfaceName t) s1 = ([], u1)"
    "cleanupApplied h t u1 = ([], u2)" "onNet (deleteRouteState (rops h) (interfaceName t)) u2 = ([], s2)"
    by (auto simp: cleanupTracked_def elim!: joinErr_Nil thenErr_Nil)
  have "routesAre view V' S' u1" by (rule keepsD [OF still.keeps_cleanupProxy [OF q(3)] u(1) Q1])
  from cleanupApplied_view [OF g t u(2) this] have "?Q u2" .
  then have "?Q s2"
    using keepsD [OF keeps_deleteAbsent [OF q(1)] u(3)] t by (auto simp: tookOver_def)
  moreover have "keeps ?Q (syncCleanedUpDefaultRouteState h t)"
    using p still_commitRestored [OF q(3), of V S]
    by (auto simp: syncCleanedUpDefaultRouteState_def syncDefaultRouteRestore_def keeps_def Let_def split: prod.splits)
  ultimately have "?Q s3" using s3 by (blast dest: keepsD)
  moreover have "keeps ?Q (joinErr (tryErr ModemErr (disconnectBearer m (bearerPath t))) (restoreStale h (modemID m) []))"
    by (intro keeps_rules still.keeps_modem q keeps_restoreStale_foreign [OF q(1) S])
  ultimately have "?Q s4" using end4 by (blast dest: keepsD)
  then show ?thesis
    unfolding s' by (simp add: deleteConnection_def connection_def routesAre_def delete_conv')
qed

lemma connect_disconnect_routes:
  assumes g: "gentle h m view" and u: "unused m V S" and S: "foreign (modemID m) S"
    and "routesAre view V S s" and "connection (modemID m) s = None" and "PrefDefaultRoute p"
    and "Connect h m p s = (Inr c, s1)" and "Disconnect h m s1 = ([], s2)"
  shows "routesAre view V S s2 \<and> connection (modemID m) s2 = None"
  using connect_tookOver [OF g u S] disconnect_gives_back [OF g _ S] assms(4-) by (metis Connect_def Disconnect_def)

end
