(* ===== verification/ConnectorExample.thy ===== *)
theory ConnectorExample
  imports ConnectorRoutes
begin

text \<open>
  A small machine with two modems on which the operations of the connector run: its routing table
  is a list, deleting a route that is not there is no error (as \<open>DeleteDefaultRoute\<close> of
  \<open>netlink.go\<close> reports it), and one statement of the database, counted from now, fails.
\<close>

section \<open>The machine\<close>

record exampleWorld =
  table :: "DefaultRoute list"
  faultIn :: nat

definition exampleOps :: "exampleWorld routeOps" where
  "exampleOps = \<lparr>listRoutes = \<lambda>k. (Inr (remdups (map canon (table k))), k),
     addRoute = \<lambda>r k. if defaultRouteExists r (table k) then (Some ErrDefaultRouteExists, k)
        else (None, k\<lparr>table := table k @ [canon r]\<rparr>),
     deleteRoute = \<lambda>r k. (None, k\<lparr>table := filter (\<lambda>x. canon x \<noteq> canon r) (table k)\<rparr>),
     storeFault = \<lambda>k. (if faultIn k = 1 then Some ''disk full'' else None, k\<lparr>faultIn := faultIn k - 1\<rparr>)\<rparr>"

definition exampleHost :: "exampleWorld host" where
  "exampleHost = \<lparr>rops = exampleOps, SetUp = \<lambda>n k. (None, k), changeMTU = \<lambda>n u k. (None, k),
     AddAddress = \<lambda>n a k. (None, k), DeleteAddress = \<lambda>n a k. (None, k), FlushAddresses = \<lambda>n k. (None, k),
     ctxErr = \<lambda>k. None, proxyRegister = \<lambda>u n k. (None, k), proxyUnregister = \<lambda>u k. (None, k),
     proxyStatus = \<lambda>u k. noProxyStatus,
     ParseAddr = \<lambda>v. if v = ''10.0.0.1'' then Inr [10, 0, 0, 1] else if v = ''10.0.0.2'' then Inr [10, 0, 0, 2] else Inl v,
     upper = \<lambda>v. v, lower = \<lambda>v. v, equalFold = \<lambda>a b. a = b, defaultAPNs = []\<rparr>"

definition exampleIP :: "string \<Rightarrow> BearerIPConfig" where
  "exampleIP a = \<lparr>MethodStatic = a \<noteq> [], Address = a, Prefix = 30, IPGateway = [], IPDNS = [], MTU = 0\<rparr>"

definition exampleBearer :: BearerProperties where
  "exampleBearer = \<lparr>PropAPN = ''net'', PropIPType = [], PropUsername = [], PropPassword = [], AllowedAuth = []\<rparr>"

definition exampleStats :: BearerStats where
  "exampleStats = \<lparr>StatRXBytes = 0, StatTXBytes = 0, StatDuration = 0\<rparr>"

text \<open>A modem with no SIM, its interface and the address its bearer gets.\<close>

definition wanModem :: "string \<Rightarrow> string \<Rightarrow> string \<Rightarrow> exampleWorld modemAccess" where
  "wanModem i n a = \<lparr>modemID = i, simOf = None, modemBearers = \<lambda>k. (Inr [], k), openBearer = \<lambda>b k. (None, k),
     connectBearer = \<lambda>p k. (Inr ''/b'', k), disconnectBearer = \<lambda>b k. (None, k), deleteBearer = \<lambda>b k. (None, k),
     refreshModem = \<lambda>k. (None, k), bearerConnected = \<lambda>b k. (Inr True, k), bearerInterface = \<lambda>b k. (Inr n, k),
     bearerIP4 = \<lambda>b k. (Inr (exampleIP a), k), bearerIP6 = \<lambda>b k. (Inr (exampleIP []), k),
     bearerStats = \<lambda>b k. (Inr exampleStats, k), bearerAPN = \<lambda>b k. (Inr ''net'', k),
     bearerProperties = \<lambda>b k. (Inr exampleBearer, k), bearerDisconnect = \<lambda>b k. (None, k)\<rparr>"

definition modemA :: "exampleWorld modemAccess" where "modemA = wanModem ''A'' ''wwan0'' ''10.0.0.1''"
definition modemB :: "exampleWorld modemAccess" where "modemB = wanModem ''B'' ''wwan1'' ''10.0.0.2''"

definition defaultPrefs :: Preferences where
  "defaultPrefs = noPreferences\<lparr>APN := ''net'', PrefDefaultRoute := True\<rparr>"

definition exampleStart :: "exampleWorld connector" where
  "exampleStart = \<lparr>net = \<lparr>kernel = \<lparr>table = [exampleRoute ''eth0'' 0], faultIn = 0\<rparr>, savedRoutes = []\<rparr>,
     proxyStates = [], alwaysOnStates = [], connections = [], preferences = (\<lambda>_. None), hasProxy = False\<rparr>"

definition failAt :: "nat \<Rightarrow> exampleWorld connector \<Rightarrow> exampleWorld connector" where
  "failAt n s = s\<lparr>net := (net s)\<lparr>kernel := (kernel (net s))\<lparr>faultIn := n\<rparr>\<rparr>\<rparr>"

section \<open>Running the operations\<close>

text \<open>A call is run on its state, and what comes after it is left alone until the state is known.\<close>

lemma run_cong:
  "s = s' \<Longrightarrow> ebind f g s = ebind f g s'" "s = s' \<Longrightarrow> must m s = must m s'" "s = s' \<Longrightarrow> joinErr m n s = joinErr m n s'"
  "s = s' \<Longrightarrow> thenErr m n s = thenErr m n s'" "s = s' \<Longrightarrow> tryErr w f' s = tryErr w f' s'"
  "s = s' \<Longrightarrow> tryVal w' f2 s = tryVal w' f2 s'" "s = s' \<Longrightarrow> orAbandon h md b t c s = orAbandon h md b t c s'"
  "s = s' \<Longrightarrow> onWorld f3 s = onWorld f3 s'" "s = s' \<Longrightarrow> onNet f4 s = onNet f4 s'"
  "s = s' \<Longrightarrow> statement h f5 s = statement h f5 s'" "s = s' \<Longrightarrow> query h f6 s = query h f6 s'"
  by simp_all

lemmas run_congs = run_cong option.case_cong_weak sum.case_cong_weak list.case_cong_weak prod.case_cong_weak let_weak_cong

lemma run_ebind:
  "m s = (Inl e, s') \<Longrightarrow> ebind m f s = (Inl e, s')"
  "m s = (Inr a, s') \<Longrightarrow> ebind m f s = f a s'"
  by (simp_all add: ebind_def)

lemma freeMetric_step:
  "used k \<Longrightarrow> k \<in> set ks \<Longrightarrow> freeMetric used ks k = freeMetric used ks (k + 1)"
  "\<not> used k \<Longrightarrow> freeMetric used ks k = k"
  "k \<notin> set ks \<Longrightarrow> freeMetric used ks k = k"
  by (subst freeMetric.simps, simp)+

lemmas run_calls = must_def joinErr_def thenErr_def tryErr_def tryVal_def orAbandon_def onWorld_def onNet_def
  statement_def query_def onKernel_def onSaved_def noErr_def ok_def fail_def ebind_def

lemmas run_example = exampleHost_def exampleOps_def exampleIP_def exampleBearer_def exampleStats_def wanModem_def
  modemA_def modemB_def defaultPrefs_def noPreferences_def noProxyStatus_def exampleRoute_def

lemmas run_texts = simText_def profileID_def normalizePreferences_def modemAPNCriteria_def apnForModem_def
  preferencesWithDefaultAPNCredentials_def bearerPropertiesFromPreferences_def defaultAPNProfileFrom_def
  cleanAPNCriteria_def cleanAPNProfile_def noProfile_def normalizeGID1_def normalizeSPN_def normalizeICCID_def
  normalizeIMSI_def hasInternetPreference_def go_string_simps graphic_def

lemmas run_routes = takeoverDefaultRoutesWithStore_def saveRouteStateForModem_def putRouteStateForModem_def
  deleteRouteState_def deleteErr_def restoreOriginalDefaultRouteWithOps_def restoreDefaultRoutesWithOps_def
  cleanupDefaultRouteChangesWithStore_def restoreStaleDefaultRouteStatesWithStore_def interfaceSet_def
  routeStateTargetMatches_def defaultRouteChanges_def preferredMetric_def defaultRouteExists_def sameDefaultRoute_def
  routeProtocol_def canon_def routeMetric_def defaultRouteMetric_def secondaryRouteMetric_def fallbackMetric_def
  routeMetricExists_def freeMetric_step

lemmas run_bearer = clearAlwaysOnState_def preferenceWithAlwaysOn_def preference_def bearerPreferences_def
  SetMTU_def prefixFromIPConfig_def StaticAddress_def addrFromString_def addressesAndRoutesWithMetric_def
  addressesAndRoutes_def secondaryMetric_def configureBearer_def takeOver_def release_def addTrackedRoute_def
  deleteTrackedRoute_def cleanupApplied_def connectionFromBearer_def connectionAddressStrings_def addressStrings_def
  mergeDNS_def currentBearer_def proxyInterfacesForModem_def deleteProxyState_def

lemmas run_connector = connection_def setConnectionAndPreference_def deleteConnection_def setPreference_def
  deletePreference_def syncAlwaysOnState_def cleanupProxy_def cleanupProxyInterfaces_def cleanupProxyForModem_def
  syncProxyPreference_def withProxyStatus_def ownsRoute_def routeChangeOwner_def restoredRouteOwner_def
  swapTrackedRoute_def demoteTrackedRoute_def restoreTrackedRoute_def routeStateFromRoutes_def commitOwner_def
  syncDefaultRouteTakeover_def syncDefaultRouteRestore_def syncCleanedUpDefaultRouteState_def restoreStale_def
  cleanupTracked_def cleanupStaleConnectionState_def disconnectTracked_def disconnectModem_def Disconnect_def
  abandon_def finishConnect_def selectedAPN_def connectModem_def Connect_def

lemmas run = run_calls run_example run_texts run_bearer run_connector run_routes

text \<open>The state after modem A has connected: its route comes first, the one of \<open>eth0\<close> has made room.\<close>

definition ownRoute :: "string \<Rightarrow> byte list \<Rightarrow> int \<Rightarrow> DefaultRoute" where
  "ownRoute n a k = \<lparr>Interface = n, Family = 2, Protocol = 0, Scope = 0, Gateway = None, Source = Some a, Metric = k\<rparr>"

definition ethChange :: defaultRouteChange where
  "ethChange = \<lparr>Original = exampleRoute ''eth0'' 0, Replacement = exampleRoute ''eth0'' 11\<rparr>"

definition trackedA :: trackedConnection where
  "trackedA = \<lparr>bearerPath = ''/b'', interfaceName = ''wwan0'', trackedProfile = [], prefs = defaultPrefs,
     trackedMetric = 10, addresses = [([10, 0, 0, 1], 30)], routes = [ownRoute ''wwan0'' [10, 0, 0, 1] 10],
     routeChanges = [ethChange]\<rparr>"

definition afterA :: "exampleWorld connector" where
  "afterA = \<lparr>net = \<lparr>kernel = \<lparr>table = [exampleRoute ''eth0'' 11, canon (ownRoute ''wwan0'' [10, 0, 0, 1] 10)], faultIn = 0\<rparr>,
       savedRoutes = [(''wwan0'', \<lparr>SavedModem = ''A'', Preferred = [ownRoute ''wwan0'' [10, 0, 0, 1] 10], Changes = [ethChange]\<rparr>)]\<rparr>,
     proxyStates = [], alwaysOnStates = [], connections = [(''A'', trackedA)], preferences = [''A'' \<mapsto> defaultPrefs], hasProxy = False\<rparr>"

lemmas run_A = ownRoute_def ethChange_def trackedA_def afterA_def

lemma runA: "\<exists>c. Connect exampleHost modemA defaultPrefs exampleStart = (Inr c, afterA)"
  by (simp add: run run_A exampleStart_def Let_def cong: run_congs)

section \<open>Properties\<close>

text \<open>
  C8: For every tracked connection, the metric and the default-route flag agree with its routes: disconnecting,
  restoring, reading the current connection and recovering keep this whatever fails, and connecting keeps it
  whenever it succeeds, although it takes the default route away from other connections.
\<close>

theorem flags_follow_routes:
  assumes "consistent (connections s)"
  shows "consistent (connections (snd (Disconnect h m s))) \<and> consistent (connections (snd (Restore h m s))) \<and>
    consistent (connections (snd (currentOf h m s))) \<and> consistent (connections (snd (Recover h ms s))) \<and>
    (\<forall>p c s'. Connect h m p s = (Inr c, s') \<longrightarrow> consistent (connections s'))"
proof (intro conjI allI impI)
  show "consistent (connections (snd (Disconnect h m s)))"
    unfolding Disconnect_def by (rule keeps_snd [OF keeps_disconnect assms])
  show "consistent (connections (snd (Restore h m s)))" by (rule keeps_snd [OF keeps_Restore assms])
  show "consistent (connections (snd (currentOf h m s)))" by (rule keeps_snd [OF keeps_current assms])
  show "consistent (connections (snd (Recover h ms s)))" by (rule keeps_snd [OF keeps_Recover assms])
  fix p c s' assume "Connect h m p s = (Inr c, s')"
  then show "consistent (connections s')" unfolding Connect_def by (rule connect_agreeing [OF _ assms])
qed

lemma flags_follow_routes_witness:
  "\<exists>c s'. Connect exampleHost modemB defaultPrefs afterA = (Inr c, s') \<and> consistent (connections s') \<and>
     map (\<lambda>(i, t). (i, PrefDefaultRoute (prefs t))) (connections s') = [(''A'', False), (''B'', True)]"
proof -
  have A: "consistent (connections afterA)"
    by (simp add: consistent_def flagsAgree_def routeStateFromRoutes_def run_A run_example defaultRouteMetric_def)
  obtain r s' where c: "Connect exampleHost modemB defaultPrefs afterA = (r, s')" by fastforce
  have "\<not> isl (fst (Connect exampleHost modemB defaultPrefs afterA)) \<and>
    map (\<lambda>(i, t). (i, PrefDefaultRoute (prefs t))) (connections (snd (Connect exampleHost modemB defaultPrefs afterA))) =
      [(''A'', False), (''B'', True)]"
    by (simp add: run run_A Let_def cong: run_congs)
  with c flags_follow_routes [OF A, of exampleHost modemB "[]"] show ?thesis by (cases r) auto
qed

text \<open>
  When saving a takeover fails, the connection that lost the default route is left with routes that are no
  longer its own: the failed connect gives the route back in the kernel but not in the connection, whose
  disconnect then reports no error and leaves its default route in the routing table.
\<close>

theorem failed_takeover_strands_route:
  "let (r, s2) = Connect exampleHost modemB defaultPrefs (failAt 6 afterA);
       (es, s3) = Disconnect exampleHost modemA s2
   in r = Inl [RouteErr (StoreError ''disk full'')] \<and> map fst (connections s2) = [''A''] \<and>
      set (table (kernel (net s2))) = set (table (kernel (net afterA))) \<and>
      map Metric (routes (the (connection ''A'' afterA))) = [10] \<and>
      map Metric (routes (the (connection ''A'' s2))) = [21] \<and>
      es = [] \<and> connections s3 = [] \<and>
      map (\<lambda>r. (Interface r, Metric r)) (table (kernel (net s3))) = [(''wwan0'', 10), (''eth0'', 0)]"
  by (simp add: run run_A failAt_def Let_def cong: run_congs)

text \<open>
  C7: A modem that connects as the default route and disconnects again leaves the host as it found it: the
  routing table, whoever held the default route before, and the saved plans are those of before, and the modem
  is no longer tracked.
\<close>

theorem connect_then_disconnect:
  assumes "gentle h m view" and "unused m (view (kernel (net s))) (savedRoutes (net s))"
    and "foreign (modemID m) (savedRoutes (net s))" and "connection (modemID m) s = None" and "PrefDefaultRoute p"
    and "Connect h m p s = (Inr c, s1)" and "Disconnect h m s1 = ([], s2)"
  shows "view (kernel (net s2)) = view (kernel (net s)) \<and> savedRoutes (net s2) = savedRoutes (net s) \<and>
    connection (modemID m) s2 = None"
  using connect_disconnect_routes [OF assms(1-3) _ assms(4-)] by (simp add: routesAre_def)

lemma example_gentle: "gentle exampleHost (wanModem i n a) (\<lambda>k. canon ` set (table k))"
proof -
  have "faithful exampleOps (\<lambda>k. canon ` set (table k))"
  proof -
    have "map canon (remdups (map canon k)) = remdups (map canon k)" for k by (rule map_idI) auto
    then have "distinct (map canon (remdups (map canon k)))" for k by (simp only: distinct_remdups)
    then show ?thesis by (auto simp: faithful_def exampleOps_def image_image)
  qed
  moreover have "exclusive exampleOps (\<lambda>k. canon ` set (table k))"
    by (auto simp: exclusive_def exampleOps_def defaultRouteExists_def list_ex_iff sameDefaultRoute_canon split: if_splits)
  ultimately show ?thesis
    by (simp add: gentle_def quietHost_def quietModem_def exampleHost_def wanModem_def) (simp add: exampleOps_def)
qed

lemma connect_then_disconnect_witness:
  "\<exists>c s1 s2. Connect exampleHost modemB defaultPrefs afterA = (Inr c, s1) \<and> Disconnect exampleHost modemB s1 = ([], s2) \<and>
     map fst (savedRoutes (net s1)) = [''wwan0'', ''wwan1''] \<and>
     canon ` set (table (kernel (net s2))) = canon ` set (table (kernel (net afterA))) \<and>
     savedRoutes (net s2) = savedRoutes (net afterA) \<and> connection ''B'' s2 = None"
proof -
  let ?c = "Connect exampleHost modemB defaultPrefs afterA"
  obtain r s1 where c: "?c = (r, s1)" by fastforce
  have "case ?c of (r, s1) \<Rightarrow> \<not> isl r \<and> map fst (savedRoutes (net s1)) = [''wwan0'', ''wwan1''] \<and>
      fst (Disconnect exampleHost modemB s1) = []"
    by (simp add: run run_A Let_def cong: run_congs)
  with c obtain x where r: "r = Inr x" "map fst (savedRoutes (net s1)) = [''wwan0'', ''wwan1'']"
      "fst (Disconnect exampleHost modemB s1) = []" by (cases r) auto
  obtain s2 where d: "Disconnect exampleHost modemB s1 = ([], s2)" using r(3) by (metis prod.collapse)
  have "unused modemB (canon ` set (table (kernel (net afterA)))) (savedRoutes (net afterA))"
    by (simp add: unused_def modemB_def wanModem_def run_A exampleRoute_def trim_space_graphic graphic_def)
  moreover have "foreign (modemID modemB) (savedRoutes (net afterA))"
    by (simp add: foreign_def modemB_def wanModem_def run_A trim_space_graphic graphic_def)
  moreover have "connection (modemID modemB) afterA = None" "PrefDefaultRoute defaultPrefs"
    by (simp_all add: connection_def modemB_def wanModem_def run_A defaultPrefs_def)
  ultimately have "canon ` set (table (kernel (net s2))) = canon ` set (table (kernel (net afterA))) \<and>
     savedRoutes (net s2) = savedRoutes (net afterA) \<and> connection (modemID modemB) s2 = None"
    using connect_then_disconnect [OF example_gentle [of "''B''" "''wwan1''" "''10.0.0.2''", folded modemB_def] _ _ _ _
        c [unfolded r(1)] d] by blast
  with c r d show ?thesis by (simp add: modemB_def wanModem_def)
qed

end
