(* ===== verification/Simulation.thy ===== *)
theory Simulation
  imports Main
begin

text \<open>
  When a detailed component implements a simpler one: every operation, run on the detailed state, gives the
  answer of the simple operation and commutes with the abstraction. Then a whole sequence of operations gives
  the same answers.
\<close>

fun runOps :: "('op \<Rightarrow> 's \<Rightarrow> 'r \<times> 's) \<Rightarrow> 'op list \<Rightarrow> 's \<Rightarrow> 'r list \<times> 's" where
  "runOps step [] s = ([], s)"
| "runOps step (op # ops) s =
     (case step op s of (r, s') \<Rightarrow> (case runOps step ops s' of (rs, t) \<Rightarrow> (r # rs, t)))"

locale simulation =
  fixes cstep :: "'op \<Rightarrow> 'c \<Rightarrow> 'r \<times> 'c"
    and astep :: "'op \<Rightarrow> 'a \<Rightarrow> 'r \<times> 'a"
    and abs_of :: "'c \<Rightarrow> 'a"
    and inv :: "'c \<Rightarrow> bool"
  assumes inv_step: "inv s \<Longrightarrow> cstep op s = (r, s') \<Longrightarrow> inv s'"
    and sim_step: "inv s \<Longrightarrow> cstep op s = (r, s') \<Longrightarrow> astep op (abs_of s) = (r, abs_of s')"
begin

lemma inv_run: "inv s \<Longrightarrow> runOps cstep ops s = (rs, s') \<Longrightarrow> inv s'"
  by (induction ops arbitrary: s rs) (auto split: prod.splits intro: inv_step)

lemma sim_run: "inv s \<Longrightarrow> runOps cstep ops s = (rs, s') \<Longrightarrow> runOps astep ops (abs_of s) = (rs, abs_of s')"
proof (induction ops arbitrary: s rs)
  case (Cons op ops)
  obtain r s1 where 1: "cstep op s = (r, s1)" by fastforce
  obtain rs1 where 2: "runOps cstep ops s1 = (rs1, s')" "rs = r # rs1"
    using Cons.prems(2) 1 by (auto split: prod.splits)
  show ?case
    using sim_step [OF Cons.prems(1) 1] Cons.IH [OF inv_step [OF Cons.prems(1) 1] 2(1)] 2(2) by simp
qed simp

end

end
