(* ===== verification/MessageStore.thy ===== *)
theory MessageStore
  imports CallStore Simulation
begin

text \<open>
  The SMS messages of the database (\<open>internal/pkg/storage/messages.go\<close>).

  The table \<open>messages\<close> is the list of its rows in the order of their ids, with the last id given out
  (\<open>AUTOINCREMENT\<close>); its two unique indexes, on profile, source and external key and on the non-empty fingerprints,
  are the conflicts of an insertion. Every SQL statement is one atomic step that may fail with an error of the
  database and then changes nothing. The two columns that the program writes and never reads
  (\<open>created_at\<close>, \<open>updated_at\<close>) are left out. There is no column for the modem: the modem's identifier only enters the
  fingerprint, a row has none and what is read has none. The column of the timestamp is a text, given by the instant it was
  written from; reading it back may fail. SHA-256, \<open>strings.ToLower\<close>, the date part of a time text, its parser
  and the \<open>LIKE\<close> operator are the record \<open>messageEnv\<close> of functions.
\<close>

section \<open>Messages\<close>

record Message =
  msgID :: int
  msgModemID :: string
  msgProfileID :: string
  msgSource :: string
  msgExternalKey :: string
  msgFingerprint :: string
  msgSender :: string
  msgRecipient :: string
  msgText :: string
  msgTimestamp :: time
  msgStatus :: string
  msgIncoming :: bool
  msgRouted :: bool

record MessageStatusUpdate =
  updProfileID :: string
  updSource :: string
  updExternalKey :: string
  updStatus :: string

record messageEnv =
  sha256Sum :: "string \<Rightarrow> byte list"
  toLower :: "string \<Rightarrow> string"
  datePrefix :: "int \<Rightarrow> string"
  readTime :: "string \<Rightarrow> time option"
  sqlLike :: "string \<Rightarrow> string \<Rightarrow> bool"

datatype messageError =
  MsgProfileRequired | MsgSourceRequired | MsgExternalKeyRequired | StatusUpdateIncomplete | MsgDatabaseError string |
  MsgTimestampUnreadable

definition MessageSourceModem :: string where "MessageSourceModem = ''modem''"
definition MessageSourceRouted :: string where "MessageSourceRouted = ''wifi_calling''"

fun joinZero :: "string list \<Rightarrow> string" where
  "joinZero [] = []"
| "joinZero [s] = s"
| "joinZero (s # t # ss) = s @ CHR 0x00 # joinZero (t # ss)"

definition MessageFingerprint :: "messageEnv \<Rightarrow> Message \<Rightarrow> string" where
  "MessageFingerprint env msg =
     (let direction = (if msgIncoming msg then ''in'' else ''out'');
          counterparty = (if msgIncoming msg then msgSender msg else msgRecipient msg)
      in hex_encode (sha256Sum env (joinZero
           [trim_space (msgModemID msg), trim_space (msgSource msg), direction, trim_space counterparty,
            msgText msg, timeText (datePrefix env) (msgTimestamp msg)])))"

definition Counterparty :: "Message \<Rightarrow> string" where
  "Counterparty msg = (if msgIncoming msg then trim_space (msgSender msg) else trim_space (msgRecipient msg))"

definition normalizeMessage :: "messageEnv \<Rightarrow> time \<Rightarrow> Message \<Rightarrow> Message" where
  "normalizeMessage env now msg =
     (let msg = msg\<lparr>msgProfileID := trim_space (msgProfileID msg), msgModemID := trim_space (msgModemID msg),
                    msgSource := trim_space (msgSource msg), msgExternalKey := trim_space (msgExternalKey msg),
                    msgFingerprint := trim_space (msgFingerprint msg), msgSender := trim_space (msgSender msg),
                    msgRecipient := trim_space (msgRecipient msg),
                    msgStatus := toLower env (trim_space (msgStatus msg))\<rparr>;
          msg = (if msgTimestamp msg = zero_time then msg\<lparr>msgTimestamp := now\<rparr> else msg)
      in if msgFingerprint msg = [] then msg\<lparr>msgFingerprint := MessageFingerprint env msg\<rparr> else msg)"

definition validateMessage :: "Message \<Rightarrow> messageError option" where
  "validateMessage msg =
     (if msgProfileID msg = [] then Some MsgProfileRequired
      else if msgSource msg = [] then Some MsgSourceRequired
      else if msgExternalKey msg = [] then Some MsgExternalKeyRequired
      else None)"

section \<open>Statements\<close>

record messageTable =
  msgRows :: "Message list"
  lastMsgID :: int

text \<open>Profile, source and external key.\<close>

datatype messageKey = MessageKey string string string

definition keyOf :: "Message \<Rightarrow> messageKey" where
  "keyOf r = MessageKey (msgProfileID r) (msgSource r) (msgExternalKey r)"

text \<open>The unique indexes.\<close>

definition conflictsWith :: "Message \<Rightarrow> Message \<Rightarrow> bool" where
  "conflictsWith m r \<longleftrightarrow> keyOf r = keyOf m \<or> msgFingerprint m \<noteq> [] \<and> msgFingerprint r = msgFingerprint m"

text \<open>The row of a message.\<close>

definition messageRow :: "int \<Rightarrow> Message \<Rightarrow> Message" where
  "messageRow i m = m\<lparr>msgID := i, msgModemID := []\<rparr>"

definition InsertMessage ::
  "messageEnv \<Rightarrow> string option \<Rightarrow> time \<Rightarrow> Message \<Rightarrow> messageTable \<Rightarrow> (messageError + bool) \<times> messageTable" where
  "InsertMessage env fault now msg tab =
     (let msg = normalizeMessage env now msg in
      case validateMessage msg of
        Some e \<Rightarrow> (Inl e, tab)
      | None \<Rightarrow>
          (case fault of
             Some e \<Rightarrow> (Inl (MsgDatabaseError e), tab)
           | None \<Rightarrow>
               if list_ex (conflictsWith msg) (msgRows tab) then (Inr False, tab)
               else (Inr True, \<lparr>msgRows = msgRows tab @ [messageRow (lastMsgID tab + 1) msg],
                                lastMsgID = lastMsgID tab + 1\<rparr>)))"

definition setStatus :: "messageKey \<Rightarrow> string \<Rightarrow> Message list \<Rightarrow> Message list" where
  "setStatus key st rows = map (\<lambda>r. if keyOf r = key then r\<lparr>msgStatus := st\<rparr> else r) rows"

definition UpdateMessageStatus ::
  "messageEnv \<Rightarrow> string option \<Rightarrow> MessageStatusUpdate \<Rightarrow> messageTable \<Rightarrow> (messageError + bool) \<times> messageTable" where
  "UpdateMessageStatus env fault u tab =
     (let profileID = trim_space (updProfileID u); source = trim_space (updSource u);
          externalKey = trim_space (updExternalKey u); status = toLower env (trim_space (updStatus u)) in
      if profileID = [] \<or> source = [] \<or> externalKey = [] \<or> status = []
      then (Inl StatusUpdateIncomplete, tab)
      else case fault of
        Some e \<Rightarrow> (Inl (MsgDatabaseError e), tab)
      | None \<Rightarrow>
          (Inr (MessageKey profileID source externalKey \<in> set (map keyOf (msgRows tab))),
           tab\<lparr>msgRows := setStatus (MessageKey profileID source externalKey) status (msgRows tab)\<rparr>))"

section \<open>Queries\<close>

text \<open>\<open>scanMessage\<close>: the timestamp is parsed from its text, and there is no modem.\<close>

definition timestampRead :: "messageEnv \<Rightarrow> Message \<Rightarrow> time option" where
  "timestampRead env r = readTime env (timeText (datePrefix env) (msgTimestamp r))"

definition scanMessage :: "messageEnv \<Rightarrow> Message \<Rightarrow> messageError + Message" where
  "scanMessage env r =
     (case timestampRead env r of
        None \<Rightarrow> Inl MsgTimestampUnreadable
      | Some t \<Rightarrow> Inr (r\<lparr>msgModemID := [], msgTimestamp := t\<rparr>))"

fun scanMessages :: "messageEnv \<Rightarrow> Message list \<Rightarrow> messageError + Message list" where
  "scanMessages env [] = Inr []"
| "scanMessages env (r # rows) =
     (case scanMessage env r of
        Inl e \<Rightarrow> Inl e
      | Inr m \<Rightarrow> map_sum id (Cons m) (scanMessages env rows))"

text \<open>One search term matches a row; the terms of a query are alternatives.\<close>

definition matchesTerm :: "messageEnv \<Rightarrow> Message \<Rightarrow> string \<times> bool \<Rightarrow> bool" where
  "matchesTerm env r t \<longleftrightarrow>
     (let like = sqlLike env (likePattern (fst t)) in
      like (msgSender r) \<or> like (msgRecipient r) \<or> \<not> snd t \<and> like (msgText r))"

text \<open>\<open>latest\<close>: the first message of each counterparty, in the order of the rows.\<close>

definition conversationKey :: "Message \<Rightarrow> string" where
  "conversationKey msg =
     (let key = Counterparty msg in
      if key = [] then msgSender msg @ CHR 0x00 # msgRecipient msg else key)"

fun latestLoop :: "(string \<times> Message) list \<Rightarrow> Message list \<Rightarrow> (string \<times> Message) list" where
  "latestLoop latest [] = latest"
| "latestLoop latest (msg # msgs) =
     (if map_of latest (conversationKey msg) = None
      then latestLoop (latest @ [(conversationKey msg, msg)]) msgs
      else latestLoop latest msgs)"

text \<open>The order of the final sort: the later instant first, then the greater id. Ids are unique.\<close>

definition sortByTime :: "Message list \<Rightarrow> Message list" where
  "sortByTime msgs = sort_key (\<lambda>m. - msgTimestamp m) (sort_key (\<lambda>m. - msgID m) msgs)"

text \<open>\<open>ORDER BY timestamp\<close> (its text) \<open>ASC, id ASC\<close>; the rows come in the order of their ids.\<close>

definition orderByText :: "messageEnv \<Rightarrow> Message list \<Rightarrow> Message list" where
  "orderByText env rows = sort_key (\<lambda>m. timeText (datePrefix env) (msgTimestamp m)) rows"

definition ListConversations ::
  "messageEnv \<Rightarrow> string option \<Rightarrow> string \<Rightarrow> string \<Rightarrow> messageTable \<Rightarrow> messageError + Message list" where
  "ListConversations env fault profileID query tab =
     (let profileID = trim_space profileID in
      if profileID = [] then Inr []
      else
        let terms = searchTerms query;
            rows = filter (\<lambda>r. msgProfileID r = profileID \<and> (terms = [] \<or> list_ex (matchesTerm env r) terms)) (msgRows tab)
        in case fault of
          Some e \<Rightarrow> Inl (MsgDatabaseError e)
        | None \<Rightarrow>
            map_sum id (\<lambda>msgs. sortByTime (map snd (latestLoop [] msgs))) (scanMessages env (rev (orderByText env rows))))"

definition hasParticipant :: "string \<Rightarrow> string \<Rightarrow> Message \<Rightarrow> bool" where
  "hasParticipant profileID participant r \<longleftrightarrow>
     msgProfileID r = profileID \<and> (msgSender r = participant \<or> msgRecipient r = participant)"

definition ListByParticipant ::
  "messageEnv \<Rightarrow> string option \<Rightarrow> string \<Rightarrow> string \<Rightarrow> messageTable \<Rightarrow> messageError + Message list" where
  "ListByParticipant env fault profileID participant tab =
     (let profileID = trim_space profileID; participant = trim_space participant in
      if profileID = [] \<or> participant = [] then Inr []
      else case fault of
        Some e \<Rightarrow> Inl (MsgDatabaseError e)
      | None \<Rightarrow> scanMessages env (orderByText env (filter (hasParticipant profileID participant) (msgRows tab))))"

text \<open>The faults are those of the query and of the deletion.\<close>

definition DeleteByParticipant ::
  "messageEnv \<Rightarrow> string option \<Rightarrow> string option \<Rightarrow> string \<Rightarrow> string \<Rightarrow> messageTable \<Rightarrow>
   (messageError + Message list) \<times> messageTable" where
  "DeleteByParticipant env fault fault' profileID participant tab =
     (case ListByParticipant env fault profileID participant tab of
        Inl e \<Rightarrow> (Inl e, tab)
      | Inr messages \<Rightarrow>
          if messages = [] then (Inr [], tab)
          else case fault' of
            Some e \<Rightarrow> (Inl (MsgDatabaseError e), tab)
          | None \<Rightarrow>
              (Inr messages, tab\<lparr>msgRows :=
                 filter (\<lambda>r. \<not> hasParticipant (trim_space profileID) (trim_space participant) r) (msgRows tab)\<rparr>))"

section \<open>The invariant of the table\<close>

definition messageOk :: "Message \<Rightarrow> bool" where
  "messageOk m \<longleftrightarrow> validateMessage m = None \<and> msgModemID m = [] \<and>
     list_all (\<lambda>s. trim_space s = s)
       [msgProfileID m, msgSource m, msgExternalKey m, msgSender m, msgRecipient m]"

definition messagesOk :: "messageTable \<Rightarrow> bool" where
  "messagesOk tab \<longleftrightarrow>
     distinct (map keyOf (msgRows tab)) \<and>
     distinct (filter (\<lambda>f. f \<noteq> []) (map msgFingerprint (msgRows tab))) \<and>
     sorted_wrt (<) (map msgID (msgRows tab)) \<and> list_all (\<lambda>r. msgID r \<le> lastMsgID tab) (msgRows tab) \<and>
     list_all messageOk (msgRows tab)"

lemma normalizeMessage_ok:
  "validateMessage (normalizeMessage env now msg) = None \<Longrightarrow> messageOk (messageRow i (normalizeMessage env now msg))"
  by (simp add: messageOk_def messageRow_def normalizeMessage_def validateMessage_def Let_def split: if_splits)

lemma messageOk_status [simp]: "messageOk (r\<lparr>msgStatus := st\<rparr>) = messageOk r"
  by (simp add: messageOk_def validateMessage_def)

lemma keyOf_updates [simp]: "keyOf (messageRow i r) = keyOf r" "keyOf (r\<lparr>msgStatus := st\<rparr>) = keyOf r"
  by (simp_all add: keyOf_def messageRow_def)

lemma messageRow_fields [simp]:
  "msgID (messageRow i r) = i" "msgFingerprint (messageRow i r) = msgFingerprint r" "msgModemID (messageRow i r) = []"
  by (simp_all add: messageRow_def)

definition scannedMessage :: "messageEnv \<Rightarrow> Message \<Rightarrow> Message" where
  "scannedMessage env r = r\<lparr>msgModemID := [], msgTimestamp := the (timestampRead env r)\<rparr>"

lemma scanMessages_all:
  "scanMessages env rows =
     (if list_ex (\<lambda>r. timestampRead env r = None) rows then Inl MsgTimestampUnreadable else Inr (map (scannedMessage env) rows))"
  by (induction rows) (auto simp: scanMessage_def scannedMessage_def split: option.split)

text \<open>When the parser reads back what is written, the rows are read as they are.\<close>

definition timesRead :: "messageEnv \<Rightarrow> messageTable \<Rightarrow> bool" where
  "timesRead env tab \<longleftrightarrow> list_all (\<lambda>r. timestampRead env r = Some (msgTimestamp r)) (msgRows tab)"

lemma conflictsWith_iff:
  "list_ex (conflictsWith m) rows \<longleftrightarrow>
     keyOf m \<in> set (map keyOf rows) \<or> msgFingerprint m \<in> set (filter (\<lambda>f. f \<noteq> []) (map msgFingerprint rows))"
proof -
  have "keyOf m \<in> set (map keyOf rows) \<longleftrightarrow> (\<exists>r\<in>set rows. keyOf r = keyOf m)"
    by (simp add: image_iff eq_commute [of "keyOf m"])
  moreover have "msgFingerprint m \<in> set (filter (\<lambda>f. f \<noteq> []) (map msgFingerprint rows)) \<longleftrightarrow>
      (\<exists>r\<in>set rows. msgFingerprint m \<noteq> [] \<and> msgFingerprint r = msgFingerprint m)"
    by (simp add: image_iff eq_commute [of "msgFingerprint m"]) blast
  ultimately show ?thesis
    unfolding list_ex_iff conflictsWith_def by blast
qed

lemma InsertMessage_ok:
  assumes "messagesOk tab" and "InsertMessage env fault now msg tab = (r, tab')"
  shows "messagesOk tab'"
proof -
  let ?m = "normalizeMessage env now msg"
  consider "tab' = tab"
    | "validateMessage ?m = None" "\<not> list_ex (conflictsWith ?m) (msgRows tab)"
      "tab' = \<lparr>msgRows = msgRows tab @ [messageRow (lastMsgID tab + 1) ?m], lastMsgID = lastMsgID tab + 1\<rparr>"
    using assms(2) unfolding InsertMessage_def Let_def
    by (cases "validateMessage ?m"; cases fault; cases "list_ex (conflictsWith ?m) (msgRows tab)") simp_all
  then show ?thesis
  proof cases
    case 2
    have "keyOf ?m \<notin> set (map keyOf (msgRows tab))"
      "msgFingerprint ?m \<notin> set (filter (\<lambda>f. f \<noteq> []) (map msgFingerprint (msgRows tab)))"
      using 2(2) unfolding conflictsWith_iff by blast+
    with assms(1) normalizeMessage_ok [OF 2(1)] show ?thesis
      unfolding messagesOk_def 2(3) by (auto simp: sorted_wrt_append list_all_iff)
  qed (use assms(1) in simp)
qed

lemma setStatus_maps [simp]:
  "map keyOf (setStatus key st rows) = map keyOf rows" "map msgFingerprint (setStatus key st rows) = map msgFingerprint rows"
  "map msgID (setStatus key st rows) = map msgID rows" "list_all messageOk (setStatus key st rows) = list_all messageOk rows"
  by (induction rows) (simp_all add: setStatus_def)

lemma setStatus_ids: "list_all (\<lambda>r. P (msgID r)) (setStatus key st rows) = list_all (\<lambda>r. P (msgID r)) rows"
  by (induction rows) (simp_all add: setStatus_def)

lemma UpdateMessageStatus_ok:
  assumes "messagesOk tab" and "UpdateMessageStatus env fault u tab = (r, tab')"
  shows "messagesOk tab'"
proof -
  have "tab' = tab \<or> (\<exists>key st. tab' = tab\<lparr>msgRows := setStatus key st (msgRows tab)\<rparr>)"
    using assms(2) by (auto simp: UpdateMessageStatus_def Let_def split: option.splits if_splits)
  then show ?thesis
    using assms(1) setStatus_ids [of "\<lambda>i. i \<le> lastMsgID tab"] by (auto simp: messagesOk_def)
qed

lemma DeleteByParticipant_ok:
  assumes "messagesOk tab" and "DeleteByParticipant env fault fault' p q tab = (r, tab')"
  shows "messagesOk tab'"
proof -
  obtain P where "tab' = tab \<or> tab' = tab\<lparr>msgRows := filter P (msgRows tab)\<rparr>"
    using assms(2) by (auto simp: DeleteByParticipant_def split: option.splits if_splits sum.splits)
  moreover have "distinct (filter Q (map f (filter P rows)))" if "distinct (filter Q (map f rows))"
    for f :: "Message \<Rightarrow> 'z" and Q rows
    using that by (induction rows) (auto split: if_splits)
  ultimately show ?thesis
    using assms(1) sorted_wrt_filter [of "\<lambda>a b. msgID a < msgID b" "msgRows tab" P]
    by (auto simp: messagesOk_def list_all_iff distinct_map_filter sorted_wrt_map)
qed

section \<open>The table as a map\<close>

text \<open>
  What the table stores, without ids and without order: at most one message for each profile, source and
  external key. The operations on this map are the specification of the table.
\<close>

type_synonym messageMap = "messageKey \<rightharpoonup> Message"

datatype messageOp =
  StoreMessage "string option" time Message | SetMessageStatus "string option" MessageStatusUpdate |
  DropConversation "string option" "string option" string string

datatype messageAnswer =
  Stored "messageError + bool" | StatusSet "messageError + bool" | Dropped "messageError + Message set"

definition anonymous :: "Message \<Rightarrow> Message" where
  "anonymous m = messageRow 0 m"

fun rowMap :: "Message list \<Rightarrow> messageMap" where
  "rowMap [] k = None"
| "rowMap (r # rows) k = (if keyOf r = k then Some (anonymous r) else rowMap rows k)"

definition messageMapOf :: "messageTable \<Rightarrow> messageMap" where
  "messageMapOf tab = rowMap (msgRows tab)"

fun tableStep :: "messageEnv \<Rightarrow> messageOp \<Rightarrow> messageTable \<Rightarrow> messageAnswer \<times> messageTable" where
  "tableStep env (StoreMessage fault now msg) tab = map_prod Stored id (InsertMessage env fault now msg tab)"
| "tableStep env (SetMessageStatus fault u) tab = map_prod StatusSet id (UpdateMessageStatus env fault u tab)"
| "tableStep env (DropConversation fault fault' p q) tab =
     map_prod (\<lambda>r. Dropped (map_sum id (\<lambda>ms. anonymous ` set ms) r)) id (DeleteByParticipant env fault fault' p q tab)"

fun mapStep :: "messageEnv \<Rightarrow> messageOp \<Rightarrow> messageMap \<Rightarrow> messageAnswer \<times> messageMap" where
  "mapStep env (StoreMessage fault now msg) A =
     (let m = normalizeMessage env now msg in
      case validateMessage m of
        Some e \<Rightarrow> (Stored (Inl e), A)
      | None \<Rightarrow>
          (case fault of
             Some e \<Rightarrow> (Stored (Inl (MsgDatabaseError e)), A)
           | None \<Rightarrow>
               if keyOf m \<in> dom A \<or> msgFingerprint m \<noteq> [] \<and> msgFingerprint m \<in> msgFingerprint ` ran A
               then (Stored (Inr False), A)
               else (Stored (Inr True), A(keyOf m \<mapsto> anonymous m))))"
| "mapStep env (SetMessageStatus fault u) A =
     (let profileID = trim_space (updProfileID u); source = trim_space (updSource u);
          externalKey = trim_space (updExternalKey u); status = toLower env (trim_space (updStatus u));
          key = MessageKey profileID source externalKey in
      if profileID = [] \<or> source = [] \<or> externalKey = [] \<or> status = []
      then (StatusSet (Inl StatusUpdateIncomplete), A)
      else case fault of
        Some e \<Rightarrow> (StatusSet (Inl (MsgDatabaseError e)), A)
      | None \<Rightarrow> (StatusSet (Inr (key \<in> dom A)), A(key := map_option (\<lambda>m. m\<lparr>msgStatus := status\<rparr>) (A key))))"
| "mapStep env (DropConversation fault fault' p q) A =
     (let gone = {m \<in> ran A. hasParticipant (trim_space p) (trim_space q) m} in
      if trim_space p = [] \<or> trim_space q = [] then (Dropped (Inr {}), A)
      else case fault of
        Some e \<Rightarrow> (Dropped (Inl (MsgDatabaseError e)), A)
      | None \<Rightarrow>
          if gone = {} then (Dropped (Inr {}), A)
          else if \<exists>m\<in>gone. timestampRead env m = None then (Dropped (Inl MsgTimestampUnreadable), A)
          else case fault' of
            Some e \<Rightarrow> (Dropped (Inl (MsgDatabaseError e)), A)
          | None \<Rightarrow> (Dropped (Inr (scannedMessage env ` gone)), \<lambda>k. if A k \<in> Some ` gone then None else A k))"

lemma anonymous_fields [simp]:
  "keyOf (anonymous m) = keyOf m" "msgFingerprint (anonymous m) = msgFingerprint m"
  "hasParticipant p q (anonymous m) = hasParticipant p q m" "anonymous (messageRow i m) = anonymous m"
  "anonymous (m\<lparr>msgStatus := st\<rparr>) = (anonymous m)\<lparr>msgStatus := st\<rparr>"
  "timestampRead env (anonymous m) = timestampRead env m" "anonymous (scannedMessage env m) = scannedMessage env (anonymous m)"
  by (simp_all add: anonymous_def messageRow_def hasParticipant_def keyOf_def timestampRead_def scannedMessage_def)

lemma rowMap_None: "rowMap rows k = None \<longleftrightarrow> k \<notin> set (map keyOf rows)"
  by (induction rows) auto

lemma rowMap_dom: "dom (rowMap rows) = set (map keyOf rows)"
  by (simp only: set_eq_iff domIff rowMap_None simp_thms)

lemma rowMap_Some: "distinct (map keyOf rows) \<Longrightarrow> rowMap rows k = Some m \<longleftrightarrow> (\<exists>r\<in>set rows. keyOf r = k \<and> m = anonymous r)"
proof (induction rows)
  case (Cons a rows)
  show ?case
  proof (cases "keyOf a = k")
    case True
    have "keyOf a \<notin> keyOf ` set rows" using Cons.prems by simp
    with True have "\<forall>r\<in>set rows. keyOf r \<noteq> k" by (metis imageI)
    with True show ?thesis by (simp, metis)
  next
    case False
    with Cons show ?thesis by simp
  qed
qed simp

lemma rowMap_ran: "distinct (map keyOf rows) \<Longrightarrow> ran (rowMap rows) = anonymous ` set rows"
  by (auto simp: ran_def rowMap_Some image_iff)

lemma rowMap_snoc: "keyOf r \<notin> set (map keyOf rows) \<Longrightarrow> rowMap (rows @ [r]) = (rowMap rows)(keyOf r \<mapsto> anonymous r)"
proof
  fix k
  assume "keyOf r \<notin> set (map keyOf rows)"
  then show "rowMap (rows @ [r]) k = ((rowMap rows)(keyOf r \<mapsto> anonymous r)) k"
    by (induction rows) auto
qed

lemma rowMap_setStatus:
  "rowMap (setStatus key st rows) = (rowMap rows)(key := map_option (\<lambda>m. m\<lparr>msgStatus := st\<rparr>) (rowMap rows key))"
proof
  fix k
  show "rowMap (setStatus key st rows) k = ((rowMap rows)(key := map_option (\<lambda>m. m\<lparr>msgStatus := st\<rparr>) (rowMap rows key))) k"
    by (induction rows) (auto simp: setStatus_def)
qed

lemma rowMap_filter:
  assumes "distinct (map keyOf rows)" and P: "\<And>m. P (anonymous m) = P m"
  shows "rowMap (filter (\<lambda>r. \<not> P r) rows) k = (case rowMap rows k of None \<Rightarrow> None | Some m \<Rightarrow> if P m then None else Some m)"
proof (cases "rowMap rows k")
  case None
  then show ?thesis using rowMap_None [of rows k] rowMap_None [of "filter (\<lambda>r. \<not> P r) rows" k] by auto
next
  case (Some m)
  then obtain r where r: "r \<in> set rows" "keyOf r = k" "m = anonymous r"
    using rowMap_Some [OF assms(1)] by blast
  have only: "x = r" if "x \<in> set rows" "keyOf x = k" for x
    using assms(1) that r by (simp add: distinct_map inj_on_def)
  have d: "distinct (map keyOf (filter (\<lambda>r. \<not> P r) rows))"
    using assms(1) by (simp add: distinct_map_filter)
  show ?thesis
  proof (cases "P r")
    case True
    then have "rowMap (filter (\<lambda>r. \<not> P r) rows) k = None"
      using only by (auto simp: rowMap_None)
    with True Some r show ?thesis by (simp add: P)
  next
    case False
    then have "rowMap (filter (\<lambda>r. \<not> P r) rows) k = Some m"
      using r rowMap_Some [OF d] by auto
    with False Some r show ?thesis by (simp add: P)
  qed
qed

lemma drop_map:
  "(\<lambda>k. if A k \<in> Some ` {m \<in> ran A. P m} then None else A k) =
     (\<lambda>k. case A k of None \<Rightarrow> None | Some m \<Rightarrow> if P m then None else Some m)"
  by (auto simp: fun_eq_iff ran_def split: option.splits)

lemma insert_refines:
  assumes "messagesOk tab" and "tableStep env (StoreMessage fault now msg) tab = (r, tab')"
  shows "mapStep env (StoreMessage fault now msg) (messageMapOf tab) = (r, messageMapOf tab')"
proof -
  let ?m = "normalizeMessage env now msg"
  have d: "distinct (map keyOf (msgRows tab))" using assms(1) by (simp add: messagesOk_def)
  have c: "list_ex (conflictsWith ?m) (msgRows tab) \<longleftrightarrow> keyOf ?m \<in> dom (messageMapOf tab) \<or>
      msgFingerprint ?m \<noteq> [] \<and> msgFingerprint ?m \<in> msgFingerprint ` ran (messageMapOf tab)"
    unfolding conflictsWith_iff messageMapOf_def rowMap_ran [OF d] rowMap_dom by (auto simp: image_image)
  have new: "messageMapOf \<lparr>msgRows = msgRows tab @ [messageRow i ?m], lastMsgID = j\<rparr> = (messageMapOf tab)(keyOf ?m \<mapsto> anonymous ?m)"
    if "\<not> list_ex (conflictsWith ?m) (msgRows tab)" for i j
    using that rowMap_snoc [of "messageRow i ?m" "msgRows tab"] unfolding conflictsWith_iff messageMapOf_def by simp
  show ?thesis
    using assms(2) c new
    by (cases "validateMessage ?m"; cases fault; cases "list_ex (conflictsWith ?m) (msgRows tab)")
      (auto simp: InsertMessage_def Let_def)
qed

lemma status_refines:
  assumes "tableStep env (SetMessageStatus fault u) tab = (r, tab')"
  shows "mapStep env (SetMessageStatus fault u) (messageMapOf tab) = (r, messageMapOf tab')"
proof -
  let ?k = "MessageKey (trim_space (updProfileID u)) (trim_space (updSource u)) (trim_space (updExternalKey u))"
  let ?st = "toLower env (trim_space (updStatus u))"
  consider (bad) "trim_space (updProfileID u) = [] \<or> trim_space (updSource u) = [] \<or> trim_space (updExternalKey u) = [] \<or> ?st = []"
    | (fault) e where "\<not> (trim_space (updProfileID u) = [] \<or> trim_space (updSource u) = [] \<or> trim_space (updExternalKey u) = [] \<or> ?st = [])"
      "fault = Some e"
    | (fine) "\<not> (trim_space (updProfileID u) = [] \<or> trim_space (updSource u) = [] \<or> trim_space (updExternalKey u) = [] \<or> ?st = [])"
      "fault = None"
    by (cases fault) blast+
  then show ?thesis
  proof cases
    case bad
    with assms show ?thesis by (simp add: UpdateMessageStatus_def Let_def)
  next
    case fault
    with assms show ?thesis by (simp add: UpdateMessageStatus_def Let_def)
  next
    case fine
    then have "r = StatusSet (Inr (?k \<in> set (map keyOf (msgRows tab))))" "tab' = tab\<lparr>msgRows := setStatus ?k ?st (msgRows tab)\<rparr>"
      using assms by (simp_all add: UpdateMessageStatus_def Let_def)
    with fine show ?thesis
      by (simp add: Let_def messageMapOf_def rowMap_dom rowMap_setStatus)
  qed
qed

lemma orderByText_set [simp]: "set (orderByText env rows) = set rows"
  by (simp add: orderByText_def)

lemma drop_refines:
  assumes "messagesOk tab" and "tableStep env (DropConversation fault fault' p q) tab = (r, tab')"
  shows "mapStep env (DropConversation fault fault' p q) (messageMapOf tab) = (r, messageMapOf tab')"
proof -
  let ?P = "hasParticipant (trim_space p) (trim_space q)"
  have d: "distinct (map keyOf (msgRows tab))" using assms(1) by (simp add: messagesOk_def)
  have gone: "{m \<in> ran (messageMapOf tab). ?P m} = anonymous ` set (filter ?P (msgRows tab))"
    unfolding messageMapOf_def rowMap_ran [OF d] by auto
  have rest: "messageMapOf (tab\<lparr>msgRows := filter (\<lambda>r. \<not> ?P r) (msgRows tab)\<rparr>) =
      (\<lambda>k. if messageMapOf tab k \<in> Some ` {m \<in> ran (messageMapOf tab). ?P m} then None else messageMapOf tab k)"
    unfolding drop_map using rowMap_filter [OF d, of ?P] by (simp add: messageMapOf_def fun_eq_iff)
  have none: "orderByText env rows = [] \<longleftrightarrow> rows = []" for rows
    by (metis orderByText_set set_empty)
  show ?thesis
  proof (cases "trim_space p = [] \<or> trim_space q = []")
    case True
    with assms(2) show ?thesis by (auto simp: DeleteByParticipant_def ListByParticipant_def Let_def)
  next
    case False
    then have p: "trim_space p \<noteq> []" "trim_space q \<noteq> []" by simp_all
    show ?thesis
    proof (cases "fault = None \<and> filter ?P (msgRows tab) \<noteq> []")
      case True
      let ?rows = "filter ?P (msgRows tab)"
      have t: "fault = None" "anonymous ` set ?rows \<noteq> {}" "?rows \<noteq> []"
        using True by (simp_all del: set_filter)
      have bad: "(\<exists>m\<in>anonymous ` set ?rows. timestampRead env m = None) \<longleftrightarrow> (\<exists>r\<in>set ?rows. timestampRead env r = None)"
        by (simp del: set_filter)
      have read: "anonymous ` scannedMessage env ` set ?rows = scannedMessage env ` anonymous ` set ?rows"
        by (simp add: image_image del: set_filter)
      show ?thesis
      proof (cases "\<exists>r\<in>set ?rows. timestampRead env r = None")
        case True
        with assms(2) p t show ?thesis
          unfolding mapStep.simps Let_def gone bad
          by (simp add: DeleteByParticipant_def ListByParticipant_def scanMessages_all list_ex_iff del: set_filter)
      next
        case False
        with assms(2) p t show ?thesis
          unfolding mapStep.simps Let_def gone bad
          by (cases fault')
            (auto simp: DeleteByParticipant_def ListByParticipant_def scanMessages_all list_ex_iff none rest [unfolded gone] read
              simp del: set_filter)
      qed
    next
      case False
      then consider e where "fault = Some e" | "fault = None" "filter ?P (msgRows tab) = []"
        by (cases fault) auto
      then show ?thesis
        using assms(2) p unfolding mapStep.simps Let_def gone
        by cases (simp_all add: DeleteByParticipant_def ListByParticipant_def scanMessages_all none orderByText_def del: set_filter)
    qed
  qed
qed

lemma tableStep_ok: "messagesOk tab \<Longrightarrow> messagesOk (snd (tableStep env op tab))"
  by (cases op) (simp_all add: InsertMessage_ok [OF _ surjective_pairing] UpdateMessageStatus_ok [OF _ surjective_pairing]
    DeleteByParticipant_ok [OF _ surjective_pairing])

lemma tableStep_refines:
  "messagesOk tab \<Longrightarrow> tableStep env op tab = (r, tab') \<Longrightarrow> mapStep env op (messageMapOf tab) = (r, messageMapOf tab')"
  by (cases op) (simp_all only: insert_refines status_refines drop_refines)

interpretation messages: simulation "tableStep env" "mapStep env" messageMapOf messagesOk
  by unfold_locales (metis tableStep_ok snd_conv, rule tableStep_refines)

section \<open>Conversations\<close>

text \<open>A stable sort of rows that come in the order of their ids.\<close>

definition laterBy :: "(Message \<Rightarrow> 'z::linorder) \<Rightarrow> Message \<Rightarrow> Message \<Rightarrow> bool" where
  "laterBy f a b \<longleftrightarrow> f b < f a \<or> f b = f a \<and> msgID b < msgID a"

lemma insort_by_id:
  "sorted_wrt (\<lambda>a b. laterBy f b a) ys \<Longrightarrow> \<forall>y\<in>set ys. msgID x < msgID y \<Longrightarrow>
   sorted_wrt (\<lambda>a b. laterBy f b a) (insort_key f x ys)"
proof (induction ys)
  case (Cons y ys)
  then show ?case
    by (auto simp: set_insort_key laterBy_def)
qed simp

lemma sort_by_id:
  "sorted_wrt (<) (map msgID rows) \<Longrightarrow> sorted_wrt (\<lambda>a b. laterBy f b a) (sort_key f rows)"
  by (induction rows) (simp_all add: insort_by_id)

lemma latestLoop_first:
  assumes "sorted_wrt R xs" and "distinct (map fst acc)"
  shows "distinct (map fst (latestLoop acc xs)) \<and>
    fst ` set (latestLoop acc xs) = fst ` set acc \<union> conversationKey ` set xs \<and>
    (\<forall>km\<in>set (latestLoop acc xs). km \<in> set acc \<or>
       snd km \<in> set xs \<and> fst km = conversationKey (snd km) \<and> fst km \<notin> fst ` set acc \<and>
       (\<forall>r\<in>set xs. conversationKey r = fst km \<longrightarrow> r = snd km \<or> R (snd km) r))"
  using assms
proof (induction acc xs rule: latestLoop.induct)
  case (2 latest msg msgs)
  show ?case
  proof (cases "map_of latest (conversationKey msg) = None")
    case True
    then have new: "conversationKey msg \<notin> fst ` set latest" by (simp add: map_of_eq_None_iff)
    with True 2 have "distinct (map fst (latest @ [(conversationKey msg, msg)]))" by simp
    with "2.IH"(1) [OF True] "2.prems" new True show ?thesis by (auto simp: ball_Un)
  next
    case False
    then have old: "conversationKey msg \<in> fst ` set latest" by (simp add: map_of_eq_None_iff)
    have step: "latestLoop latest (msg # msgs) = latestLoop latest msgs"
      using False by (simp only: latestLoop.simps if_False)
    have "sorted_wrt R msgs" using "2.prems"(1) by simp
    note IH = "2.IH"(2) [OF False this "2.prems"(2)]
    have "conversationKey msg \<noteq> fst km" if "fst km \<notin> fst ` set latest" for km :: "string \<times> Message"
      using old that by metis
    with IH old show ?thesis
      unfolding step by (simp add: insert_absorb) metis
  qed
qed simp

lemma latest_unsorted:
  assumes "messagesOk tab" and "rows = filter P (msgRows tab)"
    and "latest = map snd (latestLoop [] (rev (orderByText env rows)))"
  shows "distinct (map conversationKey latest)" and "conversationKey ` set latest = conversationKey ` set rows"
    and "set latest \<subseteq> set rows"
    and "m \<in> set latest \<Longrightarrow> r \<in> set rows \<Longrightarrow> conversationKey r = conversationKey m \<Longrightarrow> r = m \<or>
      laterBy (\<lambda>m. timeText (datePrefix env) (msgTimestamp m)) m r"
proof -
  let ?R = "laterBy (\<lambda>m. timeText (datePrefix env) (msgTimestamp m))"
  have "sorted_wrt (<) (map msgID rows)"
    using assms(1,2) sorted_wrt_filter [of "\<lambda>a b. msgID a < msgID b" "msgRows tab" P]
    by (simp add: messagesOk_def sorted_wrt_map)
  then have "sorted_wrt ?R (rev (orderByText env rows))"
    unfolding orderByText_def sorted_wrt_rev by (rule sort_by_id)
  from latestLoop_first [OF this, of "[]"]
  have d: "distinct (map fst (latestLoop [] (rev (orderByText env rows))))"
    and k: "fst ` set (latestLoop [] (rev (orderByText env rows))) = conversationKey ` set rows"
    and e: "\<And>km. km \<in> set (latestLoop [] (rev (orderByText env rows))) \<Longrightarrow>
       snd km \<in> set rows \<and> fst km = conversationKey (snd km) \<and>
       (\<forall>r\<in>set rows. conversationKey r = fst km \<longrightarrow> r = snd km \<or> ?R (snd km) r)"
    by auto
  have f: "map conversationKey latest = map fst (latestLoop [] (rev (orderByText env rows)))"
    using e unfolding assms(3) by auto
  show "distinct (map conversationKey latest)" using d unfolding f .
  show "conversationKey ` set latest = conversationKey ` set rows"
    using arg_cong [OF f, of set] k by simp
  show "set latest \<subseteq> set rows" using e unfolding assms(3) by auto
  show "r = m \<or> ?R m r" if "m \<in> set latest" "r \<in> set rows" "conversationKey r = conversationKey m"
  proof -
    have "m \<in> snd ` set (latestLoop [] (rev (orderByText env rows)))"
      using that(1) unfolding assms(3) by simp
    then obtain k where "(k, m) \<in> set (latestLoop [] (rev (orderByText env rows)))"
      by auto
    from e [OF this] that(2,3) show ?thesis by auto
  qed
qed

text \<open>
  The date text grows with its instant for the years 1 to 9999, whose fields RFC 3339 writes with a fixed width.
\<close>

abbreviation (input) year10000 :: int where "year10000 \<equiv> 315537897600"

definition datesGrow :: "messageEnv \<Rightarrow> bool" where
  "datesGrow env \<longleftrightarrow> (\<forall>s t. 0 \<le> s \<longrightarrow> s < t \<longrightarrow> t < year10000 \<longrightarrow> datePrefix env s @ ''Z'' < datePrefix env t @ ''Z'')"

definition wholeSecond :: "time \<Rightarrow> bool" where
  "wholeSecond t \<longleftrightarrow> t mod second = 0 \<and> 0 \<le> t \<and> t < year10000 * second"

lemma whole_second_text:
  assumes "datesGrow env" and "wholeSecond s" and "wholeSecond t"
  shows "timeText (datePrefix env) s < timeText (datePrefix env) t \<longleftrightarrow> s < t"
    and "timeText (datePrefix env) s = timeText (datePrefix env) t \<longleftrightarrow> s = t"
proof -
  have short: "timeText (datePrefix env) u = datePrefix env (u div second) @ ''Z''" if "wholeSecond u" for u
    using that by (simp add: timeText_def timeFraction_def wholeSecond_def)
  have "\<exists>q. u = second * q \<and> 0 \<le> q \<and> q < year10000" if "wholeSecond u" for u
    using that by (auto simp: wholeSecond_def mod_eq_0_iff_dvd elim!: dvdE)
  then obtain a b where ab: "s = second * a" "0 \<le> a" "a < year10000" "t = second * b" "0 \<le> b" "b < year10000"
    using assms(2,3) by metis
  have grow: "datePrefix env x @ ''Z'' < datePrefix env y @ ''Z''" if "0 \<le> x" "x < y" "y < year10000" for x y
    using assms(1) that unfolding datesGrow_def by blast
  have ts: "timeText (datePrefix env) s = datePrefix env a @ ''Z''" "timeText (datePrefix env) t = datePrefix env b @ ''Z''"
    by (simp_all add: short [OF assms(2)] short [OF assms(3)]) (simp_all add: ab)
  show "timeText (datePrefix env) s < timeText (datePrefix env) t \<longleftrightarrow> s < t"
    using grow [of a b] grow [of b a] ab(2,3,5,6) unfolding ts unfolding ab(1,4)
    by (cases a b rule: linorder_cases) auto
  show "timeText (datePrefix env) s = timeText (datePrefix env) t \<longleftrightarrow> s = t"
    using grow [of a b] grow [of b a] ab(2,3,5,6) unfolding ts unfolding ab(1,4)
    by (cases a b rule: linorder_cases) auto
qed

lemma sortByTime_set [simp]: "set (sortByTime ms) = set ms"
  by (simp add: sortByTime_def)

lemma sortByTime_sorted: "sorted_wrt (\<lambda>a b. msgTimestamp b \<le> msgTimestamp a) (sortByTime ms)"
proof -
  have "sorted (map (\<lambda>m. - msgTimestamp m) (sortByTime ms))" by (simp add: sortByTime_def)
  then show ?thesis by (simp add: sorted_wrt_map)
qed

lemma sortByTime_distinct: "distinct (map f ms) \<Longrightarrow> distinct (map f (sortByTime ms))"
  by (simp add: sortByTime_def distinct_map)

section \<open>Properties\<close>

text \<open>
  C9: The message table implements a map with at most one message for each profile, source and
  external key: every sequence of insertions, status updates and deletions of conversations, with whatever database
  errors, gives the answers that the map gives, and keeps the two unique indexes, the order of the ids and
  the normal form of the rows.
\<close>

theorem messages_refine_map:
  assumes "messagesOk tab" and "runOps (tableStep env) ops tab = (rs, tab')"
  shows "runOps (mapStep env) ops (messageMapOf tab) = (rs, messageMapOf tab') \<and> messagesOk tab'"
  using messages.sim_run [OF assms] messages.inv_run [OF assms] by blast

text \<open>
  The conversation list has exactly one message for each counterparty of the profile that has any, newest
  first; and when the instants are whole seconds it is the latest one, by id among messages of the same instant.
\<close>

theorem conversations_latest:
  assumes "messagesOk tab" and "trim_space p \<noteq> []" and "datesGrow env" and "timesRead env tab"
    and "list_all (\<lambda>r. wholeSecond (msgTimestamp r)) (msgRows tab)"
  shows "case ListConversations env None p [] tab of Inl e \<Rightarrow> False | Inr ms \<Rightarrow>
    distinct (map conversationKey ms) \<and> sorted_wrt (\<lambda>a b. msgTimestamp b \<le> msgTimestamp a) ms \<and>
    conversationKey ` set ms = conversationKey ` {r \<in> set (msgRows tab). msgProfileID r = trim_space p} \<and>
    (\<forall>m\<in>set ms. m \<in> set (msgRows tab) \<and> msgProfileID m = trim_space p \<and>
      (\<forall>r\<in>set (msgRows tab). msgProfileID r = trim_space p \<longrightarrow> conversationKey r = conversationKey m \<longrightarrow>
         r = m \<or> msgTimestamp r < msgTimestamp m \<or> msgTimestamp r = msgTimestamp m \<and> msgID r < msgID m))"
proof -
  let ?rows = "filter (\<lambda>r. msgProfileID r = trim_space p) (msgRows tab)"
  define latest where "latest = map snd (latestLoop [] (rev (orderByText env ?rows)))"
  note l = latest_unsorted [OF assms(1) refl latest_def]
  have same: "timestampRead env r = Some (msgTimestamp r)" "scannedMessage env r = r" if "r \<in> set (msgRows tab)" for r
    using assms(1,4) that by (auto simp: timesRead_def scannedMessage_def messagesOk_def messageOk_def list_all_iff)
  have "scanMessages env (rev (orderByText env ?rows)) = Inr (rev (orderByText env ?rows))"
    using same by (auto simp: scanMessages_all list_ex_iff intro!: map_idI)
  then have eq: "ListConversations env None p [] tab = Inr (sortByTime latest)"
    using assms(2) by (simp add: ListConversations_def searchTerms_def Let_def latest_def)
  have later: "r = m \<or> msgTimestamp r < msgTimestamp m \<or> msgTimestamp r = msgTimestamp m \<and> msgID r < msgID m"
    if "m \<in> set latest" "r \<in> set ?rows" "conversationKey r = conversationKey m" for m r
  proof -
    have "wholeSecond (msgTimestamp m)" "wholeSecond (msgTimestamp r)"
      using assms(5) l(3) that(1,2) by (auto simp: list_all_iff)
    from whole_second_text [OF assms(3) this] whole_second_text [OF assms(3) this(2,1)] l(4) [OF that]
    show ?thesis unfolding laterBy_def by auto
  qed
  show ?thesis
    using l(1-3) later unfolding eq by (auto simp: sortByTime_distinct sortByTime_sorted)
qed

section \<open>An example\<close>

text \<open>
  A hash and a date text that are easy to compute. The table holds two messages from one sender, received a second
  apart, and one to another number.
\<close>

definition exampleMessages :: messageEnv where
  "exampleMessages = \<lparr>sha256Sum = (\<lambda>s. [of_nat (length s)]), toLower = (\<lambda>s. s),
     datePrefix = (\<lambda>n. replicate (nat n) (CHR ''a'')), readTime = (\<lambda>s. Some (second * (int (length s) - 1))), sqlLike = (\<lambda>p s. True)\<rparr>"

definition exampleMessage :: "string \<Rightarrow> string \<Rightarrow> time \<Rightarrow> bool \<Rightarrow> Message" where
  "exampleMessage key peer t incoming = \<lparr>msgID = 0, msgModemID = ''m'', msgProfileID = ''p'', msgSource = ''modem'',
     msgExternalKey = key, msgFingerprint = key, msgSender = (if incoming then peer else ''1''),
     msgRecipient = (if incoming then ''1'' else peer), msgText = ''x'', msgTimestamp = t, msgStatus = ''received'',
     msgIncoming = incoming, msgRouted = False\<rparr>"

definition exampleTable :: messageTable where
  "exampleTable = \<lparr>msgRows = [messageRow 1 (exampleMessage ''a'' ''7'' second True),
     messageRow 2 (exampleMessage ''b'' ''7'' (2 * second) True),
     messageRow 3 (exampleMessage ''c'' ''8'' second False)], lastMsgID = 3\<rparr>"

lemma example_datesGrow: "datesGrow exampleMessages"
proof -
  have "replicate m (CHR ''a'') @ ''Z'' < replicate n (CHR ''a'') @ ''Z''" if "m < n" for m n
    using that
  proof (induction m arbitrary: n)
    case 0
    then obtain k where "n = Suc k" by (cases n) auto
    then show ?case by (simp add: less_char_def)
  next
    case (Suc m)
    then obtain k where "n = Suc k" "m < k" by (cases n) auto
    with Suc show ?case by simp
  qed
  then show ?thesis by (simp add: datesGrow_def exampleMessages_def)
qed

lemma exampleTable_ok: "messagesOk exampleTable"
  by (simp add: messageRow_def messagesOk_def exampleTable_def exampleMessage_def keyOf_def messageOk_def validateMessage_def
      trim_space_graphic graphic_def)

definition exampleOps :: "messageOp list" where
  "exampleOps = [SetMessageStatus None \<lparr>updProfileID = ''p'', updSource = ''modem'', updExternalKey = ''c'', updStatus = ''sent''\<rparr>,
     DropConversation None None ''p'' ''7'']"

theorem messages_refine_map_witness:
  "runOps (mapStep exampleMessages) exampleOps (messageMapOf exampleTable) =
     (fst (runOps (tableStep exampleMessages) exampleOps exampleTable),
      messageMapOf (snd (runOps (tableStep exampleMessages) exampleOps exampleTable)))"
  using messages_refine_map [OF exampleTable_ok prod.collapse [symmetric]] by blast

theorem conversations_latest_witness:
  "case ListConversations exampleMessages None ''p'' [] exampleTable of Inl e \<Rightarrow> False | Inr ms \<Rightarrow>
     conversationKey ` set ms = {''7'', ''8''}"
proof -
  have p: "trim_space ''p'' = ''p''" "trim_space ''7'' = ''7''" "trim_space ''8'' = ''8''"
    by (simp_all add: trim_space_graphic graphic_def)
  have whole: "list_all (\<lambda>r. wholeSecond (msgTimestamp r)) (msgRows exampleTable)"
    by (simp add: exampleTable_def exampleMessage_def messageRow_def wholeSecond_def)
  have "timesRead exampleMessages exampleTable"
    by (simp add: timesRead_def timestampRead_def exampleMessages_def exampleTable_def exampleMessage_def messageRow_def timeText_def timeFraction_def)
  from conversations_latest [OF exampleTable_ok _ example_datesGrow this whole, of "''p''"]
  have "case ListConversations exampleMessages None ''p'' [] exampleTable of Inl e \<Rightarrow> False | Inr ms \<Rightarrow>
      conversationKey ` set ms = conversationKey ` {r \<in> set (msgRows exampleTable). msgProfileID r = ''p''}"
    by (auto simp: p split: sum.splits)
  moreover have "conversationKey ` {r \<in> set (msgRows exampleTable). msgProfileID r = ''p''} = {''7'', ''8''}"
    unfolding set_filter [symmetric]
    by (simp add: exampleTable_def exampleMessage_def messageRow_def conversationKey_def Counterparty_def p)
  ultimately show ?thesis by (auto split: sum.splits)
qed

end
