(* ===== verification/SmsTracker.thy ===== *)
theory SmsTracker
  imports MessageStore VoiceSession
begin

text \<open>
  Delivery reports of the SMS sent over Wi-Fi Calling (\<open>pro/wificalling/sms.go\<close>).

  Sending gives a submission of several segments; the coordinator tracks it and turns the reports of the
  segments into one status of the stored message. The message is stored by the caller after sending
  (\<open>internal/pkg/message/messenger.go\<close>), so a report may come before the row exists: the status is then
  kept and applied later.

  The map of trackers is the list of its entries; a tracker is stored once, so its key stands for the pointer.
  Every section under the lock and every statement of the database is one step; a function that consists of
  several takes what other goroutines do in between as arguments (\<open>during\<close>). The Wi-Fi Calling library is not
  under \<open>src/\<close>: its submissions and updates are records of what the code reads.
\<close>

section \<open>Trackers\<close>

datatype smsSubmissionKey = SmsKey string string string

record smsSubmissionTracker =
  subProfileID :: string
  subExternalKey :: string
  segmentCount :: nat
  segStatuses :: "(int \<times> string) list"
  subCurrent :: string
  pendingStore :: string
  expiresAt :: time

record SMSSubmission =
  smsSubmissionID :: string
  Segments :: "int list"
  SubmittedAt :: time

datatype smsUpdateState = SMSRejectedBySMSC | SMSDeliveryFailed | SMSDelivered | SMSOtherState

record SMSSubmissionUpdate =
  upSubmissionID :: string
  upSegmentIndex :: int
  upState :: smsUpdateState

record smsStatusUpdate =
  suProfileID :: string
  suExternalKey :: string
  suStatus :: string

record smsState =
  smsSubmissions :: "(smsSubmissionKey \<times> smsSubmissionTracker) list"
  smsMessages :: messageTable

definition smsSubmissionRetention :: duration where
  "smsSubmissionRetention = 6 * 3600 * second"

definition smsSubmissionUpdateStatus :: "SMSSubmissionUpdate \<Rightarrow> string" where
  "smsSubmissionUpdateStatus u =
     (case upState u of
        SMSRejectedBySMSC \<Rightarrow> ''failed''
      | SMSDeliveryFailed \<Rightarrow> ''failed''
      | SMSDelivered \<Rightarrow> ''delivered''
      | SMSOtherState \<Rightarrow> [])"

text \<open>The loop returns at the first failed segment and counts the delivered ones, in whatever order the map has.\<close>

definition aggregateStatus :: "smsSubmissionTracker \<Rightarrow> string" where
  "aggregateStatus t =
     (if segmentCount t = 0 then []
      else if ''failed'' \<in> snd ` set (segStatuses t) then ''failed''
      else if length (filter (\<lambda>s. snd s = ''delivered'') (segStatuses t)) = segmentCount t then ''delivered''
      else [])"

definition smsStatusFinal :: "string \<Rightarrow> bool" where
  "smsStatusFinal status \<longleftrightarrow> status = ''delivered'' \<or> status = ''failed''"

definition outgoingSMSSubmissionKey :: "string \<Rightarrow> string \<Rightarrow> string \<Rightarrow> smsSubmissionKey" where
  "outgoingSMSSubmissionKey modemID profileID submissionID =
     SmsKey (trim_space modemID) (trim_space profileID) (trim_space submissionID)"

definition cleanupSMSSubmissionsLocked ::
  "time \<Rightarrow> (smsSubmissionKey \<times> smsSubmissionTracker) list \<Rightarrow> (smsSubmissionKey \<times> smsSubmissionTracker) list" where
  "cleanupSMSSubmissionsLocked now subs = filter (\<lambda>(k, t). \<not> expiresAt t < now) subs"

text \<open>The entry found by profile and external key; external keys are random, so there is at most one.\<close>

definition findSMSSubmissionTrackerLocked ::
  "string \<Rightarrow> string \<Rightarrow> (smsSubmissionKey \<times> smsSubmissionTracker) list \<Rightarrow> (smsSubmissionKey \<times> smsSubmissionTracker) option" where
  "findSMSSubmissionTrackerLocked profileID externalKey subs =
     find (\<lambda>(k, t). subProfileID t = trim_space profileID \<and> subExternalKey t = trim_space externalKey) subs"

definition removeSMSSubmissionTrackerLocked ::
  "smsSubmissionKey \<Rightarrow> (smsSubmissionKey \<times> smsSubmissionTracker) list \<Rightarrow> (smsSubmissionKey \<times> smsSubmissionTracker) list" where
  "removeSMSSubmissionTrackerLocked key subs = AList.delete key subs"

definition setTracker ::
  "smsSubmissionKey \<Rightarrow> smsSubmissionTracker \<Rightarrow> smsState \<Rightarrow> smsState" where
  "setTracker key t st = st\<lparr>smsSubmissions := AList.update key t (smsSubmissions st)\<rparr>"

section \<open>Operations\<close>

definition trackOutgoingSMSSubmission ::
  "time \<Rightarrow> Message \<Rightarrow> SMSSubmission \<Rightarrow> smsState \<Rightarrow> string \<times> smsState" where
  "trackOutgoingSMSSubmission now msg submission st =
     (if Segments submission = [] then ([], st)
      else
        let subs = cleanupSMSSubmissionsLocked now (smsSubmissions st);
            tracker = \<lparr>subProfileID = msgProfileID msg, subExternalKey = msgExternalKey msg,
                       segmentCount = length (Segments submission),
                       segStatuses = fold (\<lambda>i. AList.update i []) (Segments submission) [],
                       subCurrent = [], pendingStore = [], expiresAt = now + smsSubmissionRetention\<rparr>;
            tracker = tracker\<lparr>subCurrent := aggregateStatus tracker\<rparr>;
            key = outgoingSMSSubmissionKey (msgModemID msg) (msgProfileID msg) (smsSubmissionID submission);
            subs = AList.update key tracker subs;
            subs = (if smsStatusFinal (subCurrent tracker) then removeSMSSubmissionTrackerLocked key subs else subs)
        in (subCurrent tracker, st\<lparr>smsSubmissions := subs\<rparr>))"

definition recordSMSSubmissionUpdate ::
  "time \<Rightarrow> string \<Rightarrow> string \<Rightarrow> SMSSubmissionUpdate \<Rightarrow> string \<Rightarrow> smsState \<Rightarrow> smsStatusUpdate option \<times> smsState" where
  "recordSMSSubmissionUpdate now modemID profileID u status st =
     (let key = outgoingSMSSubmissionKey modemID profileID (upSubmissionID u);
          st = st\<lparr>smsSubmissions := cleanupSMSSubmissionsLocked now (smsSubmissions st)\<rparr> in
      case map_of (smsSubmissions st) key of
        None \<Rightarrow> (None, st)
      | Some t \<Rightarrow>
          if map_of (segStatuses t) (upSegmentIndex u) = None then (None, st)
          else
            let t = t\<lparr>segStatuses := AList.update (upSegmentIndex u) status (segStatuses t)\<rparr>;
                aggregate = aggregateStatus t in
            if aggregate = [] \<or> aggregate = subCurrent t then (None, setTracker key t st)
            else (Some \<lparr>suProfileID = subProfileID t, suExternalKey = subExternalKey t, suStatus = aggregate\<rparr>,
                  setTracker key (t\<lparr>subCurrent := aggregate\<rparr>) st))"

definition deferStoredSMSStatus :: "smsStatusUpdate \<Rightarrow> smsState \<Rightarrow> smsState" where
  "deferStoredSMSStatus u st =
     (case findSMSSubmissionTrackerLocked (suProfileID u) (suExternalKey u) (smsSubmissions st) of
        None \<Rightarrow> st
      | Some (key, t) \<Rightarrow> setTracker key (t\<lparr>pendingStore := suStatus u\<rparr>) st)"

definition pendingSMSStatus :: "time \<Rightarrow> Message \<Rightarrow> smsState \<Rightarrow> smsStatusUpdate option \<times> smsState" where
  "pendingSMSStatus now msg st =
     (let st = st\<lparr>smsSubmissions := cleanupSMSSubmissionsLocked now (smsSubmissions st)\<rparr> in
      case findSMSSubmissionTrackerLocked (msgProfileID msg) (msgExternalKey msg) (smsSubmissions st) of
        None \<Rightarrow> (None, st)
      | Some (key, t) \<Rightarrow>
          if pendingStore t = [] then (None, st)
          else (Some \<lparr>suProfileID = subProfileID t, suExternalKey = subExternalKey t, suStatus = pendingStore t\<rparr>, st))"

definition completeStoredSMSStatus :: "smsStatusUpdate \<Rightarrow> smsState \<Rightarrow> smsState" where
  "completeStoredSMSStatus u st =
     (case findSMSSubmissionTrackerLocked (suProfileID u) (suExternalKey u) (smsSubmissions st) of
        None \<Rightarrow> st
      | Some (key, t) \<Rightarrow>
          let st = setTracker key (t\<lparr>pendingStore := []\<rparr>) st in
          if smsStatusFinal (suStatus u)
          then st\<lparr>smsSubmissions := removeSMSSubmissionTrackerLocked key (smsSubmissions st)\<rparr> else st)"

definition stopSMSSubmissionTracking :: "string \<Rightarrow> string \<Rightarrow> string \<Rightarrow> smsState \<Rightarrow> smsState" where
  "stopSMSSubmissionTracking modemID profileID submissionID st =
     (let key = outgoingSMSSubmissionKey modemID profileID submissionID in
      case map_of (smsSubmissions st) key of
        None \<Rightarrow> st
      | Some t \<Rightarrow>
          if pendingStore t \<noteq> [] then st else st\<lparr>smsSubmissions := AList.delete key (smsSubmissions st)\<rparr>)"

text \<open>The statement \<open>UPDATE messages SET status\<close> on the state.\<close>

definition storeSMSStatus ::
  "messageEnv \<Rightarrow> string option \<Rightarrow> smsStatusUpdate \<Rightarrow> smsState \<Rightarrow> (messageError + bool) \<times> smsState" where
  "storeSMSStatus env fault u st =
     (let (r, tab) = UpdateMessageStatus env fault
             \<lparr>updProfileID = suProfileID u, updSource = MessageSourceRouted, updExternalKey = suExternalKey u,
              updStatus = suStatus u\<rparr> (smsMessages st)
      in (r, st\<lparr>smsMessages := tab\<rparr>))"

text \<open>Without a store the status is complete at once.\<close>

definition updateStoredSMSStatus ::
  "messageEnv \<Rightarrow> bool \<Rightarrow> string option \<Rightarrow> (smsState \<Rightarrow> smsState) \<Rightarrow> smsStatusUpdate \<Rightarrow> smsState \<Rightarrow> smsState" where
  "updateStoredSMSStatus env hasStore fault during u st =
     (if \<not> hasStore then completeStoredSMSStatus u st
      else case storeSMSStatus env fault u st of
        (Inl e, st) \<Rightarrow> during st
      | (Inr updated, st) \<Rightarrow>
          if \<not> updated then deferStoredSMSStatus u (during st) else completeStoredSMSStatus u (during st))"

definition ApplyPendingSMSStatus ::
  "messageEnv \<Rightarrow> bool \<Rightarrow> string option \<Rightarrow> time \<Rightarrow> (smsState \<Rightarrow> smsState) \<Rightarrow> (smsState \<Rightarrow> smsState) \<Rightarrow> Message \<Rightarrow> smsState \<Rightarrow>
   messageError option \<times> smsState" where
  "ApplyPendingSMSStatus env hasStore fault now during during' msg st =
     (if \<not> hasStore \<or> msgSource msg \<noteq> MessageSourceRouted then (None, st)
      else case pendingSMSStatus now msg st of
        (None, st) \<Rightarrow> (None, st)
      | (Some u, st) \<Rightarrow>
          (case storeSMSStatus env fault u (during st) of
             (Inl e, st) \<Rightarrow> (Some e, st)
           | (Inr updated, st) \<Rightarrow> (None, if updated then completeStoredSMSStatus u (during' st) else st)))"

text \<open>One update of a submission, as the watching goroutine handles it.\<close>

definition watchUpdate ::
  "messageEnv \<Rightarrow> bool \<Rightarrow> string option \<Rightarrow> time \<Rightarrow> (smsState \<Rightarrow> smsState) \<Rightarrow> (smsState \<Rightarrow> smsState) \<Rightarrow> string \<Rightarrow> string \<Rightarrow>
   SMSSubmissionUpdate \<Rightarrow> smsState \<Rightarrow> smsState" where
  "watchUpdate env hasStore fault now during during' modemID profileID u st =
     (let status = smsSubmissionUpdateStatus u in
      if status = [] then st
      else case recordSMSSubmissionUpdate now modemID profileID u status st of
        (None, st) \<Rightarrow> st
      | (Some su, st) \<Rightarrow> updateStoredSMSStatus env hasStore fault during' su (during st))"

section \<open>Keys and sending\<close>

text \<open>Sixteen random bytes, or the error of the random source.\<close>

definition newOutgoingMessageKey :: "(string + byte list) \<Rightarrow> string + string" where
  "newOutgoingMessageKey random = map_sum (\<lambda>e. ''create outgoing message key: '' @ e) (\<lambda>b. ''outgoing:'' @ hex_encode b) random"

record vowifiSMS =
  smsFrom :: string
  smsTo :: string
  smsServiceCenter :: string
  smsText :: string
  smsCallID :: string
  smsReceivedAt :: time

definition incomingMessageKey :: "messageEnv \<Rightarrow> vowifiSMS \<Rightarrow> string" where
  "incomingMessageKey env msg =
     (let callID = trim_space (smsCallID msg) in
      if callID \<noteq> [] then callID
      else ''incoming:'' @ hex_encode (sha256Sum env (joinZero
             [smsFrom msg, smsTo msg, smsServiceCenter msg, smsText msg, timeText (datePrefix env) (smsReceivedAt msg)])))"

text \<open>The message handed to \<open>onIncoming\<close>.\<close>

definition incomingSMS :: "messageEnv \<Rightarrow> string \<Rightarrow> string \<Rightarrow> vowifiSMS \<Rightarrow> Message" where
  "incomingSMS env modemID profileID msg =
     \<lparr>msgID = 0, msgModemID = modemID, msgProfileID = profileID, msgSource = MessageSourceRouted,
      msgExternalKey = incomingMessageKey env msg, msgFingerprint = [], msgSender = trim_space (smsFrom msg),
      msgRecipient = trim_space (smsTo msg), msgText = smsText msg, msgTimestamp = smsReceivedAt msg,
      msgStatus = ''received'', msgIncoming = True, msgRouted = True\<rparr>"

definition forwardIncoming ::
  "messageEnv \<Rightarrow> (string \<Rightarrow> Message \<Rightarrow> 's \<Rightarrow> 's) option \<Rightarrow> string \<Rightarrow> string \<Rightarrow> vowifiSMS \<Rightarrow> 's \<Rightarrow> 's" where
  "forwardIncoming env onIncoming modemID profileID msg s =
     (case onIncoming of None \<Rightarrow> s | Some f \<Rightarrow> f modemID (incomingSMS env modemID profileID msg) s)"

datatype sendSMSError = SendProfile string | SendRoute wfcError | SendKey string | SendClient vowifiError

text \<open>The answer of the library to \<open>Send\<close> is an argument; the result is the message that the caller stores.\<close>

definition SendSMS ::
  "imsVoice \<Rightarrow> time \<Rightarrow> string \<Rightarrow> string \<Rightarrow> (string + string) \<Rightarrow> (string + byte list) \<Rightarrow> (vowifiError + SMSSubmission) \<Rightarrow>
   string \<Rightarrow> string \<Rightarrow> coordinator \<Rightarrow> smsState \<Rightarrow> (sendSMSError + Message) \<times> coordinator \<times> smsState" where
  "SendSMS ims now modemID number profile random answer recipient body c st =
     (case profile of
        Inl e \<Rightarrow> (Inl (SendProfile e), c, st)
      | Inr profileID \<Rightarrow>
     (case connectedClient modemID profileID c of
        Inl e \<Rightarrow> (Inl (SendRoute e), c, st)
      | Inr client \<Rightarrow>
     (case newOutgoingMessageKey random of
        Inl e \<Rightarrow> (Inl (SendKey e), c, st)
      | Inr externalKey \<Rightarrow>
     (case answer of
        Inl vowifiNotConnected \<Rightarrow>
          (Inl (SendRoute wfcErrNotConnected), handleClientDisconnected ims now modemID (Some client) vowifiNotConnected c, st)
      | Inl err \<Rightarrow> (Inl (SendClient err), c, st)
      | Inr submission \<Rightarrow>
          let msg = \<lparr>msgID = 0, msgModemID = modemID, msgProfileID = profileID, msgSource = MessageSourceRouted,
                     msgExternalKey = externalKey, msgFingerprint = [], msgSender = number,
                     msgRecipient = trim_space recipient, msgText = body, msgTimestamp = SubmittedAt submission,
                     msgStatus = ''sent'', msgIncoming = False, msgRouted = True\<rparr>;
              (status, st) = trackOutgoingSMSSubmission now msg submission st
          in (Inr (if status \<noteq> [] then msg\<lparr>msgStatus := status\<rparr> else msg), c, st)))))"

section \<open>Storing a sent message\<close>

text \<open>
  \<open>insertSentMessage\<close> of the messenger: the row, then the status that was waiting for it. A refused insertion is
  only logged. The route is the Wi-Fi Calling coordinator.
\<close>

definition insertSentMessage ::
  "messageEnv \<Rightarrow> string option \<Rightarrow> string option \<Rightarrow> time \<Rightarrow> time \<Rightarrow> (smsState \<Rightarrow> smsState) \<Rightarrow> (smsState \<Rightarrow> smsState) \<Rightarrow>
   (smsState \<Rightarrow> smsState) \<Rightarrow> Message \<Rightarrow> smsState \<Rightarrow> messageError option \<times> smsState" where
  "insertSentMessage env fault fault' now now' during during' during'' msg st =
     (case InsertMessage env fault now msg (smsMessages st) of
        (Inl e, tab) \<Rightarrow> (Some e, st\<lparr>smsMessages := tab\<rparr>)
      | (Inr inserted, tab) \<Rightarrow>
          ApplyPendingSMSStatus env True fault' now' during' during'' msg (during (st\<lparr>smsMessages := tab\<rparr>)))"

definition messageStatus :: "string \<Rightarrow> string \<Rightarrow> smsState \<Rightarrow> string option" where
  "messageStatus profileID externalKey st =
     map_option msgStatus (messageMapOf (smsMessages st) (MessageKey profileID MessageSourceRouted externalKey))"

section \<open>One tracked submission\<close>

text \<open>The tracker \<open>t\<close> is the entry of \<open>key\<close>, and the only one for its message.\<close>

definition watches :: "(smsSubmissionKey \<times> smsSubmissionTracker) list \<Rightarrow> smsSubmissionKey \<Rightarrow> smsSubmissionTracker \<Rightarrow> bool" where
  "watches subs key t \<longleftrightarrow> distinct (map fst subs) \<and> map_of subs key = Some t \<and>
     list_all (\<lambda>(k, u). subProfileID u = subProfileID t \<and> subExternalKey u = subExternalKey t \<longrightarrow> k = key) subs \<and>
     trim_space (subProfileID t) = subProfileID t \<and> trim_space (subExternalKey t) = subExternalKey t \<and>
     subProfileID t \<noteq> [] \<and> subExternalKey t \<noteq> []"

lemma watches_find: "watches subs key t \<Longrightarrow> findSMSSubmissionTrackerLocked (subProfileID t) (subExternalKey t) subs = Some (key, t)"
proof -
  assume w: "watches subs key t"
  let ?P = "\<lambda>(k, u). subProfileID u = subProfileID t \<and> subExternalKey u = subExternalKey t"
  have m: "(key, t) \<in> set subs" using w by (auto simp: watches_def dest: map_of_SomeD)
  have only: "x = (key, t)" if "x \<in> set subs" "?P x" for x
    using that w by (auto simp: watches_def list_all_iff dest!: map_of_is_SomeI)
  have "find ?P subs = Some (key, t)"
  proof (cases "find ?P subs")
    case None
    with m show ?thesis by (auto simp: find_None_iff)
  next
    case (Some x)
    then have "x \<in> set subs" "?P x" unfolding find_Some_iff by (metis nth_mem)+
    then show ?thesis using Some only by blast
  qed
  with w show ?thesis by (simp add: findSMSSubmissionTrackerLocked_def watches_def)
qed

lemma map_of_filter_kept: "distinct (map fst xs) \<Longrightarrow> map_of xs k = Some v \<Longrightarrow> P (k, v) \<Longrightarrow> map_of (filter P xs) k = Some v"
  by (induction xs) (auto split: if_splits)

lemma watches_cleanup: "watches subs key t \<Longrightarrow> \<not> expiresAt t < now \<Longrightarrow> watches (cleanupSMSSubmissionsLocked now subs) key t"
  unfolding watches_def cleanupSMSSubmissionsLocked_def
  by (auto simp: list_all_iff distinct_map_filter intro!: map_of_filter_kept)

lemma watches_update:
  assumes "watches subs key t" and "subProfileID t' = subProfileID t" and "subExternalKey t' = subExternalKey t"
  shows "watches (AList.update key t' subs) key t'"
proof -
  have "set (AList.update key t' subs) \<subseteq> insert (key, t') (set subs)"
    by (induction subs) auto
  with assms show ?thesis
    unfolding watches_def by (auto simp: update_conv' distinct_update list_all_iff)
qed

text \<open>The sum of the reports is empty or final.\<close>

lemma aggregateStatus_final: "aggregateStatus t \<noteq> [] \<Longrightarrow> smsStatusFinal (aggregateStatus t)"
  by (auto simp: aggregateStatus_def smsStatusFinal_def split: if_splits)

definition plainStatuses :: "messageEnv \<Rightarrow> bool" where
  "plainStatuses env \<longleftrightarrow> toLower env ''delivered'' = ''delivered'' \<and> toLower env ''failed'' = ''failed''"

lemma final_plain: "plainStatuses env \<Longrightarrow> smsStatusFinal s \<Longrightarrow> toLower env (trim_space s) = s \<and> s \<noteq> []"
  by (auto simp: smsStatusFinal_def plainStatuses_def trim_space_graphic graphic_def)

lemma storeSMSStatus_eq:
  assumes "plainStatuses env" "smsStatusFinal (suStatus u)" "trim_space (suProfileID u) = suProfileID u" "suProfileID u \<noteq> []"
    "trim_space (suExternalKey u) = suExternalKey u" "suExternalKey u \<noteq> []" "storeSMSStatus env None u st = (r, st')"
  shows "smsSubmissions st' = smsSubmissions st"
    and "r = Inr (messageStatus (suProfileID u) (suExternalKey u) st \<noteq> None)"
    and "messageStatus (suProfileID u) (suExternalKey u) st' =
      map_option (\<lambda>_. suStatus u) (messageStatus (suProfileID u) (suExternalKey u) st)"
proof -
  let ?u = "\<lparr>updProfileID = suProfileID u, updSource = MessageSourceRouted, updExternalKey = suExternalKey u, updStatus = suStatus u\<rparr>"
  have src: "trim_space MessageSourceRouted = MessageSourceRouted" "MessageSourceRouted \<noteq> []"
    by (simp_all add: MessageSourceRouted_def trim_space_graphic graphic_def)
  obtain tab where up: "UpdateMessageStatus env None ?u (smsMessages st) = (r, tab)" and st': "st' = st\<lparr>smsMessages := tab\<rparr>"
    using assms(7) by (auto simp: storeSMSStatus_def split: prod.splits)
  have "tableStep env (SetMessageStatus None ?u) (smsMessages st) = (StatusSet r, tab)"
    using up by simp
  from status_refines [OF this] final_plain [OF assms(1,2)] assms(3-6) src
  have m: "r = Inr (MessageKey (suProfileID u) MessageSourceRouted (suExternalKey u) \<in> dom (messageMapOf (smsMessages st)))"
    "messageMapOf tab = (messageMapOf (smsMessages st)) (MessageKey (suProfileID u) MessageSourceRouted (suExternalKey u) :=
       map_option (\<lambda>m. m\<lparr>msgStatus := suStatus u\<rparr>) (messageMapOf (smsMessages st) (MessageKey (suProfileID u) MessageSourceRouted (suExternalKey u))))"
    by (simp_all add: Let_def)
  show "smsSubmissions st' = smsSubmissions st" by (simp add: st')
  show "r = Inr (messageStatus (suProfileID u) (suExternalKey u) st \<noteq> None)"
    by (auto simp: m(1) messageStatus_def)
  show "messageStatus (suProfileID u) (suExternalKey u) st' =
      map_option (\<lambda>_. suStatus u) (messageStatus (suProfileID u) (suExternalKey u) st)"
    by (simp add: st' messageStatus_def m(2) option.map_comp comp_def)
qed

lemma setStatus_missing: "key \<notin> set (map keyOf rows) \<Longrightarrow> setStatus key s rows = rows"
  by (induction rows) (auto simp: setStatus_def)

lemma storeSMSStatus_missing:
  assumes "messageStatus (suProfileID u) (suExternalKey u) st = None" "trim_space (suProfileID u) = suProfileID u"
    "trim_space (suExternalKey u) = suExternalKey u"
  shows "snd (storeSMSStatus env None u st) = st"
proof -
  have "trim_space MessageSourceRouted = MessageSourceRouted"
    by (simp add: MessageSourceRouted_def trim_space_graphic graphic_def)
  moreover have "MessageKey (suProfileID u) MessageSourceRouted (suExternalKey u) \<notin> set (map keyOf (msgRows (smsMessages st)))"
    using assms(1) by (simp add: messageStatus_def messageMapOf_def rowMap_None)
  ultimately show ?thesis
    using assms(2,3) by (simp add: storeSMSStatus_def UpdateMessageStatus_def Let_def setStatus_missing del: set_map)
qed

lemma complete_messages [simp]: "smsMessages (completeStoredSMSStatus u st) = smsMessages st"
  by (simp add: completeStoredSMSStatus_def setTracker_def Let_def split: option.split prod.split)

lemma messageStatus_complete [simp]: "messageStatus p x (completeStoredSMSStatus u st) = messageStatus p x st"
  by (simp add: messageStatus_def)

text \<open>A report that completes the sum goes to the row if there is one, and waits in the tracker otherwise.\<close>

lemma watchUpdate_reports:
  assumes w: "watches (smsSubmissions st) key t" and "\<not> expiresAt t < now" and "plainStatuses env"
    and "smsSubmissionUpdateStatus u \<noteq> []" and "key = outgoingSMSSubmissionKey modemID profileID (upSubmissionID u)"
    and "map_of (segStatuses t) (upSegmentIndex u) \<noteq> None"
    and a: "a = aggregateStatus (t\<lparr>segStatuses := AList.update (upSegmentIndex u) (smsSubmissionUpdateStatus u) (segStatuses t)\<rparr>)"
    and "a \<noteq> []" and "a \<noteq> subCurrent t"
    and st': "st' = watchUpdate env True None now id id modemID profileID u st"
  shows "messageStatus (subProfileID t) (subExternalKey t) st' =
      map_option (\<lambda>_. a) (messageStatus (subProfileID t) (subExternalKey t) st)"
    and "messageStatus (subProfileID t) (subExternalKey t) st = None \<Longrightarrow> smsMessages st' = smsMessages st \<and>
      (\<exists>t'. watches (smsSubmissions st') key t' \<and> pendingStore t' = a \<and> expiresAt t' = expiresAt t \<and>
        subProfileID t' = subProfileID t \<and> subExternalKey t' = subExternalKey t)"
proof -
  let ?p = "subProfileID t" and ?x = "subExternalKey t"
  let ?su = "\<lparr>suProfileID = ?p, suExternalKey = ?x, suStatus = a\<rparr>"
  define t1 where "t1 = t\<lparr>segStatuses := AList.update (upSegmentIndex u) (smsSubmissionUpdateStatus u) (segStatuses t), subCurrent := a\<rparr>"
  define st1 where "st1 = st\<lparr>smsSubmissions := AList.update key t1 (cleanupSMSSubmissionsLocked now (smsSubmissions st))\<rparr>"
  have t1: "subProfileID t1 = ?p" "subExternalKey t1 = ?x" "expiresAt t1 = expiresAt t" by (simp_all add: t1_def)
  have w0: "watches (cleanupSMSSubmissionsLocked now (smsSubmissions st)) key t" by (rule watches_cleanup [OF w assms(2)])
  have w1: "watches (smsSubmissions st1) key t1"
    using watches_update [OF w0 t1(1,2)] by (simp add: st1_def)
  have kt: "map_of (cleanupSMSSubmissionsLocked now (smsSubmissions st)) key = Some t" using w0 by (simp add: watches_def)
  have rec: "recordSMSSubmissionUpdate now modemID profileID u (smsSubmissionUpdateStatus u) st = (Some ?su, st1)"
    using assms(4-9) kt by (auto simp: recordSMSSubmissionUpdate_def Let_def setTracker_def st1_def t1_def)
  have ok: "trim_space ?p = ?p" "trim_space ?x = ?x" "?p \<noteq> []" "?x \<noteq> []" using w by (auto simp: watches_def)
  have final: "smsStatusFinal (suStatus ?su)" using aggregateStatus_final assms(8) unfolding a by simp
  have same: "messageStatus ?p ?x st1 = messageStatus ?p ?x st" "smsMessages st1 = smsMessages st"
    by (simp_all add: messageStatus_def st1_def)
  obtain r st2 where s2: "storeSMSStatus env None ?su st1 = (r, st2)" by fastforce
  note store = storeSMSStatus_eq [OF assms(3) final _ _ _ _ s2, simplified, OF ok(1,3,2,4), unfolded same]
  have run: "st' = (case storeSMSStatus env None ?su st1 of (Inl e, st) \<Rightarrow> st
      | (Inr updated, st) \<Rightarrow> if \<not> updated then deferStoredSMSStatus ?su st else completeStoredSMSStatus ?su st)"
    using assms(4) unfolding st' watchUpdate_def Let_def rec updateStoredSMSStatus_def id_apply by simp
  have eq: "st' = (if messageStatus ?p ?x st = None then deferStoredSMSStatus ?su st2 else completeStoredSMSStatus ?su st2)"
    unfolding run s2 store(2) by simp
  have wait: "deferStoredSMSStatus ?su st2 = setTracker key (t1\<lparr>pendingStore := a\<rparr>) st2"
    using watches_find [OF w1] by (simp add: deferStoredSMSStatus_def store(1) t1)
  show "messageStatus ?p ?x st' = map_option (\<lambda>_. a) (messageStatus ?p ?x st)"
    using store(3) by (simp add: eq wait) (simp add: messageStatus_def setTracker_def)
  show "smsMessages st' = smsMessages st \<and> (\<exists>t'. watches (smsSubmissions st') key t' \<and> pendingStore t' = a \<and>
        expiresAt t' = expiresAt t \<and> subProfileID t' = ?p \<and> subExternalKey t' = ?x)"
    if none: "messageStatus ?p ?x st = None"
  proof -
    have st2: "st2 = st1"
      using storeSMSStatus_missing [of ?su st1 env] none ok s2 by (simp add: same)
    have "st' = setTracker key (t1\<lparr>pendingStore := a\<rparr>) st1"
      using wait unfolding eq st2 by (simp add: none)
    with watches_update [OF w1, of "t1\<lparr>pendingStore := a\<rparr>"] show ?thesis
      by (auto simp: setTracker_def same t1 intro!: exI [of _ "t1\<lparr>pendingStore := a\<rparr>"])
  qed
qed

text \<open>Storing the message applies the status that waits for it.\<close>

lemma insertSentMessage_status:
  assumes "messagesOk (smsMessages st)" and w: "watches (smsSubmissions st) key t" and "\<not> expiresAt t < now'" and "plainStatuses env"
    and "pendingStore t \<noteq> [] \<Longrightarrow> smsStatusFinal (pendingStore t)"
    and "msgSource msg = MessageSourceRouted" and "trim_space (msgProfileID msg) = subProfileID t"
    and "trim_space (msgExternalKey msg) = subExternalKey t" and ins: "fst (InsertMessage env None now msg (smsMessages st)) = Inr True"
    and st': "st' = snd (insertSentMessage env None None now now' id id id msg st)"
  shows "pendingStore t \<noteq> [] \<Longrightarrow> messageStatus (subProfileID t) (subExternalKey t) st' = Some (pendingStore t)"
    and "pendingStore t = [] \<Longrightarrow> messageStatus (subProfileID t) (subExternalKey t) st' \<noteq> None \<and>
      smsSubmissions st' = cleanupSMSSubmissionsLocked now' (smsSubmissions st)"
    and "messagesOk (smsMessages st')"
proof -
  let ?p = "subProfileID t" and ?x = "subExternalKey t"
  let ?m = "normalizeMessage env now msg"
  let ?subs = "cleanupSMSSubmissionsLocked now' (smsSubmissions st)"
  obtain tab where tab: "InsertMessage env None now msg (smsMessages st) = (Inr True, tab)"
    using ins by (metis prod.collapse)
  define st1 where "st1 = st\<lparr>smsMessages := tab\<rparr>"
  define st2 where "st2 = st\<lparr>smsMessages := tab, smsSubmissions := ?subs\<rparr>"
  have src: "trim_space MessageSourceRouted = MessageSourceRouted"
    by (simp add: MessageSourceRouted_def trim_space_graphic graphic_def)
  have k: "keyOf ?m = MessageKey ?p MessageSourceRouted ?x"
    using assms(6-8) src by (simp add: keyOf_def normalizeMessage_def Let_def)
  have "tableStep env (StoreMessage None now msg) (smsMessages st) = (Stored (Inr True), tab)"
    by (simp add: tab)
  from insert_refines [OF assms(1) this] have "messageMapOf tab = (messageMapOf (smsMessages st))(keyOf ?m \<mapsto> anonymous ?m)"
    by (auto simp: Let_def split: option.splits if_splits)
  then have row: "messageStatus ?p ?x st2 \<noteq> None" by (simp add: messageStatus_def st2_def k)
  have ok1: "messagesOk tab" by (rule InsertMessage_ok [OF assms(1) tab])
  have w2: "watches ?subs key t" by (rule watches_cleanup [OF w assms(3)])
  have find: "findSMSSubmissionTrackerLocked (msgProfileID msg) (msgExternalKey msg) ?subs = Some (key, t)"
    using watches_find [OF w2] w assms(7,8) by (simp add: findSMSSubmissionTrackerLocked_def watches_def)
  have pend: "pendingSMSStatus now' msg st1 =
      (if pendingStore t = [] then None else Some \<lparr>suProfileID = ?p, suExternalKey = ?x, suStatus = pendingStore t\<rparr>, st2)"
    by (simp add: pendingSMSStatus_def Let_def st1_def st2_def find)
  have run: "st' = snd (case pendingSMSStatus now' msg st1 of (None, st) \<Rightarrow> (None, st)
      | (Some u, st) \<Rightarrow> (case storeSMSStatus env None u st of (Inl e, st) \<Rightarrow> (Some e, st)
          | (Inr updated, st) \<Rightarrow> (None, if updated then completeStoredSMSStatus u st else st)))"
    unfolding st' insertSentMessage_def tab ApplyPendingSMSStatus_def id_apply using assms(6) by (simp add: st1_def)
  show "pendingStore t = [] \<Longrightarrow> messageStatus ?p ?x st' \<noteq> None \<and> smsSubmissions st' = ?subs"
    using row unfolding run pend by (simp add: st2_def)
  show "messageStatus ?p ?x st' = Some (pendingStore t)" if pending: "pendingStore t \<noteq> []"
  proof -
    let ?su = "\<lparr>suProfileID = ?p, suExternalKey = ?x, suStatus = pendingStore t\<rparr>"
    have ok: "trim_space ?p = ?p" "trim_space ?x = ?x" "?p \<noteq> []" "?x \<noteq> []" using w by (auto simp: watches_def)
    obtain r st3 where s3: "storeSMSStatus env None ?su st2 = (r, st3)" by fastforce
    note store = storeSMSStatus_eq [OF assms(4) _ _ _ _ _ s3, simplified, OF assms(5) [OF pending] ok(1,3,2,4)]
    show ?thesis
      using row store(3) pending unfolding run pend by (auto simp: s3 store(2))
  qed
  show "messagesOk (smsMessages st')"
  proof (cases "pendingStore t = []")
    case True
    then show ?thesis using ok1 unfolding run pend by (simp add: st2_def)
  next
    case False
    let ?su = "\<lparr>suProfileID = ?p, suExternalKey = ?x, suStatus = pendingStore t\<rparr>"
    have "messagesOk (smsMessages (snd (storeSMSStatus env None ?su st2)))"
      using UpdateMessageStatus_ok [OF ok1] by (simp add: storeSMSStatus_def st2_def split: prod.splits)
    with False show ?thesis unfolding run pend by (auto split: prod.splits sum.splits)
  qed
qed

section \<open>An example\<close>

text \<open>A message of one segment that was sent and is not stored yet, and the report of its delivery.\<close>

definition exampleSent :: Message where
  "exampleSent = \<lparr>msgID = 0, msgModemID = ''m'', msgProfileID = ''p'', msgSource = MessageSourceRouted, msgExternalKey = ''x'',
     msgFingerprint = [], msgSender = ''1'', msgRecipient = ''2'', msgText = ''hi'', msgTimestamp = 5, msgStatus = ''sent'',
     msgIncoming = False, msgRouted = True\<rparr>"

definition exampleTracker :: smsSubmissionTracker where
  "exampleTracker = \<lparr>subProfileID = ''p'', subExternalKey = ''x'', segmentCount = 1, segStatuses = [(0, [])], subCurrent = [],
     pendingStore = [], expiresAt = 10\<rparr>"

definition exampleWatch :: smsState where
  "exampleWatch = \<lparr>smsSubmissions = [(SmsKey ''m'' ''p'' ''s'', exampleTracker)], smsMessages = \<lparr>msgRows = [], lastMsgID = 0\<rparr>\<rparr>"

definition exampleReport :: SMSSubmissionUpdate where
  "exampleReport = \<lparr>upSubmissionID = ''s'', upSegmentIndex = 0, upState = SMSDelivered\<rparr>"

lemma example_trims: "trim_space ''m'' = ''m''" "trim_space ''p'' = ''p''" "trim_space ''s'' = ''s''" "trim_space ''x'' = ''x''"
  "trim_space ''1'' = ''1''" "trim_space ''2'' = ''2''" "trim_space ''sent'' = ''sent''" "trim_space ''delivered'' = ''delivered''"
  "trim_space ''wifi_calling'' = ''wifi_calling''"
  by (simp_all add: trim_space_graphic graphic_def)

lemma exampleWatch_ok: "messagesOk (smsMessages exampleWatch)" "watches (smsSubmissions exampleWatch) (SmsKey ''m'' ''p'' ''s'') exampleTracker"
  "plainStatuses exampleMessages"
  by (simp_all add: messagesOk_def exampleWatch_def watches_def exampleTracker_def example_trims plainStatuses_def exampleMessages_def)

lemma example_inserted: "fst (InsertMessage exampleMessages None 6 exampleSent (smsMessages exampleWatch)) = Inr True"
  by (simp add: InsertMessage_def normalizeMessage_def exampleSent_def exampleWatch_def Let_def validateMessage_def example_trims
      MessageSourceRouted_def)

section \<open>Properties\<close>

text \<open>
  C10: A delivery report and the storing of its message commute: when the reports of a tracked message add up to a
  new status, the stored message has that status whether the report is handled before or after the message
  is stored, provided that the two do not overlap and the tracker has not expired.
\<close>

theorem report_and_store_commute:
  assumes "messagesOk (smsMessages st)" and "watches (smsSubmissions st) key t" and "pendingStore t = []" and "plainStatuses env"
    and "smsSubmissionUpdateStatus u \<noteq> []" and "key = outgoingSMSSubmissionKey modemID profileID (upSubmissionID u)"
    and "map_of (segStatuses t) (upSegmentIndex u) \<noteq> None"
    and "a = aggregateStatus (t\<lparr>segStatuses := AList.update (upSegmentIndex u) (smsSubmissionUpdateStatus u) (segStatuses t)\<rparr>)"
    and "a \<noteq> []" and "a \<noteq> subCurrent t"
    and "msgSource msg = MessageSourceRouted" and "trim_space (msgProfileID msg) = subProfileID t"
    and "trim_space (msgExternalKey msg) = subExternalKey t"
    and "fst (InsertMessage env None now msg (smsMessages st)) = Inr True"
    and "\<not> expiresAt t < now'" and "\<not> expiresAt t < now''"
  shows "messageStatus (subProfileID t) (subExternalKey t)
      (snd (insertSentMessage env None None now now' id id id msg
        (watchUpdate env True None now'' id id modemID profileID u st))) = Some a \<and>
    messageStatus (subProfileID t) (subExternalKey t)
      (watchUpdate env True None now'' id id modemID profileID u
        (snd (insertSentMessage env None None now now' id id id msg st))) = Some a"
proof
  let ?p = "subProfileID t" and ?x = "subExternalKey t"
  let ?st1 = "watchUpdate env True None now'' id id modemID profileID u st"
  let ?st2 = "snd (insertSentMessage env None None now now' id id id msg st)"
  have final: "smsStatusFinal a" using aggregateStatus_final assms(8,9) by blast
  have src: "trim_space MessageSourceRouted = MessageSourceRouted"
    by (simp add: MessageSourceRouted_def trim_space_graphic graphic_def)
  have "\<not> list_ex (conflictsWith (normalizeMessage env now msg)) (msgRows (smsMessages st))"
    using assms(14) by (auto simp: InsertMessage_def Let_def split: option.splits if_splits)
  moreover have "keyOf (normalizeMessage env now msg) = MessageKey ?p MessageSourceRouted ?x"
    using assms(11-13) src by (simp add: keyOf_def normalizeMessage_def Let_def)
  ultimately have none: "messageStatus ?p ?x st = None"
    by (simp add: conflictsWith_iff messageStatus_def messageMapOf_def rowMap_None del: set_map)
  from watchUpdate_reports(2) [OF assms(2,16,4-10) refl none]
  obtain t' where same: "smsMessages ?st1 = smsMessages st" and w: "watches (smsSubmissions ?st1) key t'"
    and t': "pendingStore t' = a" "expiresAt t' = expiresAt t" "subProfileID t' = ?p" "subExternalKey t' = ?x"
    by blast
  show "messageStatus ?p ?x (snd (insertSentMessage env None None now now' id id id msg ?st1)) = Some a"
    using insertSentMessage_status(1) [OF _ w _ assms(4) _ assms(11) _ _ _ refl, of now' now] assms(1,12-15) final \<open>a \<noteq> []\<close>
    by (simp add: same t')
  have i: "messageStatus ?p ?x ?st2 \<noteq> None \<and> smsSubmissions ?st2 = cleanupSMSSubmissionsLocked now' (smsSubmissions st)"
    using insertSentMessage_status(2) [OF assms(1,2,15,4) _ assms(11-14) refl] assms(3) by simp
  then have w2: "watches (smsSubmissions ?st2) key t"
    using watches_cleanup [OF assms(2,15)] by simp
  show "messageStatus ?p ?x (watchUpdate env True None now'' id id modemID profileID u ?st2) = Some a"
    using watchUpdate_reports(1) [OF w2 assms(16,4-10) refl] i by auto
qed

theorem report_and_store_commute_witness:
  "messageStatus ''p'' ''x'' (snd (insertSentMessage exampleMessages None None 6 7 id id id exampleSent
      (watchUpdate exampleMessages True None 6 id id ''m'' ''p'' exampleReport exampleWatch))) = Some ''delivered''"
proof -
  have "messageStatus (subProfileID exampleTracker) (subExternalKey exampleTracker)
      (snd (insertSentMessage exampleMessages None None 6 7 id id id exampleSent
        (watchUpdate exampleMessages True None 6 id id ''m'' ''p'' exampleReport exampleWatch))) = Some ''delivered''"
    by (rule report_and_store_commute [OF exampleWatch_ok(1,2) _ exampleWatch_ok(3) _ _ _ _ _ _ _ _ _ example_inserted, THEN conjunct1])
      (simp_all add: exampleTracker_def exampleReport_def smsSubmissionUpdateStatus_def outgoingSMSSubmissionKey_def example_trims
        aggregateStatus_def exampleSent_def)
  then show ?thesis by (simp add: exampleTracker_def)
qed

text \<open>
  When the message is stored between the failed update of its row and the moment its status is set aside, the
  report is lost: the row says sent, the tracker waits with the status delivered for a store that has already happened, and the end of the
  tracking changes neither.
\<close>

theorem overlapping_report_is_lost:
  "let st = watchUpdate exampleMessages True None 6 id
         (\<lambda>st. snd (insertSentMessage exampleMessages None None 6 7 id id id exampleSent st)) ''m'' ''p'' exampleReport exampleWatch;
       st' = stopSMSSubmissionTracking ''m'' ''p'' ''s'' st
   in st' = st \<and> messageStatus ''p'' ''x'' st = Some ''sent'' \<and>
      map pendingStore (map snd (smsSubmissions st)) = [''delivered'']"
  by (simp add: watchUpdate_def smsSubmissionUpdateStatus_def exampleReport_def exampleWatch_def exampleTracker_def exampleSent_def
      recordSMSSubmissionUpdate_def outgoingSMSSubmissionKey_def example_trims Let_def cleanupSMSSubmissionsLocked_def aggregateStatus_def
      setTracker_def updateStoredSMSStatus_def storeSMSStatus_def UpdateMessageStatus_def MessageSourceRouted_def setStatus_def
      insertSentMessage_def InsertMessage_def messageRow_def normalizeMessage_def validateMessage_def ApplyPendingSMSStatus_def pendingSMSStatus_def
      findSMSSubmissionTrackerLocked_def deferStoredSMSStatus_def stopSMSSubmissionTracking_def messageStatus_def messageMapOf_def
      keyOf_def anonymous_def exampleMessages_def)

end
