(* ===== verification/Dbus.thy ===== *)
theory Dbus
  imports GoPrelude
begin

text \<open>
  Values that come over D-Bus (\<open>internal/pkg/modem/variant.go\<close>, \<open>dbus.go\<close>) and the SIM object read from them
  (\<open>sim.go\<close>).

  A variant is the Go value it holds; \<open>DOther\<close> is any type the program does not ask for, among them the value of
  the zero variant, which a missing key of a map gives. \<open>variant.Store\<close> of the D-Bus library into a slice of
  pairs or of 32-bit words is an argument. A conversion of Go between integer types keeps the low bits:
  words are numbers below a power of two.
\<close>

section \<open>Variants\<close>

datatype dbusValue =
    DString string
  | DBool bool
  | DUint32 nat
  | DUint64 nat
  | DInt int
  | DInt32 int
  | DInt64 int
  | DPath string
  | DStrings "string list"
  | DBytes "byte list"
  | DPaths "string list"
  | DAnys "dbusValue list"
  | DAnySlices "dbusValue list list"
  | DMap "(string \<times> dbusValue) list"
  | DOther

type_synonym dbusMap = "(string \<times> dbusValue) list"

definition rawValue :: "dbusMap \<Rightarrow> string \<Rightarrow> dbusValue" where
  "rawValue raw key = (case map_of raw key of None \<Rightarrow> DOther | Some v \<Rightarrow> v)"

definition asInt32 :: "int \<Rightarrow> int" where
  "asInt32 x = (x + 2 ^ 31) mod 2 ^ 32 - 2 ^ 31"

definition stringFromVariant :: "dbusValue \<Rightarrow> string" where
  "stringFromVariant v = (case v of DString s \<Rightarrow> s | _ \<Rightarrow> [])"

definition boolFromVariant :: "dbusValue \<Rightarrow> bool" where
  "boolFromVariant v = (case v of DBool b \<Rightarrow> b | _ \<Rightarrow> False)"

text \<open>\<open>w\<close> is the width of the target type, 32 or 64.\<close>

definition uintFromVariant :: "nat \<Rightarrow> dbusValue \<Rightarrow> nat" where
  "uintFromVariant w v =
     (case v of
        DUint32 n \<Rightarrow> n mod 2 ^ w
      | DUint64 n \<Rightarrow> n mod 2 ^ w
      | DInt i \<Rightarrow> if i < 0 then 0 else nat i mod 2 ^ w
      | DInt32 i \<Rightarrow> if i < 0 then 0 else nat i mod 2 ^ w
      | DInt64 i \<Rightarrow> if i < 0 then 0 else nat i mod 2 ^ w
      | _ \<Rightarrow> 0)"

definition int32FromVariant :: "dbusValue \<Rightarrow> int" where
  "int32FromVariant v =
     (case v of
        DInt32 i \<Rightarrow> i
      | DInt i \<Rightarrow> asInt32 i
      | DUint32 n \<Rightarrow> asInt32 (int n)
      | DUint64 n \<Rightarrow> asInt32 (int n)
      | _ \<Rightarrow> 0)"

definition objectPathFromVariant :: "dbusValue \<Rightarrow> string" where
  "objectPathFromVariant v = (case v of DPath p \<Rightarrow> p | _ \<Rightarrow> [])"

definition stringsFromVariant :: "dbusValue \<Rightarrow> string list" where
  "stringsFromVariant v = (case v of DStrings ss \<Rightarrow> ss | _ \<Rightarrow> [])"

definition bytesFromVariant :: "dbusValue \<Rightarrow> byte list" where
  "bytesFromVariant v = (case v of DBytes bs \<Rightarrow> bs | _ \<Rightarrow> [])"

definition objectPathsFromVariant :: "dbusValue \<Rightarrow> string list" where
  "objectPathsFromVariant v = (case v of DPaths ps \<Rightarrow> ps | _ \<Rightarrow> [])"

definition anySliceFromVariant :: "dbusValue \<Rightarrow> dbusValue list" where
  "anySliceFromVariant v = (case v of DAnys vs \<Rightarrow> vs | _ \<Rightarrow> [])"

definition anySlicesFromVariant :: "dbusValue \<Rightarrow> dbusValue list list" where
  "anySlicesFromVariant v = (case v of DAnySlices vs \<Rightarrow> vs | _ \<Rightarrow> [])"

definition variantMapFromVariant :: "dbusValue \<Rightarrow> dbusMap" where
  "variantMapFromVariant v = (case v of DMap m \<Rightarrow> m | _ \<Rightarrow> [])"

definition variantString :: "dbusMap \<Rightarrow> string \<Rightarrow> string" where
  "variantString raw key = stringFromVariant (rawValue raw key)"

definition variantUint :: "nat \<Rightarrow> dbusMap \<Rightarrow> string \<Rightarrow> nat" where
  "variantUint w raw key = uintFromVariant w (rawValue raw key)"

definition variantInt32 :: "dbusMap \<Rightarrow> string \<Rightarrow> int" where
  "variantInt32 raw key = int32FromVariant (rawValue raw key)"

definition variantObjectPath :: "dbusMap \<Rightarrow> string \<Rightarrow> string" where
  "variantObjectPath raw key = objectPathFromVariant (rawValue raw key)"

definition variantStrings :: "dbusMap \<Rightarrow> string \<Rightarrow> string list" where
  "variantStrings raw key = stringsFromVariant (rawValue raw key)"

definition variantBytes :: "dbusMap \<Rightarrow> string \<Rightarrow> byte list" where
  "variantBytes raw key = bytesFromVariant (rawValue raw key)"

definition variantObjectPaths :: "dbusMap \<Rightarrow> string \<Rightarrow> string list" where
  "variantObjectPaths raw key = objectPathsFromVariant (rawValue raw key)"

definition variantAnySlices :: "dbusMap \<Rightarrow> string \<Rightarrow> dbusValue list list" where
  "variantAnySlices raw key = anySlicesFromVariant (rawValue raw key)"

text \<open>The words of mode pairs and bands; \<open>uintFromAny\<close> reads them from untyped values.\<close>

record ModemModePair =
  Allowed :: nat
  PreferredMode :: nat

definition uintFromAny :: "dbusValue \<Rightarrow> nat" where
  "uintFromAny v =
     (case v of
        DUint32 n \<Rightarrow> n
      | DUint64 n \<Rightarrow> n mod 2 ^ 32
      | DInt i \<Rightarrow> if i < 0 then 0 else nat i mod 2 ^ 32
      | DInt32 i \<Rightarrow> if i < 0 then 0 else nat i mod 2 ^ 32
      | DInt64 i \<Rightarrow> if i < 0 then 0 else nat i mod 2 ^ 32
      | _ \<Rightarrow> 0)"

definition modePairFromValues :: "dbusValue list \<Rightarrow> ModemModePair" where
  "modePairFromValues vs =
     (case vs of
        a # p # _ \<Rightarrow> \<lparr>Allowed = uintFromAny a, PreferredMode = uintFromAny p\<rparr>
      | _ \<Rightarrow> \<lparr>Allowed = 0, PreferredMode = 0\<rparr>)"

definition modePairsFromVariant :: "(dbusValue \<Rightarrow> (nat \<times> nat) list option) \<Rightarrow> dbusValue \<Rightarrow> string + ModemModePair list" where
  "modePairsFromVariant storePairs v =
     (case storePairs v of
        Some raw \<Rightarrow> Inr (map (\<lambda>(a, p). \<lparr>Allowed = a, PreferredMode = p\<rparr>) raw)
      | None \<Rightarrow>
          (case v of
             DAnySlices vs \<Rightarrow> Inr (map modePairFromValues vs)
           | _ \<Rightarrow> Inl ''parse mode pairs: unexpected variant type''))"

definition modePairFromVariant :: "(dbusValue \<Rightarrow> (nat \<times> nat) option) \<Rightarrow> dbusValue \<Rightarrow> string + ModemModePair" where
  "modePairFromVariant storePair v =
     (case storePair v of
        Some (a, p) \<Rightarrow> Inr \<lparr>Allowed = a, PreferredMode = p\<rparr>
      | None \<Rightarrow>
          let vs = anySliceFromVariant v in
          if vs = [] then Inl ''parse mode pair: unexpected variant type'' else Inr (modePairFromValues vs))"

definition bandsFromVariant :: "(dbusValue \<Rightarrow> nat list option) \<Rightarrow> dbusValue \<Rightarrow> string + nat list" where
  "bandsFromVariant storeWords v =
     (case storeWords v of
        Some raw \<Rightarrow> Inr raw
      | None \<Rightarrow>
          (case v of
             DAnys vs \<Rightarrow> Inr (map uintFromAny vs)
           | _ \<Rightarrow> Inl ''parse bands: unexpected variant type''))"

section \<open>Errors\<close>

text \<open>
  An error is its text and, when it is or wraps an error of D-Bus, the name of that error. \<open>lower\<close> is
  \<open>strings.ToLower\<close>.
\<close>

record busError =
  errText :: string
  errName :: "string option"

definition containsText :: "string \<Rightarrow> string \<Rightarrow> bool" where
  "containsText s sub \<longleftrightarrow> list_ex (\<lambda>i. starts_with (drop i s) sub) [0..<Suc (length s)]"

definition isCanceledName :: "(string \<Rightarrow> string) \<Rightarrow> string \<Rightarrow> bool" where
  "isCanceledName lower name \<longleftrightarrow>
     name = ''org.freedesktop.DBus.Error.Canceled'' \<or> name = ''org.freedesktop.DBus.Error.Cancelled'' \<or>
     containsText (lower name) ''cancel''"

definition isAbortedName :: "(string \<Rightarrow> string) \<Rightarrow> string \<Rightarrow> bool" where
  "isAbortedName lower name \<longleftrightarrow> containsText (lower name) ''abort''"

definition isUnknownObjectError :: "(string \<Rightarrow> string) \<Rightarrow> busError \<Rightarrow> bool" where
  "isUnknownObjectError lower err \<longleftrightarrow>
     errName err = Some ''org.freedesktop.DBus.Error.UnknownObject'' \<or>
     containsText (lower (errText err)) ''object does not exist at path'' \<or>
     containsText (lower (errText err)) ''unknown object''"

definition isCanceledError :: "(string \<Rightarrow> string) \<Rightarrow> busError \<Rightarrow> bool" where
  "isCanceledError lower err \<longleftrightarrow>
     (case errName err of None \<Rightarrow> False | Some n \<Rightarrow> isCanceledName lower n) \<or>
     containsText (lower (errText err)) ''operation was cancelled'' \<or>
     containsText (lower (errText err)) ''operation was canceled''"

definition isAbortedError :: "(string \<Rightarrow> string) \<Rightarrow> busError \<Rightarrow> bool" where
  "isAbortedError lower err \<longleftrightarrow>
     (case errName err of None \<Rightarrow> False | Some n \<Rightarrow> isAbortedName lower n) \<or>
     containsText (lower (errText err)) ''operation aborted'' \<or>
     containsText (lower (errText err)) ''operation was aborted''"

definition isTransientRestartError :: "(string \<Rightarrow> string) \<Rightarrow> busError option \<Rightarrow> bool" where
  "isTransientRestartError lower err \<longleftrightarrow>
     (case err of
        None \<Rightarrow> False
      | Some e \<Rightarrow> isUnknownObjectError lower e \<or> isCanceledError lower e \<or> isAbortedError lower e)"

text \<open>
  \<open>togglePower\<close>: the modem is disabled and enabled again; an error of a modem that is being replaced is ignored.
  Each call is the error it gives.
\<close>

definition togglePower :: "(string \<Rightarrow> string) \<Rightarrow> (bool \<Rightarrow> 'w \<Rightarrow> busError option \<times> 'w) \<Rightarrow> 'w \<Rightarrow> busError option \<times> 'w" where
  "togglePower lower enable w =
     (case enable False w of
        (e, w) \<Rightarrow>
          if e \<noteq> None \<and> \<not> isTransientRestartError lower e then (e, w)
          else (case enable True w of
            (e, w) \<Rightarrow> if e \<noteq> None \<and> \<not> isTransientRestartError lower e then (e, w) else (None, w)))"

section \<open>SIM objects\<close>

record busSIM =
  SimPath :: string
  SimActive :: bool
  SimIdentifier :: string
  SimATR :: "byte list"
  SimEid :: string
  SimImsi :: string
  SimOperatorIdentifier :: string
  SimOperatorName :: string
  SimGID1 :: string

text \<open>The properties of a D-Bus object: path, interface and name give a value or an error.\<close>

type_synonym dbusProperties = "string \<Rightarrow> string \<Rightarrow> string \<Rightarrow> busError + dbusValue"

definition ModemInterface :: string where "ModemInterface = ''org.freedesktop.ModemManager1.Modem''"
definition ModemSimInterface :: string where "ModemSimInterface = ''org.freedesktop.ModemManager1.Sim''"

definition dbusProperty :: "dbusProperties \<Rightarrow> string \<Rightarrow> string \<Rightarrow> string \<Rightarrow> busError + dbusValue" where
  "dbusProperty props path iface property =
     (if iface = [] \<or> property = [] then Inl \<lparr>errText = ''dbus property name is invalid'', errName = None\<rparr>
      else props path iface property)"

definition validSIMObjectPath :: "string \<Rightarrow> bool" where
  "validSIMObjectPath path \<longleftrightarrow> path \<noteq> [] \<and> path \<noteq> ''/''"

definition simReference :: "string \<Rightarrow> busError + busSIM" where
  "simReference path =
     (if path = [] \<or> path = ''/'' then Inl \<lparr>errText = ''SIM path is required'', errName = None\<rparr>
      else Inr \<lparr>SimPath = path, SimActive = False, SimIdentifier = [], SimATR = [], SimEid = [], SimImsi = [],
                SimOperatorIdentifier = [], SimOperatorName = [], SimGID1 = []\<rparr>)"

text \<open>\<open>upper\<close> is \<open>strings.ToUpper\<close>. A group identifier that cannot be read is left empty.\<close>

definition simGet :: "(string \<Rightarrow> string) \<Rightarrow> dbusProperties \<Rightarrow> string \<Rightarrow> busError + busSIM" where
  "simGet upper props path =
     (let prop = dbusProperty props path ModemSimInterface in
      rbind (simReference path) (\<lambda>sim.
      rbind (prop ''Active'') (\<lambda>v1.
      rbind (prop ''SimIdentifier'') (\<lambda>v2.
      rbind (prop ''Eid'') (\<lambda>v3.
      rbind (prop ''Imsi'') (\<lambda>v4.
      rbind (prop ''OperatorIdentifier'') (\<lambda>v5.
      rbind (prop ''OperatorName'') (\<lambda>v6.
        Inr (sim\<lparr>SimActive := boolFromVariant v1, SimIdentifier := stringFromVariant v2, SimEid := stringFromVariant v3,
                 SimImsi := stringFromVariant v4, SimOperatorIdentifier := stringFromVariant v5,
                 SimOperatorName := stringFromVariant v6,
                 SimGID1 := (case prop ''Gid1'' of Inl e \<Rightarrow> [] | Inr v \<Rightarrow> upper (hex_encode (bytesFromVariant v)))\<rparr>)))))))))"

section \<open>Ranges\<close>

lemma uintFromVariant_less: "uintFromVariant w v < 2 ^ w"
  by (cases v) (simp_all add: uintFromVariant_def)

lemma asInt32_range: "- (2 ^ 31) \<le> asInt32 x" "asInt32 x < 2 ^ 31"
  by (simp_all add: asInt32_def)

lemma simGet_path: "simGet upper props path = Inr sim \<Longrightarrow> SimPath sim = path \<and> validSIMObjectPath path"
  by (auto simp: simGet_def Let_def rbind_Inr_iff simReference_def validSIMObjectPath_def split: if_splits)

end
