(* ===== verification/Registry.thy ===== *)
theory Registry
  imports Dbus "HOL-Library.AList"
begin

text \<open>
  The registry of modems (\<open>internal/pkg/modem/registry.go\<close>): the modems of ModemManager, kept up to date by D-Bus
  signals, with subscribers that are told of every change, and the wait for a modem to come back after it was
  reset.

  A \<open>*Modem\<close> is a record with a number for the pointer: every modem that is created gets a new one. Maps are
  the lists of their entries; where the code ranges over a map the order of the list stands for the order Go
  happens to take. The objects that ModemManager manages, the reading of the SIM and of its answer to reset are
  arguments. A subscriber is a number; its callback is applied to the events by the caller.
\<close>

section \<open>Modems\<close>

record ModemPort =
  PortType :: nat
  PortDevice :: string

record busModem =
  modemPtr :: nat
  objectPath :: string
  Device :: string
  Manufacturer :: string
  EquipmentIdentifier :: string
  Driver :: string
  ModelName :: string
  FirmwareRevision :: string
  HardwareRevision :: string
  OwnNumber :: string
  PrimaryPort :: string
  Ports :: "ModemPort list"
  SimSlots :: "string list"
  PrimarySimSlot :: nat
  ModemSim :: "busSIM option"
  ModemState :: int
  UnlockRequired :: nat

text \<open>Whether the context of the creation is done, the reader of SIM objects and the reader of the answer to reset.\<close>

record modemReaders =
  ctxDone :: bool
  simReader :: "string \<Rightarrow> busError + busSIM"
  atrReader :: "busModem \<Rightarrow> string + byte list"

definition devicePath :: "string \<Rightarrow> string" where
  "devicePath name =
     (let name = trim_space name in
      if name = [] then [] else if starts_with name ''/dev/'' then name else ''/dev/'' @ name)"

definition simSlotPaths :: "dbusMap \<Rightarrow> string \<Rightarrow> string list" where
  "simSlotPaths data primarySIMPath =
     (let paths = filter validSIMObjectPath (variantObjectPaths data ''SimSlots'') in
      if paths \<noteq> [] then paths
      else if \<not> validSIMObjectPath primarySIMPath then [] else [primarySIMPath])"

text \<open>An entry of \<open>Ports\<close>: name and type of a port; entries without a name or of the wrong length are skipped.\<close>

definition modemPort :: "dbusValue list \<Rightarrow> ModemPort list" where
  "modemPort port =
     (case port of
        n # t # _ \<Rightarrow>
          let device = devicePath (stringFromVariant n) in
          if device = [] then []
          else [\<lparr>PortType = (case t of DUint32 k \<Rightarrow> k | _ \<Rightarrow> 0), PortDevice = device\<rparr>]
      | _ \<Rightarrow> [])"

text \<open>The answer to reset is read when there is a SIM; an error leaves it empty.\<close>

definition withATR :: "modemReaders \<Rightarrow> busModem \<Rightarrow> busModem" where
  "withATR rd modem =
     (case ModemSim modem of
        None \<Rightarrow> modem
      | Some s \<Rightarrow>
          (case atrReader rd modem of Inl e \<Rightarrow> modem | Inr a \<Rightarrow> modem\<lparr>ModemSim := Some (s\<lparr>SimATR := a\<rparr>)\<rparr>))"

definition createModem :: "modemReaders \<Rightarrow> nat \<Rightarrow> string \<Rightarrow> dbusMap \<Rightarrow> string + busModem" where
  "createModem rd ptr path data =
     (let drivers = variantStrings data ''Drivers'';
          numbers = variantStrings data ''OwnNumbers'';
          simPath = variantObjectPath data ''Sim'';
          modem = \<lparr>modemPtr = ptr, objectPath = path, Device = variantString data ''Device'',
                   Manufacturer = variantString data ''Manufacturer'',
                   EquipmentIdentifier = variantString data ''EquipmentIdentifier'',
                   Driver = (case drivers of [] \<Rightarrow> [] | d # _ \<Rightarrow> d), ModelName = variantString data ''Model'',
                   FirmwareRevision = variantString data ''Revision'',
                   HardwareRevision = variantString data ''HardwareRevision'', OwnNumber = [],
                   PrimaryPort = devicePath (variantString data ''PrimaryPort''), Ports = [], SimSlots = [],
                   PrimarySimSlot = variantUint 32 data ''PrimarySimSlot'', ModemSim = None,
                   ModemState = variantInt32 data ''State'', UnlockRequired = variantUint 32 data ''UnlockRequired''\<rparr>;
          sim = (if \<not> validSIMObjectPath simPath then Inr None
                 else case simReader rd simPath of
                   Inr s \<Rightarrow> Inr (Some s)
                 | Inl e \<Rightarrow> if ctxDone rd then Inl (''read primary SIM: '' @ errText e)
                            else Inr (case simReference simPath of Inl _ \<Rightarrow> None | Inr s \<Rightarrow> Some s))
      in rbind sim (\<lambda>sim.
         let modem = modem\<lparr>ModemSim := sim, OwnNumber := (case numbers of [] \<Rightarrow> [] | n # _ \<Rightarrow> n),
                           Ports := concat (map modemPort (variantAnySlices data ''Ports'')),
                           SimSlots := simSlotPaths data simPath\<rparr>
         in Inr (withATR rd modem)))"

section \<open>The registry\<close>

type_synonym modemMap = "(string \<times> busModem) list"

record registry =
  regModems :: modemMap
  regSubs :: "(nat \<times> nat) list"
  nextSubID :: nat
  regSubscribed :: bool
  regClosed :: bool
  nextModem :: nat

datatype modemEventType = ModemEventAdded | ModemEventRemoved

record ModemEvent =
  evType :: modemEventType
  evModem :: "busModem option"
  evPath :: string
  evSnapshot :: modemMap

definition NewRegistry :: registry where
  "NewRegistry = \<lparr>regModems = [], regSubs = [], nextSubID = 0, regSubscribed = False, regClosed = False, nextModem = 1\<rparr>"

text \<open>One managed object: modems that cannot be created are skipped; the number of every attempt is spent.\<close>

definition loadModem :: "modemReaders \<Rightarrow> (string \<times> (string \<times> dbusMap) list) \<Rightarrow> nat \<times> modemMap \<Rightarrow> nat \<times> modemMap" where
  "loadModem rd obj acc =
     (case map_of (snd obj) ModemInterface of
        None \<Rightarrow> acc
      | Some data \<Rightarrow>
          (case createModem rd (fst acc) (fst obj) data of
             Inl e \<Rightarrow> (Suc (fst acc), snd acc)
           | Inr modem \<Rightarrow> (Suc (fst acc), AList.update (fst obj) modem (snd acc))))"

definition listModems ::
  "modemReaders \<Rightarrow> (string + (string \<times> (string \<times> dbusMap) list) list) \<Rightarrow> registry \<Rightarrow> (string + modemMap) \<times> registry" where
  "listModems rd managed r =
     (case managed of
        Inl e \<Rightarrow> (Inl e, r)
      | Inr objs \<Rightarrow>
          let (n, modems) = fold (loadModem rd) objs (nextModem r, [])
          in (Inr modems, r\<lparr>regModems := modems, nextModem := n\<rparr>))"

definition findRegistered ::
  "modemReaders \<Rightarrow> (string + (string \<times> (string \<times> dbusMap) list) list) \<Rightarrow> string \<Rightarrow> registry \<Rightarrow>
   (string + busModem option) \<times> registry" where
  "findRegistered rd managed i r =
     (case listModems rd managed r of
        (Inl e, r) \<Rightarrow> (Inl (''listing modems: '' @ e), r)
      | (Inr modems, r) \<Rightarrow>
          (Inr (map_option snd (find (\<lambda>(p, m). EquipmentIdentifier m = i) modems)), r))"

text \<open>
  Every other entry with the same equipment identifier goes: after a restart ModemManager announces a modem
  again under a new path without having removed the old one.
\<close>

definition deleteAndUpdate :: "busModem \<Rightarrow> modemMap \<Rightarrow> modemMap" where
  "deleteAndUpdate modem modems =
     AList.update (objectPath modem) modem
       (if EquipmentIdentifier modem \<noteq> []
        then filter (\<lambda>(p, existing). EquipmentIdentifier existing \<noteq> EquipmentIdentifier modem) modems
        else modems)"

section \<open>Signals\<close>

text \<open>
  The body of a signal is a list of values: a path, and for an added object its interfaces with their properties.
\<close>

datatype signalBody = BodyPath string | BodyInterfaces "(string \<times> dbusMap) list" | BodyOther

datatype signalName = InterfacesAdded | InterfacesRemoved | OtherSignal

record dbusSignal =
  sigName :: signalName
  sigBody :: "signalBody list"

definition modemPathFromSignal :: "dbusSignal option \<Rightarrow> string option" where
  "modemPathFromSignal event =
     (case event of
        None \<Rightarrow> None
      | Some s \<Rightarrow>
          (case sigBody s of
             BodyPath path # _ \<Rightarrow> if path \<noteq> [] then Some path else None
           | _ \<Rightarrow> None))"

definition managedInterfacesFromSignal :: "dbusSignal \<Rightarrow> (string \<times> dbusMap) list option" where
  "managedInterfacesFromSignal event =
     (case sigBody event of _ # BodyInterfaces raw # _ \<Rightarrow> Some raw | _ \<Rightarrow> None)"

text \<open>
  One round of \<open>handleSignals\<close>: the event, if there is one, with the subscribers that are told of it.
\<close>

definition handleSignal :: "modemReaders \<Rightarrow> dbusSignal option \<Rightarrow> registry \<Rightarrow> (ModemEvent \<times> nat list) option \<times> registry" where
  "handleSignal rd event r =
     (case modemPathFromSignal event of
        None \<Rightarrow> (None, r)
      | Some path \<Rightarrow>
          let sig = the event in
          (case sigName sig of
             InterfacesAdded \<Rightarrow>
               (case managedInterfacesFromSignal sig of
                  None \<Rightarrow> (None, r)
                | Some raw \<Rightarrow>
                    (case map_of raw ModemInterface of
                       None \<Rightarrow> (None, r)
                     | Some data \<Rightarrow>
                         let ptr = nextModem r; r = r\<lparr>nextModem := Suc ptr\<rparr> in
                         (case createModem rd ptr path data of
                            Inl e \<Rightarrow> (None, r)
                          | Inr modem \<Rightarrow>
                              let modems = deleteAndUpdate modem (regModems r) in
                              (Some (\<lparr>evType = ModemEventAdded, evModem = Some modem, evPath = path, evSnapshot = modems\<rparr>,
                                     map snd (regSubs r)),
                               r\<lparr>regModems := modems\<rparr>))))
           | InterfacesRemoved \<Rightarrow>
               let modem = map_of (regModems r) path; modems = AList.delete path (regModems r) in
               (Some (\<lparr>evType = ModemEventRemoved, evModem = modem, evPath = path, evSnapshot = modems\<rparr>, map snd (regSubs r)),
                r\<lparr>regModems := modems\<rparr>)
           | OtherSignal \<Rightarrow> (None, r)))"

text \<open>
  A listing takes time: signals are handled between the answer of ModemManager, the reading of every SIM and the
  moment the list becomes the registry.
\<close>

definition listModemsDuring ::
  "modemReaders \<Rightarrow> (string + (string \<times> (string \<times> dbusMap) list) list) \<Rightarrow> (modemReaders \<times> dbusSignal option) list \<Rightarrow>
   registry \<Rightarrow> (string + modemMap) \<times> registry" where
  "listModemsDuring rd managed during r =
     (let signals = fold (\<lambda>(rd, sig) r. snd (handleSignal rd sig r)) during in
      case managed of
        Inl e \<Rightarrow> (Inl e, signals r)
      | Inr objs \<Rightarrow>
          let (n, modems) = fold (loadModem rd) objs (nextModem r, []);
              r = signals (r\<lparr>nextModem := n\<rparr>)
          in (Inr modems, r\<lparr>regModems := modems\<rparr>))"

section \<open>Subscriptions\<close>

text \<open>Starting the subscription asks D-Bus for the two signals; the errors of both requests are arguments.\<close>

definition startSubscription :: "bool \<Rightarrow> string option \<Rightarrow> string option \<Rightarrow> string option" where
  "startSubscription connected addedErr removedErr =
     (if \<not> connected then Some ''dbus connection is required''
      else case addedErr of
        Some e \<Rightarrow> Some e
      | None \<Rightarrow> removedErr)"

definition ensureSubscriptionStarted :: "string option \<Rightarrow> registry \<Rightarrow> string option \<times> registry" where
  "ensureSubscriptionStarted started r =
     (if regClosed r then (Some ''modem registry is closed'', r)
      else if regSubscribed r then (None, r)
      else case started of
        Some e \<Rightarrow> (Some e, r)
      | None \<Rightarrow> (None, r\<lparr>regSubscribed := True\<rparr>))"

text \<open>The first entry with the id goes; an unknown id changes nothing.\<close>

fun removeSub :: "nat \<Rightarrow> (nat \<times> nat) list \<Rightarrow> (nat \<times> nat) list" where
  "removeSub i [] = []"
| "removeSub i (sub # subs) = (if fst sub = i then subs else sub # removeSub i subs)"

text \<open>The id of the subscription stands for the function that ends it.\<close>

definition subscribe :: "string option \<Rightarrow> nat option \<Rightarrow> registry \<Rightarrow> (string + nat) \<times> registry" where
  "subscribe started subscriber r =
     (case subscriber of
        None \<Rightarrow> (Inl ''subscriber is required'', r)
      | Some fn \<Rightarrow>
          let i = nextSubID r + 1;
              r = r\<lparr>nextSubID := i, regSubs := regSubs r @ [(i, fn)]\<rparr> in
          (case ensureSubscriptionStarted started r of
             (Some e, r) \<Rightarrow> (Inl e, r\<lparr>regSubs := removeSub i (regSubs r)\<rparr>)
           | (None, r) \<Rightarrow> (Inr i, r)))"

definition unsubscribe :: "nat \<Rightarrow> registry \<Rightarrow> registry" where
  "unsubscribe i r = r\<lparr>regSubs := removeSub i (regSubs r)\<rparr>"

text \<open>The errors of the two requests to D-Bus are joined; there is none when nothing was subscribed.\<close>

definition closeRegistry :: "string list \<Rightarrow> registry \<Rightarrow> string list \<times> registry" where
  "closeRegistry errs r =
     (let r = r\<lparr>regClosed := True\<rparr> in
      if \<not> regSubscribed r then ([], r) else (errs, r\<lparr>regSubscribed := False, regSubs := []\<rparr>))"

section \<open>Waiting for a modem\<close>

definition sameEquipmentIdentifier :: "busModem option \<Rightarrow> busModem option \<Rightarrow> bool" where
  "sameEquipmentIdentifier current candidate \<longleftrightarrow>
     (case (current, candidate) of
        (Some a, Some b) \<Rightarrow> trim_space (EquipmentIdentifier a) \<noteq> [] \<and>
           trim_space (EquipmentIdentifier b) = trim_space (EquipmentIdentifier a)
      | _ \<Rightarrow> False)"

definition isReplacementObjectPath :: "busModem \<Rightarrow> busModem option \<Rightarrow> bool" where
  "isReplacementObjectPath current candidate \<longleftrightarrow>
     sameEquipmentIdentifier (Some current) candidate \<and> objectPath current \<noteq> [] \<and>
     objectPath (the candidate) \<noteq> [] \<and> objectPath (the candidate) \<noteq> objectPath current"

text \<open>Pointers differ when their numbers do.\<close>

definition readyModemEvent :: "busModem \<Rightarrow> busModem option \<Rightarrow> bool \<Rightarrow> bool" where
  "readyModemEvent current candidate reloadObserved \<longleftrightarrow>
     (if reloadObserved
      then sameEquipmentIdentifier (Some current) candidate \<and> modemPtr (the candidate) \<noteq> modemPtr current
      else isReplacementObjectPath current candidate)"

definition isCurrentModemEvent :: "busModem \<Rightarrow> ModemEvent \<Rightarrow> bool" where
  "isCurrentModemEvent current event \<longleftrightarrow>
     evModem event \<noteq> None \<and> sameEquipmentIdentifier (Some current) (evModem event) \<or>
     evPath event \<noteq> [] \<and> evPath event = objectPath current"

fun readyModemLoop :: "busModem \<Rightarrow> bool \<Rightarrow> bool \<Rightarrow> modemMap \<Rightarrow> busModem option \<times> bool" where
  "readyModemLoop current reloadObserved found [] = (None, found)"
| "readyModemLoop current reloadObserved found ((p, modem) # modems) =
     (if \<not> sameEquipmentIdentifier (Some current) (Some modem) then readyModemLoop current reloadObserved found modems
      else if reloadObserved \<and> modemPtr modem \<noteq> modemPtr current then (Some modem, True)
      else if \<not> reloadObserved \<and> isReplacementObjectPath current (Some modem) then (Some modem, True)
      else readyModemLoop current reloadObserved True modems)"

text \<open>The modem that is ready, and whether the current one was found at all.\<close>

definition readyModemIn :: "busModem \<Rightarrow> modemMap \<Rightarrow> bool \<Rightarrow> busModem option \<times> bool" where
  "readyModemIn current modems reloadObserved = readyModemLoop current reloadObserved False modems"

definition findReadyModem :: "busModem \<Rightarrow> bool \<Rightarrow> registry \<Rightarrow> busModem option" where
  "findReadyModem current reloadObserved r = fst (readyModemIn current (regModems r) reloadObserved)"

text \<open>Without a D-Bus object (\<open>None\<close>) the registry is looked at as it is.\<close>

definition refreshReadyModem ::
  "modemReaders \<Rightarrow> (string + (string \<times> (string \<times> dbusMap) list) list) option \<Rightarrow> busModem \<Rightarrow> bool \<Rightarrow> registry \<Rightarrow>
   (string + busModem option \<times> bool) \<times> registry" where
  "refreshReadyModem rd object current reloadObserved r =
     (case object of
        None \<Rightarrow>
          let (modem, found) = readyModemIn current (regModems r) reloadObserved in (Inr (modem, \<not> found), r)
      | Some managed \<Rightarrow>
          (case listModems rd managed r of
             (Inl e, r) \<Rightarrow> (Inl e, r)
           | (Inr modems, r) \<Rightarrow>
               let (modem, found) = readyModemIn current modems reloadObserved in (Inr (modem, \<not> found), r)))"

text \<open>
  The state of a wait: whether a reload was observed and the modem in the channel \<open>ready\<close>, which holds one. The
  callback of the subscription is \<open>waitNotify\<close>.
\<close>

record waitState =
  reloaded :: bool
  readyChan :: "busModem option"

definition waitNotify :: "busModem \<Rightarrow> ModemEvent \<Rightarrow> waitState \<Rightarrow> waitState" where
  "waitNotify current event ws =
     (case evType event of
        ModemEventRemoved \<Rightarrow> if isCurrentModemEvent current event then ws\<lparr>reloaded := True\<rparr> else ws
      | ModemEventAdded \<Rightarrow>
          if \<not> readyModemEvent current (evModem event) (reloaded ws) then ws
          else if readyChan ws = None then ws\<lparr>readyChan := evModem event\<rparr> else ws)"

text \<open>
  What wakes the wait: a signal (handled by the registry and, as the wait is subscribed, by the callback), a
  modem taken from the channel, a tick of the refresh timer with the answer of ModemManager, or the end of the context; Go
  chooses freely among those that are ready. The wait looks into the registry before every pause. \<open>None\<close> is a wait that
  goes on.
\<close>

datatype waitWake =
    WakeSignal modemReaders "dbusSignal option"
  | WakeReady
  | WakeTick modemReaders "(string + (string \<times> (string \<times> dbusMap) list) list) option"
  | WakeDone string

text \<open>A signal, for a subscriber that waits.\<close>

definition waitSignal :: "busModem \<Rightarrow> modemReaders \<Rightarrow> dbusSignal option \<Rightarrow> waitState \<Rightarrow> registry \<Rightarrow> waitState \<times> registry" where
  "waitSignal current rd sig ws r =
     (case handleSignal rd sig r of
        (None, r) \<Rightarrow> (ws, r)
      | (Some (event, _), r) \<Rightarrow> (waitNotify current event ws, r))"

definition waitStep ::
  "busModem \<Rightarrow> waitWake \<Rightarrow> waitState \<Rightarrow> registry \<Rightarrow> (string + busModem) option \<times> waitState \<times> registry" where
  "waitStep current wake ws r =
     (case wake of
        WakeDone e \<Rightarrow> (Some (Inl e), ws, r)
      | WakeReady \<Rightarrow> (map_option Inr (readyChan ws), ws\<lparr>readyChan := None\<rparr>, r)
      | WakeSignal rd sig \<Rightarrow> (None, waitSignal current rd sig ws r)
      | WakeTick rd object \<Rightarrow>
          (case refreshReadyModem rd object current (reloaded ws) r of
             (Inl e, r) \<Rightarrow> (None, ws, r)
           | (Inr (modem, missing), r) \<Rightarrow>
               if missing then (None, ws\<lparr>reloaded := True\<rparr>, r) else (map_option Inr modem, ws, r)))"

fun waitForReadyModem :: "busModem \<Rightarrow> waitWake list \<Rightarrow> waitState \<Rightarrow> registry \<Rightarrow> (string + busModem) option \<times> registry" where
  "waitForReadyModem current [] ws r = (map_option Inr (findReadyModem current (reloaded ws) r), r)"
| "waitForReadyModem current (wake # wakes) ws r =
     (case findReadyModem current (reloaded ws) r of
        Some modem \<Rightarrow> (Some (Inr modem), r)
      | None \<Rightarrow>
          (case waitStep current wake ws r of
             (Some res, ws, r) \<Rightarrow> (Some res, r)
           | (None, ws, r) \<Rightarrow> waitForReadyModem current wakes ws r))"

text \<open>
  While an action runs, \<open>pollReadyModem\<close> refreshes on every tick and offers the modem it finds to the channel; signals are
  handled meanwhile.
\<close>

definition offerReady :: "busModem option \<Rightarrow> waitState \<Rightarrow> waitState" where
  "offerReady modem ws = (if modem = None \<or> readyChan ws \<noteq> None then ws else ws\<lparr>readyChan := modem\<rparr>)"

definition pollStep :: "busModem \<Rightarrow> waitWake \<Rightarrow> waitState \<Rightarrow> registry \<Rightarrow> waitState \<times> registry" where
  "pollStep current wake ws r =
     (case wake of
        WakeSignal rd sig \<Rightarrow> waitSignal current rd sig ws r
      | WakeTick rd object \<Rightarrow>
          (case refreshReadyModem rd object current (reloaded ws) r of
             (Inl e, r) \<Rightarrow> (ws, r)
           | (Inr (modem, missing), r) \<Rightarrow>
               if missing then (ws\<lparr>reloaded := True\<rparr>, r) else (offerReady modem ws, r))
      | _ \<Rightarrow> (ws, r))"

definition pollReadyModem :: "busModem \<Rightarrow> waitWake list \<Rightarrow> waitState \<Rightarrow> registry \<Rightarrow> waitState \<times> registry" where
  "pollReadyModem current wakes ws r = fold (\<lambda>wake (ws, r). pollStep current wake ws r) wakes (ws, r)"

text \<open>
  An action is what happens while it runs with its result: an error, or whether it saw the modem reload.
  The subscription is the first one of the registry or not; it ends with the wait.
\<close>

definition waitForModemAfterAction ::
  "string option \<Rightarrow> busModem option \<Rightarrow> bool \<Rightarrow> (waitWake list \<times> (string + bool)) option \<Rightarrow> waitWake list \<Rightarrow> registry \<Rightarrow>
   (string + busModem) option \<times> registry" where
  "waitForModemAfterAction started cur reloadObserved action wakes r =
     (case cur of
        None \<Rightarrow> (Some (Inl ''modem is required''), r)
      | Some current \<Rightarrow>
          (case subscribe started (Some 0) r of
             (Inl e, r) \<Rightarrow> (Some (Inl e), r)
           | (Inr i, r) \<Rightarrow>
               let ws = \<lparr>reloaded = reloadObserved, readyChan = None\<rparr>;
                   finish = (\<lambda>(res, r). (res, if res = None then r else unsubscribe i r))
               in (case action of
                     None \<Rightarrow> finish (waitForReadyModem current wakes ws r)
                   | Some (meanwhile, result) \<Rightarrow>
                       let (ws, r) = pollReadyModem current meanwhile ws r in
                       (case result of
                          Inl e \<Rightarrow> finish (Some (Inl e), r)
                        | Inr seen \<Rightarrow>
                            finish (waitForReadyModem current wakes (ws\<lparr>reloaded := reloaded ws \<or> seen\<rparr>) r)))))"

definition waitForModemAfter ::
  "string option \<Rightarrow> busModem option \<Rightarrow> waitWake list \<times> string option \<Rightarrow> waitWake list \<Rightarrow> registry \<Rightarrow>
   (string + busModem) option \<times> registry" where
  "waitForModemAfter started cur action wakes r =
     waitForModemAfterAction started cur False
       (Some (fst action, case snd action of None \<Rightarrow> Inr False | Some e \<Rightarrow> Inl e)) wakes r"

definition waitForReloadedModem ::
  "string option \<Rightarrow> busModem option \<Rightarrow> waitWake list \<Rightarrow> registry \<Rightarrow> (string + busModem) option \<times> registry" where
  "waitForReloadedModem started cur wakes r = waitForModemAfterAction started cur True None wakes r"

section \<open>What a wait returns\<close>

text \<open>Another modem object of the same equipment.\<close>

definition isReplacement :: "busModem \<Rightarrow> busModem \<Rightarrow> bool" where
  "isReplacement current m \<longleftrightarrow> sameEquipmentIdentifier (Some current) (Some m) \<and>
     (modemPtr m \<noteq> modemPtr current \<or> objectPath m \<noteq> objectPath current)"

definition readyOk :: "busModem \<Rightarrow> waitState \<Rightarrow> bool" where
  "readyOk current ws \<longleftrightarrow> (\<forall>m. readyChan ws = Some m \<longrightarrow> isReplacement current m)"

lemma readyModemLoop_replacement:
  "readyModemLoop current reloadObserved found modems = (Some m, found') \<Longrightarrow> isReplacement current m"
  by (induction current reloadObserved found modems rule: readyModemLoop.induct)
    (auto simp: isReplacement_def isReplacementObjectPath_def split: if_splits)

lemma findReadyModem_replacement: "findReadyModem current ro r = Some m \<Longrightarrow> isReplacement current m"
  unfolding findReadyModem_def readyModemIn_def by (metis prod.collapse readyModemLoop_replacement)

lemma refreshReadyModem_replacement:
  "refreshReadyModem rd object current ro r = (Inr (Some m, missing), r') \<Longrightarrow> isReplacement current m"
  by (auto simp: refreshReadyModem_def readyModemIn_def split: option.splits sum.splits prod.splits
      dest: readyModemLoop_replacement)

lemma readyOk_start: "readyOk current \<lparr>reloaded = b, readyChan = None\<rparr>"
  by (simp add: readyOk_def)

lemma readyModemEvent_replacement: "readyModemEvent current (Some m) ro \<Longrightarrow> isReplacement current m"
  by (auto simp: readyModemEvent_def isReplacementObjectPath_def isReplacement_def split: if_splits)

lemma readyModemEvent_none: "\<not> readyModemEvent current None ro"
  by (simp add: readyModemEvent_def isReplacementObjectPath_def sameEquipmentIdentifier_def)

lemma waitNotify_ok: "readyOk current ws \<Longrightarrow> readyOk current (waitNotify current event ws)"
  unfolding readyOk_def waitNotify_def
  by (cases "evModem event"; cases "evType event") (simp_all add: readyModemEvent_replacement readyModemEvent_none)

lemma readyOk_reloaded [simp]: "readyOk current (ws\<lparr>reloaded := b\<rparr>) = readyOk current ws"
  by (simp add: readyOk_def)

lemma offerReady_ok: "readyOk current ws \<Longrightarrow> (\<And>m. modem = Some m \<Longrightarrow> isReplacement current m) \<Longrightarrow> readyOk current (offerReady modem ws)"
  by (auto simp: readyOk_def offerReady_def)

lemma waitSignal_ok: "readyOk current ws \<Longrightarrow> readyOk current (fst (waitSignal current rd sig ws r))"
  by (auto simp: waitSignal_def waitNotify_ok split: prod.split option.split)

lemma pollStep_ok: "readyOk current ws \<Longrightarrow> readyOk current (fst (pollStep current wake ws r))"
  by (auto simp: pollStep_def waitSignal_ok split: waitWake.split prod.split sum.split
      intro!: offerReady_ok dest: refreshReadyModem_replacement)

lemma pollReadyModem_ok: "readyOk current ws \<Longrightarrow> readyOk current (fst (pollReadyModem current wakes ws r))"
proof (induction wakes arbitrary: ws r)
  case (Cons wake wakes)
  obtain ws' r' where step: "pollStep current wake ws r = (ws', r')" by fastforce
  with pollStep_ok [OF Cons.prems, of wake r] Cons.IH [of ws' r'] show ?case by (simp add: pollReadyModem_def)
qed (simp add: pollReadyModem_def)

lemma waitStep_ok:
  assumes "readyOk current ws" and "waitStep current wake ws r = (res, ws', r')"
  shows "readyOk current ws'" and "res = Some (Inr m) \<Longrightarrow> isReplacement current m"
  using assms waitSignal_ok [OF assms(1)]
  by (auto simp: waitStep_def readyOk_def split: waitWake.splits prod.splits sum.splits if_splits
      dest: refreshReadyModem_replacement) (metis fst_conv)+

lemma waitForReadyModem_replacement:
  "waitForReadyModem current wakes ws r = (Some (Inr m), r') \<Longrightarrow> readyOk current ws \<Longrightarrow> isReplacement current m"
proof (induction wakes arbitrary: ws r)
  case (Cons wake wakes)
  obtain res ws' r1 where step: "waitStep current wake ws r = (res, ws', r1)" by (metis prod.exhaust)
  note ok = waitStep_ok [OF Cons.prems(2) step]
  from Cons.prems(1) consider "findReadyModem current (reloaded ws) r = Some m" | "res = Some (Inr m)"
    | "res = None" "waitForReadyModem current wakes ws' r1 = (Some (Inr m), r')"
    by (auto simp: step split: option.splits)
  then show ?case
    by cases (use findReadyModem_replacement ok Cons.IH in blast)+
qed (auto dest: findReadyModem_replacement)

text \<open>The subscribers, while a wait goes on.\<close>

definition subsOk :: "registry \<Rightarrow> bool" where
  "subsOk r \<longleftrightarrow> (\<forall>i\<in>fst ` set (regSubs r). i \<le> nextSubID r)"

lemma handleSignal_subs: "regSubs (snd (handleSignal rd sig r)) = regSubs r"
  by (simp add: handleSignal_def Let_def split: option.split signalName.split sum.split)

lemma listModems_subs: "regSubs (snd (listModems rd managed r)) = regSubs r"
  by (simp add: listModems_def split: sum.split prod.split)

lemma refreshReadyModem_subs: "regSubs (snd (refreshReadyModem rd object current ro r)) = regSubs r"
proof (cases object)
  case (Some managed)
  obtain res r' where l: "listModems rd managed r = (res, r')" by fastforce
  with listModems_subs [of rd managed r] Some show ?thesis
    by (simp add: refreshReadyModem_def split: prod.split sum.split)
qed (simp add: refreshReadyModem_def split: prod.split)

lemma waitSignal_subs: "regSubs (snd (waitSignal current rd sig ws r)) = regSubs r"
  using handleSignal_subs [of rd sig r] by (auto simp: waitSignal_def split: prod.split option.split)

lemma waitStep_subs: "waitStep current wake ws r = (res, ws', r') \<Longrightarrow> regSubs r' = regSubs r"
  using waitSignal_subs [of current _ _ ws r] refreshReadyModem_subs [of _ _ current "reloaded ws" r]
  by (auto simp: waitStep_def split: waitWake.splits prod.splits sum.splits if_splits; metis snd_conv)

lemma waitForReadyModem_subs: "regSubs (snd (waitForReadyModem current wakes ws r)) = regSubs r"
proof (induction wakes arbitrary: ws r)
  case (Cons wake wakes)
  obtain res ws' r' where step: "waitStep current wake ws r = (res, ws', r')" by (metis prod.exhaust)
  with Cons.IH [of ws' r'] waitStep_subs [OF step] show ?case by (simp split: option.split)
qed simp

lemma pollStep_subs: "regSubs (snd (pollStep current wake ws r)) = regSubs r"
proof (cases wake)
  case (WakeTick rd object)
  obtain res r' where l: "refreshReadyModem rd object current (reloaded ws) r = (res, r')" by fastforce
  with refreshReadyModem_subs [of rd object current "reloaded ws" r] WakeTick show ?thesis
    by (simp add: pollStep_def split: sum.split prod.split)
qed (simp_all add: pollStep_def waitSignal_subs)

lemma pollReadyModem_subs: "regSubs (snd (pollReadyModem current wakes ws r)) = regSubs r"
proof (induction wakes arbitrary: ws r)
  case (Cons wake wakes)
  obtain ws' r' where step: "pollStep current wake ws r = (ws', r')" by fastforce
  with Cons.IH [of ws' r'] pollStep_subs [of current wake ws r] show ?case by (simp add: pollReadyModem_def)
qed (simp add: pollReadyModem_def)

lemma removeSub_last: "i \<notin> fst ` set subs \<Longrightarrow> removeSub i (subs @ [(i, fn)]) = subs"
  by (induction subs) auto

lemma subscribe_subs:
  assumes "subsOk r" and "subscribe started (Some fn) r = (res, r')"
  shows "res = Inl e \<Longrightarrow> regSubs r' = regSubs r" and "res = Inr i \<Longrightarrow> removeSub i (regSubs r') = regSubs r"
proof -
  have "Suc (nextSubID r) \<notin> fst ` set (regSubs r)" using assms(1) by (fastforce simp: subsOk_def)
  then have "removeSub (Suc (nextSubID r)) (regSubs r @ [(Suc (nextSubID r), fn)]) = regSubs r" by (rule removeSub_last)
  with assms(2) show "res = Inl e \<Longrightarrow> regSubs r' = regSubs r" "res = Inr i \<Longrightarrow> removeSub i (regSubs r') = regSubs r"
    by (auto simp: subscribe_def ensureSubscriptionStarted_def Let_def split: if_splits option.splits)
qed

section \<open>Created modems\<close>

lemma withATR_fields [simp]:
  "objectPath (withATR rd m) = objectPath m" "modemPtr (withATR rd m) = modemPtr m"
  "EquipmentIdentifier (withATR rd m) = EquipmentIdentifier m"
  by (simp_all add: withATR_def split: option.split sum.split)

lemma createModem_fields:
  "createModem rd ptr path data = Inr m \<Longrightarrow>
     objectPath m = path \<and> modemPtr m = ptr \<and> EquipmentIdentifier m = variantString data ''EquipmentIdentifier''"
  by (auto simp: createModem_def Let_def rbind_Inr_iff)

text \<open>A modem with an equipment identifier and nothing else.\<close>

definition exampleReaders :: modemReaders where
  "exampleReaders = \<lparr>ctxDone = False, simReader = (\<lambda>p. simReference p), atrReader = (\<lambda>m. Inl [])\<rparr>"

definition exampleInterfaces :: "(string \<times> dbusMap) list" where
  "exampleInterfaces = [(ModemInterface, [(''EquipmentIdentifier'', DString ''35'')])]"

definition exampleBusModem :: "nat \<Rightarrow> string \<Rightarrow> busModem" where
  "exampleBusModem ptr path = projr (createModem exampleReaders ptr path (snd (hd exampleInterfaces)))"

lemma exampleBusModem_created:
  "createModem exampleReaders ptr path [(''EquipmentIdentifier'', DString ''35'')] = Inr (exampleBusModem ptr path)"
  "EquipmentIdentifier (exampleBusModem ptr path) = ''35''" "objectPath (exampleBusModem ptr path) = path"
proof -
  have "\<exists>m. createModem exampleReaders ptr path [(''EquipmentIdentifier'', DString ''35'')] = Inr m"
    by (simp add: createModem_def Let_def variantObjectPath_def rawValue_def objectPathFromVariant_def validSIMObjectPath_def)
  then show c: "createModem exampleReaders ptr path [(''EquipmentIdentifier'', DString ''35'')] = Inr (exampleBusModem ptr path)"
    by (auto simp: exampleBusModem_def exampleInterfaces_def)
  show "EquipmentIdentifier (exampleBusModem ptr path) = ''35''" "objectPath (exampleBusModem ptr path) = path"
    using createModem_fields [OF c] by (simp_all add: variantString_def rawValue_def stringFromVariant_def)
qed

lemma waited:
  assumes "waitForReadyModem current wakes ws r = (Some res, r')" and "readyOk current ws"
  shows "(\<forall>m. res = Inr m \<longrightarrow> isReplacement current m) \<and> regSubs r' = regSubs r"
  using waitForReadyModem_replacement [of current wakes ws r _ r'] waitForReadyModem_subs [of current wakes ws r] assms by simp

text \<open>A wait that subscribed, up to the end of its subscription.\<close>

lemma subscribed_wait:
  assumes "waitForModemAfterAction started (Some current) reloadObserved action wakes r = (Some res, r')"
    and "subscribe started (Some 0) r = (Inr i, r1)"
  obtains r2 where "r' = unsubscribe i r2" and "(\<forall>m. res = Inr m \<longrightarrow> isReplacement current m) \<and> regSubs r2 = regSubs r1"
proof -
  let ?ws = "\<lparr>reloaded = reloadObserved, readyChan = None\<rparr>"
  show thesis
  proof (cases action)
    case None
    obtain x r3 where w: "waitForReadyModem current wakes ?ws r1 = (x, r3)" by fastforce
    with assms None have "x = Some res" "r' = unsubscribe i r3" by (auto simp: waitForModemAfterAction_def Let_def)
    with w waited [OF _ readyOk_start] show thesis by (intro that [of r3]) simp_all
  next
    case (Some a)
    obtain meanwhile result where a: "a = (meanwhile, result)" by fastforce
    obtain ws r2 where p: "pollReadyModem current meanwhile ?ws r1 = (ws, r2)" by fastforce
    have ok: "readyOk current ws" "regSubs r2 = regSubs r1"
      using pollReadyModem_ok [OF readyOk_start [of current reloadObserved], of meanwhile r1]
        pollReadyModem_subs [of current meanwhile ?ws r1] p by simp_all
    show thesis
    proof (cases result)
      case (Inl e)
      with assms Some a p ok(2) show thesis by (intro that [of r2]) (auto simp: waitForModemAfterAction_def)
    next
      case (Inr seen)
      let ?ws' = "ws\<lparr>reloaded := reloaded ws \<or> seen\<rparr>"
      obtain x r3 where w: "waitForReadyModem current wakes ?ws' r2 = (x, r3)" by fastforce
      with assms Some a p Inr have "x = Some res" "r' = unsubscribe i r3" by (auto simp: waitForModemAfterAction_def Let_def)
      with w waited [of current wakes ?ws' r2 res r3] ok show thesis by (intro that [of r3]) simp_all
    qed
  qed
qed

text \<open>
  C21: A wait for a modem that was reset never returns the modem object it was called with: what it returns has the
  same equipment identifier and is a different object or under a different path, whatever the order of signals, ticks and listings and
  whether or not an action ran. (A wait that is told that the reload was seen takes any other object, also one that was created
  before.) However it ends, the subscribers of the registry are those it found.
\<close>
theorem wait_returns_replacement:
  assumes "waitForModemAfterAction started (Some current) reloadObserved action wakes r = (Some res, r')" and "subsOk r"
  shows "(\<forall>m. res = Inr m \<longrightarrow> isReplacement current m) \<and> regSubs r' = regSubs r"
proof (cases "subscribe started (Some 0) r")
  case (Pair sub r1)
  note subs = subscribe_subs [OF assms(2) Pair]
  show ?thesis
  proof (cases sub)
    case (Inl e)
    with assms(1) Pair subs(1) [of e] show ?thesis by (auto simp: waitForModemAfterAction_def)
  next
    case (Inr i)
    with Pair have "subscribe started (Some 0) r = (Inr i, r1)" by simp
    then obtain r2 where "r' = unsubscribe i r2" and w: "(\<forall>m. res = Inr m \<longrightarrow> isReplacement current m) \<and> regSubs r2 = regSubs r1"
      by (rule subscribed_wait [OF assms(1)])
    then have "regSubs r' = regSubs r" using subs(2) [OF Inr] by (simp add: unsubscribe_def)
    with w show ?thesis by blast
  qed
qed

theorem wait_returns_replacement_witness:
  "isReplacement (exampleBusModem 1 ''/1'') (exampleBusModem 2 ''/2'') \<and>
   regSubs (snd (waitForModemAfterAction None (Some (exampleBusModem 1 ''/1'')) False None []
     (NewRegistry\<lparr>regModems := [(''/2'', exampleBusModem 2 ''/2'')]\<rparr>))) = []"
proof -
  let ?r = "NewRegistry\<lparr>regModems := [(''/2'', exampleBusModem 2 ''/2'')]\<rparr>"
  have same: "sameEquipmentIdentifier (Some (exampleBusModem 1 ''/1'')) (Some (exampleBusModem 2 ''/2''))"
    unfolding sameEquipmentIdentifier_def by (simp add: exampleBusModem_created) code_simp
  obtain r' where r': "waitForModemAfterAction None (Some (exampleBusModem 1 ''/1'')) False None [] ?r =
      (Some (Inr (exampleBusModem 2 ''/2'')), r')"
    by (simp add: waitForModemAfterAction_def subscribe_def ensureSubscriptionStarted_def NewRegistry_def Let_def
        findReadyModem_def readyModemIn_def same [simplified] isReplacementObjectPath_def exampleBusModem_created)
  have "subsOk ?r" by (simp add: subsOk_def NewRegistry_def)
  from wait_returns_replacement [OF r' this] r' show ?thesis by (simp add: NewRegistry_def)
qed

text \<open>
  A modem that is removed while a listing is made comes back: the list replaces what the signal had taken away.
\<close>
theorem stale_listing_restores_removed:
  assumes "listModems rd managed r = (Inr modems, r1)" and "map_of modems path = Some m"
  shows "\<exists>r'. listModemsDuring rd managed [(rd', Some \<lparr>sigName = InterfacesRemoved, sigBody = [BodyPath path]\<rparr>)] r = (Inr modems, r') \<and>
    map_of (regModems r') path = Some m"
  using assms by (auto simp: listModems_def listModemsDuring_def Let_def split: sum.splits prod.splits)

theorem stale_listing_restores_removed_witness:
  "\<exists>r'. listModemsDuring exampleReaders (Inr [(''/1'', exampleInterfaces)])
       [(exampleReaders, Some \<lparr>sigName = InterfacesRemoved, sigBody = [BodyPath ''/1'']\<rparr>)] NewRegistry =
       (Inr [(''/1'', exampleBusModem 1 ''/1'')], r') \<and> map_of (regModems r') ''/1'' = Some (exampleBusModem 1 ''/1'')"
proof (rule stale_listing_restores_removed)
  show "listModems exampleReaders (Inr [(''/1'', exampleInterfaces)]) NewRegistry =
     (Inr [(''/1'', exampleBusModem 1 ''/1'')], NewRegistry\<lparr>regModems := [(''/1'', exampleBusModem 1 ''/1'')], nextModem := 2\<rparr>)"
    by (simp add: listModems_def loadModem_def exampleInterfaces_def exampleBusModem_created NewRegistry_def)
qed simp

end
