(* ===== verification/Messenger.thy ===== *)
theory Messenger
  imports SmsTracker Registry CallControl
begin

text \<open>
  SMS of a modem (\<open>internal/pkg/modem/messaging.go\<close>, \<open>sms.go\<close>) and the messenger that sends, lists and deletes
  messages (\<open>internal/pkg/message\<close>).

  A modem is a record of answers: what D-Bus returns to each call of the operation at hand. What was really sent
  and deleted is a log in the state, next to the messages table and the trackers of \<open>SmsTracker\<close>. The Wi-Fi
  Calling route is a record of functions on that state.
\<close>

section \<open>SMS objects\<close>

record modemSMS =
  smsPath :: string
  smsObjectState :: nat
  smsNumber :: string
  smsObjectText :: string
  smsTimestamp :: time

definition SMSStateReceiving :: nat where "SMSStateReceiving = 2"
definition SMSStateReceived :: nat where "SMSStateReceived = 3"

definition smsStateName :: "nat \<Rightarrow> string" where
  "smsStateName s =
     (if s = 0 then ''Unknown'' else if s = 1 then ''Stored'' else if s = 2 then ''Receiving''
      else if s = 3 then ''Received'' else if s = 4 then ''Sending'' else if s = 5 then ''Sent'' else ''Unknown'')"

text \<open>ModemManager may leave out the minutes of the time zone.\<close>

definition smsTimestampText :: "string \<Rightarrow> string" where
  "smsTimestampText t =
     (if length t \<ge> 3 \<and> (t ! (length t - 3) = CHR ''+'' \<or> t ! (length t - 3) = CHR ''-'') then t @ '':00'' else t)"

definition ModemSMSInterface :: string where "ModemSMSInterface = ''org.freedesktop.ModemManager1.Sms''"

text \<open>\<open>parseTime\<close> is \<open>time.Parse\<close> with RFC 3339.\<close>

definition smsRetrieve :: "(string \<Rightarrow> busError + time) \<Rightarrow> dbusProperties \<Rightarrow> string \<Rightarrow> busError + modemSMS" where
  "smsRetrieve parseTime props path =
     (let prop = dbusProperty props path ModemSMSInterface in
      rbind (prop ''State'') (\<lambda>v1.
      rbind (prop ''Number'') (\<lambda>v2.
      rbind (prop ''Text'') (\<lambda>v3.
      rbind (prop ''Timestamp'') (\<lambda>v4.
        let sms = \<lparr>smsPath = path, smsObjectState = uintFromVariant 32 v1, smsNumber = stringFromVariant v2,
                   smsObjectText = stringFromVariant v3, smsTimestamp = zero_time\<rparr>;
            t = stringFromVariant v4
        in if t = [] then Inr sms
           else map_sum id (\<lambda>ts. sms\<lparr>smsTimestamp := ts\<rparr>) (parseTime (smsTimestampText t)))))))"

text \<open>\<open>Retrieve\<close> of every path; the first error ends the listing.\<close>

fun retrieveLoop :: "(string \<Rightarrow> busError + modemSMS) \<Rightarrow> string list \<Rightarrow> busError + modemSMS list" where
  "retrieveLoop retrieve [] = Inr []"
| "retrieveLoop retrieve (path # paths) =
     rbind (retrieve path) (\<lambda>s. map_sum id (Cons s) (retrieveLoop retrieve paths))"

definition smsList :: "busError + string list \<Rightarrow> (string \<Rightarrow> busError + modemSMS) \<Rightarrow> busError + modemSMS list" where
  "smsList paths retrieve = rbind paths (retrieveLoop retrieve)"

text \<open>The signal of a new message: its path and whether it was received.\<close>

datatype smsSignalValue = SigPath string | SigBool bool | SigOther

definition receivedMessageSignal :: "smsSignalValue list option \<Rightarrow> (string \<times> bool) option" where
  "receivedMessageSignal sig =
     (case sig of
        Some (SigPath path # SigBool received # _) \<Rightarrow> if path = [] then None else Some (path, received)
      | _ \<Rightarrow> None)"

text \<open>One answer for every round of \<open>waitForSMSReceived\<close>; the last one is the end of the context.\<close>

fun waitForSMSReceived :: "(busError + modemSMS) list \<Rightarrow> busError \<Rightarrow> busError + modemSMS" where
  "waitForSMSReceived [] ctxErr = Inl ctxErr"
| "waitForSMSReceived (Inl e # _) ctxErr = Inl e"
| "waitForSMSReceived (Inr s # answers) ctxErr =
     (if smsObjectState s = SMSStateReceived then Inr s else waitForSMSReceived answers ctxErr)"

section \<open>Recipients\<close>

datatype messengerError =
    ErrParticipantRequired | ErrRecipientRequired | ErrRecipientInvalid | ErrTextRequired
  | ErrDevice busError | ErrSend string busError | ErrStatus string | ErrRouteSend string string | ErrListing busError
  | ErrStore messageError | ErrDelete string busError

fun smsAddressLoop :: "string \<Rightarrow> string \<Rightarrow> string option" where
  "smsAddressLoop b [] = Some b"
| "smsAddressLoop b (r # rs) =
     (if is_digit r then smsAddressLoop (b @ [r]) rs
      else if r = CHR ''+'' \<and> b = [] then smsAddressLoop (b @ [r]) rs
      else if r \<in> {CHR '' '', CHR ''-'', CHR ''.'', CHR ''('', CHR '')''} then smsAddressLoop b rs
      else None)"

definition normalizeSMSAddress :: "string \<Rightarrow> messengerError + string" where
  "normalizeSMSAddress v =
     (let v = trim_space v in
      if v = [] then Inl ErrRecipientRequired
      else case smsAddressLoop [] v of
        None \<Rightarrow> Inl ErrRecipientInvalid
      | Some recipient \<Rightarrow>
          if recipient = [] then Inl ErrRecipientRequired
          else if recipient = ''+'' then Inl ErrRecipientInvalid
          else Inr recipient)"

section \<open>The device and the route\<close>

text \<open>
  The answers of the modem to one operation. \<open>Messaging.Send\<close> creates the message, sends it and reads it back: the
  message is on its way as soon as the second call succeeds.
\<close>

record modemDevice =
  devProfileID :: "busError + string"
  devModemID :: string
  devPhoneNumber :: string
  devCreateSMS :: "busError + string"
  devSend :: "busError option"
  devRetrieve :: "string \<Rightarrow> busError + modemSMS"
  devPaths :: "busError + string list"
  devDelete :: "string \<Rightarrow> busError option"

datatype smsSent = SentByModem string string | SentByRoute string string

record messengerState =
  mgState :: smsState
  smsLog :: "smsSent list"
  deletedLog :: "string list"

record RouteStatus =
  Preferred :: bool
  RouteConnected :: bool

text \<open>\<open>routeStatusAnswer\<close> is the status with its error, if any, and whether that is \<open>ErrRouteUnavailable\<close>.\<close>

record messageRoute =
  routeStatusAnswer :: "RouteStatus \<times> (string \<times> bool) option"
  routeSendSMS :: "string \<Rightarrow> string \<Rightarrow> smsState \<Rightarrow> (string + Message) \<times> smsState"

definition deviceSendSMS :: "modemDevice \<Rightarrow> string \<Rightarrow> string \<Rightarrow> messengerState \<Rightarrow> (busError + modemSMS) \<times> messengerState" where
  "deviceSendSMS dev to body s =
     (case devCreateSMS dev of
        Inl e \<Rightarrow> (Inl e, s)
      | Inr path \<Rightarrow>
          (case devSend dev of
             Some e \<Rightarrow> (Inl e, s)
           | None \<Rightarrow> (devRetrieve dev path, s\<lparr>smsLog := smsLog s @ [SentByModem to body]\<rparr>)))"

definition routeSend :: "messageRoute \<Rightarrow> string \<Rightarrow> string \<Rightarrow> messengerState \<Rightarrow> (string + Message) \<times> messengerState" where
  "routeSend route to body s =
     (case routeSendSMS route to body (mgState s) of
        (Inl e, st) \<Rightarrow> (Inl e, s\<lparr>mgState := st\<rparr>)
      | (Inr msg, st) \<Rightarrow> (Inr msg, s\<lparr>mgState := st, smsLog := smsLog s @ [SentByRoute to body]\<rparr>))"

definition routeStatus :: "messageRoute option \<Rightarrow> messengerError + RouteStatus" where
  "routeStatus route =
     (case route of
        None \<Rightarrow> Inr \<lparr>Preferred = False, RouteConnected = False\<rparr>
      | Some r \<Rightarrow>
          (case routeStatusAnswer r of
             (status, None) \<Rightarrow> Inr status
           | (status, Some (e, unavailable)) \<Rightarrow> if unavailable then Inr status else Inl (ErrStatus e)))"

text \<open>The message of a modem SMS, read by the messenger.\<close>

definition messageFromModemSMS :: "messageEnv \<Rightarrow> string \<Rightarrow> string \<Rightarrow> string \<Rightarrow> modemSMS \<Rightarrow> Message" where
  "messageFromModemSMS env modemID phoneNumber profileID sms =
     (let incoming = (smsObjectState sms = SMSStateReceived \<or> smsObjectState sms = SMSStateReceiving);
          remote = trim_space (smsNumber sms);
          (sender, recipient) = (if incoming then (remote, phoneNumber) else (phoneNumber, remote))
      in \<lparr>msgID = 0, msgModemID = modemID, msgProfileID = profileID, msgSource = MessageSourceModem,
          msgExternalKey = smsPath sms, msgFingerprint = [], msgSender = sender, msgRecipient = recipient,
          msgText = smsObjectText sms, msgTimestamp = smsTimestamp sms,
          msgStatus = toLower env (smsStateName (smsObjectState sms)), msgIncoming = incoming, msgRouted = False\<rparr>)"

section \<open>Sending\<close>

text \<open>The faults and times of the statements of one operation, and what other goroutines do between them.\<close>

record storeAnswers =
  insertFault :: "string option"
  statusFault :: "string option"
  insertTime :: time
  statusTime :: time
  meanwhile :: "smsState \<Rightarrow> smsState"

definition storeSentMessage :: "messageEnv \<Rightarrow> storeAnswers \<Rightarrow> messageRoute option \<Rightarrow> Message \<Rightarrow> messengerState \<Rightarrow>
   messengerError option \<times> messengerState" where
  "storeSentMessage env a route msg s =
     (case route of
        None \<Rightarrow>
          (case InsertMessage env (insertFault a) (insertTime a) msg (smsMessages (mgState s)) of
             (Inl e, tab) \<Rightarrow> (Some (ErrStore e), s\<lparr>mgState := (mgState s)\<lparr>smsMessages := tab\<rparr>\<rparr>)
           | (Inr _, tab) \<Rightarrow> (None, s\<lparr>mgState := (mgState s)\<lparr>smsMessages := tab\<rparr>\<rparr>))
      | Some _ \<Rightarrow>
          (case insertSentMessage env (insertFault a) (statusFault a) (insertTime a) (statusTime a)
                  (meanwhile a) (meanwhile a) (meanwhile a) msg (mgState s) of
             (e, st) \<Rightarrow> (map_option ErrStore e, s\<lparr>mgState := st\<rparr>)))"

definition stored :: "'e option \<times> 's \<Rightarrow> 'a \<Rightarrow> ('e + 'a) \<times> 's" where
  "stored r x = (case r of (None, s) \<Rightarrow> (Inr x, s) | (Some e, s) \<Rightarrow> (Inl e, s))"

text \<open>The two branches of \<open>send\<close>: over the route, and over the modem with the route as a fallback.\<close>

definition sendOverRoute :: "messageEnv \<Rightarrow> storeAnswers \<Rightarrow> messageRoute \<Rightarrow> string \<Rightarrow> string \<Rightarrow> messengerState \<Rightarrow>
   (messengerError + string) \<times> messengerState" where
  "sendOverRoute env a route to body s =
     (case routeSend route to body s of
        (Inl e, s) \<Rightarrow> (Inl (ErrRouteSend to e), s)
      | (Inr msg, s) \<Rightarrow> stored (storeSentMessage env a (Some route) msg s) to)"

definition sendOverModem :: "messageEnv \<Rightarrow> storeAnswers \<Rightarrow> messageRoute option \<Rightarrow> bool \<Rightarrow> modemDevice \<Rightarrow> string \<Rightarrow> string \<Rightarrow>
   string \<Rightarrow> messengerState \<Rightarrow> (messengerError + string) \<times> messengerState" where
  "sendOverModem env a route fallback dev profileID to body s =
     (case deviceSendSMS dev to body s of
        (Inr sms, s) \<Rightarrow>
          stored (storeSentMessage env a route (messageFromModemSMS env (devModemID dev) (devPhoneNumber dev) profileID sms) s) to
      | (Inl err, s) \<Rightarrow>
          (case (fallback, route) of
             (True, Some r) \<Rightarrow>
               (case routeSend r to body s of
                  (Inr msg, s) \<Rightarrow> stored (storeSentMessage env a route msg s) to
                | (Inl _, s) \<Rightarrow> (Inl (ErrSend to err), s))
           | _ \<Rightarrow> (Inl (ErrSend to err), s)))"

definition messengerSend :: "messageEnv \<Rightarrow> storeAnswers \<Rightarrow> messageRoute option \<Rightarrow> modemDevice \<Rightarrow> string \<Rightarrow> string \<Rightarrow>
   messengerState \<Rightarrow> (messengerError + string) \<times> messengerState" where
  "messengerSend env a route dev to body s =
     (if trim_space to = [] then (Inl ErrRecipientRequired, s)
      else if trim_space body = [] then (Inl ErrTextRequired, s)
      else case normalizeSMSAddress to of
        Inl e \<Rightarrow> (Inl e, s)
      | Inr to \<Rightarrow>
          (case devProfileID dev of
             Inl e \<Rightarrow> (Inl (ErrDevice e), s)
           | Inr profileID \<Rightarrow>
               (case routeStatus route of
                  Inl e \<Rightarrow> (Inl e, s)
                | Inr status \<Rightarrow>
                    (case (Preferred status \<and> RouteConnected status, route) of
                       (True, Some r) \<Rightarrow> sendOverRoute env a r to body s
                     | _ \<Rightarrow> sendOverModem env a route (RouteConnected status) dev profileID to body s))))"

section \<open>Listing and deleting\<close>

fun syncLoop :: "messageEnv \<Rightarrow> string option list \<Rightarrow> time \<Rightarrow> modemDevice \<Rightarrow> string \<Rightarrow> modemSMS list \<Rightarrow> messageTable \<Rightarrow>
   messengerError option \<times> messageTable" where
  "syncLoop env faults now dev profileID [] tab = (None, tab)"
| "syncLoop env faults now dev profileID (sms # messages) tab =
     (case InsertMessage env (case faults of [] \<Rightarrow> None | f # _ \<Rightarrow> f) now
             (messageFromModemSMS env (devModemID dev) (devPhoneNumber dev) profileID sms) tab of
        (Inl e, tab) \<Rightarrow> (Some (ErrStore e), tab)
      | (Inr _, tab) \<Rightarrow> syncLoop env (tl faults) now dev profileID messages tab)"

definition syncModemMessages :: "messageEnv \<Rightarrow> string option list \<Rightarrow> time \<Rightarrow> modemDevice \<Rightarrow> string \<Rightarrow> messageTable \<Rightarrow>
   messengerError option \<times> messageTable" where
  "syncModemMessages env faults now dev profileID tab =
     (case smsList (devPaths dev) (devRetrieve dev) of
        Inl e \<Rightarrow> (Some (ErrListing e), tab)
      | Inr messages \<Rightarrow> syncLoop env faults now dev profileID messages tab)"

definition messengerConversations :: "messageEnv \<Rightarrow> string option list \<Rightarrow> string option \<Rightarrow> time \<Rightarrow> modemDevice \<Rightarrow> string \<Rightarrow>
   messageTable \<Rightarrow> (messengerError + Message list) \<times> messageTable" where
  "messengerConversations env faults fault now dev query tab =
     (case devProfileID dev of
        Inl e \<Rightarrow> (Inl (ErrDevice e), tab)
      | Inr profileID \<Rightarrow>
          (case syncModemMessages env faults now dev profileID tab of
             (Some e, tab) \<Rightarrow> (Inl e, tab)
           | (None, tab) \<Rightarrow> (map_sum ErrStore id (ListConversations env fault profileID query tab), tab)))"

definition messengerByParticipant :: "messageEnv \<Rightarrow> string option list \<Rightarrow> string option \<Rightarrow> time \<Rightarrow> modemDevice \<Rightarrow> string \<Rightarrow>
   messageTable \<Rightarrow> (messengerError + Message list) \<times> messageTable" where
  "messengerByParticipant env faults fault now dev participant tab =
     (if trim_space participant = [] then (Inl ErrParticipantRequired, tab)
      else case devProfileID dev of
        Inl e \<Rightarrow> (Inl (ErrDevice e), tab)
      | Inr profileID \<Rightarrow>
          (case syncModemMessages env faults now dev profileID tab of
             (Some e, tab) \<Rightarrow> (Inl e, tab)
           | (None, tab) \<Rightarrow> (map_sum ErrStore id (ListByParticipant env fault profileID participant tab), tab)))"

text \<open>The SMS objects that were asked to be deleted, and the error that ended the loop.\<close>

fun deleteSMSLoop :: "modemDevice \<Rightarrow> string \<Rightarrow> Message list \<Rightarrow> messengerError option \<times> string list" where
  "deleteSMSLoop dev participant [] = (None, [])"
| "deleteSMSLoop dev participant (msg # messages) =
     (if msgSource msg \<noteq> MessageSourceModem then deleteSMSLoop dev participant messages
      else case devDelete dev (msgExternalKey msg) of
        Some e \<Rightarrow> (Some (ErrDelete participant e), [])
      | None \<Rightarrow> (case deleteSMSLoop dev participant messages of (r, ps) \<Rightarrow> (r, msgExternalKey msg # ps)))"

definition messengerDelete :: "messageEnv \<Rightarrow> string option \<Rightarrow> string option \<Rightarrow> modemDevice \<Rightarrow> string \<Rightarrow> messengerState \<Rightarrow>
   messengerError option \<times> messengerState" where
  "messengerDelete env fault fault' dev participant s =
     (if trim_space participant = [] then (Some ErrParticipantRequired, s)
      else case devProfileID dev of
        Inl e \<Rightarrow> (Some (ErrDevice e), s)
      | Inr profileID \<Rightarrow>
          (case DeleteByParticipant env fault fault' profileID participant (smsMessages (mgState s)) of
             (Inl e, tab) \<Rightarrow> (Some (ErrStore e), s\<lparr>mgState := (mgState s)\<lparr>smsMessages := tab\<rparr>\<rparr>)
           | (Inr messages, tab) \<Rightarrow>
               (case deleteSMSLoop dev participant messages of
                  (r, paths) \<Rightarrow>
                    (r, s\<lparr>mgState := (mgState s)\<lparr>smsMessages := tab\<rparr>, deletedLog := deletedLog s @ paths\<rparr>))))"


section \<open>What is sent\<close>

lemma smsAddressLoop_compact: "smsAddressLoop b v = compactLoop b v"
  by (induction b v rule: smsAddressLoop.induct) simp_all

text \<open>
  Messages and calls read a number alike: what the messenger takes for a recipient is what the dialler takes for the
  number, digits after an optional plus sign, and taking it again changes nothing; what one refuses the other refuses.
\<close>
theorem recipients_are_dialled_numbers:
  "(normalizeSMSAddress v = Inr n \<longleftrightarrow> normalizeDialString (trim_space v) = Inr n) \<and>
   (normalizeSMSAddress v = Inr n \<longrightarrow> dialable n \<and> n \<noteq> [] \<and> n \<noteq> ''+'' \<and> normalizeSMSAddress n = Inr n)"
proof -
  have eq: "normalizeSMSAddress u = Inr n \<longleftrightarrow> normalizeDialString (trim_space u) = Inr n" for u
    by (auto simp: normalizeSMSAddress_def normalizeDialString_def compactDialString_def smsAddressLoop_compact Let_def
        split: option.splits if_splits)
  have "dialable n \<and> n \<noteq> [] \<and> n \<noteq> ''+'' \<and> normalizeDialString n = Inr n" if "normalizeDialString u = Inr n" for u
    using that compact_dialable [of u n] compact_idem [of n]
    by (auto simp: normalizeDialString_def split: option.splits if_splits)
  moreover have "trim_space n = n" if "dialable n"
  proof -
    have "list_all graphic n"
      using that is_digit_graphic by (cases n) (auto simp: dialable_def list_all_iff graphic_def)
    then show ?thesis by (rule trim_space_graphic)
  qed
  ultimately show ?thesis using eq by metis
qed

theorem recipients_are_dialled_numbers_witness:
  "dialable ''+49301'' \<and> normalizeSMSAddress '' +49 (30)-1'' = Inr ''+49301'' \<and> normalizeDialString (trim_space '' +49 (30)-1'') = Inr ''+49301''"
proof -
  have n: "normalizeSMSAddress '' +49 (30)-1'' = Inr ''+49301''" by code_simp
  then have "normalizeDialString (trim_space '' +49 (30)-1'') = Inr ''+49301''" by code_simp
  with recipients_are_dialled_numbers [of "'' +49 (30)-1''" "''+49301''"] n show ?thesis by blast
qed

text \<open>
  A message that the modem has sent but cannot read back counts as failed; everything else that leaves is stored or
  reported.
\<close>

definition readsBack :: "modemDevice \<Rightarrow> bool" where
  "readsBack dev \<longleftrightarrow> (\<forall>path e. devCreateSMS dev = Inr path \<longrightarrow> devRetrieve dev path \<noteq> Inl e)"

lemma storeSentMessage_log: "smsLog (snd (storeSentMessage env a route msg s)) = smsLog s"
  by (auto simp: storeSentMessage_def split: option.split prod.split sum.split)

lemma stored_log: "snd (stored r x) = snd r" "fst (stored r x) = Inr y \<Longrightarrow> y = x"
  by (auto simp: stored_def split: prod.splits option.splits)

lemma routeSend_log:
  "routeSend route to body s = (res, s') \<Longrightarrow> smsLog s' = smsLog s @ (case res of Inl _ \<Rightarrow> [] | Inr _ \<Rightarrow> [SentByRoute to body])"
  by (auto simp: routeSend_def split: prod.splits sum.splits)

lemma deviceSend_log:
  "readsBack dev \<Longrightarrow> deviceSendSMS dev to body s = (res, s') \<Longrightarrow>
     smsLog s' = smsLog s @ (case res of Inl _ \<Rightarrow> [] | Inr _ \<Rightarrow> [SentByModem to body])"
  by (auto simp: deviceSendSMS_def readsBack_def split: prod.splits sum.splits option.splits)


definition sentOnce :: "string \<Rightarrow> string \<Rightarrow> 'e + string \<Rightarrow> smsSent list \<Rightarrow> bool" where
  "sentOnce n body res sent \<longleftrightarrow> length sent \<le> 1 \<and> set sent \<subseteq> {SentByModem n body, SentByRoute n body} \<and>
     (\<forall>r. res = Inr r \<longrightarrow> r = n \<and> length sent = 1)"

lemma sendOverRoute_once:
  assumes "sendOverRoute env a route n body s = (res, s')"
  shows "\<exists>sent. smsLog s' = smsLog s @ sent \<and> sentOnce n body res sent \<and> SentByModem n body \<notin> set sent"
proof -
  obtain res1 s1 where 1: "routeSend route n body s = (res1, s1)" by fastforce
  note log = routeSend_log [OF 1]
  show ?thesis
  proof (cases res1)
    case (Inr msg)
    with assms 1 have r: "stored (storeSentMessage env a (Some route) msg s1) n = (res, s')" by (simp add: sendOverRoute_def)
    have "smsLog s' = smsLog s @ [SentByRoute n body]"
      using stored_log(1) [of "storeSentMessage env a (Some route) msg s1" n] storeSentMessage_log [of env a "Some route" msg s1]
        log Inr by (simp add: r)
    moreover have "res = Inr x \<longrightarrow> x = n" for x using stored_log(2) [of _ n x] by (metis r fst_conv)
    ultimately show ?thesis by (auto simp: sentOnce_def)
  qed (use assms 1 log in \<open>auto simp: sendOverRoute_def sentOnce_def\<close>)
qed

lemma sendOverModem_once:
  assumes "sendOverModem env a route fallback dev profileID n body s = (res, s')" and "readsBack dev"
  shows "\<exists>sent. smsLog s' = smsLog s @ sent \<and> sentOnce n body res sent"
proof -
  obtain res1 s1 where 1: "deviceSendSMS dev n body s = (res1, s1)" by fastforce
  note log = deviceSend_log [OF assms(2) 1]
  have finish: ?thesis if "stored (storeSentMessage env a route msg s2) n = (res, s')" "smsLog s2 = smsLog s @ [x]"
    "x \<in> {SentByModem n body, SentByRoute n body}" for msg s2 x
  proof -
    have "smsLog s' = smsLog s @ [x]"
      using stored_log(1) [of "storeSentMessage env a route msg s2" n] storeSentMessage_log [of env a route msg s2] that by simp
    moreover have "res = Inr y \<longrightarrow> y = n" for y using stored_log(2) [of _ n y] by (metis that(1) fst_conv)
    ultimately show ?thesis using that(3) by (auto simp: sentOnce_def)
  qed
  show ?thesis
  proof (cases res1)
    case (Inl e)
    show ?thesis
    proof (cases "fallback \<and> route \<noteq> None")
      case True
      then obtain r where r: "route = Some r" by auto
      obtain res2 s2 where 2: "routeSend r n body s1 = (res2, s2)" by fastforce
      note log2 = routeSend_log [OF 2]
      show ?thesis
      proof (cases res2)
        case (Inr msg)
        with assms(1) 1 2 Inl True r log log2 show ?thesis by (intro finish [of msg s2 "SentByRoute n body"]) (simp_all add: sendOverModem_def)
      qed (use assms(1) 1 2 Inl True r log log2 in \<open>auto simp: sendOverModem_def sentOnce_def\<close>)
    qed (use assms(1) 1 Inl log in \<open>auto simp: sendOverModem_def sentOnce_def split: bool.splits option.splits\<close>)
  next
    case (Inr sms)
    with assms(1) 1 log show ?thesis by (intro finish) (auto simp: sendOverModem_def)
  qed
qed

text \<open>
  C24: Sending sends at most one message: it leaves by the modem or by Wi-Fi Calling, under the normalised number and with the
  text given, exactly once when the messenger reports success, and not by the modem while the preferred route is connected.
  This needs the modem to read back what it has sent.
\<close>
theorem send_at_most_once:
  assumes "messengerSend env a route dev to body s = (res, s')" and "readsBack dev" and "normalizeSMSAddress to = Inr n"
  shows "\<exists>sent. smsLog s' = smsLog s @ sent \<and> sentOnce n body res sent \<and>
    ((\<exists>r. route = Some r \<and> routeStatusAnswer r = (\<lparr>Preferred = True, RouteConnected = True\<rparr>, None)) \<longrightarrow> SentByModem n body \<notin> set sent)"
proof -
  consider (refused) e where "res = Inl e" "s' = s"
    | (route) r where "route = Some r" "sendOverRoute env a r n body s = (res, s')"
    | (modem) status profileID where "routeStatus route = Inr status" "\<not> (Preferred status \<and> RouteConnected status \<and> route \<noteq> None)"
        "sendOverModem env a route (RouteConnected status) dev profileID n body s = (res, s')"
    using assms(1,3) by (auto simp: messengerSend_def split: if_splits sum.splits bool.splits option.splits)
  then show ?thesis
  proof cases
    case refused
    then show ?thesis by (auto simp: sentOnce_def)
  next
    case route
    from sendOverRoute_once [OF this(2)] show ?thesis by blast
  next
    case modem
    from sendOverModem_once [OF modem(3) assms(2)] modem(1,2) show ?thesis by (fastforce simp: routeStatus_def)
  qed
qed

text \<open>
  A message that the modem has sent but cannot read back is sent again over Wi-Fi Calling when that is connected: the
  recipient gets it twice, and only the second copy is stored.
\<close>
theorem unread_message_is_sent_twice:
  assumes "devCreateSMS dev = Inr path" and "devSend dev = None" and "devRetrieve dev path = Inl e"
    and "devProfileID dev = Inr profileID" and "normalizeSMSAddress to = Inr n" and "trim_space body \<noteq> []"
    and "routeStatusAnswer r = (\<lparr>Preferred = False, RouteConnected = True\<rparr>, None)"
    and "routeSendSMS r n body (mgState s) = (Inr msg, st)"
  shows "smsLog (snd (messengerSend env a (Some r) dev to body s)) = smsLog s @ [SentByModem n body, SentByRoute n body]"
proof -
  have "trim_space to \<noteq> []" using assms(5) by (auto simp: normalizeSMSAddress_def Let_def)
  let ?s1 = "s\<lparr>smsLog := smsLog s @ [SentByModem n body]\<rparr>"
  have 1: "deviceSendSMS dev n body s = (Inl e, ?s1)" using assms(1-3) by (simp add: deviceSendSMS_def)
  have 2: "routeSend r n body ?s1 = (Inr msg, ?s1\<lparr>mgState := st, smsLog := smsLog ?s1 @ [SentByRoute n body]\<rparr>)"
    using assms(8) by (simp add: routeSend_def)
  show ?thesis
    using \<open>trim_space to \<noteq> []\<close> assms(4-7)
    by (simp add: messengerSend_def routeStatus_def sendOverModem_def 1 2 stored_log storeSentMessage_log)
qed


text \<open>A modem that sends and reads back, and a route that is connected but not preferred.\<close>

definition exampleSMSObject :: modemSMS where
  "exampleSMSObject = \<lparr>smsPath = ''/SMS/3'', smsObjectState = 5, smsNumber = ''+491'', smsObjectText = ''hi'', smsTimestamp = zero_time\<rparr>"

definition exampleDevice :: modemDevice where
  "exampleDevice = \<lparr>devProfileID = Inr ''profile'', devModemID = ''imei'', devPhoneNumber = ''+492'',
     devCreateSMS = Inr ''/SMS/3'', devSend = None, devRetrieve = (\<lambda>p. Inr (exampleSMSObject\<lparr>smsPath := p\<rparr>)),
     devPaths = Inr [], devDelete = (\<lambda>p. None)\<rparr>"

definition exampleRoute :: messageRoute where
  "exampleRoute = \<lparr>routeStatusAnswer = (\<lparr>Preferred = False, RouteConnected = True\<rparr>, None),
     routeSendSMS = (\<lambda>to body st. (Inr ((exampleMessage ''key'' to second False)\<lparr>msgText := body\<rparr>), st))\<rparr>"

definition exampleAnswers :: storeAnswers where
  "exampleAnswers = \<lparr>insertFault = None, statusFault = None, insertTime = 1, statusTime = 1, meanwhile = id\<rparr>"

definition exampleMessenger :: messengerState where
  "exampleMessenger = \<lparr>mgState = \<lparr>smsSubmissions = [], smsMessages = \<lparr>msgRows = [], lastMsgID = 0\<rparr>\<rparr>, smsLog = [], deletedLog = []\<rparr>"

lemma example_recipient: "normalizeSMSAddress ''+49 1'' = Inr ''+491''"
  by code_simp

theorem send_at_most_once_witness:
  "length (smsLog (snd (messengerSend exampleMessages exampleAnswers (Some exampleRoute) exampleDevice ''+49 1'' ''hi'' exampleMessenger))) \<le> 1"
proof -
  obtain res s' where run: "messengerSend exampleMessages exampleAnswers (Some exampleRoute) exampleDevice ''+49 1'' ''hi'' exampleMessenger = (res, s')"
    by fastforce
  have "readsBack exampleDevice" by (simp add: readsBack_def exampleDevice_def)
  from send_at_most_once [OF run this example_recipient] run show ?thesis
    by (auto simp: sentOnce_def exampleMessenger_def)
qed

definition exampleFailure :: busError where
  "exampleFailure = \<lparr>errText = ''timeout'', errName = None\<rparr>"

theorem unread_message_is_sent_twice_witness:
  "smsLog (snd (messengerSend exampleMessages exampleAnswers (Some exampleRoute) (exampleDevice\<lparr>devRetrieve := \<lambda>p. Inl exampleFailure\<rparr>) ''+49 1'' ''hi'' exampleMessenger)) =
     [SentByModem ''+491'' ''hi'', SentByRoute ''+491'' ''hi'']"
proof -
  have "trim_space ''hi'' \<noteq> []" by code_simp
  from unread_message_is_sent_twice [OF _ _ _ _ example_recipient this, of "exampleDevice\<lparr>devRetrieve := \<lambda>p. Inl exampleFailure\<rparr>" "''/SMS/3''"
      exampleFailure "''profile''" exampleRoute exampleMessenger "(exampleMessage ''key'' ''+491'' second False)\<lparr>msgText := ''hi''\<rparr>" "mgState exampleMessenger" exampleMessages exampleAnswers]
  show ?thesis by (simp add: exampleDevice_def exampleRoute_def exampleMessenger_def)
qed

end
