(* ===== verification/Presence.thy ===== *)
theory Presence
  imports Registry
begin

text \<open>
  Tasks that run once for each modem that is present (\<open>internal/pkg/modem/presence_runner.go\<close>), driven by the events of
  the registry.

  A context with its cancel function is a number; the state records which contexts were started, with which
  modem, and which were cancelled. The maps of the code are the lists of their entries.
\<close>

section \<open>Tasks\<close>

record presence =
  prCancels :: "(string \<times> nat) list"
  prEquipment :: "(string \<times> string) list"
  prModems :: "(string \<times> string) list"
  prStopped :: bool
  prNext :: nat
  prStarted :: "(nat \<times> busModem) list"
  prCancelled :: "nat list"

definition noPresence :: presence where
  "noPresence = \<lparr>prCancels = [], prEquipment = [], prModems = [], prStopped = False, prNext = 0, prStarted = [], prCancelled = []\<rparr>"

text \<open>The cancel function of a path, if there is one.\<close>

definition cancelOf :: "string \<Rightarrow> presence \<Rightarrow> nat list" where
  "cancelOf path p = (case map_of (prCancels p) path of None \<Rightarrow> [] | Some c \<Rightarrow> [c])"

text \<open>\<open>if equipmentID, ok := modems[path]; ok { delete(modems, path); delete(equipment, equipmentID) }\<close>\<close>

definition forgetModem :: "string \<Rightarrow> presence \<Rightarrow> presence" where
  "forgetModem path p =
     (case map_of (prModems p) path of
        None \<Rightarrow> p
      | Some e \<Rightarrow> p\<lparr>prModems := AList.delete path (prModems p), prEquipment := AList.delete e (prEquipment p)\<rparr>)"

definition dropPath :: "string \<Rightarrow> presence \<Rightarrow> nat list \<times> presence" where
  "dropPath path p =
     (case map_of (prCancels p) path of
        None \<Rightarrow> ([], p)
      | Some c \<Rightarrow> ([c], forgetModem path (p\<lparr>prCancels := AList.delete path (prCancels p)\<rparr>)))"

definition dropEquipment :: "string \<Rightarrow> string \<Rightarrow> presence \<Rightarrow> nat list \<times> presence" where
  "dropEquipment e path p =
     (if e = [] then ([], p)
      else case map_of (prEquipment p) e of
        None \<Rightarrow> ([], p)
      | Some existingPath \<Rightarrow>
          if existingPath = path then ([], p)
          else (cancelOf existingPath p,
                p\<lparr>prCancels := AList.delete existingPath (prCancels p), prModems := AList.delete existingPath (prModems p),
                  prEquipment := AList.delete e (prEquipment p)\<rparr>))"

definition addModem :: "bool \<Rightarrow> string \<Rightarrow> busModem option \<Rightarrow> presence \<Rightarrow> presence" where
  "addModem ended path modem p =
     (case modem of
        None \<Rightarrow> p
      | Some m \<Rightarrow>
          if ended then p
          else
            let c = prNext p; p = p\<lparr>prNext := Suc c\<rparr> in
            if prStopped p then p\<lparr>prCancelled := prCancelled p @ [c]\<rparr>
            else
              let (old, p) = dropPath path p;
                  e = EquipmentIdentifier m;
                  (old', p) = dropEquipment e path p;
                  p = p\<lparr>prCancels := AList.update path c (prCancels p)\<rparr>;
                  p = (if e \<noteq> [] then p\<lparr>prEquipment := AList.update e path (prEquipment p),
                                         prModems := AList.update path e (prModems p)\<rparr> else p)
              in p\<lparr>prCancelled := prCancelled p @ old @ old', prStarted := prStarted p @ [(c, m)]\<rparr>)"

definition removeModem :: "string \<Rightarrow> presence \<Rightarrow> presence" where
  "removeModem path p =
     (let cancel = cancelOf path p;
          p = forgetModem path (p\<lparr>prCancels := AList.delete path (prCancels p)\<rparr>)
      in p\<lparr>prCancelled := prCancelled p @ cancel\<rparr>)"

definition presenceStopAll :: "presence \<Rightarrow> presence" where
  "presenceStopAll p = p\<lparr>prStopped := True, prCancels := [], prEquipment := [], prModems := [],
                 prCancelled := prCancelled p @ map snd (prCancels p)\<rparr>"

text \<open>The callback of the subscription.\<close>

definition presenceEvent :: "bool \<Rightarrow> ModemEvent \<Rightarrow> presence \<Rightarrow> presence" where
  "presenceEvent ended event p =
     (case evType event of
        ModemEventAdded \<Rightarrow> addModem ended (evPath event) (evModem event) p
      | ModemEventRemoved \<Rightarrow> removeModem (evPath event) p)"

text \<open>\<open>for path, m := range modemMap { addModem(path, m) }\<close>\<close>

definition addListed :: "bool \<Rightarrow> modemMap \<Rightarrow> presence \<Rightarrow> presence" where
  "addListed ended modems p = fold (\<lambda>(path, m). addModem ended path (Some m)) modems p"

text \<open>
  A signal that the registry handles, with the readers it uses; the tasks hear of the event, if there is one.
\<close>

definition presenceSignal :: "modemReaders \<times> dbusSignal option \<Rightarrow> registry \<times> presence \<Rightarrow> registry \<times> presence" where
  "presenceSignal sig st =
     (case handleSignal (fst sig) (snd sig) (fst st) of
        (None, r) \<Rightarrow> (r, snd st)
      | (Some (event, _), r) \<Rightarrow> (r, presenceEvent False event (snd st)))"

text \<open>
  \<open>Modems\<close> with the signals that the registry handles while it is asked and the cards are read: the registry then holds the
  list, whatever the signals did to it, while the tasks follow the signals.
\<close>

definition presenceList ::
  "modemReaders \<Rightarrow> (string + (string \<times> (string \<times> dbusMap) list) list) \<Rightarrow> (modemReaders \<times> dbusSignal option) list \<Rightarrow>
   registry \<times> presence \<Rightarrow> (string + modemMap) \<times> registry \<times> presence" where
  "presenceList rd managed listing st =
     (case managed of
        Inl e \<Rightarrow> (Inl e, fold presenceSignal listing st)
      | Inr objs \<Rightarrow>
          let (n, modems) = fold (loadModem rd) objs (nextModem (fst st), []);
              (r, p) = fold presenceSignal listing ((fst st)\<lparr>nextModem := n\<rparr>, snd st)
          in (Inr modems, r\<lparr>regModems := modems\<rparr>, p))"

text \<open>
  The loop that adds the listed modems, with the signals that the registry handles before each of them and after the last.
\<close>

fun addListedDuring :: "(modemReaders \<times> dbusSignal option) list list \<Rightarrow> modemMap \<Rightarrow> registry \<times> presence \<Rightarrow> registry \<times> presence" where
  "addListedDuring [] modems st = (fst st, addListed False modems (snd st))"
| "addListedDuring (sigs # during) [] st = addListedDuring during [] (fold presenceSignal sigs st)"
| "addListedDuring (sigs # during) ((path, m) # modems) st =
     (case fold presenceSignal sigs st of (r, p) \<Rightarrow> addListedDuring during modems (r, addModem False path (Some m) p))"

text \<open>
  \<open>Run\<close> up to the wait for its context: the signals before the listing, while the modems are listed, and from then on to the
  end of the loop that adds them are arguments. When it fails, what was started is stopped.
\<close>

definition runPresence ::
  "string option \<Rightarrow> modemReaders \<Rightarrow> (string + (string \<times> (string \<times> dbusMap) list) list) \<Rightarrow>
   (modemReaders \<times> dbusSignal option) list \<Rightarrow> (modemReaders \<times> dbusSignal option) list \<Rightarrow> (modemReaders \<times> dbusSignal option) list list \<Rightarrow>
   registry \<Rightarrow> string option \<times> registry \<times> presence" where
  "runPresence started rd managed before listing during r =
     (case subscribe started (Some 0) r of
        (Inl e, r) \<Rightarrow> (Some (''subscribe modem registry: '' @ e), r, presenceStopAll noPresence)
      | (Inr i, r) \<Rightarrow>
          (case presenceList rd managed listing (fold presenceSignal before (r, noPresence)) of
             (Inl e, r, p) \<Rightarrow> (Some (''list modems: '' @ e), unsubscribe i r, presenceStopAll p)
           | (Inr modems, r, p) \<Rightarrow>
               (None, addListedDuring during modems (r, p))))"

lemma presenceSignals_registry: "fst (fold presenceSignal sigs st) = fold (\<lambda>(rd, sig) r. snd (handleSignal rd sig r)) sigs (fst st)"
  by (induction sigs arbitrary: st) (auto simp: presenceSignal_def split: prod.split option.split)

text \<open>The registry sees the same listing as without the tasks.\<close>

lemma presenceList_registry:
  "(case presenceList rd managed listing st of (res, r, p) \<Rightarrow> (res, r)) = listModemsDuring rd managed listing (fst st)"
proof (cases managed)
  case (Inl e)
  then show ?thesis
    using presenceSignals_registry [of listing st] by (simp add: presenceList_def listModemsDuring_def Let_def split_beta)
next
  case (Inr objs)
  then show ?thesis
    using presenceSignals_registry [of listing] by (simp add: presenceList_def listModemsDuring_def Let_def split_beta)
qed

text \<open>The tasks that run: started with a context that is not cancelled.\<close>

definition running :: "presence \<Rightarrow> (nat \<times> busModem) list" where
  "running p = filter (\<lambda>(c, m). c \<notin> set (prCancelled p)) (prStarted p)"

section \<open>The maps as functions\<close>

definition uniqueEquipment :: "modemMap \<Rightarrow> bool" where
  "uniqueEquipment modems \<longleftrightarrow> distinct (filter (\<lambda>e. e \<noteq> []) (map (EquipmentIdentifier \<circ> snd) modems))"

text \<open>
  The tasks match the modems: each path of the registry has one context, started with that modem and not
  cancelled, every other started context is cancelled, and the two maps of identifiers are those of the registry.
\<close>

definition keyedByPath :: "(string \<rightharpoonup> busModem) \<Rightarrow> bool" where
  "keyedByPath M \<longleftrightarrow> (\<forall>q m. M q = Some m \<longrightarrow> objectPath m = q)"

definition oneEach :: "(string \<rightharpoonup> busModem) \<Rightarrow> bool" where
  "oneEach M \<longleftrightarrow> (\<forall>q q' m m'. M q = Some m \<longrightarrow> M q' = Some m' \<longrightarrow> EquipmentIdentifier m \<noteq> [] \<longrightarrow>
     EquipmentIdentifier m = EquipmentIdentifier m' \<longrightarrow> q = q')"

definition identifierAt :: "(string \<rightharpoonup> busModem) \<Rightarrow> string \<Rightarrow> string \<Rightarrow> bool" where
  "identifierAt M q e \<longleftrightarrow> (\<exists>m. M q = Some m \<and> EquipmentIdentifier m = e \<and> e \<noteq> [])"

definition contextsMatch :: "(string \<rightharpoonup> busModem) \<Rightarrow> presence \<Rightarrow> bool" where
  "contextsMatch M p \<longleftrightarrow> (\<forall>q. case map_of (prCancels p) q of None \<Rightarrow> M q = None
     | Some c \<Rightarrow> \<exists>m. M q = Some m \<and> (c, m) \<in> set (prStarted p))"

definition startedMatch :: "presence \<Rightarrow> bool" where
  "startedMatch p \<longleftrightarrow> distinct (map fst (prStarted p)) \<and> (\<forall>c\<in>set (prCancelled p). c < prNext p) \<and>
     (\<forall>(c, m)\<in>set (prStarted p). c < prNext p \<and>
        (c \<notin> set (prCancelled p) \<longleftrightarrow> map_of (prCancels p) (objectPath m) = Some c))"

definition modemsMatch :: "(string \<rightharpoonup> busModem) \<Rightarrow> presence \<Rightarrow> bool" where
  "modemsMatch M p \<longleftrightarrow> (\<forall>q e. map_of (prModems p) q = Some e \<longleftrightarrow> identifierAt M q e)"

definition equipmentMatch :: "(string \<rightharpoonup> busModem) \<Rightarrow> presence \<Rightarrow> bool" where
  "equipmentMatch M p \<longleftrightarrow> (\<forall>q e. map_of (prEquipment p) e = Some q \<longleftrightarrow> identifierAt M q e)"

definition present :: "(string \<rightharpoonup> busModem) \<Rightarrow> presence \<Rightarrow> bool" where
  "present M p \<longleftrightarrow> keyedByPath M \<and> oneEach M \<and> contextsMatch M p \<and> startedMatch p \<and> modemsMatch M p \<and>
     equipmentMatch M p \<and> \<not> prStopped p"

lemma present_none: "present Map.empty noPresence"
  by (simp add: present_def noPresence_def keyedByPath_def oneEach_def contextsMatch_def startedMatch_def modemsMatch_def
      equipmentMatch_def identifierAt_def)

lemma present_equipment:
  assumes "present M p"
  shows "map_of (prModems p) q = Some e \<longleftrightarrow> map_of (prEquipment p) e = Some q"
    and "map_of (prCancels p) q = None \<Longrightarrow> map_of (prModems p) q = None"
    and "map_of (prEquipment p) [] = None" and "\<not> prStopped p"
proof -
  have D: "\<And>q e. map_of (prModems p) q = Some e \<longleftrightarrow> identifierAt M q e"
    and E: "\<And>q e. map_of (prEquipment p) e = Some q \<longleftrightarrow> identifierAt M q e"
    using assms by (simp_all add: present_def modemsMatch_def equipmentMatch_def)
  show "map_of (prModems p) q = Some e \<longleftrightarrow> map_of (prEquipment p) e = Some q" by (simp only: D E)
  show "map_of (prModems p) q = None" if "map_of (prCancels p) q = None"
  proof -
    have "M q = None" using assms that by (auto simp: present_def contextsMatch_def dest: spec [of _ q])
    then show ?thesis using D [of q] by (cases "map_of (prModems p) q") (auto simp: identifierAt_def)
  qed
  show "map_of (prEquipment p) [] = None"
    using E by (cases "map_of (prEquipment p) []") (auto simp: identifierAt_def)
  show "\<not> prStopped p" using assms by (simp add: present_def)
qed

lemma forgetModem_maps:
  assumes "\<And>e. map_of (prModems p) path = Some e \<longleftrightarrow> map_of (prEquipment p) e = Some path"
  shows "map_of (prModems (forgetModem path p)) = (map_of (prModems p))(path := None)"
    and "map_of (prEquipment (forgetModem path p)) = (\<lambda>e. if map_of (prEquipment p) e = Some path then None else map_of (prEquipment p) e)"
    and "prCancels (forgetModem path p) = prCancels p" and "prStarted (forgetModem path p) = prStarted p"
    and "prCancelled (forgetModem path p) = prCancelled p" and "prNext (forgetModem path p) = prNext p"
    and "prStopped (forgetModem path p) = prStopped p"
proof -
  have none: "map_of (prEquipment p) e \<noteq> Some path" if "map_of (prModems p) path = None" for e
    using assms [of e] that by simp
  have one: "map_of (prEquipment p) e' = Some path \<longleftrightarrow> e' = e" if "map_of (prModems p) path = Some e" for e e'
    using assms [of e'] that by auto
  show "map_of (prModems (forgetModem path p)) = (map_of (prModems p))(path := None)"
    by (auto simp: forgetModem_def delete_conv' fun_eq_iff split: option.split)
  show "map_of (prEquipment (forgetModem path p)) = (\<lambda>e. if map_of (prEquipment p) e = Some path then None else map_of (prEquipment p) e)"
    using none one by (auto simp: forgetModem_def delete_conv' fun_eq_iff split: option.split)
qed (simp_all add: forgetModem_def split: option.split)

lemma dropPath_maps:
  assumes "present M p" and "dropPath path p = (old, p1)"
  shows "old = cancelOf path p" and "map_of (prCancels p1) = (map_of (prCancels p))(path := None)"
    and "map_of (prModems p1) = (map_of (prModems p))(path := None)"
    and "map_of (prEquipment p1) = (\<lambda>e. if map_of (prEquipment p) e = Some path then None else map_of (prEquipment p) e)"
    and "prStarted p1 = prStarted p" and "prCancelled p1 = prCancelled p" and "prNext p1 = prNext p" and "prStopped p1 = prStopped p"
proof -
  note eq = present_equipment [OF assms(1)]
  let ?q = "p\<lparr>prCancels := AList.delete path (prCancels p)\<rparr>"
  have f: "\<And>e. map_of (prModems ?q) path = Some e \<longleftrightarrow> map_of (prEquipment ?q) e = Some path" using eq(1) by simp
  note g = forgetModem_maps [OF f]
  show "old = cancelOf path p" using assms(2) by (auto simp: dropPath_def cancelOf_def split: option.splits)
  have cases: "p1 = p \<and> map_of (prCancels p) path = None \<or> p1 = forgetModem path ?q"
    using assms(2) by (auto simp: dropPath_def split: option.splits)
  have none: "map_of (prModems p) path = None" "map_of (prEquipment p) e \<noteq> Some path" if "map_of (prCancels p) path = None" for e
    using eq(1) [of path e] eq(2) [OF that] by auto
  show "map_of (prCancels p1) = (map_of (prCancels p))(path := None)"
    using cases by (auto simp: g delete_conv' fun_eq_iff)
  show "map_of (prModems p1) = (map_of (prModems p))(path := None)"
    using cases none by (auto simp: g fun_eq_iff)
  show "map_of (prEquipment p1) = (\<lambda>e. if map_of (prEquipment p) e = Some path then None else map_of (prEquipment p) e)"
    using cases none by (auto simp: g fun_eq_iff)
  show "prStarted p1 = prStarted p" "prCancelled p1 = prCancelled p" "prNext p1 = prNext p" "prStopped p1 = prStopped p"
    using cases by (auto simp: g)
qed

lemma dropEquipment_maps:
  assumes "dropEquipment e path p = (old, p1)" and "map_of (prEquipment p) e \<noteq> Some path"
  shows "set old = (if e = [] then {} else {c. \<exists>q. map_of (prEquipment p) e = Some q \<and> map_of (prCancels p) q = Some c})"
    and "map_of (prCancels p1) = (\<lambda>q. if e \<noteq> [] \<and> map_of (prEquipment p) e = Some q then None else map_of (prCancels p) q)"
    and "map_of (prModems p1) = (\<lambda>q. if e \<noteq> [] \<and> map_of (prEquipment p) e = Some q then None else map_of (prModems p) q)"
    and "map_of (prEquipment p1) = (if e = [] then map_of (prEquipment p) else (map_of (prEquipment p))(e := None))"
    and "prStarted p1 = prStarted p" and "prCancelled p1 = prCancelled p" and "prNext p1 = prNext p" and "prStopped p1 = prStopped p"
  using assms
  by (auto simp: dropEquipment_def cancelOf_def delete_conv' fun_eq_iff split: option.splits if_splits)

lemma present_next: "present M p \<Longrightarrow> present M (p\<lparr>prNext := Suc (prNext p)\<rparr>)"
proof -
  assume p: "present M p"
  let ?p = "p\<lparr>prNext := Suc (prNext p)\<rparr>"
  have "contextsMatch M ?p = contextsMatch M p" by (simp add: contextsMatch_def cong: option.case_cong)
  moreover have "startedMatch p \<Longrightarrow> startedMatch ?p" by (auto simp: startedMatch_def)
  ultimately show "present M ?p" using p by (simp add: present_def modemsMatch_def equipmentMatch_def)
qed

lemma addModem_maps:
  assumes "present M p" and "e = EquipmentIdentifier m" and "p' = addModem False path (Some m) p"
  shows "map_of (prCancels p') = (\<lambda>q. if q = path then Some (prNext p)
      else if e \<noteq> [] \<and> map_of (prEquipment p) e = Some q then None else map_of (prCancels p) q)"
    and "map_of (prModems p') = (\<lambda>q. if q = path then (if e = [] then None else Some e)
      else if e \<noteq> [] \<and> map_of (prEquipment p) e = Some q then None else map_of (prModems p) q)"
    and "map_of (prEquipment p') = (\<lambda>e'. if e' = e \<and> e \<noteq> [] then Some path
      else if map_of (prEquipment p) e' = Some path then None else map_of (prEquipment p) e')"
    and "set (prCancelled p') = set (prCancelled p) \<union>
      {c. map_of (prCancels p) path = Some c \<or> e \<noteq> [] \<and> (\<exists>q. map_of (prEquipment p) e = Some q \<and> map_of (prCancels p) q = Some c)}"
    and "prStarted p' = prStarted p @ [(prNext p, m)]" and "prNext p' = Suc (prNext p)" and "\<not> prStopped p'"
proof -
  note eq = present_equipment [OF assms(1)]
  let ?p = "p\<lparr>prNext := Suc (prNext p)\<rparr>"
  have "present M ?p" by (rule present_next [OF assms(1)])
  obtain old p1 where 1: "dropPath path ?p = (old, p1)" by fastforce
  note d1 = dropPath_maps [OF \<open>present M ?p\<close> 1]
  obtain old' p2 where 2: "dropEquipment e path p1 = (old', p2)" by fastforce
  have "map_of (prEquipment p1) e \<noteq> Some path" by (simp add: d1)
  note d2 = dropEquipment_maps [OF 2 this]
  have p': "p' = (if e \<noteq> [] then p2\<lparr>prCancels := AList.update path (prNext p) (prCancels p2),
        prEquipment := AList.update e path (prEquipment p2), prModems := AList.update path e (prModems p2),
        prCancelled := prCancelled p2 @ old @ old', prStarted := prStarted p2 @ [(prNext p, m)]\<rparr>
      else p2\<lparr>prCancels := AList.update path (prNext p) (prCancels p2),
        prCancelled := prCancelled p2 @ old @ old', prStarted := prStarted p2 @ [(prNext p, m)]\<rparr>)"
    using eq(4) 1 2 unfolding assms(2,3) by (simp add: addModem_def Let_def)
  show "map_of (prCancels p') = (\<lambda>q. if q = path then Some (prNext p)
      else if e \<noteq> [] \<and> map_of (prEquipment p) e = Some q then None else map_of (prCancels p) q)"
    unfolding p' by (auto simp: update_conv' d1 d2 fun_eq_iff)
  show "map_of (prModems p') = (\<lambda>q. if q = path then (if e = [] then None else Some e)
      else if e \<noteq> [] \<and> map_of (prEquipment p) e = Some q then None else map_of (prModems p) q)"
    unfolding p' by (auto simp: update_conv' d1 d2 fun_eq_iff)
  show "map_of (prEquipment p') = (\<lambda>e'. if e' = e \<and> e \<noteq> [] then Some path
      else if map_of (prEquipment p) e' = Some path then None else map_of (prEquipment p) e')"
    unfolding p' by (auto simp: update_conv' d1 d2 fun_eq_iff)
  show "set (prCancelled p') = set (prCancelled p) \<union>
      {c. map_of (prCancels p) path = Some c \<or> e \<noteq> [] \<and> (\<exists>q. map_of (prEquipment p) e = Some q \<and> map_of (prCancels p) q = Some c)}"
    unfolding p' by (auto simp: d1 d2 cancelOf_def split: option.split if_split)
  show "prStarted p' = prStarted p @ [(prNext p, m)]" "prNext p' = Suc (prNext p)" "\<not> prStopped p'"
    unfolding p' using eq(4) by (simp_all add: d1 d2)
qed

text \<open>The registry after a modem is added, as a function.\<close>

definition addedModem :: "busModem \<Rightarrow> (string \<rightharpoonup> busModem) \<Rightarrow> (string \<rightharpoonup> busModem)" where
  "addedModem m M = (\<lambda>q. if q = objectPath m then Some m
     else if identifierAt M q (EquipmentIdentifier m) then None else M q)"

lemma identifierAt_added:
  "identifierAt (addedModem m M) q e \<longleftrightarrow>
     (if q = objectPath m then e = EquipmentIdentifier m \<and> e \<noteq> [] else identifierAt M q e \<and> e \<noteq> EquipmentIdentifier m)"
  by (auto simp: addedModem_def identifierAt_def)

lemma identifierAt_unique: "identifierAt M q e \<Longrightarrow> identifierAt M q e' \<Longrightarrow> e = e'"
  by (auto simp: identifierAt_def)

lemma oneEach_at: "oneEach M \<Longrightarrow> identifierAt M q e \<Longrightarrow> identifierAt M q' e \<Longrightarrow> q = q'"
  unfolding oneEach_def identifierAt_def by metis

lemma added_oneEach: "oneEach M \<Longrightarrow> oneEach (addedModem m M)"
proof -
  assume o: "oneEach M"
  have "q = q'" if "identifierAt (addedModem m M) q e" "identifierAt (addedModem m M) q' e" for q q' e
    using that oneEach_at [OF o] by (auto simp: identifierAt_added split: if_splits)
  then show "oneEach (addedModem m M)"
    unfolding oneEach_def [of "addedModem m M"] identifierAt_def by metis
qed

lemma addModem_present:
  assumes p: "present M p"
  shows "present (addedModem m M) (addModem False (objectPath m) (Some m) p)"
proof -
  let ?p' = "addModem False (objectPath m) (Some m) p" and ?M' = "addedModem m M" and ?e = "EquipmentIdentifier m"
  note a = addModem_maps [where m = m and path = "objectPath m", OF p refl refl]
  have D: "\<And>q e. map_of (prModems p) q = Some e \<longleftrightarrow> identifierAt M q e"
    and E: "\<And>q e. map_of (prEquipment p) e = Some q \<longleftrightarrow> identifierAt M q e"
    and C: "contextsMatch M p" and S: "startedMatch p" and keyed: "keyedByPath M" and one: "oneEach M"
    using p by (simp_all add: present_def modemsMatch_def equipmentMatch_def)
  have id_ne: "identifierAt M q e \<Longrightarrow> e \<noteq> []" for q e by (auto simp: identifierAt_def)
  have "keyedByPath ?M'"
    using keyed by (simp add: keyedByPath_def addedModem_def)
  moreover have "oneEach ?M'" by (rule added_oneEach [OF one])
  moreover have "modemsMatch ?M' ?p'"
    unfolding modemsMatch_def a(2) identifierAt_added using D id_ne identifierAt_unique by (auto simp: E)
  moreover have "equipmentMatch ?M' ?p'"
    unfolding equipmentMatch_def a(3) identifierAt_added using id_ne oneEach_at [OF one] by (auto simp: E)
  moreover have "contextsMatch ?M' ?p'"
    unfolding contextsMatch_def
  proof
    fix q
    have "case map_of (prCancels p) q of None \<Rightarrow> M q = None | Some c \<Rightarrow> \<exists>m. M q = Some m \<and> (c, m) \<in> set (prStarted p)"
      using C by (simp add: contextsMatch_def)
    then show "case map_of (prCancels ?p') q of None \<Rightarrow> ?M' q = None | Some c \<Rightarrow> \<exists>m. ?M' q = Some m \<and> (c, m) \<in> set (prStarted ?p')"
      using id_ne [of q ?e] unfolding a(1,5) addedModem_def E by (auto split: option.splits)
  qed
  moreover have "startedMatch ?p'"
  proof -
    have fresh: "prNext p \<notin> fst ` set (prStarted p)" "prNext p \<notin> set (prCancelled p)"
      using S by (auto simp: startedMatch_def)
    have ctx: "\<exists>m'. (c, m') \<in> set (prStarted p) \<and> objectPath m' = q" if "map_of (prCancels p) q = Some c" for q c
      using C keyed that by (auto simp: contextsMatch_def keyedByPath_def dest!: spec [of _ q]) blast
    have same: "m1 = m2" if "(c, m1) \<in> set (prStarted p)" "(c, m2) \<in> set (prStarted p)" for c m1 m2
      using S that unfolding startedMatch_def by (meson eq_key_imp_eq_value)
    have old: "c < Suc (prNext p) \<and> (c \<notin> set (prCancelled ?p') \<longleftrightarrow> map_of (prCancels ?p') (objectPath m') = Some c)"
      if cm: "(c, m') \<in> set (prStarted p)" for c m'
    proof -
      have less: "c < prNext p" and run: "c \<notin> set (prCancelled p) \<longleftrightarrow> map_of (prCancels p) (objectPath m') = Some c"
        using S cm by (auto simp: startedMatch_def)
      have at: "map_of (prCancels p) q = Some c \<Longrightarrow> q = objectPath m'" for q
        using ctx [of q c] same [OF cm] by blast
      show ?thesis
      proof (cases "map_of (prCancels p) (objectPath m') = Some c")
        case True
        have "c \<in> set (prCancelled ?p') \<longleftrightarrow> objectPath m = objectPath m' \<or> ?e \<noteq> [] \<and> identifierAt M (objectPath m') ?e"
        proof -
          have "map_of (prCancels p) q = Some c \<longleftrightarrow> q = objectPath m'" for q
            using True at [of q] by auto
          moreover have "c \<notin> set (prCancelled p)" using True run by simp
          ultimately show ?thesis unfolding a(4) E by simp
        qed
        then show ?thesis using True less unfolding a(1) E by simp
      next
        case False
        then have "c \<in> set (prCancelled ?p')" using run unfolding a(4) by simp
        then show ?thesis using False less unfolding a(1) by simp
      qed
    qed
    have new: "prNext p \<notin> set (prCancelled ?p')"
      using fresh ctx unfolding a(4) by force
    show ?thesis
      unfolding startedMatch_def a(5,6)
    proof (intro conjI)
      show "distinct (map fst (prStarted p @ [(prNext p, m)]))"
        using S fresh by (auto simp: startedMatch_def)
      show "\<forall>c\<in>set (prCancelled ?p'). c < Suc (prNext p)"
        using S ctx unfolding a(4) by (fastforce simp: startedMatch_def)
      show "\<forall>(c, m')\<in>set (prStarted p @ [(prNext p, m)]). c < Suc (prNext p) \<and>
          (c \<notin> set (prCancelled ?p') \<longleftrightarrow> map_of (prCancels ?p') (objectPath m') = Some c)"
      proof (intro ballI case_prodI2)
        fix x c m' assume "x \<in> set (prStarted p @ [(prNext p, m)])" "x = (c, m')"
        then consider "(c, m') \<in> set (prStarted p)" | "c = prNext p" "m' = m" by auto
        then show "c < Suc (prNext p) \<and> (c \<notin> set (prCancelled ?p') \<longleftrightarrow> map_of (prCancels ?p') (objectPath m') = Some c)"
          by cases (use old in blast, simp add: new a(1))
      qed
    qed
  qed
  ultimately show ?thesis by (simp add: present_def a(7))
qed

lemma removeModem_present:
  assumes p: "present M p"
  shows "present (M(path := None)) (removeModem path p)"
proof -
  let ?q = "p\<lparr>prCancels := AList.delete path (prCancels p)\<rparr>"
  have D: "\<And>q e. map_of (prModems p) q = Some e \<longleftrightarrow> identifierAt M q e"
    and E: "\<And>q e. map_of (prEquipment p) e = Some q \<longleftrightarrow> identifierAt M q e"
    and C: "\<And>q. case map_of (prCancels p) q of None \<Rightarrow> M q = None | Some c \<Rightarrow> \<exists>m. M q = Some m \<and> (c, m) \<in> set (prStarted p)"
    and S: "startedMatch p" and keyed: "keyedByPath M" and one: "oneEach M" and st: "\<not> prStopped p"
    using p by (simp_all add: present_def modemsMatch_def equipmentMatch_def contextsMatch_def)
  have f: "map_of (prModems ?q) path = Some e \<longleftrightarrow> map_of (prEquipment ?q) e = Some path" for e by (simp add: D E)
  note g = forgetModem_maps [OF f]
  let ?p' = "removeModem path p" and ?M' = "M(path := None)"
  have p': "map_of (prCancels ?p') = (map_of (prCancels p))(path := None)" "map_of (prModems ?p') = (map_of (prModems p))(path := None)"
    "map_of (prEquipment ?p') = (\<lambda>e. if map_of (prEquipment p) e = Some path then None else map_of (prEquipment p) e)"
    "prStarted ?p' = prStarted p" "prNext ?p' = prNext p" "prStopped ?p' = prStopped p"
    "set (prCancelled ?p') = set (prCancelled p) \<union> {c. map_of (prCancels p) path = Some c}"
    by (auto simp: removeModem_def Let_def g delete_conv' cancelOf_def split: option.splits)
  have at: "identifierAt ?M' q e \<longleftrightarrow> q \<noteq> path \<and> identifierAt M q e" for q e
    by (auto simp: identifierAt_def)
  have "keyedByPath ?M'" using keyed by (simp add: keyedByPath_def)
  moreover have "oneEach ?M'" using one unfolding oneEach_def by (metis fun_upd_apply option.distinct(1))
  moreover have "modemsMatch ?M' ?p'" unfolding modemsMatch_def p' at by (auto simp: D)
  moreover have "equipmentMatch ?M' ?p'" unfolding equipmentMatch_def p' at by (auto simp: E dest: oneEach_at [OF one])
  moreover have "contextsMatch ?M' ?p'"
    unfolding contextsMatch_def p'
  proof
    fix q
    show "case ((map_of (prCancels p))(path := None)) q of None \<Rightarrow> ?M' q = None | Some c \<Rightarrow> \<exists>m. ?M' q = Some m \<and> (c, m) \<in> set (prStarted p)"
      using C [of q] by (cases "q = path"; cases "map_of (prCancels p) q") auto
  qed
  moreover have "startedMatch ?p'"
  proof -
    have ctx: "\<exists>m'. (c, m') \<in> set (prStarted p) \<and> objectPath m' = q" if "map_of (prCancels p) q = Some c" for q c
      using C [of q] keyed that by (auto simp: keyedByPath_def)
    have same: "m1 = m2" if "(c, m1) \<in> set (prStarted p)" "(c, m2) \<in> set (prStarted p)" for c m1 m2
      using S that unfolding startedMatch_def by (meson eq_key_imp_eq_value)
    have "c < prNext p \<and> (c \<notin> set (prCancelled ?p') \<longleftrightarrow> map_of (prCancels ?p') (objectPath m') = Some c)"
      if cm: "(c, m') \<in> set (prStarted p)" for c m'
    proof -
      have less: "c < prNext p" and run: "c \<notin> set (prCancelled p) \<longleftrightarrow> map_of (prCancels p) (objectPath m') = Some c"
        using S cm by (auto simp: startedMatch_def)
      have "map_of (prCancels p) path = Some c \<Longrightarrow> path = objectPath m'"
        using ctx [of path c] same [OF cm] by blast
      with less run show ?thesis unfolding p' by auto
    qed
    moreover have "\<forall>c\<in>set (prCancelled ?p'). c < prNext p"
      using S ctx unfolding p'(7) by (fastforce simp: startedMatch_def)
    ultimately show ?thesis
      using S unfolding startedMatch_def p'(4,5) by auto
  qed
  ultimately show ?thesis using st by (simp add: present_def p'(6))
qed

section \<open>The registry and its events\<close>

lemma map_of_kept:
  assumes "distinct (map fst modems)"
  shows "map_of (filter (\<lambda>(p, m). keep m) modems) path = Option.bind (map_of modems path) (\<lambda>m. if keep m then Some m else None)"
  using assms
proof (induction modems)
  case (Cons entry modems)
  obtain p m where entry: "entry = (p, m)" by fastforce
  then have "map_of modems p = None" using Cons.prems by (simp add: map_of_eq_None_iff)
  with Cons show ?case by (auto simp: entry)
qed simp

lemma deleteAndUpdate_map:
  assumes "distinct (map fst modems)"
  shows "map_of (deleteAndUpdate m modems) = addedModem m (map_of modems)" and "distinct (map fst (deleteAndUpdate m modems))"
proof -
  show "map_of (deleteAndUpdate m modems) = addedModem m (map_of modems)"
    using map_of_kept [OF assms, of "\<lambda>existing. EquipmentIdentifier existing \<noteq> EquipmentIdentifier m"]
    by (auto simp: deleteAndUpdate_def addedModem_def identifierAt_def update_conv' fun_eq_iff Option.bind_eq_None_conv
        split: Option.bind_splits if_splits)
  show "distinct (map fst (deleteAndUpdate m modems))"
    using assms by (auto simp: deleteAndUpdate_def distinct_update distinct_map_filter)
qed

definition registryOk :: "registry \<Rightarrow> bool" where
  "registryOk r \<longleftrightarrow> distinct (map fst (regModems r))"

lemma presenceSignal_present:
  assumes "registryOk r" and "present (map_of (regModems r)) p" and "presenceSignal sig (r, p) = (r', p')"
  shows "registryOk r' \<and> present (map_of (regModems r')) p'"
proof (cases "fst (handleSignal (fst sig) (snd sig) r)")
  case None
  then have "regModems (snd (handleSignal (fst sig) (snd sig) r)) = regModems r"
    by (auto simp: handleSignal_def Let_def split: option.splits sum.splits signalName.splits)
  with None assms show ?thesis by (auto simp: presenceSignal_def registryOk_def split: prod.splits option.splits)
next
  case (Some ev)
  then obtain event subs r1 where h: "handleSignal (fst sig) (snd sig) r = (Some (event, subs), r1)"
    by (cases ev) (metis prod.collapse)
  have new: "r' = r1" "p' = presenceEvent False event p"
    using assms(3) h by (simp_all add: presenceSignal_def)
  from h consider (added) ptr data m where "createModem (fst sig) ptr (evPath event) data = Inr m"
      "evType event = ModemEventAdded" "evModem event = Some m" "regModems r1 = deleteAndUpdate m (regModems r)"
    | (removed) "evType event = ModemEventRemoved" "regModems r1 = AList.delete (evPath event) (regModems r)"
    by (auto simp: handleSignal_def Let_def split: option.splits sum.splits signalName.splits)
  then show ?thesis
  proof cases
    case added
    have "objectPath m = evPath event" using createModem_fields [OF added(1)] by simp
    with addModem_present [OF assms(2), of m] assms(1) deleteAndUpdate_map [of "regModems r" m] added(2-4) show ?thesis
      by (simp add: new presenceEvent_def registryOk_def)
  next
    case removed
    with removeModem_present [OF assms(2), of "evPath event"] assms(1) show ?thesis
      by (simp add: new presenceEvent_def registryOk_def delete_conv' distinct_delete)
  qed
qed

lemma presenceSignals_present:
  "registryOk r \<Longrightarrow> present (map_of (regModems r)) p \<Longrightarrow> fold presenceSignal sigs (r, p) = (r', p') \<Longrightarrow>
     registryOk r' \<and> present (map_of (regModems r')) p'"
proof (induction sigs arbitrary: r p)
  case (Cons sig sigs)
  obtain r1 p1 where 1: "presenceSignal sig (r, p) = (r1, p1)" by fastforce
  from presenceSignal_present [OF Cons.prems(1,2) 1] Cons.prems(3) show ?case
    by (intro Cons.IH [of r1 p1]) (simp_all add: 1)
qed simp

section \<open>The modems of the listing\<close>

definition listedOk :: "modemMap \<Rightarrow> bool" where
  "listedOk modems \<longleftrightarrow> distinct (map fst modems) \<and> keyedByPath (map_of modems)"

lemma keyedByPath_upd: "keyedByPath M \<Longrightarrow> objectPath m = q \<Longrightarrow> keyedByPath (M(q \<mapsto> m))"
  by (simp add: keyedByPath_def)

lemma loadModem_ok: "listedOk (snd acc) \<Longrightarrow> listedOk (snd (loadModem rd obj acc))"
  by (auto simp: loadModem_def listedOk_def distinct_update update_conv' keyedByPath_upd createModem_fields
      split: option.split sum.split)

lemma presenceList_ok:
  assumes "presenceList rd managed listing st = (Inr modems, r1, p1)"
  shows "listedOk modems" and "regModems r1 = modems" and "registryOk r1" and "\<exists>n. p1 = snd (fold presenceSignal listing ((fst st)\<lparr>nextModem := n\<rparr>, snd st))"
proof -
  obtain objs where m: "managed = Inr objs" and r: "regModems r1 = modems"
    and f: "modems = snd (fold (loadModem rd) objs (nextModem (fst st), []))"
    and p: "p1 = snd (fold presenceSignal listing ((fst st)\<lparr>nextModem := fst (fold (loadModem rd) objs (nextModem (fst st), []))\<rparr>, snd st))"
  proof (cases managed)
    case (Inl e)
    with assms have False by (simp add: presenceList_def)
    then show ?thesis ..
  next
    case (Inr objs)
    with assms show ?thesis by (intro that [OF Inr]) (auto simp add: presenceList_def Let_def split_beta)
  qed
  have "listedOk (snd (fold (loadModem rd) objs acc))" if "listedOk (snd acc)" for acc
    using that by (induction objs arbitrary: acc) (simp_all add: loadModem_ok)
  from this [of "(nextModem (fst st), [])"] show l: "listedOk modems" by (simp add: f listedOk_def keyedByPath_def)
  from r show "regModems r1 = modems" .
  with l show "registryOk r1" by (simp add: listedOk_def registryOk_def)
  from p show "\<exists>n. p1 = snd (fold presenceSignal listing ((fst st)\<lparr>nextModem := n\<rparr>, snd st))" by blast
qed

text \<open>Whatever the registry holds, the tasks stay those of some modems.\<close>

lemma presenceSignal_some: "present M (snd st) \<Longrightarrow> \<exists>M'. present M' (snd (presenceSignal sig st))"
proof (cases "fst (handleSignal (fst sig) (snd sig) (fst st))")
  case None
  assume "present M (snd st)"
  with None show ?thesis by (auto simp: presenceSignal_def split: prod.splits)
next
  case (Some ev)
  assume p: "present M (snd st)"
  obtain event subs r1 where h: "handleSignal (fst sig) (snd sig) (fst st) = (Some (event, subs), r1)"
    using Some by (cases ev) (metis prod.collapse)
  have new: "snd (presenceSignal sig st) = presenceEvent False event (snd st)" using h by (simp add: presenceSignal_def)
  from h consider (added) ptr data m where "createModem (fst sig) ptr (evPath event) data = Inr m"
      "evType event = ModemEventAdded" "evModem event = Some m"
    | (removed) "evType event = ModemEventRemoved"
    by (auto simp: handleSignal_def Let_def split: option.splits sum.splits signalName.splits)
  then show ?thesis
  proof cases
    case added
    have "objectPath m = evPath event" using createModem_fields [OF added(1)] by simp
    with addModem_present [OF p, of m] added(2,3) show ?thesis by (auto simp: new presenceEvent_def)
  next
    case removed
    with removeModem_present [OF p, of "evPath event"] show ?thesis by (auto simp: new presenceEvent_def)
  qed
qed

lemma presenceSignals_some: "present M (snd st) \<Longrightarrow> \<exists>M'. present M' (snd (fold presenceSignal sigs st))"
proof (induction sigs arbitrary: st M)
  case (Cons sig sigs)
  from presenceSignal_some [OF Cons.prems] obtain M' where "present M' (snd (presenceSignal sig st))" ..
  from Cons.IH [OF this] show ?case by simp
qed auto

text \<open>Adding a list leaves its modems, and of the others none whose identifier is in the list.\<close>

definition addedModems :: "modemMap \<Rightarrow> (string \<rightharpoonup> busModem) \<Rightarrow> (string \<rightharpoonup> busModem)" where
  "addedModems modems M = fold (\<lambda>(q, m). addedModem m) modems M"

lemma addListed_present:
  assumes "present M p" and "\<forall>(q, m) \<in> set modems. objectPath m = q"
  shows "present (addedModems modems M) (addListed False modems p)"
  using assms
proof (induction modems arbitrary: M p)
  case (Cons x modems)
  obtain q m where x: "x = (q, m)" by fastforce
  from Cons.prems(2) x have "present (addedModem m M) (addModem False q (Some m) p)"
    using addModem_present [OF Cons.prems(1), of m] by simp
  from Cons.IH [OF this] Cons.prems(2) x show ?case by (simp add: addListed_def addedModems_def)
qed (simp add: addListed_def addedModems_def)

lemma added_none: "M q = None \<Longrightarrow> \<forall>(q', m) \<in> set modems. objectPath m \<noteq> q \<Longrightarrow> addedModems modems M q = None"
  unfolding addedModems_def by (induction modems arbitrary: M) (auto simp: addedModem_def)

lemma added_stays:
  "M q = Some m \<Longrightarrow> \<forall>(q', m') \<in> set modems. objectPath m' \<noteq> q \<and> \<not> (EquipmentIdentifier m \<noteq> [] \<and> EquipmentIdentifier m' = EquipmentIdentifier m) \<Longrightarrow>
   addedModems modems M q = Some m"
  unfolding addedModems_def by (induction modems arbitrary: M) (auto simp: addedModem_def identifierAt_def)

lemma added_listed:
  assumes "listedOk modems" and "uniqueEquipment modems" and "dom M \<subseteq> fst ` set modems"
  shows "addedModems modems M = map_of modems"
proof
  fix q
  have paths: "\<forall>(q, m) \<in> set modems. objectPath m = q"
    using assms(1) by (auto simp: listedOk_def keyedByPath_def)
  have some: "addedModems modems M q = Some m" if "map_of modems q = Some m" "distinct (map fst modems)" "uniqueEquipment modems"
    "\<forall>(q, m) \<in> set modems. objectPath m = q" for m M
    using that
  proof (induction modems arbitrary: M)
    case (Cons x modems)
    obtain q0 m0 where x: "x = (q0, m0)" by fastforce
    have rest: "uniqueEquipment modems" "EquipmentIdentifier m0 \<noteq> [] \<longrightarrow> (\<forall>m' \<in> snd ` set modems. EquipmentIdentifier m' \<noteq> EquipmentIdentifier m0)"
      using Cons.prems(3) by (auto simp: uniqueEquipment_def x image_image split: if_splits) (metis (no_types, lifting) image_eqI snd_conv)
    show ?case
    proof (cases "q0 = q")
      case True
      then have "m0 = m" "objectPath m = q" using Cons.prems x by auto
      moreover from this have "addedModems modems (addedModem m M) q = Some m"
        using rest(2) Cons.prems(2,4) True x
        by (intro added_stays) (simp add: addedModem_def, force simp: image_iff)
      ultimately show ?thesis by (simp add: addedModems_def x)
    next
      case False
      with Cons.prems rest(1) x have "addedModems modems (addedModem m0 M) q = Some m" by (intro Cons.IH) auto
      then show ?thesis by (simp add: addedModems_def x)
    qed
  qed simp
  show "addedModems modems M q = map_of modems q"
  proof (cases "map_of modems q")
    case None
    then have "q \<notin> fst ` set modems" by (simp add: map_of_eq_None_iff)
    then have "M q = None" using assms(3) by blast
    moreover have "\<forall>(q', m) \<in> set modems. objectPath m \<noteq> q" using paths \<open>q \<notin> fst ` set modems\<close> by force
    ultimately show ?thesis using None by (simp only: added_none)
  next
    case (Some m)
    with some assms(1,2) paths show ?thesis by (simp add: listedOk_def)
  qed
qed

lemma addListed_listed:
  assumes "present M p" and "listedOk modems" and "uniqueEquipment modems" and "dom M \<subseteq> fst ` set modems"
  shows "present (map_of modems) (addListed False modems p)"
proof -
  have "\<forall>(q, m) \<in> set modems. objectPath m = q" using assms(2) by (auto simp: listedOk_def keyedByPath_def)
  from addListed_present [OF assms(1) this] added_listed [OF assms(2-4)] show ?thesis by simp
qed

section \<open>Running tasks\<close>

lemma present_running:
  assumes "present M p"
  shows "(c, m) \<in> set (running p) \<longleftrightarrow> map_of (prCancels p) (objectPath m) = Some c \<and> M (objectPath m) = Some m"
proof -
  have C: "case map_of (prCancels p) (objectPath m) of None \<Rightarrow> M (objectPath m) = None
     | Some c \<Rightarrow> \<exists>m'. M (objectPath m) = Some m' \<and> (c, m') \<in> set (prStarted p)"
    and d: "distinct (map fst (prStarted p))"
    using assms by (simp_all add: present_def contextsMatch_def startedMatch_def)
  have S: "c \<notin> set (prCancelled p) \<longleftrightarrow> map_of (prCancels p) (objectPath m) = Some c" if "(c, m) \<in> set (prStarted p)"
  proof -
    have "startedMatch p" using assms by (simp add: present_def)
    from this [unfolded startedMatch_def, THEN conjunct2, THEN conjunct2, THEN bspec, OF that] show ?thesis by simp
  qed
  have same: "m1 = m2" if "(c, m1) \<in> set (prStarted p)" "(c, m2) \<in> set (prStarted p)" for m1 m2
    using d that by (meson eq_key_imp_eq_value)
  show ?thesis
  proof (cases "map_of (prCancels p) (objectPath m) = Some c")
    case True
    with C obtain m' where "M (objectPath m) = Some m'" "(c, m') \<in> set (prStarted p)" by auto
    with True S same show ?thesis by (auto simp: running_def)
  next
    case False
    with S show ?thesis by (auto simp: running_def)
  qed
qed

lemma present_running_map:
  assumes "present M p"
  shows "distinct (map (objectPath \<circ> snd) (running p))" and "set (map snd (running p)) = ran M"
proof -
  have d: "distinct (running p)"
    using assms by (auto simp: present_def startedMatch_def running_def distinct_map)
  show "distinct (map (objectPath \<circ> snd) (running p))"
    unfolding distinct_map
  proof (intro conjI d inj_onI)
    fix x y assume xy: "x \<in> set (running p)" "y \<in> set (running p)" "(objectPath \<circ> snd) x = (objectPath \<circ> snd) y"
    obtain c m c' m' where eq: "x = (c, m)" "y = (c', m')" by (cases x, cases y) blast
    have "map_of (prCancels p) (objectPath m) = Some c" "M (objectPath m) = Some m"
      using xy(1) unfolding eq present_running [OF assms] by simp_all
    moreover have "map_of (prCancels p) (objectPath m') = Some c'" "M (objectPath m') = Some m'"
      using xy(2) unfolding eq present_running [OF assms] by simp_all
    moreover have "objectPath m = objectPath m'" using xy(3) by (simp add: eq)
    ultimately show "x = y" unfolding eq by (metis option.inject)
  qed
  have k: "M q = Some m \<Longrightarrow> objectPath m = q" for q m
    using assms by (auto simp: present_def keyedByPath_def)
  have C: "case map_of (prCancels p) q of None \<Rightarrow> M q = None | Some c \<Rightarrow> \<exists>m. M q = Some m \<and> (c, m) \<in> set (prStarted p)" for q
    using assms by (simp add: present_def contextsMatch_def)
  have "\<exists>c. map_of (prCancels p) q = Some c" if "M q = Some m" for q m
    using C [of q] that by (cases "map_of (prCancels p) q") simp_all
  note ex = this
  show "set (map snd (running p)) = ran M"
  proof (intro equalityI subsetI)
    fix m assume "m \<in> set (map snd (running p))"
    then obtain c where "(c, m) \<in> set (running p)" by auto
    then have "M (objectPath m) = Some m" unfolding present_running [OF assms] by simp
    then show "m \<in> ran M" by (rule ranI)
  next
    fix m assume "m \<in> ran M"
    then obtain q where q: "M q = Some m" by (auto simp: ran_def)
    with ex obtain c where "map_of (prCancels p) (objectPath m) = Some c" using k by blast
    with q k [OF q] have "(c, m) \<in> set (running p)" unfolding present_running [OF assms] by simp
    then show "m \<in> set (map snd (running p))" by force
  qed
qed

text \<open>Once stopped nothing runs, and nothing starts again.\<close>

definition allStopped :: "presence \<Rightarrow> bool" where
  "allStopped p \<longleftrightarrow> prStopped p \<and> prCancels p = [] \<and> prModems p = [] \<and> running p = []"

lemma presenceStopAll_stopped: "present M p \<Longrightarrow> allStopped (presenceStopAll p)"
proof -
  assume p: "present M p"
  have "c \<in> snd ` set (prCancels p)" if "(c, m) \<in> set (running p)" for c m
    using that by (auto simp: present_running [OF p] dest!: map_of_SomeD) (metis image_eqI snd_conv)
  then show "allStopped (presenceStopAll p)"
    by (auto simp: allStopped_def presenceStopAll_def running_def filter_empty_conv)
qed

lemma presenceSignal_stopped: "allStopped (snd st) \<Longrightarrow> allStopped (snd (presenceSignal sig st))"
  by (auto simp: allStopped_def presenceSignal_def presenceEvent_def addModem_def removeModem_def forgetModem_def cancelOf_def
      running_def filter_empty_conv Let_def split: prod.split option.split modemEventType.split)

lemma presenceSignals_stopped: "allStopped (snd st) \<Longrightarrow> allStopped (snd (fold presenceSignal sigs st))"
  by (induction sigs arbitrary: st) (simp_all add: presenceSignal_stopped)

text \<open>
  C20: The tasks of the presence runner follow the registry, whatever signals come before and during its listing and after its start:
  the tasks that run are those of the modems in the registry, one for each, however often a modem came back under another path. This
  holds when no two modems of the listing have the same equipment identifier, when every modem whose task was started before is in the
  listing, and when no signal is handled between the end of the listing and the end of the loop that adds the listed modems.
  Stopping ends all tasks and nothing starts afterwards.
\<close>
theorem presence_follows_registry:
  assumes "subscribe started (Some 0) r = (Inr i, r0)"
    and "presenceList rd managed listing (fold presenceSignal before (r0, noPresence)) = (Inr modems, r1, p1)"
    and "uniqueEquipment modems" and "set (map (objectPath \<circ> snd) (running p1)) \<subseteq> fst ` set modems"
    and "runPresence started rd managed before listing [] r = (res, st)" and "fold presenceSignal sigs st = (r2, p2)"
  shows "res = None \<and> set (map snd (running p2)) = ran (map_of (regModems r2)) \<and> distinct (map (objectPath \<circ> snd) (running p2)) \<and>
    running (snd (fold presenceSignal later (r2, presenceStopAll p2))) = []"
proof -
  note listed = presenceList_ok [OF assms(2)]
  have st: "res = None" "st = (r1, addListed False modems p1)"
    using assms(1,2,5) by (simp_all add: runPresence_def)
  obtain Mb where "present Mb (snd (fold presenceSignal before (r0, noPresence)))"
    using presenceSignals_some [of Map.empty "(r0, noPresence)"] present_none by auto
  with listed(4) obtain M where p1: "present M p1"
    using presenceSignals_some [of Mb "(r', p')" for r' p'] by fastforce
  have "dom M \<subseteq> fst ` set modems"
  proof
    fix q assume "q \<in> dom M"
    then obtain m where m: "M q = Some m" by auto
    then have "objectPath m = q" using p1 by (simp add: present_def keyedByPath_def)
    moreover have "m \<in> set (map snd (running p1))" unfolding present_running_map(2) [OF p1] using m by (rule ranI)
    ultimately show "q \<in> fst ` set modems" using assms(4) by auto
  qed
  from addListed_listed [OF p1 listed(1) assms(3) this]
  have "present (map_of (regModems r1)) (addListed False modems p1)" using listed(2) by simp
  from presenceSignals_present [OF listed(3) this] assms(6) st(2) have p2: "present (map_of (regModems r2)) p2" by blast
  from presenceSignals_stopped [of "(r2, presenceStopAll p2)" later] presenceStopAll_stopped [OF p2]
  have "running (snd (fold presenceSignal later (r2, presenceStopAll p2))) = []" by (simp add: allStopped_def)
  with present_running_map [OF p2] st(1) show ?thesis by simp
qed

definition exampleAdded :: "modemReaders \<times> dbusSignal option" where
  "exampleAdded = (exampleReaders, Some \<lparr>sigName = InterfacesAdded, sigBody = [BodyPath ''/2'', BodyInterfaces exampleInterfaces]\<rparr>)"

definition exampleManaged :: "string + (string \<times> (string \<times> dbusMap) list) list" where
  "exampleManaged = Inr [(''/1'', exampleInterfaces)]"

definition exampleRegistry :: registry where
  "exampleRegistry = NewRegistry\<lparr>nextSubID := 1, regSubs := [(1, 0)], regSubscribed := True\<rparr>"

lemma exampleSubscribed: "subscribe None (Some 0) NewRegistry = (Inr 1, exampleRegistry)"
  by (simp add: subscribe_def ensureSubscriptionStarted_def NewRegistry_def exampleRegistry_def)

lemma exampleListed:
  "presenceList exampleReaders exampleManaged [] (exampleRegistry, noPresence) =
     (Inr [(''/1'', exampleBusModem 1 ''/1'')],
      exampleRegistry\<lparr>regModems := [(''/1'', exampleBusModem 1 ''/1'')], nextModem := 2\<rparr>, noPresence)"
  by (simp add: presenceList_def exampleManaged_def loadModem_def exampleInterfaces_def exampleBusModem_created NewRegistry_def exampleRegistry_def)

theorem presence_follows_registry_witness:
  "set (map snd (running (snd (fold presenceSignal [exampleAdded]
     (snd (runPresence None exampleReaders exampleManaged [] [] [] NewRegistry)))))) = {exampleBusModem 2 ''/2''}"
proof -
  obtain st where st: "runPresence None exampleReaders exampleManaged [] [] [] NewRegistry = (None, st)"
    and 1: "fst st = exampleRegistry\<lparr>regModems := [(''/1'', exampleBusModem 1 ''/1'')], nextModem := 2\<rparr>"
    by (simp add: runPresence_def exampleListed exampleSubscribed)
  obtain r2 p2 where 2: "fold presenceSignal [exampleAdded] st = (r2, p2)" by fastforce
  have "uniqueEquipment [(''/1'', exampleBusModem 1 ''/1'')]" by (simp add: uniqueEquipment_def exampleBusModem_created)
  from presence_follows_registry [where before = "[]", OF exampleSubscribed _ this _ st 2] exampleListed
  have "set (map snd (running p2)) = ran (map_of (regModems r2))" by (simp add: running_def noPresence_def)
  moreover have "regModems r2 = [(''/2'', exampleBusModem 2 ''/2'')]"
  proof -
    have "r2 = snd (handleSignal exampleReaders (snd exampleAdded) (fst st))"
      using 2 by (auto simp: presenceSignal_def exampleAdded_def split: prod.splits option.splits)
    then show ?thesis
      by (simp add: 1 handleSignal_def exampleAdded_def modemPathFromSignal_def managedInterfacesFromSignal_def
          exampleInterfaces_def exampleBusModem_created deleteAndUpdate_def Let_def exampleRegistry_def NewRegistry_def)
  qed
  ultimately show ?thesis using 2 by (simp add: st)
qed

text \<open>
  The listing of the presence runner is a snapshot that ages: when the registry handles the removal of a listed modem
  before the runner has added it, the removal finds nothing to cancel, and the runner then starts a task for a modem that
  is no longer in the registry.
\<close>
theorem removal_while_listing_is_lost:
  assumes "subscribe started (Some 0) r = (Inr i, r0)"
    and "presenceList rd managed [] (r0, noPresence) = (Inr modems, r1, noPresence)" and "uniqueEquipment modems"
    and "map_of modems path = Some m" and "path \<noteq> []"
  shows "\<exists>r' p. runPresence started rd managed [] [] [[(rd', Some \<lparr>sigName = InterfacesRemoved, sigBody = [BodyPath path]\<rparr>)]] r = (None, r', p) \<and>
    map_of (regModems r') path = None \<and> m \<in> set (map snd (running p))"
proof -
  note listed = presenceList_ok [OF assms(2)]
  let ?p = "addListed False modems noPresence" and ?r = "r1\<lparr>regModems := AList.delete path (regModems r1)\<rparr>"
  have "removeModem path noPresence = noPresence"
    by (simp add: removeModem_def noPresence_def cancelOf_def forgetModem_def)
  then have "runPresence started rd managed [] [] [[(rd', Some \<lparr>sigName = InterfacesRemoved, sigBody = [BodyPath path]\<rparr>)]] r = (None, ?r, ?p)"
    using assms(5)
    by (cases modems) (auto simp: runPresence_def assms(1,2) presenceSignal_def handleSignal_def modemPathFromSignal_def Let_def
        presenceEvent_def addListed_def)
  moreover have "map_of (regModems ?r) path = None" by (simp add: delete_conv')
  moreover have "m \<in> set (map snd (running ?p))"
    using present_running_map(2) [OF addListed_listed [OF present_none listed(1) assms(3)]] assms(4) by (auto intro: ranI)
  ultimately show ?thesis by blast
qed

theorem removal_while_listing_is_lost_witness:
  "\<exists>r' p. runPresence None exampleReaders exampleManaged [] []
       [[(exampleReaders, Some \<lparr>sigName = InterfacesRemoved, sigBody = [BodyPath ''/1'']\<rparr>)]] NewRegistry = (None, r', p) \<and>
     map_of (regModems r') ''/1'' = None \<and> exampleBusModem 1 ''/1'' \<in> set (map snd (running p))"
  by (rule removal_while_listing_is_lost [OF exampleSubscribed exampleListed])
    (simp_all add: uniqueEquipment_def exampleBusModem_created)

end
