(* ===== verification/Relay.thy ===== *)
theory Relay
  imports Messenger Presence
begin

text \<open>
  The relay (\<open>internal/app/forwarder/relay.go\<close>): it subscribes to the messages of every modem and forwards incoming
  messages and calls to the notifier.

  The maps of the subscriptions have the shape of those of the presence runner and share its record; the end of a
  subscription's goroutine is an operation of its own. The notifier is a function that gives an error or none, and the
  log of the state has every notification that was handed to it. Aliases of modems come from the settings as a function.
\<close>

section \<open>Subscriptions\<close>

definition relayAddModem :: "bool \<Rightarrow> string \<Rightarrow> busModem \<Rightarrow> presence \<Rightarrow> presence" where
  "relayAddModem ended path m p =
     (if ended then p
      else
        let e = EquipmentIdentifier m;
            (old, p) = dropEquipment e path p;
            p = p\<lparr>prCancelled := prCancelled p @ old\<rparr>
        in if map_of (prCancels p) path \<noteq> None then p
           else
             let c = prNext p;
                 p = p\<lparr>prNext := Suc c, prCancels := AList.update path c (prCancels p), prStarted := prStarted p @ [(c, m)]\<rparr>
             in if e \<noteq> [] then p\<lparr>prEquipment := AList.update e path (prEquipment p), prModems := AList.update path e (prModems p)\<rparr>
                else p)"

text \<open>\<open>removeModem\<close> of the relay is that of the presence runner, word for word. It also runs when a subscription ends.\<close>

definition relayRemoveModem :: "string \<Rightarrow> presence \<Rightarrow> presence" where
  "relayRemoveModem path p = removeModem path p"

definition relayStopAll :: "presence \<Rightarrow> presence" where
  "relayStopAll p = p\<lparr>prCancels := [], prEquipment := [], prModems := [], prCancelled := prCancelled p @ map snd (prCancels p)\<rparr>"

definition relayEvent :: "bool \<Rightarrow> ModemEvent \<Rightarrow> presence \<Rightarrow> presence" where
  "relayEvent ended event p =
     (case evType event of
        ModemEventAdded \<Rightarrow> (case evModem event of None \<Rightarrow> p | Some m \<Rightarrow> relayAddModem ended (evPath event) m p)
      | ModemEventRemoved \<Rightarrow> relayRemoveModem (evPath event) p)"

text \<open>
  \<open>Run\<close> adds the listed modems before it subscribes; the signals that the registry handles in between reach no
  subscriber.
\<close>

definition runRelay ::
  "modemReaders \<Rightarrow> (string + (string \<times> (string \<times> dbusMap) list) list) \<Rightarrow> (modemReaders \<times> dbusSignal option) list \<Rightarrow>
   registry \<Rightarrow> string + registry \<times> presence" where
  "runRelay rd managed missed r =
     (case listModems rd managed r of
        (Inl e, r) \<Rightarrow> Inl (''listing modems: '' @ e)
      | (Inr modems, r) \<Rightarrow>
          Inr (fold (\<lambda>(rd, sig) r. snd (handleSignal rd sig r)) missed r,
               fold (\<lambda>(path, m). relayAddModem False path m) modems noPresence))"

section \<open>Notifications\<close>

datatype notification =
    SMSEvent string string string time string bool
  | CallEvent string string time string bool

record relayState =
  rsMessages :: messageTable
  rsSent :: "(messageKey \<times> notification) list"

definition incomingNotificationFreshnessWindow :: int where
  "incomingNotificationFreshnessWindow = 30 * 60 * second"

text \<open>\<open>Sub\<close> stops at the largest and the smallest duration; the negation of the smallest is itself.\<close>

definition timeSub :: "time \<Rightarrow> time \<Rightarrow> int" where
  "timeSub t u = max (- (2 ^ 63)) (min (2 ^ 63 - 1) (t - u))"

definition withinWindow :: "time \<Rightarrow> time \<Rightarrow> bool" where
  "withinWindow now timestamp \<longleftrightarrow>
     (let diff = timeSub now timestamp; diff = (if diff < 0 then int64 (- diff) else diff)
      in diff \<le> incomingNotificationFreshnessWindow)"

definition freshIncomingMessage :: "Message \<Rightarrow> time \<Rightarrow> bool" where
  "freshIncomingMessage message now \<longleftrightarrow>
     (if \<not> msgIncoming message \<or> msgTimestamp message = zero_time then True else withinWindow now (msgTimestamp message))"

definition freshIncomingCall :: "Call \<Rightarrow> time \<Rightarrow> bool" where
  "freshIncomingCall call now \<longleftrightarrow>
     (if Direction call \<noteq> ''incoming'' \<or> State call \<noteq> ''ringing'' then False
      else
        let timestamp = (if StartedAt call = zero_time then UpdatedAt call else StartedAt call)
        in timestamp = zero_time \<or> withinWindow now timestamp)"

definition modemLabel :: "(string \<Rightarrow> string) \<Rightarrow> string \<Rightarrow> string" where
  "modemLabel aliasOf modemID = (let a = trim_space (aliasOf modemID) in if a \<noteq> [] then a else trim_space modemID)"

definition formatStoredMessage :: "(string \<Rightarrow> string) \<Rightarrow> string \<Rightarrow> Message \<Rightarrow> notification" where
  "formatStoredMessage aliasOf modemID message =
     SMSEvent (modemLabel aliasOf modemID) (msgSender message) (msgRecipient message) (msgTimestamp message)
       (trim_space (msgText message)) (msgIncoming message)"

definition formatStoredCall :: "(string \<Rightarrow> string) \<Rightarrow> Call \<Rightarrow> notification" where
  "formatStoredCall aliasOf call =
     CallEvent (modemLabel aliasOf (ModemID call)) (trim_space (Number call)) (StartedAt call) (State call)
       (Direction call = ''incoming'')"

text \<open>The message of a modem SMS, read by the relay.\<close>

definition storageMessageFromModemSMS :: "messageEnv \<Rightarrow> busModem \<Rightarrow> string \<Rightarrow> modemSMS \<Rightarrow> Message" where
  "storageMessageFromModemSMS env m profileID sms =
     (let incoming = (smsObjectState sms = SMSStateReceived \<or> smsObjectState sms = SMSStateReceiving);
          remote = trim_space (smsNumber sms);
          (sender, recipient) = (if incoming then (remote, OwnNumber m) else (OwnNumber m, remote))
      in \<lparr>msgID = 0, msgModemID = EquipmentIdentifier m, msgProfileID = profileID, msgSource = MessageSourceModem,
          msgExternalKey = smsPath sms, msgFingerprint = [], msgSender = sender, msgRecipient = recipient,
          msgText = smsObjectText sms, msgTimestamp = smsTimestamp sms,
          msgStatus = toLower env (smsStateName (smsObjectState sms)), msgIncoming = incoming, msgRouted = False\<rparr>)"

text \<open>The profile of a modem is the identifier of its SIM, which is read again when it is empty.\<close>

definition modemProfileID :: "(string \<Rightarrow> busError + busSIM) \<Rightarrow> busModem \<Rightarrow> string + string" where
  "modemProfileID readSIM m =
     (case ModemSim m of
        None \<Rightarrow> Inl ''read primary SIM: primary SIM not available''
      | Some s \<Rightarrow>
          let profileID = trim_space (SimIdentifier s) in
          if profileID \<noteq> [] then Inr profileID
          else (case readSIM (SimPath s) of
                  Inl e \<Rightarrow> Inl (''read primary SIM: '' @ errText e)
                | Inr s \<Rightarrow>
                    let profileID = trim_space (SimIdentifier s) in
                    if profileID = [] then Inl ''profile id is missing'' else Inr profileID))"

datatype relayError = RelayProfile string | RelayStore messageError | RelayNotify string

text \<open>The readings of the clock, the fault of the insertion and the answer of the notifier.\<close>

record relayAnswers =
  freshTime :: time
  rowTime :: time
  rowFault :: "string option"
  notifier :: "notification \<Rightarrow> string option"

text \<open>The common end of \<open>ForwardRoutedSMS\<close> and \<open>forwardModemSMS\<close>. The log has the key that the row got.\<close>

definition forwardStored ::
  "messageEnv \<Rightarrow> (string \<Rightarrow> string) \<Rightarrow> relayAnswers \<Rightarrow> string \<Rightarrow> Message \<Rightarrow> relayState \<Rightarrow> relayError option \<times> relayState" where
  "forwardStored env aliasOf a modemID message st =
     (if \<not> freshIncomingMessage message (freshTime a) then (None, st)
      else case InsertMessage env (rowFault a) (rowTime a) message (rsMessages st) of
        (Inl e, tab) \<Rightarrow> (Some (RelayStore e), st\<lparr>rsMessages := tab\<rparr>)
      | (Inr inserted, tab) \<Rightarrow>
          let st = st\<lparr>rsMessages := tab\<rparr> in
          if \<not> inserted then (None, st)
          else
            let n = formatStoredMessage aliasOf modemID message
            in (map_option RelayNotify (notifier a n),
                st\<lparr>rsSent := rsSent st @ [(keyOf (normalizeMessage env (rowTime a) message), n)]\<rparr>))"

definition ForwardRoutedSMS ::
  "messageEnv \<Rightarrow> (string \<Rightarrow> string) \<Rightarrow> relayAnswers \<Rightarrow> string \<Rightarrow> Message \<Rightarrow> relayState \<Rightarrow> relayError option \<times> relayState" where
  "ForwardRoutedSMS env aliasOf a modemID message st = forwardStored env aliasOf a modemID message st"

definition forwardModemSMS ::
  "messageEnv \<Rightarrow> (string \<Rightarrow> string) \<Rightarrow> (string \<Rightarrow> busError + busSIM) \<Rightarrow> relayAnswers \<Rightarrow> busModem \<Rightarrow> modemSMS \<Rightarrow> relayState \<Rightarrow>
   relayError option \<times> relayState" where
  "forwardModemSMS env aliasOf readSIM a m message st =
     (case modemProfileID readSIM m of
        Inl e \<Rightarrow> (Some (RelayProfile e), st)
      | Inr profileID \<Rightarrow>
          forwardStored env aliasOf a (EquipmentIdentifier m) (storageMessageFromModemSMS env m profileID message) st)"

section \<open>Calls\<close>

text \<open>
  The set of calls that were notified is the list of its ids; the calls whose notification is being sent and the
  calls that were delivered are kept to speak about them.
\<close>

record callNotifier =
  notifiedCalls :: "string list"
  flyingCalls :: "Call list"
  deliveredCalls :: "Call list"

definition reserveCallNotification :: "string \<Rightarrow> callNotifier \<Rightarrow> bool \<times> callNotifier" where
  "reserveCallNotification callID s =
     (let callID = trim_space callID in
      if callID = [] then (True, s)
      else if callID \<in> set (notifiedCalls s) then (False, s)
      else (True, s\<lparr>notifiedCalls := callID # notifiedCalls s\<rparr>))"

definition releaseCallNotification :: "string \<Rightarrow> callNotifier \<Rightarrow> callNotifier" where
  "releaseCallNotification callID s = s\<lparr>notifiedCalls := removeAll (trim_space callID) (notifiedCalls s)\<rparr>"

text \<open>\<open>ForwardCall\<close> up to the notifier, and after it; several calls may be between the two.\<close>

definition beginForwardCall :: "time \<Rightarrow> Call \<Rightarrow> callNotifier \<Rightarrow> bool \<times> callNotifier" where
  "beginForwardCall now call s =
     (if \<not> freshIncomingCall call now then (False, s) else reserveCallNotification (ID call) s)"

definition endForwardCall :: "Call \<Rightarrow> string option \<Rightarrow> callNotifier \<Rightarrow> string option \<times> callNotifier" where
  "endForwardCall call err s =
     (case err of Some e \<Rightarrow> (Some e, releaseCallNotification (ID call) s) | None \<Rightarrow> (None, s))"

definition ForwardCall ::
  "(string \<Rightarrow> string) \<Rightarrow> (notification \<Rightarrow> string option) \<Rightarrow> time \<Rightarrow> Call \<Rightarrow> callNotifier \<Rightarrow> string option \<times> callNotifier" where
  "ForwardCall aliasOf notify now call s =
     (case beginForwardCall now call s of
        (False, s) \<Rightarrow> (None, s)
      | (True, s) \<Rightarrow> endForwardCall call (notify (formatStoredCall aliasOf call)) s)"

inductive callStep :: "callNotifier \<Rightarrow> callNotifier \<Rightarrow> bool" where
  skipped: "beginForwardCall now call s = (False, s') \<Longrightarrow> callStep s s'"
| reserved: "beginForwardCall now call s = (True, s') \<Longrightarrow> callStep s (s'\<lparr>flyingCalls := flyingCalls s' @ [call]\<rparr>)"
| failed: "flyingCalls s = as @ call # bs \<Longrightarrow> endForwardCall call (Some e) s = (r, s') \<Longrightarrow>
    callStep s (s'\<lparr>flyingCalls := as @ bs\<rparr>)"
| delivered: "flyingCalls s = as @ call # bs \<Longrightarrow> endForwardCall call None s = (r, s') \<Longrightarrow>
    callStep s (s'\<lparr>flyingCalls := as @ bs, deliveredCalls := deliveredCalls s @ [call]\<rparr>)"

definition noCalls :: callNotifier where
  "noCalls = \<lparr>notifiedCalls = [], flyingCalls = [], deliveredCalls = []\<rparr>"

text \<open>The ids of calls, without the calls that have none.\<close>

definition callIDs :: "Call list \<Rightarrow> string list" where
  "callIDs calls = filter (\<lambda>i. i \<noteq> []) (map (trim_space \<circ> ID) calls)"

definition callsOnce :: "callNotifier \<Rightarrow> bool" where
  "callsOnce s \<longleftrightarrow> distinct (callIDs (flyingCalls s @ deliveredCalls s)) \<and>
     set (callIDs (flyingCalls s @ deliveredCalls s)) \<subseteq> set (notifiedCalls s)"

lemma callIDs_simps [simp]:
  "callIDs [] = []" "callIDs (c # cs) = (if trim_space (ID c) = [] then callIDs cs else trim_space (ID c) # callIDs cs)"
  "callIDs (cs @ ds) = callIDs cs @ callIDs ds"
  by (simp_all add: callIDs_def)

lemma callIDs_nonempty [simp]: "[] \<notin> set (callIDs cs)"
  by (simp add: callIDs_def)

lemma reserve_cases:
  assumes "beginForwardCall now call s = (b, s')"
  shows "flyingCalls s' = flyingCalls s" and "deliveredCalls s' = deliveredCalls s"
    and "set (notifiedCalls s) \<subseteq> set (notifiedCalls s')"
    and "b \<Longrightarrow> trim_space (ID call) \<noteq> [] \<Longrightarrow> trim_space (ID call) \<notin> set (notifiedCalls s) \<and> trim_space (ID call) \<in> set (notifiedCalls s')"
  using assms by (auto simp: beginForwardCall_def reserveCallNotification_def Let_def split: if_splits)

lemma callStep_once: "callStep s s' \<Longrightarrow> callsOnce s \<Longrightarrow> callsOnce s'"
proof (induction rule: callStep.induct)
  case (skipped now call s s')
  with reserve_cases [OF skipped.hyps] show ?case by (auto simp: callsOnce_def)
next
  case (reserved now call s s')
  note r = reserve_cases [OF reserved.hyps]
  have "trim_space (ID call) \<noteq> [] \<Longrightarrow> trim_space (ID call) \<notin> set (callIDs (flyingCalls s @ deliveredCalls s))"
    using reserved.prems r(4) by (auto simp: callsOnce_def)
  then show ?case
    using reserved.prems r by (auto simp: callsOnce_def)
next
  case (failed s as call bs e r s')
  then show ?case
    by (auto simp: callsOnce_def endForwardCall_def releaseCallNotification_def dest: subsetD split: if_splits)
next
  case (delivered s as call bs r s')
  then show ?case
    by (auto simp: callsOnce_def endForwardCall_def split: if_splits)
qed

text \<open>
  C23: An incoming call is notified at most once: whatever the order in which events of calls arrive, reservations are made
  and notifications succeed or fail, no two deliveries are for the same call, and none is in flight for a call that was
  delivered. Only calls without an id are not counted.
\<close>
theorem call_notified_once:
  assumes "callStep\<^sup>*\<^sup>* noCalls s"
  shows "distinct (callIDs (deliveredCalls s)) \<and> set (callIDs (flyingCalls s)) \<inter> set (callIDs (deliveredCalls s)) = {}"
proof -
  have "callsOnce s" using assms
    by (induction rule: rtranclp_induct) (simp_all add: callStep_once, simp add: callsOnce_def noCalls_def)
  then show ?thesis by (auto simp: callsOnce_def)
qed


theorem call_notified_once_witness:
  "\<exists>s. callStep\<^sup>*\<^sup>* noCalls s \<and> length (deliveredCalls s) = 1 \<and> distinct (callIDs (deliveredCalls s))"
proof -
  let ?c = "(exampleRow ''ringing'')\<lparr>ID := ''c1'', Direction := ''incoming'', State := ''ringing'', StartedAt := zero_time, UpdatedAt := zero_time\<rparr>"
  have id: "trim_space ''c1'' = ''c1''" by (simp add: trim_space_graphic graphic_def)
  let ?s = "\<lparr>notifiedCalls = [''c1''], flyingCalls = [?c], deliveredCalls = []\<rparr>"
  have "beginForwardCall 0 ?c noCalls = (True, ?s\<lparr>flyingCalls := []\<rparr>)"
    by (simp add: beginForwardCall_def freshIncomingCall_def reserveCallNotification_def noCalls_def id)
  from callStep.reserved [OF this] have 1: "callStep noCalls ?s" by simp
  have "callStep ?s \<lparr>notifiedCalls = [''c1''], flyingCalls = [], deliveredCalls = [?c]\<rparr>"
    using callStep.delivered [of ?s "[]" ?c "[]" None ?s] by (simp add: endForwardCall_def)
  with 1 have "callStep\<^sup>*\<^sup>* noCalls \<lparr>notifiedCalls = [''c1''], flyingCalls = [], deliveredCalls = [?c]\<rparr>"
    by (meson rtranclp.rtrancl_into_rtrancl rtranclp.rtrancl_refl)
  with call_notified_once [OF this] show ?thesis by (metis (no_types, lifting) callNotifier.select_convs(3) length_Cons list.size(3) One_nat_def)
qed

section \<open>Messages\<close>

text \<open>What changes the table while the relay runs: its own forwarding, and statements that delete nothing.\<close>

datatype relayOp =
    RelayMessage "string \<Rightarrow> string" relayAnswers string Message
  | TableOp messageOp

fun deletesNothing :: "relayOp \<Rightarrow> bool" where
  "deletesNothing (TableOp (DropConversation f f' p q)) = False"
| "deletesNothing _ = True"

fun relayStep :: "messageEnv \<Rightarrow> relayOp \<Rightarrow> relayState \<Rightarrow> relayState" where
  "relayStep env (RelayMessage aliasOf a modemID message) st = snd (forwardStored env aliasOf a modemID message st)"
| "relayStep env (TableOp op) st = st\<lparr>rsMessages := snd (tableStep env op (rsMessages st))\<rparr>"

text \<open>The notified messages are distinct rows of the table.\<close>

definition notifiedRows :: "relayState \<Rightarrow> bool" where
  "notifiedRows st \<longleftrightarrow> messagesOk (rsMessages st) \<and> distinct (map fst (rsSent st)) \<and>
     fst ` set (rsSent st) \<subseteq> dom (messageMapOf (rsMessages st))"

lemma insert_dom:
  assumes "messagesOk tab" and "InsertMessage env fault now msg tab = (r, tab')"
  shows "r = Inr True \<Longrightarrow> keyOf (normalizeMessage env now msg) \<notin> dom (messageMapOf tab) \<and>
      dom (messageMapOf tab') = insert (keyOf (normalizeMessage env now msg)) (dom (messageMapOf tab))"
    and "r \<noteq> Inr True \<Longrightarrow> tab' = tab" and "messagesOk tab'"
proof -
  have "tableStep env (StoreMessage fault now msg) tab = (Stored r, tab')" by (simp add: assms(2))
  note map = insert_refines [OF assms(1) this]
  show "keyOf (normalizeMessage env now msg) \<notin> dom (messageMapOf tab) \<and>
      dom (messageMapOf tab') = insert (keyOf (normalizeMessage env now msg)) (dom (messageMapOf tab))" if "r = Inr True"
  proof -
    have "keyOf (normalizeMessage env now msg) \<notin> dom (messageMapOf tab)"
      using map that by (auto simp: Let_def split: option.splits if_splits)
    moreover have "messageMapOf tab' = (messageMapOf tab)(keyOf (normalizeMessage env now msg) \<mapsto> anonymous (normalizeMessage env now msg))"
      using map that by (auto simp: Let_def split: option.splits if_splits)
    ultimately show ?thesis by simp
  qed
  show "r \<noteq> Inr True \<Longrightarrow> tab' = tab"
    using assms(2) by (auto simp: InsertMessage_def Let_def split: option.splits if_splits)
  show "messagesOk tab'" by (rule InsertMessage_ok [OF assms])
qed

lemma tableStep_dom:
  assumes "messagesOk tab" and "deletesNothing (TableOp op)"
  shows "dom (messageMapOf tab) \<subseteq> dom (messageMapOf (snd (tableStep env op tab)))"
proof (cases op)
  case (StoreMessage fault now msg)
  obtain r tab' where i: "InsertMessage env fault now msg tab = (r, tab')" by fastforce
  with insert_dom [OF assms(1) i] StoreMessage show ?thesis by (cases "r = Inr True") auto
next
  case (SetMessageStatus fault u)
  obtain r tab' where t: "tableStep env op tab = (r, tab')" by fastforce
  let ?k = "MessageKey (trim_space (updProfileID u)) (trim_space (updSource u)) (trim_space (updExternalKey u))"
  let ?f = "map_option (\<lambda>m. m\<lparr>msgStatus := toLower env (trim_space (updStatus u))\<rparr>)"
  have "messageMapOf tab' = messageMapOf tab \<or> messageMapOf tab' = (messageMapOf tab)(?k := ?f (messageMapOf tab ?k))"
    using tableStep_refines [OF assms(1) t] SetMessageStatus by (auto simp: Let_def split: option.splits if_splits)
  then have "dom (messageMapOf tab') = dom (messageMapOf tab)" by (auto simp: dom_def split: if_splits)
  with t show ?thesis by simp
qed (use assms(2) in simp)

lemma relayStep_rows: "notifiedRows st \<Longrightarrow> deletesNothing op \<Longrightarrow> notifiedRows (relayStep env op st)"
proof (cases op)
  case (RelayMessage aliasOf a modemID message)
  assume st: "notifiedRows st"
  then have ok: "messagesOk (rsMessages st)" by (simp add: notifiedRows_def)
  obtain r tab where i: "InsertMessage env (rowFault a) (rowTime a) message (rsMessages st) = (r, tab)" by fastforce
  note d = insert_dom [OF ok i]
  show ?thesis
  proof (cases "r = Inr True \<and> freshIncomingMessage message (freshTime a)")
    case True
    with d(1) st d(3) show ?thesis by (auto simp: RelayMessage forwardStored_def i Let_def notifiedRows_def)
  next
    case False
    with d(2) st have "relayStep env op st = st \<or> (\<exists>t. relayStep env op st = st\<lparr>rsMessages := tab\<rparr> \<and> tab = rsMessages st)"
      by (auto simp: RelayMessage forwardStored_def i Let_def split: sum.splits)
    with st show ?thesis by auto
  qed
next
  case (TableOp o')
  assume "notifiedRows st" "deletesNothing op"
  moreover from this have "dom (messageMapOf (rsMessages st)) \<subseteq> dom (messageMapOf (rsMessages (relayStep env op st)))"
    using tableStep_dom [of "rsMessages st" o' env] by (simp add: notifiedRows_def TableOp)
  ultimately show ?thesis
    using tableStep_ok [of "rsMessages st" env o'] subset_trans by (simp add: notifiedRows_def TableOp) blast
qed

text \<open>
  C22: A message is notified at most once: whatever messages the relay is given, over Wi-Fi Calling or by a modem, how often and
  in whatever order, with faults of the database and of the notifier, and whatever else inserts rows or sets their status
  meanwhile, all notifications are for different messages, each of them a row of the table.
\<close>
theorem message_notified_once:
  assumes "messagesOk tab" and "list_all deletesNothing ops" and "st = fold (relayStep env) ops \<lparr>rsMessages = tab, rsSent = []\<rparr>"
  shows "distinct (map fst (rsSent st)) \<and> fst ` set (rsSent st) \<subseteq> dom (messageMapOf (rsMessages st))"
proof -
  have "notifiedRows (fold (relayStep env) ops s)" if "notifiedRows s" for s
    using that assms(2) by (induction ops arbitrary: s) (simp_all add: relayStep_rows)
  from this [of "\<lparr>rsMessages = tab, rsSent = []\<rparr>"] assms(1,3) show ?thesis by (simp add: notifiedRows_def)
qed

text \<open>A clock that stands still, no faults and a notifier that always succeeds.\<close>

definition exampleRelayAnswers :: relayAnswers where
  "exampleRelayAnswers = \<lparr>freshTime = second, rowTime = second, rowFault = None, notifier = (\<lambda>n. None)\<rparr>"

definition exampleNotified :: "relayOp list" where
  "exampleNotified = replicate 2 (RelayMessage (\<lambda>i. []) exampleRelayAnswers ''m'' (exampleMessage ''d'' ''9'' second True))"

theorem message_notified_once_witness:
  "distinct (map fst (rsSent (fold (relayStep exampleMessages) exampleNotified \<lparr>rsMessages = exampleTable, rsSent = []\<rparr>)))"
proof -
  have "list_all deletesNothing exampleNotified" by (simp add: exampleNotified_def numeral_2_eq_2)
  from message_notified_once [OF exampleTable_ok this refl] show ?thesis by blast
qed

text \<open>
  The messenger and the relay read the same message from an SMS of the modem, so whichever stores it first, the other
  finds it known.
\<close>

lemma relay_message_is_synced_message:
  "storageMessageFromModemSMS env m profileID sms = messageFromModemSMS env (EquipmentIdentifier m) (OwnNumber m) profileID sms"
  by (simp add: storageMessageFromModemSMS_def messageFromModemSMS_def)

lemma insert_known:
  assumes "keyOf (normalizeMessage env now msg) \<in> set (map keyOf (msgRows tab))"
  shows "InsertMessage env fault now msg tab \<noteq> (Inr True, tab')" and "snd (InsertMessage env fault now msg tab) = tab"
proof -
  have "list_ex (conflictsWith (normalizeMessage env now msg)) (msgRows tab)"
    using assms unfolding conflictsWith_iff by blast
  then show "InsertMessage env fault now msg tab \<noteq> (Inr True, tab')" "snd (InsertMessage env fault now msg tab) = tab"
    by (auto simp: InsertMessage_def Let_def split: option.split)
qed

lemma forwardStored_known:
  assumes "keyOf (normalizeMessage env (rowTime a) msg) \<in> set (map keyOf (msgRows (rsMessages st)))"
  shows "snd (forwardStored env aliasOf a modemID msg st) = st"
  using insert_known [OF assms, of "rowFault a"]
  by (auto simp: forwardStored_def Let_def split: prod.split sum.split)

lemma keyOf_synced:
  "keyOf (normalizeMessage env now (messageFromModemSMS env i n profileID sms)) =
     MessageKey (trim_space profileID) MessageSourceModem (trim_space (smsPath sms))"
proof -
  have "trim_space MessageSourceModem = MessageSourceModem"
    by (simp add: MessageSourceModem_def trim_space_graphic graphic_def)
  then show ?thesis
    by (simp add: keyOf_def normalizeMessage_def messageFromModemSMS_def Let_def split: prod.split)
qed

text \<open>
  The object path of an SMS is taken for the identity of the message. ModemManager counts its paths anew whenever it
  starts, and a message that arrives under a path which an older message of the profile has in the table is dropped: it is
  neither stored nor notified, whatever its text, its sender and its time.
\<close>
theorem reused_path_drops_message:
  assumes "messageMapOf (rsMessages st) (MessageKey (trim_space profileID) MessageSourceModem (trim_space (smsPath sms))) = Some old"
    and "modemProfileID readSIM m = Inr profileID"
  shows "snd (forwardModemSMS env aliasOf readSIM a m sms st) = st"
proof -
  have "MessageKey (trim_space profileID) MessageSourceModem (trim_space (smsPath sms)) \<in> set (map keyOf (msgRows (rsMessages st)))"
    using assms(1) unfolding messageMapOf_def by (metis domI rowMap_dom)
  with keyOf_synced [of env "rowTime a" "EquipmentIdentifier m" "OwnNumber m" profileID sms] assms(2) show ?thesis
    by (simp add: forwardModemSMS_def relay_message_is_synced_message forwardStored_known)
qed

section \<open>Restarts of ModemManager\<close>

text \<open>
  When ModemManager restarts without a removal and two modems come back with their paths exchanged, the relay keeps a
  subscription for only one of them: the path that the first one takes is still held by the other, so it is refused after
  its old subscription was cancelled, and the second one then cancels that. The presence tasks, with the same events, run for
  both.
\<close>
theorem exchanged_paths_lose_a_modem:
  assumes "EquipmentIdentifier x = i" and "EquipmentIdentifier x' = i" and "EquipmentIdentifier y = j" and "EquipmentIdentifier y' = j"
    and "i \<noteq> j" and "i \<noteq> []" and "j \<noteq> []" and "p \<noteq> q"
  shows "map snd (running (fold (\<lambda>(path, m). relayAddModem False path m) [(p, x), (q, y), (q, x'), (p, y')] noPresence)) = [y'] \<and>
    map snd (running (fold (\<lambda>(path, m). addModem False path (Some m)) [(p, x), (q, y), (q, x'), (p, y')] noPresence)) = [x', y']"
  using assms
  by (auto simp: relayAddModem_def addModem_def dropPath_def dropEquipment_def forgetModem_def cancelOf_def noPresence_def
      running_def Let_def)


theorem reused_path_drops_message_witness:
  "snd (forwardModemSMS exampleMessages (\<lambda>i. []) simReference exampleRelayAnswers ((exampleBusModem 1 ''/1'')\<lparr>ModemSim := Some ((projr (simReference ''/SIM/1''))\<lparr>SimIdentifier := ''p''\<rparr>)\<rparr>)
     (exampleSMSObject\<lparr>smsPath := ''a''\<rparr>) \<lparr>rsMessages = exampleTable, rsSent = []\<rparr>) = \<lparr>rsMessages = exampleTable, rsSent = []\<rparr>"
proof -
  have t: "trim_space ''p'' = ''p''" "trim_space ''a'' = ''a''" by (simp_all add: trim_space_graphic graphic_def)
  have "messageMapOf exampleTable (MessageKey ''p'' MessageSourceModem ''a'') \<noteq> None"
    by (simp add: messageMapOf_def exampleTable_def messageRow_def exampleMessage_def keyOf_def MessageSourceModem_def)
  then obtain old where "messageMapOf exampleTable (MessageKey ''p'' MessageSourceModem ''a'') = Some old" by auto
  then show ?thesis
    by (intro reused_path_drops_message [of _ "''p''"]) (simp_all add: t modemProfileID_def)
qed

theorem exchanged_paths_lose_a_modem_witness:
  "\<exists>x x' y y'. x' \<noteq> y' \<and> map snd (running (fold (\<lambda>(path, m). relayAddModem False path m) [(''/1'', x), (''/2'', y), (''/2'', x'), (''/1'', y')] noPresence)) = [y']"
proof -
  obtain x y :: busModem where x: "EquipmentIdentifier x = ''i''" and y: "EquipmentIdentifier y = ''j''"
    by (rule that [of "(exampleBusModem 1 ''/1'')\<lparr>EquipmentIdentifier := ''i''\<rparr>" "(exampleBusModem 2 ''/2'')\<lparr>EquipmentIdentifier := ''j''\<rparr>"])
      simp_all
  then have "x \<noteq> y" by auto
  have "''i'' \<noteq> ''j''" "''i'' \<noteq> []" "''j'' \<noteq> []" "''/1'' \<noteq> ''/2''" by simp_all
  note r = exchanged_paths_lose_a_modem [OF x x y y this, THEN conjunct1]
  show ?thesis by (rule exI [of _ x], rule exI [of _ x], rule exI [of _ y], rule exI [of _ y], rule conjI, rule \<open>x \<noteq> y\<close>, rule r)
qed

text \<open>The end of an old subscription cancels the new one of the same path.\<close>

theorem late_end_cancels_new_subscription:
  "running (relayRemoveModem p (relayAddModem False p m' (relayRemoveModem p (relayAddModem False p m noPresence)))) = []"
  by (cases "EquipmentIdentifier m = []"; cases "EquipmentIdentifier m' = []")
    (simp_all add: relayRemoveModem_def removeModem_def relayAddModem_def dropEquipment_def forgetModem_def cancelOf_def
      noPresence_def running_def Let_def)

text \<open>A message that the messenger stores first, because somebody lists messages, is not forwarded.\<close>

theorem synced_message_is_not_forwarded:
  assumes "InsertMessage env fault now (messageFromModemSMS env (EquipmentIdentifier m) (OwnNumber m) profileID sms) tab = (Inr True, tab')"
    and "messagesOk tab" and "modemProfileID readSIM m = Inr profileID"
  shows "snd (forwardModemSMS env aliasOf readSIM a m sms \<lparr>rsMessages = tab', rsSent = []\<rparr>) = \<lparr>rsMessages = tab', rsSent = []\<rparr>"
proof -
  have "MessageKey (trim_space profileID) MessageSourceModem (trim_space (smsPath sms)) \<in> dom (messageMapOf tab')"
    using insert_dom(1) [OF assms(2,1)] by (simp add: keyOf_synced)
  then have "MessageKey (trim_space profileID) MessageSourceModem (trim_space (smsPath sms)) \<in> set (map keyOf (msgRows tab'))"
    by (simp only: messageMapOf_def rowMap_dom)
  with keyOf_synced [of env "rowTime a" "EquipmentIdentifier m" "OwnNumber m" profileID sms] assms(3) show ?thesis
    by (simp add: forwardModemSMS_def relay_message_is_synced_message forwardStored_known)
qed

end
