(* ===== verification/AtCommands.thy ===== *)
theory AtCommands
  imports GoPrelude
begin

text \<open>
  AT commands of a modem (\<open>internal/pkg/modem/at\<close>): the exchange of a command and its response over a serial
  port, and the access to the SIM card by \<open>AT+CRSM\<close> and \<open>AT+CSIM\<close>.

  The port keeps the lines it has received and not yet read, as the buffered reader does; the device answers a
  written command with an error or with further lines. Reading past the last line is an error (the deadline).
\<close>

section \<open>Text of bytes and numbers\<close>

text \<open>The format \<open>%X\<close>, and \<open>hex.DecodeString\<close>, which takes both cases.\<close>

definition hex_upper_digit :: "nat \<Rightarrow> char" where
  "hex_upper_digit n = (if n < 10 then char_of (48 + n) else char_of (55 + n))"

definition hex_upper :: "byte list \<Rightarrow> string" where
  "hex_upper bs = concat (map (\<lambda>b. [hex_upper_digit (unat b div 16), hex_upper_digit (unat b mod 16)]) bs)"

definition hex_value :: "char \<Rightarrow> nat option" where
  "hex_value c =
     (let n = of_char c in
      if 48 \<le> n \<and> n \<le> 57 then Some (n - 48)
      else if 97 \<le> n \<and> n \<le> 102 then Some (n - 87)
      else if 65 \<le> n \<and> n \<le> 70 then Some (n - 55)
      else None)"

fun hex_decode :: "string \<Rightarrow> byte list option" where
  "hex_decode [] = Some []"
| "hex_decode [c] = None"
| "hex_decode (a # b # s) =
     (case (hex_value a, hex_value b) of
        (Some x, Some y) \<Rightarrow> map_option (Cons (of_nat (16 * x + y))) (hex_decode s)
      | _ \<Rightarrow> None)"

text \<open>\<open>strconv.Atoi\<close>: an optional sign and digits, in the range of an \<open>int\<close>.\<close>

definition atoi :: "string \<Rightarrow> int option" where
  "atoi s =
     (let (neg, ds) = (case s of c # cs \<Rightarrow> if c = CHR ''-'' then (True, cs) else if c = CHR ''+'' then (False, cs) else (False, s)
                       | [] \<Rightarrow> (False, []));
          v = (if neg then - int (decimal_value ds) else int (decimal_value ds))
      in if ds = [] \<or> \<not> list_all is_digit ds \<or> v < - (2 ^ 63) \<or> v \<ge> 2 ^ 63 then None else Some v)"

text \<open>\<open>strings.Index\<close> with what follows the match, \<open>strings.SplitN\<close> at commas, \<open>strings.Trim\<close> of quotes.\<close>

fun after :: "string \<Rightarrow> string \<Rightarrow> string option" where
  "after sub s =
     (if starts_with s sub then Some (drop (length sub) s)
      else case s of [] \<Rightarrow> None | c # cs \<Rightarrow> after sub cs)"

declare after.simps [simp del]

definition split_comma :: "string \<Rightarrow> (string \<times> string) option" where
  "split_comma s =
     (case dropWhile (\<lambda>c. c \<noteq> CHR '','') s of [] \<Rightarrow> None | c # rest \<Rightarrow> Some (takeWhile (\<lambda>c. c \<noteq> CHR '','') s, rest))"

definition trim_quotes :: "string \<Rightarrow> string" where
  "trim_quotes s = rev (dropWhile (\<lambda>c. c = CHR 0x22) (rev (dropWhile (\<lambda>c. c = CHR 0x22) s)))"

section \<open>The port\<close>

definition terminalError :: "string \<Rightarrow> bool" where
  "terminalError line \<longleftrightarrow>
     line \<in> {''ERROR'', ''NO CARRIER'', ''NO DIALTONE'', ''BUSY'', ''NO ANSWER''} \<or>
     starts_with line ''+CME ERROR:'' \<or> starts_with line ''+CMS ERROR:''"

fun readResponse :: "string \<Rightarrow> string \<Rightarrow> string list \<Rightarrow> (string + string) \<times> string list" where
  "readResponse command sb [] = (Inl ''i/o timeout'', [])"
| "readResponse command sb (l # ls) =
     (let line = trim_space l in
      if line = [] \<or> line = command then readResponse command sb ls
      else if line = ''OK'' then (Inr (trim_space sb), ls)
      else if terminalError line then (Inl line, ls)
      else readResponse command (sb @ line @ [CHR 0x0A]) ls)"

record 's atPort =
  atPending :: "string list"
  atState :: 's

type_synonym 's atDevice = "string \<Rightarrow> 's \<Rightarrow> string option \<times> string list \<times> 's"

definition atRun :: "'s atDevice \<Rightarrow> string \<Rightarrow> 's atPort \<Rightarrow> (string + string) \<times> 's atPort" where
  "atRun dev command p =
     (case dev command (atState p) of
        (Some e, lines, s) \<Rightarrow> (Inl e, p\<lparr>atPending := atPending p @ lines, atState := s\<rparr>)
      | (None, lines, s) \<Rightarrow>
          (case readResponse command [] (atPending p @ lines) of
             (r, rest) \<Rightarrow> (r, p\<lparr>atPending := rest, atState := s\<rparr>)))"

definition atSupport :: "'s atDevice \<Rightarrow> string \<Rightarrow> 's atPort \<Rightarrow> bool \<times> 's atPort" where
  "atSupport dev command p = (case atRun dev command p of (r, p) \<Rightarrow> (\<not> isl r, p))"

section \<open>AT+CRSM\<close>

definition CRSMGetResponse :: nat where "CRSMGetResponse = 0xC0"
definition CRSMUpdateRecord :: nat where "CRSMUpdateRecord = 0xDC"

record CRSMCommand =
  crsmInstruction :: nat
  crsmFileID :: nat
  crsmP1 :: nat
  crsmP2 :: nat
  crsmData :: "byte list"

definition crsmBytes :: "CRSMCommand \<Rightarrow> string" where
  "crsmBytes c =
     decimal (crsmInstruction c) @ '','' @ decimal (crsmFileID c) @ '','' @ decimal (crsmP1 c) @ '','' @ decimal (crsmP2 c) @
     '','' @ decimal (length (crsmData c)) @ '','' @ [CHR 0x22] @ hex_upper (crsmData c) @ [CHR 0x22]"

datatype atError =
    PortError string | UnexpectedResponse string | BadNumber string | BadStatus int int | BadHex string
  | EmptyData | LengthMismatch | UnexpectedStatus "byte list"

definition crsmSW :: "string \<Rightarrow> atError + byte list" where
  "crsmSW response =
     (case after ''+CRSM:'' response of
        None \<Rightarrow> Inl (UnexpectedResponse response)
      | Some rest \<Rightarrow>
          (case split_comma (trim_space rest) of
             None \<Rightarrow> Inl (UnexpectedResponse response)
           | Some (part0, rest) \<Rightarrow>
               (case split_comma rest of
                  None \<Rightarrow> Inl (UnexpectedResponse response)
                | Some (part1, part2) \<Rightarrow>
                    (case (atoi (trim_space part0), atoi (trim_space part1)) of
                       (None, _) \<Rightarrow> Inl (BadNumber ''sw1'')
                     | (_, None) \<Rightarrow> Inl (BadNumber ''sw2'')
                     | (Some sw1, Some sw2) \<Rightarrow>
                         if sw1 \<noteq> 144 \<or> sw2 \<noteq> 0 then Inl (BadStatus sw1 sw2)
                         else
                           let data = trim_quotes (trim_space part2) in
                           if data = [] then Inr []
                           else case hex_decode data of None \<Rightarrow> Inl (BadHex data) | Some bs \<Rightarrow> Inr bs))))"

definition crsmRun :: "'s atDevice \<Rightarrow> string \<Rightarrow> 's atPort \<Rightarrow> (atError + byte list) \<times> 's atPort" where
  "crsmRun dev command p =
     (case atRun dev (''AT+CRSM='' @ command) p of
        (Inl e, p) \<Rightarrow> (Inl (PortError e), p)
      | (Inr response, p) \<Rightarrow> (crsmSW response, p))"

section \<open>AT+CSIM\<close>

definition csimSW :: "string \<Rightarrow> atError + byte list" where
  "csimSW response =
     (case after ''+CSIM:'' response of
        None \<Rightarrow> Inl (UnexpectedResponse response)
      | Some rest \<Rightarrow>
          (case split_comma (trim_space rest) of
             None \<Rightarrow> Inl (UnexpectedResponse response)
           | Some (part0, part1) \<Rightarrow>
               (case atoi (trim_space part0) of
                  None \<Rightarrow> Inl (BadNumber ''length'')
                | Some size' \<Rightarrow>
                    let data = trim_quotes (trim_space part1) in
                    if data = [] then Inl EmptyData
                    else if int (length data) \<noteq> size' then Inl LengthMismatch
                    else case hex_decode data of None \<Rightarrow> Inl (BadHex data) | Some bs \<Rightarrow> Inr bs)))"

text \<open>The quotes of \<open>%q\<close>: hexadecimal digits need no escape.\<close>

definition csimText :: "byte list \<Rightarrow> string" where
  "csimText command =
     (let cmd = hex_upper command in ''AT+CSIM='' @ decimal (length cmd) @ '','' @ [CHR 0x22] @ cmd @ [CHR 0x22])"

definition csimRunRaw :: "'s atDevice \<Rightarrow> byte list \<Rightarrow> 's atPort \<Rightarrow> (atError + byte list) \<times> 's atPort" where
  "csimRunRaw dev command p =
     (case atRun dev (csimText command) p of
        (Inl e, p) \<Rightarrow> (Inl (PortError e), p)
      | (Inr response, p) \<Rightarrow> (csimSW response, p))"

text \<open>\<open>raw\<close> is \<open>runRaw\<close>. A card may announce more data for ever: the loop has fuel, \<open>None\<close> is a loop that goes on.\<close>

fun csimRead :: "nat \<Rightarrow> (byte list \<Rightarrow> 'p \<Rightarrow> (atError + byte list) \<times> 'p) \<Rightarrow> byte \<Rightarrow> byte list \<Rightarrow> 'p \<Rightarrow>
   ((atError + byte list) \<times> 'p) option" where
  "csimRead 0 raw len data p = None"
| "csimRead (Suc fuel) raw len data p =
     (case raw [0x00, 0xC0, 0x00, 0x00, len] p of
        (Inl e, p) \<Rightarrow> Some (Inl e, p)
      | (Inr b, p) \<Rightarrow>
          if length b < 2 then Some (Inl (UnexpectedStatus b), p)
          else
            let data = data @ take (length b - 2) b; sw1 = b ! (length b - 2) in
            if sw1 = 0x90 then Some (Inr data, p)
            else if sw1 \<noteq> 0x61 then Some (Inl (UnexpectedStatus b), p)
            else csimRead fuel raw (last b) data p)"

definition csimRun :: "nat \<Rightarrow> 's atDevice \<Rightarrow> byte list \<Rightarrow> 's atPort \<Rightarrow> ((atError + byte list) \<times> 's atPort) option" where
  "csimRun fuel dev command p =
     (case csimRunRaw dev command p of
        (Inl e, p) \<Rightarrow> Some (Inl e, p)
      | (Inr sw, p) \<Rightarrow>
          if length sw < 2 then Some (Inl (UnexpectedStatus sw), p)
          else if sw ! (length sw - 2) = 0x61 then csimRead fuel (csimRunRaw dev) (last sw) [] p
          else if sw ! (length sw - 2) = 0x90 then Some (Inr sw, p)
          else Some (Inl (UnexpectedStatus sw), p))"


section \<open>Reading back what was printed\<close>

lemma hex_value_upper: "n < 16 \<Longrightarrow> hex_value (hex_upper_digit n) = Some n"
  by (simp add: hex_value_def hex_upper_digit_def Let_def)

lemma byte_nibbles: "of_nat (16 * (unat b div 16) + unat b mod 16) = (b :: byte)"
  by (simp add: mult.commute)

lemma hex_decode_upper: "hex_decode (hex_upper bs) = Some bs"
  by (induction bs) (simp_all add: hex_upper_def hex_value_upper unat_byte_bounds byte_nibbles del: of_nat_add of_nat_mult)

lemma hex_upper_length: "length (hex_upper bs) = 2 * length bs"
  by (induction bs) (simp_all add: hex_upper_def)

lemma hex_upper_digits: "c \<in> set (hex_upper bs) \<Longrightarrow> hex_value c \<noteq> None"
  by (auto simp: hex_upper_def hex_value_upper unat_byte_bounds)

lemma hex_value_graphic: "hex_value c \<noteq> None \<Longrightarrow> graphic c \<and> c \<noteq> CHR 0x22"
  by (auto simp: hex_value_def graphic_def Let_def split: if_splits)

lemma atoi_decimal: "n < 2 ^ 63 \<Longrightarrow> atoi (decimal n) = Some (int n)"
proof -
  assume n: "n < 2 ^ 63"
  then have v: "int n < 2 ^ 63" by (metis of_nat_less_iff of_nat_numeral of_nat_power)
  obtain c cs where d: "decimal n = c # cs" by (metis decimal.simps list.exhaust neq_Nil_conv snoc_eq_iff_butlast)
  have "is_digit c" using decimal_digits [of n] by (simp add: d)
  then have "c \<noteq> CHR ''-''" "c \<noteq> CHR ''+''" by (auto simp: is_digit_def)
  with d v decimal_digits [of n] decimal_round_trip [of n] show ?thesis by (auto simp: atoi_def Let_def)
qed

lemma split_comma_at: "list_all (\<lambda>c. c \<noteq> CHR '','') a \<Longrightarrow> split_comma (a @ CHR '','' # b) = Some (a, b)"
  by (simp add: split_comma_def list_all_iff dropWhile_append takeWhile_append)

lemma digits_no_comma: "list_all is_digit s \<Longrightarrow> list_all (\<lambda>c. c \<noteq> CHR '','') s"
  by (auto simp: list_all_iff is_digit_def)

lemma trim_quotes_quoted: "CHR 0x22 \<notin> set s \<Longrightarrow> trim_quotes (CHR 0x22 # s @ [CHR 0x22]) = s"
proof -
  assume q: "CHR 0x22 \<notin> set s"
  have front: "dropWhile (\<lambda>c. c = CHR 0x22) (xs @ ys) = xs @ ys" if "CHR 0x22 \<notin> set xs" "xs \<noteq> []" for xs ys :: string
    using that by (cases xs) auto
  show ?thesis
  proof (cases "s = []")
    case False
    with q front [of s "[CHR 0x22]"] front [of "rev s" "[]"] show ?thesis by (simp add: trim_quotes_def)
  qed (simp add: trim_quotes_def)
qed

text \<open>A line ends with a carriage return and a line feed.\<close>

definition crlf :: string where "crlf = [CHR 0x0D, CHR 0x0A]"

lemma trim_space_line: "x \<noteq> [] \<Longrightarrow> graphic (hd x) \<Longrightarrow> graphic (last x) \<Longrightarrow> trim_space (x @ crlf) = x"
proof -
  assume x: "x \<noteq> []" "graphic (hd x)" "graphic (last x)"
  have "trim_left (x @ crlf) = x @ crlf" using x by (intro trim_left_id) simp
  moreover have "trim_right (x @ crlf) = trim_right x"
    by (simp add: trim_right_def crlf_def space_runes_def)
  ultimately show ?thesis using trim_right_id [of x] x by (simp add: trim_space_def)
qed

lemma trim_space_crlf: "trim_space crlf = []"
  by (simp add: trim_space_def trim_left_def trim_right_def crlf_def space_runes_def)

text \<open>The lines of a modem that echoes the command and answers with one line.\<close>

definition answerLines :: "string \<Rightarrow> string \<Rightarrow> string list" where
  "answerLines command response = [command @ crlf, crlf, response @ crlf, crlf, ''OK'' @ crlf]"

definition plainLine :: "string \<Rightarrow> bool" where
  "plainLine l \<longleftrightarrow> l \<noteq> [] \<and> graphic (hd l) \<and> graphic (last l)"

lemma readResponse_answer:
  assumes "plainLine command" and "plainLine response" and "response \<noteq> command" and "response \<noteq> ''OK''" and "\<not> terminalError response"
    and "command \<noteq> ''OK''"
  shows "readResponse command [] (answerLines command response @ rest) = (Inr response, rest)"
proof -
  have ok: "trim_space (''OK'' @ crlf) = ''OK''" by (rule trim_space_line) (simp_all add: graphic_def)
  have "trim_space (response @ [CHR 0x0A]) = response"
  proof -
    have "trim_left (response @ [CHR 0x0A]) = response @ [CHR 0x0A]" using assms(2) by (intro trim_left_id) (simp add: plainLine_def)
    moreover have "trim_right (response @ [CHR 0x0A]) = trim_right response" by (simp add: trim_right_def space_runes_def)
    ultimately show ?thesis using assms(2) trim_right_id [of response] by (simp add: trim_space_def plainLine_def)
  qed
  then show ?thesis
    using assms by (simp add: answerLines_def plainLine_def trim_space_line trim_space_crlf ok [simplified] Let_def)
qed

lemma trim_space_blank: "trim_space (CHR '' '' # s) = trim_space s"
  by (simp add: trim_space_def trim_left_def space_runes_def)

lemma after_start: "after sub (sub @ s) = Some s"
  by (subst after.simps) (simp add: starts_with_def)

lemma decimal_plain: "decimal n \<noteq> [] \<and> graphic (hd (decimal n))" and decimal_trim: "trim_space (decimal n) = decimal n"
proof -
  have "list_all graphic (decimal n)" using decimal_digits [of n] is_digit_graphic by (auto simp: list_all_iff)
  moreover have "decimal n \<noteq> []" by (subst decimal.simps) simp
  ultimately show "decimal n \<noteq> [] \<and> graphic (hd (decimal n))" "trim_space (decimal n) = decimal n"
    by (auto simp: trim_space_graphic list_all_iff)
qed

lemma hex_no_quote: "CHR 0x22 \<notin> set (hex_upper bs)"
  using hex_upper_digits hex_value_graphic by blast

text \<open>What a modem prints for \<open>AT+CSIM\<close> and \<open>AT+CRSM\<close>.\<close>

definition csimLine :: "byte list \<Rightarrow> string" where
  "csimLine bs = ''+CSIM: '' @ decimal (2 * length bs) @ '','' @ [CHR 0x22] @ hex_upper bs @ [CHR 0x22]"

definition crsmLine :: "byte list \<Rightarrow> string" where
  "crsmLine bs = ''+CRSM: 144,0,'' @ [CHR 0x22] @ hex_upper bs @ [CHR 0x22]"

lemma csimSW_printed: "bs \<noteq> [] \<Longrightarrow> 2 * length bs < 2 ^ 63 \<Longrightarrow> csimSW (csimLine bs) = Inr bs"
proof -
  assume bs: "bs \<noteq> []" and len: "2 * length bs < 2 ^ 63"
  let ?d = "decimal (2 * length bs)" and ?q = "CHR 0x22 # hex_upper bs @ [CHR 0x22]"
  have split: "split_comma (?d @ CHR '','' # ?q) = Some (?d, ?q)"
    by (rule split_comma_at) (rule digits_no_comma, rule decimal_digits)
  have trim: "trim_space (?d @ CHR '','' # ?q) = ?d @ CHR '','' # ?q" "trim_space ?q = ?q"
    using decimal_plain [of "2 * length bs"] by (simp_all add: trim_space_id graphic_def)
  have "hex_upper bs \<noteq> []" using bs hex_upper_length [of bs] by auto
  moreover have "after ''+CSIM:'' (csimLine bs) = Some (CHR '' '' # ?d @ CHR '','' # ?q)"
    using after_start [of "''+CSIM:''" "CHR '' '' # ?d @ CHR '','' # ?q"] by (simp add: csimLine_def)
  ultimately show ?thesis
    using trim split len atoi_decimal [OF len]
    by (simp add: csimSW_def trim_space_blank decimal_trim trim_quotes_quoted hex_no_quote hex_upper_length hex_decode_upper)
qed

lemma crsmSW_printed: "crsmSW (crsmLine bs) = Inr bs"
proof -
  let ?q = "CHR 0x22 # hex_upper bs @ [CHR 0x22]"
  have a: "after ''+CRSM:'' (crsmLine bs) = Some (CHR '' '' # ''144,0,'' @ ?q)"
    using after_start [of "''+CRSM:''" "CHR '' '' # ''144,0,'' @ ?q"] by (simp add: crsmLine_def)
  have trim: "trim_space (''144,0,'' @ ?q) = ''144,0,'' @ ?q" "trim_space ?q = ?q" "trim_space ''144'' = ''144''" "trim_space ''0'' = ''0''"
    by (rule trim_space_id; simp add: graphic_def)+
  have split: "split_comma (''144'' @ CHR '','' # ''0,'' @ ?q) = Some (''144'', ''0,'' @ ?q)"
    "split_comma (''0'' @ CHR '','' # ?q) = Some (''0'', ?q)"
    by (rule split_comma_at, simp)+
  have num: "atoi ''144'' = Some 144" "atoi ''0'' = Some 0" by code_simp+
  have "[] = bs" if "hex_upper bs = []" using hex_upper_length [of bs] that by simp
  then show ?thesis
    using trim [simplified] split [simplified] num
    by (simp add: crsmSW_def a [simplified] Let_def trim_space_blank trim_quotes_quoted hex_no_quote hex_decode_upper)
qed

text \<open>The texts that are sent and received are plain lines.\<close>

lemma csimLine_plain: "plainLine (csimLine bs)" "\<not> terminalError (csimLine bs)" "csimLine bs \<noteq> ''OK''" "csimLine bs \<noteq> csimText c"
  by (simp_all add: plainLine_def csimLine_def csimText_def terminalError_def graphic_def Let_def)

lemma csimText_plain: "plainLine (csimText c)" "csimText c \<noteq> ''OK''"
  by (simp_all add: plainLine_def csimText_def graphic_def Let_def)

text \<open>
  What the card answers is what the caller gets: when the modem echoes the command, prints the answer of the card in the
  format of \<open>AT+CSIM\<close> and ends with OK, the bytes that come back are those of the card and nothing is left in the
  buffer; hence the length check, the quotes, the case of the digits and the blank lines between are all read as they are printed.
\<close>
theorem csim_answer_read_back:
  assumes "dev (csimText command) s = (None, answerLines (csimText command) (csimLine bs), s')" and "bs \<noteq> []" and "2 * length bs < 2 ^ 63"
  shows "csimRunRaw dev command \<lparr>atPending = [], atState = s\<rparr> = (Inr bs, \<lparr>atPending = [], atState = s'\<rparr>)"
  using readResponse_answer [of "csimText command" "csimLine bs" "[]"] csimLine_plain [of bs] csimText_plain [of command] assms
  by (simp add: csimRunRaw_def atRun_def csimSW_printed)

theorem csim_answer_read_back_witness:
  "csimRunRaw (\<lambda>c (s :: unit). (None, answerLines c (csimLine [0x90, 0]), s)) [0x00, 0xA4] \<lparr>atPending = [], atState = ()\<rparr> =
     (Inr [0x90, 0], \<lparr>atPending = [], atState = ()\<rparr>)"
  by (rule csim_answer_read_back) simp_all

section \<open>Answers in several parts\<close>

text \<open>
  The card gives its answer in parts: each but the last ends with the status \<open>61 xx\<close>, which announces the length of
  the next, the last one with \<open>90 xx\<close>.
\<close>

fun givesParts :: "(byte list \<Rightarrow> 'p \<Rightarrow> (atError + byte list) \<times> 'p) \<Rightarrow> byte \<Rightarrow> byte list list \<Rightarrow> 'p \<Rightarrow> 'p \<Rightarrow> bool" where
  "givesParts raw len [] p p' = False"
| "givesParts raw len [part] p p' = (\<exists>x. raw [0x00, 0xC0, 0x00, 0x00, len] p = (Inr (part @ [0x90, x]), p'))"
| "givesParts raw len (part # parts) p p' =
     (\<exists>next p1. raw [0x00, 0xC0, 0x00, 0x00, len] p = (Inr (part @ [0x61, next]), p1) \<and> givesParts raw next parts p1 p')"

lemma csimRead_parts:
  "givesParts raw len parts p p' \<Longrightarrow> length parts \<le> fuel \<Longrightarrow> csimRead fuel raw len data p = Some (Inr (data @ concat parts), p')"
proof (induction raw len parts p p' arbitrary: fuel data rule: givesParts.induct)
  case (2 raw len part p p')
  then obtain n where "fuel = Suc n" by (cases fuel) auto
  with 2 show ?case by (auto simp: nth_append)
next
  case (3 raw len part part' parts p p')
  then obtain n where n: "fuel = Suc n" by (cases fuel) auto
  from 3(2) obtain l p1 where r: "raw [0x00, 0xC0, 0x00, 0x00, len] p = (Inr (part @ [0x61, l]), p1)" and g: "givesParts raw l (part' # parts) p1 p'"
    by auto
  from 3(1) [OF g, of n "data @ part"] 3(3) n r show ?case by (simp add: nth_append)
qed simp

text \<open>
  The loop that fetches a long answer ends and returns all of it: when the card gives the answer in parts, as many rounds as
  there are parts suffice, and the result is the parts in their order without their status bytes, whatever their lengths.
\<close>
theorem csim_collects_answer:
  assumes "csimRunRaw dev command p = (Inr (first @ [0x61, len]), p1)" and "givesParts (csimRunRaw dev) len parts p1 p'"
  shows "csimRun (length parts) dev command p = Some (Inr (concat parts), p')"
  using csimRead_parts [OF assms(2) order_refl, of "[]"] assms(1) by (simp add: csimRun_def nth_append)

text \<open>A card that answers every command by the next of a list of answers.\<close>

definition scripted :: "byte list list atDevice" where
  "scripted command answers = (None, answerLines command (csimLine (hd answers)), tl answers)"

theorem csim_collects_answer_witness:
  "csimRun 2 scripted [0x00, 0xA4] \<lparr>atPending = [], atState = [[0x61, 3], [1, 2, 3, 0x61, 1], [4, 0x90, 0]]\<rparr> =
     Some (Inr [1, 2, 3, 4], \<lparr>atPending = [], atState = []\<rparr>)"
proof -
  have raw: "csimRunRaw scripted c \<lparr>atPending = [], atState = a # as\<rparr> = (Inr a, \<lparr>atPending = [], atState = as\<rparr>)"
    if "a \<noteq> []" "length a < 10" for c a as
    using readResponse_answer [of "csimText c" "csimLine a" "[]"] csimLine_plain [of a] csimText_plain [of c] that
    by (simp add: csimRunRaw_def atRun_def csimSW_printed scripted_def)
  have "givesParts (csimRunRaw scripted) 3 [[1, 2, 3], [4]] \<lparr>atPending = [], atState = [[1, 2, 3, 0x61, 1], [4, 0x90, 0]]\<rparr>
     \<lparr>atPending = [], atState = []\<rparr>"
    by (simp add: raw)
  moreover have "csimRunRaw scripted [0x00, 0xA4] \<lparr>atPending = [], atState = [[0x61, 3], [1, 2, 3, 0x61, 1], [4, 0x90, 0]]\<rparr> =
      (Inr ([] @ [0x61, 3]), \<lparr>atPending = [], atState = [[1, 2, 3, 0x61, 1], [4, 0x90, 0]]\<rparr>)"
    by (simp add: raw)
  ultimately show ?thesis
    using csim_collects_answer [of scripted "[0x00, 0xA4]" _ "[]" 3 _ "[[1, 2, 3], [4]]" "\<lparr>atPending = [], atState = []\<rparr>"]
    by (simp add: numeral_2_eq_2)
qed

section \<open>Late answers\<close>

text \<open>
  Lines that are still in the buffer are taken for the answer of the next command: after a timeout the late \<open>OK\<close> of one
  command makes the next one succeed, whatever the modem says to it.
\<close>
theorem late_answer_taken:
  assumes "dev command (atState p) = (None, lines, s)" and "atPending p = [''OK'' @ crlf]" and "command \<noteq> ''OK''"
  shows "fst (atRun dev command p) = Inr []"
proof -
  have "trim_space (''OK'' @ crlf) = ''OK''" by (rule trim_space_line) (simp_all add: graphic_def)
  with assms show ?thesis by (simp add: atRun_def Let_def)
qed

end
