(* ===== verification/Msisdn.thy ===== *)
theory Msisdn
  imports AtCommands
begin

text \<open>
  The update of the subscriber number on the SIM card (\<open>internal/pkg/modem/msisdn\<close>): the record of the file
  \<open>6F40\<close> is built from a name and a number and written by \<open>AT+CRSM\<close> or \<open>AT+CSIM\<close>, whichever the modem supports. The
  card is a device of \<open>AtCommands\<close>; the round trip is stated against a reader of the record that is not part of the code.
\<close>

unbundle bit_operations_syntax

section \<open>The encoding\<close>

text \<open>The regular expression: an optional plus sign and one to fifteen digits.\<close>

definition phoneMatches :: "string \<Rightarrow> bool" where
  "phoneMatches number =
     (let ds = (case number of c # cs \<Rightarrow> if c = CHR ''+'' then cs else number | [] \<Rightarrow> [])
      in 1 \<le> length ds \<and> length ds \<le> 15 \<and> list_all is_digit ds)"

definition trimPlus :: "string \<Rightarrow> string" where
  "trimPlus number = (case number of c # cs \<Rightarrow> if c = CHR ''+'' then cs else number | [] \<Rightarrow> [])"

datatype msisdnError =
    InvalidPhone | InvalidValue | NameTooLong | UnexpectedRecord "byte list" | Unsupported | RunnerError atError | RunnerStuck

definition encodeBCD :: "string \<Rightarrow> msisdnError + byte list" where
  "encodeBCD v =
     (if list_ex (\<lambda>r. \<not> is_digit r \<and> r \<noteq> CHR ''f'' \<and> r \<noteq> CHR ''F'') v then Inl InvalidValue
      else case hex_decode (if odd (length v) then v @ ''F'' else v) of
          None \<Rightarrow> Inl InvalidValue
        | Some bs \<Rightarrow> Inr (map (\<lambda>b. or (drop_bit 4 b) (push_bit 4 b)) bs))"

definition padRight :: "byte list \<Rightarrow> int \<Rightarrow> byte list" where
  "padRight v n = (if int (length v) \<ge> n then v else v @ replicate (nat n - length v) 0xFF)"

text \<open>The elements of the answer: a tag, a length and the contents.\<close>

function findTagLoop :: "byte list \<Rightarrow> byte \<Rightarrow> byte list option" where
  "findTagLoop bs tag =
     (if length bs < 2 then None
      else
        let n = unat (bs ! 1) in
        if length bs < 2 + n then None
        else if bs ! 0 = tag then Some (take (2 + n) bs)
        else findTagLoop (drop (2 + n) bs) tag)"
  by pat_completeness auto
termination by (relation "measure (length \<circ> fst)") auto

declare findTagLoop.simps [simp del]

definition findTag :: "byte list \<Rightarrow> byte \<Rightarrow> byte list option" where
  "findTag bs tag = (if length bs < 2 then None else findTagLoop (drop 2 bs) tag)"

section \<open>The commands\<close>

datatype msisdnRunner = RunnerCRSM | RunnerCSIM

definition crsmSelectCommand :: CRSMCommand where
  "crsmSelectCommand = \<lparr>crsmInstruction = CRSMGetResponse, crsmFileID = 0x6F40, crsmP1 = 0, crsmP2 = 0, crsmData = []\<rparr>"

definition crsmUpdateCommand :: "byte list \<Rightarrow> CRSMCommand" where
  "crsmUpdateCommand data =
     \<lparr>crsmInstruction = CRSMUpdateRecord, crsmFileID = 0x6F40, crsmP1 = 1, crsmP2 = 4, crsmData = data\<rparr>"

definition csimSelectCommand :: "byte list" where
  "csimSelectCommand = [0x00, 0xA4, 0x08, 0x04, 0x04, 0x7F, 0xFF, 0x6F, 0x40]"

definition csimUpdateCommand :: "byte list \<Rightarrow> byte list" where
  "csimUpdateCommand data = [0x00, 0xDC, 0x01, 0x04, of_nat (length data)] @ data"

text \<open>A runner whose reading does not end within the fuel is \<open>RunnerStuck\<close>.\<close>

definition fromCsim :: "((atError + 'a) \<times> 'p) option \<Rightarrow> 'p \<Rightarrow> (msisdnError + 'a) \<times> 'p" where
  "fromCsim r p = (case r of None \<Rightarrow> (Inl RunnerStuck, p) | Some (x, p) \<Rightarrow> (map_sum RunnerError id x, p))"

definition runnerSelect :: "nat \<Rightarrow> 's atDevice \<Rightarrow> msisdnRunner \<Rightarrow> 's atPort \<Rightarrow> (msisdnError + byte list) \<times> 's atPort" where
  "runnerSelect fuel dev r p =
     (case r of
        RunnerCRSM \<Rightarrow> (case crsmRun dev (crsmBytes crsmSelectCommand) p of (x, p) \<Rightarrow> (map_sum RunnerError id x, p))
      | RunnerCSIM \<Rightarrow> fromCsim (csimRun fuel dev csimSelectCommand p) p)"

definition runnerRun :: "nat \<Rightarrow> 's atDevice \<Rightarrow> msisdnRunner \<Rightarrow> byte list \<Rightarrow> 's atPort \<Rightarrow> (msisdnError + unit) \<times> 's atPort" where
  "runnerRun fuel dev r data p =
     (case r of
        RunnerCRSM \<Rightarrow> (case crsmRun dev (crsmBytes (crsmUpdateCommand data)) p of (x, p) \<Rightarrow> (map_sum RunnerError (\<lambda>_. ()) x, p))
      | RunnerCSIM \<Rightarrow>
          (case fromCsim (csimRun fuel dev (csimUpdateCommand data) p) p of (x, p) \<Rightarrow> (map_sum id (\<lambda>_. ()) x, p)))"

definition selectRunner :: "'s atDevice \<Rightarrow> 's atPort \<Rightarrow> (msisdnError + msisdnRunner) \<times> 's atPort" where
  "selectRunner dev p =
     (case atSupport dev ''AT+CRSM=?'' p of
        (True, p) \<Rightarrow> (Inr RunnerCRSM, p)
      | (False, p) \<Rightarrow>
          (case atSupport dev ''AT+CSIM=?'' p of
             (True, p) \<Rightarrow> (Inr RunnerCSIM, p)
           | (False, p) \<Rightarrow> (Inl Unsupported, p)))"

section \<open>The update\<close>

definition recordLength :: "byte list \<Rightarrow> msisdnError + nat" where
  "recordLength b =
     (case findTag b 0x82 of
        None \<Rightarrow> Inl (UnexpectedRecord b)
      | Some data \<Rightarrow>
          if length data < 6 then Inl (UnexpectedRecord b) else Inr (256 * unat (data ! 4) + unat (data ! 5)))"

definition recordLen :: "nat \<Rightarrow> 's atDevice \<Rightarrow> msisdnRunner \<Rightarrow> 's atPort \<Rightarrow> (msisdnError + nat) \<times> 's atPort" where
  "recordLen fuel dev r p =
     (case runnerSelect fuel dev r p of (Inl e, p) \<Rightarrow> (Inl e, p) | (Inr b, p) \<Rightarrow> (recordLength b, p))"

text \<open>The record itself; \<open>name\<close> is the bytes of the string.\<close>

definition msisdnRecord :: "bool \<Rightarrow> byte list \<Rightarrow> string \<Rightarrow> nat \<Rightarrow> msisdnError + byte list" where
  "msisdnRecord hasPrefix name number n =
     (if int (length name) > int n - 14 then Inl NameTooLong
      else case encodeBCD (trimPlus number) of
          Inl e \<Rightarrow> Inl e
        | Inr nb \<Rightarrow>
            Inr (padRight name (int n - 14) @ [of_nat (length nb) + 1, if hasPrefix then 0x91 else 0x81] @ padRight nb 12))"

definition msisdnUpdate :: "nat \<Rightarrow> 's atDevice \<Rightarrow> msisdnRunner \<Rightarrow> bool \<Rightarrow> byte list \<Rightarrow> string \<Rightarrow> 's atPort \<Rightarrow>
   (msisdnError + unit) \<times> 's atPort" where
  "msisdnUpdate fuel dev r hasPrefix name number p =
     (case recordLen fuel dev r p of
        (Inl e, p) \<Rightarrow> (Inl e, p)
      | (Inr n, p) \<Rightarrow>
          (case msisdnRecord hasPrefix name number n of
             Inl e \<Rightarrow> (Inl e, p)
           | Inr data \<Rightarrow> runnerRun fuel dev r data p))"

definition msisdnUpdateNumber :: "nat \<Rightarrow> 's atDevice \<Rightarrow> msisdnRunner \<Rightarrow> byte list \<Rightarrow> string \<Rightarrow> 's atPort \<Rightarrow>
   (msisdnError + unit) \<times> 's atPort" where
  "msisdnUpdateNumber fuel dev r name number p =
     (if \<not> phoneMatches number then (Inl InvalidPhone, p)
      else msisdnUpdate fuel dev r (starts_with number ''+'') name number p)"

section \<open>Reading the record\<close>

text \<open>
  The record as the card's specification lays it out: the name padded with \<open>FF\<close>, the length of the number with its type, the type,
  ten bytes of digits of which the low half of a byte comes first, and two identifiers. \<open>F\<close> ends the digits.
\<close>

definition nibbles :: "byte list \<Rightarrow> nat list" where
  "nibbles bs = concat (map (\<lambda>b. [unat b mod 16, unat b div 16]) bs)"

definition readNumber :: "byte \<Rightarrow> byte list \<Rightarrow> string" where
  "readNumber ton bcd =
     (if ton = 0x91 then ''+'' else []) @ map (\<lambda>n. char_of (48 + n)) (takeWhile (\<lambda>n. n < 10) (nibbles bcd))"

definition readRecord :: "byte list \<Rightarrow> byte list \<times> string" where
  "readRecord r =
     (let k = length r - 14 in
      (takeWhile (\<lambda>b. b \<noteq> 0xFF) (take k r), readNumber (r ! (k + 1)) (take (unat (r ! k) - 1) (drop (k + 2) r))))"

lemma swap_low: "take_bit 4 (or (drop_bit 4 b) (push_bit 4 b)) = drop_bit 4 (b :: byte)"
  and swap_high: "drop_bit 4 (or (drop_bit 4 b) (push_bit 4 b)) = take_bit 4 (b :: byte)"
  by (rule bit_word_eqI, auto simp: bit_simps dest: bit_imp_le_length)+

lemma unat_low: "unat (take_bit 4 (b :: byte)) = unat b mod 16"
  and unat_high: "unat (drop_bit 4 (b :: byte)) = unat b div 16"
  by (simp_all add: take_bit_eq_mod drop_bit_eq_div unat_mod unat_div)

lemma nibbles_swap: "nibbles (map (\<lambda>b. or (drop_bit 4 b) (push_bit 4 b)) bs) = concat (map (\<lambda>b. [unat b div 16, unat b mod 16]) bs)"
proof -
  have "unat (or (drop_bit 4 b) (push_bit 4 b)) mod 16 = unat b div 16" "unat (or (drop_bit 4 b) (push_bit 4 b)) div 16 = unat b mod 16"
    for b :: byte
    using arg_cong [OF swap_low [of b], of unat] arg_cong [OF swap_high [of b], of unat] unfolding unat_low unat_high by simp_all
  then show ?thesis by (simp add: nibbles_def comp_def)
qed

text \<open>Decoding an even number of digits gives their values, two to a byte.\<close>

lemma unat_of_nat_byte: "n < 256 \<Longrightarrow> unat (of_nat n :: byte) = n"
  by (simp add: unsigned_of_nat take_bit_eq_mod)

lemma hex_value_bound: "hex_value c = Some n \<Longrightarrow> n < 16"
  by (auto simp: hex_value_def Let_def split: if_splits)

lemma hex_decode_values:
  "even (length v) \<Longrightarrow> list_all (\<lambda>c. hex_value c \<noteq> None) v \<Longrightarrow>
   \<exists>bs. hex_decode v = Some bs \<and> 2 * length bs = length v \<and>
     concat (map (\<lambda>b. [unat b div 16, unat b mod 16]) bs) = map (the \<circ> hex_value) v"
proof (induction v rule: hex_decode.induct)
  case (3 a b s)
  then obtain x y where xy: "hex_value a = Some x" "hex_value b = Some y" by auto
  from xy have "x < 16" "y < 16" using hex_value_bound by auto
  then have u: "unat (of_nat (16 * x + y) :: byte) = 16 * x + y" by (intro unat_of_nat_byte) simp
  from 3(2,3) have "even (length s)" "list_all (\<lambda>c. hex_value c \<noteq> None) s" by simp_all
  with 3(1) [OF refl xy(1) xy(2)] obtain bs where "hex_decode s = Some bs" "2 * length bs = length s"
    "concat (map (\<lambda>b. [unat b div 16, unat b mod 16]) bs) = map (the \<circ> hex_value) s"
    by blast
  with xy u \<open>y < 16\<close> show ?case by (simp del: of_nat_add of_nat_mult)
qed simp_all

lemma hex_value_digit: "is_digit c \<Longrightarrow> hex_value c = Some (digit_value c)"
  by (auto simp: is_digit_def hex_value_def digit_value_def Let_def)

lemma encodeBCD_digits:
  assumes "list_all is_digit v"
  obtains nb where "encodeBCD v = Inr nb" "nibbles nb = map digit_value v @ (if odd (length v) then [15] else [])"
    "length nb = (length v + 1) div 2"
proof -
  let ?v = "if odd (length v) then v @ ''F'' else v"
  have f: "hex_value CHR ''F'' = Some 15" by code_simp
  have "list_all (\<lambda>c. hex_value c \<noteq> None) ?v" using assms hex_value_digit f by (auto simp: list_all_iff)
  moreover have "even (length ?v)" by simp
  ultimately obtain bs where bs: "hex_decode ?v = Some bs" "2 * length bs = length ?v"
      "concat (map (\<lambda>b. [unat b div 16, unat b mod 16]) bs) = map (the \<circ> hex_value) ?v"
    using hex_decode_values by blast
  have "map (the \<circ> hex_value) v = map digit_value v" using assms hex_value_digit by (auto simp: list_all_iff)
  then have "map (the \<circ> hex_value) ?v = map digit_value v @ (if odd (length v) then [15] else [])" using f by auto
  with bs have "nibbles (map (\<lambda>b. or (drop_bit 4 b) (push_bit 4 b)) bs) = map digit_value v @ (if odd (length v) then [15] else [])"
    unfolding nibbles_swap by simp
  moreover have "length bs = (length v + 1) div 2" using bs(2) by (auto split: if_splits)
  moreover have "encodeBCD v = Inr (map (\<lambda>b. or (drop_bit 4 b) (push_bit 4 b)) bs)"
    using bs(1) assms by (auto simp: encodeBCD_def list_ex_iff list_all_iff)
  ultimately show ?thesis using that by simp
qed

lemma digits_back: "list_all is_digit v \<Longrightarrow> map (\<lambda>n. char_of (48 + n)) (map digit_value v) = v"
  by (induction v) (auto simp: is_digit_def digit_value_def)

lemma digits_taken:
  "list_all is_digit v \<Longrightarrow> takeWhile (\<lambda>n. n < 10) (map digit_value v @ (if c then [15] else [])) = map digit_value v"
  by (induction v) (auto simp: is_digit_def digit_value_def)

lemma padRight_longer: "int (length v) \<le> n \<Longrightarrow> padRight v n = v @ replicate (nat n - length v) 0xFF"
  by (auto simp: padRight_def)

text \<open>The record of a matching number can be built and read back.\<close>

lemma record_read_back:
  assumes "phoneMatches number" and "0xFF \<notin> set name" and "length name + 14 \<le> n"
  obtains r where "msisdnRecord (starts_with number ''+'') name number n = Inr r" "length r = n" "readRecord r = (name, number)"
proof -
  let ?v = "trimPlus number" and ?ton = "if starts_with number ''+'' then 0x91 else 0x81 :: byte"
  have v: "list_all is_digit ?v" "length ?v \<le> 15"
    using assms(1) by (auto simp: phoneMatches_def trimPlus_def Let_def split: list.splits if_splits)
  have number: "number = (if ?ton = 0x91 then ''+'' else []) @ ?v"
    by (cases number) (auto simp: trimPlus_def starts_with_def)
  obtain nb where nb: "encodeBCD ?v = Inr nb" "nibbles nb = map digit_value ?v @ (if odd (length ?v) then [15] else [])"
      "length nb = (length ?v + 1) div 2"
    by (rule encodeBCD_digits [OF v(1)])
  have len: "length nb \<le> 8" using nb(3) v(2) by simp
  let ?k = "n - 14"
  define alpha where "alpha = name @ replicate (?k - length name) (0xFF :: byte)"
  define r where "r = alpha @ [of_nat (length nb) + 1, ?ton] @ nb @ replicate (12 - length nb) 0xFF"
  have "padRight name (int n - 14) = alpha"
    using assms(3) by (subst padRight_longer) (simp_all add: alpha_def nat_diff_distrib)
  moreover have "padRight nb 12 = nb @ replicate (12 - length nb) 0xFF" using len by (subst padRight_longer) simp_all
  ultimately have rec: "msisdnRecord (starts_with number ''+'') name number n = Inr r"
    using assms(3) nb(1) by (simp add: msisdnRecord_def r_def)
  have alpha: "length alpha = ?k" using assms(3) by (simp add: alpha_def)
  then have r: "length r = n" using len assms(3) by (simp add: r_def)
  have "unat (of_nat (length nb) + 1 :: byte) = length nb + 1"
    using len unat_of_nat_byte [of "length nb + 1"] by (simp add: add.commute)
  moreover have "takeWhile (\<lambda>b. b \<noteq> 0xFF) alpha = name" using assms(2) by (auto simp: alpha_def takeWhile_append takeWhile_replicate)
  moreover have "readNumber ?ton nb = number"
    by (subst (2) number) (simp add: readNumber_def nb(2) digits_taken v(1) digits_back del: map_map)
  ultimately have "readRecord r = (name, number)"
    using alpha r by (simp add: readRecord_def Let_def nth_append r_def)
  with rec r show ?thesis using that by blast
qed

section \<open>The update through the modem\<close>

lemma crsmLine_plain: "plainLine (crsmLine bs)" "\<not> terminalError (crsmLine bs)" "crsmLine bs \<noteq> ''OK''"
  "crsmLine bs \<noteq> ''AT+CRSM='' @ crsmBytes c"
  by (simp_all add: plainLine_def crsmLine_def crsmBytes_def terminalError_def graphic_def)

lemma crsmText_plain: "plainLine (''AT+CRSM='' @ crsmBytes c)" "''AT+CRSM='' @ crsmBytes c \<noteq> ''OK''"
  by (simp_all add: plainLine_def crsmBytes_def graphic_def)

lemma crsmRun_answer:
  assumes "dev (''AT+CRSM='' @ crsmBytes c) s = (None, answerLines (''AT+CRSM='' @ crsmBytes c) (crsmLine bs), s')"
  shows "crsmRun dev (crsmBytes c) \<lparr>atPending = [], atState = s\<rparr> = (Inr bs, \<lparr>atPending = [], atState = s'\<rparr>)"
  using readResponse_answer [of "''AT+CRSM='' @ crsmBytes c" "crsmLine bs" "[]"] crsmLine_plain [of bs] crsmText_plain [of c] assms
  by (simp add: crsmRun_def atRun_def crsmSW_printed)

text \<open>The file description is found as well when the status of the card follows it.\<close>

lemma findTagLoop_append: "findTagLoop bs tag = Some d \<Longrightarrow> findTagLoop (bs @ z) tag = Some d"
proof (induction bs tag rule: findTagLoop.induct)
  case (1 bs tag)
  let ?n = "unat (bs ! 1)"
  have len: "\<not> length bs < 2" "\<not> length bs < 2 + ?n"
    using 1(2) by (auto simp: findTagLoop.simps [of bs] Let_def split: if_splits)
  have nth: "(bs @ z) ! 0 = bs ! 0" "(bs @ z) ! 1 = bs ! 1" using len(1) by (auto simp: nth_append)
  show ?case
  proof (cases "bs ! 0 = tag")
    case True
    with 1(2) len nth show ?thesis by (simp add: findTagLoop.simps [of bs] findTagLoop.simps [of "bs @ z"] Let_def)
  next
    case False
    with 1 len have "findTagLoop (drop (2 + ?n) bs @ z) tag = Some d" by (simp add: findTagLoop.simps [of bs] Let_def)
    with False len nth show ?thesis by (simp add: findTagLoop.simps [of "bs @ z"] Let_def)
  qed
qed

lemma recordLength_append: "recordLength fcp = Inr n \<Longrightarrow> recordLength (fcp @ z) = Inr n"
  
  by (auto simp: recordLength_def findTag_def findTagLoop_append split: option.splits if_splits)

text \<open>
  A card that describes its file: over \<open>AT+CRSM\<close> the modem prints the description; over \<open>AT+CSIM\<close> the card gives it with its status, or
  announces it and gives it in parts when it is asked.
\<close>

definition prints :: "'s atDevice \<Rightarrow> string \<Rightarrow> string \<Rightarrow> 's \<Rightarrow> 's \<Rightarrow> bool" where
  "prints dev command line s s' \<longleftrightarrow> dev command s = (None, answerLines command line, s')"

definition idlePort :: "'s \<Rightarrow> 's atPort" where
  "idlePort s = \<lparr>atPending = [], atState = s\<rparr>"

fun describesFile :: "nat \<Rightarrow> 's atDevice \<Rightarrow> msisdnRunner \<Rightarrow> byte list \<Rightarrow> 's \<Rightarrow> 's \<Rightarrow> bool" where
  "describesFile fuel dev RunnerCRSM fcp s s' \<longleftrightarrow> prints dev (''AT+CRSM='' @ crsmBytes crsmSelectCommand) (crsmLine fcp) s s'"
| "describesFile fuel dev RunnerCSIM fcp s s' \<longleftrightarrow>
     (\<exists>x. length fcp < 256 \<and> prints dev (csimText csimSelectCommand) (csimLine (fcp @ [0x90, x])) s s') \<or>
     (\<exists>len parts mid. prints dev (csimText csimSelectCommand) (csimLine [0x61, len]) s mid \<and>
        givesParts (csimRunRaw dev) len parts (idlePort mid) (idlePort s') \<and> length parts \<le> fuel \<and> concat parts = fcp)"

text \<open>
  A card that takes the update: of a command of \<open>AT+CSIM\<close> it takes as many bytes as the length byte of the command says, so that this
  byte, which wraps, has to hold the length of the record.
\<close>

definition csimRecord :: "byte list \<Rightarrow> byte list" where
  "csimRecord command = take (unat (command ! 4)) (drop 5 command)"

fun takesRecord :: "'s atDevice \<Rightarrow> msisdnRunner \<Rightarrow> nat \<Rightarrow> 's \<Rightarrow> (byte list \<Rightarrow> 's) \<Rightarrow> bool" where
  "takesRecord dev RunnerCRSM n s put \<longleftrightarrow>
     (\<forall>r. length r = n \<longrightarrow> prints dev (''AT+CRSM='' @ crsmBytes (crsmUpdateCommand r)) (crsmLine []) s (put r))"
| "takesRecord dev RunnerCSIM n s put \<longleftrightarrow>
     n < 256 \<and> (\<forall>r. length r = n \<longrightarrow> prints dev (csimText (csimUpdateCommand r)) (csimLine [0x90, 0]) s (put (csimRecord (csimUpdateCommand r))))"

lemma csimRecord_update: "length r < 256 \<Longrightarrow> csimRecord (csimUpdateCommand r) = r"
  by (simp add: csimRecord_def csimUpdateCommand_def unat_of_nat_byte)

lemma csimRecord_long: "length r = 256 \<Longrightarrow> csimRecord (csimUpdateCommand r) = []"
  by (simp add: csimRecord_def csimUpdateCommand_def)

lemma csimRunRaw_answer:
  "prints dev (csimText command) (csimLine bs) s s' \<Longrightarrow> bs \<noteq> [] \<Longrightarrow> 2 * length bs < 2 ^ 63 \<Longrightarrow>
   csimRunRaw dev command (idlePort s) = (Inr bs, idlePort s')"
  unfolding prints_def idlePort_def by (rule csim_answer_read_back)

lemma select_answered:
  assumes "describesFile fuel dev runner fcp s s'"
  shows "\<exists>z. runnerSelect fuel dev runner (idlePort s) = (Inr (fcp @ z), idlePort s')"
proof (cases runner)
  case RunnerCRSM
  with assms have "runnerSelect fuel dev runner (idlePort s) = (Inr (fcp @ []), idlePort s')"
    using crsmRun_answer [of dev crsmSelectCommand s fcp s'] by (simp add: runnerSelect_def prints_def idlePort_def)
  then show ?thesis by blast
next
  case RunnerCSIM
  with assms consider x where "length fcp < 256" "prints dev (csimText csimSelectCommand) (csimLine (fcp @ [0x90, x])) s s'"
    | len parts mid where "prints dev (csimText csimSelectCommand) (csimLine [0x61, len]) s mid"
        "givesParts (csimRunRaw dev) len parts (idlePort mid) (idlePort s')" "length parts \<le> fuel" "concat parts = fcp"
    by auto
  then show ?thesis
  proof cases
    case 1
    have "csimRunRaw dev csimSelectCommand (idlePort s) = (Inr (fcp @ [0x90, x]), idlePort s')"
      using 1 by (intro csimRunRaw_answer) simp_all
    then have "csimRun fuel dev csimSelectCommand (idlePort s) = Some (Inr (fcp @ [0x90, x]), idlePort s')"
      by (simp add: csimRun_def nth_append)
    with RunnerCSIM show ?thesis by (simp add: runnerSelect_def fromCsim_def)
  next
    case 2
    have "csimRunRaw dev csimSelectCommand (idlePort s) = (Inr [0x61, len], idlePort mid)"
      using 2(1) by (intro csimRunRaw_answer) simp_all
    then have "csimRun fuel dev csimSelectCommand (idlePort s) = Some (Inr (fcp @ []), idlePort s')"
      using csimRead_parts [OF 2(2,3), of "[]"] 2(4) by (simp add: csimRun_def)
    with RunnerCSIM show ?thesis by (simp add: runnerSelect_def fromCsim_def)
  qed
qed

lemma update_taken:
  assumes "takesRecord dev runner n s put" and "length r = n"
  shows "runnerRun fuel dev runner r (idlePort s) = (Inr (), idlePort (put r))"
proof (cases runner)
  case RunnerCRSM
  with assms crsmRun_answer [of dev "crsmUpdateCommand r" s "[]" "put r"] show ?thesis
    by (simp add: runnerRun_def prints_def idlePort_def)
next
  case RunnerCSIM
  with assms have "csimRunRaw dev (csimUpdateCommand r) (idlePort s) = (Inr [0x90, 0], idlePort (put r))"
    by (intro csimRunRaw_answer) (auto simp: csimRecord_update)
  then have "csimRun fuel dev (csimUpdateCommand r) (idlePort s) = Some (Inr [0x90, 0], idlePort (put r))"
    by (simp add: csimRun_def)
  with RunnerCSIM show ?thesis by (simp add: runnerRun_def fromCsim_def)
qed

text \<open>
  C39: The number that is stored is the number that was given, over either command the modem may support: when the card describes its
  file and takes the update, the update of a matching number with a name that fits succeeds, the card stores one record of exactly the
  length it announced, and whoever reads that record finds the name and the number with its plus sign, for every count of digits. Over
  \<open>AT+CSIM\<close> this is for records of less than 256 bytes, as the length byte of its command wraps. (The name must not hold the padding
  byte \<open>FF\<close>, which no UTF-8 text does.)
\<close>
theorem msisdn_update_read_back:
  assumes "phoneMatches number" and "0xFF \<notin> set name" and "length name + 14 \<le> n" and "recordLength fcp = Inr n"
    and "describesFile fuel dev runner fcp s s'" and "takesRecord dev runner n s' put"
  shows "\<exists>r. msisdnUpdateNumber fuel dev runner name number (idlePort s) = (Inr (), idlePort (put r)) \<and>
    length r = n \<and> readRecord r = (name, number)"
proof -
  obtain r where r: "msisdnRecord (starts_with number ''+'') name number n = Inr r" "length r = n" "readRecord r = (name, number)"
    using record_read_back [OF assms(1-3)] .
  obtain z where "runnerSelect fuel dev runner (idlePort s) = (Inr (fcp @ z), idlePort s')"
    using select_answered [OF assms(5)] by blast
  then have "msisdnUpdateNumber fuel dev runner name number (idlePort s) = (Inr (), idlePort (put r))"
    using assms(1,4) r(1) update_taken [OF assms(6) r(2)]
    by (simp add: msisdnUpdateNumber_def msisdnUpdate_def recordLen_def recordLength_append)
  with r(2,3) show ?thesis by blast
qed

text \<open>A card with records of 28 bytes behind a modem that remembers the last command.\<close>

definition exampleFile :: "byte list" where
  "exampleFile = [0x62, 7, 0x82, 5, 0x42, 0x21, 0, 28, 1]"

definition exampleCard :: "string atDevice" where
  "exampleCard command s =
     (None, answerLines command
        (if starts_with command ''AT+CRSM=192'' then crsmLine exampleFile
         else if starts_with command ''AT+CRSM'' then crsmLine []
         else if command = csimText csimSelectCommand then csimLine [0x61, 11]
         else if command = csimText [0x00, 0xC0, 0x00, 0x00, 11] then csimLine (exampleFile @ [0x90, 0])
         else csimLine [0x90, 0]),
      command)"

theorem msisdn_update_read_back_witness:
  "(\<exists>r. msisdnUpdateNumber 1 exampleCard RunnerCRSM [0x4D, 0x65] ''+41790000000'' (idlePort []) =
       (Inr (), idlePort (''AT+CRSM='' @ crsmBytes (crsmUpdateCommand r))) \<and>
     length r = 28 \<and> readRecord r = ([0x4D, 0x65], ''+41790000000'')) \<and>
   (\<exists>r. msisdnUpdateNumber 1 exampleCard RunnerCSIM [0x4D, 0x65] ''+41790000000'' (idlePort []) =
       (Inr (), idlePort (csimText (csimUpdateCommand r))) \<and>
     length r = 28 \<and> readRecord r = ([0x4D, 0x65], ''+41790000000''))"
proof (intro conjI)
  have d: "decimal 192 = ''192''" "decimal 220 = ''220''" by code_simp+
  have number: "phoneMatches ''+41790000000''" by (simp add: phoneMatches_def is_digit_def)
  have card: "recordLength exampleFile = Inr 28" by code_simp
  have "describesFile 1 exampleCard RunnerCRSM exampleFile [] (''AT+CRSM='' @ crsmBytes crsmSelectCommand)"
    by (simp add: prints_def exampleCard_def crsmBytes_def crsmSelectCommand_def CRSMGetResponse_def d starts_with_def)
  moreover have "takesRecord exampleCard RunnerCRSM 28 s (\<lambda>r. ''AT+CRSM='' @ crsmBytes (crsmUpdateCommand r))" for s
    by (simp add: prints_def exampleCard_def crsmBytes_def crsmUpdateCommand_def CRSMUpdateRecord_def d starts_with_def)
  ultimately show "\<exists>r. msisdnUpdateNumber 1 exampleCard RunnerCRSM [0x4D, 0x65] ''+41790000000'' (idlePort []) =
       (Inr (), idlePort (''AT+CRSM='' @ crsmBytes (crsmUpdateCommand r))) \<and>
     length r = 28 \<and> readRecord r = ([0x4D, 0x65], ''+41790000000'')"
    using number card by (intro msisdn_update_read_back) simp_all
  let ?get = "csimText [0x00, 0xC0, 0x00, 0x00, 11]"
  have no: "\<not> starts_with (csimText c) ''AT+CRSM''" "\<not> starts_with (csimText c) ''AT+CRSM=192''" for c
    by (simp_all add: csimText_def starts_with_def Let_def)
  have other: "?get \<noteq> csimText csimSelectCommand" by code_simp
  have "csimRunRaw exampleCard [0x00, 0xC0, 0x00, 0x00, 11] (idlePort (csimText csimSelectCommand)) = (Inr (exampleFile @ [0x90, 0]), idlePort ?get)"
    using other by (intro csimRunRaw_answer) (simp_all add: prints_def exampleCard_def no exampleFile_def)
  then have parts: "givesParts (csimRunRaw exampleCard) 11 [exampleFile] (idlePort (csimText csimSelectCommand)) (idlePort ?get)" by auto
  have "describesFile 1 exampleCard RunnerCSIM exampleFile [] ?get"
    unfolding describesFile.simps
    by (intro disjI2 exI [of _ 11] exI [of _ "[exampleFile]"] exI [of _ "csimText csimSelectCommand"] conjI parts)
      (simp_all add: prints_def exampleCard_def no)
  moreover have "takesRecord exampleCard RunnerCSIM 28 s (\<lambda>r. csimText (csimUpdateCommand r))" for s
  proof -
    have "length (csimText (csimUpdateCommand r)) > 31" if "length r = 28" for r
      using that by (simp add: csimText_def Let_def hex_upper_length csimUpdateCommand_def)
    moreover have "length (csimText csimSelectCommand) = 31" "length ?get = 23" by code_simp+
    ultimately have "length (csimText c) \<noteq> length (csimText (csimUpdateCommand r))"
      if "length r = 28" "c = csimSelectCommand \<or> c = [0x00, 0xC0, 0x00, 0x00, 11]" for r c
      using that by fastforce
    then have "csimText (csimUpdateCommand r) \<noteq> csimText csimSelectCommand" "csimText (csimUpdateCommand r) \<noteq> ?get"
      if "length r = 28" for r
      using that by metis+
    then show ?thesis by (simp add: prints_def exampleCard_def no csimRecord_update)
  qed
  ultimately show "\<exists>r. msisdnUpdateNumber 1 exampleCard RunnerCSIM [0x4D, 0x65] ''+41790000000'' (idlePort []) =
       (Inr (), idlePort (csimText (csimUpdateCommand r))) \<and>
     length r = 28 \<and> readRecord r = ([0x4D, 0x65], ''+41790000000'')"
    using number card by (intro msisdn_update_read_back) simp_all
qed

end
