(* ===== verification/Proxy.thy ===== *)
theory Proxy
  imports BearerConfig
begin

text \<open>
  The proxy of the modems (\<open>internal/pkg/internet/proxy.go\<close>): a user is the name of a modem, and what the user sends
  leaves through the interface the name is bound to. The state holds the bindings, the two servers, and for every user the
  connections opened for it.

  The maps of the code are association lists. What the operating system answers is an argument: whether an address can be
  listened on, whether a connection can be opened, what closing a socket reports; the answers may depend on the number of
  calls made so far. The state remembers the sockets that are open. An error is the list of the errors joined in it.

  A step is what happens while the lock is held. What other goroutines do while a connection is dialled, and while an operation closes
  the sessions it has taken, is an argument. Closing one session, which closes its socket and then takes the lock to forget it, is one step.
\<close>

section \<open>Configuration and state\<close>

record ProxyConfig =
  ListenAddress :: string
  HTTPPort :: int
  SOCKS5Port :: int
  proxyPassword :: string

text \<open>
  A tracked connection or, without an interface, a UDP association: who opened it, and through which interface it was dialled.
\<close>

record proxySession =
  sessionID :: nat
  sessionUser :: string
  sessionInterface :: "string option"

datatype closeError = ServerClosed | NetClosed | CloseFailed string

datatype proxyError =
    ErrProxyPasswordRequired | ErrProxyInterfaceRequired | ErrProxyUsernameRequired | ErrProxyStart string string
  | ErrInactive string | ErrDial string | ErrNilConnection | ErrClose closeError
  | ErrReset "proxyError list" | ErrNewConfig "proxyError list"

record proxyState =
  proxyCfg :: ProxyConfig
  proxyActive :: "(string \<times> string) list"
  proxySessions :: "(string \<times> proxySession list) list"
  httpServer :: "nat option"
  httpListener :: "nat option"
  httpAddress :: string
  socksServer :: "nat option"
  socksListener :: "nat option"
  socksAddress :: string
  listening :: "nat list"
  openSessions :: "proxySession list"
  systemCalls :: nat

datatype dialResult = DialFailed string | DialNil | Dialled

record proxySystem =
  listenAnswer :: "nat \<Rightarrow> string \<Rightarrow> string + string"
  closeAnswer :: "nat \<Rightarrow> closeError option"
  dialAnswer :: "nat \<Rightarrow> string \<Rightarrow> string \<Rightarrow> string \<Rightarrow> dialResult"

definition newProxy :: "ProxyConfig \<Rightarrow> proxyState" where
  "newProxy cfg =
     \<lparr>proxyCfg = cfg, proxyActive = [], proxySessions = [], httpServer = None, httpListener = None, httpAddress = [],
      socksServer = None, socksListener = None, socksAddress = [], listening = [], openSessions = [], systemCalls = 0\<rparr>"

section \<open>Sockets\<close>

text \<open>\<open>strconv.Itoa\<close>, \<open>net.JoinHostPort\<close>.\<close>

definition itoa :: "int \<Rightarrow> string" where
  "itoa n = (if n < 0 then CHR ''-'' # decimal (nat (- n)) else decimal (nat n))"

definition joinHostPort :: "string \<Rightarrow> string \<Rightarrow> string" where
  "joinHostPort host port =
     (if CHR '':'' \<in> set host then ''['' @ host @ '']:'' @ port else host @ '':'' @ port)"

definition called :: "proxyState \<Rightarrow> proxyState" where
  "called s = s\<lparr>systemCalls := systemCalls s + 1\<rparr>"

definition ignoreProxyCloseError :: "closeError option \<Rightarrow> proxyError list" where
  "ignoreProxyCloseError e = (case e of Some (CloseFailed m) \<Rightarrow> [ErrClose (CloseFailed m)] | _ \<Rightarrow> [])"

definition closeListener :: "proxySystem \<Rightarrow> nat option \<Rightarrow> proxyState \<Rightarrow> proxyError list \<times> proxyState" where
  "closeListener sys l s =
     (ignoreProxyCloseError (closeAnswer sys (systemCalls s)),
      called (s\<lparr>listening := filter (\<lambda>n. Some n \<noteq> l) (listening s)\<rparr>))"

section \<open>The servers\<close>

definition startedLocked :: "proxyState \<Rightarrow> bool" where
  "startedLocked s \<longleftrightarrow> httpServer s \<noteq> None \<and> socksServer s \<noteq> None"

definition hasListenerStateLocked :: "proxyState \<Rightarrow> bool" where
  "hasListenerStateLocked s \<longleftrightarrow> httpServer s \<noteq> None \<or> httpListener s \<noteq> None \<or> socksServer s \<noteq> None \<or> socksListener s \<noteq> None"

text \<open>Closing the HTTP server closes its listener.\<close>

definition stopLocked :: "proxySystem \<Rightarrow> proxyState \<Rightarrow> proxyError list \<times> proxyState" where
  "stopLocked sys s =
     (let (e1, s) = (if httpServer s \<noteq> None then closeListener sys (httpListener s) s else ([], s));
          (e2, s) = (if socksListener s \<noteq> None then closeListener sys (socksListener s) s else ([], s))
      in (e1 @ e2,
          s\<lparr>httpServer := None, httpListener := None, httpAddress := [], socksServer := None, socksListener := None, socksAddress := []\<rparr>))"

definition startHTTPProxyLocked :: "proxySystem \<Rightarrow> proxyState \<Rightarrow> proxyError list \<times> proxyState" where
  "startHTTPProxyLocked sys s =
     (case listenAnswer sys (systemCalls s) (joinHostPort (ListenAddress (proxyCfg s)) (itoa (HTTPPort (proxyCfg s)))) of
        Inl e \<Rightarrow> ([ErrProxyStart ''listen http proxy'' e], called s)
      | Inr address \<Rightarrow>
          let l = systemCalls s in
          ([], called (s\<lparr>httpServer := Some l, httpListener := Some l, httpAddress := address, listening := l # listening s\<rparr>)))"

definition startSOCKS5ProxyLocked :: "proxySystem \<Rightarrow> proxyState \<Rightarrow> proxyError list \<times> proxyState" where
  "startSOCKS5ProxyLocked sys s =
     (case listenAnswer sys (systemCalls s) (joinHostPort (ListenAddress (proxyCfg s)) (itoa (SOCKS5Port (proxyCfg s)))) of
        Inl e \<Rightarrow> ([ErrProxyStart ''listen socks5 proxy'' e], called s)
      | Inr address \<Rightarrow>
          let l = systemCalls s in
          ([], called (s\<lparr>socksServer := Some l, socksListener := Some l, socksAddress := address, listening := l # listening s\<rparr>)))"

definition startLocked :: "proxySystem \<Rightarrow> proxyState \<Rightarrow> proxyError list \<times> proxyState" where
  "startLocked sys s =
     (let (e1, s) = startHTTPProxyLocked sys s in
      if e1 \<noteq> [] then (e1, s)
      else
        let (e2, s) = startSOCKS5ProxyLocked sys s in
        if e2 \<noteq> [] then (let (e3, s) = stopLocked sys s in (e2 @ e3, s)) else ([], s))"

definition ensureStartedLocked :: "proxySystem \<Rightarrow> proxyState \<Rightarrow> proxyError list \<times> proxyState" where
  "ensureStartedLocked sys s =
     (if startedLocked s then ([], s)
      else
        let (e, s) = (if hasListenerStateLocked s then stopLocked sys s else ([], s)) in
        if e \<noteq> [] then ([ErrReset e], s) else startLocked sys s)"

definition statusLocked :: "string \<Rightarrow> proxyState \<Rightarrow> ProxyStatus" where
  "statusLocked username s =
     (if map_of (proxyActive s) username = None then noProxyStatus
      else \<lparr>ProxyOn = startedLocked s, ProxyUsername = username, ProxyPassword = proxyPassword (proxyCfg s),
            HTTPAddress = httpAddress s, SOCKS5Address = socksAddress s\<rparr>)"

definition proxyStatusOf :: "string \<Rightarrow> proxyState \<Rightarrow> ProxyStatus" where
  "proxyStatusOf username s = (let username = trim_space username in if username = [] then noProxyStatus else statusLocked username s)"

section \<open>The connections of a user\<close>

definition removeSession :: "string \<Rightarrow> proxySession \<Rightarrow> proxyState \<Rightarrow> proxyState" where
  "removeSession username session s =
     (let username = trim_space username in
      if username = [] then s
      else case map_of (proxySessions s) username of
          None \<Rightarrow> s
        | Some sessions \<Rightarrow>
            let sessions = filter (\<lambda>x. x \<noteq> session) sessions in
            s\<lparr>proxySessions := (if sessions = [] then AList.delete username (proxySessions s)
                               else AList.update username sessions (proxySessions s))\<rparr>)"

definition trackSession :: "string \<Rightarrow> proxySession \<Rightarrow> proxyState \<Rightarrow> proxyError list \<times> proxyState" where
  "trackSession username session s =
     (let username = trim_space username in
      if username = [] then ([ErrProxyUsernameRequired], s)
      else if map_of (proxyActive s) username = None then ([ErrInactive username], s)
      else
        let sessions = (case map_of (proxySessions s) username of None \<Rightarrow> [] | Some l \<Rightarrow> l) in
        ([], s\<lparr>proxySessions := AList.update username (session # filter (\<lambda>x. x \<noteq> session) sessions) (proxySessions s)\<rparr>))"

definition takeUserSessionsLocked :: "string \<Rightarrow> proxyState \<Rightarrow> proxySession list \<times> proxyState" where
  "takeUserSessionsLocked username s =
     (case map_of (proxySessions s) username of
        None \<Rightarrow> ([], s)
      | Some [] \<Rightarrow> ([], s)
      | Some sessions \<Rightarrow> (sessions, s\<lparr>proxySessions := AList.delete username (proxySessions s)\<rparr>))"

definition takeAllSessionsLocked :: "proxyState \<Rightarrow> proxySession list \<times> proxyState" where
  "takeAllSessionsLocked s = (concat (map snd (proxySessions s)), s\<lparr>proxySessions := []\<rparr>)"

text \<open>
  \<open>Close\<close> of a session. A connection is closed by the system each time and forgotten once; an association closes its relay and
  its control connection and forgets itself, all once.
\<close>

definition closeSession :: "proxySystem \<Rightarrow> proxySession \<Rightarrow> proxyState \<Rightarrow> proxyError list \<times> proxyState" where
  "closeSession sys session s =
     (let wasOpen = session \<in> set (openSessions s);
          e = ignoreProxyCloseError (closeAnswer sys (systemCalls s));
          s1 = called (s\<lparr>openSessions := filter (\<lambda>x. x \<noteq> session) (openSessions s)\<rparr>)
      in case sessionInterface session of
           Some _ \<Rightarrow> (e, if wasOpen then removeSession (sessionUser session) session s1 else s1)
         | None \<Rightarrow>
             if wasOpen then (e @ ignoreProxyCloseError (closeAnswer sys (systemCalls s1)), removeSession (sessionUser session) session (called s1))
             else ([], s))"

text \<open>
  The sessions are closed after the lock is released: the functions of \<open>during\<close> are what the other goroutines do before each of them is
  closed, and those that are left over what they do until the operation returns.
\<close>

fun closeProxySessions :: "proxySystem \<Rightarrow> (proxyState \<Rightarrow> proxyState) list \<Rightarrow> proxySession list \<Rightarrow> proxyState \<Rightarrow> proxyError list \<times> proxyState" where
  "closeProxySessions sys [] [] s = ([], s)"
| "closeProxySessions sys (d # during) [] s = closeProxySessions sys during [] (d s)"
| "closeProxySessions sys [] (session # sessions) s =
     (let (e1, s) = closeSession sys session s; (e2, s) = closeProxySessions sys [] sessions s in (e1 @ e2, s))"
| "closeProxySessions sys (d # during) (session # sessions) s =
     (let (e1, s) = closeSession sys session (d s); (e2, s) = closeProxySessions sys during sessions s in (e1 @ e2, s))"

section \<open>Operations\<close>

definition UpdateConfig :: "proxySystem \<Rightarrow> (proxyState \<Rightarrow> proxyState) list \<Rightarrow> ProxyConfig \<Rightarrow> proxyState \<Rightarrow> proxyError list \<times> proxyState" where
  "UpdateConfig sys during cfg s =
     (if proxyCfg s = cfg then ([], s)
      else
        let oldCfg = proxyCfg s;
            (sessions, s) = takeAllSessionsLocked s;
            (err, s) = stopLocked sys s;
            s = s\<lparr>proxyCfg := cfg\<rparr>;
            (startErr, s) = (if proxyActive s \<noteq> [] \<and> trim_space (proxyPassword cfg) \<noteq> [] then startLocked sys s else ([], s))
        in if startErr \<noteq> [] then
             let (cleanupErr, s) = stopLocked sys s;
                 s = s\<lparr>proxyCfg := oldCfg\<rparr>;
                 (restoreErr, s) = (if trim_space (proxyPassword oldCfg) \<noteq> [] then startLocked sys s else ([], s));
                 (closeErr, s) = closeProxySessions sys during sessions s
             in (err @ [ErrNewConfig startErr] @ cleanupErr @ restoreErr @ closeErr, s)
           else
             let (closeErr, s) = closeProxySessions sys during sessions s in (err @ closeErr, s))"

definition Register :: "proxySystem \<Rightarrow> (proxyState \<Rightarrow> proxyState) list \<Rightarrow> string \<Rightarrow> string \<Rightarrow> proxyState \<Rightarrow> (ProxyStatus \<times> proxyError list) \<times> proxyState" where
  "Register sys during username iface s =
     (let username = trim_space username; iface = trim_space iface in
      if username = [] then ((noProxyStatus, [ErrProxyUsernameRequired]), s)
      else if iface = [] then ((noProxyStatus, [ErrProxyInterfaceRequired]), s)
      else if trim_space (proxyPassword (proxyCfg s)) = [] then ((noProxyStatus, [ErrProxyPasswordRequired]), s)
      else
        let old = map_of (proxyActive s) username;
            (err, s) = ensureStartedLocked sys (s\<lparr>proxyActive := AList.update username iface (proxyActive s)\<rparr>)
        in if err \<noteq> [] then
             ((noProxyStatus, err),
              s\<lparr>proxyActive := (case old of Some oldInterface \<Rightarrow> AList.update username oldInterface (proxyActive s)
                               | None \<Rightarrow> AList.delete username (proxyActive s))\<rparr>)
           else
             let (sessions, s) = (case old of
                     Some oldInterface \<Rightarrow>
                       if oldInterface \<noteq> [] \<and> oldInterface \<noteq> iface then takeUserSessionsLocked username s else ([], s)
                   | None \<Rightarrow> ([], s));
                 status = statusLocked username s;
                 (closeErr, s) = closeProxySessions sys during sessions s
             in ((status, closeErr), s))"

definition Unregister :: "proxySystem \<Rightarrow> (proxyState \<Rightarrow> proxyState) list \<Rightarrow> string \<Rightarrow> proxyState \<Rightarrow> proxyError list \<times> proxyState" where
  "Unregister sys during username s =
     (let username = trim_space username in
      if username = [] then ([], s)
      else
        let (sessions, s) = takeUserSessionsLocked username (s\<lparr>proxyActive := AList.delete username (proxyActive s)\<rparr>);
            (sessions, stopErr, s) =
              (if proxyActive s = [] then
                 let (rest, s) = takeAllSessionsLocked s; (e, s) = stopLocked sys s in (sessions @ rest, e, s)
               else (sessions, [], s));
            (closeErr, s) = closeProxySessions sys during sessions s
        in (stopErr @ closeErr, s))"

text \<open>\<open>handleServeExit\<close> of one of the two servers; what it returns is only logged.\<close>

definition handleServeExit :: "proxySystem \<Rightarrow> (proxyState \<Rightarrow> proxyState) list \<Rightarrow> nat option \<Rightarrow> nat option \<Rightarrow> proxyState \<Rightarrow> proxyError list \<times> proxyState" where
  "handleServeExit sys during http socks s =
     (if http \<noteq> None \<and> httpServer s \<noteq> http then ([], s)
      else if socks \<noteq> None \<and> socksServer s \<noteq> socks then ([], s)
      else
        let (sessions, s) = takeAllSessionsLocked s;
            (stopErr, s) = stopLocked sys s;
            (startErr, s) = (if proxyActive s \<noteq> [] then startLocked sys s else ([], s));
            (closeErr, s) = closeProxySessions sys during sessions s
        in (stopErr @ closeErr @ startErr, s))"

definition validCredential :: "string \<Rightarrow> string \<Rightarrow> proxyState \<Rightarrow> bool" where
  "validCredential username password s \<longleftrightarrow>
     (let username = trim_space username in
      username \<noteq> [] \<and> password = proxyPassword (proxyCfg s) \<and> map_of (proxyActive s) username \<noteq> None)"

text \<open>
  \<open>dial\<close>: the interface is looked up, the connection is opened without the lock, and then tracked. \<open>during\<close> is what the
  other goroutines do in between.
\<close>

definition trackConn :: "proxySystem \<Rightarrow> string \<Rightarrow> proxySession \<Rightarrow> proxyState \<Rightarrow> (proxyError list + proxySession) \<times> proxyState" where
  "trackConn sys username conn s =
     (case trackSession username conn s of
        ([], s) \<Rightarrow> (Inr conn, s)
      | (e, s) \<Rightarrow>
          (Inl (e @ (case closeAnswer sys (systemCalls s) of None \<Rightarrow> [] | Some c \<Rightarrow> [ErrClose c])),
           called (s\<lparr>openSessions := filter (\<lambda>x. x \<noteq> conn) (openSessions s)\<rparr>)))"

definition dial :: "proxySystem \<Rightarrow> (proxyState \<Rightarrow> proxyState) \<Rightarrow> string \<Rightarrow> string \<Rightarrow> string \<Rightarrow> proxyState \<Rightarrow> (proxyError list + proxySession) \<times> proxyState" where
  "dial sys during username network address s =
     (let username = trim_space username in
      if username = [] then (Inl [ErrProxyUsernameRequired], s)
      else case map_of (proxyActive s) username of
          None \<Rightarrow> (Inl [ErrInactive username], s)
        | Some iface \<Rightarrow>
            let s = during s; n = systemCalls s in
            case dialAnswer sys n iface network address of
              DialFailed e \<Rightarrow> (Inl [ErrDial e], called s)
            | DialNil \<Rightarrow> (Inl [ErrNilConnection], called s)
            | Dialled \<Rightarrow>
                let conn = \<lparr>sessionID = n, sessionUser = username, sessionInterface = Some iface\<rparr> in
                trackConn sys username conn (called (s\<lparr>openSessions := conn # openSessions s\<rparr>)))"

section \<open>UDP associations\<close>

text \<open>
  \<open>handleSOCKS5Associate\<close> up to its success reply; once the control connection or the relay has ended, the association
  is closed. The answers: whether the local address is a TCP address, the error of opening the relay and of sending a reply.
\<close>

record associateAnswers =
  localTCP :: bool
  relayListenError :: "string option"
  replyError :: "string option"

definition someError :: "string option \<Rightarrow> proxyError list" where
  "someError e = (case e of None \<Rightarrow> [] | Some m \<Rightarrow> [ErrDial m])"

definition associateSOCKS5 :: "proxySystem \<Rightarrow> associateAnswers \<Rightarrow> string \<Rightarrow> proxyState \<Rightarrow> (proxyError list + proxySession) \<times> proxyState" where
  "associateSOCKS5 sys a username s =
     (if \<not> localTCP a then (Inl (ErrDial ''socks5 udp local address'' # someError (replyError a)), s)
      else if relayListenError a \<noteq> None then (Inl (someError (relayListenError a) @ someError (replyError a)), s)
      else
        let association = \<lparr>sessionID = systemCalls s, sessionUser = username, sessionInterface = None\<rparr>;
            (err, s) = trackSession username association (called (s\<lparr>openSessions := association # openSessions s\<rparr>))
        in if err \<noteq> [] then
             let (closeErr, s) = closeSession sys association s in (Inl (err @ someError (replyError a) @ closeErr), s)
           else if replyError a \<noteq> None then
             let (closeErr, s) = closeSession sys association s in (Inl (someError (replyError a) @ closeErr), s)
           else (Inr association, s))"

section \<open>The servers are both there or neither\<close>

definition stopped :: "proxyState \<Rightarrow> bool" where
  "stopped s \<longleftrightarrow> httpServer s = None \<and> httpListener s = None \<and> socksServer s = None \<and> socksListener s = None \<and> listening s = []"

definition serving :: "proxyState \<Rightarrow> bool" where
  "serving s \<longleftrightarrow> (\<exists>h k. httpServer s = Some h \<and> httpListener s = Some h \<and> socksServer s = Some k \<and> socksListener s = Some k \<and>
     set (listening s) = {h, k})"

definition sameTables :: "proxyState \<Rightarrow> proxyState \<Rightarrow> bool" where
  "sameTables s s' \<longleftrightarrow> proxyCfg s' = proxyCfg s \<and> proxyActive s' = proxyActive s \<and> proxySessions s' = proxySessions s \<and>
     openSessions s' = openSessions s \<and> systemCalls s \<le> systemCalls s'"

lemma sameTables_refl: "sameTables s s"
  by (simp add: sameTables_def)

lemma sameTables_trans: "sameTables s s1 \<Longrightarrow> sameTables s1 s2 \<Longrightarrow> sameTables s s2"
  by (simp add: sameTables_def)

lemma stopLocked_stops:
  assumes "stopLocked sys s = (e, s')" and "httpListener s = httpServer s" and "socksListener s = socksServer s"
    and "set (listening s) \<subseteq> set_option (httpServer s) \<union> set_option (socksServer s)"
  shows "sameTables s s' \<and> stopped s'"
  using assms
  by (cases "httpServer s"; cases "socksServer s")
    (auto simp: stopLocked_def closeListener_def called_def sameTables_def stopped_def filter_empty_conv Let_def)

lemma stopLocked_ok: "stopLocked sys s = (e, s') \<Longrightarrow> stopped s \<or> serving s \<Longrightarrow> sameTables s s' \<and> stopped s'"
  by (rule stopLocked_stops) (auto simp: stopped_def serving_def)

lemma startLocked_ok:
  assumes "startLocked sys s = (e, s')" and "stopped s"
  shows "sameTables s s' \<and> (if e = [] then serving s' else stopped s')"
proof -
  obtain e1 s1 where s1: "startHTTPProxyLocked sys s = (e1, s1)" by force
  obtain e2 s2 where s2: "startSOCKS5ProxyLocked sys s1 = (e2, s2)" by force
  obtain e3 s3 where s3: "stopLocked sys s2 = (e3, s3)" by force
  have 1: "sameTables s s1" "if e1 = [] then \<exists>h. httpServer s1 = Some h \<and> httpListener s1 = Some h \<and> socksServer s1 = None \<and>
      socksListener s1 = None \<and> listening s1 = [h] else stopped s1"
    using s1 assms(2) by (auto simp: startHTTPProxyLocked_def sameTables_def called_def stopped_def Let_def split: sum.splits)
  show ?thesis
  proof (cases "e1 = []")
    case False
    with 1 s1 assms(1) show ?thesis by (auto simp: startLocked_def)
  next
    case True
    then obtain h where h: "httpServer s1 = Some h" "httpListener s1 = Some h" "socksServer s1 = None" "socksListener s1 = None"
        "listening s1 = [h]"
      using 1(2) by auto
    have 2: "sameTables s1 s2" "if e2 = [] then serving s2 else httpServer s2 = Some h \<and> httpListener s2 = Some h \<and>
        socksServer s2 = None \<and> socksListener s2 = None \<and> listening s2 = [h]"
      using s2 h
      by (auto simp: startSOCKS5ProxyLocked_def sameTables_def called_def serving_def Let_def split: sum.splits)
    have "e2 \<noteq> [] \<Longrightarrow> sameTables s2 s3 \<and> stopped s3" using 2(2) by (intro stopLocked_stops [OF s3]) simp_all
    with True 1(1) 2 s1 s2 s3 assms(1) show ?thesis
      by (cases "e2 = []") (auto simp: startLocked_def dest: sameTables_trans)
  qed
qed

lemma ensureStartedLocked_ok:
  assumes "ensureStartedLocked sys s = (e, s')" and "stopped s \<or> serving s"
  shows "sameTables s s' \<and> (if e = [] then serving s' else stopped s')"
proof (cases "serving s")
  case True
  with assms(1) show ?thesis by (auto simp: ensureStartedLocked_def startedLocked_def serving_def sameTables_refl)
next
  case False
  with assms(2) have "stopped s" by simp
  with assms(1) have "startLocked sys s = (e, s')"
    by (simp add: ensureStartedLocked_def startedLocked_def hasListenerStateLocked_def stopped_def)
  then show ?thesis using \<open>stopped s\<close> by (rule startLocked_ok)
qed

section \<open>What is open is tracked\<close>

text \<open>The table of sessions, the sessions in it, and that these and the ones about to be closed are what is open.\<close>

definition sessionTable :: "proxyState \<Rightarrow> bool" where
  "sessionTable s \<longleftrightarrow> distinct (map fst (proxySessions s)) \<and>
     (\<forall>u l. map_of (proxySessions s) u = Some l \<longrightarrow> u \<noteq> [] \<and> l \<noteq> [] \<and> map_of (proxyActive s) u \<noteq> None \<and>
        (\<forall>x \<in> set l. trim_space (sessionUser x) = u))"

definition tracked :: "proxyState \<Rightarrow> proxySession set" where
  "tracked s = {x. \<exists>l. map_of (proxySessions s) (trim_space (sessionUser x)) = Some l \<and> x \<in> set l}"

definition openOk :: "proxySession set \<Rightarrow> proxyState \<Rightarrow> bool" where
  "openOk P s \<longleftrightarrow> tracked s \<subseteq> set (openSessions s) \<and> set (openSessions s) \<subseteq> tracked s \<union> P \<and>
     (\<forall>x \<in> set (openSessions s). sessionID x < systemCalls s)"

lemma openOk_mono: "openOk P s \<Longrightarrow> P \<subseteq> Q \<Longrightarrow> openOk Q s"
  by (auto simp: openOk_def)

definition sameServers :: "proxyState \<Rightarrow> proxyState \<Rightarrow> bool" where
  "sameServers s s' \<longleftrightarrow> proxyCfg s' = proxyCfg s \<and> proxyActive s' = proxyActive s \<and> httpServer s' = httpServer s \<and>
     httpListener s' = httpListener s \<and> socksServer s' = socksServer s \<and> socksListener s' = socksListener s \<and>
     listening s' = listening s \<and> systemCalls s \<le> systemCalls s'"

lemma sameServers_trans: "sameServers s s1 \<Longrightarrow> sameServers s1 s2 \<Longrightarrow> sameServers s s2"
  by (simp add: sameServers_def)

lemma tables_kept:
  assumes "sameTables s s'"
  shows "sessionTable s \<Longrightarrow> sessionTable s'" "tracked s' = tracked s" "openOk P s \<Longrightarrow> openOk P s'"
  using assms by (auto simp: sameTables_def sessionTable_def tracked_def openOk_def intro: less_le_trans)

lemma sessionTableD:
  assumes "sessionTable s" and "map_of (proxySessions s) u = Some l"
  shows "u \<noteq> []" "l \<noteq> []" "map_of (proxyActive s) u \<noteq> None" "x \<in> set l \<Longrightarrow> trim_space (sessionUser x) = u"
  using assms unfolding sessionTable_def by blast+

lemma sessionTableI:
  assumes "distinct (map fst (proxySessions s))"
    and "\<And>u l. map_of (proxySessions s) u = Some l \<Longrightarrow> u \<noteq> [] \<and> l \<noteq> [] \<and> map_of (proxyActive s) u \<noteq> None \<and>
      (\<forall>x \<in> set l. trim_space (sessionUser x) = u)"
  shows "sessionTable s"
  using assms unfolding sessionTable_def by blast

lemma removeSession_ok:
  assumes "sessionTable s" and "removeSession (sessionUser x) x s = s'"
  shows "sessionTable s' \<and> tracked s' = tracked s - {x} \<and> sameServers s s' \<and> openSessions s' = openSessions s"
proof -
  let ?u = "trim_space (sessionUser x)"
  show ?thesis
  proof (cases "?u = [] \<or> map_of (proxySessions s) ?u = None")
    case True
    have "x \<notin> tracked s" using True sessionTableD(1) [OF assms(1)] unfolding tracked_def by force
    moreover have "s' = s" using True assms(2) by (auto simp: removeSession_def Let_def)
    ultimately show ?thesis using assms(1) by (simp add: sameServers_def)
  next
    case False
    then obtain l where l: "map_of (proxySessions s) ?u = Some l" "?u \<noteq> []" by auto
    let ?l = "filter (\<lambda>y. y \<noteq> x) l"
    have s': "proxySessions s' = (if ?l = [] then AList.delete ?u (proxySessions s) else AList.update ?u ?l (proxySessions s))"
      "sameServers s s'" "openSessions s' = openSessions s"
      using l assms(2) by (auto simp: removeSession_def Let_def sameServers_def)
    have m: "map_of (proxySessions s') v = (if v = ?u then if ?l = [] then None else Some ?l else map_of (proxySessions s) v)" for v
      unfolding s'(1) by (simp add: update_conv' delete_conv')
    have "tracked s' = tracked s - {x}"
      using l(1) unfolding tracked_def m by (auto simp: filter_empty_conv split: if_splits)
    moreover have "sessionTable s'"
    proof (rule sessionTableI)
      show "distinct (map fst (proxySessions s'))" using assms(1) unfolding s'(1) by (simp add: sessionTable_def distinct_update distinct_delete)
      fix v k assume "map_of (proxySessions s') v = Some k"
      then obtain k0 where "map_of (proxySessions s) v = Some k0" "set k \<subseteq> set k0" "k \<noteq> []"
        using l(1) sessionTableD(2) [OF assms(1)] unfolding m by (auto split: if_splits)
      with sessionTableD [OF assms(1), of v k0] s'(2)
      show "v \<noteq> [] \<and> k \<noteq> [] \<and> map_of (proxyActive s') v \<noteq> None \<and> (\<forall>y \<in> set k. trim_space (sessionUser y) = v)"
        by (auto simp: sameServers_def)
    qed
    ultimately show ?thesis using s'(2,3) by simp
  qed
qed

lemma closeSession_ok:
  assumes "sessionTable s" and "openOk P s" and "closeSession sys x s = (e, s')"
  shows "sessionTable s' \<and> openOk (P - {x}) s' \<and> tracked s' = tracked s - {x} \<and> sameServers s s'"
proof -
  let ?closed = "\<lambda>k. s\<lparr>openSessions := filter (\<lambda>y. y \<noteq> x) (openSessions s), systemCalls := k\<rparr>"
  have same: "sessionTable (?closed k)" "tracked (?closed k) = tracked s" "systemCalls s \<le> k \<Longrightarrow> sameServers s (?closed k)" for k
    using assms(1) by (simp_all add: sessionTable_def tracked_def sameServers_def)
  have bound: "\<forall>y \<in> set (openSessions s). sessionID y < systemCalls s"
    and opened: "tracked s \<subseteq> set (openSessions s)" "set (openSessions s) \<subseteq> tracked s \<union> P"
    using assms(2) by (simp_all add: openOk_def)
  show ?thesis
  proof (cases "x \<in> set (openSessions s)")
    case False
    have "s' = s \<or> s' = ?closed (systemCalls s + 1)"
      using assms(3) False by (auto simp: closeSession_def called_def Let_def split: option.splits)
    moreover have "openOk (P - {x}) s" "openOk (P - {x}) (?closed (systemCalls s + 1))"
      using bound opened False same(2) by (auto simp: openOk_def less_Suc_eq)
    moreover have "tracked s - {x} = tracked s" using opened(1) False by auto
    moreover have "sameServers s s" by (simp add: sameServers_def)
    ultimately show ?thesis
      using same [of "systemCalls s + 1"] assms(1) by (elim disjE) simp_all
  next
    case True
    then have "removeSession (sessionUser x) x (?closed (systemCalls s + 1)) = s' \<or>
        removeSession (sessionUser x) x (?closed (systemCalls s + 2)) = s'"
      using assms(3) by (auto simp: closeSession_def called_def Let_def split: option.splits)
    then have "\<exists>k. systemCalls s \<le> k \<and> removeSession (sessionUser x) x (?closed k) = s'"
      by (elim disjE) (rule exI [of _ "systemCalls s + 1"], simp, rule exI [of _ "systemCalls s + 2"], simp)
    then obtain k where k: "systemCalls s \<le> k" "removeSession (sessionUser x) x (?closed k) = s'" by blast
    note r = removeSession_ok [OF same(1) k(2)]
    have o: "set (openSessions s') = set (openSessions s) - {x}" "tracked s' = tracked s - {x}" using r same(2) [of k] by auto
    moreover have "systemCalls s \<le> systemCalls s'" using r k(1) by (simp add: sameServers_def)
    ultimately have "openOk (P - {x}) s'" using bound opened by (auto simp: openOk_def intro: less_le_trans)
    with r same(2) same(3) [OF k(1)] show ?thesis by (blast intro: sameServers_trans)
  qed
qed

lemma sameServers_refl: "sameServers s s"
  by (simp add: sameServers_def)

lemma trackSession_ok:
  assumes "sessionTable s" and "openOk (insert x P) s" and "x \<in> set (openSessions s)"
    and "trackSession (sessionUser x) x s = (e, s')" and "x \<notin> tracked s"
  shows "sessionTable s' \<and> openOk (if e = [] then P else insert x P) s' \<and> tracked s' = tracked s \<union> (if e = [] then {x} else {}) \<and>
     (e \<noteq> [] \<longrightarrow> s' = s) \<and> sameServers s s' \<and> openSessions s' = openSessions s \<and>
     (e = [] \<longrightarrow> map_of (proxyActive s) (trim_space (sessionUser x)) \<noteq> None)"
proof (cases "trim_space (sessionUser x) = [] \<or> map_of (proxyActive s) (trim_space (sessionUser x)) = None")
  case True
  with assms(4) have "s' = s \<and> e \<noteq> []" by (auto simp: trackSession_def Let_def split: if_splits)
  with assms show ?thesis by (auto simp: sameServers_def)
next
  case False
  let ?u = "trim_space (sessionUser x)"
  obtain l where l_def: "(case map_of (proxySessions s) ?u of None \<Rightarrow> [] | Some l \<Rightarrow> l) = l" by simp
  from False obtain i where "?u \<noteq> []" "map_of (proxyActive s) ?u = Some i" by auto
  then have t: "trackSession (sessionUser x) x s = ([], s\<lparr>proxySessions := AList.update ?u (x # filter (\<lambda>y. y \<noteq> x) l) (proxySessions s)\<rparr>)"
    by (simp add: trackSession_def Let_def l_def)
  have s': "e = []" "s' = s\<lparr>proxySessions := AList.update ?u (x # filter (\<lambda>y. y \<noteq> x) l) (proxySessions s)\<rparr>"
    using assms(4) unfolding t by (metis prod.inject)+
  have m: "map_of (proxySessions s') v = (if v = ?u then Some (x # filter (\<lambda>y. y \<noteq> x) l) else map_of (proxySessions s) v)" for v
    by (simp add: s' update_conv')
  have l: "trim_space (sessionUser y) = ?u" if "y \<in> set l" for y
    using that sessionTableD(4) [OF assms(1)] l_def by (auto split: option.splits)
  have "sessionTable s'"
  proof (rule sessionTableI)
    show "distinct (map fst (proxySessions s'))" using assms(1) by (simp add: s' sessionTable_def distinct_update)
    fix v k assume "map_of (proxySessions s') v = Some k"
    then consider "v = ?u" "k = x # filter (\<lambda>y. y \<noteq> x) l" | "map_of (proxySessions s) v = Some k"
      unfolding m by (cases "v = ?u") simp_all
    then show "v \<noteq> [] \<and> k \<noteq> [] \<and> map_of (proxyActive s') v \<noteq> None \<and> (\<forall>y \<in> set k. trim_space (sessionUser y) = v)"
    proof cases
      case 1
      have "trim_space (sessionUser y) = ?u" if "y \<in> set k" for y
        using that l [of y] unfolding 1(2) by (cases "y = x") simp_all
      moreover have "v \<noteq> []" "k \<noteq> []" "map_of (proxyActive s') v \<noteq> None" using 1 False by (simp_all add: s')
      ultimately show ?thesis using 1(1) by blast
    next
      case 2
      with sessionTableD [OF assms(1) 2] show ?thesis by (simp add: s')
    qed
  qed
  moreover have "tracked s' = insert x (tracked s)" unfolding tracked_def m using l_def by (auto split: option.splits if_splits)
  ultimately show ?thesis using assms(2,3) s' False by (auto simp: openOk_def sameServers_def)
qed

lemma takeUserSessionsLocked_ok:
  assumes "takeUserSessionsLocked u s = (xs, s')" and "sessionTable s"
  shows "sessionTable s' \<and> tracked s' = tracked s - set xs \<and> set xs = {x \<in> tracked s. trim_space (sessionUser x) = u} \<and>
     sameServers s s' \<and> openSessions s' = openSessions s"
proof (cases "map_of (proxySessions s) u")
  case None
  with assms show ?thesis by (auto simp: takeUserSessionsLocked_def tracked_def sameServers_def)
next
  case (Some l)
  have l: "l \<noteq> []" "\<And>x. x \<in> set l \<Longrightarrow> trim_space (sessionUser x) = u" using sessionTableD [OF assms(2) Some] by auto
  have s': "xs = l" "s' = s\<lparr>proxySessions := AList.delete u (proxySessions s)\<rparr>"
    using assms(1) Some l(1) by (cases l; auto simp: takeUserSessionsLocked_def)+
  have m: "map_of (proxySessions s') v = (if v = u then None else map_of (proxySessions s) v)" for v
    by (simp add: s' delete_conv')
  have "sessionTable s'"
  proof (rule sessionTableI)
    show "distinct (map fst (proxySessions s'))" using assms(2) by (simp add: s' sessionTable_def distinct_delete)
    fix v k assume "map_of (proxySessions s') v = Some k"
    then have "map_of (proxySessions s) v = Some k" unfolding m by (auto split: if_splits)
    with sessionTableD [OF assms(2) this]
    show "v \<noteq> [] \<and> k \<noteq> [] \<and> map_of (proxyActive s') v \<noteq> None \<and> (\<forall>y \<in> set k. trim_space (sessionUser y) = v)"
      by (simp add: s')
  qed
  moreover have t: "set l = {x \<in> tracked s. trim_space (sessionUser x) = u}"
  proof -
    have "x \<in> set l \<longleftrightarrow> x \<in> tracked s \<and> trim_space (sessionUser x) = u" for x
      using Some l(2) [of x] by (cases "trim_space (sessionUser x) = u") (auto simp: tracked_def)
    then show ?thesis by blast
  qed
  moreover have "tracked s' = tracked s - set l"
  proof -
    have "x \<in> tracked s' \<longleftrightarrow> x \<in> tracked s \<and> trim_space (sessionUser x) \<noteq> u" for x
      by (cases "trim_space (sessionUser x) = u") (simp_all add: tracked_def m)
    then show ?thesis unfolding t by blast
  qed
  ultimately show ?thesis using s' by (simp add: sameServers_def)
qed

lemma takeAllSessionsLocked_ok:
  assumes "takeAllSessionsLocked s = (xs, s')" and "sessionTable s"
  shows "sessionTable s' \<and> tracked s' = {} \<and> set xs = tracked s \<and> sameServers s s' \<and> openSessions s' = openSessions s \<and> proxySessions s' = []"
proof -
  have d: "distinct (map fst (proxySessions s))" using assms(2) by (simp add: sessionTable_def)
  have s': "xs = concat (map snd (proxySessions s))" "s' = s\<lparr>proxySessions := []\<rparr>" using assms(1) by (simp_all add: takeAllSessionsLocked_def)
  have "x \<in> set xs \<longleftrightarrow> x \<in> tracked s" for x
  proof
    assume "x \<in> set xs"
    then obtain u l where "(u, l) \<in> set (proxySessions s)" "x \<in> set l" by (auto simp: s')
    moreover from this have "map_of (proxySessions s) u = Some l" using d by simp
    ultimately show "x \<in> tracked s" using sessionTableD(4) [OF assms(2)] by (auto simp: tracked_def)
  next
    assume "x \<in> tracked s"
    then show "x \<in> set xs" by (force simp: tracked_def s' dest: map_of_SomeD)
  qed
  then show ?thesis by (auto simp: s' sessionTable_def tracked_def sameServers_def)
qed

section \<open>Every operation keeps this\<close>

text \<open>\<open>P\<close> are sessions that were taken out of the table and may still be open, as somebody is about to close them.\<close>

definition proxyInvWith :: "proxySession set \<Rightarrow> proxyState \<Rightarrow> bool" where
  "proxyInvWith P s \<longleftrightarrow> sessionTable s \<and> openOk P s \<and>
     (stopped s \<or> serving s \<and> proxyActive s \<noteq> [] \<and> trim_space (proxyPassword (proxyCfg s)) \<noteq> [])"

definition proxyInv :: "proxyState \<Rightarrow> bool" where
  "proxyInv s \<longleftrightarrow> proxyInvWith {} s"

lemma proxyInvWith_mono: "proxyInvWith P s \<Longrightarrow> P \<subseteq> Q \<Longrightarrow> proxyInvWith Q s"
  by (auto simp: proxyInvWith_def intro: openOk_mono)

lemma servers_kept: "sameServers s s' \<Longrightarrow> stopped s' = stopped s \<and> serving s' = serving s"
  by (auto simp: sameServers_def stopped_def serving_def)

lemma inv_new: "proxyInv (newProxy cfg)"
  by (simp add: proxyInv_def proxyInvWith_def newProxy_def sessionTable_def openOk_def tracked_def stopped_def)

lemma sessionTable_active:
  assumes "sessionTable s" and "\<And>u l. map_of (proxySessions s) u = Some l \<Longrightarrow> map_of a u \<noteq> None"
  shows "sessionTable (s\<lparr>proxyActive := a\<rparr>)"
  using sessionTableD [OF assms(1)] assms by (intro sessionTableI) (auto simp: sessionTable_def simp del: not_None_eq)

lemma tables_unaffected:
  "tracked (s\<lparr>proxyActive := a\<rparr>) = tracked s" "openOk P (s\<lparr>proxyActive := a\<rparr>) = openOk P s"
  "tracked (s\<lparr>proxyCfg := c\<rparr>) = tracked s" "openOk P (s\<lparr>proxyCfg := c\<rparr>) = openOk P s" "sessionTable (s\<lparr>proxyCfg := c\<rparr>) = sessionTable s"
  "stopped (s\<lparr>proxyActive := a\<rparr>) = stopped s" "serving (s\<lparr>proxyActive := a\<rparr>) = serving s"
  "stopped (s\<lparr>proxyCfg := c\<rparr>) = stopped s" "serving (s\<lparr>proxyCfg := c\<rparr>) = serving s"
  by (simp_all add: tracked_def openOk_def sessionTable_def stopped_def serving_def)

text \<open>Closing a session, and closing what was taken out of the table while others keep the invariant.\<close>

lemma inv_closeSession:
  assumes "proxyInvWith P s" and "closeSession sys x s = (e, s')"
  shows "proxyInvWith (P - {x}) s' \<and> tracked s' = tracked s - {x} \<and> sameServers s s'"
proof -
  have c: "sessionTable s' \<and> openOk (P - {x}) s' \<and> tracked s' = tracked s - {x} \<and> sameServers s s'"
    using assms by (intro closeSession_ok) (simp_all add: proxyInvWith_def)
  with assms(1) servers_kept [of s s'] show ?thesis by (auto simp: proxyInvWith_def sameServers_def)
qed

definition keepsInv :: "(proxyState \<Rightarrow> proxyState) \<Rightarrow> bool" where
  "keepsInv d \<longleftrightarrow> (\<forall>P s. proxyInvWith P s \<longrightarrow> proxyInvWith P (d s))"

lemma keepsInvD: "keepsInv d \<Longrightarrow> proxyInvWith P s \<Longrightarrow> proxyInvWith P (d s)"
  by (simp add: keepsInv_def)

lemma close_others:
  "list_all keepsInv during \<Longrightarrow> proxyInvWith (P \<union> set xs) s \<Longrightarrow> proxyInvWith P (snd (closeProxySessions sys during xs s))"
proof (induction sys during xs s rule: closeProxySessions.induct)
  case (2 sys d during s)
  then show ?case by (simp add: keepsInvD)
next
  case (3 sys x xs s)
  obtain e s1 where 1: "closeSession sys x s = (e, s1)" by force
  with 3(3) have "proxyInvWith (P \<union> set (x # xs) - {x}) s1" by (blast dest: inv_closeSession)
  then have "proxyInvWith (P \<union> set xs) s1" by (rule proxyInvWith_mono) auto
  with 3 1 show ?case by (simp add: split_beta)
next
  case (4 sys d during x xs s)
  obtain e s1 where 1: "closeSession sys x (d s) = (e, s1)" by force
  have "proxyInvWith (P \<union> set (x # xs)) (d s)" using 4(2,3) by (simp add: keepsInvD)
  with 1 have "proxyInvWith (P \<union> set (x # xs) - {x}) s1" by (blast dest: inv_closeSession)
  then have "proxyInvWith (P \<union> set xs) s1" by (rule proxyInvWith_mono) auto
  with 4 1 show ?case by (simp add: split_beta)
qed simp

lemma close_alone:
  "proxyInvWith P s \<Longrightarrow> closeProxySessions sys [] xs s = (e, s') \<Longrightarrow> tracked s' = tracked s - set xs \<and> sameServers s s'"
proof (induction xs arbitrary: P s e)
  case (Cons x xs)
  obtain e1 s1 where 1: "closeSession sys x s = (e1, s1)" by force
  note c = inv_closeSession [OF Cons.prems(1) 1]
  obtain e2 where "closeProxySessions sys [] xs s1 = (e2, s')" using Cons.prems(2) 1 by (auto split: prod.splits)
  with Cons.IH c have "tracked s' = tracked s1 - set xs \<and> sameServers s1 s'" by blast
  with c show ?case using sameServers_trans by auto
qed (simp add: sameServers_refl)

lemma close_taken:
  assumes "proxyInvWith (P \<union> set xs) s" and "tracked s \<inter> set xs = {}" and "list_all keepsInv during"
    and "closeProxySessions sys during xs s = (e, s')"
  shows "proxyInvWith P s' \<and> (during = [] \<longrightarrow> tracked s' = tracked s \<and> sameServers s s')"
proof -
  have "tracked s - set xs = tracked s" using assms(2) by blast
  with close_others [OF assms(3,1), of sys] close_alone [OF assms(1), of sys xs e s'] assms(4) show ?thesis by auto
qed

lemma open_after_take:
  assumes "openOk P s" and "openSessions s' = openSessions s" and "tracked s = tracked s' \<union> set xs" and "systemCalls s \<le> systemCalls s'"
  shows "openOk (P \<union> set xs) s'"
  using assms by (auto simp: openOk_def intro: less_le_trans)

text \<open>All sessions are taken and the servers stopped, then perhaps started again.\<close>

lemma inv_restart:
  assumes "proxyInvWith P s" and "takeAllSessionsLocked s = (xs, s1)" and "stopLocked sys s1 = (e1, s2)"
    and "sameTables (s2\<lparr>proxyCfg := cfg\<rparr>) s3" and "stopped s3 \<or> serving s3 \<and> proxyActive s3 \<noteq> [] \<and> trim_space (proxyPassword cfg) \<noteq> []"
    and "list_all keepsInv during" and "closeProxySessions sys during xs s3 = (e3, s4)"
  shows "proxyInvWith P s4 \<and> (during = [] \<longrightarrow> proxyActive s4 = proxyActive s \<and> proxyCfg s4 = cfg \<and> tracked s4 = {})"
proof -
  have inv: "sessionTable s" "openOk P s" "stopped s \<or> serving s" using assms(1) by (auto simp: proxyInvWith_def)
  note t = takeAllSessionsLocked_ok [OF assms(2) inv(1)]
  have "stopped s1 \<or> serving s1" using inv(3) servers_kept [of s s1] t by blast
  from stopLocked_ok [OF assms(3) this] have stop: "sameTables s1 s2" "stopped s2" by auto
  have "openOk (P \<union> set xs) s1" using t by (intro open_after_take [OF inv(2)]) (auto simp: sameServers_def)
  then have 3: "sessionTable s3" "tracked s3 = {}" "openOk (P \<union> set xs) s3"
    using tables_kept [OF stop(1)] tables_kept [OF assms(4)] t by (simp_all add: tables_unaffected)
  have kept: "proxyActive s3 = proxyActive s" "proxyCfg s3 = cfg"
    using t stop(1) assms(4) by (simp_all add: sameTables_def sameServers_def)
  with 3 assms(5) have "proxyInvWith (P \<union> set xs) s3" by (auto simp: proxyInvWith_def)
  from close_taken [OF this _ assms(6,7)] 3(2) kept show ?thesis by (auto simp: sameServers_def)
qed

lemma inv_UpdateConfig:
  assumes inv: "proxyInvWith P s" and calm: "list_all keepsInv during" and "UpdateConfig sys during cfg s = (e', s')"
  shows "proxyInvWith P s' \<and> (during = [] \<longrightarrow> proxyActive s' = proxyActive s \<and> tracked s' \<subseteq> tracked s)"
proof (cases "proxyCfg s = cfg")
  case False
  obtain xs s1 where 1: "takeAllSessionsLocked s = (xs, s1)" by force
  obtain e1 s2 where 2: "stopLocked sys s1 = (e1, s2)" by force
  have "stopped s1 \<or> serving s1"
    using inv takeAllSessionsLocked_ok [OF 1] servers_kept [of s s1] by (auto simp: proxyInvWith_def)
  from stopLocked_ok [OF 2 this] have stop: "stopped s2" "proxyActive s2 = proxyActive s1" by (auto simp: sameTables_def)
  have same: "sameTables (s2\<lparr>proxyCfg := c\<rparr>) (s2\<lparr>proxyCfg := c\<rparr>)" for c by (rule sameTables_refl)
  let ?start = "proxyActive s2 \<noteq> [] \<and> trim_space (proxyPassword cfg) \<noteq> []"
  obtain e3 s3 where 3: "(if ?start then startLocked sys (s2\<lparr>proxyCfg := cfg\<rparr>) else ([], s2\<lparr>proxyCfg := cfg\<rparr>)) = (e3, s3)" by force
  have started: "sameTables (s2\<lparr>proxyCfg := cfg\<rparr>) s3" "if e3 = [] \<and> ?start then serving s3 else stopped s3"
    using 3 startLocked_ok [of sys "s2\<lparr>proxyCfg := cfg\<rparr>" e3 s3] stop(1) same by (auto simp: tables_unaffected split: if_splits)
  show ?thesis
  proof (cases "e3 = []")
    case True
    obtain e4 s4 where 4: "closeProxySessions sys during xs s3 = (e4, s4)" by force
    have "proxyActive s3 = proxyActive s2" using started(1) by (simp add: sameTables_def)
    with started(2) True have "stopped s3 \<or> serving s3 \<and> proxyActive s3 \<noteq> [] \<and> trim_space (proxyPassword cfg) \<noteq> []"
      by (auto split: if_splits)
    from inv_restart [OF inv 1 2 started(1) this calm 4] show ?thesis
      using False 1 2 3 4 True assms(3) by (simp add: UpdateConfig_def)
  next
    case start: False
    obtain e4 s4 where 4: "stopLocked sys s3 = (e4, s4)" by force
    have "stopped s3" using started(2) start by (auto split: if_splits)
    with stopLocked_ok [OF 4] have 44: "sameTables s3 s4" "stopped s4" by auto
    let ?restore = "trim_space (proxyPassword (proxyCfg s)) \<noteq> []" and ?s4 = "s4\<lparr>proxyCfg := proxyCfg s\<rparr>"
    obtain e5 s5 where 5: "(if ?restore then startLocked sys ?s4 else ([], ?s4)) = (e5, s5)" by force
    have r: "sameTables ?s4 s5" "if e5 = [] \<and> ?restore then serving s5 else stopped s5"
      using 5 startLocked_ok [of sys ?s4 e5 s5] 44(2) sameTables_refl by (auto simp: tables_unaffected split: if_splits)
    obtain e6 s6 where 6: "closeProxySessions sys during xs s5 = (e6, s6)" by force
    have "sameTables (s2\<lparr>proxyCfg := proxyCfg s\<rparr>) s5" using started(1) 44(1) r(1) by (simp add: sameTables_def)
    moreover have "proxyActive s5 \<noteq> []"
      using 3 start started(1) 44(1) r(1) by (auto simp: sameTables_def split: if_splits)
    ultimately have "proxyInvWith P s6 \<and> (during = [] \<longrightarrow> proxyActive s6 = proxyActive s \<and> tracked s6 = {})"
      using inv_restart [OF inv 1 2 _ _ calm 6, of "proxyCfg s"] r(2) by (auto split: if_splits)
    with False 1 2 3 4 5 6 start assms(3) show ?thesis by (simp add: UpdateConfig_def Let_def)
  qed
qed (use assms in \<open>simp add: UpdateConfig_def\<close>)

lemma inv_handleServeExit:
  assumes inv: "proxyInvWith P s" and server: "http \<noteq> None \<or> socks \<noteq> None" and calm: "list_all keepsInv during"
    and "handleServeExit sys during http socks s = (e', s')"
  shows "proxyInvWith P s' \<and> (during = [] \<longrightarrow> proxyActive s' = proxyActive s \<and> tracked s' \<subseteq> tracked s)"
proof -
  show ?thesis
  proof (cases "http \<noteq> None \<and> httpServer s \<noteq> http \<or> socks \<noteq> None \<and> socksServer s \<noteq> socks")
    case True
    then have "s' = s" using assms(4) by (auto simp: handleServeExit_def split: if_splits)
    with inv show ?thesis by simp
  next
    case False
    with server have "\<not> stopped s" by (auto simp: stopped_def)
    with inv have pw: "trim_space (proxyPassword (proxyCfg s)) \<noteq> []" by (simp add: proxyInvWith_def)
    obtain xs s1 where 1: "takeAllSessionsLocked s = (xs, s1)" by force
    obtain e1 s2 where 2: "stopLocked sys s1 = (e1, s2)" by force
    have t: "sameServers s s1" using inv takeAllSessionsLocked_ok [OF 1] by (simp add: proxyInvWith_def)
    have "stopped s1 \<or> serving s1" using inv servers_kept [OF t] by (auto simp: proxyInvWith_def)
    from stopLocked_ok [OF 2 this] have stop: "stopped s2" "sameTables s1 s2" by auto
    obtain e3 s3 where 3: "(if proxyActive s2 \<noteq> [] then startLocked sys s2 else ([], s2)) = (e3, s3)" by force
    have r: "sameTables s2 s3" "if e3 = [] \<and> proxyActive s2 \<noteq> [] then serving s3 else stopped s3"
      using 3 startLocked_ok [of sys s2 e3 s3] stop(1) sameTables_refl by (auto split: if_splits)
    obtain e4 s4 where 4: "closeProxySessions sys during xs s3 = (e4, s4)" by force
    have "proxyCfg s2 = proxyCfg s" using stop(2) t by (simp add: sameTables_def sameServers_def)
    then have "s2\<lparr>proxyCfg := proxyCfg s\<rparr> = s2" by simp
    moreover have "proxyActive s3 = proxyActive s2" using r(1) by (simp add: sameTables_def)
    ultimately have "proxyInvWith P s4 \<and> (during = [] \<longrightarrow> proxyActive s4 = proxyActive s \<and> tracked s4 = {})"
      using inv_restart [OF inv 1 2 _ _ calm 4, of "proxyCfg s"] r pw by (auto split: if_splits)
    moreover have "s' = s4" using False 1 2 3 4 assms(4) unfolding handleServeExit_def by (simp only: if_False simp_thms de_Morgan_disj prod.case Let_def) simp
    ultimately show ?thesis by simp
  qed
qed

lemma map_of_update_some: "map_of (AList.update u i a) v \<noteq> None \<longleftrightarrow> v = u \<or> map_of a v \<noteq> None"
  by (simp add: update_conv')

lemma update_not_Nil: "AList.update u i a \<noteq> []"
  by (cases a) (auto split: if_splits)

lemma inv_Register:
  assumes inv: "proxyInvWith P s" and calm: "list_all keepsInv during" and "Register sys during u i s = (r', s')"
  shows "proxyInvWith P s' \<and> (during = [] \<longrightarrow> tracked s' \<subseteq> tracked s \<and> (\<forall>v. map_of (proxyActive s') v = map_of (proxyActive s) v \<or>
    v = trim_space u \<and> trim_space i \<noteq> [] \<and> map_of (proxyActive s') v = Some (trim_space i) \<and>
    ((\<forall>x \<in> tracked s'. trim_space (sessionUser x) \<noteq> v) \<or> map_of (proxyActive s) v \<in> {Some [], Some (trim_space i)})))"
proof (cases "trim_space u = [] \<or> trim_space i = [] \<or> trim_space (proxyPassword (proxyCfg s)) = []")
  case False
  let ?u = "trim_space u" and ?i = "trim_space i"
  let ?s1 = "s\<lparr>proxyActive := AList.update ?u ?i (proxyActive s)\<rparr>" and ?old = "map_of (proxyActive s) ?u"
  obtain e s2 where 2: "ensureStartedLocked sys ?s1 = (e, s2)" by force
  have sv: "stopped s \<or> serving s" and table: "sessionTable s" "openOk P s" using inv by (auto simp: proxyInvWith_def)
  have 1: "sessionTable ?s1" using sessionTableD(3) [OF table(1)] by (intro sessionTable_active [OF table(1)]) (simp add: map_of_update_some del: not_None_eq)
  from ensureStartedLocked_ok [OF 2] sv have r: "sameTables ?s1 s2" "if e = [] then serving s2 else stopped s2"
    by (auto simp: tables_unaffected)
  have t2: "sessionTable s2" "openOk P s2" using tables_kept [OF r(1)] 1 table(2) by (auto simp: tables_unaffected)
  have kept: "proxySessions s2 = proxySessions s" "proxyActive s2 = AList.update ?u ?i (proxyActive s)" "proxyCfg s2 = proxyCfg s"
    using r(1) by (simp_all add: sameTables_def)
  show ?thesis
  proof (cases "e = []")
    case err: False
    let ?a = "case ?old of Some j \<Rightarrow> AList.update ?u j (proxyActive s2) | None \<Rightarrow> AList.delete ?u (proxyActive s2)"
    have a: "map_of ?a v = map_of (proxyActive s) v" for v
      by (cases "v = ?u") (auto simp: kept update_conv' delete_conv' split: option.splits)
    then have "sessionTable (s2\<lparr>proxyActive := ?a\<rparr>)"
      using sessionTableD(3) [OF table(1)] kept(1) by (intro sessionTable_active [OF t2(1)]) simp
    then have "proxyInvWith P (s2\<lparr>proxyActive := ?a\<rparr>)" using t2(2) r(2) err by (simp add: proxyInvWith_def tables_unaffected)
    moreover have "s' = s2\<lparr>proxyActive := ?a\<rparr>" using False 2 err assms(3) by (simp add: Register_def Let_def)
    moreover have "tracked s2 = tracked s" using tables_kept(2) [OF r(1)] by (simp add: tables_unaffected)
    ultimately show ?thesis using a by (simp add: tables_unaffected)
  next
    case True
    let ?take = "case ?old of Some j \<Rightarrow> if j \<noteq> [] \<and> j \<noteq> ?i then takeUserSessionsLocked ?u s2 else ([], s2) | None \<Rightarrow> ([], s2)"
    obtain xs s3 where 3: "?take = (xs, s3)" by force
    obtain e4 s4 where 4: "closeProxySessions sys during xs s3 = (e4, s4)" by force
    have "sameServers s2 s2" by (simp add: sameServers_def)
    then have t3: "sessionTable s3" "tracked s3 = tracked s2 - set xs" "set xs \<subseteq> tracked s2" "sameServers s2 s3" "openSessions s3 = openSessions s2"
      using 3 takeUserSessionsLocked_ok [of ?u s2 xs s3, OF _ t2(1)] t2(1) by (auto split: option.splits if_splits)
    have gone: "(\<forall>x \<in> tracked s3. trim_space (sessionUser x) \<noteq> ?u) \<or> ?old \<in> {Some [], Some ?i}"
    proof (cases ?old)
      case None
      then have "\<forall>x \<in> tracked s. trim_space (sessionUser x) \<noteq> ?u" using sessionTableD(3) [OF table(1)] by (force simp: tracked_def)
      moreover have "tracked s2 = tracked s" using tables_kept(2) [OF r(1)] by (simp add: tables_unaffected)
      ultimately show ?thesis using t3(2) by blast
    next
      case (Some j)
      show ?thesis
      proof (cases "j \<noteq> [] \<and> j \<noteq> ?i")
        case True
        with Some 3 have "takeUserSessionsLocked ?u s2 = (xs, s3)" by simp
        from takeUserSessionsLocked_ok [OF this t2(1)] show ?thesis by blast
      qed (use Some in auto)
    qed
    have "openOk (P \<union> set xs) s3" using t3 by (intro open_after_take [OF t2(2)]) (auto simp: sameServers_def)
    moreover have "serving s3" "proxyActive s3 \<noteq> []" "proxyCfg s3 = proxyCfg s"
      using servers_kept [of s2 s3] t3(4) r(2) True kept update_not_Nil by (auto simp: sameServers_def)
    ultimately have "proxyInvWith (P \<union> set xs) s3" using False t3(1) by (simp add: proxyInvWith_def)
    from close_taken [OF this _ calm 4] t3(2)
    have c: "proxyInvWith P s4" "during = [] \<Longrightarrow> tracked s4 = tracked s3 \<and> sameServers s3 s4" by auto
    have s': "s' = s4" using False 2 3 4 True assms(3) by (simp add: Register_def Let_def)
    show ?thesis
    proof (cases "during = []")
      case True
      from c(2) [OF this] have d: "tracked s4 = tracked s3" "sameServers s3 s4" by auto
      have "proxyActive s4 = AList.update ?u ?i (proxyActive s)" using d(2) t3(4) kept(2) by (simp add: sameServers_def)
      moreover have "tracked s4 \<subseteq> tracked s" using d(1) t3(2) tables_kept(2) [OF r(1)] by (auto simp: tables_unaffected)
      ultimately show ?thesis using gone c(1) d(1) s' False by (simp add: update_conv')
    qed (use c(1) s' in simp)
  qed
qed (use assms in \<open>auto simp: Register_def Let_def split: if_splits\<close>)

lemma takeUserSessionsLocked_active:
  "takeUserSessionsLocked u (s\<lparr>proxyActive := a\<rparr>) = (case takeUserSessionsLocked u s of (xs, s') \<Rightarrow> (xs, s'\<lparr>proxyActive := a\<rparr>))"
  by (auto simp: takeUserSessionsLocked_def split: option.splits list.splits)

text \<open>Unregistering closes what the user has open, and everything with the last user.\<close>

lemma inv_Unregister:
  assumes "proxyInvWith P s" and "trim_space u \<noteq> []" and calm: "list_all keepsInv during" and "Unregister sys during u s = (e, s')"
  shows "proxyInvWith P s' \<and> (during = [] \<longrightarrow> tracked s' \<subseteq> tracked s \<and> map_of (proxyActive s') = (map_of (proxyActive s)) (trim_space u := None) \<and>
    (\<forall>x \<in> tracked s'. trim_space (sessionUser x) \<noteq> trim_space u))"
proof -
  let ?u = "trim_space u"
  let ?a = "AList.delete ?u (proxyActive s)"
  have table: "sessionTable s" "openOk P s" and sv: "stopped s \<or> serving s" using assms(1) by (auto simp: proxyInvWith_def)
  obtain xs s1 where 1: "takeUserSessionsLocked ?u s = (xs, s1)" by force
  note t = takeUserSessionsLocked_ok [OF 1 table(1)]
  let ?s1 = "s1\<lparr>proxyActive := ?a\<rparr>"
  have "map_of (proxySessions s1) ?u = None"
  proof (rule ccontr)
    assume "map_of (proxySessions s1) ?u \<noteq> None"
    then obtain l where l: "map_of (proxySessions s1) ?u = Some l" by auto
    then obtain x where "x \<in> set l" using sessionTableD(2) [of s1 ?u l] t by (cases l) auto
    moreover from this have "trim_space (sessionUser x) = ?u" using sessionTableD(4) [OF _ l] t by blast
    ultimately have "x \<in> tracked s1" "trim_space (sessionUser x) = ?u" using l by (simp_all add: tracked_def)
    with t show False by blast
  qed
  then have "sessionTable ?s1"
    using t sessionTableD(3) [of s1] by (intro sessionTable_active) (auto simp: delete_conv' sameServers_def simp del: not_None_eq)
  moreover have "openOk (P \<union> set xs) ?s1"
    using t open_after_take [OF table(2), of s1 xs] by (auto simp: tables_unaffected sameServers_def)
  moreover have "tracked ?s1 = tracked s - set xs" "stopped ?s1 \<or> serving ?s1"
    using t sv servers_kept [of s s1] by (auto simp: tables_unaffected)
  ultimately have 11: "sessionTable ?s1" "openOk (P \<union> set xs) ?s1" "tracked ?s1 = tracked s - set xs" "stopped ?s1 \<or> serving ?s1" by auto
  show ?thesis
  proof (cases "?a = []")
    case False
    obtain e2 s2 where 2: "closeProxySessions sys during xs ?s1 = (e2, s2)" by force
    have kept: "proxyActive s1 = proxyActive s" "proxyCfg ?s1 = proxyCfg s" "stopped ?s1 = stopped s" "serving ?s1 = serving s"
      using servers_kept [of s s1] t by (simp_all add: tables_unaffected sameServers_def)
    have "proxyInvWith (P \<union> set xs) ?s1" using 11(1,2) assms(1) kept False by (auto simp: proxyInvWith_def)
    from close_taken [OF this _ calm 2] 11(3)
    have c: "proxyInvWith P s2" "during = [] \<Longrightarrow> tracked s2 = tracked s - set xs \<and> sameServers ?s1 s2" by auto
    have "s' = s2" using assms(2,4) 1 2 False by (simp add: Unregister_def takeUserSessionsLocked_active Let_def)
    with c t show ?thesis by (auto simp: delete_conv' sameServers_def)
  next
    case True
    obtain rest s2 where 2: "takeAllSessionsLocked ?s1 = (rest, s2)" by force
    obtain e3 s3 where 3: "stopLocked sys s2 = (e3, s3)" by force
    obtain e4 s4 where 4: "closeProxySessions sys during (xs @ rest) s3 = (e4, s4)" by force
    note a = takeAllSessionsLocked_ok [OF 2 11(1)]
    have "stopped s2 \<or> serving s2" using a 11(4) servers_kept [of ?s1 s2] by blast
    from stopLocked_ok [OF 3 this] have st: "sameTables s2 s3" "stopped s3" by auto
    have "openOk (P \<union> set (xs @ rest)) s2"
      using a 11(2) by (auto simp: openOk_def sameServers_def intro: less_le_trans)
    with tables_kept [OF st(1)] a st(2) have "proxyInvWith (P \<union> set (xs @ rest)) s3" "tracked s3 = {}" by (auto simp: proxyInvWith_def)
    with close_taken [OF _ _ calm 4, of P]
    have c: "proxyInvWith P s4" "during = [] \<Longrightarrow> tracked s4 = {} \<and> sameServers s3 s4" by auto
    have "s' = s4" using assms(2,4) 1 2 3 4 True by (simp add: Unregister_def takeUserSessionsLocked_active Let_def)
    moreover have "during = [] \<Longrightarrow> proxyActive s4 = []" using c(2) st(1) a True by (simp add: sameServers_def sameTables_def)
    moreover have "(map_of (proxyActive s)) (?u := None) = Map.empty" using True delete_conv' [of ?u "proxyActive s"] by simp
    ultimately show ?thesis using c by auto
  qed
qed

text \<open>A fresh session that is opened and then tracked, or closed again.\<close>

lemma opened:
  assumes "proxyInvWith P s" and "sessionID x = systemCalls s" and "x = y"
  shows "x \<notin> tracked s" "sessionTable (called (s\<lparr>openSessions := x # openSessions s\<rparr>))"
    "openOk (insert x P) (called (s\<lparr>openSessions := x # openSessions s\<rparr>))" "tracked (called (s\<lparr>openSessions := x # openSessions s\<rparr>)) = tracked s"
    "stopped (called (s\<lparr>openSessions := x # openSessions s\<rparr>)) = stopped s" "serving (called (s\<lparr>openSessions := x # openSessions s\<rparr>)) = serving s"
    "proxyCfg (called (s\<lparr>openSessions := x # openSessions s\<rparr>)) = proxyCfg s" "proxyActive (called (s\<lparr>openSessions := x # openSessions s\<rparr>)) = proxyActive s"
    "x \<in> set (openSessions (called (s\<lparr>openSessions := x # openSessions s\<rparr>)))"
proof -
  have o: "tracked s \<subseteq> set (openSessions s)" "set (openSessions s) \<subseteq> tracked s \<union> P" "\<forall>y \<in> set (openSessions s). sessionID y < systemCalls s"
    using assms(1) by (auto simp: proxyInvWith_def openOk_def)
  then show "x \<notin> tracked s" using assms(2) by fastforce
  have t: "tracked (called (s\<lparr>openSessions := x # openSessions s\<rparr>)) = tracked s" by (simp add: tracked_def called_def)
  then show "tracked (called (s\<lparr>openSessions := x # openSessions s\<rparr>)) = tracked s" .
  show "openOk (insert x P) (called (s\<lparr>openSessions := x # openSessions s\<rparr>))"
    unfolding openOk_def t using o assms(2) by (auto simp: called_def less_Suc_eq)
  show "sessionTable (called (s\<lparr>openSessions := x # openSessions s\<rparr>))" using assms(1) by (simp add: proxyInvWith_def sessionTable_def called_def)
qed (simp_all add: called_def stopped_def serving_def)

lemma inv_called: "proxyInvWith P s \<Longrightarrow> proxyInvWith P (called s)"
proof -
  assume inv: "proxyInvWith P s"
  have same: "tracked (called s) = tracked s" "sessionTable (called s) = sessionTable s" "stopped (called s) = stopped s" "serving (called s) = serving s"
    "openSessions (called s) = openSessions s" "proxyActive (called s) = proxyActive s" "proxyCfg (called s) = proxyCfg s"
    by (simp_all add: called_def tracked_def sessionTable_def stopped_def serving_def)
  have "openOk P (called s)" using inv unfolding proxyInvWith_def openOk_def same by (simp add: called_def less_SucI)
  then show ?thesis using inv unfolding proxyInvWith_def same by simp
qed

lemma inv_trackConn:
  assumes "proxyInvWith P s" and "sessionID x = systemCalls s"
    and "trackConn sys (sessionUser x) x (called (s\<lparr>openSessions := x # openSessions s\<rparr>)) = (r, s')"
  shows "proxyInvWith P s' \<and> proxyActive s' = proxyActive s \<and>
    (case r of Inr y \<Rightarrow> y = x \<and> tracked s' = insert x (tracked s) \<and> map_of (proxyActive s) (trim_space (sessionUser x)) \<noteq> None
     | Inl _ \<Rightarrow> tracked s' = tracked s)"
proof -
  let ?s1 = "called (s\<lparr>openSessions := x # openSessions s\<rparr>)"
  note o = opened [OF assms(1,2) refl]
  obtain e s2 where 2: "trackSession (sessionUser x) x ?s1 = (e, s2)" by force
  have t: "sessionTable s2" "openOk (if e = [] then P else insert x P) s2" "tracked s2 = tracked s \<union> (if e = [] then {x} else {})" "e \<noteq> [] \<Longrightarrow> s2 = ?s1"
      "sameServers ?s1 s2" "e = [] \<Longrightarrow> map_of (proxyActive s) (trim_space (sessionUser x)) \<noteq> None"
    using trackSession_ok [OF o(2,3,9) 2] o(1,4,8) by (simp_all split: if_splits)
  have sv: "stopped s2 = stopped s" "serving s2 = serving s" "proxyActive s2 = proxyActive s" "proxyCfg s2 = proxyCfg s"
    using servers_kept [OF t(5)] t(5) o(5-8) by (simp_all add: sameServers_def)
  show ?thesis
  proof (cases "e = []")
    case True
    then have "r = Inr x" "s' = s2" using assms(3) 2 by (simp_all add: trackConn_def)
    with True t sv assms(1) show ?thesis by (simp add: proxyInvWith_def)
  next
    case False
    let ?s3 = "called (s2\<lparr>openSessions := filter (\<lambda>y. y \<noteq> x) (openSessions s2)\<rparr>)"
    obtain e3 where "r = Inl e3" "s' = ?s3" using assms(3) 2 False by (cases e) (auto simp: trackConn_def)
    moreover have 3: "tracked ?s3 = tracked s" "sessionTable ?s3" using t(1,3) False by (simp_all add: tracked_def called_def sessionTable_def)
    moreover have "openOk P ?s3"
    proof -
      have "tracked s2 \<subseteq> set (openSessions s2)" "set (openSessions s2) \<subseteq> tracked s2 \<union> insert x P" "\<forall>y \<in> set (openSessions s2). sessionID y < systemCalls s2"
        using t(2) False by (simp_all add: openOk_def)
      then show ?thesis using o(1) t(3) False unfolding openOk_def 3(1) by (auto simp: called_def less_SucI)
    qed
    moreover have "stopped ?s3 = stopped s2" "serving ?s3 = serving s2" by (simp_all add: stopped_def serving_def called_def)
    ultimately show ?thesis using sv assms(1) by (simp add: proxyInvWith_def called_def)
  qed
qed

lemma inv_dial:
  assumes "proxyInvWith P s" and "keepsInv during"
  shows "proxyInvWith P (snd (dial sys during u network address s))"
proof (cases "trim_space u = [] \<or> map_of (proxyActive s) (trim_space u) = None")
  case True
  with assms(1) show ?thesis by (auto simp: dial_def Let_def)
next
  case False
  then obtain i where i: "trim_space u \<noteq> []" "map_of (proxyActive s) (trim_space u) = Some i" by auto
  let ?s = "during s" let ?x = "\<lparr>sessionID = systemCalls ?s, sessionUser = trim_space u, sessionInterface = Some i\<rparr>"
  obtain r s' where t: "trackConn sys (sessionUser ?x) ?x (called (?s\<lparr>openSessions := ?x # openSessions ?s\<rparr>)) = (r, s')" by force
  have "proxyInvWith P ?s" using assms by (simp add: keepsInvD)
  moreover from this have "proxyInvWith P s'" using inv_trackConn [OF _ _ t] by simp
  ultimately show ?thesis using i t inv_called [of P ?s] by (auto simp: dial_def Let_def split: dialResult.splits)
qed

lemma inv_associateSOCKS5:
  assumes "proxyInvWith P s" and "associateSOCKS5 sys a u s = (r', s')"
  shows "proxyInvWith P s' \<and> proxyActive s' = proxyActive s \<and> (\<forall>x \<in> tracked s'. x \<in> tracked s \<or> sessionInterface x = None)"
proof -
  let ?x = "\<lparr>sessionID = systemCalls s, sessionUser = u, sessionInterface = None\<rparr>"
  let ?s1 = "called (s\<lparr>openSessions := ?x # openSessions s\<rparr>)"
  have x: "sessionID ?x = systemCalls s" "sessionUser ?x = u" by simp_all
  note o = opened [OF assms(1) x(1) refl]
  obtain e s2 where 2: "trackSession u ?x ?s1 = (e, s2)" by force
  obtain e3 s3 where 3: "closeSession sys ?x s2 = (e3, s3)" by force
  have t: "sessionTable s2" "openOk (if e = [] then P else insert ?x P) s2" "sameServers ?s1 s2" "tracked s2 \<subseteq> insert ?x (tracked s)"
    using trackSession_ok [of ?s1 ?x P e s2] 2 o(1-4,9) by (simp_all add: subset_insertI split: if_splits)
  have c: "sessionTable s3" "openOk P s3" "sameServers s2 s3" "tracked s3 \<subseteq> tracked s2"
    using closeSession_ok [OF t(1,2) 3] openOk_mono [of _ s3 P] by (auto split: if_splits)
  have "stopped s2 = stopped s" "serving s2 = serving s" "stopped s3 = stopped s" "serving s3 = serving s"
      "proxyActive s2 = proxyActive s" "proxyCfg s2 = proxyCfg s" "proxyActive s3 = proxyActive s" "proxyCfg s3 = proxyCfg s"
    using servers_kept [OF t(3)] servers_kept [OF c(3)] t(3) c(3) o(5-8) by (simp_all add: sameServers_def)
  then have "e = [] \<Longrightarrow> proxyInvWith P s2" "proxyInvWith P s3" "proxyActive s2 = proxyActive s" "proxyActive s3 = proxyActive s"
    using t c assms(1) by (simp_all add: proxyInvWith_def)
  moreover have "s' = s \<or> s' = s3 \<or> e = [] \<and> s' = s2"
    using 2 3 assms(2) by (auto simp: associateSOCKS5_def Let_def split: if_splits)
  moreover have "\<forall>x \<in> tracked s2. x \<in> tracked s \<or> sessionInterface x = None" "\<forall>x \<in> tracked s3. x \<in> tracked s \<or> sessionInterface x = None"
    using t(4) c(4) by auto
  ultimately show ?thesis using assms(1) by (elim disjE) simp_all
qed

section \<open>Any order of operations\<close>

text \<open>
  What the callers and the system do: an open session may be closed at any time by its user, a server may fail, and anything else may
  happen while a connection is dialled and, after the lock is released, while an operation closes the sessions it has taken.
\<close>

datatype proxyOp =
    OpUpdateConfig "proxyOp list list" ProxyConfig
  | OpRegister "proxyOp list list" string string
  | OpUnregister "proxyOp list list" string
  | OpHTTPExit "proxyOp list list" nat
  | OpSOCKSExit "proxyOp list list" nat
  | OpClose proxySession
  | OpAssociate associateAnswers string
  | OpDial "proxyOp list" string string string

fun proxyStep :: "proxySystem \<Rightarrow> proxyOp \<Rightarrow> proxyState \<Rightarrow> proxyState" and proxyRun :: "proxySystem \<Rightarrow> proxyOp list \<Rightarrow> proxyState \<Rightarrow> proxyState" where
  "proxyStep sys (OpUpdateConfig during cfg) s = snd (UpdateConfig sys (map (proxyRun sys) during) cfg s)"
| "proxyStep sys (OpRegister during u i) s = snd (Register sys (map (proxyRun sys) during) u i s)"
| "proxyStep sys (OpUnregister during u) s = snd (Unregister sys (map (proxyRun sys) during) u s)"
| "proxyStep sys (OpHTTPExit during n) s = snd (handleServeExit sys (map (proxyRun sys) during) (Some n) None s)"
| "proxyStep sys (OpSOCKSExit during n) s = snd (handleServeExit sys (map (proxyRun sys) during) None (Some n) s)"
| "proxyStep sys (OpClose x) s = snd (closeSession sys x s)"
| "proxyStep sys (OpAssociate a u) s = snd (associateSOCKS5 sys a u s)"
| "proxyStep sys (OpDial ops u network address) s = snd (dial sys (proxyRun sys ops) u network address s)"
| "proxyRun sys [] s = s"
| "proxyRun sys (op # ops) s = proxyRun sys ops (proxyStep sys op s)"

lemma keepsInv_runs:
  "(\<And>ops P s. ops \<in> set during \<Longrightarrow> proxyInvWith P s \<Longrightarrow> proxyInvWith P (proxyRun sys ops s)) \<Longrightarrow> list_all keepsInv (map (proxyRun sys) during)"
  by (simp add: list_all_iff keepsInv_def)

lemma proxyInv_run:
  "proxyInvWith P s \<Longrightarrow> proxyInvWith P (proxyStep sys op s)" "proxyInvWith P s \<Longrightarrow> proxyInvWith P (proxyRun sys ops s)"
proof (induction sys op s and sys ops s arbitrary: P and P rule: proxyStep_proxyRun.induct)
  case (1 sys during cfg s)
  then show ?case using inv_UpdateConfig [OF _ keepsInv_runs surjective_pairing] by simp
next
  case (2 sys during u i s)
  then show ?case using inv_Register [OF _ keepsInv_runs surjective_pairing] by simp
next
  case (3 sys during u s)
  then show ?case
    using inv_Unregister [OF _ _ keepsInv_runs surjective_pairing] by (cases "trim_space u = []") (simp_all add: Unregister_def)
next
  case (4 sys during n s)
  then show ?case using inv_handleServeExit [OF _ _ keepsInv_runs surjective_pairing] by simp
next
  case (5 sys during n s)
  then show ?case using inv_handleServeExit [OF _ _ keepsInv_runs surjective_pairing] by simp
next
  case (6 sys x s)
  then have "proxyInvWith (P - {x}) (snd (closeSession sys x s))" using inv_closeSession [OF _ surjective_pairing] by blast
  then show ?case using proxyInvWith_mono by auto
next
  case (7 sys a u s)
  then show ?case using inv_associateSOCKS5 [OF _ surjective_pairing] by simp
next
  case (8 sys ops u network address s)
  then show ?case by (simp add: inv_dial keepsInv_def)
qed simp_all

lemma proxyInv_reached: "proxyInv (proxyRun sys ops (newProxy cfg))"
  using proxyInv_run(2) inv_new by (simp add: proxyInv_def)

section \<open>A user that is out\<close>




lemma active_removeSession [simp]: "proxyActive (removeSession u x s) = proxyActive s"
  by (simp add: removeSession_def Let_def split: option.splits)

lemma active_closeSession [simp]: "proxyActive (snd (closeSession sys x s)) = proxyActive s"
  by (simp add: closeSession_def called_def Let_def split: option.splits)

lemma active_takes [simp]:
  "proxyActive (snd (takeUserSessionsLocked u s)) = proxyActive s" "proxyActive (snd (takeAllSessionsLocked s)) = proxyActive s"
  by (simp_all add: takeUserSessionsLocked_def takeAllSessionsLocked_def split: option.splits list.splits)

lemma active_stop [simp]: "proxyActive (snd (stopLocked sys s)) = proxyActive s" "proxyCfg (snd (stopLocked sys s)) = proxyCfg s"
  by (simp_all add: stopLocked_def closeListener_def called_def Let_def)

lemma active_startHTTP [simp]: "proxyActive (snd (startHTTPProxyLocked sys s)) = proxyActive s"
  by (simp add: startHTTPProxyLocked_def called_def Let_def split: sum.split)

lemma active_startSOCKS [simp]: "proxyActive (snd (startSOCKS5ProxyLocked sys s)) = proxyActive s"
  by (simp add: startSOCKS5ProxyLocked_def called_def Let_def split: sum.split)

lemma active_start [simp]: "proxyActive (snd (startLocked sys s)) = proxyActive s"
  by (simp add: startLocked_def Let_def split_beta)

lemma active_ensure [simp]: "proxyActive (snd (ensureStartedLocked sys s)) = proxyActive s"
  by (simp add: ensureStartedLocked_def Let_def split_beta)

lemma active_trackConn [simp]: "proxyActive (snd (trackConn sys u x s)) = proxyActive s"
  by (simp add: trackConn_def trackSession_def called_def Let_def split: list.split)













section \<open>Properties\<close>

text \<open>
  C25: Whatever the callers do, in any order, also while connections are being dialled and while an operation closes the sessions it has
  taken, and whatever the system answers: when all of it has returned, exactly the
  connections in the table are open, each under its user's name, every user in the table has a binding, the two servers
  run together or not at all with nothing else listening, and they only run while there is a binding and a password.
\<close>
theorem proxy_wellformed: "proxyInv (proxyRun sys ops (newProxy cfg))"
  by (rule proxyInv_reached)



text \<open>Nothing happens while a connection is dialled or the sessions of an operation are closed.\<close>

fun sequentialOp :: "proxyOp \<Rightarrow> bool" where
  "sequentialOp (OpUpdateConfig during cfg) = (during = [])"
| "sequentialOp (OpRegister during u i) = (during = [])"
| "sequentialOp (OpUnregister during u) = (during = [])"
| "sequentialOp (OpHTTPExit during n) = (during = [])"
| "sequentialOp (OpSOCKSExit during n) = (during = [])"
| "sequentialOp (OpDial ops u network address) = (ops = [])"
| "sequentialOp _ = True"

definition boundInv :: "proxyState \<Rightarrow> bool" where
  "boundInv s \<longleftrightarrow> proxyInvWith {} s \<and> (\<forall>u. map_of (proxyActive s) u \<noteq> Some []) \<and>
     (\<forall>x \<in> tracked s. \<forall>i. sessionInterface x = Some i \<longrightarrow> map_of (proxyActive s) (trim_space (sessionUser x)) = Some i)"

lemma bound_kept:
  assumes "boundInv s" and "proxyInvWith {} s'" and "proxyActive s' = proxyActive s"
    and "\<And>x i. x \<in> tracked s' \<Longrightarrow> x \<notin> tracked s \<Longrightarrow> sessionInterface x = Some i \<Longrightarrow> map_of (proxyActive s) (trim_space (sessionUser x)) = Some i"
  shows "boundInv s'"
  using assms unfolding boundInv_def by metis

lemma bound_dial:
  assumes "boundInv s"
  shows "boundInv (snd (dial sys (\<lambda>s. s) u network address s))"
proof (cases "trim_space u = [] \<or> map_of (proxyActive s) (trim_space u) = None")
  case True
  with assms(1) show ?thesis by (auto simp: dial_def Let_def)
next
  case False
  then obtain i where i: "trim_space u \<noteq> []" "map_of (proxyActive s) (trim_space u) = Some i" by auto
  let ?x = "\<lparr>sessionID = systemCalls s, sessionUser = trim_space u, sessionInterface = Some i\<rparr>"
  obtain r s' where t: "trackConn sys (sessionUser ?x) ?x (called (s\<lparr>openSessions := ?x # openSessions s\<rparr>)) = (r, s')" by force
  have inv: "proxyInvWith {} s" using assms by (simp add: boundInv_def)
  note c = inv_trackConn [OF inv _ t]
  have "tracked s' \<subseteq> insert ?x (tracked s)" using c by (auto split: sum.splits)
  then have "boundInv s'" using c i by (intro bound_kept [OF assms]) auto
  moreover have "boundInv (called s)"
    using assms inv_called [OF inv] by (intro bound_kept [OF assms]) (simp_all add: called_def tracked_def)
  ultimately show ?thesis using i t by (simp add: dial_def Let_def split: dialResult.splits)
qed

lemma bound_step: "boundInv s \<Longrightarrow> sequentialOp op \<Longrightarrow> boundInv (proxyStep sys op s)"
proof -
  assume b: "boundInv s" and op: "sequentialOp op"
  have inv: "proxyInvWith {} s" using b by (simp add: boundInv_def)
  have inv': "proxyInvWith {} (proxyStep sys op s)" using inv by (rule proxyInv_run)
  show ?thesis
  proof (cases op)
    case (OpUpdateConfig during cfg)
    from inv_UpdateConfig [OF inv _ surjective_pairing, of "[]" sys cfg] op show ?thesis using OpUpdateConfig by (intro bound_kept [OF b inv']) auto
  next
    case (OpRegister during u i)
    let ?s = "snd (Register sys [] u i s)"
    have r: "proxyInvWith {} ?s \<and> tracked ?s \<subseteq> tracked s \<and> (\<forall>v. map_of (proxyActive ?s) v = map_of (proxyActive s) v \<or>
        v = trim_space u \<and> trim_space i \<noteq> [] \<and> map_of (proxyActive ?s) v = Some (trim_space i) \<and>
        ((\<forall>x \<in> tracked ?s. trim_space (sessionUser x) \<noteq> v) \<or> map_of (proxyActive s) v \<in> {Some [], Some (trim_space i)}))"
      using inv_Register [OF inv _ surjective_pairing, of "[]" sys u i] by simp
    have "map_of (proxyActive ?s) v \<noteq> Some []" for v
      using r b unfolding boundInv_def by (metis option.inject)
    moreover have "map_of (proxyActive ?s) (trim_space (sessionUser x)) = Some j" if x: "x \<in> tracked ?s" "sessionInterface x = Some j" for x j
    proof -
      have "map_of (proxyActive s) (trim_space (sessionUser x)) = Some j" "j \<noteq> []" using x r b unfolding boundInv_def by blast+
      then show ?thesis using r x(1) by (metis empty_iff insert_iff option.inject)
    qed
    ultimately show ?thesis using inv' OpRegister op by (simp add: boundInv_def)
  next
    case (OpUnregister during u)
    show ?thesis
    proof (cases "trim_space u = []")
      case True
      with b OpUnregister op show ?thesis by (simp add: Unregister_def)
    next
      case False
      from inv_Unregister [OF inv False _ surjective_pairing, of "[]" sys] b inv' OpUnregister op show ?thesis
        unfolding boundInv_def by (auto simp: subset_iff)
    qed
  next
    case (OpHTTPExit during n)
    from inv_handleServeExit [OF inv _ _ surjective_pairing, of "Some n" None "[]" sys] op show ?thesis
      using OpHTTPExit by (intro bound_kept [OF b inv']) auto
  next
    case (OpSOCKSExit during n)
    from inv_handleServeExit [OF inv _ _ surjective_pairing, of None "Some n" "[]" sys] op show ?thesis
      using OpSOCKSExit by (intro bound_kept [OF b inv']) auto
  next
    case (OpClose x)
    from inv_closeSession [OF inv surjective_pairing] show ?thesis using OpClose by (intro bound_kept [OF b inv']) (auto simp: sameServers_def)
  next
    case (OpAssociate a u)
    from inv_associateSOCKS5 [OF inv surjective_pairing] show ?thesis
      using OpAssociate by (intro bound_kept [OF b inv']) (simp, metis option.distinct(1) proxyStep.simps(7))
  next
    case (OpDial ops u network address)
    moreover have "proxyRun sys [] = (\<lambda>s. s)" by (simp add: fun_eq_iff)
    ultimately show ?thesis using bound_dial [OF b] op by simp
  qed
qed

lemma bound_run: "boundInv s \<Longrightarrow> list_all sequentialOp ops \<Longrightarrow> boundInv (proxyRun sys ops s)"
  by (induction ops arbitrary: s) (simp_all add: bound_step)

text \<open>
  What a user sends leaves through the interface the user is bound to: as long as nothing changes while a connection is being
  dialled, every open connection goes through the interface that its user has now, also after the user was bound to another one.
\<close>
theorem connections_follow_binding:
  assumes "list_all sequentialOp ops" and "x \<in> set (openSessions (proxyRun sys ops (newProxy cfg)))" and "sessionInterface x = Some i"
  shows "map_of (proxyActive (proxyRun sys ops (newProxy cfg))) (trim_space (sessionUser x)) = Some i"
proof -
  have "boundInv (newProxy cfg)" using inv_new [of cfg] by (simp add: boundInv_def proxyInv_def newProxy_def tracked_def)
  from bound_run [OF this assms(1), of sys] assms(2,3) show ?thesis by (auto simp: boundInv_def proxyInvWith_def openOk_def)
qed

text \<open>A system on which everything succeeds, and a user that is bound twice.\<close>

definition exampleSystem :: proxySystem where
  "exampleSystem = \<lparr>listenAnswer = (\<lambda>n address. Inr address), closeAnswer = (\<lambda>n. None), dialAnswer = (\<lambda>n i network address. Dialled)\<rparr>"

definition exampleConfig :: ProxyConfig where
  "exampleConfig = \<lparr>ListenAddress = ''::'', HTTPPort = 1, SOCKS5Port = 2, proxyPassword = ''p''\<rparr>"

definition exampleProxyOps :: "proxyOp list" where
  "exampleProxyOps = [OpRegister [] ''m'' ''a'', OpDial [] ''m'' ''tcp'' ''h:1'', OpRegister [] ''m'' ''b'', OpDial [] ''m'' ''tcp'' ''h:2'']"

definition exampleConnection :: proxySession where
  "exampleConnection = \<lparr>sessionID = 4, sessionUser = ''m'', sessionInterface = Some ''b''\<rparr>"

theorem connections_follow_binding_witness:
  "map_of (proxyActive (proxyRun exampleSystem exampleProxyOps (newProxy exampleConfig))) (trim_space (sessionUser exampleConnection)) = Some ''b''"
proof (rule connections_follow_binding)
  show "list_all sequentialOp exampleProxyOps" by (simp add: exampleProxyOps_def)
  show "exampleConnection \<in> set (openSessions (proxyRun exampleSystem exampleProxyOps (newProxy exampleConfig)))" by code_simp
  show "sessionInterface exampleConnection = Some ''b''" by (simp add: exampleConnection_def)
qed


section \<open>What goes wrong\<close>

lemma active_closeSessions: "proxyActive (snd (closeProxySessions sys [] xs s)) = proxyActive s"
proof (induction xs arbitrary: s)
  case (Cons x xs)
  then show ?case using active_closeSession by (simp add: split_beta)
qed simp

lemma Register_binds:
  assumes "trim_space u \<noteq> []" and "trim_space i \<noteq> []" and "trim_space (proxyPassword (proxyCfg s)) \<noteq> []" and "startedLocked s"
  shows "map_of (proxyActive (snd (Register sys [] u i s))) (trim_space u) = Some (trim_space i)"
proof -
  have "ensureStartedLocked sys (s\<lparr>proxyActive := a\<rparr>) = ([], s\<lparr>proxyActive := a\<rparr>)" for a
    using assms(4) by (simp add: ensureStartedLocked_def startedLocked_def)
  then show ?thesis
    using assms(1-3)
    by (simp add: Register_def Let_def split_beta active_closeSessions active_takes update_conv' split: option.split if_split)
qed

text \<open>
  C30: The binding is read before the connection is dialled and not looked at again: when a user is bound to another interface in
  between, the connection that is then tracked goes through the interface of before, although Register closes the connections
  of the old binding; from then on the user's traffic is split.
\<close>
theorem dialled_connection_keeps_old_interface:
  assumes "map_of (proxyActive s) (trim_space u) = Some i" and "trim_space u \<noteq> []" and "trim_space j \<noteq> []" and "trim_space j \<noteq> i"
    and "trim_space (proxyPassword (proxyCfg s)) \<noteq> []" and "startedLocked s"
    and "\<And>n. dialAnswer sys n i network address = Dialled"
  shows "\<exists>x s'. dial sys (\<lambda>s. snd (Register sys [] u j s)) u network address s = (Inr x, s') \<and> x \<in> set (openSessions s') \<and>
     sessionInterface x = Some i \<and> map_of (proxyActive s') (trim_space u) = Some (trim_space j)"
proof -
  let ?s = "snd (Register sys [] u j s)"
  have r: "map_of (proxyActive ?s) (trim_space u) = Some (trim_space j)" using assms(2-6) by (intro Register_binds)
  show ?thesis
    using assms(1,2,7) r by (simp add: dial_def Let_def trackConn_def trackSession_def called_def)
qed

theorem dialled_connection_keeps_old_interface_witness:
  "\<exists>x s'. dial exampleSystem (\<lambda>s. snd (Register exampleSystem [] ''m'' ''b'' s)) ''m'' ''tcp'' ''h:1''
       (proxyRun exampleSystem [OpRegister [] ''m'' ''a''] (newProxy exampleConfig)) = (Inr x, s') \<and> x \<in> set (openSessions s') \<and>
     sessionInterface x = Some ''a'' \<and> map_of (proxyActive s') (trim_space ''m'') = Some (trim_space ''b'')"
proof (rule dialled_connection_keeps_old_interface)
  show "map_of (proxyActive (proxyRun exampleSystem [OpRegister [] ''m'' ''a''] (newProxy exampleConfig))) (trim_space ''m'') = Some ''a''" by code_simp
  show "trim_space ''m'' \<noteq> []" "trim_space ''b'' \<noteq> []" "trim_space ''b'' \<noteq> ''a''" by code_simp+
  show "trim_space (proxyPassword (proxyCfg (proxyRun exampleSystem [OpRegister [] ''m'' ''a''] (newProxy exampleConfig)))) \<noteq> []" by code_simp
  show "startedLocked (proxyRun exampleSystem [OpRegister [] ''m'' ''a''] (newProxy exampleConfig))" by code_simp
qed (simp add: exampleSystem_def)

text \<open>
  When the password is removed the listeners are closed, but the bindings stay and the empty password is now the right one: a
  client that was accepted before and has yet to give its credentials is let in without a password.
\<close>

lemma cfg_closeSessions: "proxyCfg (snd (closeProxySessions sys [] xs s)) = proxyCfg s"
proof (induction xs arbitrary: s)
  case (Cons x xs)
  have "proxyCfg (removeSession u x s) = proxyCfg s" for u s by (simp add: removeSession_def Let_def split: option.splits)
  then have "proxyCfg (snd (closeSession sys x s)) = proxyCfg s"
    by (simp add: closeSession_def called_def Let_def split: option.splits)
  with Cons show ?case by (simp add: split_beta)
qed simp

theorem removed_password_is_empty_password:
  assumes "proxyCfg s \<noteq> cfg" and "proxyPassword cfg = []" and "trim_space u \<noteq> []" and "map_of (proxyActive s) (trim_space u) \<noteq> None"
  shows "validCredential u [] (snd (UpdateConfig sys [] cfg s))"
  using assms
  by (auto simp: UpdateConfig_def validCredential_def takeAllSessionsLocked_def split_beta Let_def active_closeSessions cfg_closeSessions active_stop)

end
