(* ===== verification/ProxyHttp.thy ===== *)
theory ProxyHttp
  imports Proxy
begin

text \<open>
  The HTTP proxy (\<open>internal/pkg/internet/proxy_http.go\<close>): the credentials of a request, tunnels by \<open>CONNECT\<close>, and
  requests that are forwarded without the headers that are meant for the proxy. Strings are lists of bytes; a header is the
  association list of its canonical names and their values.
\<close>

section \<open>Base 64\<close>

text \<open>\<open>base64.StdEncoding\<close>.\<close>

definition b64_char :: "nat \<Rightarrow> char" where
  "b64_char n =
     (if n < 26 then char_of (65 + n) else if n < 52 then char_of (71 + n) else if n < 62 then char_of (n - 4)
      else if n = 62 then CHR ''+'' else CHR ''/'')"

definition b64_value :: "char \<Rightarrow> nat option" where
  "b64_value c =
     (let n = of_char c in
      if 65 \<le> n \<and> n \<le> 90 then Some (n - 65) else if 97 \<le> n \<and> n \<le> 122 then Some (n - 71)
      else if 48 \<le> n \<and> n \<le> 57 then Some (n + 4) else if c = CHR ''+'' then Some 62 else if c = CHR ''/'' then Some 63 else None)"

fun b64_encode :: "string \<Rightarrow> string" where
  "b64_encode [] = []"
| "b64_encode [a] = [b64_char (of_char a div 4), b64_char (of_char a mod 4 * 16), CHR ''='', CHR ''='']"
| "b64_encode [a, b] =
     [b64_char (of_char a div 4), b64_char (of_char a mod 4 * 16 + of_char b div 16), b64_char (of_char b mod 16 * 4), CHR ''='']"
| "b64_encode (a # b # c # s) =
     b64_char (of_char a div 4) # b64_char (of_char a mod 4 * 16 + of_char b div 16) #
     b64_char (of_char b mod 16 * 4 + of_char c div 64) # b64_char (of_char c mod 64) # b64_encode s"

text \<open>Line ends are skipped, the bits behind the last byte are not looked at.\<close>

fun b64_quads :: "string \<Rightarrow> string option" where
  "b64_quads [] = Some []"
| "b64_quads (a # b # c # d # s) =
     (case (b64_value a, b64_value b) of
        (Some i, Some j) \<Rightarrow>
          if d = CHR ''='' then
            (if s \<noteq> [] then None
             else if c = CHR ''='' then Some [char_of (i * 4 + j div 16)]
             else map_option (\<lambda>k. [char_of (i * 4 + j div 16), char_of (j mod 16 * 16 + k div 4)]) (b64_value c))
          else
            (case (b64_value c, b64_value d) of
               (Some k, Some l) \<Rightarrow>
                 map_option (\<lambda>r. [char_of (i * 4 + j div 16), char_of (j mod 16 * 16 + k div 4), char_of (k mod 4 * 64 + l)] @ r) (b64_quads s)
             | _ \<Rightarrow> None)
      | _ \<Rightarrow> None)"
| "b64_quads _ = None"

definition b64_decode :: "string \<Rightarrow> string option" where
  "b64_decode s = b64_quads (filter (\<lambda>c. c \<noteq> CHR 0x0A \<and> c \<noteq> CHR 0x0D) s)"

section \<open>Credentials\<close>

record proxyBasicAuth =
  authUsername :: string
  authPassword :: string

definition marshalBasic :: "proxyBasicAuth \<Rightarrow> string" where
  "marshalBasic a = ''Basic '' @ b64_encode (authUsername a @ '':'' @ authPassword a)"

text \<open>\<open>strings.Cut\<close>, and \<open>strings.EqualFold\<close> with an ASCII text: the long s folds to s, the Kelvin sign to k.\<close>

definition cut :: "string \<Rightarrow> char \<Rightarrow> (string \<times> string) option" where
  "cut s c = (if c \<in> set s then Some (takeWhile (\<lambda>x. x \<noteq> c) s, tl (dropWhile (\<lambda>x. x \<noteq> c) s)) else None)"

definition ascii_lower :: "char \<Rightarrow> char" where
  "ascii_lower c = (let n = of_char c :: nat in if 65 \<le> n \<and> n \<le> 90 then char_of (n + 32) else c)"

fun fold_case :: "string \<Rightarrow> string" where
  "fold_case [] = []"
| "fold_case (c # s) =
     (if starts_with (c # s) [CHR 0xC5, CHR 0xBF] then CHR ''s'' # fold_case (drop 1 s)
      else if starts_with (c # s) [CHR 0xE2, CHR 0x84, CHR 0xAA] then CHR ''k'' # fold_case (drop 2 s)
      else ascii_lower c # fold_case s)"

definition equal_fold :: "string \<Rightarrow> string \<Rightarrow> bool" where
  "equal_fold s t \<longleftrightarrow> fold_case s = fold_case t"

definition unmarshalBasic :: "string \<Rightarrow> proxyBasicAuth option" where
  "unmarshalBasic s =
     (case cut (trim_space s) CHR '' '' of
        None \<Rightarrow> None
      | Some (scheme, v) \<Rightarrow>
          if \<not> equal_fold scheme ''Basic'' then None
          else case b64_decode (trim_space v) of
              None \<Rightarrow> None
            | Some d \<Rightarrow>
                (case cut d CHR '':'' of
                   None \<Rightarrow> None
                 | Some (username, password) \<Rightarrow> Some \<lparr>authUsername = username, authPassword = password\<rparr>))"

section \<open>Headers\<close>

type_synonym httpHeader = "(string \<times> string list) list"

text \<open>\<open>textproto.CanonicalMIMEHeaderKey\<close>.\<close>

definition header_byte :: "char \<Rightarrow> bool" where
  "header_byte c \<longleftrightarrow>
     (let n = of_char c :: nat in 48 \<le> n \<and> n \<le> 57 \<or> 65 \<le> n \<and> n \<le> 90 \<or> 97 \<le> n \<and> n \<le> 122) \<or> c \<in> set ''!#$%&*+-.^_`|~'' \<or> c = CHR 0x27"

definition ascii_upper :: "char \<Rightarrow> char" where
  "ascii_upper c = (let n = of_char c :: nat in if 97 \<le> n \<and> n \<le> 122 then char_of (n - 32) else c)"

fun canonical_from :: "bool \<Rightarrow> string \<Rightarrow> string" where
  "canonical_from up [] = []"
| "canonical_from up (c # s) = (if up then ascii_upper c else ascii_lower c) # canonical_from (c = CHR ''-'') s"

definition canonical_key :: "string \<Rightarrow> string" where
  "canonical_key s = (if list_all header_byte s then canonical_from True s else s)"

definition headerValues :: "httpHeader \<Rightarrow> string \<Rightarrow> string list" where
  "headerValues h name = (case map_of h (canonical_key name) of None \<Rightarrow> [] | Some vs \<Rightarrow> vs)"

definition headerGet :: "httpHeader \<Rightarrow> string \<Rightarrow> string" where
  "headerGet h name = (case headerValues h name of [] \<Rightarrow> [] | v # _ \<Rightarrow> v)"

definition headerDel :: "httpHeader \<Rightarrow> string \<Rightarrow> httpHeader" where
  "headerDel h name = AList.delete (canonical_key name) h"

definition copyProxyHeader :: "httpHeader \<Rightarrow> httpHeader \<Rightarrow> httpHeader" where
  "copyProxyHeader dst src = fold (\<lambda>(k, vs). AList.update k vs) src dst"

definition cloneProxyHeader :: "httpHeader \<Rightarrow> httpHeader" where
  "cloneProxyHeader h = copyProxyHeader [] h"

definition isHopByHopHeader :: "string \<Rightarrow> bool" where
  "isHopByHopHeader name \<longleftrightarrow>
     canonical_key name \<in> {''Connection'', ''Keep-Alive'', ''Proxy-Authenticate'', ''Proxy-Authorization'', ''Proxy-Connection'',
       ''Te'', ''Trailer'', ''Transfer-Encoding'', ''Upgrade''}"

text \<open>\<open>strings.Split\<close> at commas.\<close>

fun split_commas :: "string \<Rightarrow> string list" where
  "split_commas [] = [[]]"
| "split_commas (c # s) =
     (if c = CHR '','' then [] # split_commas s
      else case split_commas s of [] \<Rightarrow> [[c]] | w # ws \<Rightarrow> (c # w) # ws)"

definition removeHopByHopHeaders :: "httpHeader \<Rightarrow> httpHeader" where
  "removeHopByHopHeaders h =
     (let h1 = fold (\<lambda>v h. fold (\<lambda>name h. let name = trim_space name in if name \<noteq> [] then headerDel h name else h) (split_commas v) h)
                 (headerValues h ''Connection'') h
      in fold (\<lambda>name h. if isHopByHopHeader name then headerDel h name else h) (map fst h1) h1)"

section \<open>Addresses\<close>

text \<open>\<open>net.SplitHostPort\<close>.\<close>

definition splitHostPort :: "string \<Rightarrow> (string \<times> string) option" where
  "splitHostPort s =
     (if CHR '':'' \<notin> set s then None
      else
        let port = rev (takeWhile (\<lambda>c. c \<noteq> CHR '':'') (rev s)); i = length s - length port - 1 in
        if s ! 0 = CHR ''['' then
          (if CHR '']'' \<notin> set s then None
           else
             let e = length (takeWhile (\<lambda>c. c \<noteq> CHR '']'') s) in
             if e + 1 \<noteq> i then None
             else if CHR ''['' \<in> set (drop 1 s) \<or> CHR '']'' \<in> set (drop (e + 1) s) then None
             else Some (take (e - 1) (drop 1 s), port))
        else
          let host = take i s in
          if CHR '':'' \<in> set host then None
          else if CHR ''['' \<in> set s \<or> CHR '']'' \<in> set s then None
          else Some (host, port))"

record httpRequest =
  reqMethod :: string
  reqHost :: string
  reqURLHost :: "string option"
  reqHeader :: httpHeader
  reqTarget :: "string option"

text \<open>\<open>reqTarget\<close> is the address that \<open>http.Transport\<close> dials for the URL of the request, if it can be requested at all.\<close>

definition connectAddress :: "httpRequest \<Rightarrow> string option" where
  "connectAddress r =
     (let address = (case reqURLHost r of Some h \<Rightarrow> if h \<noteq> [] then h else reqHost r | None \<Rightarrow> reqHost r);
          address = trim_space address
      in if address = [] then None
         else if splitHostPort address \<noteq> None then Some address
         else if CHR '':'' \<in> set address then None
         else Some (joinHostPort address ''443''))"

section \<open>Requests\<close>

definition authenticateHTTP :: "httpRequest \<Rightarrow> proxyState \<Rightarrow> string option" where
  "authenticateHTTP r s =
     (case unmarshalBasic (headerGet (reqHeader r) ''Proxy-Authorization'') of
        None \<Rightarrow> None
      | Some a \<Rightarrow> if validCredential (authUsername a) (authPassword a) s then Some (authUsername a) else None)"

record httpResponse =
  respStatus :: nat
  respHeader :: httpHeader
  respBody :: string

datatype proxyReply = ReplyStatus nat | ReplyTunnel proxySession | ReplyNone | ReplyResponse httpResponse

text \<open>
  The answers to a request: whether the client connection can be taken over and written to, and what the server says to
  the forwarded request. A tunnel stays open until one side ends; then its connection is closed.
\<close>

record httpAnswers =
  canHijack :: bool
  hijackFails :: bool
  writeFails :: bool
  roundTrip :: "httpRequest \<Rightarrow> httpResponse option"

definition closeProxyPipeConn :: "proxySystem \<Rightarrow> proxySession \<Rightarrow> proxyState \<Rightarrow> proxyState" where
  "closeProxyPipeConn sys x s = snd (closeSession sys x s)"

definition handleConnect :: "proxySystem \<Rightarrow> (proxyState \<Rightarrow> proxyState) \<Rightarrow> httpAnswers \<Rightarrow> httpRequest \<Rightarrow> string \<Rightarrow> proxyState \<Rightarrow> proxyReply \<times> proxyState" where
  "handleConnect sys during a r username s =
     (case connectAddress r of
        None \<Rightarrow> (ReplyStatus 400, s)
      | Some address \<Rightarrow>
          (case dial sys during username ''tcp'' address s of
             (Inl _, s) \<Rightarrow> (ReplyStatus 502, s)
           | (Inr target, s) \<Rightarrow>
               if \<not> canHijack a then (ReplyStatus 500, closeProxyPipeConn sys target s)
               else if hijackFails a then (ReplyNone, closeProxyPipeConn sys target s)
               else if writeFails a then (ReplyNone, closeProxyPipeConn sys target s)
               else (ReplyTunnel target, s)))"

definition outgoingRequest :: "httpRequest \<Rightarrow> httpRequest" where
  "outgoingRequest r = r\<lparr>reqHeader := removeHopByHopHeaders (cloneProxyHeader (reqHeader r))\<rparr>"

definition handleForward :: "proxySystem \<Rightarrow> (proxyState \<Rightarrow> proxyState) \<Rightarrow> httpAnswers \<Rightarrow> httpRequest \<Rightarrow> string \<Rightarrow> proxyState \<Rightarrow> proxyReply \<times> proxyState" where
  "handleForward sys during a r username s =
     (let outReq = outgoingRequest r in
      case reqTarget outReq of
        None \<Rightarrow> (ReplyStatus 502, s)
      | Some address \<Rightarrow>
          (case dial sys during username ''tcp'' address s of
             (Inl _, s) \<Rightarrow> (ReplyStatus 502, s)
           | (Inr conn, s) \<Rightarrow>
               (case roundTrip a outReq of
                  None \<Rightarrow> (ReplyStatus 502, closeProxyPipeConn sys conn s)
                | Some resp \<Rightarrow>
                    (ReplyResponse (resp\<lparr>respHeader := removeHopByHopHeaders (copyProxyHeader [] (respHeader resp))\<rparr>),
                     closeProxyPipeConn sys conn s))))"

definition serveHTTPProxy :: "proxySystem \<Rightarrow> (proxyState \<Rightarrow> proxyState) \<Rightarrow> httpAnswers \<Rightarrow> httpRequest \<Rightarrow> proxyState \<Rightarrow> proxyReply \<times> proxyState" where
  "serveHTTPProxy sys during a r s =
     (case authenticateHTTP r s of
        None \<Rightarrow> (ReplyStatus 407, s)
      | Some username \<Rightarrow>
          if reqMethod r = ''CONNECT'' then handleConnect sys during a r username s
          else handleForward sys during a r username s)"

section \<open>What is sent is read back\<close>

lemma b64_value_char: "n < 64 \<Longrightarrow> b64_value (b64_char n) = Some n"
  by (auto simp: b64_value_def b64_char_def Let_def)

lemma b64_char_plain: "n < 64 \<Longrightarrow> graphic (b64_char n)" and b64_char_pad: "n < 64 \<Longrightarrow> b64_char n \<noteq> CHR ''=''"
proof -
  have "b64_value CHR ''='' = None" by code_simp
  then show "n < 64 \<Longrightarrow> b64_char n \<noteq> CHR ''=''" using b64_value_char by (metis option.distinct(1))
qed (auto simp: b64_char_def graphic_def)

lemma byte_char: "of_char (c :: char) < (256 :: nat)"
  using of_char_mod_256 [of c, where 'a = nat] mod_less_divisor [of 256 "of_char c :: nat"] by linarith

lemma b64_bounds:
  assumes "b < (256 :: nat)"
  shows "b div 4 < 64" "a mod 4 * 16 < (64 :: nat)" "a mod 16 * 4 < (64 :: nat)" "a mod 64 < (64 :: nat)"
    "a mod 4 * 16 + b div 16 < (64 :: nat)" "a mod 16 * 4 + b div 64 < (64 :: nat)"
    "b div 16 div 16 = 0" "b div 16 mod 16 = b div 16" "b div 64 div 4 = 0" "b div 64 mod 4 = b div 64"
  using assms by simp_all

lemmas b64_facts = b64_bounds [OF byte_char]

lemma b64_quads_encode: "b64_quads (b64_encode s) = Some s"
  by (induction s rule: b64_encode.induct) (simp_all add: b64_value_char b64_char_pad b64_facts)

lemma b64_encode_plain: "c \<in> set (b64_encode s) \<Longrightarrow> graphic c"
proof (induction s rule: b64_encode.induct)
  case (4 a b c s)
  then show ?case using b64_facts b64_char_plain by auto
qed (use b64_facts b64_char_plain in \<open>auto simp: graphic_def [of "CHR ''=''"]\<close>)

lemma b64_round_trip: "b64_decode (b64_encode s) = Some s"
proof -
  have "filter (\<lambda>c. c \<noteq> CHR 0x0A \<and> c \<noteq> CHR 0x0D) (b64_encode s) = b64_encode s"
  proof (intro filter_True ballI)
    fix c assume "c \<in> set (b64_encode s)"
    moreover have "\<not> graphic CHR 0x0A" "\<not> graphic CHR 0x0D" by (simp_all add: graphic_def)
    ultimately show "c \<noteq> CHR 0x0A \<and> c \<noteq> CHR 0x0D" using b64_encode_plain by metis
  qed
  then show ?thesis by (simp add: b64_decode_def b64_quads_encode)
qed

lemma cut_at: "c \<notin> set a \<Longrightarrow> cut (a @ c # b) c = Some (a, b)"
  by (induction a) (auto simp: cut_def)

text \<open>
  The credentials a client writes are the ones the proxy reads: for every user name without a colon and every password, of
  any bytes, the header value that is made of them is read back as the same pair.
\<close>
theorem basic_auth_round_trip:
  assumes "CHR '':'' \<notin> set (authUsername a)"
  shows "unmarshalBasic (marshalBasic a) = Some a"
proof -
  let ?e = "b64_encode (authUsername a @ '':'' @ authPassword a)"
  have e: "?e \<noteq> []" using b64_quads_encode [of "authUsername a @ '':'' @ authPassword a"] by (cases "?e") auto
  have plain: "graphic (last ?e)" "graphic (hd ?e)" using b64_encode_plain e by (metis last_in_set, metis hd_in_set)
  have "trim_space (''Basic '' @ ?e) = ''Basic '' @ ?e" using e plain by (intro trim_space_id) (simp_all add: graphic_def)
  moreover have "trim_space ?e = ?e" using e plain by (intro trim_space_id)
  moreover have "cut (''Basic '' @ ?e) CHR '' '' = Some (''Basic'', ?e)" using cut_at [of "CHR '' ''" "''Basic''" ?e] by simp
  moreover have "cut (authUsername a @ '':'' @ authPassword a) CHR '':'' = Some (authUsername a, authPassword a)"
    using cut_at [OF assms, of "authPassword a"] by simp
  ultimately show ?thesis by (simp add: unmarshalBasic_def marshalBasic_def equal_fold_def b64_round_trip)
qed

theorem basic_auth_round_trip_witness:
  "unmarshalBasic (marshalBasic \<lparr>authUsername = ''modem 1'', authPassword = ''a:b''\<rparr>) = Some \<lparr>authUsername = ''modem 1'', authPassword = ''a:b''\<rparr>"
  by (rule basic_auth_round_trip) simp

section \<open>Who is let in\<close>

text \<open>
  C27: Without credentials the proxy does nothing: a request whose header is missing, is not Basic, does not decode, has no colon, names no
  bound user or has a wrong password is answered with 407, whatever its method, address and headers, and leaves the proxy as it is;
  conversely a tunnel is only given for credentials that are valid, and goes through the interface of the user they name.
\<close>
theorem proxy_needs_credentials:
  assumes "serveHTTPProxy sys (\<lambda>s. s) a r s = (reply, s')" and "(reply, s') \<noteq> (ReplyStatus 407, s)"
  shows "\<exists>c. unmarshalBasic (headerGet (reqHeader r) ''Proxy-Authorization'') = Some c \<and>
    validCredential (authUsername c) (authPassword c) s \<and>
    (case reply of ReplyTunnel x \<Rightarrow> map_of (proxyActive s) (trim_space (authUsername c)) = sessionInterface x | _ \<Rightarrow> True)"
proof -
  obtain u where u: "authenticateHTTP r s = Some u" using assms by (cases "authenticateHTTP r s") (auto simp: serveHTTPProxy_def)
  then obtain c where c: "unmarshalBasic (headerGet (reqHeader r) ''Proxy-Authorization'') = Some c"
      "validCredential (authUsername c) (authPassword c) s" "u = authUsername c"
    by (auto simp: authenticateHTTP_def split: option.splits if_splits)
  have "map_of (proxyActive s) (trim_space u) = sessionInterface x" if x: "reply = ReplyTunnel x" for x
  proof -
    from x u assms(1) have "\<exists>address s'. dial sys (\<lambda>s. s) u ''tcp'' address s = (Inr x, s')"
      by (auto simp: serveHTTPProxy_def handleConnect_def handleForward_def Let_def split: option.splits sum.splits if_splits prod.splits)
    then show ?thesis by (auto simp: dial_def trackConn_def Let_def split: if_splits option.splits dialResult.splits list.splits prod.splits)
  qed
  with c show ?thesis by (cases reply) auto
qed

definition exampleRequest :: httpRequest where
  "exampleRequest = \<lparr>reqMethod = ''CONNECT'', reqHost = ''h:1'', reqURLHost = Some ''h:1'',
     reqHeader = [(''Proxy-Authorization'', [''basic bTpw''])], reqTarget = None\<rparr>"

definition exampleHTTPAnswers :: httpAnswers where
  "exampleHTTPAnswers = \<lparr>canHijack = True, hijackFails = False, writeFails = False, roundTrip = (\<lambda>r. None)\<rparr>"

definition exampleProxy :: proxyState where
  "exampleProxy = proxyRun exampleSystem [OpRegister [] ''m'' ''a''] (newProxy exampleConfig)"

theorem proxy_needs_credentials_witness:
  "\<exists>c. unmarshalBasic (headerGet (reqHeader exampleRequest) ''Proxy-Authorization'') = Some c \<and>
    validCredential (authUsername c) (authPassword c) exampleProxy \<and>
    (case fst (serveHTTPProxy exampleSystem (\<lambda>s. s) exampleHTTPAnswers exampleRequest exampleProxy) of
       ReplyTunnel x \<Rightarrow> map_of (proxyActive exampleProxy) (trim_space (authUsername c)) = sessionInterface x | _ \<Rightarrow> True)"
proof (rule proxy_needs_credentials [OF surjective_pairing])
  have "fst (serveHTTPProxy exampleSystem (\<lambda>s. s) exampleHTTPAnswers exampleRequest exampleProxy) =
      ReplyTunnel \<lparr>sessionID = 2, sessionUser = ''m'', sessionInterface = Some ''a''\<rparr>"
    by code_simp
  then show "(fst (serveHTTPProxy exampleSystem (\<lambda>s. s) exampleHTTPAnswers exampleRequest exampleProxy),
      snd (serveHTTPProxy exampleSystem (\<lambda>s. s) exampleHTTPAnswers exampleRequest exampleProxy)) \<noteq> (ReplyStatus 407, exampleProxy)"
    by simp
qed

section \<open>Hop-by-hop headers\<close>

lemma headerDel_filter: "headerDel h name = filter (\<lambda>(k, _). k \<noteq> canonical_key name) h"
  by (induction h) (auto simp: headerDel_def)

text \<open>What the connection header names.\<close>

definition connectionNames :: "httpHeader \<Rightarrow> string set" where
  "connectionNames h = {canonical_key (trim_space w) |w. w \<in> set (concat (map split_commas (headerValues h ''Connection''))) \<and> trim_space w \<noteq> []}"

lemma fold_names:
  "fold (\<lambda>name h. if trim_space name \<noteq> [] then headerDel h (trim_space name) else h) ws h =
     filter (\<lambda>(k, _). \<not> (\<exists>w \<in> set ws. trim_space w \<noteq> [] \<and> canonical_key (trim_space w) = k)) h"
proof (induction ws arbitrary: h)
  case (Cons w ws)
  have "fold (\<lambda>name h. if trim_space name \<noteq> [] then headerDel h (trim_space name) else h) (w # ws) h =
      filter (\<lambda>(k, _). \<not> (\<exists>w \<in> set ws. trim_space w \<noteq> [] \<and> canonical_key (trim_space w) = k))
        (if trim_space w \<noteq> [] then headerDel h (trim_space w) else h)"
    by (simp only: fold_simps comp_apply Cons)
  also have "\<dots> = filter (\<lambda>(k, _). \<not> (\<exists>w \<in> set (w # ws). trim_space w \<noteq> [] \<and> canonical_key (trim_space w) = k)) h"
    by (cases "trim_space w = []") (simp, simp add: headerDel_filter, intro filter_cong refl, auto)
  finally show ?case .
qed simp

lemma fold_values:
  "fold (\<lambda>v h. fold (\<lambda>name h. if trim_space name \<noteq> [] then headerDel h (trim_space name) else h) (split_commas v) h) vs h =
     filter (\<lambda>(k, _). \<not> (\<exists>w \<in> set (concat (map split_commas vs)). trim_space w \<noteq> [] \<and> canonical_key (trim_space w) = k)) h"
proof (induction vs arbitrary: h)
  case (Cons v vs)
  then show ?case by (simp add: fold_names) (intro filter_cong refl; auto)
qed simp

lemma fold_hop:
  "(\<forall>k \<in> set ks. canonical_key k = k) \<Longrightarrow>
   fold (\<lambda>name h. if isHopByHopHeader name then headerDel h name else h) ks h = filter (\<lambda>(k, _). \<not> (k \<in> set ks \<and> isHopByHopHeader k)) h"
proof (induction ks arbitrary: h)
  case (Cons k ks)
  then show ?case
    by (cases "isHopByHopHeader k") (simp_all add: headerDel_filter, (intro filter_cong refl, auto)+)
qed (simp add: filter_True split_beta)

text \<open>
  C28: Exactly the headers that are meant for the proxy are removed: of a header with canonical names, what is passed on are, in their order
  and with all values, the entries that are neither hop-by-hop headers nor named by a value of the Connection header.
\<close>
theorem hop_by_hop_removed:
  assumes "\<forall>k \<in> set (map fst h). canonical_key k = k"
  shows "removeHopByHopHeaders h = filter (\<lambda>(k, _). \<not> isHopByHopHeader k \<and> k \<notin> connectionNames h) h"
proof -
  let ?names = "\<lambda>k. \<exists>w \<in> set (concat (map split_commas (headerValues h ''Connection''))). trim_space w \<noteq> [] \<and> canonical_key (trim_space w) = k"
  let ?h = "filter (\<lambda>(k, _). \<not> ?names k) h"
  have "removeHopByHopHeaders h = filter (\<lambda>(k, _). \<not> (k \<in> set (map fst ?h) \<and> isHopByHopHeader k)) ?h"
    unfolding removeHopByHopHeaders_def Let_def fold_values using assms by (intro fold_hop) auto
  also have "\<dots> = filter (\<lambda>(k, _). \<not> isHopByHopHeader k) ?h" by (intro filter_cong refl) force
  also have "\<dots> = filter (\<lambda>(k, _). \<not> isHopByHopHeader k \<and> k \<notin> connectionNames h) h"
    unfolding filter_filter by (intro filter_cong refl) (auto simp: connectionNames_def)
  finally show ?thesis .
qed

definition exampleHeader :: httpHeader where
  "exampleHeader = [(''Accept'', [''x'']), (''Connection'', [''close, X-A'']), (''X-A'', [''1'']), (''Proxy-Authorization'', [''y''])]"

theorem hop_by_hop_removed_witness:
  "removeHopByHopHeaders exampleHeader = filter (\<lambda>(k, _). \<not> isHopByHopHeader k \<and> k \<notin> connectionNames exampleHeader) exampleHeader"
proof (rule hop_by_hop_removed)
  show "\<forall>k \<in> set (map fst exampleHeader). canonical_key k = k" by code_simp
qed

end
