(* ===== verification/ProxySocks.thy ===== *)
theory ProxySocks
  imports Proxy
begin

text \<open>
  The SOCKS5 side of the proxy (\<open>internal/pkg/internet/proxy_socks5.go\<close>): who a request is from, and the relay of UDP
  packets, which takes packets from one client address only and opens a connection for every target. The parser of
  datagrams and the text of an address belong to other code and are arguments.
\<close>

section \<open>Addresses\<close>

record udpAddr =
  udpIP :: "byte list"
  udpPort :: int
  udpZone :: string

text \<open>\<open>IP.Equal\<close>, in which an IPv4 address equals the IPv6 address that embeds it, and \<open>IP.IsUnspecified\<close>.\<close>

definition v4InV6Prefix :: "byte list" where
  "v4InV6Prefix = replicate 10 0 @ [0xFF, 0xFF]"

definition ipEqual :: "byte list \<Rightarrow> byte list \<Rightarrow> bool" where
  "ipEqual a b \<longleftrightarrow>
     (if length a = length b then a = b
      else if length a = 4 \<and> length b = 16 then b = v4InV6Prefix @ a
      else if length a = 16 \<and> length b = 4 then a = v4InV6Prefix @ b
      else False)"

definition ipUnspecified :: "byte list \<Rightarrow> bool" where
  "ipUnspecified a \<longleftrightarrow> ipEqual a (v4InV6Prefix @ [0, 0, 0, 0]) \<or> ipEqual a (replicate 16 0)"

definition sameUDPAddr :: "udpAddr option \<Rightarrow> udpAddr option \<Rightarrow> bool" where
  "sameUDPAddr a b =
     (case (a, b) of
        (Some a, Some b) \<Rightarrow> udpPort a = udpPort b \<and> udpZone a = udpZone b \<and> ipEqual (udpIP a) (udpIP b)
      | _ \<Rightarrow> False)"

definition socks5UDPSourceAllowed :: "udpAddr option \<Rightarrow> udpAddr option \<Rightarrow> udpAddr option \<Rightarrow> bool" where
  "socks5UDPSourceAllowed allowedSource pinnedSource srcAddr =
     (case srcAddr of
        None \<Rightarrow> False
      | Some src \<Rightarrow>
          if pinnedSource \<noteq> None then sameUDPAddr pinnedSource srcAddr
          else case allowedSource of
              None \<Rightarrow> True
            | Some allowed \<Rightarrow>
                if udpIP allowed \<noteq> [] \<and> \<not> ipUnspecified (udpIP allowed) \<and> \<not> ipEqual (udpIP allowed) (udpIP src) then False
                else udpPort allowed = 0 \<or> udpPort allowed = udpPort src)"

section \<open>The request\<close>

text \<open>
  A request of the library: the user it has authenticated, the IP of the client's TCP address, and the address the client
  says it will send from.
\<close>

record socksRequest =
  socksUser :: "string option"
  socksRemoteIP :: "byte list option"
  socksDest :: "(byte list \<times> int) option"

definition proxyUsernameFromRequest :: "socksRequest option \<Rightarrow> string" where
  "proxyUsernameFromRequest r = (case r of None \<Rightarrow> [] | Some r \<Rightarrow> (case socksUser r of None \<Rightarrow> [] | Some u \<Rightarrow> u))"

definition noAddr :: udpAddr where
  "noAddr = \<lparr>udpIP = [], udpPort = 0, udpZone = []\<rparr>"

definition tcpRemoteIP :: "byte list option \<Rightarrow> byte list" where
  "tcpRemoteIP a = (case a of None \<Rightarrow> [] | Some ip \<Rightarrow> ip)"

definition socks5UDPAllowedSource :: "socksRequest option \<Rightarrow> udpAddr" where
  "socks5UDPAllowedSource r =
     (case r of
        None \<Rightarrow> noAddr
      | Some r \<Rightarrow>
          (case socksDest r of
             None \<Rightarrow> noAddr
           | Some (ip, port) \<Rightarrow>
               noAddr\<lparr>udpIP := (if ip = [] \<or> ipUnspecified ip then tcpRemoteIP (socksRemoteIP r) else ip), udpPort := port\<rparr>))"

definition dialSOCKS5 :: "proxySystem \<Rightarrow> (proxyState \<Rightarrow> proxyState) \<Rightarrow> string \<Rightarrow> string \<Rightarrow> socksRequest option \<Rightarrow> proxyState \<Rightarrow>
   (proxyError list + proxySession) \<times> proxyState" where
  "dialSOCKS5 sys during network address r s = dial sys during (proxyUsernameFromRequest r) network address s"

section \<open>The relay\<close>

record datagram =
  dgFrag :: nat
  dgDst :: string
  dgData :: "byte list"

record socks5UDPTarget =
  targetConn :: proxySession
  targetDst :: string
  targetClient :: udpAddr

text \<open>
  The relay's targets and pinned client, next to the proxy; what was sent, with the source it came from and the connection, and what was
  answered, with the address it was sent to.
\<close>

record udpRelay =
  relayTargets :: "(string \<times> socks5UDPTarget) list"
  relayClient :: "udpAddr option"
  relaySent :: "(udpAddr \<times> proxySession \<times> byte list) list"
  relayAnswered :: "(udpAddr \<times> string \<times> byte list) list"
  relayProxy :: proxyState

record udpEnv =
  udpSystem :: proxySystem
  udpParse :: "byte list \<Rightarrow> datagram option"
  udpText :: "udpAddr \<Rightarrow> string"
  udpAllowed :: udpAddr
  udpUser :: string

definition newRelay :: "proxyState \<Rightarrow> udpRelay" where
  "newRelay s = \<lparr>relayTargets = [], relayClient = None, relaySent = [], relayAnswered = [], relayProxy = s\<rparr>"

definition closeTarget :: "udpEnv \<Rightarrow> socks5UDPTarget \<Rightarrow> udpRelay \<Rightarrow> udpRelay" where
  "closeTarget env t st = st\<lparr>relayProxy := snd (closeSession (udpSystem env) (targetConn t) (relayProxy st))\<rparr>"

definition relayWrite :: "udpEnv \<Rightarrow> bool \<Rightarrow> string \<Rightarrow> socks5UDPTarget \<Rightarrow> udpAddr \<Rightarrow> byte list \<Rightarrow> udpRelay \<Rightarrow> udpRelay" where
  "relayWrite env written key target src data st =
     (if written then st\<lparr>relaySent := relaySent st @ [(src, targetConn target, data)]\<rparr>
      else closeTarget env target (st\<lparr>relayTargets := AList.delete key (relayTargets st)\<rparr>))"

text \<open>One round of \<open>relaySOCKS5UDP\<close>: a packet has been read.\<close>

definition relayPacket :: "udpEnv \<Rightarrow> (proxyState \<Rightarrow> proxyState) \<Rightarrow> bool \<Rightarrow> udpAddr \<Rightarrow> byte list \<Rightarrow> udpRelay \<Rightarrow> udpRelay" where
  "relayPacket env during written src buf st =
     (if \<not> socks5UDPSourceAllowed (Some (udpAllowed env)) (relayClient st) (Some src) then st
      else
        let st = (if relayClient st = None then st\<lparr>relayClient := Some src\<rparr> else st) in
        case udpParse env buf of
          None \<Rightarrow> st
        | Some packet \<Rightarrow>
            if dgFrag packet \<noteq> 0 then st
            else
              let key = udpText env src @ ''--'' @ dgDst packet in
              case map_of (relayTargets st) key of
                Some target \<Rightarrow> relayWrite env written key target src (dgData packet) st
              | None \<Rightarrow>
                  (case dial (udpSystem env) during (udpUser env) ''udp'' (dgDst packet) (relayProxy st) of
                     (Inl _, s) \<Rightarrow> st\<lparr>relayProxy := s\<rparr>
                   | (Inr conn, s) \<Rightarrow>
                       let target = \<lparr>targetConn = conn, targetDst = dgDst packet, targetClient = src\<rparr> in
                       relayWrite env written key target src (dgData packet)
                         (st\<lparr>relayTargets := AList.update key target (relayTargets st), relayProxy := s\<rparr>)))"

text \<open>\<open>relaySOCKS5UDPResponse\<close>: an answer of a target, and the end of its goroutine; the end of the relay.\<close>

definition relayResponse :: "socks5UDPTarget \<Rightarrow> byte list \<Rightarrow> udpRelay \<Rightarrow> udpRelay" where
  "relayResponse target data st = st\<lparr>relayAnswered := relayAnswered st @ [(targetClient target, targetDst target, data)]\<rparr>"

definition relayResponseEnd :: "udpEnv \<Rightarrow> string \<Rightarrow> socks5UDPTarget \<Rightarrow> udpRelay \<Rightarrow> udpRelay" where
  "relayResponseEnd env key target st = closeTarget env target (st\<lparr>relayTargets := AList.delete key (relayTargets st)\<rparr>)"

definition relayEnd :: "udpEnv \<Rightarrow> udpRelay \<Rightarrow> udpRelay" where
  "relayEnd env st = (fold (\<lambda>(_, t). closeTarget env t) (relayTargets st) st)\<lparr>relayTargets := []\<rparr>"

text \<open>A response goroutine is started for a target of the table and may end long after the table has changed.\<close>

datatype udpEvent =
    UdpPacket bool udpAddr "byte list"
  | UdpResponse socks5UDPTarget "byte list"
  | UdpResponseEnd string socks5UDPTarget

fun udpStep :: "udpEnv \<Rightarrow> udpEvent \<Rightarrow> udpRelay \<Rightarrow> udpRelay" where
  "udpStep env (UdpPacket written src buf) st = relayPacket env (\<lambda>s. s) written src buf st"
| "udpStep env (UdpResponse target data) st = relayResponse target data st"
| "udpStep env (UdpResponseEnd key target) st = relayResponseEnd env key target st"

section \<open>One client\<close>

lemma ipEqual_refl: "ipEqual a a"
  by (simp add: ipEqual_def)

lemma sameUDPAddr_refl: "sameUDPAddr (Some a) (Some a)"
  by (simp add: sameUDPAddr_def ipEqual_refl)

text \<open>What was sent came from the pinned client, and that one was allowed.\<close>

definition relayInv :: "udpEnv \<Rightarrow> udpRelay \<Rightarrow> bool" where
  "relayInv env st \<longleftrightarrow>
     (case relayClient st of
        None \<Rightarrow> relaySent st = [] \<and> relayTargets st = []
      | Some c \<Rightarrow> socks5UDPSourceAllowed (Some (udpAllowed env)) None (Some c) \<and>
          (\<forall>(src, x, d) \<in> set (relaySent st). sameUDPAddr (Some c) (Some src)) \<and>
          (\<forall>(k, t) \<in> set (relayTargets st). sameUDPAddr (Some c) (Some (targetClient t))))"

lemma relayInv_proxy: "relayInv env (st\<lparr>relayProxy := s\<rparr>) = relayInv env st"
  by (simp add: relayInv_def split: option.split)

lemma delete_subset: "set (AList.delete k al) \<subseteq> set al"
  by (induction al) auto

lemma update_subset: "set (AList.update k v al) \<subseteq> insert (k, v) (set al)"
  by (induction al) auto

lemma relayInv_delete: "relayInv env st \<Longrightarrow> relayInv env (st\<lparr>relayTargets := AList.delete k (relayTargets st)\<rparr>)"
  using delete_subset [of k "relayTargets st"] by (auto simp: relayInv_def split: option.splits)

lemma relayInv_closeTarget: "relayInv env (closeTarget env t st) = relayInv env st"
  by (simp add: closeTarget_def relayInv_proxy)

lemma relayInv_write:
  assumes "relayInv env st" and "relayClient st = Some c" and "sameUDPAddr (Some c) (Some src)"
  shows "relayInv env (relayWrite env written key target src data st)"
proof (cases written)
  case True
  with assms show ?thesis by (auto simp: relayWrite_def relayInv_def)
next
  case False
  with relayInv_delete [OF assms(1)] show ?thesis by (simp add: relayWrite_def relayInv_closeTarget)
qed

lemma relayInv_packet: "relayInv env st \<Longrightarrow> relayInv env (relayPacket env during written src buf st)"
proof (cases "socks5UDPSourceAllowed (Some (udpAllowed env)) (relayClient st) (Some src)")
  case True
  assume inv: "relayInv env st"
  let ?st = "if relayClient st = None then st\<lparr>relayClient := Some src\<rparr> else st"
  obtain c where c: "relayClient ?st = Some c" "sameUDPAddr (Some c) (Some src)" "relayInv env ?st"
    using inv True sameUDPAddr_refl by (cases "relayClient st") (auto simp: relayInv_def socks5UDPSourceAllowed_def)
  have w: "relayInv env (relayWrite env written key target src data (?st\<lparr>relayTargets := AList.update key target (relayTargets ?st), relayProxy := s\<rparr>))"
    if "targetClient target = src" for key target data s
  proof (rule relayInv_write)
    show "relayInv env (?st\<lparr>relayTargets := AList.update key target (relayTargets ?st), relayProxy := s\<rparr>)"
      using c that update_subset [of key target "relayTargets ?st"] by (fastforce simp: relayInv_def)
  qed (use c in simp_all)
  have "relayInv env (relayWrite env written key target src data ?st)" for key target data
    using c by (intro relayInv_write)
  then show ?thesis
    using True c(3) w
    by (auto simp: relayPacket_def Let_def relayInv_proxy split: option.splits prod.splits sum.splits)
qed (simp add: relayPacket_def)

lemma relayInv_run: "relayInv env st \<Longrightarrow> relayInv env (fold (udpStep env) evs st)"
proof (induction evs arbitrary: st)
  case (Cons e evs)
  have "relayInv env (udpStep env e st)"
  proof (cases e)
    case (UdpPacket written src buf)
    with Cons.prems show ?thesis by (simp add: relayInv_packet)
  next
    case (UdpResponse target data)
    with Cons.prems show ?thesis by (auto simp: relayResponse_def relayInv_def split: option.splits)
  next
    case (UdpResponseEnd key target)
    with Cons.prems show ?thesis by (simp add: relayResponseEnd_def relayInv_closeTarget relayInv_delete)
  qed
  with Cons.IH show ?case by simp
qed simp

text \<open>
  C29: A UDP association serves one client: whatever packets arrive from whatever addresses and however the targets answer and end,
  everything that is sent on to a target came from the one address that was pinned by the first accepted packet, and that
  address is one the association request allows.
\<close>
theorem udp_relay_serves_one_client:
  assumes "(src, conn, data) \<in> set (relaySent (fold (udpStep env) evs (newRelay s)))"
  shows "\<exists>c. relayClient (fold (udpStep env) evs (newRelay s)) = Some c \<and> sameUDPAddr (Some c) (Some src) \<and>
    socks5UDPSourceAllowed (Some (udpAllowed env)) None (Some c)"
proof -
  have "relayInv env (newRelay s)" by (simp add: relayInv_def newRelay_def)
  from relayInv_run [OF this, of evs] assms show ?thesis by (fastforce simp: relayInv_def split: option.splits)
qed

text \<open>Two clients of one relay, of which the first is served.\<close>

definition exampleUdpEnv :: udpEnv where
  "exampleUdpEnv =
     \<lparr>udpSystem = exampleSystem, udpParse = (\<lambda>b. Some \<lparr>dgFrag = 0, dgDst = ''h:1'', dgData = b\<rparr>),
      udpText = (\<lambda>a. decimal (nat (udpPort a))), udpAllowed = noAddr\<lparr>udpIP := [10, 0, 0, 1]\<rparr>, udpUser = ''m''\<rparr>"

definition exampleClient :: "int \<Rightarrow> udpAddr" where
  "exampleClient port = \<lparr>udpIP = [10, 0, 0, 1], udpPort = port, udpZone = []\<rparr>"

definition exampleRelay :: udpRelay where
  "exampleRelay = newRelay (proxyRun exampleSystem [OpRegister [] ''m'' ''a''] (newProxy exampleConfig))"

definition examplePackets :: "udpEvent list" where
  "examplePackets = [UdpPacket True (exampleClient 5) [1], UdpPacket True (exampleClient 6) [2]]"

theorem udp_relay_serves_one_client_witness:
  "\<exists>c. relayClient (fold (udpStep exampleUdpEnv) examplePackets exampleRelay) = Some c \<and> sameUDPAddr (Some c) (Some (exampleClient 5)) \<and>
    socks5UDPSourceAllowed (Some (udpAllowed exampleUdpEnv)) None (Some c)"
proof -
  have "relaySent (fold (udpStep exampleUdpEnv) examplePackets exampleRelay) =
      [(exampleClient 5, \<lparr>sessionID = 2, sessionUser = ''m'', sessionInterface = Some ''a''\<rparr>, [1])]"
    by code_simp
  then show ?thesis
    unfolding exampleRelay_def by (intro udp_relay_serves_one_client) (simp add: exampleRelay_def)
qed

section \<open>The end of an answering goroutine\<close>

text \<open>
  A goroutine that ends removes whatever target its key has by then: after a write has failed and the next packet has opened a new
  connection under the same key, the end of the old goroutine takes the new connection out of the table, where the end of the
  relay would have found and closed it.
\<close>
theorem late_end_forgets_new_target:
  assumes "map_of (relayTargets st) key = Some new" and "targetConn new \<noteq> targetConn old"
    and "targetConn new \<in> set (openSessions (relayProxy st))"
  shows "map_of (relayTargets (relayResponseEnd env key old st)) key = None"
    and "targetConn new \<in> set (openSessions (relayProxy (relayResponseEnd env key old st)))"
proof -
  have r: "openSessions (removeSession u x s) = openSessions s" for u x s by (simp add: removeSession_def Let_def split: option.split)
  show "map_of (relayTargets (relayResponseEnd env key old st)) key = None"
    by (simp add: relayResponseEnd_def closeTarget_def delete_conv')
  show "targetConn new \<in> set (openSessions (relayProxy (relayResponseEnd env key old st)))"
    using assms(2,3) by (simp add: relayResponseEnd_def closeTarget_def closeSession_def called_def Let_def r split: option.split)
qed

end
