(* ===== verification/ModemConstants.thy ===== *)
theory ModemConstants
  imports GoPrelude
begin

text \<open>
  The enumerations of ModemManager and how they are shown (\<open>internal/pkg/modem/constants.go\<close>). An enumeration is
  its number, as in the code; a set of flags is a 32-bit word.
\<close>

unbundle bit_operations_syntax

section \<open>Names\<close>

definition modemStateName :: "int \<Rightarrow> string" where
  "modemStateName s =
     (if s = -1 then ''Failed''
      else if s = 0 then ''Unknown''
      else if s = 1 then ''Initializing''
      else if s = 2 then ''Locked''
      else if s = 3 then ''Disabled''
      else if s = 4 then ''Disabling''
      else if s = 5 then ''Enabling''
      else if s = 6 then ''Enabled''
      else if s = 7 then ''Searching''
      else if s = 8 then ''Registered''
      else if s = 9 then ''Disconnecting''
      else if s = 10 then ''Connecting''
      else if s = 11 then ''Connected''
      else ''Unknown'')"

definition modemLockName :: "nat \<Rightarrow> string" where
  "modemLockName s =
     (if s = 1 then ''none''
      else if s = 2 then ''sim-pin''
      else if s = 3 then ''sim-pin2''
      else if s = 4 then ''sim-puk''
      else if s = 5 then ''sim-puk2''
      else if s = 6 then ''ph-sp-pin''
      else if s = 7 then ''ph-sp-puk''
      else if s = 8 then ''ph-net-pin''
      else if s = 9 then ''ph-net-puk''
      else if s = 10 then ''ph-sim-pin''
      else if s = 11 then ''ph-corp-pin''
      else if s = 12 then ''ph-corp-puk''
      else if s = 13 then ''ph-fsim-pin''
      else if s = 14 then ''ph-fsim-puk''
      else if s = 15 then ''ph-netsub-pin''
      else if s = 16 then ''ph-netsub-puk''
      else ''unknown'')"

definition smsStorageName :: "nat \<Rightarrow> string" where
  "smsStorageName s =
     (if s = 0 then ''unknown''
      else if s = 1 then ''sm''
      else if s = 2 then ''me''
      else if s = 3 then ''mt''
      else if s = 4 then ''sr''
      else if s = 5 then ''bm''
      else if s = 6 then ''ta''
      else ''unknown'')"

definition registrationStateName :: "nat \<Rightarrow> string" where
  "registrationStateName s =
     (if s = 0 then ''Idle''
      else if s = 1 then ''Home''
      else if s = 2 then ''Searching''
      else if s = 3 then ''Denied''
      else if s = 4 then ''Unknown''
      else if s = 5 then ''Roaming''
      else if s = 6 then ''Home SMS Only''
      else if s = 7 then ''Roaming SMS Only''
      else if s = 8 then ''Emergency Only''
      else if s = 9 then ''Home CSFB Not Preferred''
      else if s = 10 then ''Roaming CSFB Not Preferred''
      else ''Undefined'')"

definition networkAvailabilityName :: "nat \<Rightarrow> string" where
  "networkAvailabilityName s =
     (if s = 0 then ''Unknown''
      else if s = 1 then ''Available''
      else if s = 2 then ''Current''
      else if s = 3 then ''Forbidden''
      else ''Undefined'')"

definition accessTechnologyName :: "32 word \<Rightarrow> string" where
  "accessTechnologyName s =
     (if s = 0 then ''Unknown''
      else if s = 1 then ''POTS''
      else if s = 2 then ''GSM''
      else if s = 4 then ''GSM Compact''
      else if s = 8 then ''GPRS''
      else if s = 16 then ''EDGE''
      else if s = 32 then ''UMTS''
      else if s = 64 then ''HSDPA''
      else if s = 128 then ''HSUPA''
      else if s = 256 then ''HSPA''
      else if s = 512 then ''HSPA+''
      else if s = 1024 then ''CDMA2000 1xRTT''
      else if s = 2048 then ''CDMA2000 EVDO revision 0''
      else if s = 4096 then ''CDMA2000 EVDO revision A''
      else if s = 8192 then ''CDMA2000 EVDO revision B''
      else if s = 16384 then ''LTE''
      else if s = 32768 then ''5GNR''
      else if s = 65536 then ''LTE Cat-M''
      else if s = 131072 then ''LTE NB-IoT''
      else if s = 4294967295 then ''Any''
      else ''Unknown'')"

definition supportedTechnologies :: "32 word list" where
  "supportedTechnologies =
     [2 ^ 0, 2 ^ 1, 2 ^ 2, 2 ^ 3, 2 ^ 4, 2 ^ 5, 2 ^ 6, 2 ^ 7, 2 ^ 8, 2 ^ 9, 2 ^ 10, 2 ^ 11, 2 ^ 12, 2 ^ 13, 2 ^ 14, 2 ^ 15, 2 ^ 16, 2 ^ 17]"

definition modemModeName :: "32 word \<Rightarrow> string" where
  "modemModeName s =
     (if s = 0 then ''None''
      else if s = 1 then ''CS''
      else if s = 2 then ''2G''
      else if s = 4 then ''3G''
      else if s = 8 then ''4G''
      else if s = 16 then ''5G''
      else if s = 4294967295 then ''Any''
      else ''Unknown'')"

definition modemBandLabels :: "(nat \<times> string) list" where
  "modemBandLabels =
     [(1, ''GSM EGSM 900''), (2, ''GSM DCS 1800''), (3, ''GSM PCS 1900''), (4, ''GSM 850''),
      (5, ''UMTS band 1''), (6, ''UMTS band 3''), (7, ''UMTS band 4''), (8, ''UMTS band 6''),
      (9, ''UMTS band 5''), (10, ''UMTS band 8''), (11, ''UMTS band 9''), (12, ''UMTS band 2''),
      (13, ''UMTS band 7''), (14, ''GSM 450''), (15, ''GSM 480''), (16, ''GSM 750''),
      (17, ''GSM 380''), (18, ''GSM 410''), (19, ''GSM 710''), (20, ''GSM 810''),
      (128, ''CDMA BC0''), (129, ''CDMA BC1''), (130, ''CDMA BC2''), (131, ''CDMA BC3''),
      (132, ''CDMA BC4''), (134, ''CDMA BC5''), (135, ''CDMA BC6''), (136, ''CDMA BC7''),
      (137, ''CDMA BC8''), (138, ''CDMA BC9''), (139, ''CDMA BC10''), (140, ''CDMA BC11''),
      (141, ''CDMA BC12''), (142, ''CDMA BC13''), (143, ''CDMA BC14''), (144, ''CDMA BC15''),
      (145, ''CDMA BC16''), (146, ''CDMA BC17''), (147, ''CDMA BC18''), (148, ''CDMA BC19''),
      (210, ''UMTS band 10''), (211, ''UMTS band 11''), (212, ''UMTS band 12''), (213, ''UMTS band 13''),
      (214, ''UMTS band 14''), (219, ''UMTS band 19''), (220, ''UMTS band 20''), (221, ''UMTS band 21''),
      (222, ''UMTS band 22''), (225, ''UMTS band 25''), (226, ''UMTS band 26''), (232, ''UMTS band 32'')]"

definition modemBandName :: "nat \<Rightarrow> string" where
  "modemBandName b =
     (if b = 0 then ''Unknown''
      else if b = 256 then ''Any''
      else case map_of modemBandLabels b of
          Some l \<Rightarrow> l
        | None \<Rightarrow>
            if b \<ge> 31 \<and> b \<le> 115 then (if b = 115 then ''LTE B85'' else ''LTE B'' @ decimal (b - 30))
            else if b \<ge> 301 \<and> b < 600 then ''NR n'' @ decimal (b - 300)
            else ''Band '' @ decimal b)"

section \<open>Flags\<close>

definition ModemAccessTechnologyAny :: "32 word" where "ModemAccessTechnologyAny = 0xFFFFFFFF"

definition unmarshalBitmask :: "32 word \<Rightarrow> 32 word list" where
  "unmarshalBitmask bitmask =
     (if bitmask = 0 then []
      else if bitmask = ModemAccessTechnologyAny then [ModemAccessTechnologyAny]
      else filter (\<lambda>tech. bitmask AND tech \<noteq> 0) supportedTechnologies)"

definition ModemModeNone :: "32 word" where "ModemModeNone = 0"
definition ModemModeAny :: "32 word" where "ModemModeAny = 0xFFFFFFFF"

definition modemModeLabel :: "32 word \<Rightarrow> string" where
  "modemModeLabel m =
     (if m = ModemModeAny \<or> m = ModemModeNone then modemModeName m
      else case map modemModeName (filter (\<lambda>mode. m AND mode \<noteq> 0) [1, 2, 4, 8, 16]) of
          [] \<Rightarrow> ''Unknown''
        | part # parts \<Rightarrow> part @ concat (map (\<lambda>p. '' + '' @ p) parts))"

section \<open>Different bands have different names\<close>

lemma decimal_inject: "decimal m = decimal n \<longleftrightarrow> m = n"
  by (metis decimal_round_trip)

lemma band_table: "distinct (map snd modemBandLabels)" "\<forall>l \<in> snd ` set modemBandLabels. take 2 l \<in> {''GS'', ''UM'', ''CD''}"
  by (simp_all add: modemBandLabels_def)

text \<open>The first two letters tell the kinds of names apart.\<close>

lemma band_kind:
  obtains (fixed) "b = 0 \<and> modemBandName b = ''Unknown'' \<or> b = 256 \<and> modemBandName b = ''Any''"
    | (table) "(b, modemBandName b) \<in> set modemBandLabels"
    | (lte) "31 \<le> b" "modemBandName b = ''LTE B'' @ decimal (b - 30)"
    | (nr) "301 \<le> b" "modemBandName b = ''NR n'' @ decimal (b - 300)"
    | (other) "modemBandName b = ''Band '' @ decimal b"
proof (cases "b = 0 \<or> b = 256")
  case True
  then show ?thesis by (intro fixed) (auto simp: modemBandName_def)
next
  case special: False
  show ?thesis
  proof (cases "map_of modemBandLabels b")
    case (Some l)
    with special have "modemBandName b = l" by (simp add: modemBandName_def)
    with map_of_SomeD [OF Some] show ?thesis by (intro table) simp
  next
    case None
    have "decimal 85 = ''85''" by code_simp
    with special None have "31 \<le> b \<and> b \<le> 115 \<Longrightarrow> modemBandName b = ''LTE B'' @ decimal (b - 30)"
      and "301 \<le> b \<and> b < 600 \<Longrightarrow> modemBandName b = ''NR n'' @ decimal (b - 300)"
      and "\<not> (31 \<le> b \<and> b \<le> 115) \<Longrightarrow> \<not> (301 \<le> b \<and> b < 600) \<Longrightarrow> modemBandName b = ''Band '' @ decimal b"
      by (auto simp: modemBandName_def)
    with lte nr other show ?thesis by blast
  qed
qed

lemma band_letters: "(b, l) \<in> set modemBandLabels \<Longrightarrow> take 2 l \<in> {''GS'', ''UM'', ''CD''}"
  using band_table(2) by force

text \<open>
  A band is shown by a name of its own: no two of the band numbers, known to the table or not, have the same name, so what a user
  selects by its label is one band.
\<close>
theorem band_names_differ: "inj modemBandName"
proof (rule injI)
  fix a b assume eq: "modemBandName a = modemBandName b"
  show "a = b"
  proof (cases a rule: band_kind)
    case fixed
    then show ?thesis using eq by (cases b rule: band_kind) (auto dest: band_letters)
  next
    case table
    have "take 2 (modemBandName b) \<in> {''GS'', ''UM'', ''CD''}" using band_letters [OF table] eq by simp
    then have "(b, modemBandName b) \<in> set modemBandLabels" by (cases b rule: band_kind) auto
    with table eq band_table(1) show ?thesis by (metis eq_key_imp_eq_value map_of_eqI distinct_map inj_onD prod.inject snd_conv)
  next
    case lte
    then show ?thesis using eq by (cases b rule: band_kind) (auto simp: decimal_inject dest: band_letters)
  next
    case nr
    then show ?thesis using eq by (cases b rule: band_kind) (auto simp: decimal_inject dest: band_letters)
  next
    case other
    then show ?thesis using eq by (cases b rule: band_kind) (auto simp: decimal_inject dest: band_letters)
  qed
qed

section \<open>The flags of a mask\<close>

lemma technologies: "supportedTechnologies = map (\<lambda>i. 2 ^ i) [0..<18]"
  by (simp add: supportedTechnologies_def upt_rec)

lemma and_power: "m AND 2 ^ i = (if bit m i then 2 ^ i else (0 :: 32 word))"
  by (rule bit_word_eqI) (auto simp: bit_simps)

lemma or_powers: "bit (foldr (OR) (map (\<lambda>i. 2 ^ i) is) (0 :: 32 word)) n \<longleftrightarrow> n < 32 \<and> n \<in> set is"
  by (induction "is") (auto simp: bit_simps)

text \<open>
  Of a mask of access technologies nothing known is lost and nothing is made up: the technologies it is split into make up the mask
  again, without the bits above the last known one.
\<close>
theorem technologies_make_up_mask:
  "foldr (OR) (unmarshalBitmask m) 0 = (if m = ModemAccessTechnologyAny then m else m AND mask 18)"
proof -
  let ?is = "filter (\<lambda>i. bit m i) [0..<18]"
  have "filter (\<lambda>tech. m AND tech \<noteq> 0) supportedTechnologies = map (\<lambda>i. 2 ^ i) ?is"
    unfolding technologies filter_map comp_def by (intro arg_cong [of _ _ "map _"] filter_cong refl) (auto simp: and_power)
  moreover have "foldr (OR) (map (\<lambda>i. 2 ^ i) ?is) 0 = m AND mask 18"
    by (rule bit_word_eqI) (auto simp: or_powers bit_simps)
  ultimately show ?thesis by (simp add: unmarshalBitmask_def)
qed

end
