(* ===== verification/AppState.thy ===== *)
theory AppState
  imports Simulation GoPrelude "HOL-Library.AList"
begin

text \<open>
  The table of application state (\<open>internal/pkg/storage/app_state.go\<close>): a JSON value for every scope and key. A
  value is kept as its JSON tree; the time of the last change, which nothing reads, is left out. What the database says to a
  statement is an argument: an error, or nothing.
\<close>

section \<open>Values\<close>

datatype json =
    JNull
  | JBool bool
  | JNumber int
  | JString string
  | JArray "json list"
  | JObject "(string \<times> json) list"

section \<open>The table\<close>

type_synonym appTable = "((string \<times> string) \<times> json) list"

datatype stateError =
    ErrNotFound | ErrScopeRequired | ErrKeyRequired | ErrEncode string | ErrDecode string | ErrDatabase string

definition statePut :: "string option \<Rightarrow> string \<Rightarrow> string \<Rightarrow> string + json \<Rightarrow> appTable \<Rightarrow> stateError option \<times> appTable" where
  "statePut db scope key v tab =
     (let scope = trim_space scope; key = trim_space key in
      if scope = [] then (Some ErrScopeRequired, tab)
      else if key = [] then (Some ErrKeyRequired, tab)
      else case v of
          Inl e \<Rightarrow> (Some (ErrEncode e), tab)
        | Inr data \<Rightarrow>
            (case db of
               Some e \<Rightarrow> (Some (ErrDatabase e), tab)
             | None \<Rightarrow> (None, AList.update (scope, key) data tab)))"

definition stateGetRaw :: "string option \<Rightarrow> string \<Rightarrow> string \<Rightarrow> appTable \<Rightarrow> stateError + json" where
  "stateGetRaw db scope key tab =
     (let scope = trim_space scope; key = trim_space key in
      if scope = [] then Inl ErrScopeRequired
      else if key = [] then Inl ErrKeyRequired
      else case db of
          Some e \<Rightarrow> Inl (ErrDatabase e)
        | None \<Rightarrow> (case map_of tab (scope, key) of None \<Rightarrow> Inl ErrNotFound | Some data \<Rightarrow> Inr data))"

definition stateGet :: "string option \<Rightarrow> string \<Rightarrow> string \<Rightarrow> (json \<Rightarrow> string + 'a) \<Rightarrow> appTable \<Rightarrow> stateError + 'a" where
  "stateGet db scope key decode tab =
     (case stateGetRaw db scope key tab of
        Inl e \<Rightarrow> Inl e
      | Inr data \<Rightarrow> (case decode data of Inl e \<Rightarrow> Inl (ErrDecode e) | Inr x \<Rightarrow> Inr x))"

definition stateDelete :: "string option \<Rightarrow> string \<Rightarrow> string \<Rightarrow> appTable \<Rightarrow> stateError option \<times> appTable" where
  "stateDelete db scope key tab =
     (let scope = trim_space scope; key = trim_space key in
      if scope = [] then (None, tab)
      else case db of
          Some e \<Rightarrow> (Some (ErrDatabase e), tab)
        | None \<Rightarrow>
            if key = [] then (None, filter (\<lambda>r. fst (fst r) \<noteq> scope) tab)
            else (None, AList.delete (scope, key) tab))"

text \<open>\<open>like\<close> is the operator of the database, whose pattern is not escaped here.\<close>

definition stateListRaw :: "(string \<Rightarrow> string \<Rightarrow> bool) \<Rightarrow> string option \<Rightarrow> string \<Rightarrow> string \<Rightarrow> appTable \<Rightarrow> stateError + (string \<times> json) list" where
  "stateListRaw like db scopePrefix key tab =
     (let scopePrefix = trim_space scopePrefix; key = trim_space key in
      if key = [] then Inl ErrKeyRequired
      else case db of
          Some e \<Rightarrow> Inl (ErrDatabase e)
        | None \<Rightarrow>
            Inr (map (\<lambda>((scope, _), data). (scope, data))
              (filter (\<lambda>((scope, k), _). like (scopePrefix @ ''%'') scope \<and> k = key) tab)))"

section \<open>The table is a map\<close>

datatype stateOp =
    StatePut "string option" string string "string + json"
  | StateGet "string option" string string
  | StateDelete "string option" string string

fun stateStep :: "stateOp \<Rightarrow> appTable \<Rightarrow> (stateError option + stateError + json) \<times> appTable" where
  "stateStep (StatePut db scope key v) tab = (case statePut db scope key v tab of (e, t) \<Rightarrow> (Inl e, t))"
| "stateStep (StateGet db scope key) tab = (Inr (stateGetRaw db scope key tab), tab)"
| "stateStep (StateDelete db scope key) tab = (case stateDelete db scope key tab of (e, t) \<Rightarrow> (Inl e, t))"

type_synonym appMap = "string \<times> string \<Rightarrow> json option"

fun stateMapStep :: "stateOp \<Rightarrow> appMap \<Rightarrow> (stateError option + stateError + json) \<times> appMap" where
  "stateMapStep (StatePut db scope key v) m =
     (if trim_space scope = [] then (Inl (Some ErrScopeRequired), m)
      else if trim_space key = [] then (Inl (Some ErrKeyRequired), m)
      else case (v, db) of
          (Inl e, _) \<Rightarrow> (Inl (Some (ErrEncode e)), m)
        | (_, Some e) \<Rightarrow> (Inl (Some (ErrDatabase e)), m)
        | (Inr data, None) \<Rightarrow> (Inl None, m((trim_space scope, trim_space key) \<mapsto> data)))"
| "stateMapStep (StateGet db scope key) m =
     (Inr (if trim_space scope = [] then Inl ErrScopeRequired
           else if trim_space key = [] then Inl ErrKeyRequired
           else case (db, m (trim_space scope, trim_space key)) of
               (Some e, _) \<Rightarrow> Inl (ErrDatabase e)
             | (None, None) \<Rightarrow> Inl ErrNotFound
             | (None, Some data) \<Rightarrow> Inr data), m)"
| "stateMapStep (StateDelete db scope key) m =
     (if trim_space scope = [] then (Inl None, m)
      else case db of
          Some e \<Rightarrow> (Inl (Some (ErrDatabase e)), m)
        | None \<Rightarrow>
            (Inl None, \<lambda>k. if fst k = trim_space scope \<and> (trim_space key = [] \<or> snd k = trim_space key) then None else m k))"

lemma map_of_filter_scope: "map_of (filter (\<lambda>r. fst (fst r) \<noteq> scope) tab) k = (if fst k = scope then None else map_of tab k)"
  by (induction tab) auto

interpretation appState: simulation stateStep stateMapStep map_of "\<lambda>tab. True"
proof
  fix tab op r tab' assume "stateStep op tab = (r, tab')"
  then show "stateMapStep op (map_of tab) = (r, map_of tab')"
    by (cases op)
      (auto simp: statePut_def stateGetRaw_def stateDelete_def update_conv' delete_conv' map_of_filter_scope fun_eq_iff Let_def
        split: option.splits sum.splits if_splits)
qed simp

text \<open>
  C38: The table of application state is a map: whatever is put, read and deleted in whatever order, with the errors of the
  database in between, every answer is the one of a map from pairs of trimmed scopes and keys to values, in which a deletion without a key
  removes the scope and a failed statement changes nothing.
\<close>
theorem app_state_is_map:
  "fst (runOps stateMapStep ops (map_of tab)) = fst (runOps stateStep ops tab)"
  using appState.sim_run [OF TrueI surjective_pairing [of "runOps stateStep ops tab"]] by simp

end
