(* ===== verification/NetworkPrefs.thy ===== *)
theory NetworkPrefs
  imports ModemConstants AppState Dbus
begin

text \<open>
  Modes, bands and the registration of a modem: the requests that set them (\<open>internal/app/handler/network\<close>), their saving,
  and their restoring when the modem comes back (\<open>internal/pkg/modem/network_preferences.go\<close>, \<open>registration.go\<close>).

  A modem is the answers of ModemManager to the calls made here; a call that sets something changes the later answers. A
  statement of the database is the error it gives, if any. A mode and a band are numbers below \<open>2 ^ 32\<close>.
\<close>

section \<open>The modem\<close>

record networkModem =
  netEquipmentIdentifier :: string
  netSIM :: "string option"
  supportedModes :: "busError + ModemModePair list"
  currentModes :: "busError + ModemModePair"
  setModesError :: "busError option"
  supportedBands :: "busError + nat list"
  currentBands :: "busError + nat list"
  setBandsError :: "busError option"
  netOperatorCode :: "busError + string"
  registerError :: "busError option"
  networkCalls :: "string list"

definition modemSetModes :: "ModemModePair \<Rightarrow> networkModem \<Rightarrow> busError option \<times> networkModem" where
  "modemSetModes mode m =
     (case setModesError m of Some e \<Rightarrow> (Some e, m) | None \<Rightarrow> (None, m\<lparr>currentModes := Inr mode\<rparr>))"

definition modemSetBands :: "nat list \<Rightarrow> networkModem \<Rightarrow> busError option \<times> networkModem" where
  "modemSetBands bands m =
     (case setBandsError m of Some e \<Rightarrow> (Some e, m) | None \<Rightarrow> (None, m\<lparr>currentBands := Inr bands\<rparr>))"

definition modemRegisterNetwork :: "string \<Rightarrow> networkModem \<Rightarrow> busError option \<times> networkModem" where
  "modemRegisterNetwork operator m = (registerError m, m\<lparr>networkCalls := networkCalls m @ [operator]\<rparr>)"

datatype networkError =
    ErrModemID | ErrState stateError | ErrModemCall string busError | ErrSavedMode | ErrSavedBands string
  | ErrUnsupportedMode | ErrBandsRequired | ErrUnsupportedBand | ErrDuplicateBand | ErrAnyBandExclusive | ErrOperatorCodeRequired

section \<open>Saved preferences\<close>

record savedNetworkPreferences =
  savedMode :: "ModemModePair option"
  savedBands :: "nat list option"

definition noSavedPreferences :: savedNetworkPreferences where
  "noSavedPreferences = \<lparr>savedMode = None, savedBands = None\<rparr>"

text \<open>The JSON of the structure: empty fields are left out. Reading takes the names as they are written.\<close>

definition encodePreferences :: "savedNetworkPreferences \<Rightarrow> json" where
  "encodePreferences e =
     JObject
       ((case savedMode e of
           None \<Rightarrow> []
         | Some m \<Rightarrow> [(''mode'', JObject [(''allowed'', JNumber (int (Allowed m))), (''preferred'', JNumber (int (PreferredMode m)))])]) @
        (case savedBands e of
           None \<Rightarrow> []
         | Some [] \<Rightarrow> []
         | Some bands \<Rightarrow> [(''bands'', JArray (map (\<lambda>b. JNumber (int b)) bands))]))"

definition decodeUint32 :: "json option \<Rightarrow> nat option" where
  "decodeUint32 v =
     (case v of
        None \<Rightarrow> Some 0
      | Some JNull \<Rightarrow> Some 0
      | Some (JNumber n) \<Rightarrow> if 0 \<le> n \<and> n < 2 ^ 32 then Some (nat n) else None
      | _ \<Rightarrow> None)"

fun decodeUints :: "json list \<Rightarrow> nat list option" where
  "decodeUints [] = Some []"
| "decodeUints (v # vs) = (case (decodeUint32 (Some v), decodeUints vs) of (Some n, Some ns) \<Rightarrow> Some (n # ns) | _ \<Rightarrow> None)"

definition decodePreferences :: "json \<Rightarrow> string + savedNetworkPreferences" where
  "decodePreferences v =
     (case v of
        JNull \<Rightarrow> Inr noSavedPreferences
      | JObject fs \<Rightarrow>
          rbind
            (case map_of fs ''mode'' of
               None \<Rightarrow> Inr None
             | Some JNull \<Rightarrow> Inr None
             | Some (JObject m) \<Rightarrow>
                 (case (decodeUint32 (map_of m ''allowed''), decodeUint32 (map_of m ''preferred'')) of
                    (Some a, Some p) \<Rightarrow> Inr (Some \<lparr>Allowed = a, PreferredMode = p\<rparr>)
                  | _ \<Rightarrow> Inl ''mode'')
             | _ \<Rightarrow> Inl ''mode'')
            (\<lambda>mode.
               (case map_of fs ''bands'' of
                  None \<Rightarrow> Inr \<lparr>savedMode = mode, savedBands = None\<rparr>
                | Some JNull \<Rightarrow> Inr \<lparr>savedMode = mode, savedBands = None\<rparr>
                | Some (JArray vs) \<Rightarrow>
                    (case decodeUints vs of None \<Rightarrow> Inl ''bands'' | Some bands \<Rightarrow> Inr \<lparr>savedMode = mode, savedBands = Some bands\<rparr>)
                | _ \<Rightarrow> Inl ''bands''))
      | _ \<Rightarrow> Inl ''network preferences'')"

definition preferencesScope :: "string \<Rightarrow> string" where
  "preferencesScope modemID = ''modem:'' @ modemID"

definition loadForModemLocked :: "string option \<Rightarrow> string \<Rightarrow> appTable \<Rightarrow> stateError + savedNetworkPreferences option" where
  "loadForModemLocked db modemID tab =
     (case stateGet db (preferencesScope modemID) ''network.preferences'' decodePreferences tab of
        Inl ErrNotFound \<Rightarrow> Inr None
      | Inl e \<Rightarrow> Inl e
      | Inr entry \<Rightarrow> Inr (Some entry))"

definition loadForModem :: "string option \<Rightarrow> string \<Rightarrow> appTable \<Rightarrow> stateError + savedNetworkPreferences option" where
  "loadForModem db modemID tab =
     (let modemID = trim_space modemID in if modemID = [] then Inr None else loadForModemLocked db modemID tab)"

definition saveForModemLocked :: "string option \<Rightarrow> string \<Rightarrow> savedNetworkPreferences \<Rightarrow> appTable \<Rightarrow> stateError option \<times> appTable" where
  "saveForModemLocked db modemID entry tab =
     statePut db (preferencesScope modemID) ''network.preferences'' (Inr (encodePreferences entry)) tab"

text \<open>\<open>SaveMode\<close> and \<open>SaveBands\<close>; the two errors are those of the reading and the writing statement.\<close>

definition savePreference ::
  "(savedNetworkPreferences \<Rightarrow> savedNetworkPreferences) \<Rightarrow> string option \<times> string option \<Rightarrow> string \<Rightarrow> appTable \<Rightarrow> networkError option \<times> appTable" where
  "savePreference change db modemID tab =
     (let modemID = trim_space modemID in
      if modemID = [] then (Some ErrModemID, tab)
      else case loadForModemLocked (fst db) modemID tab of
          Inl e \<Rightarrow> (Some (ErrState e), tab)
        | Inr entry \<Rightarrow>
            (case saveForModemLocked (snd db) modemID (change (case entry of None \<Rightarrow> noSavedPreferences | Some e \<Rightarrow> e)) tab of
               (Some e, tab) \<Rightarrow> (Some (ErrState e), tab)
             | (None, tab) \<Rightarrow> (None, tab)))"

definition SaveMode :: "string option \<times> string option \<Rightarrow> string \<Rightarrow> ModemModePair \<Rightarrow> appTable \<Rightarrow> networkError option \<times> appTable" where
  "SaveMode db modemID mode tab = savePreference (\<lambda>e. e\<lparr>savedMode := Some mode\<rparr>) db modemID tab"

definition SaveBands :: "string option \<times> string option \<Rightarrow> string \<Rightarrow> nat list \<Rightarrow> appTable \<Rightarrow> networkError option \<times> appTable" where
  "SaveBands db modemID bands tab = savePreference (\<lambda>e. e\<lparr>savedBands := Some bands\<rparr>) db modemID tab"

section \<open>Restoring\<close>

fun duplicateBandLoop :: "nat list \<Rightarrow> nat list \<Rightarrow> bool" where
  "duplicateBandLoop seen [] = False"
| "duplicateBandLoop seen (b # bs) = (if b \<in> set seen then True else duplicateBandLoop (b # seen) bs)"

definition duplicateBand :: "nat list \<Rightarrow> bool" where
  "duplicateBand bands = duplicateBandLoop [] bands"

definition sameBands :: "nat list \<Rightarrow> nat list \<Rightarrow> bool" where
  "sameBands a b \<longleftrightarrow>
     (if length a \<noteq> length b then False
      else if duplicateBand a \<or> duplicateBand b then False
      else list_all (\<lambda>band. band \<in> set b) a)"

definition ModemBandAny :: nat where "ModemBandAny = 256"

text \<open>The answer is whether to try again, and the error.\<close>

definition restoreModePreference :: "(string \<Rightarrow> string) \<Rightarrow> ModemModePair \<Rightarrow> networkModem \<Rightarrow> (bool \<times> networkError option) \<times> networkModem" where
  "restoreModePreference lower mode m =
     (case supportedModes m of
        Inl e \<Rightarrow> ((isTransientRestartError lower (Some e), Some (ErrModemCall ''read supported modes'' e)), m)
      | Inr supported \<Rightarrow>
          if mode \<notin> set supported then ((False, Some ErrSavedMode), m)
          else
            (case currentModes m of
               Inl e \<Rightarrow> ((isTransientRestartError lower (Some e), Some (ErrModemCall ''read current modes'' e)), m)
             | Inr current \<Rightarrow>
                 if current = mode then ((False, None), m)
                 else
                   (case modemSetModes mode m of
                      (Some e, m) \<Rightarrow> ((isTransientRestartError lower (Some e), Some (ErrModemCall ''set current modes'' e)), m)
                    | (None, m) \<Rightarrow> ((False, None), m))))"

definition restoreBandPreference :: "(string \<Rightarrow> string) \<Rightarrow> nat list \<Rightarrow> networkModem \<Rightarrow> (bool \<times> networkError option) \<times> networkModem" where
  "restoreBandPreference lower bands m =
     (if bands = [] then ((False, Some (ErrSavedBands ''saved bands are empty'')), m)
      else if duplicateBand bands then ((False, Some (ErrSavedBands ''saved bands contain duplicates'')), m)
      else if ModemBandAny \<in> set bands \<and> length bands > 1 then
        ((False, Some (ErrSavedBands ''saved bands combine any with other bands'')), m)
      else case supportedBands m of
          Inl e \<Rightarrow> ((isTransientRestartError lower (Some e), Some (ErrModemCall ''read supported bands'' e)), m)
        | Inr supported \<Rightarrow>
            if list_ex (\<lambda>b. b \<notin> set supported) bands then ((False, Some (ErrSavedBands ''saved band unsupported'')), m)
            else
              (case currentBands m of
                 Inl e \<Rightarrow> ((isTransientRestartError lower (Some e), Some (ErrModemCall ''read current bands'' e)), m)
               | Inr current \<Rightarrow>
                   if sameBands current bands then ((False, None), m)
                   else
                     (case modemSetBands bands m of
                        (Some e, m) \<Rightarrow> ((isTransientRestartError lower (Some e), Some (ErrModemCall ''set current bands'' e)), m)
                      | (None, m) \<Rightarrow> ((False, None), m))))"

definition joinRestore :: "bool \<times> networkError list \<Rightarrow> bool \<times> networkError option \<Rightarrow> bool \<times> networkError list" where
  "joinRestore a r = (case snd r of None \<Rightarrow> a | Some e \<Rightarrow> (fst a \<or> fst r, snd a @ [e]))"

definition restoreOnce :: "(string \<Rightarrow> string) \<Rightarrow> string option \<Rightarrow> appTable \<Rightarrow> networkModem \<Rightarrow> (bool \<times> networkError list) \<times> networkModem" where
  "restoreOnce lower db tab m =
     (case loadForModem db (netEquipmentIdentifier m) tab of
        Inl e \<Rightarrow> ((False, [ErrState e]), m)
      | Inr None \<Rightarrow> ((False, []), m)
      | Inr (Some prefs) \<Rightarrow>
          let (a, m) = (case savedMode prefs of
                          None \<Rightarrow> ((False, []), m)
                        | Some mode \<Rightarrow> (case restoreModePreference lower mode m of (r, m) \<Rightarrow> (joinRestore (False, []) r, m)))
          in (case savedBands prefs of
                None \<Rightarrow> (a, m)
              | Some bands \<Rightarrow> (case restoreBandPreference lower bands m of (r, m) \<Rightarrow> (joinRestore a r, m))))"

text \<open>
  \<open>restoreWithRetry\<close>: one entry for every round, with what has become of the modem, the database's answer, whether the
  context is done after the round, and whether it ends during the wait.
\<close>

datatype restoreEnd = RestoreDone | RestoreCancelled | RestoreGaveUp "networkError list" | RestoreWaiting

fun restoreWithRetry ::
  "(string \<Rightarrow> string) \<Rightarrow> appTable \<Rightarrow> ((networkModem \<Rightarrow> networkModem) \<times> string option \<times> bool \<times> bool) list \<Rightarrow> networkModem \<Rightarrow>
   restoreEnd \<times> networkModem" where
  "restoreWithRetry lower tab [] m = (RestoreWaiting, m)"
| "restoreWithRetry lower tab ((change, db, ctxEnded, waitEnded) # rounds) m =
     (case restoreOnce lower db tab (change m) of
        ((retry, err), m) \<Rightarrow>
          if err = [] then (RestoreDone, m)
          else if ctxEnded then (RestoreCancelled, m)
          else if \<not> retry then (RestoreGaveUp err, m)
          else if waitEnded then (RestoreCancelled, m)
          else restoreWithRetry lower tab rounds m)"

section \<open>Requests\<close>

fun validateBandLoop :: "nat list \<Rightarrow> nat list \<Rightarrow> nat list \<Rightarrow> networkError option" where
  "validateBandLoop supported seen [] = None"
| "validateBandLoop supported seen (b # bs) =
     (if b \<in> set seen then Some ErrDuplicateBand
      else if b \<notin> set supported then Some ErrUnsupportedBand
      else validateBandLoop supported (b # seen) bs)"

definition validateBandValues :: "nat list \<Rightarrow> nat list \<Rightarrow> networkError option" where
  "validateBandValues supported bands =
     (if bands = [] then Some ErrBandsRequired
      else case validateBandLoop supported [] bands of
          Some e \<Rightarrow> Some e
        | None \<Rightarrow> if ModemBandAny \<in> set bands \<and> length bands > 1 then Some ErrAnyBandExclusive else None)"

definition SetCurrentBands :: "string option \<times> string option \<Rightarrow> nat list \<Rightarrow> networkModem \<Rightarrow> appTable \<Rightarrow>
   networkError option \<times> networkModem \<times> appTable" where
  "SetCurrentBands db bands m tab =
     (case supportedBands m of
        Inl e \<Rightarrow> (Some (ErrModemCall ''read supported bands'' e), m, tab)
      | Inr supported \<Rightarrow>
          (case validateBandValues supported bands of
             Some e \<Rightarrow> (Some e, m, tab)
           | None \<Rightarrow>
               (case modemSetBands bands m of
                  (Some e, m) \<Rightarrow> (Some (ErrModemCall ''set current bands'' e), m, tab)
                | (None, m) \<Rightarrow> (case SaveBands db (netEquipmentIdentifier m) bands tab of (e, tab) \<Rightarrow> (e, m, tab)))))"

definition SetCurrentModes :: "string option \<times> string option \<Rightarrow> ModemModePair \<Rightarrow> networkModem \<Rightarrow> appTable \<Rightarrow>
   networkError option \<times> networkModem \<times> appTable" where
  "SetCurrentModes db want m tab =
     (case supportedModes m of
        Inl e \<Rightarrow> (Some (ErrModemCall ''read supported modes'' e), m, tab)
      | Inr supported \<Rightarrow>
          if want \<notin> set supported then (Some ErrUnsupportedMode, m, tab)
          else
            (case modemSetModes want m of
               (Some e, m) \<Rightarrow> (Some (ErrModemCall ''set current modes'' e), m, tab)
             | (None, m) \<Rightarrow> (case SaveMode db (netEquipmentIdentifier m) want tab of (e, tab) \<Rightarrow> (e, m, tab))))"

text \<open>What the two listings return: value, label, and whether it is the current one.\<close>

definition bandsResponse :: "networkModem \<Rightarrow> networkError + (nat \<times> string \<times> bool) list \<times> nat list" where
  "bandsResponse m =
     (case supportedBands m of
        Inl e \<Rightarrow> Inl (ErrModemCall ''read supported bands'' e)
      | Inr supported \<Rightarrow>
          (case currentBands m of
             Inl e \<Rightarrow> Inl (ErrModemCall ''read current bands'' e)
           | Inr current \<Rightarrow> Inr (map (\<lambda>b. (b, modemBandName b, b \<in> set current)) supported, current)))"

record ModeResponse =
  responseMode :: ModemModePair
  AllowedLabel :: string
  PreferredLabel :: string
  CurrentMode :: bool

definition modeResponse :: "ModemModePair \<Rightarrow> ModemModePair \<Rightarrow> ModeResponse" where
  "modeResponse mode current =
     \<lparr>responseMode = mode, AllowedLabel = modemModeLabel (of_nat (Allowed mode)), PreferredLabel = modemModeName (of_nat (PreferredMode mode)),
      CurrentMode = (mode = current)\<rparr>"

definition modesResponse :: "networkModem \<Rightarrow> networkError + ModeResponse list \<times> ModeResponse" where
  "modesResponse m =
     (case supportedModes m of
        Inl e \<Rightarrow> Inl (ErrModemCall ''read supported modes'' e)
      | Inr supported \<Rightarrow>
          (case currentModes m of
             Inl e \<Rightarrow> Inl (ErrModemCall ''read current modes'' e)
           | Inr current \<Rightarrow> Inr (map (\<lambda>mode. modeResponse mode current) supported, modeResponse current current)))"

text \<open>The status and the error code of the answer.\<close>

definition setBandsReply :: "networkError option \<Rightarrow> nat \<times> string" where
  "setBandsReply e =
     (case e of
        None \<Rightarrow> (204, [])
      | Some ErrBandsRequired \<Rightarrow> (400, ''bands_required'')
      | Some ErrUnsupportedBand \<Rightarrow> (400, ''unsupported_band'')
      | Some ErrDuplicateBand \<Rightarrow> (400, ''duplicate_band'')
      | Some ErrAnyBandExclusive \<Rightarrow> (400, ''any_band_exclusive'')
      | _ \<Rightarrow> (500, ''set_bands_failed''))"

definition setModesReply :: "networkError option \<Rightarrow> nat \<times> string" where
  "setModesReply e =
     (case e of
        None \<Rightarrow> (204, [])
      | Some ErrUnsupportedMode \<Rightarrow> (400, ''unsupported_mode'')
      | _ \<Rightarrow> (500, ''set_modes_failed''))"

section \<open>Registration\<close>

record networkRegistrationPreference =
  registrationMode :: string
  registrationOperator :: string

definition encodeRegistration :: "networkRegistrationPreference \<Rightarrow> json" where
  "encodeRegistration p = JObject [(''mode'', JString (registrationMode p)), (''operatorCode'', JString (registrationOperator p))]"

definition decodeText :: "json option \<Rightarrow> string option" where
  "decodeText v = (case v of None \<Rightarrow> Some [] | Some JNull \<Rightarrow> Some [] | Some (JString s) \<Rightarrow> Some s | _ \<Rightarrow> None)"

definition decodeRegistration :: "json \<Rightarrow> string + networkRegistrationPreference" where
  "decodeRegistration v =
     (case v of
        JNull \<Rightarrow> Inr \<lparr>registrationMode = [], registrationOperator = []\<rparr>
      | JObject fs \<Rightarrow>
          (case (decodeText (map_of fs ''mode''), decodeText (map_of fs ''operatorCode'')) of
             (Some mode, Some operator) \<Rightarrow> Inr \<lparr>registrationMode = mode, registrationOperator = operator\<rparr>
           | _ \<Rightarrow> Inl ''registration'')
      | _ \<Rightarrow> Inl ''registration'')"

definition registrationScope :: "networkModem \<Rightarrow> string" where
  "registrationScope m =
     (let profileID = (case netSIM m of None \<Rightarrow> [] | Some i \<Rightarrow> trim_space i); modemID = trim_space (netEquipmentIdentifier m) in
      if profileID \<noteq> [] then ''profile:'' @ profileID
      else if modemID \<noteq> [] then ''modem:'' @ modemID
      else [])"

definition saveRegistration :: "string option \<Rightarrow> networkModem \<Rightarrow> string \<Rightarrow> appTable \<Rightarrow> stateError option \<times> appTable" where
  "saveRegistration db m operator tab =
     (let scope = registrationScope m in
      if scope = [] then (None, tab)
      else statePut db scope ''network.registration''
             (Inr (encodeRegistration \<lparr>registrationMode = ''manual'', registrationOperator = operator\<rparr>)) tab)"

definition registerNetwork :: "string option \<Rightarrow> string \<Rightarrow> networkModem \<Rightarrow> appTable \<Rightarrow> networkError option \<times> networkModem \<times> appTable" where
  "registerNetwork db operator m tab =
     (let operator = trim_space operator in
      if operator = [] then (Some ErrOperatorCodeRequired, m, tab)
      else case modemRegisterNetwork operator m of
          (Some e, m) \<Rightarrow> (Some (ErrModemCall ''register network'' e), m, tab)
        | (None, m) \<Rightarrow> (case saveRegistration db m operator tab of (e, tab) \<Rightarrow> (map_option ErrState e, m, tab)))"

definition restoreRegistration :: "string option \<Rightarrow> appTable \<Rightarrow> networkModem \<Rightarrow> networkError option \<times> networkModem" where
  "restoreRegistration db tab m =
     (let scope = registrationScope m in
      if scope = [] then (None, m)
      else case stateGet db scope ''network.registration'' decodeRegistration tab of
          Inl ErrNotFound \<Rightarrow> (None, m)
        | Inl e \<Rightarrow> (Some (ErrState e), m)
        | Inr pref \<Rightarrow>
            let operator = trim_space (registrationOperator pref) in
            if registrationMode pref \<noteq> ''manual'' \<or> operator = [] then (None, m)
            else if (case netOperatorCode m of Inr current \<Rightarrow> trim_space current = operator | Inl _ \<Rightarrow> False) then (None, m)
            else (case modemRegisterNetwork operator m of (e, m) \<Rightarrow> (map_option (ErrModemCall ''register network'') e, m)))"

section \<open>What is checked\<close>

lemma duplicateBand_iff: "duplicateBand bands \<longleftrightarrow> \<not> distinct bands"
proof -
  have "duplicateBandLoop seen bands \<longleftrightarrow> \<not> (distinct bands \<and> set bands \<inter> set seen = {})" for seen
    by (induction bands arbitrary: seen) auto
  then show ?thesis by (simp add: duplicateBand_def)
qed

lemma validateBandLoop_iff:
  "validateBandLoop supported seen bands = None \<longleftrightarrow> distinct bands \<and> set bands \<inter> set seen = {} \<and> set bands \<subseteq> set supported"
  by (induction bands arbitrary: seen) auto

lemma sameBands_iff: "sameBands a b \<longleftrightarrow> distinct a \<and> distinct b \<and> set a = set b"
proof
  assume s: "sameBands a b"
  then have "distinct a" "distinct b" "set a \<subseteq> set b" "length a = length b"
    by (auto simp: sameBands_def duplicateBand_iff list_all_iff split: if_splits)
  moreover from this have "set a = set b" by (intro card_subset_eq) (simp_all add: distinct_card)
  ultimately show "distinct a \<and> distinct b \<and> set a = set b" by blast
next
  assume d: "distinct a \<and> distinct b \<and> set a = set b"
  then have "length a = length b" by (metis distinct_card)
  with d show "sameBands a b" by (simp add: sameBands_def duplicateBand_iff list_all_iff)
qed

text \<open>
  A request for bands is accepted exactly when it is meaningful: it names some bands, each once and each supported by the
  modem, and either no band is Any or Any is the only one.
\<close>
theorem accepted_bands:
  "validateBandValues supported bands = None \<longleftrightarrow>
     bands = [ModemBandAny] \<and> ModemBandAny \<in> set supported \<or>
     bands \<noteq> [] \<and> distinct bands \<and> set bands \<subseteq> set supported - {ModemBandAny}"
proof -
  have "bands = [ModemBandAny]" if "ModemBandAny \<in> set bands" "\<not> length bands > 1"
    using that by (cases bands) auto
  moreover have "validateBandValues supported bands = None \<longleftrightarrow>
      bands \<noteq> [] \<and> distinct bands \<and> set bands \<subseteq> set supported \<and> \<not> (ModemBandAny \<in> set bands \<and> length bands > 1)"
    using validateBandLoop_iff [of supported "[]" bands]
    by (cases "validateBandLoop supported [] bands") (auto simp: validateBandValues_def)
  ultimately show ?thesis by auto
qed

section \<open>What was set comes back\<close>

lemma decodeUints_range: "decodeUints vs = Some ns \<Longrightarrow> list_all (\<lambda>n. n < 2 ^ 32) ns"
proof (induction vs arbitrary: ns)
  case (Cons v vs)
  then show ?case by (auto simp: decodeUint32_def split: option.splits json.splits if_splits)
qed simp

lemma decodeUints_numbers: "list_all (\<lambda>n. n < 2 ^ 32) ns \<Longrightarrow> decodeUints (map (\<lambda>b. JNumber (int b)) ns) = Some ns"
  by (induction ns) (auto simp: decodeUint32_def)

definition modeInRange :: "ModemModePair option \<Rightarrow> bool" where
  "modeInRange m = (case m of None \<Rightarrow> True | Some p \<Rightarrow> Allowed p < 2 ^ 32 \<and> PreferredMode p < 2 ^ 32)"

lemma decodeUint32_range: "decodeUint32 v = Some n \<Longrightarrow> n < 2 ^ 32"
  by (auto simp: decodeUint32_def split: option.splits json.splits if_splits)

lemma decodePreferences_range: "decodePreferences v = Inr e \<Longrightarrow> modeInRange (savedMode e)"
  by (auto simp: decodePreferences_def noSavedPreferences_def modeInRange_def rbind_Inr_iff dest!: decodeUint32_range
    split: json.splits option.splits)

lemma decode_encode:
  assumes "modeInRange (savedMode e)" and "savedBands e = Some bands" and "bands \<noteq> []" and "list_all (\<lambda>b. b < 2 ^ 32) bands"
  shows "decodePreferences (encodePreferences e) = Inr e"
proof -
  obtain b bs where bands: "bands = b # bs" using assms(3) by (cases bands) auto
  obtain mode where e: "e = \<lparr>savedMode = mode, savedBands = Some (b # bs)\<rparr>" using assms(2) bands by (cases e) auto
  have d: "decodeUints (JNumber (int b) # map (\<lambda>b. JNumber (int b)) bs) = Some (b # bs)"
    using decodeUints_numbers [OF assms(4)] bands by simp
  show ?thesis
    using assms(1)
    by (cases mode) (simp_all add: e decodePreferences_def encodePreferences_def d modeInRange_def decodeUint32_def del: decodeUints.simps)
qed

lemma statePut_get:
  assumes "statePut db scope key (Inr v) tab = (None, tab')"
  shows "stateGet None scope key decode tab' = (case decode v of Inl e \<Rightarrow> Inl (ErrDecode e) | Inr x \<Rightarrow> Inr x)"
  using assms by (auto simp: statePut_def stateGet_def stateGetRaw_def update_conv' Let_def split: if_splits option.splits)

lemma SaveBands_load:
  assumes "SaveBands db modemID bands tab = (None, tab')" and "bands \<noteq> []" and "list_all (\<lambda>b. b < 2 ^ 32) bands"
    and "trim_space modemID' = trim_space modemID"
  shows "\<exists>e. loadForModem None modemID' tab' = Inr (Some e) \<and> savedBands e = Some bands"
proof -
  let ?id = "trim_space modemID"
  obtain old where old: "loadForModemLocked (fst db) ?id tab = Inr old" "?id \<noteq> []"
    using assms(1) by (auto simp: SaveBands_def savePreference_def Let_def split: if_splits sum.splits)
  let ?e = "(case old of None \<Rightarrow> noSavedPreferences | Some e \<Rightarrow> e)\<lparr>savedBands := Some bands\<rparr>"
  have put: "statePut (snd db) (preferencesScope ?id) ''network.preferences'' (Inr (encodePreferences ?e)) tab = (None, tab')"
    using assms(1) old by (auto simp: SaveBands_def savePreference_def saveForModemLocked_def Let_def split: prod.splits option.splits)
  have "modeInRange (savedMode ?e)"
  proof (cases old)
    case (Some e)
    then have "\<exists>v. decodePreferences v = Inr e"
      using old(1) by (auto simp: loadForModemLocked_def stateGet_def split: sum.splits stateError.splits)
    with Some decodePreferences_range show ?thesis by auto
  qed (simp add: noSavedPreferences_def modeInRange_def)
  then have "decodePreferences (encodePreferences ?e) = Inr ?e" using assms(2,3) by (intro decode_encode) simp_all
  with statePut_get [OF put, of decodePreferences] old(2) assms(4) show ?thesis
    by (simp add: loadForModem_def loadForModemLocked_def)
qed

lemma restoreMode_bands: "currentBands (snd (restoreModePreference lower mode m)) = currentBands m"
  "supportedBands (snd (restoreModePreference lower mode m)) = supportedBands m"
  "setBandsError (snd (restoreModePreference lower mode m)) = setBandsError m"
  by (auto simp: restoreModePreference_def modemSetModes_def split: sum.splits option.splits)

text \<open>
  C37: Bands that were set are set again: when a request for bands has succeeded, the modem that later comes back under the same
  equipment identifier with the same supported bands, whatever bands it has then, has the requested bands after one round of the
  restore, also when restoring the saved mode fails.
\<close>
theorem set_bands_are_restored:
  assumes "SetCurrentBands db bands m tab = (None, m', tab')" and "list_all (\<lambda>b. b < 2 ^ 32) bands"
    and "trim_space (netEquipmentIdentifier n) = trim_space (netEquipmentIdentifier m)" and "supportedBands n = supportedBands m"
    and "currentBands n = Inr current" and "setBandsError n = None"
  shows "\<exists>b. currentBands (snd (restoreOnce lower None tab' n)) = Inr b \<and> set b = set bands"
proof -
  obtain supported where s: "supportedBands m = Inr supported" "validateBandValues supported bands = None"
    using assms(1) by (auto simp: SetCurrentBands_def split: sum.splits option.splits)
  have "SaveBands db (netEquipmentIdentifier m) bands tab = (None, tab')"
    using assms(1) s by (auto simp: SetCurrentBands_def modemSetBands_def split: option.splits prod.splits)
  moreover have v: "bands \<noteq> []" "distinct bands" "set bands \<subseteq> set supported" "\<not> (ModemBandAny \<in> set bands \<and> length bands > 1)"
    using s(2) by (auto simp: validateBandValues_def validateBandLoop_iff split: if_splits option.splits)
  ultimately obtain e where e: "loadForModem None (netEquipmentIdentifier n) tab' = Inr (Some e)" "savedBands e = Some bands"
    using SaveBands_load assms(2,3) by blast
  have band: "\<exists>b. currentBands (snd (restoreBandPreference lower bands n')) = Inr b \<and> set b = set bands"
    if n': "currentBands n' = currentBands n" "supportedBands n' = supportedBands n" "setBandsError n' = setBandsError n" for n'
  proof -
    have "restoreBandPreference lower bands n' =
        (if sameBands current bands then ((False, None), n') else ((False, None), n'\<lparr>currentBands := Inr bands\<rparr>))"
      using v assms(4,5,6) s(1) n' by (auto simp: restoreBandPreference_def duplicateBand_iff list_ex_iff modemSetBands_def)
    then show ?thesis using n'(1) assms(5) by (auto simp: sameBands_iff)
  qed
  show ?thesis
  proof (cases "savedMode e")
    case None
    with e band [of n] show ?thesis by (simp add: restoreOnce_def split_beta)
  next
    case (Some mode)
    with e band [OF restoreMode_bands] show ?thesis by (simp add: restoreOnce_def split_beta)
  qed
qed

definition exampleNetworkModem :: "nat list \<Rightarrow> networkModem" where
  "exampleNetworkModem current =
     \<lparr>netEquipmentIdentifier = ''86'', netSIM = Some ''89'', supportedModes = Inr [], currentModes = Inr \<lparr>Allowed = 8, PreferredMode = 0\<rparr>,
      setModesError = None, supportedBands = Inr [31, 33, 256], currentBands = Inr current, setBandsError = None,
      netOperatorCode = Inr [], registerError = None, networkCalls = []\<rparr>"

theorem set_bands_are_restored_witness:
  "\<exists>b. currentBands (snd (restoreOnce (\<lambda>s. s) None (snd (snd (SetCurrentBands (None, None) [33, 31] (exampleNetworkModem [256]) [])))
     (exampleNetworkModem [31]))) = Inr b \<and> set b = set [33, 31]"
proof (rule set_bands_are_restored)
  have "fst (SetCurrentBands (None, None) [33, 31] (exampleNetworkModem [256]) []) = None" by code_simp
  then show "SetCurrentBands (None, None) [33, 31] (exampleNetworkModem [256]) [] =
      (None, fst (snd (SetCurrentBands (None, None) [33, 31] (exampleNetworkModem [256]) [])),
        snd (snd (SetCurrentBands (None, None) [33, 31] (exampleNetworkModem [256]) [])))"
    by (simp add: prod_eq_iff)
qed (simp_all add: exampleNetworkModem_def)

text \<open>The operator that was chosen is registered again, unless the modem is already there.\<close>

theorem registration_is_restored:
  assumes "registerNetwork db operator m tab = (None, m', tab')" and "registrationScope n = registrationScope m" and "registrationScope m \<noteq> []"
  shows "restoreRegistration None tab' n =
    (if (case netOperatorCode n of Inr current \<Rightarrow> trim_space current = trim_space operator | Inl _ \<Rightarrow> False) then (None, n)
     else (map_option (ErrModemCall ''register network'') (registerError n), n\<lparr>networkCalls := networkCalls n @ [trim_space operator]\<rparr>))"
proof -
  let ?p = "\<lparr>registrationMode = ''manual'', registrationOperator = trim_space operator\<rparr>"
  have scope: "registrationScope (snd (modemRegisterNetwork x m)) = registrationScope m" for x
    by (simp add: registrationScope_def modemRegisterNetwork_def)
  have op: "trim_space operator \<noteq> []" using assms(1) by (auto simp: registerNetwork_def Let_def)
  have "statePut db (registrationScope m) ''network.registration'' (Inr (encodeRegistration ?p)) tab = (None, tab')"
    using assms(1,3) op scope by (auto simp: registerNetwork_def saveRegistration_def Let_def prod_eq_iff split: option.splits prod.splits)
  from statePut_get [OF this, of decodeRegistration]
  have "stateGet None (registrationScope n) ''network.registration'' decodeRegistration tab' = Inr ?p"
    unfolding assms(2) by (simp add: decodeRegistration_def encodeRegistration_def decodeText_def)
  then show ?thesis
    using op assms(2,3) by (simp add: restoreRegistration_def Let_def modemRegisterNetwork_def)
qed

end
