(* ===== verification/Ussd.thy ===== *)
theory Ussd
  imports Dbus
begin

text \<open>
  USSD (\<open>internal/pkg/ussd\<close>, \<open>internal/pkg/modem/3gpp_ussd.go\<close>): a session of the modem, which is started by a code and
  continued by replies, and the choice between the modem and the Wi-Fi Calling route. The modem and the route are the answers
  they give; every call that reaches one of them is logged, whatever its answer.
\<close>

section \<open>The session of the modem\<close>

datatype ussdCall = UssdCancel | UssdInitiate string | UssdRespond string | UssdRoute string string

record ussdModem =
  ussdStateAnswer :: "busError + dbusValue"
  ussdCancelError :: "busError option"
  ussdInitiateAnswer :: "busError + string"
  ussdRespondAnswer :: "busError + string"

definition UssdStateUnknown :: nat where "UssdStateUnknown = 0"
definition UssdStateIdle :: nat where "UssdStateIdle = 1"
definition UssdStateUserResponse :: nat where "UssdStateUserResponse = 3"

datatype ussdError =
    ErrInvalidAction | ErrSessionNotReady | ErrUnknownSessionStatus | ErrUssdCall string busError | ErrUssdRoute string

definition ussdState :: "ussdModem \<Rightarrow> busError + nat" where
  "ussdState m = map_sum id (uintFromVariant 32) (ussdStateAnswer m)"

definition executeInitialize :: "ussdModem \<Rightarrow> string \<Rightarrow> ussdCall list \<Rightarrow> (ussdError + string) \<times> ussdCall list" where
  "executeInitialize m code log =
     (case ussdState m of
        Inl e \<Rightarrow> (Inl (ErrUssdCall ''read ussd state'' e), log)
      | Inr state \<Rightarrow>
          let (err, log) = (if state \<noteq> UssdStateIdle then (ussdCancelError m, log @ [UssdCancel]) else (None, log)) in
          case err of
            Some e \<Rightarrow> (Inl (ErrUssdCall ''cancel ussd session'' e), log)
          | None \<Rightarrow> (map_sum (ErrUssdCall ''initiate ussd'') id (ussdInitiateAnswer m), log @ [UssdInitiate code]))"

definition executeReply :: "ussdModem \<Rightarrow> string \<Rightarrow> ussdCall list \<Rightarrow> (ussdError + string) \<times> ussdCall list" where
  "executeReply m code log =
     (case ussdState m of
        Inl e \<Rightarrow> (Inl (ErrUssdCall ''read ussd state'' e), log)
      | Inr state \<Rightarrow>
          if state = UssdStateUnknown then (Inl ErrUnknownSessionStatus, log)
          else if state \<noteq> UssdStateUserResponse then (Inl ErrSessionNotReady, log)
          else (map_sum (ErrUssdCall ''respond to ussd'') id (ussdRespondAnswer m), log @ [UssdRespond code]))"

definition sessionExecute :: "ussdModem \<Rightarrow> string \<Rightarrow> string \<Rightarrow> ussdCall list \<Rightarrow> (ussdError + string) \<times> ussdCall list" where
  "sessionExecute m action code log =
     (if action = ''initialize'' then executeInitialize m code log
      else if action = ''reply'' then executeReply m code log
      else (Inl ErrInvalidAction, log))"

section \<open>The route\<close>

record ussdRouteStatus =
  ussdPreferred :: bool
  ussdConnected :: bool

text \<open>The status comes with an error, if any, and whether that is \<open>ErrRouteUnavailable\<close>.\<close>

record ussdRoute =
  ussdStatusAnswer :: "ussdRouteStatus \<times> (string \<times> bool) option"
  ussdRouteAnswer :: "string + string"

definition ussdRouteStatusOf :: "ussdRoute option \<Rightarrow> ussdError + ussdRouteStatus" where
  "ussdRouteStatusOf route =
     (case route of
        None \<Rightarrow> Inr \<lparr>ussdPreferred = False, ussdConnected = False\<rparr>
      | Some r \<Rightarrow>
          (case ussdStatusAnswer r of
             (status, Some (e, unavailable)) \<Rightarrow> if \<not> unavailable then Inl (ErrUssdRoute e) else Inr status
           | (status, None) \<Rightarrow> Inr status))"

definition routeExecute :: "ussdRoute \<Rightarrow> string \<Rightarrow> string \<Rightarrow> ussdCall list \<Rightarrow> (ussdError + string) \<times> ussdCall list" where
  "routeExecute r action code log = (map_sum ErrUssdRoute id (ussdRouteAnswer r), log @ [UssdRoute action code])"

text \<open>A preferred and connected status only comes from a route; without one the answer of the code is never reached.\<close>

definition ussdExecute :: "ussdRoute option \<Rightarrow> ussdModem \<Rightarrow> string \<Rightarrow> string \<Rightarrow> (ussdError + string) \<times> ussdCall list" where
  "ussdExecute route m action code =
     (case ussdRouteStatusOf route of
        Inl e \<Rightarrow> (Inl e, [])
      | Inr status \<Rightarrow>
          (case (route, ussdPreferred status \<and> ussdConnected status) of
             (Some r, True) \<Rightarrow> routeExecute r action code []
           | _ \<Rightarrow>
               (case sessionExecute m action code [] of
                  (Inr reply, log) \<Rightarrow> (Inr reply, log)
                | (Inl err, log) \<Rightarrow>
                    (case (ussdConnected status, route) of
                       (True, Some r) \<Rightarrow>
                         (case routeExecute r action code log of
                            (Inr reply, log) \<Rightarrow> (Inr reply, log)
                          | (Inl _, log) \<Rightarrow> (Inl err, log))
                     | _ \<Rightarrow> (Inl err, log)))))"

section \<open>What reaches the network\<close>

text \<open>
  A reply goes to the modem only while the network waits for one, a code is started on the modem only after the session before it
  has been ended, and nothing but the requested action with the requested code goes out, over the modem and then at most once over the
  route; in particular an unknown action reaches the modem never, and a route whose status cannot be read stops everything.
\<close>
theorem ussd_calls:
  "snd (ussdExecute route m action code) \<in>
     {calls @ fallback | calls fallback.
        (fallback = [] \<or> fallback = [UssdRoute action code] \<and> (\<exists>status. ussdRouteStatusOf route = Inr status \<and> ussdConnected status)) \<and>
        (calls = [] \<or> calls = [UssdCancel] \<and> ussdState m \<noteq> Inr UssdStateIdle \<and> action = ''initialize'' \<or>
         calls = [UssdInitiate code] \<and> ussdState m = Inr UssdStateIdle \<and> action = ''initialize'' \<or>
         calls = [UssdCancel, UssdInitiate code] \<and> ussdState m \<noteq> Inr UssdStateIdle \<and> ussdCancelError m = None \<and> action = ''initialize'' \<or>
         calls = [UssdRespond code] \<and> ussdState m = Inr UssdStateUserResponse \<and> action = ''reply'')}"
proof -
  let ?calls = "\<lambda>calls. calls = [] \<or> calls = [UssdCancel] \<and> ussdState m \<noteq> Inr UssdStateIdle \<and> action = ''initialize'' \<or>
     calls = [UssdInitiate code] \<and> ussdState m = Inr UssdStateIdle \<and> action = ''initialize'' \<or>
     calls = [UssdCancel, UssdInitiate code] \<and> ussdState m \<noteq> Inr UssdStateIdle \<and> ussdCancelError m = None \<and> action = ''initialize'' \<or>
     calls = [UssdRespond code] \<and> ussdState m = Inr UssdStateUserResponse \<and> action = ''reply''"
  have s: "?calls (snd (sessionExecute m action code []))"
    by (auto simp: sessionExecute_def executeInitialize_def executeReply_def Let_def split: sum.split option.split)
  have "\<exists>calls fallback. snd (ussdExecute route m action code) = calls @ fallback \<and> ?calls calls \<and>
      (fallback = [] \<or> fallback = [UssdRoute action code] \<and> (\<exists>status. ussdRouteStatusOf route = Inr status \<and> ussdConnected status))"
  proof (cases "ussdRouteStatusOf route")
    case (Inr status)
    show ?thesis
    proof (cases route)
      case None
      obtain x log where x: "sessionExecute m action code [] = (x, log)" by force
      have "snd (ussdExecute route m action code) = log"
        using Inr None x by (cases x) (auto simp: ussdExecute_def split: bool.split)
      with s x show ?thesis
        by (intro exI [of _ log] exI [of _ "[]"]) simp
    next
      case (Some r)
      obtain x log where x: "sessionExecute m action code [] = (x, log)" by force
      show ?thesis
      proof (cases "ussdPreferred status \<and> ussdConnected status")
        case True
        with Inr Some show ?thesis
          by (intro exI [of _ "[]"] exI [of _ "[UssdRoute action code]"]) (simp add: ussdExecute_def routeExecute_def)
      next
        case False
        then have "snd (ussdExecute route m action code) = log @ (if isl x \<and> ussdConnected status then [UssdRoute action code] else [])"
          using Inr Some x by (cases x) (auto simp: ussdExecute_def routeExecute_def split: sum.split)
        with s x Inr show ?thesis
          by (intro exI [of _ log] exI [of _ "if isl x \<and> ussdConnected status then [UssdRoute action code] else []"]) auto
      qed
    qed
  qed (auto simp: ussdExecute_def)
  then show ?thesis by blast
qed

text \<open>
  The code may run twice: when starting it on the modem reports an error although the network has it, for instance because its answer
  came too late, it is started again over the route.
\<close>
theorem ussd_runs_twice:
  assumes "ussdState m = Inr UssdStateIdle" and "ussdInitiateAnswer m = Inl e" and "ussdStatusAnswer r = (status, None)"
    and "ussdConnected status" and "\<not> ussdPreferred status"
  shows "snd (ussdExecute (Some r) m ''initialize'' code) = [UssdInitiate code, UssdRoute ''initialize'' code]"
  using assms
  by (simp add: ussdExecute_def ussdRouteStatusOf_def sessionExecute_def executeInitialize_def routeExecute_def split: sum.split)

end
