(* ===== verification/Settings.thy ===== *)
theory Settings
  imports AppState "HOL-Library.Monad_Syntax"
begin

text \<open>
  The settings and their store (\<open>internal/pkg/settings\<close>): defaults, what is kept in memory, and what is kept in the table of
  application state. A Go map is the list of its entries, each key once; a nil map or slice is \<open>None\<close> where the code tells it
  from an empty one. An \<open>int\<close> is an integer; reading one from JSON checks its range.
\<close>

section \<open>Settings\<close>

record loginSettings =
  authProviders :: "string list option"
  otpRequired :: bool

record channelSettings =
  channelOn :: "bool option"
  channelEndpoint :: string
  botToken :: string
  channelRecipients :: "string list"
  channelHeaders :: "(string \<times> string) list"
  smtpHost :: string
  smtpPort :: int
  smtpUsername :: string
  smtpPassword :: string
  smtpFrom :: string
  tlsPolicy :: string
  smtpSSL :: bool
  channelPriority :: int

record modemSettings =
  modemAlias :: string
  modemMSS :: int

record proxySettings =
  listenAddress :: string
  httpPort :: int
  socks5Port :: int
  proxySecret :: string

record settings =
  settingsAuth :: loginSettings
  settingsChannels :: "(string \<times> channelSettings) list option"
  settingsModems :: "(string \<times> modemSettings) list option"
  settingsProxy :: "proxySettings option"

definition emptyAuth :: loginSettings where "emptyAuth = \<lparr>authProviders = None, otpRequired = False\<rparr>"

definition emptyChannel :: channelSettings where
  "emptyChannel =
     \<lparr>channelOn = None, channelEndpoint = [], botToken = [], channelRecipients = [], channelHeaders = [], smtpHost = [],
      smtpPort = 0, smtpUsername = [], smtpPassword = [], smtpFrom = [], tlsPolicy = [], smtpSSL = False, channelPriority = 0\<rparr>"

definition emptyModem :: modemSettings where "emptyModem = \<lparr>modemAlias = [], modemMSS = 0\<rparr>"

definition emptyProxy :: proxySettings where "emptyProxy = \<lparr>listenAddress = [], httpPort = 0, socks5Port = 0, proxySecret = []\<rparr>"

definition emptySettings :: settings where
  "emptySettings = \<lparr>settingsAuth = emptyAuth, settingsChannels = None, settingsModems = None, settingsProxy = None\<rparr>"

definition DefaultModem :: modemSettings where "DefaultModem = emptyModem\<lparr>modemMSS := 240\<rparr>"

definition DefaultProxy :: proxySettings where
  "DefaultProxy = \<lparr>listenAddress = ''127.0.0.1'', httpPort = 8080, socks5Port = 1080, proxySecret = []\<rparr>"

definition enableChannel :: "channelSettings \<Rightarrow> channelSettings" where
  "enableChannel c = (if channelOn c = None then c\<lparr>channelOn := Some True\<rparr> else c)"

definition ApplyDefaults :: "settings \<Rightarrow> settings" where
  "ApplyDefaults c =
     c\<lparr>settingsAuth := settingsAuth c\<lparr>authProviders := Some (case authProviders (settingsAuth c) of None \<Rightarrow> [] | Some l \<Rightarrow> l)\<rparr>,
       settingsChannels := Some (case settingsChannels c of None \<Rightarrow> [] | Some l \<Rightarrow> map (map_prod id enableChannel) l),
       settingsModems := Some (case settingsModems c of None \<Rightarrow> [] | Some l \<Rightarrow> l)\<rparr>"

definition DefaultSettings :: settings where "DefaultSettings = ApplyDefaults emptySettings"

text \<open>A copy of a nil map of channels is an empty one; otherwise copying is invisible here.\<close>

definition Clone :: "settings \<Rightarrow> settings" where
  "Clone c = c\<lparr>settingsChannels := Some (case settingsChannels c of None \<Rightarrow> [] | Some l \<Rightarrow> l)\<rparr>"

definition IsEnabled :: "channelSettings \<Rightarrow> bool" where
  "IsEnabled c \<longleftrightarrow> channelOn c = None \<or> channelOn c = Some True"

definition settingsFindModem :: "settings \<Rightarrow> string \<Rightarrow> modemSettings" where
  "settingsFindModem c i =
     (case map_of (case settingsModems c of None \<Rightarrow> [] | Some l \<Rightarrow> l) i of Some m \<Rightarrow> m | None \<Rightarrow> DefaultModem)"

definition ProxySettings :: "settings \<Rightarrow> proxySettings" where
  "ProxySettings c =
     (case settingsProxy c of
        None \<Rightarrow> DefaultProxy
      | Some p \<Rightarrow>
          p\<lparr>listenAddress := if listenAddress p = [] then ''127.0.0.1'' else listenAddress p,
            httpPort := if httpPort p = 0 then 8080 else httpPort p,
            socks5Port := if socks5Port p = 0 then 1080 else socks5Port p\<rparr>)"

section \<open>JSON\<close>

text \<open>
  A structure is written with the fields that are not left out (\<open>omitempty\<close>) and read field by field; a field that is missing or
  null keeps its zero. An object the code has written has no name twice.
\<close>

fun presentFields :: "(string \<times> json option) list \<Rightarrow> (string \<times> json) list" where
  "presentFields [] = []"
| "presentFields ((n, v) # l) = (case v of None \<Rightarrow> presentFields l | Some v \<Rightarrow> (n, v) # presentFields l)"

definition jsonFields :: "(string \<times> json option) list \<Rightarrow> json" where
  "jsonFields l = JObject (presentFields l)"

definition omitText :: "string \<Rightarrow> json option" where "omitText s = (if s = [] then None else Some (JString s))"
definition omitInt :: "int \<Rightarrow> json option" where "omitInt n = (if n = 0 then None else Some (JNumber n))"

definition omitTexts :: "string list \<Rightarrow> json option" where
  "omitTexts l = (if l = [] then None else Some (JArray (map JString l)))"

definition omitMap :: "(string \<times> string) list \<Rightarrow> json option" where
  "omitMap l = (if l = [] then None else Some (JObject (map (map_prod id JString) l)))"

definition omitBool :: "bool \<Rightarrow> json option" where "omitBool b = (if b then Some (JBool True) else None)"

definition readText :: "json option \<Rightarrow> string option" where
  "readText v = (case v of None \<Rightarrow> Some [] | Some JNull \<Rightarrow> Some [] | Some (JString s) \<Rightarrow> Some s | _ \<Rightarrow> None)"

definition goInt :: "int \<Rightarrow> bool" where "goInt n \<longleftrightarrow> - (2 ^ 63) \<le> n \<and> n < 2 ^ 63"

definition readInt :: "json option \<Rightarrow> int option" where
  "readInt v =
     (case v of None \<Rightarrow> Some 0 | Some JNull \<Rightarrow> Some 0 | Some (JNumber n) \<Rightarrow> if goInt n then Some n else None | _ \<Rightarrow> None)"

definition readBool :: "json option \<Rightarrow> bool option" where
  "readBool v = (case v of None \<Rightarrow> Some False | Some JNull \<Rightarrow> Some False | Some (JBool b) \<Rightarrow> Some b | _ \<Rightarrow> None)"

definition readFlag :: "json option \<Rightarrow> bool option option" where
  "readFlag v = (case v of None \<Rightarrow> Some None | Some JNull \<Rightarrow> Some None | Some (JBool b) \<Rightarrow> Some (Some b) | _ \<Rightarrow> None)"

text \<open>\<open>readAll\<close> reads the elements of a list or the entries of a map.\<close>

fun readAll :: "('a \<Rightarrow> 'b option) \<Rightarrow> 'a list \<Rightarrow> 'b list option" where
  "readAll f [] = Some []"
| "readAll f (x # xs) = do { y \<leftarrow> f x; ys \<leftarrow> readAll f xs; Some (y # ys) }"

definition readEntry :: "(json \<Rightarrow> 'b option) \<Rightarrow> string \<times> json \<Rightarrow> (string \<times> 'b) option" where
  "readEntry f e = map_option (Pair (fst e)) (f (snd e))"

definition readTexts :: "json option \<Rightarrow> string list option option" where
  "readTexts v =
     (case v of
        None \<Rightarrow> Some None
      | Some JNull \<Rightarrow> Some None
      | Some (JArray vs) \<Rightarrow> map_option Some (readAll (\<lambda>v. readText (Some v)) vs)
      | _ \<Rightarrow> None)"

definition readMap :: "(json \<Rightarrow> 'b option) \<Rightarrow> json option \<Rightarrow> (string \<times> 'b) list option option" where
  "readMap f v =
     (case v of
        None \<Rightarrow> Some None
      | Some JNull \<Rightarrow> Some None
      | Some (JObject es) \<Rightarrow> map_option Some (readAll (readEntry f) es)
      | _ \<Rightarrow> None)"

definition orEmpty :: "'a list option \<Rightarrow> 'a list" where "orEmpty l = (case l of None \<Rightarrow> [] | Some l \<Rightarrow> l)"

definition encodeAuth :: "loginSettings \<Rightarrow> json" where
  "encodeAuth a =
     jsonFields
       [(''authProviders'', Some (case authProviders a of None \<Rightarrow> JNull | Some l \<Rightarrow> JArray (map JString l))),
        (''otpRequired'', Some (JBool (otpRequired a)))]"

definition decodeAuth :: "json \<Rightarrow> loginSettings option" where
  "decodeAuth v =
     (case v of
        JNull \<Rightarrow> Some emptyAuth
      | JObject es \<Rightarrow>
          do { p \<leftarrow> readTexts (map_of es ''authProviders''); r \<leftarrow> readBool (map_of es ''otpRequired'');
               Some \<lparr>authProviders = p, otpRequired = r\<rparr> }
      | _ \<Rightarrow> None)"

definition encodeChannel :: "channelSettings \<Rightarrow> json" where
  "encodeChannel c =
     jsonFields
       [(''enabled'', map_option JBool (channelOn c)), (''endpoint'', omitText (channelEndpoint c)),
        (''botToken'', omitText (botToken c)),
        (''recipients'', omitTexts (channelRecipients c)),
        (''headers'', omitMap (channelHeaders c)),
        (''smtpHost'', omitText (smtpHost c)), (''smtpPort'', omitInt (smtpPort c)),
        (''smtpUsername'', omitText (smtpUsername c)), (''smtpPassword'', omitText (smtpPassword c)),
        (''from'', omitText (smtpFrom c)), (''tlsPolicy'', omitText (tlsPolicy c)),
        (''ssl'', omitBool (smtpSSL c)), (''priority'', omitInt (channelPriority c))]"

definition decodeChannel :: "json \<Rightarrow> channelSettings option" where
  "decodeChannel v =
     (case v of
        JNull \<Rightarrow> Some emptyChannel
      | JObject es \<Rightarrow>
          do { e \<leftarrow> readFlag (map_of es ''enabled''); u \<leftarrow> readText (map_of es ''endpoint''); t \<leftarrow> readText (map_of es ''botToken'');
               r \<leftarrow> readTexts (map_of es ''recipients''); h \<leftarrow> readMap (\<lambda>v. readText (Some v)) (map_of es ''headers'');
               sh \<leftarrow> readText (map_of es ''smtpHost''); sp \<leftarrow> readInt (map_of es ''smtpPort'');
               su \<leftarrow> readText (map_of es ''smtpUsername''); sw \<leftarrow> readText (map_of es ''smtpPassword'');
               f \<leftarrow> readText (map_of es ''from''); p \<leftarrow> readText (map_of es ''tlsPolicy''); l \<leftarrow> readBool (map_of es ''ssl'');
               n \<leftarrow> readInt (map_of es ''priority'');
               Some \<lparr>channelOn = e, channelEndpoint = u, botToken = t, channelRecipients = orEmpty r, channelHeaders = orEmpty h,
                     smtpHost = sh, smtpPort = sp, smtpUsername = su, smtpPassword = sw, smtpFrom = f, tlsPolicy = p, smtpSSL = l,
                     channelPriority = n\<rparr> }
      | _ \<Rightarrow> None)"

definition encodeChannels :: "(string \<times> channelSettings) list option \<Rightarrow> json" where
  "encodeChannels cs = (case cs of None \<Rightarrow> JNull | Some l \<Rightarrow> JObject (map (map_prod id encodeChannel) l))"

definition encodeModem :: "modemSettings \<Rightarrow> json" where
  "encodeModem m = jsonFields [(''alias'', Some (JString (modemAlias m))), (''mss'', Some (JNumber (modemMSS m)))]"

definition decodeModem :: "json \<Rightarrow> modemSettings option" where
  "decodeModem v =
     (case v of
        JNull \<Rightarrow> Some emptyModem
      | JObject es \<Rightarrow>
          do { a \<leftarrow> readText (map_of es ''alias''); n \<leftarrow> readInt (map_of es ''mss''); Some \<lparr>modemAlias = a, modemMSS = n\<rparr> }
      | _ \<Rightarrow> None)"

definition encodeProxy :: "proxySettings \<Rightarrow> json" where
  "encodeProxy p =
     jsonFields
       [(''listenAddress'', Some (JString (listenAddress p))), (''httpPort'', Some (JNumber (httpPort p))),
        (''socks5Port'', Some (JNumber (socks5Port p))), (''password'', Some (JString (proxySecret p)))]"

definition decodeProxy :: "json \<Rightarrow> proxySettings option" where
  "decodeProxy v =
     (case v of
        JNull \<Rightarrow> Some emptyProxy
      | JObject es \<Rightarrow>
          do { a \<leftarrow> readText (map_of es ''listenAddress''); h \<leftarrow> readInt (map_of es ''httpPort'');
               s \<leftarrow> readInt (map_of es ''socks5Port''); w \<leftarrow> readText (map_of es ''password'');
               Some \<lparr>listenAddress = a, httpPort = h, socks5Port = s, proxySecret = w\<rparr> }
      | _ \<Rightarrow> None)"

definition decoded :: "(json \<Rightarrow> 'a option) \<Rightarrow> json \<Rightarrow> string + 'a" where
  "decoded f v = (case f v of None \<Rightarrow> Inl ''json'' | Some x \<Rightarrow> Inr x)"

section \<open>The store\<close>

record settingsStore =
  storeDB :: bool
  currentSettings :: settings
  memoryStore :: bool

datatype settingsError = ErrStorageRequired | ErrModemIDRequired | ErrSettings string | ErrSettingsState stateError | ErrDecodeModem string

text \<open>\<open>getSetting\<close> is \<open>get\<close>: \<open>None\<close> when nothing is stored.\<close>

definition getSetting :: "string option \<Rightarrow> string \<Rightarrow> string \<Rightarrow> (json \<Rightarrow> 'a option) \<Rightarrow> appTable \<Rightarrow> settingsError + 'a option" where
  "getSetting db scope key f tab =
     (case stateGet db scope key (decoded f) tab of
        Inl ErrNotFound \<Rightarrow> Inr None
      | Inl e \<Rightarrow> Inl (ErrSettingsState e)
      | Inr x \<Rightarrow> Inr (Some x))"

definition trimModemPrefix :: "string \<Rightarrow> string" where
  "trimModemPrefix scope = (if take 6 scope = ''modem:'' then drop 6 scope else scope)"

fun loadModemsLoop :: "(string \<times> json) list \<Rightarrow> settingsError + (string \<times> modemSettings) list" where
  "loadModemsLoop [] = Inr []"
| "loadModemsLoop ((scope, value) # raw) =
     (let i = trimModemPrefix scope in
      if trim_space i = [] then loadModemsLoop raw
      else case decodeModem value of
          None \<Rightarrow> Inl (ErrDecodeModem scope)
        | Some m \<Rightarrow> (case loadModemsLoop raw of Inl e \<Rightarrow> Inl e | Inr modems \<Rightarrow> Inr ((i, m) # modems)))"

definition loadModems :: "(string \<Rightarrow> string \<Rightarrow> bool) \<Rightarrow> string option \<Rightarrow> appTable \<Rightarrow> settingsError + (string \<times> modemSettings) list" where
  "loadModems like db tab =
     (case stateListRaw like db ''modem:'' ''modem.settings'' tab of
        Inl e \<Rightarrow> Inl (ErrSettingsState e)
      | Inr raw \<Rightarrow> loadModemsLoop raw)"

text \<open>The answers of the database are those of the four reads, in their order.\<close>

definition loadSettings :: "(string \<Rightarrow> string \<Rightarrow> bool) \<Rightarrow> (nat \<Rightarrow> string option) \<Rightarrow> appTable \<Rightarrow> settingsError + settings" where
  "loadSettings like db tab =
     (case getSetting (db 0) ''global'' ''auth.settings'' decodeAuth tab of
        Inl e \<Rightarrow> Inl e
      | Inr auth \<Rightarrow>
     (case getSetting (db 1) ''global'' ''notification.channels'' (\<lambda>v. readMap decodeChannel (Some v)) tab of
        Inl e \<Rightarrow> Inl e
      | Inr channels \<Rightarrow>
     (case getSetting (db 2) ''global'' ''proxy.settings'' decodeProxy tab of
        Inl e \<Rightarrow> Inl e
      | Inr proxy \<Rightarrow>
     (case loadModems like (db 3) tab of
        Inl e \<Rightarrow> Inl e
      | Inr modems \<Rightarrow>
          let d = Clone DefaultSettings in
          Inr (ApplyDefaults
            \<lparr>settingsAuth = (case auth of None \<Rightarrow> settingsAuth d | Some a \<Rightarrow> a),
             settingsChannels = (case channels of None \<Rightarrow> settingsChannels d | Some cs \<Rightarrow> cs),
             settingsModems = Some modems,
             settingsProxy = (case proxy of None \<Rightarrow> settingsProxy d | Some p \<Rightarrow> Some p)\<rparr>)))))"

definition NewSettingsStore :: "(string \<Rightarrow> string \<Rightarrow> bool) \<Rightarrow> (nat \<Rightarrow> string option) \<Rightarrow> appTable option \<Rightarrow> settingsError + settingsStore" where
  "NewSettingsStore like db tab =
     (case tab of
        None \<Rightarrow> Inl ErrStorageRequired
      | Some tab \<Rightarrow>
          (case loadSettings like db tab of
             Inl e \<Rightarrow> Inl e
           | Inr c \<Rightarrow> Inr \<lparr>storeDB = True, currentSettings = c, memoryStore = False\<rparr>))"

definition NewMemoryStore :: "settings \<Rightarrow> settingsStore" where
  "NewMemoryStore c = \<lparr>storeDB = False, currentSettings = ApplyDefaults (Clone c), memoryStore = True\<rparr>"

definition Snapshot :: "settingsStore \<Rightarrow> settings" where "Snapshot s = Clone (currentSettings s)"

definition storeOTPRequired :: "settingsStore \<Rightarrow> bool" where "storeOTPRequired s = otpRequired (settingsAuth (currentSettings s))"

definition storeFindModem :: "settingsStore \<Rightarrow> string \<Rightarrow> modemSettings" where
  "storeFindModem s i = settingsFindModem (currentSettings s) i"

text \<open>The three statements of \<open>save\<close>, in their order: the first error ends it.\<close>

definition saveSettings :: "(nat \<Rightarrow> string option) \<Rightarrow> settingsStore \<Rightarrow> settings \<Rightarrow> appTable \<Rightarrow> settingsError option \<times> appTable" where
  "saveSettings db s c tab =
     (if memoryStore s then (None, tab)
      else if \<not> storeDB s then (Some ErrStorageRequired, tab)
      else case statePut (db 0) ''global'' ''auth.settings'' (Inr (encodeAuth (settingsAuth c))) tab of
          (Some e, tab) \<Rightarrow> (Some (ErrSettingsState e), tab)
        | (None, tab) \<Rightarrow>
            (case statePut (db 1) ''global'' ''notification.channels'' (Inr (encodeChannels (settingsChannels c))) tab of
               (Some e, tab) \<Rightarrow> (Some (ErrSettingsState e), tab)
             | (None, tab) \<Rightarrow>
                 (case statePut (db 2) ''global'' ''proxy.settings'' (Inr (encodeProxy (ProxySettings c))) tab of
                    (e, tab) \<Rightarrow> (map_option ErrSettingsState e, tab))))"

definition putModem :: "string option \<Rightarrow> settingsStore \<Rightarrow> string \<Rightarrow> modemSettings \<Rightarrow> appTable \<Rightarrow> settingsError option \<times> appTable" where
  "putModem db s i m tab =
     (if memoryStore s then (None, tab)
      else if \<not> storeDB s then (Some ErrStorageRequired, tab)
      else case statePut db (''modem:'' @ i) ''modem.settings'' (Inr (encodeModem m)) tab of (e, tab) \<Rightarrow> (map_option ErrSettingsState e, tab))"

definition updateSettings :: "(nat \<Rightarrow> string option) \<Rightarrow> (settings \<Rightarrow> string + settings) \<Rightarrow> settingsStore \<Rightarrow> appTable \<Rightarrow>
   (settingsError + settings) \<times> settingsStore \<times> appTable" where
  "updateSettings db update s tab =
     (case update (Clone (currentSettings s)) of
        Inl e \<Rightarrow> (Inl (ErrSettings e), s, tab)
      | Inr next \<Rightarrow>
          let next = ApplyDefaults next in
          (case saveSettings db s next tab of
             (Some e, tab) \<Rightarrow> (Inl e, s, tab)
           | (None, tab) \<Rightarrow> (Inr (Clone (Clone next)), s\<lparr>currentSettings := Clone next\<rparr>, tab)))"

definition UpdateModem :: "string option \<Rightarrow> string \<Rightarrow> modemSettings \<Rightarrow> settingsStore \<Rightarrow> appTable \<Rightarrow> settingsError option \<times> settingsStore \<times> appTable" where
  "UpdateModem db i m s tab =
     (let i = trim_space i in
      if i = [] then (Some ErrModemIDRequired, s, tab)
      else case putModem db s i m tab of
          (Some e, tab) \<Rightarrow> (Some e, s, tab)
        | (None, tab) \<Rightarrow>
            (None, s\<lparr>currentSettings := (currentSettings s)\<lparr>settingsModems :=
               Some (AList.update i m (orEmpty (settingsModems (currentSettings s))))\<rparr>\<rparr>, tab))"

section \<open>What is written is read again\<close>

lemma map_of_presentFields:
  "distinct (map fst l) \<Longrightarrow> map_of (presentFields l) k = (case map_of l k of Some v \<Rightarrow> v | None \<Rightarrow> None)"
proof (induction l)
  case (Cons e l)
  then have "map_of l (fst e) = None" by (simp add: map_of_eq_None_iff)
  with Cons show ?case by (cases e; cases "snd e") auto
qed simp

lemma readAll_map: "(\<And>x. x \<in> set xs \<Longrightarrow> f (g x) = Some (h x)) \<Longrightarrow> readAll f (map g xs) = Some (map h xs)"
  by (induction xs) simp_all

lemma readText_omit [simp]: "readText (omitText s) = Some s" "readText (Some (JString s)) = Some s"
  by (simp_all add: readText_def omitText_def)

lemma readInt_omit: "goInt n \<Longrightarrow> readInt (omitInt n) = Some n" "goInt n \<Longrightarrow> readInt (Some (JNumber n)) = Some n"
  by (simp_all add: readInt_def omitInt_def)

lemma readTexts_write: "readTexts (Some (JArray (map JString l))) = Some (Some l)"
  using readAll_map [of l "\<lambda>v. readText (Some v)" JString "\<lambda>s. s"] by (simp add: readTexts_def)

lemma readMap_write:
  assumes "\<And>x. x \<in> snd ` set l \<Longrightarrow> f (g x) = Some x"
  shows "readMap f (Some (JObject (map (map_prod id g) l))) = Some (Some l)"
proof -
  have "readAll (readEntry f) (map (map_prod id g) l) = Some (map id l)"
    by (rule readAll_map) (auto simp: readEntry_def assms)
  then show ?thesis by (simp add: readMap_def)
qed

lemma decode_encode_auth: "decodeAuth (encodeAuth a) = Some a"
  by (cases a)
    (auto simp: decodeAuth_def encodeAuth_def jsonFields_def map_of_presentFields readBool_def readTexts_write readTexts_def [of "Some JNull"]
      simp del: presentFields.simps
      split: option.splits)

lemma decode_encode_modem: "goInt (modemMSS m) \<Longrightarrow> decodeModem (encodeModem m) = Some m"
  by (simp add: decodeModem_def encodeModem_def jsonFields_def map_of_presentFields readInt_omit del: presentFields.simps)

definition goodProxy :: "proxySettings \<Rightarrow> bool" where "goodProxy p \<longleftrightarrow> goInt (httpPort p) \<and> goInt (socks5Port p)"

lemma decode_encode_proxy: "goodProxy p \<Longrightarrow> decodeProxy (encodeProxy p) = Some p"
  by (simp add: goodProxy_def decodeProxy_def encodeProxy_def jsonFields_def map_of_presentFields readInt_omit del: presentFields.simps)

definition goodChannel :: "channelSettings \<Rightarrow> bool" where
  "goodChannel c \<longleftrightarrow> goInt (smtpPort c) \<and> goInt (channelPriority c)"

lemma decode_encode_channel:
  assumes "goodChannel c"
  shows "decodeChannel (encodeChannel c) = Some c"
proof -
  have "readFlag (map_option JBool e) = Some e" for e by (cases e) (simp_all add: readFlag_def)
  moreover have "readTexts (omitTexts l) = Some (if l = [] then None else Some l)" for l
    using readTexts_write by (simp add: omitTexts_def readTexts_def)
  moreover have "readMap (\<lambda>v. readText (Some v)) (omitMap l) = Some (if l = [] then None else Some l)" for l
    using readMap_write [of l "\<lambda>v. readText (Some v)" JString] by (simp add: omitMap_def readMap_def)
  moreover have "readBool (omitBool b) = Some b" for b by (simp add: omitBool_def readBool_def)
  moreover have "orEmpty (if l = [] then None else Some l) = l" for l :: "'a list" by (simp add: orEmpty_def)
  ultimately show ?thesis
    using assms
    by (simp add: goodChannel_def decodeChannel_def encodeChannel_def jsonFields_def map_of_presentFields readInt_omit orEmpty_def
      del: presentFields.simps)
qed

lemma decode_encode_channels:
  assumes "list_all (\<lambda>c. goodChannel (snd c)) l"
  shows "readMap decodeChannel (Some (encodeChannels (Some l))) = Some (Some l)"
  unfolding encodeChannels_def option.case
  by (rule readMap_write) (use assms in \<open>auto simp: list_all_iff decode_encode_channel\<close>)

section \<open>Scopes of modems\<close>

lemma trim_space_prefixed:
  assumes "trim_space i = i" and "i \<noteq> []" and "p \<noteq> []" and "list_all graphic p"
  shows "trim_space (p @ i) = p @ i"
proof -
  have "find (starts_with (rev i)) (map rev space_runes) = None"
    using trim_right_stop [of "trim_left i"] assms(1) by (simp add: trim_space_def)
  then have i: "\<not> starts_with (rev i) (rev e)" if "e \<in> set space_runes" for e using that by (auto simp: find_None_iff)
  have "\<not> starts_with (rev (p @ i)) (rev e)" if e: "e \<in> set space_runes" for e
  proof
    assume "starts_with (rev (p @ i)) (rev e)"
    then obtain t where "rev (p @ i) = rev e @ t" by (auto simp: starts_with_iff)
    then have t: "p @ i = rev t @ e" by (metis rev_append rev_rev_ident)
    consider us where "i = us @ e" | us where "e = us @ i" "p = rev t @ us" "us \<noteq> []"
      using t by (auto simp: append_eq_append_conv2) (metis append_Nil)
    then show False
    proof cases
      case 1
      then show ?thesis using i [OF e] by (auto simp: starts_with_iff)
    next
      case 2
      then have "graphic (hd us)" using assms(4) by (cases us) auto
      with graphic_space_runes [OF e this] 2 show ?thesis by simp
    qed
  qed
  then have "trim_right (p @ i) = p @ i" unfolding trim_right_def by (simp add: trim_front_id find_None_iff)
  moreover have "trim_left (p @ i) = p @ i" using assms(3,4) by (intro trim_left_id) (cases p, auto)
  ultimately show ?thesis by (simp add: trim_space_def)
qed

lemma trim_modem_scope: "trim_space i = i \<Longrightarrow> i \<noteq> [] \<Longrightarrow> trim_space (''modem:'' @ i) = ''modem:'' @ i"
  by (rule trim_space_prefixed) (simp_all add: graphic_def)

definition modemRows :: "appTable \<Rightarrow> bool" where
  "modemRows tab \<longleftrightarrow> list_all (\<lambda>((scope, key), v). key = ''modem.settings'' \<longrightarrow> take 6 scope = ''modem:'') tab"

definition rawModems :: "(string \<Rightarrow> string \<Rightarrow> bool) \<Rightarrow> appTable \<Rightarrow> (string \<times> json) list" where
  "rawModems like tab =
     map (\<lambda>((scope, _), data). (scope, data)) (filter (\<lambda>((scope, k), _). like ''modem:%'' scope \<and> k = ''modem.settings'') tab)"

lemma loadModems_raw: "loadModems like None tab = loadModemsLoop (rawModems like tab)"
proof -
  have "trim_space ''modem:'' = ''modem:''" "trim_space ''modem.settings'' = ''modem.settings''"
    by (rule trim_space_graphic; simp add: graphic_def)+
  then show ?thesis by (simp add: loadModems_def stateListRaw_def rawModems_def)
qed

lemma rawModems_other: "snd k \<noteq> ''modem.settings'' \<Longrightarrow> rawModems like (AList.update k v tab) = rawModems like tab"
  by (induction tab) (auto simp: rawModems_def)

lemma modemRows_update:
  "modemRows tab \<Longrightarrow> snd k = ''modem.settings'' \<longrightarrow> take 6 (fst k) = ''modem:'' \<Longrightarrow> modemRows (AList.update k v tab)"
  by (induction tab) (auto simp: modemRows_def split_beta split: if_splits)

lemma modem_scope: "take 6 s = ''modem:'' \<Longrightarrow> s = ''modem:'' @ trimModemPrefix s"
  unfolding trimModemPrefix_def by (metis append_take_drop_id)

lemma loadModemsLoop_update:
  assumes "modemRows tab" and "loadModemsLoop (rawModems like tab) = Inr ms" and "like ''modem:%'' (''modem:'' @ i)"
    and "trim_space i = i" and "i \<noteq> []" and "decodeModem v = Some m"
  shows "\<exists>ms'. loadModemsLoop (rawModems like (AList.update (''modem:'' @ i, ''modem.settings'') v tab)) = Inr ms' \<and>
    map_of ms' = (map_of ms)(i \<mapsto> m)"
  using assms(1,2)
proof (induction tab arbitrary: ms)
  case Nil
  then show ?case using assms(3-6) by (auto simp: rawModems_def trimModemPrefix_def fun_eq_iff)
next
  case (Cons e tab)
  obtain s k d where e: "e = ((s, k), d)" by (cases e) auto
  have rows: "modemRows tab" using Cons.prems(1) by (simp add: modemRows_def)
  show ?case
  proof (cases "like ''modem:%'' s \<and> k = ''modem.settings''")
    case False
    then have "(s, k) \<noteq> (''modem:'' @ i, ''modem.settings'')" using assms(3) by auto
    moreover have "loadModemsLoop (rawModems like tab) = Inr ms" using Cons.prems(2) False e by (auto simp: rawModems_def)
    ultimately show ?thesis using Cons.IH [OF rows] False e by (auto simp: rawModems_def)
  next
    case raw: True
    then have s: "s = ''modem:'' @ trimModemPrefix s" using Cons.prems(1) e by (intro modem_scope) (simp add: modemRows_def)
    have load: "loadModemsLoop ((s, d) # rawModems like tab) = Inr ms" using Cons.prems(2) raw e by (simp add: rawModems_def)
    show ?thesis
    proof (cases "s = ''modem:'' @ i")
      case True
      then have "trimModemPrefix s = i" using s by simp
      with load obtain m0 ms0 where "loadModemsLoop (rawModems like tab) = Inr ms0" "ms = (i, m0) # ms0"
        using assms(4,5) by (auto split: option.splits sum.splits)
      with True e raw \<open>trimModemPrefix s = i\<close> show ?thesis using assms(4-6) by (auto simp: rawModems_def fun_eq_iff)
    next
      case other: False
      have upd: "rawModems like (AList.update (''modem:'' @ i, ''modem.settings'') v (e # tab)) =
          (s, d) # rawModems like (AList.update (''modem:'' @ i, ''modem.settings'') v tab)"
        using other e raw by (simp add: rawModems_def)
      show ?thesis
      proof (cases "trim_space (trimModemPrefix s) = []")
        case True
        with load have "loadModemsLoop (rawModems like tab) = Inr ms" by simp
        with Cons.IH [OF rows this] True show ?thesis unfolding upd by simp
      next
        case False
        with load obtain m0 ms0 where ms0: "decodeModem d = Some m0" "loadModemsLoop (rawModems like tab) = Inr ms0"
          "ms = (trimModemPrefix s, m0) # ms0" by (auto split: option.splits sum.splits)
        obtain ms' where "loadModemsLoop (rawModems like (AList.update (''modem:'' @ i, ''modem.settings'') v tab)) = Inr ms'"
          "map_of ms' = (map_of ms0)(i \<mapsto> m)" using Cons.IH [OF rows ms0(2)] by blast
        moreover have "trimModemPrefix s \<noteq> i" using s other by metis
        ultimately show ?thesis unfolding upd using ms0 False by (auto simp: fun_upd_twist)
      qed
    qed
  qed
qed


section \<open>The settings survive a restart\<close>

definition goodSettings :: "settings \<Rightarrow> bool" where
  "goodSettings c \<longleftrightarrow>
     list_all (\<lambda>c. goodChannel (snd c)) (orEmpty (settingsChannels c)) \<and> (case settingsProxy c of None \<Rightarrow> True | Some p \<Rightarrow> goodProxy p)"

text \<open>What the program sees of the settings: the modems by their identifier, the proxy with its defaults.\<close>

definition settingsView :: "settings \<Rightarrow>
   loginSettings \<times> (string \<times> channelSettings) list option \<times> proxySettings \<times> (string \<Rightarrow> modemSettings option)" where
  "settingsView c = (settingsAuth c, settingsChannels c, ProxySettings c, map_of (orEmpty (settingsModems c)))"

lemma ProxySettings_idem: "settingsProxy d = Some (ProxySettings c) \<Longrightarrow> ProxySettings d = ProxySettings c"
  by (auto simp: ProxySettings_def DefaultProxy_def split: option.splits)

lemma goodProxy_defaults: "goodSettings c \<Longrightarrow> goodProxy (ProxySettings c)"
  by (auto simp: goodSettings_def goodProxy_def ProxySettings_def DefaultProxy_def goInt_def split: option.splits)

lemma ApplyDefaults_idem [simp]: "ApplyDefaults (ApplyDefaults c) = ApplyDefaults c"
proof -
  have "map_prod (id :: string \<Rightarrow> string) enableChannel \<circ> map_prod id enableChannel = map_prod id enableChannel"
    by (auto simp: fun_eq_iff enableChannel_def)
  then show ?thesis by (auto simp: ApplyDefaults_def split: option.split)
qed

lemma Clone_ApplyDefaults [simp]: "Clone (ApplyDefaults c) = ApplyDefaults c"
  by (auto simp: Clone_def ApplyDefaults_def split: option.split)

lemma goodChannel_enable [simp]: "goodChannel (enableChannel c) = goodChannel c"
  by (simp add: goodChannel_def enableChannel_def)

lemma goodSettings_defaults: "goodSettings c \<Longrightarrow> goodSettings (ApplyDefaults c)"
  by (cases "settingsChannels c") (auto simp: goodSettings_def ApplyDefaults_def orEmpty_def list_all_iff)

lemma key_trims [simp]:
  "trim_space ''global'' = ''global''" "trim_space ''auth.settings'' = ''auth.settings''"
  "trim_space ''notification.channels'' = ''notification.channels''" "trim_space ''proxy.settings'' = ''proxy.settings''"
  "trim_space ''modem.settings'' = ''modem.settings''"
  by (rule trim_space_graphic; simp add: graphic_def)+

lemma getSetting_ok:
  "scope \<noteq> [] \<Longrightarrow> key \<noteq> [] \<Longrightarrow> trim_space scope = scope \<Longrightarrow> trim_space key = key \<Longrightarrow>
   getSetting None scope key f tab =
     (case map_of tab (scope, key) of
        None \<Rightarrow> Inr None
      | Some v \<Rightarrow> (case f v of None \<Rightarrow> Inl (ErrSettingsState (ErrDecode ''json'')) | Some x \<Rightarrow> Inr (Some x)))"
  by (auto simp: getSetting_def stateGet_def stateGetRaw_def decoded_def split: option.splits)

lemma getSetting_answer: "getSetting db scope key f tab = Inr x \<Longrightarrow> getSetting None scope key f tab = Inr x"
  by (auto simp: getSetting_def stateGet_def stateGetRaw_def Let_def split: sum.splits option.splits if_splits stateError.splits)

lemma loadModems_answer: "loadModems like db tab = Inr x \<Longrightarrow> loadModems like None tab = Inr x"
  by (auto simp: loadModems_def stateListRaw_def Let_def split: sum.splits option.splits if_splits)

lemma loadSettings_answer: "loadSettings like db tab = Inr c \<Longrightarrow> loadSettings like (\<lambda>_. None) tab = Inr c"
proof -
  assume l: "loadSettings like db tab = Inr c"
  obtain a where a: "getSetting (db 0) ''global'' ''auth.settings'' decodeAuth tab = Inr a"
    using l by (cases "getSetting (db 0) ''global'' ''auth.settings'' decodeAuth tab") (simp_all add: loadSettings_def)
  obtain cs where cs: "getSetting (db 1) ''global'' ''notification.channels'' (\<lambda>v. readMap decodeChannel (Some v)) tab = Inr cs"
    using l a by (cases "getSetting (db 1) ''global'' ''notification.channels'' (\<lambda>v. readMap decodeChannel (Some v)) tab")
      (simp_all add: loadSettings_def)
  obtain p where p: "getSetting (db 2) ''global'' ''proxy.settings'' decodeProxy tab = Inr p"
    using l a cs by (cases "getSetting (db 2) ''global'' ''proxy.settings'' decodeProxy tab") (simp_all add: loadSettings_def)
  obtain ms where ms: "loadModems like (db 3) tab = Inr ms"
    using l a cs p by (cases "loadModems like (db 3) tab") (simp_all add: loadSettings_def)
  show ?thesis
    using l by (simp add: loadSettings_def a cs cs [unfolded One_nat_def] p ms getSetting_answer [OF a] getSetting_answer [OF cs] getSetting_answer [OF p] loadModems_answer [OF ms])
qed

definition loaded :: "(string \<Rightarrow> string \<Rightarrow> bool) \<Rightarrow> appTable \<Rightarrow> settings \<Rightarrow> bool" where
  "loaded like tab c \<longleftrightarrow> loadSettings like (\<lambda>_. None) tab = Inr c"

lemma loaded_parts:
  assumes "loaded like tab c"
  shows "\<exists>a cs p ms. getSetting None ''global'' ''auth.settings'' decodeAuth tab = Inr a \<and>
    getSetting None ''global'' ''notification.channels'' (\<lambda>v. readMap decodeChannel (Some v)) tab = Inr cs \<and>
    getSetting None ''global'' ''proxy.settings'' decodeProxy tab = Inr p \<and> loadModems like None tab = Inr ms \<and>
    c = ApplyDefaults
        \<lparr>settingsAuth = (case a of None \<Rightarrow> settingsAuth (Clone DefaultSettings) | Some a \<Rightarrow> a),
         settingsChannels = (case cs of None \<Rightarrow> settingsChannels (Clone DefaultSettings) | Some cs \<Rightarrow> cs),
         settingsModems = Some ms,
         settingsProxy = (case p of None \<Rightarrow> settingsProxy (Clone DefaultSettings) | Some p \<Rightarrow> Some p)\<rparr>"
proof -
  note l = assms [unfolded loaded_def loadSettings_def]
  obtain a where a: "getSetting None ''global'' ''auth.settings'' decodeAuth tab = Inr a"
    using l by (cases "getSetting None ''global'' ''auth.settings'' decodeAuth tab") simp_all
  obtain cs where cs: "getSetting None ''global'' ''notification.channels'' (\<lambda>v. readMap decodeChannel (Some v)) tab = Inr cs"
    using l a by (cases "getSetting None ''global'' ''notification.channels'' (\<lambda>v. readMap decodeChannel (Some v)) tab") simp_all
  obtain p where p: "getSetting None ''global'' ''proxy.settings'' decodeProxy tab = Inr p"
    using l a cs by (cases "getSetting None ''global'' ''proxy.settings'' decodeProxy tab") simp_all
  obtain ms where ms: "loadModems like None tab = Inr ms" using l a cs p by (cases "loadModems like None tab") simp_all
  show ?thesis using l a cs p ms by (simp add: Let_def)
qed

lemma loaded_modems: "loaded like tab c \<Longrightarrow> \<exists>ms. loadModems like None tab = Inr ms \<and> settingsModems c = Some ms"
  by (auto dest!: loaded_parts simp: ApplyDefaults_def)

lemma statePut_ok:
  assumes "statePut db scope key (Inr v) tab = (None, tab')" and "trim_space scope = scope" and "trim_space key = key"
  shows "tab' = AList.update (scope, key) v tab"
  using assms by (auto simp: statePut_def Let_def split: if_splits option.splits)

lemma loaded_defaults: "loaded like tab c \<Longrightarrow> ApplyDefaults c = c"
  by (auto dest!: loaded_parts)

lemma load_after_save:
  assumes "loaded like tab c0" and "saveSettings db s n tab = (None, tab')" and "storeDB s" and "\<not> memoryStore s"
    and "goodSettings n" and "ApplyDefaults n = n"
  shows "loaded like tab' (n\<lparr>settingsModems := settingsModems c0, settingsProxy := Some (ProxySettings n)\<rparr>)"
proof -
  have "settingsChannels (ApplyDefaults n) \<noteq> None" by (simp add: ApplyDefaults_def)
  then obtain l where l: "settingsChannels n = Some l" unfolding assms(6) by blast
  have tab': "tab' = AList.update (''global'', ''proxy.settings'') (encodeProxy (ProxySettings n))
      (AList.update (''global'', ''notification.channels'') (encodeChannels (Some l))
        (AList.update (''global'', ''auth.settings'') (encodeAuth (settingsAuth n)) tab))"
    using assms(2-4) l by (auto simp: saveSettings_def dest!: statePut_ok split: prod.splits option.splits)
  obtain ms where ms: "loadModems like None tab = Inr ms" "settingsModems c0 = Some ms" using loaded_modems [OF assms(1)] by blast
  have "getSetting None ''global'' ''auth.settings'' decodeAuth tab' = Inr (Some (settingsAuth n))"
    unfolding tab' by (simp add: getSetting_ok update_conv' decode_encode_auth)
  moreover have "getSetting None ''global'' ''notification.channels'' (\<lambda>v. readMap decodeChannel (Some v)) tab' = Inr (Some (Some l))"
    unfolding tab' using assms(5) l
    by (simp add: getSetting_ok update_conv' decode_encode_channels goodSettings_def orEmpty_def)
  moreover have "getSetting None ''global'' ''proxy.settings'' decodeProxy tab' = Inr (Some (ProxySettings n))"
    unfolding tab' using goodProxy_defaults [OF assms(5)] by (simp add: getSetting_ok update_conv' decode_encode_proxy)
  moreover have "loadModems like None tab' = Inr ms"
    unfolding tab' using ms by (simp add: loadModems_raw rawModems_other)
  ultimately have "loadSettings like (\<lambda>_. None) tab' = Inr (ApplyDefaults
      \<lparr>settingsAuth = settingsAuth n, settingsChannels = Some l, settingsModems = Some ms, settingsProxy = Some (ProxySettings n)\<rparr>)"
    by (simp add: loadSettings_def)
  also have "\<lparr>settingsAuth = settingsAuth n, settingsChannels = Some l, settingsModems = Some ms, settingsProxy = Some (ProxySettings n)\<rparr> =
      n\<lparr>settingsModems := Some ms, settingsProxy := Some (ProxySettings n)\<rparr>"
    using l by (cases n) simp
  also have "ApplyDefaults \<dots> = (ApplyDefaults n)\<lparr>settingsModems := Some ms, settingsProxy := Some (ProxySettings n)\<rparr>"
    by (simp add: ApplyDefaults_def)
  finally show ?thesis using assms(6) ms(2) by (simp add: loaded_def)
qed

definition storeInv :: "(string \<Rightarrow> string \<Rightarrow> bool) \<Rightarrow> settingsStore \<times> appTable \<Rightarrow> bool" where
  "storeInv like st \<longleftrightarrow>
     storeDB (fst st) \<and> \<not> memoryStore (fst st) \<and> modemRows (snd st) \<and>
     (\<exists>c. loaded like (snd st) c \<and> settingsView c = settingsView (currentSettings (fst st)))"

datatype settingsOp =
    UpdateSettings "nat \<Rightarrow> string option" "settings \<Rightarrow> string + settings"
  | UpdateModemSettings "string option" string modemSettings

fun settingsStep :: "settingsOp \<Rightarrow> settingsStore \<times> appTable \<Rightarrow> settingsStore \<times> appTable" where
  "settingsStep (UpdateSettings db update) (s, tab) = snd (updateSettings db update s tab)"
| "settingsStep (UpdateModemSettings db i m) (s, tab) = snd (UpdateModem db i m s tab)"

text \<open>An update that fails does so at its first statement; it leaves the modems alone and its numbers are Go integers.\<close>

fun settingsOpOk :: "settingsOp \<Rightarrow> bool" where
  "settingsOpOk (UpdateSettings db update) \<longleftrightarrow>
     (db 0 \<noteq> None \<or> db 1 = None \<and> db 2 = None) \<and>
     (\<forall>c n. update c = Inr n \<longrightarrow> goodSettings n \<and> settingsModems n = settingsModems c)"
| "settingsOpOk (UpdateModemSettings db i m) \<longleftrightarrow> goInt (modemMSS m)"

lemma modemRows_save: "modemRows tab \<Longrightarrow> saveSettings db s n tab = (e, tab') \<Longrightarrow> modemRows tab'"
  by (auto simp: saveSettings_def statePut_def Let_def intro!: modemRows_update split: if_splits option.splits prod.splits)

lemma storeInv_update:
  assumes inv: "storeInv like (s, tab)" and ok: "settingsOpOk (UpdateSettings db update)"
  shows "storeInv like (snd (updateSettings db update s tab))"
proof (cases "update (Clone (currentSettings s))")
  case (Inr n)
  let ?n = "ApplyDefaults n"
  obtain c0 where c0: "loaded like tab c0" "settingsView c0 = settingsView (currentSettings s)" "storeDB s" "\<not> memoryStore s" "modemRows tab"
    using inv by (auto simp: storeInv_def)
  have good: "goodSettings ?n" "settingsModems n = settingsModems (currentSettings s)"
    using ok Inr by (auto simp: Clone_def intro: goodSettings_defaults)
  obtain e tab' where save: "saveSettings db s ?n tab = (e, tab')" by fastforce
  show ?thesis
  proof (cases e)
    case None
    have "loaded like tab' (?n\<lparr>settingsModems := settingsModems c0, settingsProxy := Some (ProxySettings ?n)\<rparr>)"
      using load_after_save [OF c0(1) save [unfolded None] c0(3,4) good(1)] by simp
    moreover have "settingsView (?n\<lparr>settingsModems := settingsModems c0, settingsProxy := Some (ProxySettings ?n)\<rparr>) = settingsView ?n"
      using c0(2) good(2) ProxySettings_idem
      by (auto simp: settingsView_def ApplyDefaults_def orEmpty_def split: option.splits)
    ultimately show ?thesis
      using Inr save None c0(3,4) modemRows_save [OF c0(5) save] by (auto simp: updateSettings_def storeInv_def Let_def)
  next
    case (Some e)
    then have "tab' = tab"
      using ok save by (auto simp: saveSettings_def statePut_def Let_def split: if_splits option.splits prod.splits)
    with Inr save Some inv show ?thesis by (simp add: updateSettings_def Let_def)
  qed
qed (use inv in \<open>simp add: updateSettings_def\<close>)

lemma storeInv_modem:
  assumes inv: "storeInv like (s, tab)" and like: "\<And>i. like ''modem:%'' (''modem:'' @ i)" and m: "goInt (modemMSS m)"
  shows "storeInv like (snd (UpdateModem db i m s tab))"
proof -
  let ?i = "trim_space i"
  obtain c0 where c0: "loaded like tab c0" "settingsView c0 = settingsView (currentSettings s)" "storeDB s" "\<not> memoryStore s" "modemRows tab"
    using inv by (auto simp: storeInv_def)
  obtain e tab' where put: "putModem db s ?i m tab = (e, tab')" by fastforce
  show ?thesis
  proof (cases "?i = [] \<or> e \<noteq> None")
    case True
    have "e \<noteq> None \<longrightarrow> tab' = tab"
      using put c0(3,4) by (auto simp: putModem_def statePut_def Let_def split: if_splits option.splits)
    with True put inv show ?thesis by (auto simp: UpdateModem_def Let_def split: option.splits)
  next
    case False
    then have tab': "tab' = AList.update (''modem:'' @ ?i, ''modem.settings'') (encodeModem m) tab"
      using put c0(3,4) trim_modem_scope [of ?i] by (auto simp: putModem_def dest!: statePut_ok split: prod.splits)
    obtain ms where ms: "loadModems like None tab = Inr ms" "settingsModems c0 = Some ms" using loaded_modems [OF c0(1)] by blast
    obtain ms' where ms': "loadModems like None tab' = Inr ms'" "map_of ms' = (map_of ms)(?i \<mapsto> m)"
      using loadModemsLoop_update [OF c0(5), of like ms ?i "encodeModem m" m] ms(1) like False decode_encode_modem [OF m]
      by (auto simp: loadModems_raw tab')
    have get: "getSetting None ''global'' key f tab' = getSetting None ''global'' key f tab"
      if "key \<noteq> []" "trim_space key = key" for key and f :: "json \<Rightarrow> 'a option"
      using that by (simp add: getSetting_ok tab' update_conv')
    obtain c1 where c1: "loaded like tab' c1" "c1 = c0\<lparr>settingsModems := Some ms'\<rparr>"
      using loaded_parts [OF c0(1)] ms' by (auto simp: Let_def loaded_def loadSettings_def get ApplyDefaults_def)
    have "settingsView c1 = settingsView ((currentSettings s)\<lparr>settingsModems := Some (AList.update ?i m (orEmpty (settingsModems (currentSettings s))))\<rparr>)"
      using c0(2) ms(2) ms'(2) by (auto simp: c1(2) settingsView_def ProxySettings_def orEmpty_def update_conv')
    then show ?thesis
      using False put c0(3,4) c1(1) modemRows_update [OF c0(5)] by (auto simp: UpdateModem_def Let_def storeInv_def tab')
  qed
qed

text \<open>
  C36: What the program sees of the settings survives a restart: after a start and any sequence of updates, each of which succeeds or
  fails at its first statement, a new start reads back the settings that are in memory.
\<close>
theorem settings_survive_restart:
  assumes "NewSettingsStore like db (Some tab) = Inr s" and "\<forall>i. like ''modem:%'' (''modem:'' @ i)" and "modemRows tab"
    and "list_all settingsOpOk ops" and "fold settingsStep ops (s, tab) = (s', tab')"
  shows "\<exists>t. NewSettingsStore like (\<lambda>_. None) (Some tab') = Inr t \<and>
    settingsView (currentSettings t) = settingsView (currentSettings s')"
proof -
  have "storeInv like (s, tab)"
    using assms(1,3) by (auto simp: NewSettingsStore_def storeInv_def loaded_def dest: loadSettings_answer split: sum.splits)
  then have "storeInv like (fold settingsStep ops (s, tab))"
    using assms(4)
  proof (induction ops arbitrary: s tab)
    case (Cons op ops)
    then have "storeInv like (settingsStep op (s, tab))"
      using storeInv_update storeInv_modem assms(2) by (cases op) auto
    then show ?case using Cons.IH Cons.prems(2) by (cases "settingsStep op (s, tab)") simp
  qed simp
  then show ?thesis unfolding assms(5) by (auto simp: storeInv_def loaded_def NewSettingsStore_def)
qed

definition exampleSettings :: settings where
  "exampleSettings =
     ApplyDefaults (emptySettings
       \<lparr>settingsAuth := \<lparr>authProviders = Some [''bark''], otpRequired = True\<rparr>,
        settingsChannels := Some [(''bark'', emptyChannel\<lparr>channelRecipients := [''key'']\<rparr>)]\<rparr>)"

definition exampleSettingsOps :: "settingsOp list" where
  "exampleSettingsOps =
     [UpdateModemSettings None '' 86 '' \<lparr>modemAlias = ''office'', modemMSS = 120\<rparr>,
      UpdateSettings (\<lambda>_. None) (\<lambda>c. Inr (exampleSettings\<lparr>settingsModems := settingsModems c\<rparr>)),
      UpdateSettings (\<lambda>_. Some ''disk full'') (\<lambda>c. Inr (exampleSettings\<lparr>settingsModems := settingsModems c, settingsChannels := None\<rparr>))]"

theorem settings_survive_restart_witness:
  "\<exists>t. NewSettingsStore (\<lambda>p s. take 6 s = ''modem:'') (\<lambda>_. None)
      (Some (snd (fold settingsStep exampleSettingsOps (\<lparr>storeDB = True, currentSettings = DefaultSettings, memoryStore = False\<rparr>, [])))) = Inr t \<and>
    settingsView (currentSettings t) =
      settingsView (currentSettings (fst (fold settingsStep exampleSettingsOps
        (\<lparr>storeDB = True, currentSettings = DefaultSettings, memoryStore = False\<rparr>, []))))"
proof (rule settings_survive_restart)
  show "NewSettingsStore (\<lambda>p s. take 6 s = ''modem:'') (\<lambda>_. None) (Some []) =
      Inr \<lparr>storeDB = True, currentSettings = DefaultSettings, memoryStore = False\<rparr>"
    by (simp add: NewSettingsStore_def loadSettings_def getSetting_ok loadModems_raw rawModems_def DefaultSettings_def ApplyDefaults_def
        emptySettings_def Clone_def emptyAuth_def)
  show "list_all settingsOpOk exampleSettingsOps"
    by (simp add: exampleSettingsOps_def exampleSettings_def emptySettings_def goodSettings_def orEmpty_def emptyChannel_def
        goodChannel_def goInt_def ApplyDefaults_def enableChannel_def)
qed (simp_all add: modemRows_def)

text \<open>
  An update whose second statement fails reports an error and leaves the settings in memory alone, but the login settings are in the
  table: after the next start they hold.
\<close>
theorem failed_update_takes_effect:
  assumes "loaded like tab c0" and "storeDB s" and "\<not> memoryStore s" and "update (Clone (currentSettings s)) = Inr n"
    and "db 0 = None" and "db 1 = Some e"
  shows "\<exists>tab' c. updateSettings db update s tab = (Inl (ErrSettingsState (ErrDatabase e)), s, tab') \<and> loaded like tab' c \<and>
    settingsAuth c = settingsAuth (ApplyDefaults n)"
proof -
  let ?tab' = "AList.update (''global'', ''auth.settings'') (encodeAuth (settingsAuth (ApplyDefaults n))) tab"
  have fail: "updateSettings db update s tab = (Inl (ErrSettingsState (ErrDatabase e)), s, ?tab')"
    using assms(2-6) by (simp add: updateSettings_def saveSettings_def statePut_def Let_def)
  have get: "getSetting None ''global'' key f ?tab' = getSetting None ''global'' key f tab"
    if "key \<noteq> []" "trim_space key = key" "key \<noteq> ''auth.settings''" for key and f :: "json \<Rightarrow> 'a option"
    using that by (simp add: getSetting_ok update_conv')
  have "\<exists>c. loaded like ?tab' c \<and> settingsAuth c = settingsAuth (ApplyDefaults n)"
    using loaded_parts [OF assms(1)]
    by (auto simp: Let_def loaded_def loadSettings_def get getSetting_ok [of "''global''" "''auth.settings''"] update_conv' decode_encode_auth
        loadModems_raw rawModems_other)
      (simp_all add: ApplyDefaults_def)
  with fail show ?thesis by blast
qed

end
