(* ===== verification/Notify.thy ===== *)
theory Notify
  imports Settings "HOL-Library.List_Lexorder" "HOL-Library.Char_ord"
begin

text \<open>
  Notifications (\<open>internal/pkg/notify\<close>): events, how each channel shows them, the senders made from the settings, and the notifier
  that passes an event to them. The library of phone numbers is an argument (the international form of a valid number), and so are
  parsing an address and posting to a service; a sender keeps the address it was given, not what the code makes of it. A time is its RFC 3339 text, or \<open>None\<close> for the zero time.
\<close>

section \<open>Events\<close>

record smsEvent =
  eventModem :: string
  eventFrom :: string
  eventTo :: string
  eventTime :: "string option"
  eventText :: string
  eventIncoming :: bool

record notifyCall =
  notifyCallModem :: string
  notifyCallFrom :: string
  notifyCallTo :: string
  notifyCallTime :: "string option"
  notifyCallIncoming :: bool

datatype notifyEvent = OTPEvent string | SMSEvent smsEvent | CallEvent notifyCall

definition shortCode :: "string \<Rightarrow> bool" where
  "shortCode v \<longleftrightarrow> v \<noteq> [] \<and> length v \<le> 6 \<and> list_all is_digit v"

text \<open>\<open>strconv.Atoi\<close> of ten characters fails exactly when they are not a sign and digits.\<close>

definition atoiTen :: "string \<Rightarrow> bool" where
  "atoiTen v \<longleftrightarrow> list_all is_digit v \<or> (hd v = CHR ''+'' \<or> hd v = CHR ''-'') \<and> list_all is_digit (tl v)"

definition formatNANPString :: "string \<Rightarrow> string" where
  "formatNANPString v =
     (if \<not> starts_with v ''+1'' then []
      else let national = drop 2 v in
        if length national \<noteq> 10 then []
        else if \<not> atoiTen national then []
        else ''+1 ('' @ take 3 national @ '') '' @ take 3 (drop 3 national) @ ''-'' @ drop 6 national)"

definition DisplayNumber :: "(string \<Rightarrow> string option) \<Rightarrow> string \<Rightarrow> string" where
  "DisplayNumber intl v =
     (let v = trim_space v in
      if v = [] \<or> shortCode v then v
      else if formatNANPString v \<noteq> [] then formatNANPString v
      else case intl v of None \<Rightarrow> v | Some f \<Rightarrow> f)"

definition displayTimestamp :: "string option \<Rightarrow> string" where
  "displayTimestamp t = (case t of None \<Rightarrow> ''unknown'' | Some t \<Rightarrow> t)"

definition smsDirection :: "smsEvent \<Rightarrow> string" where
  "smsDirection e = (if eventIncoming e then ''Incoming SMS'' else ''Outgoing SMS'')"

definition callDirection :: "notifyCall \<Rightarrow> string" where
  "callDirection e = (if notifyCallIncoming e then ''Incoming Call'' else ''Outgoing Call'')"

definition displayText :: "smsEvent \<Rightarrow> string" where
  "displayText e = (let text = trim_space (eventText e) in if text = [] then ''(empty message)'' else text)"

definition smsCounterparty :: "(string \<Rightarrow> string option) \<Rightarrow> smsEvent \<Rightarrow> string" where
  "smsCounterparty intl e = (if eventIncoming e then DisplayNumber intl (eventFrom e) else DisplayNumber intl (eventTo e))"

definition callCounterparty :: "(string \<Rightarrow> string option) \<Rightarrow> notifyCall \<Rightarrow> string" where
  "callCounterparty intl e =
     (if notifyCallIncoming e then DisplayNumber intl (notifyCallFrom e) else DisplayNumber intl (notifyCallTo e))"

section \<open>Plain texts\<close>

definition newline :: string where "newline = [CHR 0x0A]"

definition callTitle :: "(string \<Rightarrow> string option) \<Rightarrow> notifyCall \<Rightarrow> string" where
  "callTitle intl e =
     (let number = callCounterparty intl e in if number = [] then callDirection e else callDirection e @ '' from '' @ number)"

text \<open>Title and body for Bark, Gotify and ServerChan, and the text for Lark and WeCom.\<close>

definition titleAndBody :: "(string \<Rightarrow> string option) \<Rightarrow> notifyEvent \<Rightarrow> string \<times> string" where
  "titleAndBody intl ev =
     (case ev of
        OTPEvent code \<Rightarrow> (''Sigmo Login'', ''Your verification code is '' @ trim_space code)
      | SMSEvent e \<Rightarrow> (smsCounterparty intl e, displayText e)
      | CallEvent e \<Rightarrow>
          (callTitle intl e, ''Modem: '' @ trim_space (notifyCallModem e) @ newline @ ''Time: '' @ displayTimestamp (notifyCallTime e)))"

definition chatText :: "(string \<Rightarrow> string option) \<Rightarrow> notifyEvent \<Rightarrow> string" where
  "chatText intl ev =
     (case ev of
        OTPEvent code \<Rightarrow> ''Sigmo Login'' @ newline @ ''Your verification code is '' @ trim_space code
      | SMSEvent e \<Rightarrow> smsCounterparty intl e @ newline @ displayText e
      | CallEvent e \<Rightarrow>
          callTitle intl e @ newline @ ''Modem: '' @ trim_space (notifyCallModem e) @ newline @
          ''Time: '' @ displayTimestamp (notifyCallTime e))"

section \<open>Telegram\<close>

definition markdownSpecials :: string where "markdownSpecials = [CHR 0x5C] @ ''_*[]()~'' @ [CHR 0x60] @ ''>#+-=|{}.!''"

definition escapeMarkdownV2 :: "string \<Rightarrow> string" where
  "escapeMarkdownV2 s = concat (map (\<lambda>c. if c \<in> set markdownSpecials then [CHR 0x5C, c] else [c]) s)"

definition telegramText :: "(string \<Rightarrow> string option) \<Rightarrow> notifyEvent \<Rightarrow> string" where
  "telegramText intl ev =
     (case ev of
        OTPEvent code \<Rightarrow>
          ''*Sigmo Login*'' @ newline @ ''Verification code'' @ newline @ newline @
          [CHR 0x60] @ escapeMarkdownV2 (trim_space code) @ [CHR 0x60]
      | SMSEvent e \<Rightarrow>
          ''*'' @ escapeMarkdownV2 (smsDirection e) @ ''*'' @ newline @ newline @
          ''*From:* '' @ escapeMarkdownV2 (DisplayNumber intl (eventFrom e)) @ newline @
          ''*To:* '' @ escapeMarkdownV2 (DisplayNumber intl (eventTo e)) @ newline @
          ''*Modem:* '' @ escapeMarkdownV2 (trim_space (eventModem e)) @ newline @
          ''*Time:* '' @ escapeMarkdownV2 (displayTimestamp (eventTime e)) @ newline @ newline @
          ''*Message:*'' @ newline @ escapeMarkdownV2 (displayText e)
      | CallEvent e \<Rightarrow>
          ''*'' @ escapeMarkdownV2 (callDirection e) @ ''*'' @ newline @ newline @
          ''*From:* '' @ escapeMarkdownV2 (DisplayNumber intl (notifyCallFrom e)) @ newline @
          ''*Modem:* '' @ escapeMarkdownV2 (trim_space (notifyCallModem e)) @ newline @
          ''*Time:* '' @ escapeMarkdownV2 (displayTimestamp (notifyCallTime e)))"

section \<open>Mail\<close>

text \<open>\<open>html.EscapeString\<close>.\<close>

definition htmlEscapeChar :: "char \<Rightarrow> string" where
  "htmlEscapeChar c =
     (if c = CHR ''&'' then ''&amp;''
      else if c = CHR 0x27 then ''&#39;''
      else if c = CHR ''<'' then ''&lt;''
      else if c = CHR ''>'' then ''&gt;''
      else if c = CHR 0x22 then ''&#34;''
      else [c])"

definition htmlEscape :: "string \<Rightarrow> string" where "htmlEscape s = concat (map htmlEscapeChar s)"

definition quoted :: "string \<Rightarrow> string" where "quoted s = [CHR 0x22] @ s @ [CHR 0x22]"

definition divStyle :: "string \<Rightarrow> string" where "divStyle style = ''<div style='' @ quoted style @ ''>''"

definition mailOuter :: string where
  "mailOuter = divStyle (''background:#f5f7fb;padding:24px;font-family:system-ui,-apple-system,BlinkMacSystemFont,'' @
     [CHR 0x27] @ ''Segoe UI'' @ [CHR 0x27] @ '',sans-serif;color:#111827;'')"

definition mailHeading :: "string \<Rightarrow> string \<Rightarrow> string" where
  "mailHeading label heading =
     ''<p style='' @ quoted ''margin:0 0 8px;color:#6b7280;font-size:12px;letter-spacing:0.08em;text-transform:uppercase;'' @ ''>'' @ label @ ''</p>'' @
     ''<h1 style='' @ quoted ''margin:0 0 18px;font-size:24px;line-height:1.2;'' @ ''>'' @ heading @ ''</h1>''"

definition otpHTML :: "string \<Rightarrow> string" where
  "otpHTML code =
     mailOuter @
     divStyle ''max-width:520px;margin:0 auto;background:#ffffff;border:1px solid #dbe2ea;border-radius:16px;padding:28px;'' @
     mailHeading ''Sigmo Login'' ''Verification Code'' @
     divStyle ''margin:0 0 18px;padding:18px 20px;border:1px solid #dbe2ea;border-radius:12px;background:#f9fafb;text-align:center;font-size:32px;font-weight:700;letter-spacing:0.24em;'' @
     htmlEscape code @ ''</div>'' @
     ''<p style='' @ quoted ''margin:0;color:#4b5563;font-size:14px;'' @ ''>Enter this code to continue.</p></div></div>''"

definition smsHTML :: "(string \<Rightarrow> string option) \<Rightarrow> smsEvent \<Rightarrow> string" where
  "smsHTML intl e =
     mailOuter @
     divStyle ''max-width:560px;margin:0 auto;background:#ffffff;border:1px solid #dbe2ea;border-radius:16px;padding:28px;'' @
     mailHeading ''Sigmo Notification'' (htmlEscape (smsDirection e)) @
     divStyle ''margin:0 0 18px;padding:16px 18px;border:1px solid #e5e7eb;border-radius:12px;background:#f9fafb;font-size:14px;line-height:1.7;'' @
     ''<strong>From:</strong> '' @ htmlEscape (DisplayNumber intl (eventFrom e)) @ ''<br>'' @
     ''<strong>To:</strong> '' @ htmlEscape (DisplayNumber intl (eventTo e)) @ ''<br>'' @
     ''<strong>Modem:</strong> '' @ htmlEscape (trim_space (eventModem e)) @ ''<br>'' @
     ''<strong>Time:</strong> '' @ htmlEscape (displayTimestamp (eventTime e)) @ ''</div>'' @
     divStyle ''padding:16px 18px;border:1px solid #dbe2ea;border-radius:12px;background:#ffffff;font-size:15px;line-height:1.7;white-space:pre-wrap;'' @
     htmlEscape (displayText e) @ ''</div></div></div>''"

definition callHTML :: "(string \<Rightarrow> string option) \<Rightarrow> notifyCall \<Rightarrow> string" where
  "callHTML intl e =
     mailOuter @
     divStyle ''max-width:560px;margin:0 auto;background:#ffffff;border:1px solid #dbe2ea;border-radius:16px;padding:28px;'' @
     mailHeading ''Sigmo Notification'' (htmlEscape (callDirection e)) @
     divStyle ''padding:16px 18px;border:1px solid #e5e7eb;border-radius:12px;background:#f9fafb;font-size:14px;line-height:1.7;'' @
     ''<strong>From:</strong> '' @ htmlEscape (DisplayNumber intl (notifyCallFrom e)) @ ''<br>'' @
     ''<strong>Modem:</strong> '' @ htmlEscape (trim_space (notifyCallModem e)) @ ''<br>'' @
     ''<strong>Time:</strong> '' @ htmlEscape (displayTimestamp (notifyCallTime e)) @ ''</div></div></div>''"

record mailContent =
  Subject :: string
  TextBody :: string
  HTMLBody :: string

definition mailRender :: "(string \<Rightarrow> string option) \<Rightarrow> notifyEvent \<Rightarrow> mailContent" where
  "mailRender intl ev =
     (case ev of
        OTPEvent code \<Rightarrow>
          \<lparr>Subject = ''Sigmo Login Verification Code'',
           TextBody = ''Sigmo Login Verification Code'' @ newline @ newline @ trim_space code @ newline @ newline @
             ''Enter this code to continue.'',
           HTMLBody = otpHTML (trim_space code)\<rparr>
      | SMSEvent e \<Rightarrow>
          \<lparr>Subject = (if eventIncoming e then ''Incoming SMS from '' else ''Outgoing SMS to '') @ smsCounterparty intl e,
           TextBody = smsDirection e @ newline @ newline @ ''From : '' @ DisplayNumber intl (eventFrom e) @ newline @
             ''To   : '' @ DisplayNumber intl (eventTo e) @ newline @ ''Modem: '' @ trim_space (eventModem e) @ newline @
             ''Time : '' @ displayTimestamp (eventTime e) @ newline @ newline @ ''Message'' @ newline @ ''-------'' @ newline @ displayText e,
           HTMLBody = smsHTML intl e\<rparr>
      | CallEvent e \<Rightarrow>
          \<lparr>Subject = (if notifyCallIncoming e then ''Incoming call from '' else ''Outgoing call to '') @ callCounterparty intl e,
           TextBody = callDirection e @ newline @ newline @ ''From : '' @ DisplayNumber intl (notifyCallFrom e) @ newline @
             ''Modem: '' @ trim_space (notifyCallModem e) @ newline @ ''Time : '' @ displayTimestamp (notifyCallTime e),
           HTMLBody = callHTML intl e\<rparr>)"

section \<open>Senders\<close>

definition parseInt64 :: "string \<Rightarrow> int option" where
  "parseInt64 v =
     (let (neg, ds) = (case v of c # cs \<Rightarrow> if c = CHR ''-'' then (True, cs) else if c = CHR ''+'' then (False, cs) else (False, v) | [] \<Rightarrow> (False, []));
          n = (if neg then - int (decimal_value ds) else int (decimal_value ds))
      in if ds \<noteq> [] \<and> list_all is_digit ds \<and> goInt n then Some n else None)"

fun recipientInts :: "string list \<Rightarrow> int list option" where
  "recipientInts [] = Some []"
| "recipientInts (raw # r) =
     (let v = trim_space raw in
      if v = [] then None
      else case (parseInt64 v, recipientInts r) of (Some i, Some ids) \<Rightarrow> Some (i # ids) | _ \<Rightarrow> None)"

definition recipientStrings :: "string list \<Rightarrow> string list" where
  "recipientStrings r = filter (\<lambda>v. v \<noteq> []) (map trim_space r)"

datatype tlsMode = TLSMandatory | TLSOpportunistic | NoTLS

definition tlsUnmarshal :: "(string \<Rightarrow> string) \<Rightarrow> string \<Rightarrow> tlsMode option" where
  "tlsUnmarshal lower text =
     (let v = lower (trim_space text) in
      if v = [] \<or> v = ''mandatory'' then Some TLSMandatory
      else if v = ''opportunistic'' then Some TLSOpportunistic
      else if v = ''none'' \<or> v = ''notls'' \<or> v = ''no_tls'' then Some NoTLS
      else None)"

fun tlsMarshal :: "tlsMode \<Rightarrow> string" where
  "tlsMarshal TLSMandatory = ''mandatory''"
| "tlsMarshal TLSOpportunistic = ''opportunistic''"
| "tlsMarshal NoTLS = ''none''"

text \<open>The path of an address or why it is none, and what the mail library says to a channel's options.\<close>

record notifyEnv =
  urlPath :: "string \<Rightarrow> string + string"
  mailClient :: "channelSettings \<Rightarrow> tlsMode \<Rightarrow> string option"
  envLower :: "string \<Rightarrow> string"

datatype notifySender =
    TelegramSender string string "int list"
  | BarkSender string "string list"
  | GotifySender string "string list" int
  | Sc3Sender string
  | LarkSender string
  | WecomSender string
  | WebhookSender string "(string \<times> string) list"
  | EmailSender string "string list"

definition parsedURL :: "notifyEnv \<Rightarrow> string \<Rightarrow> (string \<Rightarrow> string + 'a) \<Rightarrow> string + 'a" where
  "parsedURL env endpoint k = (case urlPath env endpoint of Inl e \<Rightarrow> Inl e | Inr path \<Rightarrow> k path)"

definition newTelegram :: "notifyEnv \<Rightarrow> channelSettings \<Rightarrow> string + notifySender" where
  "newTelegram env c =
     (if trim_space (botToken c) = [] then Inl ''telegram bot token is required''
      else let endpoint = (if trim_space (channelEndpoint c) = [] then ''https://api.telegram.org'' else trim_space (channelEndpoint c)) in
        parsedURL env endpoint (\<lambda>_.
          case recipientInts (channelRecipients c) of
            None \<Rightarrow> Inl ''parsing telegram recipients''
          | Some ids \<Rightarrow>
              if ids = [] then Inl ''telegram recipients are required'' else Inr (TelegramSender endpoint (botToken c) ids)))"

definition newBark :: "notifyEnv \<Rightarrow> channelSettings \<Rightarrow> string + notifySender" where
  "newBark env c =
     (let endpoint = (if trim_space (channelEndpoint c) = [] then ''https://api.day.app'' else trim_space (channelEndpoint c)) in
      parsedURL env endpoint (\<lambda>_.
        let keys = recipientStrings (channelRecipients c) in
        if keys = [] then Inl ''bark recipients are required'' else Inr (BarkSender endpoint keys)))"

definition newGotify :: "notifyEnv \<Rightarrow> channelSettings \<Rightarrow> string + notifySender" where
  "newGotify env c =
     (let endpoint = trim_space (channelEndpoint c) in
      if endpoint = [] then Inl ''gotify endpoint is required''
      else parsedURL env endpoint (\<lambda>_.
        let tokens = recipientStrings (channelRecipients c) in
        if tokens = [] then Inl ''gotify recipients are required'' else Inr (GotifySender endpoint tokens (channelPriority c))))"

definition newSc3 :: "notifyEnv \<Rightarrow> channelSettings \<Rightarrow> string + notifySender" where
  "newSc3 env c =
     (let endpoint = trim_space (channelEndpoint c) in
      if endpoint = [] then Inl ''sc3 endpoint is required''
      else parsedURL env endpoint (\<lambda>path.
        if list_all (\<lambda>c. c = CHR ''/'') path then Inl ''sc3 endpoint must include sendkey path'' else Inr (Sc3Sender endpoint)))"

text \<open>The other three only need an address.\<close>

definition newLark :: "notifyEnv \<Rightarrow> channelSettings \<Rightarrow> string + notifySender" where
  "newLark env c =
     (let endpoint = trim_space (channelEndpoint c) in
      if endpoint = [] then Inl ''lark endpoint is required'' else parsedURL env endpoint (\<lambda>_. Inr (LarkSender endpoint)))"

definition newWecom :: "notifyEnv \<Rightarrow> channelSettings \<Rightarrow> string + notifySender" where
  "newWecom env c =
     (let endpoint = trim_space (channelEndpoint c) in
      if endpoint = [] then Inl ''wecom endpoint is required'' else parsedURL env endpoint (\<lambda>_. Inr (WecomSender endpoint)))"

definition newWebhook :: "notifyEnv \<Rightarrow> channelSettings \<Rightarrow> string + notifySender" where
  "newWebhook env c =
     (let endpoint = trim_space (channelEndpoint c) in
      if endpoint = [] then Inl ''http endpoint is required''
      else parsedURL env endpoint (\<lambda>_. Inr (WebhookSender endpoint (channelHeaders c))))"

definition newEmail :: "notifyEnv \<Rightarrow> channelSettings \<Rightarrow> string + notifySender" where
  "newEmail env c =
     (let host = trim_space (smtpHost c); sender = trim_space (smtpFrom c); recipients = recipientStrings (channelRecipients c);
          username = trim_space (smtpUsername c); password = trim_space (smtpPassword c)
      in if host = [] then Inl ''email smtp_host is required''
         else if smtpPort c \<le> 0 then Inl ''email smtp_port is required''
         else if sender = [] then Inl ''email from is required''
         else if recipients = [] then Inl ''email recipients are required''
         else case tlsUnmarshal (envLower env) (tlsPolicy c) of
             None \<Rightarrow> Inl ''unsupported email tls_policy''
           | Some policy \<Rightarrow>
               if (username = []) \<noteq> (password = []) then Inl ''email smtp_username and smtp_password must be set together''
               else case mailClient env c policy of
                   Some e \<Rightarrow> Inl e
                 | None \<Rightarrow> Inr (EmailSender sender recipients))"

definition createSender :: "notifyEnv \<Rightarrow> string \<Rightarrow> channelSettings \<Rightarrow> string + notifySender" where
  "createSender env name c =
     (if name = ''telegram'' then newTelegram env c
      else if name = ''http'' then newWebhook env c
      else if name = ''email'' then newEmail env c
      else if name = ''bark'' then newBark env c
      else if name = ''gotify'' then newGotify env c
      else if name = ''sc3'' then newSc3 env c
      else if name = ''lark'' then newLark env c
      else if name = ''wecom'' then newWecom env c
      else Inl ''unsupported channel type'')"

section \<open>Sending\<close>

datatype notifyPost =
    TelegramPost string string int string
  | BarkPost string string string string
  | GotifyPost string string string string int
  | Sc3Post string string string
  | LarkPost string string
  | WecomPost string string
  | WebhookPost string "(string \<times> string) list" notifyEvent
  | MailPost string "string list" mailContent

text \<open>\<open>post\<close> is the service: the error of a request, if any. A sender returns its requests and its errors.\<close>

definition sendEach :: "(notifyPost \<Rightarrow> string option) \<Rightarrow> notifyPost list \<Rightarrow> notifyPost list \<times> string list" where
  "sendEach post ps = (ps, List.map_filter post ps)"

fun senderSend :: "(notifyPost \<Rightarrow> string option) \<Rightarrow> (string \<Rightarrow> string option) \<Rightarrow> notifySender \<Rightarrow> notifyEvent \<Rightarrow> notifyPost list \<times> string list" where
  "senderSend post intl (TelegramSender endpoint token ids) ev =
     (if ids = [] then ([], [''telegram recipients are required''])
      else sendEach post (map (\<lambda>i. TelegramPost endpoint token i (telegramText intl ev)) ids))"
| "senderSend post intl (BarkSender endpoint keys) ev =
     (let (title, body) = titleAndBody intl ev in
      if trim_space body = [] then ([], [''bark body is required''])
      else let (ps, errs) = sendEach post (map (\<lambda>k. BarkPost endpoint k title body) (recipientStrings keys))
        in (ps, errs @ map (\<lambda>_. ''bark device key is empty'') (filter (\<lambda>k. trim_space k = []) keys)))"
| "senderSend post intl (GotifySender endpoint tokens priority) ev =
     (let (title, body) = titleAndBody intl ev in
      if trim_space body = [] then ([], [''gotify message is required''])
      else let (ps, errs) = sendEach post (map (\<lambda>t. GotifyPost endpoint t title body (max 0 priority)) (recipientStrings tokens))
        in (ps, errs @ map (\<lambda>_. ''gotify token is empty'') (filter (\<lambda>t. trim_space t = []) tokens)))"
| "senderSend post intl (Sc3Sender endpoint) ev =
     (let (title, body) = titleAndBody intl ev in
      if trim_space body = [] then ([], [''sc3 message is required'']) else sendEach post [Sc3Post endpoint title body])"
| "senderSend post intl (LarkSender endpoint) ev = sendEach post [LarkPost endpoint (chatText intl ev)]"
| "senderSend post intl (WecomSender endpoint) ev = sendEach post [WecomPost endpoint (chatText intl ev)]"
| "senderSend post intl (WebhookSender endpoint headers) ev = sendEach post [WebhookPost endpoint headers ev]"
| "senderSend post intl (EmailSender sender recipients) ev =
     (if recipients = [] then ([], [''email recipients are required'']) else sendEach post [MailPost sender recipients (mailRender intl ev)])"

section \<open>The notifier\<close>

type_synonym senderMap = "(string \<times> notifySender) list"

text \<open>The map of channels is visited in the order of the list.\<close>

fun newNotifier :: "notifyEnv \<Rightarrow> (string \<times> channelSettings) list \<Rightarrow> senderMap \<Rightarrow> string + senderMap" where
  "newNotifier env [] n = Inr n"
| "newNotifier env ((name, c) # cs) n =
     (if \<not> IsEnabled c then newNotifier env cs n
      else case createSender env (envLower env name) c of
          Inl e \<Rightarrow> Inl (''creating '' @ name @ '' channel: '' @ e)
        | Inr sender \<Rightarrow> newNotifier env cs (AList.update (envLower env name) sender n))"

text \<open>
  The targets are served at the same time; the result lists them in their order. A target without a sender would be a nil pointer,
  which needs a name that is in lower case only after it has been lowered twice.
\<close>

definition notifierTargets :: "(string \<Rightarrow> string) \<Rightarrow> senderMap \<Rightarrow> string list \<Rightarrow> string list" where
  "notifierTargets lower n channels =
     sort (if channels = [] then map (\<lambda>e. lower (fst e)) n else filter (\<lambda>c. c \<in> fst ` set n) (map lower channels))"

definition notifierSend ::
  "(notifyPost \<Rightarrow> string option) \<Rightarrow> (string \<Rightarrow> string option) \<Rightarrow> (string \<Rightarrow> string) \<Rightarrow> senderMap \<Rightarrow> notifyEvent \<Rightarrow> string list \<Rightarrow>
   (string \<times> notifyPost list) list \<times> string list" where
  "notifierSend post intl lower n ev channels =
     (let results = map (\<lambda>t. (t, case map_of n t of None \<Rightarrow> ([], [''nil sender'']) | Some s \<Rightarrow> senderSend post intl s ev)) (notifierTargets lower n channels)
      in (map (\<lambda>(t, ps, _). (t, ps)) results,
          concat (map (\<lambda>(t, _, errs). map (\<lambda>e. t @ '' send failed: '' @ e) errs) results)))"

section \<open>What the reader of a mail sees\<close>

text \<open>A document split into its tags and its text, in which the entities are decoded.\<close>

fun markup :: "bool \<Rightarrow> string \<Rightarrow> string" where
  "markup inside [] = []"
| "markup True (c # s) = c # markup (c \<noteq> CHR ''>'') s"
| "markup False (c # s) = (if c = CHR ''<'' then c # markup True s else markup False s)"

definition htmlEntities :: "(string \<times> char) list" where
  "htmlEntities = [(''&amp;'', CHR ''&''), (''&#39;'', CHR 0x27), (''&lt;'', CHR ''<''), (''&gt;'', CHR ''>''), (''&#34;'', CHR 0x22)]"

function visible :: "bool \<Rightarrow> string \<Rightarrow> string" where
  "visible inside [] = []"
| "visible True (c # s) = visible (c \<noteq> CHR ''>'') s"
| "visible False (c # s) =
     (if c = CHR ''<'' then visible True s
      else case find (\<lambda>e. starts_with (c # s) (fst e)) htmlEntities of
          Some e \<Rightarrow> snd e # visible False (drop (length (fst e) - 1) s)
        | None \<Rightarrow> c # visible False s)"
  by pat_completeness auto
termination by (relation "measure (\<lambda>(_, s). length s)") auto

lemma markup_tag: "CHR ''>'' \<notin> set s \<Longrightarrow> markup True (s @ CHR ''>'' # t) = s @ CHR ''>'' # markup False t"
  by (induction s) auto

lemma markup_text: "CHR ''<'' \<notin> set s \<Longrightarrow> markup False (s @ t) = markup False t"
  by (induction s) auto

lemma visible_tag: "CHR ''>'' \<notin> set s \<Longrightarrow> visible True (s @ CHR ''>'' # t) = visible False t"
  by (induction s) auto

lemma htmlEscape_Cons: "htmlEscape (c # s) = htmlEscapeChar c @ htmlEscape s" "htmlEscape [] = []"
  by (simp_all add: htmlEscape_def)

lemma markup_escape: "markup False (htmlEscape s @ t) = markup False t"
proof (rule markup_text)
  show "CHR ''<'' \<notin> set (htmlEscape s)" by (induction s) (auto simp: htmlEscape_Cons htmlEscapeChar_def)
qed

lemma visible_escape: "visible False (htmlEscape s @ t) = s @ visible False t"
proof (induction s)
  case (Cons c s)
  have "visible False (htmlEscapeChar c @ u) = c # visible False u" for u
    by (auto simp: htmlEscapeChar_def htmlEntities_def)
  with Cons show ?case by (simp add: htmlEscape_Cons)
qed (simp add: htmlEscape_Cons)

lemma div_parts:
  assumes "CHR ''>'' \<notin> set style"
  shows "markup False (divStyle style @ t) = divStyle style @ markup False t" "visible False (divStyle style @ t) = visible False t"
  using assms markup_tag [of "quoted style"] visible_tag [of "quoted style"] by (simp_all add: divStyle_def quoted_def)

lemma outer_parts:
  "markup False (mailOuter @ t) = mailOuter @ markup False t" "visible False (mailOuter @ t) = visible False t"
  unfolding mailOuter_def by (rule div_parts, simp)+

lemma heading_parts:
  assumes "label \<in> {''Sigmo Login'', ''Sigmo Notification''}"
  shows "markup False (mailHeading label (htmlEscape h) @ t) = markup False (mailHeading label []) @ markup False t"
    and "visible False (mailHeading label (htmlEscape h) @ t) = label @ h @ visible False t"
proof -
  have close: "markup False (''</h1>'' @ u) = ''</h1>'' @ markup False u" "visible False (''</h1>'' @ u) = visible False u" for u
    by simp_all
  show "markup False (mailHeading label (htmlEscape h) @ t) = markup False (mailHeading label []) @ markup False t"
    using assms markup_escape [of h "''</h1>'' @ t"] unfolding close by (auto simp: mailHeading_def quoted_def)
  show "visible False (mailHeading label (htmlEscape h) @ t) = label @ h @ visible False t"
    using assms visible_escape [of h "''</h1>'' @ t"] unfolding close by (auto simp: mailHeading_def quoted_def htmlEntities_def)
qed

lemma escape_plain: "list_all (\<lambda>c. htmlEscapeChar c = [c]) h \<Longrightarrow> htmlEscape h = h"
  by (induction h) (simp_all add: htmlEscape_Cons)

lemma heading_code: "mailHeading label ''Verification Code'' = mailHeading label (htmlEscape ''Verification Code'')"
  by (subst escape_plain) (simp_all add: htmlEscapeChar_def)

text \<open>The event of the same kind without any text, and the text the reader of its mail is meant to see.\<close>

fun blankEvent :: "notifyEvent \<Rightarrow> notifyEvent" where
  "blankEvent (OTPEvent code) = OTPEvent []"
| "blankEvent (SMSEvent e) = SMSEvent \<lparr>eventModem = [], eventFrom = [], eventTo = [], eventTime = None, eventText = [], eventIncoming = False\<rparr>"
| "blankEvent (CallEvent e) =
     CallEvent \<lparr>notifyCallModem = [], notifyCallFrom = [], notifyCallTo = [], notifyCallTime = None, notifyCallIncoming = False\<rparr>"

fun mailText :: "(string \<Rightarrow> string option) \<Rightarrow> notifyEvent \<Rightarrow> string" where
  "mailText intl (OTPEvent code) = ''Sigmo Login'' @ ''Verification Code'' @ trim_space code @ ''Enter this code to continue.''"
| "mailText intl (SMSEvent e) =
     ''Sigmo Notification'' @ smsDirection e @ ''From: '' @ DisplayNumber intl (eventFrom e) @ ''To: '' @ DisplayNumber intl (eventTo e) @
     ''Modem: '' @ trim_space (eventModem e) @ ''Time: '' @ displayTimestamp (eventTime e) @ displayText e"
| "mailText intl (CallEvent e) =
     ''Sigmo Notification'' @ callDirection e @ ''From: '' @ DisplayNumber intl (notifyCallFrom e) @
     ''Modem: '' @ trim_space (notifyCallModem e) @ ''Time: '' @ displayTimestamp (notifyCallTime e)"

text \<open>
  C31: What comes from outside cannot change the structure of a mail: whatever the text of an SMS, the number it claims to come from and
  the name of the modem are, the HTML of the mail has the tags of the template and nothing else, and its reader sees exactly those texts,
  character by character, in their places.
\<close>
theorem mail_is_inert:
  "markup False (HTMLBody (mailRender intl ev)) = markup False (HTMLBody (mailRender intl (blankEvent ev))) \<and>
   visible False (HTMLBody (mailRender intl ev)) = mailText intl ev"
proof (cases ev)
  case (OTPEvent code)
  then show ?thesis
    by (simp add: mailRender_def otpHTML_def outer_parts div_parts heading_code heading_parts markup_escape visible_escape quoted_def htmlEntities_def)
next
  case (SMSEvent e)
  then show ?thesis
    by (simp add: mailRender_def smsHTML_def outer_parts div_parts heading_parts markup_escape visible_escape htmlEntities_def)
next
  case (CallEvent e)
  then show ?thesis
    by (simp add: mailRender_def callHTML_def outer_parts div_parts heading_parts markup_escape visible_escape htmlEntities_def)
qed

section \<open>What the reader of a Telegram message sees\<close>

text \<open>
  The special characters of a text that are not escaped, which start and end its entities, and the text without them. A backslash
  takes the next character literally.
\<close>

fun markers :: "string \<Rightarrow> string" where
  "markers [] = []"
| "markers [c] = (if c = CHR 0x5C then [] else if c \<in> set markdownSpecials then [c] else [])"
| "markers (c # d # s) =
     (if c = CHR 0x5C then markers s else if c \<in> set markdownSpecials then c # markers (d # s) else markers (d # s))"

fun literal :: "string \<Rightarrow> string" where
  "literal [] = []"
| "literal [c] = (if c \<in> set markdownSpecials then [] else [c])"
| "literal (c # d # s) =
     (if c = CHR 0x5C then d # literal s else if c \<in> set markdownSpecials then literal (d # s) else c # literal (d # s))"

lemma markers_Cons: "c \<noteq> CHR 0x5C \<Longrightarrow> markers (c # s) = (if c \<in> set markdownSpecials then c # markers s else markers s)"
  by (cases s) simp_all

lemma literal_Cons: "c \<noteq> CHR 0x5C \<Longrightarrow> literal (c # s) = (if c \<in> set markdownSpecials then literal s else c # literal s)"
  by (cases s) simp_all

lemma backslash_special: "CHR 0x5C \<in> set markdownSpecials"
  by (simp add: markdownSpecials_def)

lemma escapeMarkdown_Cons:
  "escapeMarkdownV2 (c # s) = (if c \<in> set markdownSpecials then [CHR 0x5C, c] else [c]) @ escapeMarkdownV2 s"
  "escapeMarkdownV2 [] = []"
  by (simp_all add: escapeMarkdownV2_def)

lemma markers_escape: "markers (escapeMarkdownV2 s @ t) = markers t"
proof (induction s)
  case (Cons c s)
  then show ?case using backslash_special by (cases "c = CHR 0x5C") (auto simp: escapeMarkdown_Cons markers_Cons)
qed (simp add: escapeMarkdown_Cons)

lemma literal_escape: "literal (escapeMarkdownV2 s @ t) = s @ literal t"
proof (induction s)
  case (Cons c s)
  then show ?case using backslash_special by (cases "c = CHR 0x5C") (auto simp: escapeMarkdown_Cons literal_Cons)
qed (simp add: escapeMarkdown_Cons)

fun telegramLiteral :: "(string \<Rightarrow> string option) \<Rightarrow> notifyEvent \<Rightarrow> string" where
  "telegramLiteral intl (OTPEvent code) = ''Sigmo Login'' @ newline @ ''Verification code'' @ newline @ newline @ trim_space code"
| "telegramLiteral intl (SMSEvent e) =
     smsDirection e @ newline @ newline @ ''From: '' @ DisplayNumber intl (eventFrom e) @ newline @
     ''To: '' @ DisplayNumber intl (eventTo e) @ newline @ ''Modem: '' @ trim_space (eventModem e) @ newline @
     ''Time: '' @ displayTimestamp (eventTime e) @ newline @ newline @ ''Message:'' @ newline @ displayText e"
| "telegramLiteral intl (CallEvent e) =
     callDirection e @ newline @ newline @ ''From: '' @ DisplayNumber intl (notifyCallFrom e) @ newline @
     ''Modem: '' @ trim_space (notifyCallModem e) @ newline @ ''Time: '' @ displayTimestamp (notifyCallTime e)"

text \<open>
  C32: Nor can it change the formatting of a Telegram message: the unescaped special characters are those of the template, so the bold
  headings and the code span begin and end where it says, the message is never refused for a stray one, and what is shown is the event's
  texts, character by character.
\<close>
theorem telegram_is_inert:
  "markers (telegramText intl ev) =
     (case ev of OTPEvent _ \<Rightarrow> ''**'' @ [CHR 0x60, CHR 0x60] | SMSEvent _ \<Rightarrow> ''************'' | CallEvent _ \<Rightarrow> ''********'') \<and>
   literal (telegramText intl ev) = telegramLiteral intl ev"
proof -
  have last: "markers (escapeMarkdownV2 s) = []" "literal (escapeMarkdownV2 s) = s" for s
    using markers_escape [of s "[]"] literal_escape [of s "[]"] by simp_all
  show ?thesis
    by (cases ev) (simp_all add: telegramText_def newline_def markdownSpecials_def markers_Cons literal_Cons markers_escape literal_escape last
        del: markers.simps(3) literal.simps(3))
qed

section \<open>The policy of a mail\<close>

lemma tls_round_trip: "(\<And>s. list_all (\<lambda>c. c \<notin> set ''ABCDEFGHIJKLMNOPQRSTUVWXYZ'') s \<Longrightarrow> lower s = s) \<Longrightarrow> tlsUnmarshal lower (tlsMarshal p) = Some p"
  by (cases p) (simp_all add: tlsUnmarshal_def trim_space_graphic graphic_def)

section \<open>No error means delivered\<close>

fun goodSender :: "notifySender \<Rightarrow> bool" where
  "goodSender (TelegramSender endpoint token ids) \<longleftrightarrow> ids \<noteq> []"
| "goodSender (BarkSender endpoint keys) \<longleftrightarrow> keys \<noteq> [] \<and> list_all (\<lambda>k. trim_space k = k \<and> k \<noteq> []) keys"
| "goodSender (GotifySender endpoint tokens priority) \<longleftrightarrow> tokens \<noteq> [] \<and> list_all (\<lambda>k. trim_space k = k \<and> k \<noteq> []) tokens"
| "goodSender (EmailSender sender recipients) \<longleftrightarrow> recipients \<noteq> []"
| "goodSender s \<longleftrightarrow> True"

lemma recipientStrings_trimmed: "list_all (\<lambda>k. trim_space k = k \<and> k \<noteq> []) (recipientStrings r)"
  by (auto simp: recipientStrings_def list_all_iff)

lemma recipientStrings_id: "list_all (\<lambda>k. trim_space k = k \<and> k \<noteq> []) l \<Longrightarrow> recipientStrings l = l"
  by (induction l) (simp_all add: recipientStrings_def)

lemmas new_sender_defs = newTelegram_def newWebhook_def newEmail_def newBark_def newGotify_def newSc3_def newLark_def newWecom_def

lemma created_good: "createSender env name c = Inr s \<Longrightarrow> goodSender s"
  using recipientStrings_trimmed
  by (auto simp: createSender_def new_sender_defs parsedURL_def Let_def split: if_splits sum.splits option.splits)

lemma trim_front_keeps:
  "\<forall>p \<in> set encs. c \<notin> set p \<Longrightarrow> c \<in> set s \<Longrightarrow> c \<in> set (trim_front encs n s)"
proof (induction encs n s rule: trim_front.induct)
  case (2 encs n s)
  show ?case
  proof (cases "find (starts_with s) encs")
    case (Some p)
    then have p: "p \<in> set encs" "starts_with s p" by (auto simp: find_Some_iff)
    then have "c \<in> set (drop (length p) s)" using 2(2,3) by (auto simp: starts_with_iff)
    then show ?thesis using 2(1) [OF Some 2(2)] Some by simp
  qed (use 2(3) in simp)
qed simp

lemma trim_space_visible:
  assumes "graphic c" and "c \<in> set s"
  shows "trim_space s \<noteq> []"
proof -
  have g: "\<forall>p \<in> set space_runes. c \<notin> set p" using assms(1) by (auto simp: space_runes_def graphic_def)
  then have "c \<in> set (trim_left s)" unfolding trim_left_def using trim_front_keeps assms(2) by blast
  then have "c \<in> set (trim_space s)"
    unfolding trim_space_def trim_right_def set_rev using g by (intro trim_front_keeps) auto
  then show ?thesis by auto
qed

lemma body_not_blank: "trim_space (snd (titleAndBody intl ev)) \<noteq> []"
proof (cases ev)
  case (OTPEvent code)
  then show ?thesis by (simp add: titleAndBody_def, intro trim_space_visible [of "CHR ''Y''"]) (simp_all add: graphic_def)
next
  case (SMSEvent e)
  have "trim_space ''(empty message)'' \<noteq> []" by (rule trim_space_visible [of "CHR ''m''"]) (simp_all add: graphic_def)
  with SMSEvent show ?thesis by (auto simp: titleAndBody_def displayText_def Let_def)
next
  case (CallEvent e)
  then show ?thesis by (simp add: titleAndBody_def, intro trim_space_visible [of "CHR ''M''"]) (simp_all add: graphic_def)
qed

lemma sendEach_errors: "snd (sendEach post ps) = [] \<longleftrightarrow> (\<forall>p \<in> set ps. post p = None)"
  by (induction ps) (auto simp: sendEach_def List.map_filter_simps split: option.splits)

lemma senderSend_good:
  assumes "goodSender s"
  shows "fst (senderSend post intl s ev) \<noteq> [] \<and>
    (snd (senderSend post intl s ev) = [] \<longleftrightarrow> (\<forall>p \<in> set (fst (senderSend post intl s ev)). post p = None))"
proof -
  have each: "fst (sendEach post ps) = ps" for ps by (simp add: sendEach_def)
  have blank: "filter (\<lambda>k. trim_space k = []) l = []" if "list_all (\<lambda>k. trim_space k = k \<and> k \<noteq> []) l" for l
    using that by (induction l) auto
  show ?thesis
    using assms body_not_blank [of intl ev]
    by (cases s) (auto simp: split_beta Let_def sendEach_errors each recipientStrings_id blank)
qed

lemma update_member: "e \<in> set (AList.update k v l) \<Longrightarrow> e \<in> set l \<or> e = (k, v)"
  by (induction l) (auto split: if_splits)

lemma newNotifier_good:
  "newNotifier env cs n = Inr n' \<Longrightarrow> \<forall>e \<in> set n. goodSender (snd e) \<Longrightarrow> \<forall>e \<in> set n'. goodSender (snd e)"
proof (induction env cs n rule: newNotifier.induct)
  case (2 env name c cs n)
  show ?case
  proof (cases "IsEnabled c")
    case False
    with 2 show ?thesis by simp
  next
    case True
    with "2.prems"(1) obtain s where s: "createSender env (envLower env name) c = Inr s" by (auto split: sum.splits)
    have "\<forall>e \<in> set (AList.update (envLower env name) s n). goodSender (snd e)"
      using "2.prems"(2) created_good [OF s] by (auto dest: update_member)
    with "2.IH"(2) True s "2.prems"(1) show ?thesis by simp
  qed
qed simp

lemma update_fresh: "k \<notin> fst ` set l \<Longrightarrow> AList.update k v l = l @ [(k, v)]"
  by (induction l) auto

lemma newNotifier_keys:
  "newNotifier env cs n = Inr n' \<Longrightarrow> distinct (map fst n @ map (\<lambda>e. envLower env (fst e)) cs) \<Longrightarrow>
   map fst n' = map fst n @ map (\<lambda>e. envLower env (fst e)) (filter (\<lambda>e. IsEnabled (snd e)) cs)"
proof (induction env cs n rule: newNotifier.induct)
  case (2 env name c cs n)
  show ?case
  proof (cases "IsEnabled c")
    case False
    with 2 show ?thesis by simp
  next
    case True
    with "2.prems"(1) obtain s where s: "createSender env (envLower env name) c = Inr s" by (auto split: sum.splits)
    have "AList.update (envLower env name) s n = n @ [(envLower env name, s)]"
      using "2.prems"(2) by (intro update_fresh) auto
    with "2.IH"(2) [OF _ s] True s "2.prems" show ?thesis by simp
  qed
qed simp

lemma notifierSend_good:
  assumes "notifierTargets lower n channels = ts" and "\<forall>t \<in> set ts. \<exists>s. map_of n t = Some s \<and> goodSender s"
  shows "map fst (fst (notifierSend post intl lower n ev channels)) = ts \<and>
    (\<forall>(t, ps) \<in> set (fst (notifierSend post intl lower n ev channels)). ps \<noteq> []) \<and>
    (snd (notifierSend post intl lower n ev channels) = [] \<longleftrightarrow>
     (\<forall>(t, ps) \<in> set (fst (notifierSend post intl lower n ev channels)). \<forall>p \<in> set ps. post p = None))"
proof -
  define answer where "answer t = (case map_of n t of None \<Rightarrow> ([], [''nil sender'']) | Some s \<Rightarrow> senderSend post intl s ev)" for t
  have "\<forall>t \<in> set ts. fst (answer t) \<noteq> [] \<and> (snd (answer t) = [] \<longleftrightarrow> (\<forall>p \<in> set (fst (answer t)). post p = None))"
    using assms(2) senderSend_good by (fastforce simp: answer_def)
  moreover have send: "notifierSend post intl lower n ev channels =
      (map (\<lambda>t. (t, fst (answer t))) ts, concat (map (\<lambda>t. map (\<lambda>e. t @ '' send failed: '' @ e) (snd (answer t))) ts))"
    by (simp add: notifierSend_def assms(1) answer_def Let_def comp_def split_beta)
  ultimately show ?thesis unfolding send by (simp add: comp_def)
qed

text \<open>
  A notification for all channels goes to every enabled channel, once each, and reports no error exactly when every request was
  answered without one; no channel is served without a request. So no error means that each recipient of each enabled channel has it.
\<close>
theorem event_reaches_every_channel:
  assumes "newNotifier env cs [] = Inr n" and "distinct (map (\<lambda>e. envLower env (fst e)) cs)"
    and "\<forall>x. envLower env (envLower env x) = envLower env x"
  shows "map fst (fst (notifierSend post intl (envLower env) n ev [])) =
      sort (map (\<lambda>e. envLower env (fst e)) (filter (\<lambda>e. IsEnabled (snd e)) cs)) \<and>
    (\<forall>(t, ps) \<in> set (fst (notifierSend post intl (envLower env) n ev [])). ps \<noteq> []) \<and>
    (snd (notifierSend post intl (envLower env) n ev []) = [] \<longleftrightarrow>
     (\<forall>(t, ps) \<in> set (fst (notifierSend post intl (envLower env) n ev [])). \<forall>p \<in> set ps. post p = None))"
proof -
  let ?names = "map (\<lambda>e. envLower env (fst e)) (filter (\<lambda>e. IsEnabled (snd e)) cs)"
  have keys: "map fst n = ?names" using newNotifier_keys [OF assms(1)] assms(2) by simp
  have "map (\<lambda>e. envLower env (fst e)) n = map (envLower env) (map fst n)" by simp
  also have "\<dots> = ?names" unfolding keys using assms(3) by simp
  finally have targets: "notifierTargets (envLower env) n [] = sort ?names" by (simp add: notifierTargets_def)
  have "\<exists>s. map_of n t = Some s \<and> goodSender s" if "t \<in> set ?names" for t
  proof -
    have "t \<in> fst ` set n" using that keys by (metis set_map)
    then obtain s where "map_of n t = Some s" by (metis map_of_eq_None_iff option.exhaust)
    then show ?thesis using newNotifier_good [OF assms(1)] by (force dest: map_of_SomeD)
  qed
  then have good: "\<forall>t \<in> set (sort ?names). \<exists>s. map_of n t = Some s \<and> goodSender s" by simp
  from notifierSend_good [OF targets good] show ?thesis .
qed

definition exampleNotifyEnv :: notifyEnv where
  "exampleNotifyEnv = \<lparr>urlPath = (\<lambda>_. Inr ''/''), mailClient = (\<lambda>_ _. None), envLower = (\<lambda>s. s)\<rparr>"

definition exampleChannels :: "(string \<times> channelSettings) list" where
  "exampleChannels = [(''telegram'', emptyChannel\<lparr>botToken := ''t'', channelRecipients := ['' 42 '']\<rparr>), (''lark'', emptyChannel\<lparr>channelOn := Some False\<rparr>)]"

theorem event_reaches_every_channel_witness:
  "map fst (fst (notifierSend (\<lambda>_. None) (\<lambda>_. None) (envLower exampleNotifyEnv)
      [(''telegram'', TelegramSender ''https://api.telegram.org'' ''t'' [42])] (OTPEvent ''1'') [])) =
    sort (map (\<lambda>e. envLower exampleNotifyEnv (fst e)) (filter (\<lambda>e. IsEnabled (snd e)) exampleChannels))"
proof -
  have "newNotifier exampleNotifyEnv exampleChannels [] = Inr [(''telegram'', TelegramSender ''https://api.telegram.org'' ''t'' [42])]"
    by code_simp
  from event_reaches_every_channel [OF this, THEN conjunct1] show ?thesis
    by (simp add: exampleNotifyEnv_def exampleChannels_def)
qed

text \<open>A notification for channels that are not there reaches nobody and is no error.\<close>

theorem unknown_channels_are_silent:
  "\<forall>c \<in> set channels. lower c \<notin> fst ` set n \<Longrightarrow> channels \<noteq> [] \<Longrightarrow> notifierSend post intl lower n ev channels = ([], [])"
  by (auto simp: notifierSend_def notifierTargets_def filter_empty_conv)

text \<open>A number with a second sign is shown as a North American one.\<close>

theorem signed_number_is_formatted: "formatNANPString ''+1-123456789'' = ''+1 (-12) 345-6789''"
  by code_simp

end
