(* ===== verification/SettingsHandler.thy ===== *)
theory SettingsHandler
  imports Notify Proxy
begin

text \<open>
  Changing the settings (\<open>internal/app/handler/settings\<close>): a request is normalised, checked, saved, and then made to hold in the
  proxy and in the relay. The values of a form and of the settings have the same fields and share their records here; a map is the
  list of its entries in the order in which it is visited. The tags of the validator are written out; that a text is a web address
  is an argument.
\<close>

section \<open>The values of the form\<close>

record settingsValues =
  valuesAuth :: loginSettings
  valuesProxy :: proxySettings
  valuesChannels :: "(string \<times> channelSettings) list"

text \<open>What the form offers (\<open>schema.go\<close>).\<close>

datatype control = TextControl | PasswordControl | NumberControl | SwitchControl | SelectControl | ListControl | KeyValueControl | ChannelListControl

record formField =
  fieldKey :: string
  fieldLabel :: string
  fieldDescription :: string
  fieldControl :: control
  fieldRequired :: bool
  fieldSecret :: bool
  fieldPlaceholder :: string
  fieldRange :: "(int \<times> int) option"
  fieldOptions :: "(string \<times> string) list"

definition schemaText :: "string \<Rightarrow> string \<Rightarrow> string \<Rightarrow> string" where
  "schemaText section key part = ''settings.schema.'' @ section @ ''.'' @ key @ ''.'' @ part"

definition plainField :: "control \<Rightarrow> string \<Rightarrow> string \<Rightarrow> formField" where
  "plainField control section key =
     \<lparr>fieldKey = key, fieldLabel = schemaText section key ''label'', fieldDescription = schemaText section key ''description'',
      fieldControl = control, fieldRequired = False, fieldSecret = False, fieldPlaceholder = [], fieldRange = None, fieldOptions = []\<rparr>"

definition textField :: "string \<Rightarrow> string \<Rightarrow> bool \<Rightarrow> formField" where
  "textField section key required =
     (plainField TextControl section key)\<lparr>fieldPlaceholder := schemaText section key ''placeholder'', fieldRequired := required\<rparr>"

definition passwordField :: "string \<Rightarrow> string \<Rightarrow> bool \<Rightarrow> formField" where
  "passwordField section key required = (plainField PasswordControl section key)\<lparr>fieldRequired := required, fieldSecret := True\<rparr>"

definition listField :: "string \<Rightarrow> string \<Rightarrow> bool \<Rightarrow> formField" where
  "listField section key required = (plainField ListControl section key)\<lparr>fieldRequired := required\<rparr>"

definition numberField :: "string \<Rightarrow> string \<Rightarrow> int \<Rightarrow> int \<Rightarrow> bool \<Rightarrow> formField" where
  "numberField section key minValue maxValue required =
     (plainField NumberControl section key)\<lparr>fieldRange := Some (minValue, maxValue), fieldRequired := required\<rparr>"

definition selectField :: "string \<Rightarrow> string \<Rightarrow> bool \<Rightarrow> (string \<times> string) list \<Rightarrow> formField" where
  "selectField section key required options =
     (plainField SelectControl section key)\<lparr>fieldRequired := required, fieldOptions := options\<rparr>"

definition channelSchemas :: "(string \<times> formField list) list" where
  "channelSchemas =
     [(''telegram'',
        [textField ''channels.telegram'' ''endpoint'' False, passwordField ''channels.telegram'' ''botToken'' True,
         listField ''channels.telegram'' ''recipients'' True]),
      (''bark'', [textField ''channels.bark'' ''endpoint'' False, listField ''channels.bark'' ''recipients'' True]),
      (''gotify'',
        [textField ''channels.gotify'' ''endpoint'' True, listField ''channels.gotify'' ''recipients'' True,
         numberField ''channels.gotify'' ''priority'' 0 10 False]),
      (''sc3'', [textField ''channels.sc3'' ''endpoint'' True]),
      (''lark'', [textField ''channels.lark'' ''endpoint'' True]),
      (''wecom'', [textField ''channels.wecom'' ''endpoint'' True]),
      (''http'', [textField ''channels.http'' ''endpoint'' True, plainField KeyValueControl ''channels.http'' ''headers'']),
      (''email'',
        [textField ''channels.email'' ''smtpHost'' True, numberField ''channels.email'' ''smtpPort'' 1 65535 True,
         textField ''channels.email'' ''smtpUsername'' False, passwordField ''channels.email'' ''smtpPassword'' False,
         textField ''channels.email'' ''from'' True, listField ''channels.email'' ''recipients'' True,
         selectField ''channels.email'' ''tlsPolicy'' False
           (map (\<lambda>v. (schemaText ''channels.email'' ''tlsPolicy'' (''options.'' @ v), v)) [''mandatory'', ''opportunistic'', ''none'']),
         plainField SwitchControl ''channels.email'' ''ssl''])]"

definition authSchema :: "formField list" where
  "authSchema = [plainField SwitchControl ''auth'' ''otpRequired'', plainField ChannelListControl ''auth'' ''authProviders'']"

definition proxySchema :: "formField list" where
  "proxySchema =
     [textField ''proxy'' ''listenAddress'' True, numberField ''proxy'' ''httpPort'' 1 65535 True,
      numberField ''proxy'' ''socks5Port'' 1 65535 True, passwordField ''proxy'' ''password'' False]"

definition allowedChannelNames :: "string list" where
  "allowedChannelNames = map fst channelSchemas"

lemma allowedChannelNames_list:
  "allowedChannelNames = [''telegram'', ''bark'', ''gotify'', ''sc3'', ''lark'', ''wecom'', ''http'', ''email'']"
  by (simp add: allowedChannelNames_def channelSchemas_def)

definition channelValid :: "(string \<Rightarrow> bool) \<Rightarrow> channelSettings \<Rightarrow> bool" where
  "channelValid httpURL c \<longleftrightarrow>
     channelOn c \<noteq> None \<and> (channelEndpoint c = [] \<or> httpURL (channelEndpoint c)) \<and> list_all (\<lambda>r. r \<noteq> []) (channelRecipients c) \<and>
     list_all (\<lambda>h. fst h \<noteq> []) (channelHeaders c) \<and> (smtpPort c = 0 \<or> 1 \<le> smtpPort c \<and> smtpPort c \<le> 65535) \<and>
     (tlsPolicy c = [] \<or> tlsPolicy c \<in> {''mandatory'', ''opportunistic'', ''none'', ''notls'', ''no_tls''}) \<and>
     0 \<le> channelPriority c \<and> channelPriority c \<le> 10"

definition validateValues :: "(string \<Rightarrow> bool) \<Rightarrow> settingsValues \<Rightarrow> bool" where
  "validateValues httpURL v \<longleftrightarrow>
     list_all (\<lambda>p. p \<noteq> []) (orEmpty (authProviders (valuesAuth v))) \<and>
     listenAddress (valuesProxy v) \<noteq> [] \<and> 1 \<le> httpPort (valuesProxy v) \<and> httpPort (valuesProxy v) \<le> 65535 \<and>
     1 \<le> socks5Port (valuesProxy v) \<and> socks5Port (valuesProxy v) \<le> 65535 \<and>
     list_all (\<lambda>e. channelValid httpURL (snd e)) (valuesChannels v)"

section \<open>Normalising\<close>

definition trimNames :: "(string \<Rightarrow> string) \<Rightarrow> string list option \<Rightarrow> string list option" where
  "trimNames toLower names = map_option (map (\<lambda>n. toLower (trim_space n))) names"

fun uniqueNames :: "string list \<Rightarrow> string list \<Rightarrow> string list" where
  "uniqueNames seen [] = []"
| "uniqueNames seen (n # ns) = (if n \<in> set seen then uniqueNames seen ns else n # uniqueNames (n # seen) ns)"

definition normalizeNames :: "string list option \<Rightarrow> string list option" where
  "normalizeNames names = (case sort (uniqueNames [] (orEmpty names)) of [] \<Rightarrow> None | l \<Rightarrow> Some l)"

definition rebuildMap :: "('a \<times> 'b \<Rightarrow> 'c \<times> 'd) \<Rightarrow> ('a \<times> 'b) list \<Rightarrow> ('c \<times> 'd) list" where
  "rebuildMap f l = foldl (\<lambda>acc e. AList.update (fst (f e)) (snd (f e)) acc) [] l"

definition normalizeChannelValue :: "(string \<Rightarrow> string) \<Rightarrow> channelSettings \<Rightarrow> channelSettings" where
  "normalizeChannelValue toLower c =
     c\<lparr>channelEndpoint := trim_space (channelEndpoint c), botToken := trim_space (botToken c),
       channelRecipients := map trim_space (channelRecipients c),
       channelHeaders := rebuildMap (map_prod trim_space trim_space) (channelHeaders c),
       smtpHost := trim_space (smtpHost c), smtpUsername := trim_space (smtpUsername c), smtpPassword := trim_space (smtpPassword c),
       smtpFrom := trim_space (smtpFrom c), tlsPolicy := toLower (trim_space (tlsPolicy c))\<rparr>"

definition normalizeChannelValues :: "(string \<Rightarrow> string) \<Rightarrow> (string \<times> channelSettings) list \<Rightarrow> (string \<times> channelSettings) list" where
  "normalizeChannelValues toLower cs = rebuildMap (\<lambda>(name, c). (toLower (trim_space name), normalizeChannelValue toLower c)) cs"

text \<open>The fields a channel has; the code writes the same choice three times.\<close>

definition filterChannelValue :: "string \<Rightarrow> channelSettings \<Rightarrow> channelSettings" where
  "filterChannelValue name c =
     (let v = emptyChannel\<lparr>channelOn := channelOn c\<rparr> in
      if name = ''telegram'' then v\<lparr>channelEndpoint := channelEndpoint c, botToken := botToken c, channelRecipients := channelRecipients c\<rparr>
      else if name = ''bark'' then v\<lparr>channelEndpoint := channelEndpoint c, channelRecipients := channelRecipients c\<rparr>
      else if name = ''gotify'' then
        v\<lparr>channelEndpoint := channelEndpoint c, channelRecipients := channelRecipients c, channelPriority := channelPriority c\<rparr>
      else if name = ''sc3'' \<or> name = ''lark'' \<or> name = ''wecom'' then v\<lparr>channelEndpoint := channelEndpoint c\<rparr>
      else if name = ''http'' then v\<lparr>channelEndpoint := channelEndpoint c, channelHeaders := channelHeaders c\<rparr>
      else if name = ''email'' then
        v\<lparr>smtpHost := smtpHost c, smtpPort := smtpPort c, smtpUsername := smtpUsername c, smtpPassword := smtpPassword c,
          smtpFrom := smtpFrom c, channelRecipients := channelRecipients c, tlsPolicy := tlsPolicy c, smtpSSL := smtpSSL c\<rparr>
      else v)"

definition filterChannelValues :: "(string \<times> channelSettings) list \<Rightarrow> (string \<times> channelSettings) list" where
  "filterChannelValues cs = map (\<lambda>(name, c). (name, filterChannelValue name c)) cs"

definition normalizeRequest :: "(string \<Rightarrow> string) \<Rightarrow> settingsValues \<Rightarrow> settingsValues" where
  "normalizeRequest toLower v =
     \<lparr>valuesAuth = (valuesAuth v)\<lparr>authProviders := trimNames toLower (authProviders (valuesAuth v))\<rparr>,
      valuesProxy = (valuesProxy v)\<lparr>listenAddress := trim_space (listenAddress (valuesProxy v))\<rparr>,
      valuesChannels = filterChannelValues (normalizeChannelValues toLower (valuesChannels v))\<rparr>"

definition authSettingsFromValues :: "loginSettings \<Rightarrow> loginSettings" where
  "authSettingsFromValues a = a\<lparr>authProviders := normalizeNames (authProviders a)\<rparr>"

definition channelSettingsFromValues :: "string \<Rightarrow> channelSettings \<Rightarrow> channelSettings" where
  "channelSettingsFromValues name c = filterChannelValue name c"

definition normalizeChannels :: "(string \<times> channelSettings) list \<Rightarrow> (string \<times> channelSettings) list" where
  "normalizeChannels cs = map (\<lambda>(name, c). (name, channelSettingsFromValues name c)) cs"

section \<open>Showing\<close>

definition channelSettingsValues :: "string \<Rightarrow> channelSettings \<Rightarrow> channelSettings" where
  "channelSettingsValues name c =
     filterChannelValue name (c\<lparr>channelOn := Some (IsEnabled c), channelRecipients := recipientStrings (channelRecipients c)\<rparr>)"

definition valuesFromSettings :: "settings \<Rightarrow> settingsValues" where
  "valuesFromSettings c =
     \<lparr>valuesAuth = settingsAuth c, valuesProxy = ProxySettings c,
      valuesChannels = map (\<lambda>(name, c). (name, channelSettingsValues name c)) (orEmpty (settingsChannels c))\<rparr>"

section \<open>Changing\<close>

datatype settingsProblem = UnsupportedChannel string | AuthProvidersRequired | ProviderNotEnabled string

definition providerEnabled :: "(string \<times> channelSettings) list \<Rightarrow> string \<Rightarrow> bool" where
  "providerEnabled cs p = (case map_of cs p of None \<Rightarrow> False | Some c \<Rightarrow> IsEnabled c)"

definition validateSettings :: "settings \<Rightarrow> settingsProblem option" where
  "validateSettings c =
     (case find (\<lambda>e. fst e \<notin> set allowedChannelNames) (orEmpty (settingsChannels c)) of
        Some e \<Rightarrow> Some (UnsupportedChannel (fst e))
      | None \<Rightarrow>
          if otpRequired (settingsAuth c) \<and> orEmpty (authProviders (settingsAuth c)) = [] then Some AuthProvidersRequired
          else map_option ProviderNotEnabled
                 (find (\<lambda>p. \<not> providerEnabled (orEmpty (settingsChannels c)) p) (orEmpty (authProviders (settingsAuth c)))))"

definition internetProxyConfig :: "settings \<Rightarrow> ProxyConfig" where
  "internetProxyConfig c =
     (let p = ProxySettings c in
      \<lparr>ListenAddress = listenAddress p, HTTPPort = httpPort p, SOCKS5Port = socks5Port p, proxyPassword = proxySecret p\<rparr>)"

record handlerState =
  handlerStore :: settingsStore
  handlerTable :: appTable
  handlerProxy :: proxyState
  relayNotifier :: senderMap

definition relayReload :: "notifyEnv \<Rightarrow> handlerState \<Rightarrow> string option \<times> handlerState" where
  "relayReload env st =
     (case newNotifier env (orEmpty (settingsChannels (Snapshot (handlerStore st)))) [] of
        Inl e \<Rightarrow> (Some e, st)
      | Inr n \<Rightarrow> (None, st\<lparr>relayNotifier := n\<rparr>))"

definition withSections :: "loginSettings \<Rightarrow> (string \<times> channelSettings) list \<Rightarrow> proxySettings \<Rightarrow> settings \<Rightarrow> settings" where
  "withSections auth channels proxy c = c\<lparr>settingsAuth := auth, settingsChannels := Some channels, settingsProxy := Some proxy\<rparr>"

text \<open>The status and the error code of the answer; nothing else happens while the proxy closes its sessions.\<close>

definition applySaved :: "notifyEnv \<Rightarrow> proxySystem \<Rightarrow> settings \<Rightarrow> handlerState \<Rightarrow> (nat \<times> string) \<times> handlerState" where
  "applySaved env sys saved st =
     (let (errs, p) = UpdateConfig sys [] (internetProxyConfig saved) (handlerProxy st);
          st = st\<lparr>handlerProxy := p\<rparr>
      in if errs \<noteq> [] then ((500, ''reload_proxy_settings_failed''), st)
         else case relayReload env st of
             (Some e, st) \<Rightarrow> ((500, ''reload_notification_relay_failed''), st)
           | (None, st) \<Rightarrow> ((200, []), st))"

definition updateRequest ::
  "(string \<Rightarrow> bool) \<Rightarrow> notifyEnv \<Rightarrow> (nat \<Rightarrow> string option) \<Rightarrow> proxySystem \<Rightarrow> settingsValues \<Rightarrow> handlerState \<Rightarrow> (nat \<times> string) \<times> handlerState" where
  "updateRequest httpURL env db sys req st =
     (let req = normalizeRequest (envLower env) req in
      if \<not> validateValues httpURL req then ((422, ''update_settings_invalid''), st)
      else
        let change = withSections (authSettingsFromValues (valuesAuth req)) (normalizeChannels (valuesChannels req)) (valuesProxy req);
            next = change (Snapshot (handlerStore st))
        in if validateSettings next \<noteq> None then ((422, ''update_settings_invalid''), st)
           else case newNotifier env (orEmpty (settingsChannels next)) [] of
               Inl e \<Rightarrow> ((422, ''update_settings_invalid''), st)
             | Inr _ \<Rightarrow>
                 (case updateSettings db (\<lambda>c. Inr (change c)) (handlerStore st) (handlerTable st) of
                    (Inl e, store, tab) \<Rightarrow> ((500, ''update_settings_failed''), st\<lparr>handlerStore := store, handlerTable := tab\<rparr>)
                  | (Inr saved, store, tab) \<Rightarrow> applySaved env sys saved (st\<lparr>handlerStore := store, handlerTable := tab\<rparr>)))"

section \<open>The form and the channels agree\<close>

text \<open>A channel with every field set, and the fields that reach the settings.\<close>

definition fullChannel :: channelSettings where
  "fullChannel =
     \<lparr>channelOn = Some True, channelEndpoint = ''e'', botToken = ''t'', channelRecipients = [''7''], channelHeaders = [(''k'', ''v'')],
      smtpHost = ''h'', smtpPort = 25, smtpUsername = ''u'', smtpPassword = ''p'', smtpFrom = ''f'', tlsPolicy = ''none'', smtpSSL = True,
      channelPriority = 1\<rparr>"

definition keptFields :: "string \<Rightarrow> string list" where
  "keptFields name = (case encodeChannel (filterChannelValue name fullChannel) of JObject fs \<Rightarrow> map fst fs | _ \<Rightarrow> [])"

text \<open>
  For every channel of the form the fields offered are exactly those that are kept beside the switch, and the kept fields are enough for
  a sender.
\<close>
theorem form_offers_what_is_kept:
  "list_all (\<lambda>(name, fields). set (keptFields name) = insert ''enabled'' (set (map fieldKey fields)) \<and>
     \<not> isl (createSender (exampleNotifyEnv\<lparr>urlPath := \<lambda>_. Inr ''/key''\<rparr>) name (filterChannelValue name fullChannel))) channelSchemas"
  by code_simp

section \<open>Accepted settings are consistent\<close>

lemma validateSettings_iff:
  "validateSettings c = None \<longleftrightarrow>
     (\<forall>e \<in> set (orEmpty (settingsChannels c)). fst e \<in> set allowedChannelNames) \<and>
     (otpRequired (settingsAuth c) \<longrightarrow> orEmpty (authProviders (settingsAuth c)) \<noteq> []) \<and>
     (\<forall>p \<in> set (orEmpty (authProviders (settingsAuth c))). providerEnabled (orEmpty (settingsChannels c)) p)"
proof (cases "find (\<lambda>e. fst e \<notin> set allowedChannelNames) (orEmpty (settingsChannels c))")
  case None
  then have "\<forall>e \<in> set (orEmpty (settingsChannels c)). fst e \<in> set allowedChannelNames" by (force simp: find_None_iff)
  then show ?thesis
    unfolding validateSettings_def None option.case by (auto simp: find_None_iff simp del: split_paired_All)
next
  case (Some e)
  then have "e \<in> set (orEmpty (settingsChannels c))" "fst e \<notin> set allowedChannelNames" by (auto simp: find_Some_iff)
  then show ?thesis unfolding validateSettings_def Some option.case by blast
qed

lemma map_of_map_prod: "map_of (map (map_prod id f) l) k = map_option f (map_of l k)"
  by (induction l) auto

lemma IsEnabled_enable [simp]: "IsEnabled (enableChannel c) = IsEnabled c"
  by (simp add: IsEnabled_def enableChannel_def)

lemma defaults_fields:
  "orEmpty (settingsChannels (ApplyDefaults c)) = map (map_prod id enableChannel) (orEmpty (settingsChannels c))"
  "authProviders (settingsAuth (ApplyDefaults c)) = Some (orEmpty (authProviders (settingsAuth c)))"
  "otpRequired (settingsAuth (ApplyDefaults c)) = otpRequired (settingsAuth c)"
  by (auto simp: ApplyDefaults_def orEmpty_def split: option.splits)

lemma orEmpty_Some [simp]: "orEmpty (Some l) = l"
  by (simp add: orEmpty_def)

lemma validateSettings_defaults: "validateSettings c = None \<Longrightarrow> validateSettings (ApplyDefaults c) = None"
  by (auto simp: validateSettings_iff defaults_fields providerEnabled_def map_of_map_prod split: option.splits)

lemma validateSettings_fields:
  "settingsAuth c = settingsAuth d \<Longrightarrow> settingsChannels c = settingsChannels d \<Longrightarrow> validateSettings c = validateSettings d"
  by (simp only: validateSettings_def)

lemma relayReload_store: "handlerStore (snd (relayReload env st)) = handlerStore st" "handlerTable (snd (relayReload env st)) = handlerTable st"
  by (simp_all add: relayReload_def split: sum.split)

lemma applySaved_store: "handlerStore (snd (applySaved env sys saved st)) = handlerStore st" "fst (fst (applySaved env sys saved st)) \<noteq> 422"
  using relayReload_store(1) [of env] by (auto simp: applySaved_def Let_def split_beta split: prod.split option.split)

text \<open>What a request does to the store: nothing, or it saves what it was asked for.\<close>

definition requestedSettings :: "notifyEnv \<Rightarrow> settingsValues \<Rightarrow> settings \<Rightarrow> settings" where
  "requestedSettings env req =
     (let req = normalizeRequest (envLower env) req in
      withSections (authSettingsFromValues (valuesAuth req)) (normalizeChannels (valuesChannels req)) (valuesProxy req))"

definition requestAccepted :: "(string \<Rightarrow> bool) \<Rightarrow> notifyEnv \<Rightarrow> settingsValues \<Rightarrow> settings \<Rightarrow> bool" where
  "requestAccepted httpURL env req c \<longleftrightarrow>
     validateValues httpURL (normalizeRequest (envLower env) req) \<and> validateSettings (requestedSettings env req c) = None \<and>
     \<not> isl (newNotifier env (orEmpty (settingsChannels (requestedSettings env req c))) [])"

lemma updateRequest_refused:
  "\<not> requestAccepted httpURL env req (Snapshot (handlerStore st)) \<Longrightarrow>
   updateRequest httpURL env db sys req st = ((422, ''update_settings_invalid''), st)"
  by (auto simp: updateRequest_def requestAccepted_def requestedSettings_def Let_def split: sum.split)

lemma updateRequest_accepted:
  assumes "requestAccepted httpURL env req (Snapshot (handlerStore st))"
  shows "fst (fst (updateRequest httpURL env db sys req st)) \<noteq> 422"
    and "handlerStore (snd (updateRequest httpURL env db sys req st)) =
      fst (snd (updateSettings db (\<lambda>c. Inr (requestedSettings env req c)) (handlerStore st) (handlerTable st)))"
proof -
  obtain r store tab where u: "updateSettings db (\<lambda>c. Inr (requestedSettings env req c)) (handlerStore st) (handlerTable st) = (r, store, tab)"
    by (metis prod_cases3)
  have "updateRequest httpURL env db sys req st =
      (case r of
         Inl e \<Rightarrow> ((500, ''update_settings_failed''), st\<lparr>handlerStore := store, handlerTable := tab\<rparr>)
       | Inr saved \<Rightarrow> applySaved env sys saved (st\<lparr>handlerStore := store, handlerTable := tab\<rparr>))"
    using assms u by (auto simp: updateRequest_def requestAccepted_def requestedSettings_def Let_def split: sum.splits)
  then show "fst (fst (updateRequest httpURL env db sys req st)) \<noteq> 422"
    "handlerStore (snd (updateRequest httpURL env db sys req st)) =
      fst (snd (updateSettings db (\<lambda>c. Inr (requestedSettings env req c)) (handlerStore st) (handlerTable st)))"
    using u applySaved_store by (cases r; simp)+
qed

lemma updateSettings_current:
  "currentSettings (fst (snd (updateSettings db (\<lambda>c. Inr (f c)) s tab))) \<in>
     {currentSettings s, ApplyDefaults (f (Clone (currentSettings s)))}"
  by (auto simp: updateSettings_def Let_def split: prod.split option.split)

text \<open>
  C35: Updates keep the settings in force consistent: if they are consistent when the server starts, as the default settings are,
  then until it stops, whatever requests come, in whatever way saving, the proxy and the relay answer, the settings in memory name only
  channels that exist, every login provider is an enabled channel, and when a code is required there is a provider. (What a restart
  loads after an update that was saved by halves need not be consistent.)
\<close>
theorem settings_stay_consistent:
  assumes "validateSettings (currentSettings (handlerStore st)) = None"
  shows "validateSettings (currentSettings (handlerStore
    (fold (\<lambda>(db, sys, req) st. snd (updateRequest httpURL env db sys req st)) reqs st))) = None"
  using assms
proof (induction reqs arbitrary: st)
  case (Cons r reqs)
  obtain db sys req where r: "r = (db, sys, req)" by (cases r)
  have "validateSettings (currentSettings (handlerStore (snd (updateRequest httpURL env db sys req st)))) = None"
  proof (cases "requestAccepted httpURL env req (Snapshot (handlerStore st))")
    case False
    with Cons.prems show ?thesis by (simp add: updateRequest_refused)
  next
    case True
    then have "validateSettings (ApplyDefaults (requestedSettings env req (Clone (currentSettings (handlerStore st))))) = None"
      by (intro validateSettings_defaults) (simp add: requestAccepted_def Snapshot_def)
    with Cons.prems updateSettings_current [of db "requestedSettings env req" "handlerStore st" "handlerTable st"]
    show ?thesis unfolding updateRequest_accepted(2) [OF True] by auto
  qed
  with Cons.IH r show ?case by simp
qed simp

theorem settings_stay_consistent_witness:
  "validateSettings (currentSettings (handlerStore
    (fold (\<lambda>(db, sys, req) st. snd (updateRequest (\<lambda>_. True) exampleNotifyEnv db sys req st))
      [(\<lambda>_. None, exampleSystem, \<lparr>valuesAuth = \<lparr>authProviders = Some ['' telegram''], otpRequired = True\<rparr>, valuesProxy = DefaultProxy,
          valuesChannels = [(''telegram'', emptyChannel\<lparr>channelOn := Some True, botToken := ''t'', channelRecipients := [''42'']\<rparr>)]\<rparr>)]
      \<lparr>handlerStore = \<lparr>storeDB = True, currentSettings = DefaultSettings, memoryStore = False\<rparr>, handlerTable = [],
       handlerProxy = newProxy exampleConfig, relayNotifier = []\<rparr>))) = None"
  by (rule settings_stay_consistent) (simp add: validateSettings_iff DefaultSettings_def defaults_fields, simp add: emptySettings_def emptyAuth_def orEmpty_def)

section \<open>A login code reaches its providers\<close>

definition lowText :: "char \<Rightarrow> bool" where "lowText c \<longleftrightarrow> c \<in> set ''abcdefghijklmnopqrstuvwxyz0123456789_''"

definition lowerLaw :: "(string \<Rightarrow> string) \<Rightarrow> bool" where
  "lowerLaw f \<longleftrightarrow> (\<forall>s. list_all lowText s \<longrightarrow> f s = s)"

lemma allowed_lower: "lowerLaw f \<Longrightarrow> name \<in> set allowedChannelNames \<Longrightarrow> f name = name"
  by (auto simp: lowerLaw_def allowedChannelNames_list lowText_def)

lemma allowed_trim: "name \<in> set allowedChannelNames \<Longrightarrow> trim_space name = name"
  by (auto simp: allowedChannelNames_list trim_space_graphic graphic_def)

text \<open>
  C34: With consistent settings a login code for some providers reaches each of them, once each and with a request to its service, and
  no error means that all requests were answered without one.
\<close>
theorem login_code_reaches_providers:
  assumes "validateSettings c = None" and "newNotifier env (orEmpty (settingsChannels c)) [] = Inr n" and "lowerLaw (envLower env)"
    and "distinct (map fst (orEmpty (settingsChannels c)))" and "orEmpty (authProviders (settingsAuth c)) = p # ps"
  shows "map fst (fst (notifierSend post intl (envLower env) n (OTPEvent code) (p # ps))) = sort (p # ps) \<and>
    (\<forall>(t, requests) \<in> set (fst (notifierSend post intl (envLower env) n (OTPEvent code) (p # ps))). requests \<noteq> []) \<and>
    (snd (notifierSend post intl (envLower env) n (OTPEvent code) (p # ps)) = [] \<longleftrightarrow>
     (\<forall>(t, requests) \<in> set (fst (notifierSend post intl (envLower env) n (OTPEvent code) (p # ps))). \<forall>r \<in> set requests. post r = None))"
proof -
  let ?cs = "orEmpty (settingsChannels c)"
  have names: "\<forall>e \<in> set ?cs. envLower env (fst e) = fst e"
    using assms(1,3) allowed_lower by (auto simp: validateSettings_iff)
  then have low: "map (\<lambda>e. envLower env (fst e)) ?cs = map fst ?cs" by simp
  have keys: "map fst n = map (\<lambda>e. envLower env (fst e)) (filter (\<lambda>e. IsEnabled (snd e)) ?cs)"
    using newNotifier_keys [OF assms(2)] low assms(4) by simp
  have prov: "q \<in> fst ` set n \<and> envLower env q = q" if "q \<in> set (p # ps)" for q
  proof -
    have "providerEnabled ?cs q" using assms(1,5) that by (auto simp: validateSettings_iff)
    then obtain ch where ch: "(q, ch) \<in> set ?cs" "IsEnabled ch" by (auto simp: providerEnabled_def dest: map_of_SomeD split: option.splits)
    then have "envLower env q = q" using names by force
    moreover have "q \<in> set (map (\<lambda>e. envLower env (fst e)) (filter (\<lambda>e. IsEnabled (snd e)) ?cs))" using ch calculation by force
    then have "q \<in> set (map fst n)" unfolding keys .
    ultimately show ?thesis by simp
  qed
  then have "map (envLower env) (p # ps) = p # ps" by (intro map_idI) blast
  then have targets: "notifierTargets (envLower env) n (p # ps) = sort (p # ps)"
    using prov by (simp add: notifierTargets_def filter_id_conv)
  have "\<exists>s. map_of n t = Some s \<and> goodSender s" if t: "t \<in> set (p # ps)" for t
  proof -
    obtain s where "map_of n t = Some s" using prov [OF t] by (cases "map_of n t") (auto simp: map_of_eq_None_iff)
    then show ?thesis using newNotifier_good [OF assms(2)] by (force dest: map_of_SomeD)
  qed
  then have good: "\<forall>t \<in> set (sort (p # ps)). \<exists>s. map_of n t = Some s \<and> goodSender s" unfolding set_sort by blast
  from notifierSend_good [OF targets good] show ?thesis .
qed

theorem login_code_reaches_providers_witness:
  "map fst (fst (notifierSend (\<lambda>_. None) (\<lambda>_. None) (envLower exampleNotifyEnv) [(''bark'', BarkSender ''https://api.day.app'' [''key''])]
      (OTPEvent ''123456'') [''bark''])) = sort [''bark'']"
proof -
  have "validateSettings exampleSettings = None" by code_simp
  moreover have "newNotifier exampleNotifyEnv (orEmpty (settingsChannels exampleSettings)) [] = Inr [(''bark'', BarkSender ''https://api.day.app'' [''key''])]"
    by code_simp
  moreover have "lowerLaw (envLower exampleNotifyEnv)" by (simp add: lowerLaw_def exampleNotifyEnv_def)
  moreover have "distinct (map fst (orEmpty (settingsChannels exampleSettings)))" by code_simp
  moreover have "orEmpty (authProviders (settingsAuth exampleSettings)) = [''bark'']" by code_simp
  ultimately show ?thesis by (rule login_code_reaches_providers [THEN conjunct1])
qed

section \<open>The form and the settings\<close>

lemma rebuildMap_distinct: "distinct (map fst (rebuildMap f l))"
proof -
  have "distinct (map fst acc) \<Longrightarrow> distinct (map fst (foldl (\<lambda>acc e. AList.update (fst (f e)) (snd (f e)) acc) acc l))" for acc
    by (induction l arbitrary: acc) (auto simp: distinct_update)
  from this [of "[]"] show ?thesis by (simp add: rebuildMap_def)
qed

lemma rebuildMap_id: "distinct (map (\<lambda>e. fst (f e)) l) \<Longrightarrow> rebuildMap f l = map f l"
proof -
  have "distinct (map fst acc @ map (\<lambda>e. fst (f e)) l) \<Longrightarrow>
      foldl (\<lambda>acc e. AList.update (fst (f e)) (snd (f e)) acc) acc l = acc @ map f l" for acc
    by (induction l arbitrary: acc) (auto simp: update_fresh)
  from this [of "[]"] show "distinct (map (\<lambda>e. fst (f e)) l) \<Longrightarrow> rebuildMap f l = map f l" by (simp add: rebuildMap_def)
qed

lemma rebuildMap_member: "e \<in> set (rebuildMap f l) \<Longrightarrow> e \<in> f ` set l"
proof -
  have "e \<in> set (foldl (\<lambda>acc e. AList.update (fst (f e)) (snd (f e)) acc) acc l) \<Longrightarrow> e \<in> set acc \<union> f ` set l" for acc
    by (induction l arbitrary: acc) (use update_member in fastforce)+
  from this [of "[]"] show "e \<in> set (rebuildMap f l) \<Longrightarrow> e \<in> f ` set l" by (simp add: rebuildMap_def)
qed

text \<open>A channel as it is stored: normal and valid fields, and only those of its kind.\<close>

definition normalChannel :: "channelSettings \<Rightarrow> bool" where
  "normalChannel c \<longleftrightarrow>
     trim_space (channelEndpoint c) = channelEndpoint c \<and> trim_space (botToken c) = botToken c \<and>
     list_all (\<lambda>r. trim_space r = r \<and> r \<noteq> []) (channelRecipients c) \<and>
     distinct (map fst (channelHeaders c)) \<and> list_all (\<lambda>(k, v). trim_space k = k \<and> trim_space v = v) (channelHeaders c) \<and>
     trim_space (smtpHost c) = smtpHost c \<and> trim_space (smtpUsername c) = smtpUsername c \<and> trim_space (smtpPassword c) = smtpPassword c \<and>
     trim_space (smtpFrom c) = smtpFrom c \<and> tlsPolicy c \<in> {[], ''mandatory'', ''opportunistic'', ''none'', ''notls'', ''no_tls''} \<and>
     channelOn c \<noteq> None"

lemma filter_idem [simp]: "filterChannelValue name (filterChannelValue name c) = filterChannelValue name c"
  by (simp add: filterChannelValue_def emptyChannel_def Let_def)

lemma headers_rebuild:
  assumes "distinct (map fst l)" and "list_all (\<lambda>(k, v). trim_space k = k \<and> trim_space v = v) l"
  shows "rebuildMap (map_prod trim_space trim_space) l = l"
proof -
  have id: "map (map_prod trim_space trim_space) l = l" using assms(2) by (induction l) auto
  have same: "map (\<lambda>e. fst (map_prod trim_space trim_space e)) l = map fst l"
    using assms(2) by (intro map_cong refl) (auto simp: list_all_iff)
  have "distinct (map (\<lambda>e. fst (map_prod trim_space trim_space e)) l)" unfolding same by (rule assms(1))
  from rebuildMap_id [OF this] id show ?thesis by simp
qed

lemma normalize_normal:
  assumes "normalChannel c" and "lowerLaw f"
  shows "normalizeChannelValue f c = c"
proof -
  have "map trim_space (channelRecipients c) = channelRecipients c"
    using assms(1) by (intro map_idI) (auto simp: normalChannel_def list_all_iff)
  moreover have "f (trim_space (tlsPolicy c)) = tlsPolicy c"
    using assms by (auto simp: normalChannel_def lowerLaw_def lowText_def trim_space_graphic graphic_def)
  ultimately show ?thesis using assms(1) headers_rebuild by (simp add: normalizeChannelValue_def normalChannel_def)
qed

lemma stored_channel_normal:
  assumes "channelValid httpURL (filterChannelValue name (normalizeChannelValue f c))"
  shows "normalChannel (filterChannelValue name (normalizeChannelValue f c))"
proof -
  let ?hs = "rebuildMap (map_prod trim_space trim_space) (channelHeaders c)"
  have "list_all (\<lambda>(k, v). trim_space k = k \<and> trim_space v = v) ?hs"
    using rebuildMap_member [of _ "map_prod trim_space trim_space" "channelHeaders c"] by (fastforce simp: list_all_iff)
  then show ?thesis
    using assms rebuildMap_distinct
    by (auto simp: normalChannel_def channelValid_def filterChannelValue_def normalizeChannelValue_def emptyChannel_def Let_def list_all_iff
        split: if_splits)
qed

lemma shown_channel:
  assumes "normalChannel c" and "filterChannelValue name c = c"
  shows "channelSettingsValues name c = c"
proof -
  have "Some (IsEnabled c) = channelOn c" using assms(1) by (cases "channelOn c") (auto simp: normalChannel_def IsEnabled_def)
  moreover have "recipientStrings (channelRecipients c) = channelRecipients c"
    using assms(1) recipientStrings_id by (auto simp: normalChannel_def)
  ultimately show ?thesis using assms(2) by (simp add: channelSettingsValues_def)
qed

lemma uniqueNames_distinct: "distinct (uniqueNames seen ns) \<and> set (uniqueNames seen ns) = set ns - set seen"
  by (induction seen ns rule: uniqueNames.induct) auto

lemma uniqueNames_id: "distinct ns \<Longrightarrow> set ns \<inter> set seen = {} \<Longrightarrow> uniqueNames seen ns = ns"
  by (induction seen ns rule: uniqueNames.induct) auto

lemma normalizeNames_orEmpty: "orEmpty (normalizeNames names) = sort (uniqueNames [] (orEmpty names))"
  by (simp add: normalizeNames_def orEmpty_def split: list.split)

lemma normalizeNames_idem: "normalizeNames (Some (orEmpty (normalizeNames names))) = normalizeNames names"
proof -
  have "uniqueNames [] (sort (uniqueNames [] (orEmpty names))) = sort (uniqueNames [] (orEmpty names))"
    using uniqueNames_distinct by (intro uniqueNames_id) auto
  then have "sort (uniqueNames [] (orEmpty (Some (orEmpty (normalizeNames names))))) = sort (uniqueNames [] (orEmpty names))"
    by (simp add: normalizeNames_orEmpty sorted_sort_id)
  then show ?thesis by (simp only: normalizeNames_def)
qed

lemma updateRequest_ok:
  assumes "updateRequest httpURL env db sys req st = ((200, []), st')"
  shows "requestAccepted httpURL env req (Snapshot (handlerStore st))"
    and "currentSettings (handlerStore st') = ApplyDefaults (requestedSettings env req (Clone (currentSettings (handlerStore st))))"
proof -
  show acc: "requestAccepted httpURL env req (Snapshot (handlerStore st))" using assms updateRequest_refused by fastforce
  obtain r store tab where u: "updateSettings db (\<lambda>c. Inr (requestedSettings env req c)) (handlerStore st) (handlerTable st) = (r, store, tab)"
    by (metis prod_cases3)
  have "\<not> isl r" using assms acc u
    by (cases r) (auto simp: updateRequest_def requestAccepted_def requestedSettings_def Let_def split: sum.splits)
  with u have "store = (handlerStore st)\<lparr>currentSettings := ApplyDefaults (requestedSettings env req (Clone (currentSettings (handlerStore st))))\<rparr>"
    by (auto simp: updateSettings_def Let_def split: prod.splits option.splits)
  with updateRequest_accepted(2) [OF acc, of db sys] u assms show
    "currentSettings (handlerStore st') = ApplyDefaults (requestedSettings env req (Clone (currentSettings (handlerStore st))))" by simp
qed

text \<open>The sections of an accepted request, as they are stored.\<close>

definition storedSections :: "(string \<Rightarrow> bool) \<Rightarrow> notifyEnv \<Rightarrow> loginSettings \<Rightarrow> (string \<times> channelSettings) list \<Rightarrow> proxySettings \<Rightarrow> bool" where
  "storedSections httpURL env auth channels proxy \<longleftrightarrow>
     normalizeNames (Some (orEmpty (authProviders auth))) = authProviders auth \<and>
     (\<forall>p \<in> set (orEmpty (authProviders auth)). p \<in> set allowedChannelNames) \<and>
     distinct (map fst channels) \<and>
     (\<forall>(name, c) \<in> set channels. name \<in> set allowedChannelNames \<and> normalChannel c \<and> filterChannelValue name c = c \<and> channelValid httpURL c) \<and>
     trim_space (listenAddress proxy) = listenAddress proxy \<and> listenAddress proxy \<noteq> [] \<and>
     1 \<le> httpPort proxy \<and> httpPort proxy \<le> 65535 \<and> 1 \<le> socks5Port proxy \<and> socks5Port proxy \<le> 65535"

lemma normalizeChannels_filter: "normalizeChannels (filterChannelValues cs) = filterChannelValues cs"
  by (simp add: normalizeChannels_def filterChannelValues_def channelSettingsFromValues_def split_beta)

lemma accepted_sections:
  assumes "requestAccepted httpURL env req c"
  shows "\<exists>auth channels proxy. requestedSettings env req = withSections auth channels proxy \<and> storedSections httpURL env auth channels proxy"
proof -
  let ?req = "normalizeRequest (envLower env) req"
  let ?auth = "authSettingsFromValues (valuesAuth ?req)"
  let ?channels = "valuesChannels ?req"
  have "normalizeChannels ?channels = ?channels" by (simp add: normalizeRequest_def normalizeChannels_filter)
  then have sections: "requestedSettings env req = withSections ?auth ?channels (valuesProxy ?req)" by (simp add: requestedSettings_def Let_def)
  have valid: "validateValues httpURL ?req" and ok: "validateSettings (withSections ?auth ?channels (valuesProxy ?req) c) = None"
    using assms sections by (simp_all add: requestAccepted_def)
  have names: "\<forall>e \<in> set ?channels. fst e \<in> set allowedChannelNames" using ok by (simp add: validateSettings_iff withSections_def)
  have "p \<in> set allowedChannelNames" if "p \<in> set (orEmpty (authProviders ?auth))" for p
    using ok that names
    by (auto simp: validateSettings_iff withSections_def providerEnabled_def dest!: bspec [of _ _ p] map_of_SomeD split: option.splits)
  moreover have "normalizeNames (Some (orEmpty (authProviders ?auth))) = authProviders ?auth"
    using normalizeNames_idem by (simp add: authSettingsFromValues_def)
  moreover have "distinct (map fst ?channels)"
    using rebuildMap_distinct by (simp add: normalizeRequest_def filterChannelValues_def normalizeChannelValues_def comp_def split_beta)
  moreover have "normalChannel ch \<and> filterChannelValue name ch = ch \<and> channelValid httpURL ch" if e: "(name, ch) \<in> set ?channels" for name ch
  proof -
    have v: "channelValid httpURL ch" using valid e by (auto simp: validateValues_def list_all_iff)
    obtain c0 where "(name, c0) \<in> set (normalizeChannelValues (envLower env) (valuesChannels req))" "ch = filterChannelValue name c0"
      using e by (auto simp: normalizeRequest_def filterChannelValues_def)
    moreover from this(1) obtain c1 where "c0 = normalizeChannelValue (envLower env) c1"
      unfolding normalizeChannelValues_def by (auto dest!: rebuildMap_member)
    ultimately show ?thesis using v stored_channel_normal by simp
  qed
  ultimately have "storedSections httpURL env ?auth ?channels (valuesProxy ?req)"
    using valid names by (fastforce simp: storedSections_def validateValues_def normalizeRequest_def)
  with sections show ?thesis by blast
qed

lemma stored_shown:
  assumes "storedSections httpURL env auth channels proxy" and "lowerLaw (envLower env)"
    and "c = ApplyDefaults (withSections auth channels proxy c0)"
  shows "requestedSettings env (valuesFromSettings c) = withSections auth channels proxy"
    and "valuesProxy (normalizeRequest (envLower env) (valuesFromSettings c)) = proxy"
    and "valuesChannels (normalizeRequest (envLower env) (valuesFromSettings c)) = channels"
    and "orEmpty (authProviders (valuesAuth (normalizeRequest (envLower env) (valuesFromSettings c)))) = orEmpty (authProviders auth)"
proof -
  let ?f = "envLower env"
  have ch: "name \<in> set allowedChannelNames" "normalChannel x" "filterChannelValue name x = x" if "(name, x) \<in> set channels" for name x
    using assms(1) that by (auto simp: storedSections_def)
  have "map_prod id enableChannel e = e" if "e \<in> set channels" for e
    using ch(2) [of "fst e" "snd e"] that by (cases e) (auto simp: enableChannel_def normalChannel_def)
  then have channels: "orEmpty (settingsChannels c) = channels"
    unfolding assms(3) defaults_fields by (simp add: withSections_def map_idI)
  have shownChannels: "map (\<lambda>(name, x). (name, channelSettingsValues name x)) channels = channels"
    using shown_channel ch by (intro map_idI) (auto split: prod.splits)
  have "map (\<lambda>e. fst ((\<lambda>(name, x). (?f (trim_space name), normalizeChannelValue ?f x)) e)) channels = map fst channels"
    using ch(1) allowed_trim allowed_lower [OF assms(2)] by (intro map_cong refl) auto
  then have "distinct (map (\<lambda>e. fst ((\<lambda>(name, x). (?f (trim_space name), normalizeChannelValue ?f x)) e)) channels)"
    using assms(1) by (metis storedSections_def)
  then have "normalizeChannelValues ?f channels = map (\<lambda>(name, x). (?f (trim_space name), normalizeChannelValue ?f x)) channels"
    unfolding normalizeChannelValues_def by (rule rebuildMap_id)
  also have "\<dots> = channels"
    using ch normalize_normal [OF _ assms(2)] allowed_trim allowed_lower [OF assms(2)] by (intro map_idI) (auto split: prod.splits)
  finally have "filterChannelValues (normalizeChannelValues ?f channels) = channels"
    using ch(3) by (auto simp: filterChannelValues_def intro!: map_idI split: prod.splits)
  moreover have proxy: "ProxySettings c = proxy"
    using assms(1) by (simp add: assms(3) ProxySettings_def ApplyDefaults_def withSections_def storedSections_def)
  moreover have auth: "settingsAuth c = auth\<lparr>authProviders := Some (orEmpty (authProviders auth))\<rparr>"
    by (simp add: assms(3) ApplyDefaults_def withSections_def orEmpty_def)
  moreover have "map (\<lambda>n. ?f (trim_space n)) (orEmpty (authProviders auth)) = orEmpty (authProviders auth)"
    using assms(1) allowed_trim allowed_lower [OF assms(2)] by (intro map_idI) (auto simp: storedSections_def)
  moreover have "proxy\<lparr>listenAddress := trim_space (listenAddress proxy)\<rparr> = proxy"
    using assms(1) by (cases proxy) (simp add: storedSections_def)
  ultimately have req: "normalizeRequest ?f (valuesFromSettings c) =
      \<lparr>valuesAuth = auth\<lparr>authProviders := Some (orEmpty (authProviders auth))\<rparr>, valuesProxy = proxy, valuesChannels = channels\<rparr>"
    using channels shownChannels by (simp add: normalizeRequest_def valuesFromSettings_def trimNames_def)
  then show "valuesProxy (normalizeRequest ?f (valuesFromSettings c)) = proxy"
    "valuesChannels (normalizeRequest ?f (valuesFromSettings c)) = channels"
    "orEmpty (authProviders (valuesAuth (normalizeRequest ?f (valuesFromSettings c)))) = orEmpty (authProviders auth)"
    by simp_all
  have "normalizeChannels channels = channels"
    using ch(3) by (auto simp: normalizeChannels_def channelSettingsFromValues_def intro!: map_idI split: prod.splits)
  moreover have "authSettingsFromValues (auth\<lparr>authProviders := Some (orEmpty (authProviders auth))\<rparr>) = auth"
    using assms(1) by (cases auth) (simp add: authSettingsFromValues_def storedSections_def)
  ultimately show "requestedSettings env (valuesFromSettings c) = withSections auth channels proxy"
    by (simp add: requestedSettings_def req Let_def)
qed

text \<open>
  C33: What the form shows is what is stored: after a request was carried out, sending back the values that are shown is accepted, and it
  leaves the settings as they are, however the database, the proxy and the relay answer.
\<close>
theorem settings_form_round_trip:
  assumes "updateRequest httpURL env db sys req st = ((200, []), st')" and "lowerLaw (envLower env)"
    and "updateRequest httpURL env db' sys' (valuesFromSettings (Snapshot (handlerStore st'))) st' = (reply, st'')"
  shows "fst reply \<noteq> 422 \<and> handlerStore st'' = handlerStore st'"
proof -
  let ?c = "currentSettings (handlerStore st')"
  obtain auth channels proxy where s: "requestedSettings env req = withSections auth channels proxy"
    "storedSections httpURL env auth channels proxy" using accepted_sections [OF updateRequest_ok(1) [OF assms(1)]] by blast
  let ?old = "Clone (currentSettings (handlerStore st))"
  have c: "?c = ApplyDefaults (withSections auth channels proxy ?old)" using updateRequest_ok(2) [OF assms(1)] unfolding s(1) .
  then have clone: "Clone ?c = ?c" "Snapshot (handlerStore st') = ?c" by (simp_all add: Snapshot_def)
  note shown = stored_shown [OF s(2) assms(2) c]
  have "validateSettings (withSections auth channels proxy ?old) = None"
    and notifier: "\<not> isl (newNotifier env channels [])"
    using updateRequest_ok(1) [OF assms(1)] s(1) by (simp_all add: requestAccepted_def Snapshot_def withSections_def)
  then have "validateSettings (withSections auth channels proxy ?c) = None"
    using validateSettings_fields [of "withSections auth channels proxy ?c" "withSections auth channels proxy ?old"] by (simp add: withSections_def)
  moreover have "\<forall>p \<in> set (orEmpty (authProviders auth)). p \<noteq> []"
    using s(2) by (auto simp: storedSections_def allowedChannelNames_list)
  then have "validateValues httpURL (normalizeRequest (envLower env) (valuesFromSettings ?c))"
    using s(2) unfolding validateValues_def shown(2-4) by (auto simp: storedSections_def list_all_iff)
  ultimately have acc: "requestAccepted httpURL env (valuesFromSettings ?c) (Snapshot (handlerStore st'))"
    using notifier by (simp add: requestAccepted_def clone(2) shown(1)) (simp add: withSections_def)
  have "ApplyDefaults (withSections auth channels proxy ?c) = ?c"
    unfolding c by (auto simp: ApplyDefaults_def withSections_def split: option.split)
  then have "fst (snd (updateSettings db' (\<lambda>c. Inr (withSections auth channels proxy c)) (handlerStore st') (handlerTable st'))) = handlerStore st'"
    by (auto simp: updateSettings_def Let_def clone(1) split: prod.split option.split)
  then show ?thesis
    using updateRequest_accepted [OF acc, of db' sys'] assms(3) by (simp add: clone(2) shown(1))
qed

definition exampleForm :: settingsValues where
  "exampleForm =
     \<lparr>valuesAuth = \<lparr>authProviders = Some ['' telegram''], otpRequired = True\<rparr>, valuesProxy = DefaultProxy,
      valuesChannels = [(''telegram '', emptyChannel\<lparr>channelOn := Some True, botToken := '' t'', channelRecipients := [''42 '']\<rparr>)]\<rparr>"

definition exampleHandler :: handlerState where
  "exampleHandler =
     \<lparr>handlerStore = \<lparr>storeDB = True, currentSettings = DefaultSettings, memoryStore = False\<rparr>, handlerTable = [],
      handlerProxy = newProxy exampleConfig, relayNotifier = []\<rparr>"

theorem settings_form_round_trip_witness:
  "handlerStore (snd (updateRequest (\<lambda>_. True) exampleNotifyEnv (\<lambda>_. Some ''locked'') exampleSystem
      (valuesFromSettings (Snapshot (handlerStore (snd (updateRequest (\<lambda>_. True) exampleNotifyEnv (\<lambda>_. None) exampleSystem exampleForm exampleHandler)))))
      (snd (updateRequest (\<lambda>_. True) exampleNotifyEnv (\<lambda>_. None) exampleSystem exampleForm exampleHandler)))) =
    handlerStore (snd (updateRequest (\<lambda>_. True) exampleNotifyEnv (\<lambda>_. None) exampleSystem exampleForm exampleHandler))"
proof -
  have "fst (updateRequest (\<lambda>_. True) exampleNotifyEnv (\<lambda>_. None) exampleSystem exampleForm exampleHandler) = (200, [])"
    by code_simp
  then have "updateRequest (\<lambda>_. True) exampleNotifyEnv (\<lambda>_. None) exampleSystem exampleForm exampleHandler =
      ((200, []), snd (updateRequest (\<lambda>_. True) exampleNotifyEnv (\<lambda>_. None) exampleSystem exampleForm exampleHandler))"
    by (simp add: prod_eq_iff)
  from settings_form_round_trip [OF this _ prod.collapse [symmetric]] show ?thesis
    by (simp add: lowerLaw_def exampleNotifyEnv_def)
qed

section \<open>What is lost\<close>

text \<open>
  Two keys of the request that differ in case or white space are one channel; which of the two values it gets depends on the order in
  which the map is visited, which Go leaves open.
\<close>
theorem colliding_channels_depend_on_order:
  "map_of (normalizeChannelValues (\<lambda>s. s) [(''bark'', emptyChannel), ('' bark'', emptyChannel\<lparr>channelOn := Some True\<rparr>)]) ''bark'' \<noteq>
   map_of (normalizeChannelValues (\<lambda>s. s) [('' bark'', emptyChannel\<lparr>channelOn := Some True\<rparr>), (''bark'', emptyChannel)]) ''bark''"
  by code_simp

text \<open>When the proxy cannot be changed, the new settings hold but the relay keeps the notifier of the old ones.\<close>

theorem proxy_failure_keeps_old_notifier:
  assumes "fst (UpdateConfig sys [] (internetProxyConfig saved) (handlerProxy st)) \<noteq> []"
  shows "relayNotifier (snd (applySaved env sys saved st)) = relayNotifier st \<and> fst (fst (applySaved env sys saved st)) = 500"
  using assms by (auto simp: applySaved_def Let_def split_beta)

end
