(* ===== verification/Spec2Isabelle.thy ===== *)
theory Spec2Isabelle
  imports AmrBits AmrStorage Pcm Atr SimRefresh AuthStore CallControl DefaultRoutes Netlink ConnectorExample Relay Msisdn ProxyHttp ProxySocks NetworkPrefs Ussd SettingsHandler
begin

text \<open>
  Sigmo (Go) manages cellular modems: it keeps ModemManager modems and their SIM cards usable,
  routes internet traffic through them, places calls over Wi-Fi Calling and serves all of this
  over HTTP behind a login. The development models the parts that carry logic of their own.

  \<^bold>\<open>Prelude.\<close> \<open>GoPrelude\<close>: bytes, Go's fixed-width arithmetic, results as sums (\<open>Inl\<close> an error,
  \<open>Inr\<close> a value), state passing (\<open>ebind\<close>, \<open>checked\<close>), \<open>strings.TrimSpace\<close>, decimal and hex texts.

  \<^bold>\<open>Media codecs.\<close> \<open>AmrCodec\<close>, \<open>AmrBits\<close>, \<open>AmrStorage\<close> (\<open>pro/voicecodec/amr.go\<close>): the two RTP payload
  formats of AMR, bit by bit, and the storage format, from memory and from streams. \<open>Pcm\<close>
  (\<open>pcmu.go\<close>, \<open>resample.go\<close>): mu-law and the linear resampler.

  \<^bold>\<open>Modems.\<close> \<open>Atr\<close> (\<open>internal/pkg/modem/atr.go\<close>): reading the answer to reset of a card. \<open>SimRefresh\<close>
  (\<open>sim_refresh.go\<close>, \<open>qmi_uim.go\<close>): waiting for a card to become visible, with its recovery steps. \<open>Dbus\<close>
  (\<open>variant.go\<close>, \<open>dbus.go\<close>, \<open>sim.go\<close>): the values ModemManager sends. \<open>Registry\<close> (\<open>registry.go\<close>): the modems
  that are there, the signals that change them, and the wait for one to come back. \<open>Presence\<close>
  (\<open>presence_runner.go\<close>): one task for each modem, and that the tasks follow the registry. \<open>AtCommands\<close>
  (\<open>modem/at\<close>): commands over the serial port and access to the card. \<open>Msisdn\<close> (\<open>modem/msisdn\<close>): writing the number
  of the subscriber to the card. \<open>ModemConstants\<close> (\<open>constants.go\<close>): the names of the enumerations and the masks.
  \<open>NetworkPrefs\<close> (\<open>network_preferences.go\<close>, \<open>handler/network\<close>): modes, bands and operator, set, saved in the table of
  \<open>AppState\<close> (\<open>storage/app_state.go\<close>) and restored. \<open>Ussd\<close> (\<open>internal/pkg/ussd\<close>): USSD sessions and their route.

  \<^bold>\<open>Login.\<close> \<open>AuthStore\<close> (\<open>internal/app/auth\<close>, \<open>handler/auth\<close>, \<open>middleware/auth.go\<close>): one-time
  passwords, tokens, and the gate in front of the API.

  \<^bold>\<open>Calls.\<close> \<open>CallStore\<close> (\<open>internal/pkg/storage/calls.go\<close>): the table of call records. \<open>VoiceSession\<close>
  (\<open>pro/wificalling\<close>): the sessions of the Wi-Fi Calling client and the calls in them. \<open>CallControl\<close>
  (\<open>pro/call\<close>): the call service, which asks the former and records in the latter.

  \<^bold>\<open>Messages.\<close> \<open>Simulation\<close>: when a component implements a simpler one. \<open>MessageStore\<close>
  (\<open>internal/pkg/storage/messages.go\<close>): the table of SMS messages. \<open>SmsTracker\<close> (\<open>pro/wificalling/sms.go\<close>): delivery
  reports of messages sent over Wi-Fi Calling, and the storing of a sent message. \<open>Messenger\<close>
  (\<open>internal/pkg/message\<close>, \<open>modem/messaging.go\<close>): sending by the modem or over Wi-Fi Calling. \<open>Relay\<close>
  (\<open>internal/app/forwarder\<close>): which incoming messages and calls are notified, and of which modems.

  \<^bold>\<open>Settings and notifications.\<close> \<open>Settings\<close> (\<open>internal/pkg/settings\<close>): the settings in memory and in the table of
  application state, and that they survive a restart. \<open>Notify\<close> (\<open>internal/pkg/notify\<close>, \<open>phonenumber\<close>): what each channel
  shows of an event, the senders, and whom a notification reaches. \<open>SettingsHandler\<close> (\<open>internal/app/handler/settings\<close>): the
  form, its checks, and an update through the store, the proxy and the relay.

  \<^bold>\<open>Routes.\<close> \<open>DefaultRoutes\<close> (\<open>internal/pkg/internet/default_route.go\<close>): how the default routes of the
  host are moved out of the way of a modem, and put back. \<open>Netlink\<close> (\<open>internal/pkg/netlink\<close>): the
  requests and route dumps exchanged with the kernel. \<open>Apn\<close> (\<open>apn.go\<close>): the access point of a card.
  \<open>BearerConfig\<close> (\<open>bearer_config.go\<close>, \<open>connection_state.go\<close>): a bearer's addresses and routes on its
  interface. \<open>Connector\<close> (\<open>connection.go\<close>, \<open>always_on.go\<close>): the connections of all modems.
  \<open>ConnectorFrame\<close>, \<open>ConnectorFlags\<close>, \<open>ConnectorRoutes\<close> and \<open>ConnectorExample\<close> prove what its operations keep and
  give back, and run them on a small machine.

  \<^bold>\<open>Proxy.\<close> \<open>Proxy\<close> (\<open>internal/pkg/internet/proxy.go\<close>): which user's connections leave through which interface, and
  that what is open is known and can be closed. \<open>ProxyHttp\<close> (\<open>proxy_http.go\<close>): credentials, tunnels and the headers of
  forwarded requests. \<open>ProxySocks\<close> (\<open>proxy_socks5.go\<close>): the relay of UDP packets for one client.

  Code that is not under \<open>src/\<close> is an argument: the QMI card reader, ModemManager, the clock and the
  context of a wait (\<open>simEnv\<close>), the kernel's routing table and the database fault (\<open>routeOps\<close>), the Wi-Fi
  Calling library's answers (\<open>imsResult\<close>, \<open>callEvent\<close>), readers and writers of byte streams. What is
  assumed of them is a named predicate (\<open>deadline\<close>, \<open>faithful\<close>, \<open>appending_writer\<close>), each with an
  instance in a witness.

  Loops that wait are bounded by what they are given: \<open>restoreWithRetry\<close>, the polling loops of \<open>SimRefresh\<close> and
  \<open>Registry\<close> and the exchange of \<open>AtCommands\<close> consume one entry of a list of events in each round, so every list is
  an execution up to its end; the termination theorems say from which deadline on a wait has returned. The parsers recurse on the
  bytes that are left.

  \<^bold>\<open>Not modelled.\<close> What only hands its arguments to code that is not under \<open>src/\<close>, so that there is nothing to state
  but the call: the media of calls (\<open>pro/call/webrtc.go\<close>, \<open>ice.go\<close>: WebRTC), the WebAssembly codec
  (\<open>amr_wazero.go\<close>), the transfer and management of eSIM profiles (\<open>pro/esimtransfer\<close>, \<open>internal/pkg/lpa\<close>,
  \<open>euicc\<close>), the HTTP and SMTP clients of the notifications and the card reader of the Wi-Fi Calling client. What is
  input and output without decisions: the HTTP server, its routes, request binding and the remaining handlers
  (\<open>internal/app\<close>), the pages of carriers (\<open>pro/websheet\<close>), public addresses and bound sockets (\<open>ipinfo.go\<close>,
  \<open>dialer.go\<close>), opening a serial port, connecting to D-Bus, opening and migrating the database, copying between the sockets
  of the proxy. The web frontend is TypeScript and is
  left out. Locks are modelled by the steps they make atomic; the memory model of Go is not.
\<close>

end
